(* ===== verification/Prelude.thy ===== *)
theory Prelude
  imports Main "HOL-Library.Word" "HOL-Library.Monad_Syntax"
begin

text \<open>
  Prelude of the AdrBubbleBooter development: bytes, C strings inside byte buffers, 32-bit
  little-endian fields, overlaying a buffer with freshly read bytes, and the fact collections the
  component theories share.

  A C object (a \<open>char\<close> array, a struct image, a file's contents) is a list of bytes. A pointer into
  an object is the suffix of the list that starts there, or an offset. An access outside the object
  is undefined behaviour and is the result \<open>None\<close> of the operation.
\<close>

named_theorems cstr_simps \<open>evaluation of C strings in buffers\<close>
named_theorems ub_free \<open>operations that stay inside their objects\<close>
named_theorems fs_intro \<open>file-system contract rules of the I/O wrappers\<close>
named_theorems inv_intros \<open>operations that keep their component's invariant\<close>

type_synonym byte = char
type_synonym u8 = "8 word"
type_synonym u16 = "16 word"
type_synonym u32 = "32 word"
type_synonym i32 = "32 word"

abbreviation NUL :: byte where
  "NUL \<equiv> CHR 0x00"

abbreviation lit :: "byte list \<Rightarrow> byte list" where
  "lit s \<equiv> s @ [NUL]"

section \<open>C strings in buffers\<close>

definition cstr :: "byte list \<Rightarrow> byte list" where
  "cstr buf = takeWhile (\<lambda>c. c \<noteq> NUL) buf"

definition terminated :: "byte list \<Rightarrow> bool" where
  "terminated buf \<longleftrightarrow> NUL \<in> set buf"

definition plain :: "byte list \<Rightarrow> bool" where
  "plain s \<longleftrightarrow> NUL \<notin> set s"

definition pad_to :: "nat \<Rightarrow> byte list \<Rightarrow> byte list" where
  "pad_to n s = s @ replicate (n - length s) NUL"

lemma cstr_Nil [simp]: "cstr [] = []"
  by (simp add: cstr_def)

lemma cstr_Cons [simp]: "cstr (c # cs) = (if c = NUL then [] else c # cstr cs)"
  by (simp add: cstr_def)

lemma terminated_Nil [simp]: "\<not> terminated []"
  by (simp add: terminated_def)

lemma terminated_Cons [simp]: "terminated (c # cs) \<longleftrightarrow> c = NUL \<or> terminated cs"
  by (auto simp: terminated_def)

lemma terminated_append [simp]: "terminated (xs @ ys) \<longleftrightarrow> terminated xs \<or> terminated ys"
  by (simp add: terminated_def)

lemma terminated_replicate [simp]: "terminated (replicate n NUL) \<longleftrightarrow> 0 < n"
  by (simp add: terminated_def)

lemma plain_Nil [simp]: "plain []"
  by (simp add: plain_def)

lemma plain_Cons [simp]: "plain (c # cs) \<longleftrightarrow> c \<noteq> NUL \<and> plain cs"
  by (auto simp: plain_def)

lemma plain_append [simp]: "plain (xs @ ys) \<longleftrightarrow> plain xs \<and> plain ys"
  by (auto simp: plain_def)

lemma plain_cstr [simp]: "plain (cstr buf)"
  by (induction buf) auto

lemma plain_not_terminated: "plain s \<longleftrightarrow> \<not> terminated s"
  by (simp add: plain_def terminated_def)

lemma plain_take [simp]: "plain s \<Longrightarrow> plain (take n s)"
  by (auto simp: plain_def dest: in_set_takeD)

lemma plain_drop [simp]: "plain s \<Longrightarrow> plain (drop n s)"
  by (auto simp: plain_def dest: in_set_dropD)

lemma cstr_append_NUL: "plain s \<Longrightarrow> cstr (s @ NUL # rest) = s"
  by (induction s) auto

lemma cstr_plain: "plain s \<Longrightarrow> cstr s = s"
  by (induction s) auto

lemma cstr_append_plain: "plain s \<Longrightarrow> cstr (s @ xs) = s @ cstr xs"
  by (induction s) auto

lemma cstr_replicate_NUL [simp]: "cstr (replicate n NUL) = []"
  by (cases n) auto

lemma cstr_append_zeros [simp]: "cstr (t @ replicate k NUL) = cstr t"
  by (induction t) auto

lemma cut_and_pad:
  "take n u @ NUL # drop (Suc (min n (length u))) (replicate (Suc n) NUL) = pad_to (Suc n) (take n u)"
proof -
  have "Suc n - min (length u) n = Suc (n - min (length u) n)"
    by (simp add: Suc_diff_le)
  then show ?thesis
    by (simp add: pad_to_def min.commute)
qed

lemma length_cstr_le: "length (cstr buf) \<le> length buf"
  by (induction buf) auto

lemma length_cstr_less: "terminated buf \<Longrightarrow> length (cstr buf) < length buf"
  by (induction buf) auto

lemma terminated_split: "terminated buf \<Longrightarrow> \<exists>rest. buf = cstr buf @ NUL # rest"
  by (induction buf) auto

lemma cstr_nth_plain: "i < length (cstr buf) \<Longrightarrow> cstr buf ! i = buf ! i"
  by (metis cstr_def takeWhile_nth)

lemma length_pad_to [simp]: "length s \<le> n \<Longrightarrow> length (pad_to n s) = n"
  by (simp add: pad_to_def)

lemma cstr_pad_to: "plain s \<Longrightarrow> length s < n \<Longrightarrow> cstr (pad_to n s) = s"
  by (simp add: pad_to_def cstr_plain)

lemma terminated_pad_to: "length s < n \<Longrightarrow> terminated (pad_to n s)"
  by (simp add: pad_to_def)

lemmas cstr_rules = cstr_append_NUL cstr_plain cstr_append_plain cstr_pad_to terminated_pad_to

section \<open>Overlaying a buffer with bytes that were read into it\<close>

definition overlay :: "byte list \<Rightarrow> byte list \<Rightarrow> byte list" where
  "overlay buf new = new @ drop (length new) buf"

definition overlay_at :: "nat \<Rightarrow> byte list \<Rightarrow> byte list \<Rightarrow> byte list" where
  "overlay_at off buf new = take off buf @ new @ drop (off + length new) buf"

lemma length_overlay [simp]: "length (overlay buf new) = max (length buf) (length new)"
  by (simp add: overlay_def)

lemma overlay_Nil [simp]: "overlay buf [] = buf"
  by (simp add: overlay_def)

lemma overlay_same_length: "length new = length buf \<Longrightarrow> overlay buf new = new"
  by (simp add: overlay_def)

lemma length_overlay_at [simp]:
  "off + length new \<le> length buf \<Longrightarrow> length (overlay_at off buf new) = length buf"
  by (simp add: overlay_at_def)

lemma overlay_at_append:
  "off \<le> length buf \<Longrightarrow> overlay_at (off + length a) (overlay_at off buf a) b = overlay_at off buf (a @ b)"
  by (simp add: overlay_at_def min_def ac_simps)

lemma overlay_at_Nil [simp]: "overlay_at off buf [] = buf"
  by (simp add: overlay_at_def)

lemma overlay_at_0: "overlay_at 0 buf new = overlay buf new"
  by (simp add: overlay_at_def overlay_def)

lemma take_overlay_at [simp]: "off \<le> length buf \<Longrightarrow> take off (overlay_at off buf new) = take off buf"
  by (simp add: overlay_at_def)

lemma drop_overlay_at:
  "off + length new \<le> length buf \<Longrightarrow>
     drop (off + length new) (overlay_at off buf new) = drop (off + length new) buf"
  by (simp add: overlay_at_def)

section \<open>Little-endian 32-bit fields\<close>

definition le32 :: "u32 \<Rightarrow> byte list" where
  "le32 w = [char_of (unat w), char_of (unat w div 256), char_of (unat w div 65536),
             char_of (unat w div 16777216)]"

definition rd32 :: "byte list \<Rightarrow> u32" where
  "rd32 bs = word_of_nat (of_char (bs ! 0) + 256 * of_char (bs ! 1) + 65536 * of_char (bs ! 2)
                          + 16777216 * of_char (bs ! 3))"

lemma length_le32 [simp]: "length (le32 w) = 4"
  by (simp add: le32_def)

lemma nat_bytes4:
  fixes n :: nat
  assumes "n < 2 ^ 32"
  shows "n mod 256 + 256 * (n div 256 mod 256) + 65536 * (n div 65536 mod 256)
         + 16777216 * (n div 16777216 mod 256) = n"
proof -
  define q1 where "q1 = n div 256"
  define q2 where "q2 = q1 div 256"
  define q3 where "q3 = q2 div 256"
  have d2: "n div 65536 = q2" and d3: "n div 16777216 = q3"
    by (simp_all add: q1_def q2_def q3_def flip: div_mult2_eq)
  have "q3 < 256"
    using assms by (simp add: q1_def q2_def q3_def flip: div_mult2_eq)
  moreover have "256 * q1 + n mod 256 = n" "256 * q2 + q1 mod 256 = q1" "256 * q3 + q2 mod 256 = q2"
    by (simp_all add: q1_def q2_def q3_def)
  ultimately show ?thesis
    unfolding d2 d3 q1_def [symmetric] by simp
qed

lemma digit256:
  fixes x m :: nat
  assumes "x \<le> 255"
  shows "(x + 256 * m) mod 256 = x" and "(x + 256 * m) div 256 = m"
  using assms by simp_all

lemma of_char_bytes4:
  fixes a b c d :: char and n :: nat
  defines "n \<equiv> of_char a + 256 * of_char b + 65536 * of_char c + 16777216 * of_char d"
  shows "n < 2 ^ 32" and "n mod 256 = of_char a" and "n div 256 mod 256 = of_char b"
    and "n div 65536 mod 256 = of_char c" and "n div 16777216 mod 256 = of_char d"
proof -
  have lt: "of_char x \<le> (255 :: nat)" for x :: char
    using nat_of_char_less_256 [of x] by linarith
  note bounds = lt [of a] lt [of b] lt [of c] lt [of d]
  show "n < 2 ^ 32"
    using bounds unfolding n_def by simp
  have n1: "n = of_char a + 256 * (of_char b + 256 * (of_char c + 256 * of_char d))"
    unfolding n_def by simp
  have q1: "n div 256 = of_char b + 256 * (of_char c + 256 * of_char d)"
    unfolding n1 by (rule digit256(2) [OF lt])
  have q2: "n div 65536 = of_char c + 256 * of_char d"
    using div_mult2_eq [of n 256 256] unfolding q1 digit256(2) [OF lt] by simp
  have q3: "n div 16777216 = of_char d"
    using div_mult2_eq [of n 65536 256] unfolding q2 digit256(2) [OF lt] by simp
  show "n mod 256 = of_char a"
    unfolding n1 by (rule digit256(1) [OF lt])
  show "n div 256 mod 256 = of_char b"
    unfolding q1 by (rule digit256(1) [OF lt])
  show "n div 65536 mod 256 = of_char c"
    unfolding q2 by (rule digit256(1) [OF lt])
  show "n div 16777216 mod 256 = of_char d"
    unfolding q3 using lt [of d] by simp
qed

lemma char_of_eqI: "n mod 256 = of_char c \<Longrightarrow> char_of n = c"
  for n :: nat
  by (metis char_of_char char_of_mod_256)

lemma rd32_le32 [simp]: "rd32 (le32 w @ rest) = w"
proof -
  have u: "unat w < 2 ^ 32"
    using unsigned_less [of w] by simp
  have "rd32 (le32 w @ rest) = word_of_nat (unat w mod 256 + 256 * (unat w div 256 mod 256)
      + 65536 * (unat w div 65536 mod 256) + 16777216 * (unat w div 16777216 mod 256))"
    unfolding rd32_def le32_def by simp
  then show ?thesis
    unfolding nat_bytes4 [OF u] by simp
qed

lemma rd32_le32' [simp]: "rd32 (le32 w) = w"
  using rd32_le32 [of w "[]"] by simp

lemma le32_rd32:
  assumes "length bs = 4"
  shows "le32 (rd32 bs) = bs"
proof -
  obtain a b c d where bs: "bs = [a, b, c, d]"
    using assms by (auto simp: length_Suc_conv numeral_eq_Suc)
  define n :: nat where "n = of_char a + 256 * of_char b + 65536 * of_char c + 16777216 * of_char d"
  note facts = of_char_bytes4 [of a b c d, folded n_def]
  have "rd32 bs = word_of_nat n"
    by (simp add: bs rd32_def n_def)
  then have u: "unat (rd32 [a, b, c, d]) = n"
    unfolding bs using facts(1) by (simp add: unat_of_nat take_bit_nat_eq_self)
  show ?thesis
    unfolding bs le32_def u
    by (simp only: facts(2-5) [THEN char_of_eqI])
qed

definition get32 :: "nat \<Rightarrow> byte list \<Rightarrow> u32" where
  "get32 off obj = rd32 (take 4 (drop off obj))"

definition put32 :: "nat \<Rightarrow> u32 \<Rightarrow> byte list \<Rightarrow> byte list" where
  "put32 off w obj = overlay_at off obj (le32 w)"

lemma length_put32 [simp]: "off + 4 \<le> length obj \<Longrightarrow> length (put32 off w obj) = length obj"
  by (simp add: put32_def)

lemma get32_put32: "off + 4 \<le> length obj \<Longrightarrow> get32 off (put32 off w obj) = w"
  by (simp add: get32_def put32_def overlay_at_def)

section \<open>Lists\<close>

lemma nth_overlay_at_other:
  "off + length new \<le> length buf \<Longrightarrow> i < off \<or> off + length new \<le> i \<Longrightarrow>
     overlay_at off buf new ! i = buf ! i"
  by (auto simp: overlay_at_def nth_append)

lemma drop_Cons_nth: "i < length xs \<Longrightarrow> drop i xs = xs ! i # drop (Suc i) xs"
  by (rule Cons_nth_drop_Suc [symmetric])

lemma take_replicate_append [simp]: "take n (replicate n x @ ys) = replicate n x"
  by simp

section \<open>Reading and writing inside an object\<close>

definition obj_read :: "byte list \<Rightarrow> nat \<Rightarrow> nat \<Rightarrow> byte list option" where
  "obj_read obj p k = (if p + k \<le> length obj then Some (take k (drop p obj)) else None)"

definition obj_write :: "byte list \<Rightarrow> nat \<Rightarrow> byte list \<Rightarrow> byte list option" where
  "obj_write obj p bs = (if p + length bs \<le> length obj then Some (overlay_at p obj bs) else None)"

lemma obj_read_Some: "p + k \<le> length obj \<Longrightarrow> obj_read obj p k = Some (take k (drop p obj))"
  by (simp add: obj_read_def)

lemma obj_write_Some: "p + length bs \<le> length obj \<Longrightarrow> obj_write obj p bs = Some (overlay_at p obj bs)"
  by (simp add: obj_write_def)

lemma take_overlay_at_le: "q \<le> p \<Longrightarrow> p \<le> length obj \<Longrightarrow> take q (overlay_at p obj bs) = take q obj"
  by (simp add: overlay_at_def)

lemma take_overlay_at_end: "p \<le> length obj \<Longrightarrow> take (p + length bs) (overlay_at p obj bs) = take p obj @ bs"
  by (simp add: overlay_at_def)

lemma nth_overlay_at_new: "p \<le> length obj \<Longrightarrow> i < length bs \<Longrightarrow> overlay_at p obj bs ! (p + i) = bs ! i"
  by (simp add: overlay_at_def nth_append)

lemma overlay_at_twice: "p \<le> length obj \<Longrightarrow> p + length a = q \<Longrightarrow> overlay_at q (overlay_at p obj a) b = overlay_at p obj (a @ b)"
  using overlay_at_append [of p obj a b] by simp

lemma obj_write_eq_Some: "obj_write obj p bs = Some x \<longleftrightarrow> p + length bs \<le> length obj \<and> x = overlay_at p obj bs"
  by (auto simp: obj_write_def)

lemma obj_read_eq_Some: "obj_read obj p k = Some x \<longleftrightarrow> p + k \<le> length obj \<and> x = take k (drop p obj)"
  by (auto simp: obj_read_def)

section \<open>Conversion to a 32-bit signed integer\<close>

definition to_int32 :: "int \<Rightarrow> int" where
  "to_int32 x = sint (word_of_int x :: 32 word)"

lemma to_int32_id: "- (2 ^ 31) \<le> x \<Longrightarrow> x < 2 ^ 31 \<Longrightarrow> to_int32 x = x"
  by (simp add: to_int32_def signed_of_int signed_take_bit_int_eq_self)

end
