(* ===== verification/CString.thy ===== *)
theory CString
  imports Prelude
begin

text \<open>
  The string routines of \<open>src/vita/common/minilibc.c\<close> and \<open>src/vita/common/strcasecmp.c\<close>, the
  private C library of the two Vita modules. A pointer argument is the list of bytes from the
  pointer to the end of its object, a returned pointer is an offset into that list (\<open>None\<close> for
  \<open>NULL\<close>), and \<open>None\<close> as the whole result is an access outside the object. Source and
  destination are different objects, as in every call of the program.
\<close>

section \<open>Memory blocks\<close>

fun memset :: "byte list \<Rightarrow> int \<Rightarrow> nat \<Rightarrow> byte list option" where
  "memset out v 0 = Some out"
| "memset [] v (Suc sz) = None"
| "memset (_ # out) v (Suc sz) = map_option (Cons (char_of v)) (memset out v sz)"

fun memcpy :: "byte list \<Rightarrow> byte list \<Rightarrow> nat \<Rightarrow> byte list option" where
  "memcpy out inp 0 = Some out"
| "memcpy [] inp (Suc sz) = None"
| "memcpy out [] (Suc sz) = None"
| "memcpy (_ # out) (c # inp) (Suc sz) = map_option (Cons c) (memcpy out inp sz)"

section \<open>Copying and measuring strings\<close>

fun strlen :: "byte list \<Rightarrow> nat option" where
  "strlen [] = None"
| "strlen (c # cs) = (if c \<noteq> NUL then map_option Suc (strlen cs) else Some 0)"

fun strcpy :: "byte list \<Rightarrow> byte list \<Rightarrow> byte list option" where
  "strcpy dst [] = None"
| "strcpy [] (c # src) = None"
| "strcpy (_ # dst) (c # src) =
     (if c \<noteq> NUL then map_option (Cons c) (strcpy dst src) else Some (NUL # dst))"

fun strncpy_pad :: "byte list \<Rightarrow> nat \<Rightarrow> byte list option" where
  "strncpy_pad dst 0 = Some dst"
| "strncpy_pad [] (Suc sz) = None"
| "strncpy_pad (_ # dst) (Suc sz) = map_option (Cons NUL) (strncpy_pad dst sz)"

fun strncpy :: "byte list \<Rightarrow> byte list \<Rightarrow> nat \<Rightarrow> byte list option" where
  "strncpy dst src 0 = Some dst"
| "strncpy dst [] (Suc sz) = None"
| "strncpy [] (c # src) (Suc sz) = None"
| "strncpy (d # dst) (c # src) (Suc sz) =
     (if c \<noteq> NUL then map_option (Cons c) (strncpy dst src sz)
      else strncpy_pad (d # dst) (Suc sz))"

section \<open>Comparison\<close>

fun strcmp :: "byte list \<Rightarrow> byte list \<Rightarrow> int option" where
  "strcmp [] bs = None"
| "strcmp (a # as) [] = None"
| "strcmp (a # as) (b # bs) =
     (if a \<noteq> NUL \<and> a = b then strcmp as bs else Some (of_char a - of_char b))"

fun strncmp :: "byte list \<Rightarrow> byte list \<Rightarrow> nat \<Rightarrow> int option" where
  "strncmp as bs 0 = Some 0"
| "strncmp [] bs (Suc sz) = None"
| "strncmp (a # as) [] (Suc sz) = None"
| "strncmp (a # as) (b # bs) (Suc sz) =
     (if a = NUL \<or> a \<noteq> b then Some (of_char a - of_char b) else strncmp as bs sz)"

definition fold_case :: "int \<Rightarrow> int" where
  "fold_case c = (if 65 \<le> c \<and> c \<le> 90 then c + (97 - 65) else c)"

fun strcasecmp :: "byte list \<Rightarrow> byte list \<Rightarrow> int option" where
  "strcasecmp [] bs = None"
| "strcasecmp (a # as) [] = None"
| "strcasecmp (a # as) (b # bs) =
     (let difference = fold_case (of_char a) - fold_case (of_char b)
      in if difference \<noteq> 0 \<or> b = NUL then Some difference else strcasecmp as bs)"

section \<open>Searching\<close>

fun strchr :: "byte list \<Rightarrow> byte \<Rightarrow> nat option option" where
  "strchr [] target = None"
| "strchr (c # cs) target =
     (if c = target then Some (Some 0)
      else if c = NUL then Some None
      else map_option (map_option Suc) (strchr cs target))"

fun strrchr_loop :: "nat \<Rightarrow> nat option \<Rightarrow> byte list \<Rightarrow> byte \<Rightarrow> nat option option" where
  "strrchr_loop i found [] target = None"
| "strrchr_loop i found (c # cs) target =
     (let found' = (if c = target then Some i else found)
      in if c \<noteq> NUL then strrchr_loop (Suc i) found' cs target else Some found')"

definition strrchr :: "byte list \<Rightarrow> byte \<Rightarrow> nat option option" where
  "strrchr text target = strrchr_loop 0 None text target"

section \<open>Tokens\<close>

fun is_delimiter :: "byte \<Rightarrow> byte list \<Rightarrow> bool option" where
  "is_delimiter c [] = None"
| "is_delimiter c (d # ds) =
     (if d \<noteq> NUL then (if c = d then Some True else is_delimiter c ds) else Some False)"

fun skip_delimiters :: "byte list \<Rightarrow> byte list \<Rightarrow> nat \<Rightarrow> nat option" where
  "skip_delimiters [] ds cursor = None"
| "skip_delimiters (c # cs) ds cursor =
     (if c = NUL then Some cursor
      else do {
        d \<leftarrow> is_delimiter c ds;
        if d then skip_delimiters cs ds (Suc cursor) else Some cursor })"

fun skip_token :: "byte list \<Rightarrow> byte list \<Rightarrow> nat \<Rightarrow> nat option" where
  "skip_token [] ds cursor = None"
| "skip_token (c # cs) ds cursor =
     (if c = NUL then Some cursor
      else do {
        d \<leftarrow> is_delimiter c ds;
        if d then Some cursor else skip_token cs ds (Suc cursor) })"

definition strtok_r ::
  "byte list \<Rightarrow> nat option \<Rightarrow> byte list \<Rightarrow> nat option \<Rightarrow> (nat option \<times> byte list \<times> nat option) option"
where
  "strtok_r data text delimiters state =
     (case (case text of Some t \<Rightarrow> Some t | None \<Rightarrow> state) of
        None \<Rightarrow> Some (None, data, state)
      | Some cursor \<Rightarrow> do {
          token \<leftarrow> skip_delimiters (drop cursor data) delimiters cursor;
          if data ! token = NUL then Some (None, data, None)
          else do {
            stop \<leftarrow> skip_token (drop token data) delimiters token;
            if data ! stop \<noteq> NUL then Some (Some token, data[stop := NUL], Some (Suc stop))
            else Some (Some token, data, None) } })"

text \<open>
  \<open>strncasecmp\<close> is the C library's (\<open>bootconv.suprx\<close> takes it from newlib): like \<open>strcasecmp\<close>
  over at most \<open>sz\<close> bytes.
\<close>

fun strncasecmp :: "byte list \<Rightarrow> byte list \<Rightarrow> nat \<Rightarrow> int option" where
  "strncasecmp as bs 0 = Some 0"
| "strncasecmp [] bs (Suc sz) = None"
| "strncasecmp (a # as) [] (Suc sz) = None"
| "strncasecmp (a # as) (b # bs) (Suc sz) =
     (let difference = fold_case (of_char a) - fold_case (of_char b)
      in if difference \<noteq> 0 \<or> b = NUL then Some difference else strncasecmp as bs sz)"

section \<open>What the routines compute\<close>

lemma of_char_0_iff [simp]: "of_char c = (0 :: int) \<longleftrightarrow> c = NUL"
proof -
  have "of_char NUL = (0 :: int)"
    by simp
  then show ?thesis
    by (metis of_char_eq_iff)
qed

lemma char_of_0: "char_of (0 :: int) = NUL"
  by (simp add: char_of_def)

lemma memset_eq: "sz \<le> length out \<Longrightarrow> memset out v sz = Some (replicate sz (char_of v) @ drop sz out)"
  by (induction out v sz rule: memset.induct) auto

lemma memset_None_iff: "memset out v sz = None \<longleftrightarrow> length out < sz"
  by (induction out v sz rule: memset.induct) auto

lemma memcpy_eq:
  "sz \<le> length out \<Longrightarrow> sz \<le> length inp \<Longrightarrow> memcpy out inp sz = Some (take sz inp @ drop sz out)"
  by (induction out inp sz rule: memcpy.induct) auto

lemma memcpy_None_iff: "memcpy out inp sz = None \<longleftrightarrow> length out < sz \<or> length inp < sz"
  by (induction out inp sz rule: memcpy.induct) auto

lemma strlen_eq: "strlen buf = (if terminated buf then Some (length (cstr buf)) else None)"
  by (induction buf) auto

lemma strcpy_eq:
  "strcpy dst src =
     (if terminated src \<and> length (cstr src) < length dst
      then Some (cstr src @ NUL # drop (Suc (length (cstr src))) dst) else None)"
  by (induction dst src rule: strcpy.induct) auto

lemma strncpy_pad_eq:
  "strncpy_pad dst sz = (if sz \<le> length dst then Some (replicate sz NUL @ drop sz dst) else None)"
  by (induction dst sz rule: strncpy_pad.induct) auto

lemma strncpy_eq:
  "terminated src \<or> sz \<le> length src \<Longrightarrow> sz \<le> length dst \<Longrightarrow>
     strncpy dst src sz = Some (take sz (cstr src) @ replicate (sz - length (cstr src)) NUL
                                  @ drop sz dst)"
  by (induction dst src sz rule: strncpy.induct) (auto simp: strncpy_pad_eq)

lemma strncpy_same_size:
  "terminated src \<or> n \<le> length src \<Longrightarrow> length dst = n \<Longrightarrow>
     strncpy dst src n = Some (pad_to n (take n (cstr src)))"
  by (simp add: strncpy_eq pad_to_def min_def)

lemma strcmp_defined: "terminated as \<Longrightarrow> terminated bs \<Longrightarrow> strcmp as bs \<noteq> None"
  by (induction as bs rule: strcmp.induct) auto

lemma strcmp_0_iff: "strcmp as bs = Some 0 \<longleftrightarrow> terminated as \<and> terminated bs \<and> cstr as = cstr bs"
  by (induction as bs rule: strcmp.induct) auto

lemma strcmp_eq_0:
  "terminated as \<Longrightarrow> terminated bs \<Longrightarrow> \<exists>d. strcmp as bs = Some d \<and> (d = 0 \<longleftrightarrow> cstr as = cstr bs)"
  by (metis not_None_eq option.inject strcmp_0_iff strcmp_defined)

lemma strncmp_prefix:
  "plain p \<Longrightarrow> terminated as \<Longrightarrow>
     \<exists>d. strncmp as (p @ NUL # rest) (length p) = Some d \<and> (d = 0 \<longleftrightarrow> take (length p) (cstr as) = p)"
proof (induction p arbitrary: as)
  case Nil
  then show ?case by simp
next
  case (Cons c p)
  then obtain a as' where as: "as = a # as'"
    by (cases as) auto
  show ?case
    using Cons by (cases "a = NUL") (auto simp: as)
qed

lemma strchr_eq:
  "target \<noteq> NUL \<Longrightarrow> strchr buf target =
     (if target \<in> set (cstr buf) then Some (Some (length (takeWhile (\<lambda>c. c \<noteq> target) buf)))
      else if terminated buf then Some None else None)"
  by (induction buf target rule: strchr.induct) auto

lemma strrchr_loop_absent:
  "target \<noteq> NUL \<Longrightarrow> target \<notin> set (cstr buf) \<Longrightarrow> terminated buf \<Longrightarrow>
     strrchr_loop i found buf target = Some found"
  by (induction i found buf target rule: strrchr_loop.induct) (auto simp: Let_def split: if_splits)

lemma strrchr_absent:
  "target \<noteq> NUL \<Longrightarrow> target \<notin> set (cstr buf) \<Longrightarrow> terminated buf \<Longrightarrow> strrchr buf target = Some None"
  by (simp add: strrchr_def strrchr_loop_absent)

lemma strrchr_loop_last:
  "target \<noteq> NUL \<Longrightarrow> plain pre \<Longrightarrow> target \<notin> set (cstr post) \<Longrightarrow> terminated post \<Longrightarrow>
     strrchr_loop i found (pre @ target # post) target = Some (Some (i + length pre))"
proof (induction pre arbitrary: i found)
  case Nil
  then show ?case
    by (simp add: strrchr_loop_absent)
next
  case (Cons c pre)
  then show ?case
    by (simp add: Let_def)
qed

lemma strrchr_last:
  "target \<noteq> NUL \<Longrightarrow> plain pre \<Longrightarrow> target \<notin> set (cstr post) \<Longrightarrow> terminated post \<Longrightarrow>
     strrchr (pre @ target # post) target = Some (Some (length pre))"
  by (simp add: strrchr_def strrchr_loop_last)

lemma strrchr_None_iff: "target \<noteq> NUL \<Longrightarrow> strrchr buf target = None \<longleftrightarrow> \<not> terminated buf"
proof -
  have "strrchr_loop i found buf target = None \<longleftrightarrow> \<not> terminated buf" for i found
    by (induction i found buf target rule: strrchr_loop.induct) (auto simp: Let_def)
  then show ?thesis
    by (simp add: strrchr_def)
qed

definition fold_str :: "byte list \<Rightarrow> int list" where
  "fold_str s = map (\<lambda>c. fold_case (of_char c)) s"

lemma fold_case_0_iff [simp]: "fold_case c = 0 \<longleftrightarrow> c = 0"
  by (auto simp: fold_case_def)

lemma fold_str_simps [simp]:
  "fold_str [] = []" "fold_str (c # s) = fold_case (of_char c) # fold_str s"
  by (simp_all add: fold_str_def)

lemma fold_case_eq_NUL [simp]: "fold_case (of_char c) = fold_case 0 \<longleftrightarrow> c = NUL"
  by (simp add: fold_case_def [of 0])

lemma fold_case_NUL_eq [simp]: "fold_case 0 = fold_case (of_char c) \<longleftrightarrow> c = NUL"
  using fold_case_eq_NUL [of c] by metis

lemma strcasecmp_defined: "terminated as \<Longrightarrow> terminated bs \<Longrightarrow> strcasecmp as bs \<noteq> None"
  by (induction as bs rule: strcasecmp.induct) (auto simp: Let_def)

lemma strcasecmp_0_iff:
  "strcasecmp as bs = Some 0 \<longleftrightarrow> terminated as \<and> terminated bs \<and> fold_str (cstr as) = fold_str (cstr bs)"
  by (induction as bs rule: strcasecmp.induct) (auto simp: Let_def)

section \<open>Tokenisation\<close>

lemma is_delimiter_eq: "terminated ds \<Longrightarrow> is_delimiter c ds = Some (c \<in> set (cstr ds))"
  by (induction c ds rule: is_delimiter.induct) auto

lemma skip_delimiters_eq:
  "terminated ds \<Longrightarrow> terminated cs \<Longrightarrow>
     skip_delimiters cs ds i = Some (i + length (takeWhile (\<lambda>c. c \<in> set (cstr ds)) (cstr cs)))"
  by (induction cs ds i rule: skip_delimiters.induct) (auto simp: is_delimiter_eq)

lemma skip_token_eq:
  "terminated ds \<Longrightarrow> terminated cs \<Longrightarrow>
     skip_token cs ds i = Some (i + length (takeWhile (\<lambda>c. c \<notin> set (cstr ds)) (cstr cs)))"
  by (induction cs ds i rule: skip_token.induct) (auto simp: is_delimiter_eq)

function tokens :: "byte set \<Rightarrow> byte list \<Rightarrow> byte list list" where
  "tokens D s =
     (case dropWhile (\<lambda>c. c \<in> D) s of
        [] \<Rightarrow> []
      | c # cs \<Rightarrow> (c # takeWhile (\<lambda>c. c \<notin> D) cs) # tokens D (dropWhile (\<lambda>c. c \<notin> D) cs))"
  by pat_completeness auto
termination
proof (relation "measure (\<lambda>(D, s). length s)", goal_cases)
  case (2 D s c cs)
  have "length (dropWhile (\<lambda>c. c \<notin> D) cs) \<le> length cs"
    by (rule length_dropWhile_le)
  also have "\<dots> < length (c # cs)"
    by simp
  also have "\<dots> \<le> length s"
    using length_dropWhile_le [of "\<lambda>c. c \<in> D" s] by (simp add: "2")
  finally show ?case
    by simp
qed simp

declare tokens.simps [simp del]

lemma tokens_no_delimiter: "t \<in> set (tokens D s) \<Longrightarrow> t \<noteq> [] \<and> set t \<inter> D = {}"
proof (induction D s rule: tokens.induct)
  case (1 D s)
  show ?case
  proof (cases "dropWhile (\<lambda>c. c \<in> D) s")
    case Nil
    have "tokens D s = []"
      by (subst tokens.simps) (simp only: Nil list.case)
    then show ?thesis
      using "1.prems" by simp
  next
    case (Cons c cs)
    then have "c \<notin> D"
      by (metis hd_dropWhile list.discI list.sel(1))
    moreover have "t = c # takeWhile (\<lambda>c. c \<notin> D) cs \<or> t \<in> set (tokens D (dropWhile (\<lambda>c. c \<notin> D) cs))"
      using "1.prems" Cons by (subst (asm) tokens.simps) auto
    ultimately show ?thesis
      using "1.IH" [OF Cons] by (auto dest: set_takeWhileD)
  qed
qed

lemma tokens_Nil: "dropWhile (\<lambda>c. c \<in> D) s = [] \<Longrightarrow> tokens D s = []"
  by (subst tokens.simps) (simp only: list.case)

lemma tokens_Cons:
  "dropWhile (\<lambda>c. c \<in> D) s = c # cs \<Longrightarrow>
     tokens D s = (c # takeWhile (\<lambda>c. c \<notin> D) cs) # tokens D (dropWhile (\<lambda>c. c \<notin> D) cs)"
  by (subst tokens.simps) (simp only: list.case)

lemma tokens_skip: "d \<in> D \<Longrightarrow> tokens D (d # s) = tokens D s"
  by (subst (1 2) tokens.simps) simp

lemma split_at_nondelims:
  assumes "dropWhile P s = rest"
  shows "s = takeWhile P s @ rest"
  using assms by auto

text \<open>
  One call of \<open>strtok_r\<close> on a position \<open>k\<close> of the buffer, in the three shapes the buffer can have:
  no token left, the last token, and a token followed by a delimiter.
\<close>

lemma strtok_r_none:
  assumes "terminated ds" and "data = pre @ A @ NUL # R" and "plain A" and "set A \<subseteq> set (cstr ds)"
  shows "strtok_r data (Some (length pre)) ds st = Some (None, data, None)"
proof -
  have "takeWhile (\<lambda>c. c \<in> set (cstr ds)) (cstr (A @ NUL # R)) = A"
    using assms by (auto simp: cstr_append_NUL takeWhile_eq_all_conv)
  then show ?thesis
    using assms by (simp add: strtok_r_def skip_delimiters_eq nth_append)
qed

lemma takeWhile_stop: "\<forall>x \<in> set xs. P x \<Longrightarrow> \<not> P y \<Longrightarrow> takeWhile P (xs @ y # ys) = xs"
  by (induction xs) auto

lemma takeWhile_end: "\<forall>x \<in> set xs. P x \<Longrightarrow> takeWhile P xs = xs"
  by (induction xs) auto

lemma strtok_r_token:
  assumes ds: "terminated ds" and data: "data = pre @ A @ t # T @ x # R"
    and A: "plain A" "set A \<subseteq> set (cstr ds)"
    and T: "plain (t # T)" "set (t # T) \<inter> set (cstr ds) = {}"
    and x: "x = NUL \<or> x \<in> set (cstr ds)" "x = NUL \<or> terminated R"
  shows "strtok_r data (Some (length pre)) ds st =
           Some (Some (length pre + length A),
                 if x = NUL then data else pre @ A @ t # T @ NUL # R,
                 if x = NUL then None else Some (length pre + length A + length (t # T) + 1))"
proof -
  let ?D = "set (cstr ds)"
  have t: "t \<noteq> NUL" "t \<notin> ?D" "plain T" "\<forall>c \<in> set T. c \<notin> ?D"
    using T by auto
  have trm: "terminated (A @ t # T @ x # R)" "terminated (t # T @ x # R)"
    using x by auto
  have c1: "cstr (A @ t # T @ x # R) = A @ t # T @ cstr (x # R)"
    and c2: "cstr (t # T @ x # R) = t # T @ cstr (x # R)"
    using A t by (simp_all add: cstr_append_plain)
  have s1: "takeWhile (\<lambda>c. c \<in> ?D) (cstr (A @ t # T @ x # R)) = A"
    unfolding c1 using A t by (intro takeWhile_stop) auto
  have s2: "takeWhile (\<lambda>c. c \<notin> ?D) (cstr (t # T @ x # R)) = t # T"
  proof (cases "x = NUL")
    case True
    then show ?thesis
      unfolding c2 using t by (simp add: takeWhile_end)
  next
    case False
    then have "takeWhile (\<lambda>c. c \<notin> ?D) ((t # T) @ x # cstr R) = t # T"
      using t x by (intro takeWhile_stop) auto
    then show ?thesis
      unfolding c2 using False by simp
  qed
  have n1: "data ! (length pre + length A) = t"
    by (simp add: data nth_append)
  have n2: "data ! (length pre + length A + length (t # T)) = x"
    by (simp add: data nth_append)
  have d: "drop (length pre + length A) data = t # T @ x # R"
    by (simp add: data)
  have u: "data[length pre + length A + length (t # T) := NUL] = pre @ A @ t # T @ NUL # R"
    by (simp add: data list_update_append)
  have k1: "skip_delimiters (drop (length pre) data) ds (length pre) = Some (length pre + length A)"
    using trm ds s1 by (simp add: data skip_delimiters_eq)
  have k2: "skip_token (drop (length pre + length A) data) ds (length pre + length A)
      = Some (length pre + length A + length (t # T))"
    unfolding d skip_token_eq [OF ds trm(2)] s2 by simp
  show ?thesis
    unfolding strtok_r_def option.case k1 Option.bind.bind_lunit n1 k2 n2 u
    using t by auto
qed

lemma buffer_token_cases:
  assumes "terminated (drop k data)" and "k \<le> length data"
  obtains (none) A R where "data = take k data @ A @ NUL # R" "plain A" "set A \<subseteq> D"
      "tokens D (cstr (drop k data)) = []"
    | (token) A t T x R where "data = take k data @ A @ t # T @ x # R" "plain A" "set A \<subseteq> D"
      "plain (t # T)" "set (t # T) \<inter> D = {}" "x = NUL \<or> x \<in> D" "x = NUL \<or> terminated R"
      "tokens D (cstr (drop k data)) = (t # T) # (if x = NUL then [] else tokens D (cstr R))"
proof -
  let ?s = "cstr (drop k data)"
  obtain R0 where d0: "drop k data = ?s @ NUL # R0"
    using terminated_split [OF assms(1)] by auto
  have data: "data = take k data @ ?s @ NUL # R0"
    by (metis append_take_drop_id d0)
  define A where "A = takeWhile (\<lambda>c. c \<in> D) ?s"
  have pA: "plain A" and sA: "set A \<subseteq> D"
    using plain_cstr [of "drop k data"] by (auto simp: A_def plain_def dest: set_takeWhileD)
  show thesis
  proof (cases "dropWhile (\<lambda>c. c \<in> D) ?s")
    case Nil
    then have "?s = A"
      unfolding A_def by (metis append_Nil2 takeWhile_dropWhile_id)
    then show thesis
      using none [of A R0] data pA sA tokens_Nil [OF Nil] by simp
  next
    case (Cons t cs)
    have s: "?s = A @ t # cs"
      unfolding A_def by (metis Cons takeWhile_dropWhile_id)
    have t: "t \<notin> D"
      by (metis Cons hd_dropWhile list.discI list.sel(1))
    define T where "T = takeWhile (\<lambda>c. c \<notin> D) cs"
    have p: "plain (t # cs)"
      using plain_cstr [of "drop k data"] unfolding s by simp
    have pT: "plain (t # T)" and sT: "set (t # T) \<inter> D = {}"
      using p t by (auto simp: T_def plain_def dest: set_takeWhileD)
    show thesis
    proof (cases "dropWhile (\<lambda>c. c \<notin> D) cs")
      case rest: Nil
      then have "cs = T"
        unfolding T_def by (metis append_Nil2 takeWhile_dropWhile_id)
      moreover have "tokens D [] = []"
        by (rule tokens_Nil) simp
      ultimately show thesis
        using token [of A t T NUL R0] data s pA sA pT sT tokens_Cons [OF Cons] rest
        by (simp add: T_def)
    next
      case rest: (Cons x r)
      have cs: "cs = T @ x # r"
        unfolding T_def by (metis rest takeWhile_dropWhile_id)
      have x: "x \<in> D"
        by (metis (full_types) rest hd_dropWhile list.discI list.sel(1))
      have "plain r" "x \<noteq> NUL"
        using p cs by auto
      moreover have "tokens D ?s = (t # T) # tokens D r"
        unfolding tokens_Cons [OF Cons] rest by (simp add: T_def tokens_skip x)
      ultimately show thesis
        using token [of A t T x "r @ NUL # R0"] data s cs pA sA pT sT x
        by (simp add: cstr_append_NUL)
    qed
  qed
qed

lemma strtok_r_spec:
  assumes ds: "terminated ds" and k: "terminated (drop k data)" "k \<le> length data"
    and inp: "text = Some k \<or> text = None \<and> st = Some k"
  obtains (none) "strtok_r data text ds st = Some (None, data, None)"
      "tokens (set (cstr ds)) (cstr (drop k data)) = []"
    | (final) i where "strtok_r data text ds st = Some (Some i, data, None)" "i \<le> length data"
      "terminated (drop i data)"
      "tokens (set (cstr ds)) (cstr (drop k data)) = [cstr (drop i data)]"
    | (more) i data' k' where "strtok_r data text ds st = Some (Some i, data', Some k')"
      "i \<le> length data'" "k < k'" "k' \<le> length data'" "length data' = length data"
      "terminated (drop i data')" "terminated (drop k' data')"
      "tokens (set (cstr ds)) (cstr (drop k data)) =
         cstr (drop i data') # tokens (set (cstr ds)) (cstr (drop k' data'))"
proof -
  let ?D = "set (cstr ds)"
  have eq: "strtok_r data text ds st = strtok_r data (Some k) ds st"
    using inp by (auto simp: strtok_r_def)
  show thesis
  proof (rule buffer_token_cases [OF k, of ?D])
    fix A R
    assume a: "data = take k data @ A @ NUL # R" "plain A" "set A \<subseteq> ?D"
      "tokens ?D (cstr (drop k data)) = []"
    show thesis
      using none strtok_r_none [OF ds a(1-3), of st] a(4) k(2) by (simp add: eq)
  next
    fix A t T x R
    assume a: "data = take k data @ A @ t # T @ x # R" "plain A" "set A \<subseteq> ?D"
      "plain (t # T)" "set (t # T) \<inter> ?D = {}" "x = NUL \<or> x \<in> ?D" "x = NUL \<or> terminated R"
      "tokens ?D (cstr (drop k data)) = (t # T) # (if x = NUL then [] else tokens ?D (cstr R))"
    define pre where "pre = take k data"
    have lp: "length pre = k"
      using k(2) by (simp add: pre_def)
    have data: "data = pre @ A @ t # T @ x # R"
      using a(1) by (simp add: pre_def)
    have call: "strtok_r data (Some k) ds st =
        Some (Some (k + length A), if x = NUL then data else pre @ A @ t # T @ NUL # R,
              if x = NUL then None else Some (k + length A + length (t # T) + 1))"
      using strtok_r_token [OF ds data a(2-7), of st] by (simp add: lp)
    note call = call [folded eq]
    have len: "k + length A \<le> length data"
      by (simp add: data lp)
    show thesis
    proof (cases "x = NUL")
      case True
      have "drop (k + length A) data = t # T @ NUL # R"
        by (simp add: data True lp [symmetric])
      then show thesis
        using final [of "k + length A"] call a(4,8) len True
        by (simp add: cstr_append_NUL)
    next
      case False
      let ?d = "pre @ A @ t # T @ NUL # R" and ?k = "k + length A + length (t # T) + 1"
      have d: "drop (k + length A) ?d = t # T @ NUL # R" "drop ?k ?d = R"
        by (simp_all add: lp [symmetric])
      have l: "length ?d = length data" "?k \<le> length ?d"
        by (simp_all add: data lp)
      show thesis
        using more [of "k + length A" ?d ?k] call a(4,7,8) False len
        unfolding d l(1) using l by (simp add: cstr_append_NUL)
    qed
  qed
qed

section \<open>Properties\<close>

text \<open>
  The copying routines of the private C library. For every pair of objects they either copy
  exactly as the C standard says and leave the rest of the destination alone, or an access falls
  outside an object: \<open>strcpy\<close> needs a terminated source whose text is shorter than the destination,
  \<open>strncpy\<close> pads with zeros and does not terminate a text of \<open>sz\<close> bytes or more.
\<close>

theorem string_copies:
  "strcpy dst src = (if terminated src \<and> length (cstr src) < length dst
      then Some (cstr src @ NUL # drop (Suc (length (cstr src))) dst) else None)
   \<and> (memcpy dst src sz = (if sz \<le> length dst \<and> sz \<le> length src
      then Some (take sz src @ drop sz dst) else None))
   \<and> (memset dst v sz = (if sz \<le> length dst
      then Some (replicate sz (char_of v) @ drop sz dst) else None))
   \<and> (terminated src \<or> sz \<le> length src \<longrightarrow> sz \<le> length dst \<longrightarrow>
        strncpy dst src sz = Some (take sz (cstr src) @ replicate (sz - length (cstr src)) NUL @ drop sz dst)
        \<and> (length (cstr src) < sz \<longrightarrow> cstr (the (strncpy dst src sz)) = cstr src))"
proof (intro conjI impI)
  show "strcpy dst src = (if terminated src \<and> length (cstr src) < length dst
      then Some (cstr src @ NUL # drop (Suc (length (cstr src))) dst) else None)"
    by (rule strcpy_eq)
  show "memcpy dst src sz = (if sz \<le> length dst \<and> sz \<le> length src
      then Some (take sz src @ drop sz dst) else None)"
    using memcpy_None_iff [of dst src sz] memcpy_eq [of sz dst src] by auto
  show "memset dst v sz = (if sz \<le> length dst
      then Some (replicate sz (char_of v) @ drop sz dst) else None)"
    using memset_None_iff [of dst v sz] memset_eq [of sz dst v] by auto
next
  assume a: "terminated src \<or> sz \<le> length src" "sz \<le> length dst"
  show eq: "strncpy dst src sz
      = Some (take sz (cstr src) @ replicate (sz - length (cstr src)) NUL @ drop sz dst)"
    by (rule strncpy_eq [OF a])
  assume "length (cstr src) < sz"
  then have "replicate (sz - length (cstr src)) NUL = NUL # replicate (sz - length (cstr src) - 1) NUL"
    by (metis Suc_diff_1 replicate_Suc zero_less_diff)
  then show "cstr (the (strncpy dst src sz)) = cstr src"
    using \<open>length (cstr src) < sz\<close> by (simp add: eq cstr_append_NUL)
qed

theorem string_copies_witness:
  "cstr (the (strncpy (replicate 8 CHR ''x'') (lit ''ux0'') 8)) = ''ux0''"
  using string_copies [of "replicate 8 CHR ''x''" "lit ''ux0''" 8 0] by (simp add: cstr_def)

text \<open>
  Comparing. On terminated strings \<open>strcmp\<close> is defined and zero exactly for equal texts, and
  \<open>strcasecmp\<close> is zero exactly for texts equal up to the case of ASCII letters; it is symmetric in
  that sense and never reads behind the first terminator.
\<close>

theorem string_comparison:
  assumes "terminated as" and "terminated bs"
  shows "\<exists>d e. strcmp as bs = Some d \<and> strcasecmp as bs = Some e
     \<and> (d = 0 \<longleftrightarrow> cstr as = cstr bs)
     \<and> (e = 0 \<longleftrightarrow> map (\<lambda>c. fold_case (of_char c)) (cstr as) = map (\<lambda>c. fold_case (of_char c)) (cstr bs))
     \<and> (strcasecmp bs as = Some 0 \<longleftrightarrow> e = 0)
     \<and> strcasecmp (cstr as @ [NUL]) (cstr bs @ [NUL]) = Some e"
proof -
  obtain d where d: "strcmp as bs = Some d" "d = 0 \<longleftrightarrow> cstr as = cstr bs"
    using strcmp_eq_0 [OF assms] by blast
  obtain e where e: "strcasecmp as bs = Some e"
    using strcasecmp_defined [OF assms] by blast
  have trunc: "strcasecmp (cstr as @ [NUL]) (cstr bs @ [NUL]) = strcasecmp as bs"
    using assms by (induction as bs rule: strcasecmp.induct) (auto simp: Let_def)
  have e0: "e = 0 \<longleftrightarrow> fold_str (cstr as) = fold_str (cstr bs)"
    using strcasecmp_0_iff [of as bs] assms e by simp
  have sym: "strcasecmp bs as = Some 0 \<longleftrightarrow> fold_str (cstr as) = fold_str (cstr bs)"
    using strcasecmp_0_iff [of bs as] assms by (simp add: eq_commute)
  show ?thesis
    by (intro exI [of _ d] exI [of _ e] conjI)
      (simp_all only: d e e0 sym trunc flip: fold_str_def)
qed

theorem string_comparison_witness:
  "strcasecmp (lit ''pspemucfw'') (lit ''PSPEMUCFW'') = Some 0"
proof -
  have "terminated (lit ''pspemucfw'')" "terminated (lit ''PSPEMUCFW'')"
    by simp_all
  from string_comparison [OF this] show ?thesis
    by (simp add: fold_case_def)
qed

text \<open>
  One call of \<open>strtok_r\<close>. On a terminated buffer it never leaves the buffer, and it yields the
  first of the remaining tokens (the maximal runs of non-delimiters), terminated in place, with a
  state from which exactly the other tokens remain; it yields \<open>NULL\<close> exactly when none is left.
\<close>

theorem strtok_r_next_token:
  assumes "terminated ds" and "terminated (drop k data)" and "k \<le> length data"
    and "text = Some k \<or> text = None \<and> st = Some k"
  shows "\<exists>tok data' st'. strtok_r data text ds st = Some (tok, data', st') \<and> length data' = length data
     \<and> (case tokens (set (cstr ds)) (cstr (drop k data)) of
          [] \<Rightarrow> tok = None
        | t # ts \<Rightarrow> \<exists>i. tok = Some i \<and> cstr (drop i data') = t \<and> terminated (drop i data')
            \<and> (case st' of None \<Rightarrow> ts = []
                | Some k' \<Rightarrow> k < k' \<and> terminated (drop k' data')
                    \<and> tokens (set (cstr ds)) (cstr (drop k' data')) = ts))"
proof (rule strtok_r_spec [OF assms], goal_cases)
  case 1
  then show ?case
    by (intro exI [of _ None] exI [of _ data]) simp
next
  case (2 i)
  then show ?case
    by (intro exI [of _ "Some i"] exI [of _ data] exI [of _ None]) simp
next
  case (3 i data' k')
  then show ?case
    by (intro exI [of _ "Some i"] exI [of _ data'] exI [of _ "Some k'"]) simp
qed

theorem strtok_r_next_token_witness:
  "\<exists>data' st'. strtok_r (lit ''a=1;b'') (Some 0) (lit '';'') None = Some (Some 0, data', st')
     \<and> cstr data' = ''a=1''"
proof -
  have "strtok_r (lit ''a=1;b'') (Some 0) (lit '';'') None
      = Some (Some 0, ''a=1'' @ NUL # lit ''b'', Some 4)"
    by (simp add: strtok_r_def)
  then show ?thesis
    using strtok_r_next_token [of "lit '';''" 0 "lit ''a=1;b''" "Some 0" None] by simp
qed

end
