(* ===== verification/CFormat.thy ===== *)
theory CFormat
  imports CString
begin

text \<open>
  The bounded formatter of \<open>src/vita/common/minilibc.c\<close>: \<open>format\<close> and its callers \<open>snprintf\<close> and
  \<open>sprintf\<close>. The output record keeps the caller's buffer, its stated capacity and the number of
  characters attempted so far. The specification is \<open>expand\<close>, the whole text a format string
  denotes; the lemmas show that the buffer receives the longest prefix of it that fits, always
  terminated, and that the result is the untruncated length.
\<close>

datatype fmt_arg = ArgS "byte list" | ArgD int

definition SIZE_MAX :: nat where
  "SIZE_MAX = 2 ^ 32 - 1"

section \<open>Emitting characters\<close>

record FormatOutput =
  buffer :: "byte list"
  capacity :: nat
  emitted :: nat

definition store :: "byte list \<Rightarrow> nat \<Rightarrow> byte \<Rightarrow> byte list option" where
  "store buf i c = (if i < length buf then Some (buf[i := c]) else None)"

definition emit_character :: "FormatOutput \<Rightarrow> byte \<Rightarrow> FormatOutput option" where
  "emit_character out c =
     (if capacity out \<noteq> 0 \<and> emitted out + 1 < capacity out
      then do {
        b \<leftarrow> store (buffer out) (emitted out) c;
        Some (out\<lparr>buffer := b, emitted := emitted out + 1\<rparr>) }
      else Some (out\<lparr>emitted := emitted out + 1\<rparr>))"

fun emit_string :: "FormatOutput \<Rightarrow> byte list \<Rightarrow> FormatOutput option" where
  "emit_string out [] = None"
| "emit_string out (c # cs) =
     (if c \<noteq> NUL then do { out' \<leftarrow> emit_character out c; emit_string out' cs } else Some out)"

function digit_loop :: "byte list \<Rightarrow> nat \<Rightarrow> byte list option" where
  "digit_loop digits magnitude =
     (if length digits < 11
      then let digits' = digits @ [char_of (48 + magnitude mod 10)]; m = magnitude div 10
           in if m \<noteq> 0 then digit_loop digits' m else Some digits'
      else None)"
  by pat_completeness auto
termination by (relation "measure snd") auto

fun pad_loop :: "FormatOutput \<Rightarrow> nat \<Rightarrow> nat \<Rightarrow> byte \<Rightarrow> FormatOutput option" where
  "pad_loop out count 0 padding = Some out"
| "pad_loop out count (Suc width) padding =
     (if count < Suc width
      then do { out' \<leftarrow> emit_character out padding; pad_loop out' count width padding }
      else Some out)"

fun emit_reverse :: "FormatOutput \<Rightarrow> byte list \<Rightarrow> nat \<Rightarrow> FormatOutput option" where
  "emit_reverse out digits 0 = Some out"
| "emit_reverse out digits (Suc count) =
     do { out' \<leftarrow> emit_character out (digits ! count); emit_reverse out' digits count }"

definition emit_decimal :: "FormatOutput \<Rightarrow> int \<Rightarrow> nat \<Rightarrow> byte \<Rightarrow> FormatOutput option" where
  "emit_decimal out v width padding = do {
     (out, width, magnitude) \<leftarrow>
       (if v < 0
        then do {
          out' \<leftarrow> emit_character out CHR ''-'';
          Some (out', if width \<noteq> 0 then width - 1 else width, 0 - word_of_int v :: u32) }
        else Some (out, width, word_of_int v));
     digits \<leftarrow> digit_loop [] (unat magnitude);
     out \<leftarrow> pad_loop out (length digits) width padding;
     emit_reverse out digits (length digits) }"

section \<open>The format string\<close>

fun format_width :: "nat \<Rightarrow> byte list \<Rightarrow> (nat \<times> byte list) option" where
  "format_width width [] = None"
| "format_width width (c # cs) =
     (if 48 \<le> (of_char c :: nat) \<and> (of_char c :: nat) \<le> 57
      then format_width ((width * 10 + (of_char c - 48)) mod 2 ^ 32) cs
      else Some (width, c # cs))"

definition format_flags :: "byte list \<Rightarrow> (byte \<times> nat \<times> byte list) option" where
  "format_flags fs =
     (case fs of
        [] \<Rightarrow> None
      | c # cs \<Rightarrow>
          let (padding, rest) = (if c = CHR ''0'' then (CHR ''0'', cs) else (CHR '' '', fs))
          in map_option (\<lambda>(width, rest'). (padding, width, rest')) (format_width 0 rest))"

lemma format_width_length: "format_width w fs = Some (w', rest) \<Longrightarrow> length rest \<le> length fs"
  by (induction w fs rule: format_width.induct) (auto split: if_splits)

lemma format_flags_length: "format_flags fs = Some (p, w, rest) \<Longrightarrow> length rest \<le> length fs"
  by (auto simp: format_flags_def Let_def split: list.splits if_splits
      dest!: format_width_length)

function format_loop :: "FormatOutput \<Rightarrow> byte list \<Rightarrow> fmt_arg list \<Rightarrow> FormatOutput option" where
  "format_loop out fs args =
     (case fs of
        [] \<Rightarrow> None
      | c # cs \<Rightarrow>
          if c = NUL then Some out
          else if c \<noteq> CHR ''%'' then do { out' \<leftarrow> emit_character out c; format_loop out' cs args }
          else (case cs of
             [] \<Rightarrow> None
           | d # ds \<Rightarrow>
               if d = CHR ''%'' then do { out' \<leftarrow> emit_character out d; format_loop out' ds args }
               else (case format_flags cs of
                  None \<Rightarrow> None
                | Some (padding, width, []) \<Rightarrow> None
                | Some (padding, width, k # rest) \<Rightarrow>
                    if k = CHR ''s'' then
                      (case args of
                         ArgS s # args' \<Rightarrow> do { out' \<leftarrow> emit_string out s; format_loop out' rest args' }
                       | _ \<Rightarrow> None)
                    else if k = CHR ''d'' then
                      (case args of
                         ArgD v # args' \<Rightarrow>
                           do { out' \<leftarrow> emit_decimal out v width padding; format_loop out' rest args' }
                       | _ \<Rightarrow> None)
                    else if k \<noteq> NUL then do {
                      out' \<leftarrow> emit_character out CHR ''%'';
                      out'' \<leftarrow> emit_character out' k;
                      format_loop out'' rest args }
                    else Some out)))"
  by pat_completeness auto
termination
  by (relation "measure (\<lambda>(out, fs, args). length fs)") (auto dest!: format_flags_length)

declare format_loop.simps [simp del]

definition format_c :: "byte list \<Rightarrow> nat \<Rightarrow> byte list \<Rightarrow> fmt_arg list \<Rightarrow> (byte list \<times> int) option" where
  "format_c buf cap fs args = do {
     out \<leftarrow> format_loop \<lparr>buffer = buf, capacity = cap, emitted = 0\<rparr> fs args;
     b \<leftarrow> (if cap \<noteq> 0
           then store (buffer out) (if emitted out < cap then emitted out else cap - 1) NUL
           else Some (buffer out));
     Some (b, int (emitted out)) }"

definition snprintf :: "byte list \<Rightarrow> nat \<Rightarrow> byte list \<Rightarrow> fmt_arg list \<Rightarrow> (byte list \<times> int) option" where
  "snprintf buf cap fs args = format_c buf cap fs args"

definition sprintf :: "byte list \<Rightarrow> byte list \<Rightarrow> fmt_arg list \<Rightarrow> (byte list \<times> int) option" where
  "sprintf buf fs args = format_c buf SIZE_MAX fs args"

section \<open>The text a format string denotes\<close>

fun decimal :: "nat \<Rightarrow> byte list" where
  "decimal n = (if n < 10 then [char_of (48 + n)] else decimal (n div 10) @ [char_of (48 + n mod 10)])"

declare decimal.simps [simp del]

definition signed_decimal :: "int \<Rightarrow> nat \<Rightarrow> byte \<Rightarrow> byte list" where
  "signed_decimal v width padding =
     (let digits = decimal (nat \<bar>v\<bar>); w = (if v < 0 then width - 1 else width)
      in (if v < 0 then [CHR ''-''] else []) @ replicate (w - length digits) padding @ digits)"

function expand :: "byte list \<Rightarrow> fmt_arg list \<Rightarrow> byte list option" where
  "expand fs args =
     (case fs of
        [] \<Rightarrow> None
      | c # cs \<Rightarrow>
          if c = NUL then Some []
          else if c \<noteq> CHR ''%'' then map_option (Cons c) (expand cs args)
          else (case cs of
             [] \<Rightarrow> None
           | d # ds \<Rightarrow>
               if d = CHR ''%'' then map_option (Cons d) (expand ds args)
               else (case format_flags cs of
                  None \<Rightarrow> None
                | Some (padding, width, []) \<Rightarrow> None
                | Some (padding, width, k # rest) \<Rightarrow>
                    if k = CHR ''s'' then
                      (case args of
                         ArgS s # args' \<Rightarrow>
                           if terminated s then map_option ((@) (cstr s)) (expand rest args') else None
                       | _ \<Rightarrow> None)
                    else if k = CHR ''d'' then
                      (case args of
                         ArgD v # args' \<Rightarrow>
                           if - (2 ^ 31) \<le> v \<and> v < 2 ^ 31
                           then map_option ((@) (signed_decimal v width padding)) (expand rest args')
                           else None
                       | _ \<Rightarrow> None)
                    else if k \<noteq> NUL then map_option ((@) [CHR ''%'', k]) (expand rest args)
                    else Some [])))"
  by pat_completeness auto
termination
  by (relation "measure (\<lambda>(fs, args). length fs)") (auto dest!: format_flags_length)

declare expand.simps [simp del]

section \<open>The state after a text has been emitted\<close>

definition after_text :: "byte list \<Rightarrow> nat \<Rightarrow> byte list \<Rightarrow> FormatOutput" where
  "after_text buf cap t =
     \<lparr>buffer = overlay buf (take (cap - 1) t), capacity = cap, emitted = length t\<rparr>"

definition fits :: "byte list \<Rightarrow> nat \<Rightarrow> byte list \<Rightarrow> bool" where
  "fits buf cap t \<longleftrightarrow> (cap \<noteq> 0 \<longrightarrow> min (cap - 1) (length t) < length buf)"

lemma after_text_Nil: "after_text buf cap [] = \<lparr>buffer = buf, capacity = cap, emitted = 0\<rparr>"
  by (simp add: after_text_def)

lemma fits_prefix: "fits buf cap (t @ u) \<Longrightarrow> fits buf cap t"
  by (auto simp: fits_def)

lemma emit_character_after:
  assumes "fits buf cap (t @ [c])"
  shows "emit_character (after_text buf cap t) c = Some (after_text buf cap (t @ [c]))"
proof (cases "length t + 1 < cap")
  case True
  have "length t + 1 < length buf"
    using assms True by (auto simp: fits_def)
  then obtain x xs where "drop (length t) buf = x # xs" "length buf = length t + 1 + length xs"
    by (cases "drop (length t) buf") (auto dest: arg_cong [of _ _ length])
  moreover from this have "drop (Suc (length t)) buf = xs"
    by (metis drop_Suc list.sel(3) tl_drop)
  ultimately show ?thesis
    using True by (simp add: emit_character_def after_text_def store_def overlay_def)
next
  case False
  then show ?thesis
    by (auto simp: emit_character_def after_text_def)
qed

lemma emit_string_after:
  "terminated s \<Longrightarrow> fits buf cap (t @ cstr s) \<Longrightarrow>
     emit_string (after_text buf cap t) s = Some (after_text buf cap (t @ cstr s))"
proof (induction s arbitrary: t)
  case Nil
  then show ?case by simp
next
  case (Cons c s)
  show ?case
  proof (cases "c = NUL")
    case False
    then have "fits buf cap ((t @ [c]) @ cstr s)"
      using Cons.prems by simp
    then show ?thesis
      using Cons.IH [of "t @ [c]"] Cons.prems False
      by (simp add: emit_character_after fits_prefix del: append_assoc) simp
  qed simp
qed

lemma pad_loop_after:
  "fits buf cap (t @ replicate (width - count) padding) \<Longrightarrow>
     pad_loop (after_text buf cap t) count width padding
       = Some (after_text buf cap (t @ replicate (width - count) padding))"
proof (induction width arbitrary: t)
  case 0
  then show ?case by simp
next
  case (Suc width)
  show ?case
  proof (cases "count < Suc width")
    case True
    then have d: "Suc width - count = Suc (width - count)"
      by simp
    have "fits buf cap ((t @ [padding]) @ replicate (width - count) padding)"
      using Suc.prems by (simp add: d)
    then show ?thesis
      using Suc.IH [of "t @ [padding]"] True
      by (simp add: d emit_character_after fits_prefix del: append_assoc) simp
  qed simp
qed

lemma emit_reverse_after:
  "count \<le> length digits \<Longrightarrow> fits buf cap (t @ rev (take count digits)) \<Longrightarrow>
     emit_reverse (after_text buf cap t) digits count
       = Some (after_text buf cap (t @ rev (take count digits)))"
proof (induction count arbitrary: t)
  case 0
  then show ?case by simp
next
  case (Suc count)
  have r: "rev (take (Suc count) digits) = digits ! count # rev (take count digits)"
    using Suc.prems by (simp add: take_Suc_conv_app_nth)
  have "fits buf cap ((t @ [digits ! count]) @ rev (take count digits))"
    using Suc.prems by (simp add: r)
  then show ?case
    using Suc.IH [of "t @ [digits ! count]"] Suc.prems
    by (simp add: r emit_character_after fits_prefix del: append_assoc) simp
qed

section \<open>Decimal digits\<close>

lemma length_decimal: "length (decimal n) \<le> k \<longleftrightarrow> n < 10 ^ k \<and> 0 < k"
proof (induction n arbitrary: k rule: decimal.induct)
  case (1 n)
  show ?case
  proof (cases "n < 10")
    case True
    then have "n < 10 ^ k" if "0 < k"
      using that by (cases k) (auto intro: less_le_trans [OF True])
    then show ?thesis
      using True by (subst decimal.simps) auto
  next
    case False
    have "n div 10 < 10 ^ m \<longleftrightarrow> n < 10 ^ Suc m" for m
      by (simp add: div_less_iff_less_mult mult.commute)
    moreover have pos: "n < 10 * 10 ^ m \<Longrightarrow> 0 < m" for m
      using False by (cases m) auto
    ultimately show ?thesis
      using 1 [OF False] False by (subst decimal.simps) (cases k; auto simp: False dest: pos)
  qed
qed

lemma digit_loop_eq:
  "length ds + length (decimal n) \<le> 11 \<Longrightarrow> digit_loop ds n = Some (ds @ rev (decimal n))"
proof (induction ds n rule: digit_loop.induct)
  case (1 ds n)
  show ?case
  proof (cases "n < 10")
    case True
    then show ?thesis
      using "1.prems" by (simp add: decimal.simps [of n] Let_def)
  next
    case False
    then have d: "decimal n = decimal (n div 10) @ [char_of (48 + n mod 10)]"
      by (simp add: decimal.simps [of n])
    have nz: "n div 10 \<noteq> 0" "length ds < 11"
      using False "1.prems" by (auto simp: d)
    show ?thesis
      using "1.IH" [OF nz(2) refl refl nz(1)] "1.prems" nz
      by (subst digit_loop.simps) (simp add: d Let_def)
  qed
qed

declare digit_loop.simps [simp del]

fun decimal_value :: "byte list \<Rightarrow> nat" where
  "decimal_value [] = 0"
| "decimal_value (c # cs) = (of_char c - 48) * 10 ^ length cs + decimal_value cs"

lemma decimal_value_append:
  "decimal_value (xs @ ys) = decimal_value xs * 10 ^ length ys + decimal_value ys"
  by (induction xs) (auto simp: power_add algebra_simps)

lemma decimal_value_decimal: "decimal_value (decimal n) = n"
proof (induction n rule: decimal.induct)
  case (1 n)
  have digit: "of_char (char_of (48 + d)) - 48 = d" if "d < 10" for d :: nat
    using that by (simp add: of_char_of)
  show ?case
  proof (cases "n < 10")
    case True
    then show ?thesis
      by (simp add: decimal.simps [of n] digit)
  next
    case False
    then show ?thesis
      using 1 by (simp add: decimal.simps [of n] digit decimal_value_append)
  qed
qed

lemma plain_decimal [simp]: "plain (decimal n)"
proof (induction n rule: decimal.induct)
  case (1 n)
  have "char_of (48 + d) \<noteq> NUL" if "d < 10" for d :: nat
  proof -
    have "of_char (char_of (48 + d)) = 48 + d" "of_char NUL = (0 :: nat)"
      using that by (simp_all add: of_char_of)
    then show ?thesis
      by (metis add_is_0 zero_neq_numeral)
  qed
  then show ?case
    using 1 by (cases "n < 10") (simp_all add: decimal.simps [of n])
qed


lemma emit_magnitude_after:
  assumes len: "length (decimal n) \<le> 10"
    and fit: "fits buf cap (t @ replicate (width - length (decimal n)) padding @ decimal n)"
  shows "do {
      digits \<leftarrow> digit_loop [] n;
      out \<leftarrow> pad_loop (after_text buf cap t) (length digits) width padding;
      emit_reverse out digits (length digits) }
    = Some (after_text buf cap (t @ replicate (width - length (decimal n)) padding @ decimal n))"
proof -
  let ?pad = "replicate (width - length (decimal n)) padding"
  have digits: "digit_loop [] n = Some (rev (decimal n))"
    using len by (simp add: digit_loop_eq)
  have f1: "fits buf cap (t @ ?pad)"
    using fit fits_prefix [of buf cap "t @ ?pad"] by simp
  have "fits buf cap ((t @ ?pad) @ rev (take (length (decimal n)) (rev (decimal n))))"
    using fit by simp
  from emit_reverse_after [OF _ this] show ?thesis
    unfolding digits Option.bind.bind_lunit length_rev pad_loop_after [OF f1] by simp
qed

lemma unat_magnitude:
  assumes "- (2 ^ 31) \<le> v" "v < 2 ^ 31"
  shows "unat (if v < 0 then 0 - word_of_int v else word_of_int v :: u32) = nat \<bar>v\<bar>"
proof -
  have "(if v < 0 then 0 - word_of_int v else word_of_int v :: u32) = word_of_int \<bar>v\<bar>"
    by simp
  moreover have "\<bar>v\<bar> < 2 ^ 32"
    using assms by simp
  ultimately show ?thesis
    by (simp add: unat_eq_nat_uint uint_word_of_int)
qed

lemma emit_decimal_after:
  assumes v: "- (2 ^ 31) \<le> v" "v < 2 ^ 31"
    and fit: "fits buf cap (t @ signed_decimal v width padding)"
  shows "emit_decimal (after_text buf cap t) v width padding
           = Some (after_text buf cap (t @ signed_decimal v width padding))"
proof -
  let ?n = "nat \<bar>v\<bar>"
  have len: "length (decimal ?n) \<le> 10"
    using v by (simp add: length_decimal)
  have u: "unat (if v < 0 then 0 - word_of_int v else word_of_int v :: u32) = ?n"
    using unat_magnitude [OF v] .
  show ?thesis
  proof (cases "v < 0")
    case True
    let ?t = "t @ [CHR ''-'']"
    have s: "t @ signed_decimal v width padding
        = ?t @ replicate (width - 1 - length (decimal ?n)) padding @ decimal ?n"
      using True by (simp add: signed_decimal_def Let_def)
    have "fits buf cap ?t"
      using fit fits_prefix unfolding s by blast
    note minus = emit_character_after [OF this]
    have u': "unat (0 - word_of_int v :: u32) = ?n"
      using u unfolding if_P [OF True] .
    have w: "(if width \<noteq> 0 then width - 1 else width) = width - 1"
      by simp
    show ?thesis
      unfolding emit_decimal_def if_P [OF True] minus Option.bind.bind_lunit prod.case u' w
      unfolding s by (rule emit_magnitude_after [OF len]) (use fit s in simp)
  next
    case False
    have s: "signed_decimal v width padding
        = replicate (width - length (decimal ?n)) padding @ decimal ?n"
      using False by (simp add: signed_decimal_def Let_def)
    have u': "unat (word_of_int v :: u32) = ?n"
      using u unfolding if_not_P [OF False] .
    show ?thesis
      unfolding emit_decimal_def if_not_P [OF False] Option.bind.bind_lunit prod.case u'
      unfolding s by (rule emit_magnitude_after [OF len]) (use fit s in simp)
  qed
qed

section \<open>The formatter writes the longest prefix that fits\<close>

lemma fits_cut: "fits buf cap (t @ u @ v) \<Longrightarrow> fits buf cap (t @ u)"
  using fits_prefix [of buf cap "t @ u" v] by simp

lemma format_loop_after:
  "expand fs args = Some u \<Longrightarrow> fits buf cap (t @ u) \<Longrightarrow>
     format_loop (after_text buf cap t) fs args = Some (after_text buf cap (t @ u))"
proof (induction fs args arbitrary: t u rule: expand.induct)
  case (1 fs args)
  note exp = "1.prems"(1) and fit = "1.prems"(2)
  have step: "emit_character (after_text buf cap t) c = Some (after_text buf cap (t @ [c]))"
    if "u = c # v" for c v
    using fit fits_cut [of buf cap t "[c]" v] that by (intro emit_character_after) simp
  show ?case
  proof (cases fs)
    case Nil
    then show ?thesis
      using exp by (simp add: expand.simps)
  next
    case fs: (Cons c cs)
    consider "c = NUL" | "c \<noteq> NUL" "c \<noteq> CHR ''%''" | "c = CHR ''%''"
      by auto
    then show ?thesis
    proof cases
      case 1
      then show ?thesis
        using exp by (simp add: fs expand.simps format_loop.simps)
    next
      case 2
      then obtain v where v: "expand cs args = Some v" "u = c # v"
        using exp by (auto simp: fs expand.simps [of "c # cs"])
      have "format_loop (after_text buf cap (t @ [c])) cs args = Some (after_text buf cap ((t @ [c]) @ v))"
        by (rule "1.IH"(1) [OF fs 2 v(1)]) (use fit v in simp)
      then show ?thesis
        using 2 step [OF v(2)] by (simp add: fs v format_loop.simps [of _ "c # cs"])
    next
      case 3
      have c: "c \<noteq> NUL" "\<not> c \<noteq> CHR ''%''"
        using 3 by auto
      show ?thesis
      proof (cases cs)
        case Nil
        then show ?thesis
          using exp 3 by (simp add: fs expand.simps)
      next
        case cs: (Cons d ds)
        show ?thesis
        proof (cases "d = CHR ''%''")
          case True
          then obtain v where v: "expand ds args = Some v" "u = d # v"
            using exp 3 by (auto simp: fs cs expand.simps [of "CHR ''%'' # CHR ''%'' # ds"])
          have "format_loop (after_text buf cap (t @ [d])) ds args
              = Some (after_text buf cap ((t @ [d]) @ v))"
            by (rule "1.IH"(2) [OF fs c cs True v(1)]) (use fit v in simp)
          then show ?thesis
            using True 3 step [OF v(2)]
            by (simp add: fs cs v format_loop.simps [of _ "CHR ''%'' # CHR ''%'' # ds"])
        next
          case False
          obtain padding width k rest where flags: "format_flags cs = Some (padding, width, k # rest)"
            using exp 3 False
            by (auto simp: fs cs expand.simps [of "CHR ''%'' # d # ds"] split: option.splits list.splits)
          note unfold = expand.simps [of "CHR ''%'' # d # ds"] format_loop.simps [of _ "CHR ''%'' # d # ds"]
          note IH = "1.IH"(3-5) [OF fs c cs False flags refl refl refl]
          consider "k = CHR ''s''" | "k = CHR ''d''"
            | "k \<noteq> CHR ''s''" "k \<noteq> CHR ''d''" "k \<noteq> NUL" | "k = NUL"
            by blast
          then show ?thesis
          proof cases
            case 1
            then obtain s args' v where v: "args = ArgS s # args'" "terminated s"
                "expand rest args' = Some v" "u = cstr s @ v"
              using exp 3 False flags
              by (auto simp: fs cs unfold split: list.splits fmt_arg.splits if_splits)
            have "format_loop (after_text buf cap (t @ cstr s)) rest args'
                = Some (after_text buf cap ((t @ cstr s) @ v))"
              by (rule IH(1) [OF 1 v(1) refl v(2,3)]) (use fit v in simp)
            moreover have "emit_string (after_text buf cap t) s = Some (after_text buf cap (t @ cstr s))"
              using fit v(2) fits_cut unfolding v(4) by (blast intro: emit_string_after)
            ultimately show ?thesis
              using 1 3 False flags by (simp add: fs cs unfold v)
          next
            case 2
            then obtain w args' v where v: "args = ArgD w # args'" "- (2 ^ 31) \<le> w \<and> w < 2 ^ 31"
                "expand rest args' = Some v" "u = signed_decimal w width padding @ v"
              using exp 3 False flags
              by (auto simp: fs cs unfold split: list.splits fmt_arg.splits if_splits)
            let ?s = "signed_decimal w width padding"
            have k: "k \<noteq> CHR ''s''"
              using 2 by simp
            have "format_loop (after_text buf cap (t @ ?s)) rest args'
                = Some (after_text buf cap ((t @ ?s) @ v))"
              by (rule IH(2) [OF k 2 v(1) refl v(2,3)]) (use fit v in simp)
            moreover have "emit_decimal (after_text buf cap t) w width padding
                = Some (after_text buf cap (t @ ?s))"
              using fit v(2) fits_cut unfolding v(4) by (blast intro: emit_decimal_after)
            ultimately show ?thesis
              using 2 3 False flags by (simp add: fs cs unfold v)
          next
            case 3
            note k = 3
            obtain v where v: "expand rest args = Some v" "u = CHR ''%'' # k # v"
              using exp k \<open>c = CHR ''%''\<close> False flags by (auto simp: fs cs unfold split: list.splits)
            have "format_loop (after_text buf cap (t @ [CHR ''%'', k])) rest args
                = Some (after_text buf cap ((t @ [CHR ''%'', k]) @ v))"
              by (rule IH(3) [OF k v(1)]) (use fit v in simp)
            moreover have "emit_character (after_text buf cap (t @ [CHR ''%''])) k
                = Some (after_text buf cap ((t @ [CHR ''%'']) @ [k]))"
              using fit fits_cut [of buf cap t "[CHR ''%'', k]" v]
              by (intro emit_character_after) (simp add: v)
            ultimately show ?thesis
              using k \<open>c = CHR ''%''\<close> False flags step [OF v(2)] by (simp add: fs cs unfold v)
          next
            case 4
            then show ?thesis
              using exp 3 False flags by (simp add: fs cs unfold)
          qed
        qed
      qed
    qed
  qed
qed

theorem format_c_spec:
  assumes exp: "expand fs args = Some u" and fit: "fits buf cap u"
  shows "format_c buf cap fs args
           = Some (if cap = 0 then buf
                   else take (cap - 1) u @ NUL # drop (Suc (min (cap - 1) (length u))) buf,
                   int (length u))"
proof -
  have "format_loop (after_text buf cap []) fs args = Some (after_text buf cap u)"
    using format_loop_after [OF exp, of buf cap "[]"] fit by simp
  then have loop: "format_loop \<lparr>buffer = buf, capacity = cap, emitted = 0\<rparr> fs args
      = Some (after_text buf cap u)"
    by (simp only: after_text_Nil)
  show ?thesis
  proof (cases "cap = 0")
    case True
    then show ?thesis
      by (simp add: format_c_def loop [unfolded True]) (simp add: after_text_def)
  next
    case False
    let ?t = "take (cap - 1) u"
    have at: "(if length u < cap then length u else cap - 1) = length ?t"
      using False by (simp add: min_def) linarith
    have lt: "length ?t < length buf"
      using fit False by (simp add: fits_def min.commute)
    then have "store (overlay buf ?t) (length ?t) NUL = Some (?t @ NUL # drop (Suc (length ?t)) buf)"
      by (simp add: store_def overlay_def list_update_append drop_Cons_nth)
    moreover have "format_c buf cap fs args
        = do { b \<leftarrow> store (overlay buf ?t) (length ?t) NUL; Some (b, int (length u)) }"
      using False
      by (simp only: format_c_def loop Option.bind.bind_lunit after_text_def
          FormatOutput.select_convs at not_False_eq_True if_True)
    ultimately show ?thesis
      using False by (simp add: min.commute)
  qed
qed

text \<open>The two ways the modules call the formatter, with the text in the shape they need.\<close>

lemma snprintf_eq:
  assumes "expand fs args = Some u" and "0 < cap" and "cap \<le> length buf"
  shows "snprintf buf cap fs args
           = Some (take (cap - 1) u @ NUL # drop (Suc (min (cap - 1) (length u))) buf, int (length u))"
proof -
  have "fits buf cap u"
    using assms(2,3) by (auto simp: fits_def)
  then show ?thesis
    using assms(2) by (simp add: snprintf_def format_c_spec [OF assms(1)])
qed

lemma sprintf_eq:
  assumes "expand fs args = Some u" and "length u < length buf" and "length buf \<le> SIZE_MAX"
  shows "sprintf buf fs args = Some (u @ NUL # drop (Suc (length u)) buf, int (length u))"
proof -
  have "fits buf SIZE_MAX u" "min (SIZE_MAX - 1) (length u) = length u"
    using assms(2,3) by (auto simp: fits_def)
  then show ?thesis
    using format_c_spec [OF assms(1), of buf SIZE_MAX] assms(2,3)
    by (simp add: sprintf_def SIZE_MAX_def)
qed

text \<open>Unfolding \<open>expand\<close> along a literal format string.\<close>

lemma expand_end [simp]: "expand (NUL # fs) args = Some []"
  by (simp add: expand.simps)

lemma expand_char [simp]:
  "c \<noteq> NUL \<Longrightarrow> c \<noteq> CHR ''%'' \<Longrightarrow> expand (c # fs) args = map_option (Cons c) (expand fs args)"
  by (simp add: expand.simps [of "c # fs"])

lemma expand_s [simp]:
  "expand (CHR ''%'' # CHR ''s'' # fs) (ArgS s # args) =
     (if terminated s then map_option ((@) (cstr s)) (expand fs args) else None)"
  by (subst expand.simps) (simp add: format_flags_def)

lemma expand_d [simp]:
  "- (2 ^ 31) \<le> v \<Longrightarrow> v < 2 ^ 31 \<Longrightarrow>
     expand (CHR ''%'' # CHR ''d'' # fs) (ArgD v # args) =
     map_option ((@) (signed_decimal v 0 CHR '' '')) (expand fs args)"
  by (subst expand.simps) (simp add: format_flags_def)

lemma expand_02d [simp]:
  "- (2 ^ 31) \<le> v \<Longrightarrow> v < 2 ^ 31 \<Longrightarrow>
     expand (CHR ''%'' # CHR ''0'' # CHR ''2'' # CHR ''d'' # fs) (ArgD v # args) =
     map_option ((@) (signed_decimal v 2 CHR ''0'')) (expand fs args)"
  by (subst expand.simps) (simp add: format_flags_def, simp add: numeral_2_eq_2)

lemma plain_signed_decimal [simp]: "padding \<noteq> NUL \<Longrightarrow> plain (signed_decimal v w padding)"
  by (simp add: signed_decimal_def Let_def) (simp add: plain_def)

definition signed_value :: "byte list \<Rightarrow> int" where
  "signed_value s = (case s of
      c # cs \<Rightarrow> if c = CHR ''-'' then - int (decimal_value cs) else int (decimal_value s)
    | [] \<Rightarrow> 0)"

lemma decimal_value_zeros [simp]: "decimal_value (replicate k CHR ''0'' @ s) = decimal_value s"
  by (induction k) auto

lemma decimal_no_minus: "CHR ''-'' \<notin> set (decimal n)"
proof (induction n rule: decimal.induct)
  case (1 n)
  have "CHR ''-'' \<noteq> char_of (48 + d)" if "d < 10" for d :: nat
  proof -
    have "of_char (char_of (48 + d)) = 48 + d" "of_char CHR ''-'' = (45 :: nat)"
      using that by (simp_all add: of_char_of)
    then show ?thesis
      by (intro notI) simp
  qed
  then show ?case
    using 1 by (cases "n < 10") (simp_all add: decimal.simps [of n])
qed

lemma signed_value_signed_decimal: "signed_value (signed_decimal v w CHR ''0'') = v"
proof (cases "v < 0")
  case True
  then show ?thesis
    by (simp add: signed_value_def signed_decimal_def Let_def decimal_value_decimal)
next
  case False
  let ?s = "replicate (w - length (decimal (nat v))) CHR ''0'' @ decimal (nat v)"
  have "CHR ''-'' \<notin> set ?s"
    by (simp add: decimal_no_minus)
  then have "signed_value ?s = int (decimal_value ?s)"
    by (cases ?s) (auto simp: signed_value_def)
  then show ?thesis
    using False by (simp add: signed_decimal_def Let_def decimal_value_decimal)
qed

section \<open>Properties\<close>

text \<open>
  \<open>snprintf\<close> is bounded and truncating. Whenever the format and its arguments denote a text, a
  call with a capacity of at most the buffer's size has no undefined behaviour, stores the longest
  prefix that leaves room for the terminator, terminates it, leaves the rest of the buffer alone and
  returns the length of the whole text; \<open>sprintf\<close> does the same without truncation, provided the text
  is shorter than the buffer.
\<close>

theorem formatter_bounded:
  assumes "expand fs args = Some u"
  shows "(0 < cap \<and> cap \<le> length buf \<longrightarrow>
            snprintf buf cap fs args
              = Some (take (cap - 1) u @ NUL # drop (Suc (min (cap - 1) (length u))) buf, int (length u)))
     \<and> (cap = 0 \<longrightarrow> snprintf buf cap fs args = Some (buf, int (length u)))
     \<and> (length u < length buf \<and> length buf \<le> SIZE_MAX \<longrightarrow>
            sprintf buf fs args = Some (u @ NUL # drop (Suc (length u)) buf, int (length u)))"
  using snprintf_eq [OF assms, of cap buf] sprintf_eq [OF assms, of buf]
    format_c_spec [OF assms, of buf 0]
  by (auto simp: snprintf_def fits_def)

theorem formatter_bounded_witness:
  "snprintf (replicate 8 CHR ''#'') 6 (lit ''%spspemu%s'') [ArgS (lit ''ux0:''), ArgS (lit ''/a'')]
     = Some (''ux0:p'' @ NUL # ''##'', 12)"
proof -
  have "expand (lit ''%spspemu%s'') [ArgS (lit ''ux0:''), ArgS (lit ''/a'')] = Some ''ux0:pspemu/a''"
    by (simp add: cstr_def)
  from formatter_bounded [OF this, of 6 "replicate 8 CHR ''#''"] show ?thesis
    by (simp add: eval_nat_numeral)
qed

text \<open>
  Decimal output. For every 32-bit value, \<open>INT_MIN\<close> included, \<open>%0<width>d\<close> writes the sign, zeros up
  to the width and the digits; reading the text back gives the value, and at most \<open>max width 11\<close>
  characters are written, so the eleven-byte digit buffer is never overrun.
\<close>

theorem decimal_output:
  assumes "- (2 ^ 31) \<le> v" and "v < 2 ^ 31" and "length buf = cap"
    and "length (signed_decimal v width CHR ''0'') < cap"
  shows "\<exists>out. emit_decimal \<lparr>buffer = buf, capacity = cap, emitted = 0\<rparr> v width CHR ''0'' = Some out
     \<and> signed_value (take (emitted out) (buffer out)) = v
     \<and> emitted out \<le> max width 11 \<and> width \<le> max 1 (emitted out)"
proof -
  let ?t = "signed_decimal v width CHR ''0''"
  have len: "length (decimal (nat \<bar>v\<bar>)) \<le> 10"
    using assms(1,2) by (simp add: length_decimal)
  have fit: "fits buf cap ([] @ ?t)"
    using assms(3,4) by (simp add: fits_def)
  have run: "emit_decimal \<lparr>buffer = buf, capacity = cap, emitted = 0\<rparr> v width CHR ''0''
      = Some (after_text buf cap ?t)"
    using emit_decimal_after [OF assms(1,2) fit] by (simp add: after_text_Nil)
  have "take (emitted (after_text buf cap ?t)) (buffer (after_text buf cap ?t)) = ?t"
    using assms(4) by (simp add: after_text_def overlay_def)
  moreover have "length ?t \<le> max width 11"
    using len by (auto simp: signed_decimal_def Let_def)
  moreover have "width \<le> max 1 (length ?t)"
    by (auto simp: signed_decimal_def Let_def)
  ultimately show ?thesis
    using run by (simp add: signed_value_signed_decimal) (simp add: after_text_def)
qed

theorem decimal_output_witness:
  "\<exists>out. emit_decimal \<lparr>buffer = replicate 16 NUL, capacity = 16, emitted = 0\<rparr> (- (2 ^ 31)) 2 CHR ''0''
     = Some out \<and> signed_value (take (emitted out) (buffer out)) = - (2 ^ 31)"
proof -
  have "length (decimal (nat \<bar>- (2 ^ 31)\<bar>)) \<le> 10"
    by (simp add: length_decimal)
  then have "length (signed_decimal (- (2 ^ 31)) 2 CHR ''0'') < 16"
    by (auto simp: signed_decimal_def Let_def)
  then show ?thesis
    using decimal_output [of "- (2 ^ 31)" "replicate 16 NUL" 16 2] by auto
qed

lemma expand_04d [simp]:
  "- (2 ^ 31) \<le> v \<Longrightarrow> v < 2 ^ 31 \<Longrightarrow>
     expand (CHR ''%'' # CHR ''0'' # CHR ''4'' # CHR ''d'' # fs) (ArgD v # args) =
     map_option ((@) (signed_decimal v 4 CHR ''0'')) (expand fs args)"
  by (subst expand.simps) (simp add: format_flags_def)

lemma signed_decimal_two_digits:
  "n < 100 \<Longrightarrow> signed_decimal (int n) 2 CHR ''0'' = [char_of (48 + n div 10), char_of (48 + n mod 10)]"
proof (cases "n < 10")
  case True
  have "of_char CHR ''0'' = (48 :: nat)"
    by simp
  then have "char_of (48 :: nat) = CHR ''0''"
    by (metis char_of_char)
  then show ?thesis
    using True by (simp add: signed_decimal_def Let_def decimal.simps [of n] numeral_2_eq_2)
next
  case False
  assume "n < 100"
  then have "n div 10 < 10"
    by simp
  then show ?thesis
    using False by (simp add: signed_decimal_def Let_def decimal.simps [of n] decimal.simps [of "n div 10"])
qed

lemma snprintf_fits:
  assumes "expand fs args = Some u" "plain u" "length u < cap" "cap \<le> length buf"
  shows "\<exists>out. snprintf buf cap fs args = Some (out, int (length u))
           \<and> cstr out = u \<and> terminated out \<and> length out = length buf"
proof -
  have "snprintf buf cap fs args = Some (u @ NUL # drop (Suc (length u)) buf, int (length u))"
    using snprintf_eq [OF assms(1), of cap buf] assms(3,4) by simp
  then show ?thesis
    using assms(2-4) by (simp add: cstr_append_NUL)
qed

lemma sprintf_fits:
  assumes "expand fs args = Some u" "plain u" "length u < length buf" "length buf \<le> SIZE_MAX"
  shows "\<exists>out. sprintf buf fs args = Some (out, int (length u))
           \<and> cstr out = u \<and> terminated out \<and> length out = length buf"
  using sprintf_eq [OF assms(1,3,4)] assms(2,3) by (simp add: cstr_append_NUL)

end
