(* ===== verification/SceIo.thy ===== *)
theory SceIo
  imports Prelude
begin

text \<open>
  The operating-system interface the modules call. The kernel is not part of the repository: its
  calls are the fields of a record over an abstract world \<open>'w\<close>, a parameter of every definition
  that performs I/O. What the code relies on is the predicate \<open>fs_contract\<close>, which states the
  documented behaviour of \<open>sceIoOpen\<close>, \<open>sceIoRead\<close>, \<open>sceIoWrite\<close>, \<open>sceIoLseek\<close>, \<open>sceIoClose\<close>,
  \<open>sceIoGetstat\<close> and \<open>sceIoRemove\<close> on a view of the world as named files and open handles; theorems
  that need it name it as a hypothesis. \<open>mem_io\<close> is an in-memory instance used by witnesses.
\<close>

section \<open>The calls\<close>

datatype open_flag = O_RDONLY | O_WRONLY | O_RDWR | O_CREAT | O_TRUNC | O_APPEND | O_EXCL | O_NBLOCK | O_DIROPEN

datatype seek_whence = SEEK_SET | SEEK_CUR | SEEK_END

type_synonym path = "byte list"

record 'w sceio =
  sceIoOpen :: "path \<Rightarrow> open_flag set \<Rightarrow> nat \<Rightarrow> 'w \<Rightarrow> int \<times> 'w"
  sceIoRead :: "int \<Rightarrow> nat \<Rightarrow> 'w \<Rightarrow> int \<times> byte list \<times> 'w"
  sceIoWrite :: "int \<Rightarrow> byte list \<Rightarrow> 'w \<Rightarrow> int \<times> 'w"
  sceIoLseek :: "int \<Rightarrow> int \<Rightarrow> seek_whence \<Rightarrow> 'w \<Rightarrow> int \<times> 'w"
  sceIoClose :: "int \<Rightarrow> 'w \<Rightarrow> int \<times> 'w"
  sceIoGetstat :: "path \<Rightarrow> 'w \<Rightarrow> int \<times> 'w"
  sceIoRemove :: "path \<Rightarrow> 'w \<Rightarrow> int \<times> 'w"

text \<open>
  Arguments that are C strings and buffers the kernel fills: an unterminated path, a read that
  delivers more than the buffer holds, and a write of more bytes than the object has are undefined.
\<close>

definition path_arg :: "byte list \<Rightarrow> path option" where
  "path_arg buf = (if terminated buf then Some (cstr buf) else None)"

definition fill :: "byte list \<Rightarrow> byte list \<Rightarrow> byte list option" where
  "fill buf data = (if length data \<le> length buf then Some (overlay buf data) else None)"

definition bytes_arg :: "byte list \<Rightarrow> nat \<Rightarrow> byte list option" where
  "bytes_arg buf n = (if n \<le> length buf then Some (take n buf) else None)"

datatype outcome = Returns int | ExitProcess int

lemma path_arg_lit [simp]: "plain p \<Longrightarrow> path_arg (p @ NUL # rest) = Some p"
  by (simp add: path_arg_def cstr_append_NUL)

lemma path_arg_terminated: "terminated b \<Longrightarrow> path_arg b = Some (cstr b)"
  by (simp add: path_arg_def)

lemma fill_exact: "length data = length buf \<Longrightarrow> fill buf data = Some data"
  by (simp add: fill_def overlay_same_length)

section \<open>The documented behaviour\<close>

record fsview =
  files :: "path \<Rightarrow> byte list option"
  dirs :: "path set"
  handles :: "int \<Rightarrow> (path \<times> nat) option"

definition opened :: "fsview \<Rightarrow> path \<Rightarrow> open_flag set \<Rightarrow> int \<Rightarrow> fsview" where
  "opened fs p fl fd =
     fs\<lparr>files := (if O_TRUNC \<in> fl \<or> files fs p = None then (files fs)(p := Some []) else files fs),
        handles := (handles fs)(fd := Some (p, 0))\<rparr>"

definition open_contract :: "'w sceio \<Rightarrow> ('w \<Rightarrow> fsview) \<Rightarrow> bool" where
  "open_contract io V \<longleftrightarrow>
     (\<forall>p fl mode w fd w'. sceIoOpen io p fl mode w = (fd, w') \<longrightarrow>
        (if fd < 0 then V w' = V w \<and> files (V w) p = None
         else handles (V w) fd = None \<and> (files (V w) p \<noteq> None \<or> O_CREAT \<in> fl)
              \<and> V w' = opened (V w) p fl fd))"

definition read_contract :: "'w sceio \<Rightarrow> ('w \<Rightarrow> fsview) \<Rightarrow> bool" where
  "read_contract io V \<longleftrightarrow>
     (\<forall>fd n w p pos d. handles (V w) fd = Some (p, pos) \<longrightarrow> files (V w) p = Some d \<longrightarrow>
        (case sceIoRead io fd n w of (r, data, w') \<Rightarrow>
           data = take n (drop pos d) \<and> r = int (length data)
           \<and> V w' = (V w)\<lparr>handles := (handles (V w))(fd := Some (p, pos + length data))\<rparr>))"

definition write_contract :: "'w sceio \<Rightarrow> ('w \<Rightarrow> fsview) \<Rightarrow> bool" where
  "write_contract io V \<longleftrightarrow>
     (\<forall>fd data w p pos d. handles (V w) fd = Some (p, pos) \<longrightarrow> files (V w) p = Some d \<longrightarrow>
        pos \<le> length d \<longrightarrow>
        (case sceIoWrite io fd data w of (r, w') \<Rightarrow>
           r = int (length data)
           \<and> V w' = (V w)\<lparr>files := (files (V w))(p := Some (overlay_at pos d data)),
                           handles := (handles (V w))(fd := Some (p, pos + length data))\<rparr>))"

definition seek_target :: "seek_whence \<Rightarrow> int \<Rightarrow> nat \<Rightarrow> byte list \<Rightarrow> int" where
  "seek_target whence off pos d =
     (case whence of SEEK_SET \<Rightarrow> off | SEEK_CUR \<Rightarrow> int pos + off | SEEK_END \<Rightarrow> int (length d) + off)"

definition lseek_contract :: "'w sceio \<Rightarrow> ('w \<Rightarrow> fsview) \<Rightarrow> bool" where
  "lseek_contract io V \<longleftrightarrow>
     (\<forall>fd off whence w p pos d. handles (V w) fd = Some (p, pos) \<longrightarrow> files (V w) p = Some d \<longrightarrow>
        0 \<le> seek_target whence off pos d \<longrightarrow>
        (case sceIoLseek io fd off whence w of (r, w') \<Rightarrow>
           r = seek_target whence off pos d
           \<and> V w' = (V w)\<lparr>handles := (handles (V w))(fd := Some (p, nat r))\<rparr>))"

definition close_contract :: "'w sceio \<Rightarrow> ('w \<Rightarrow> fsview) \<Rightarrow> bool" where
  "close_contract io V \<longleftrightarrow>
     (\<forall>fd w. case sceIoClose io fd w of (r, w') \<Rightarrow>
        (r < 0 \<longleftrightarrow> handles (V w) fd = None)
        \<and> V w' = (V w)\<lparr>handles := (handles (V w))(fd := None)\<rparr>)"

definition stat_contract :: "'w sceio \<Rightarrow> ('w \<Rightarrow> fsview) \<Rightarrow> bool" where
  "stat_contract io V \<longleftrightarrow>
     (\<forall>p w. case sceIoGetstat io p w of (r, w') \<Rightarrow>
        (0 \<le> r \<longleftrightarrow> files (V w) p \<noteq> None \<or> p \<in> dirs (V w)) \<and> V w' = V w)"

definition remove_contract :: "'w sceio \<Rightarrow> ('w \<Rightarrow> fsview) \<Rightarrow> bool" where
  "remove_contract io V \<longleftrightarrow>
     (\<forall>p w. case sceIoRemove io p w of (r, w') \<Rightarrow>
        (0 \<le> r \<longleftrightarrow> files (V w) p \<noteq> None) \<and> V w' = (V w)\<lparr>files := (files (V w))(p := None)\<rparr>)"

definition fs_contract :: "'w sceio \<Rightarrow> ('w \<Rightarrow> fsview) \<Rightarrow> bool" where
  "fs_contract io V \<longleftrightarrow>
     open_contract io V \<and> read_contract io V \<and> write_contract io V \<and> lseek_contract io V
     \<and> close_contract io V \<and> stat_contract io V \<and> remove_contract io V"

section \<open>Rules of the contract\<close>

lemma open_result:
  assumes "fs_contract io V" "sceIoOpen io p fl m w = (fd, w')"
  shows "if fd < 0 then V w' = V w \<and> files (V w) p = None
         else handles (V w) fd = None \<and> (files (V w) p \<noteq> None \<or> O_CREAT \<in> fl)
              \<and> V w' = opened (V w) p fl fd"
  using assms unfolding fs_contract_def open_contract_def by blast

lemma open_missing:
  assumes "fs_contract io V" "files (V w) p = None" "O_CREAT \<notin> fl"
  shows "\<exists>fd w'. sceIoOpen io p fl m w = (fd, w') \<and> fd < 0 \<and> V w' = V w"
  using open_result [OF assms(1), of p fl m w] assms(2,3)
  by (cases "sceIoOpen io p fl m w") (simp split: if_splits)

lemma open_existing:
  assumes "fs_contract io V" "files (V w) p = Some d"
  shows "\<exists>fd w'. sceIoOpen io p fl m w = (fd, w') \<and> 0 \<le> fd \<and> handles (V w) fd = None
           \<and> V w' = opened (V w) p fl fd"
  using open_result [OF assms(1), of p fl m w] assms(2)
  by (cases "sceIoOpen io p fl m w") (simp split: if_splits)

lemma open_cases:
  assumes "fs_contract io V"
  obtains (failed) fd w' where "sceIoOpen io p fl m w = (fd, w')" "fd < 0" "V w' = V w"
      "files (V w) p = None"
    | (opens) fd w' where "sceIoOpen io p fl m w = (fd, w')" "0 \<le> fd" "handles (V w) fd = None"
      "V w' = opened (V w) p fl fd"
proof -
  obtain fd w' where "sceIoOpen io p fl m w = (fd, w')"
    by fastforce
  with open_result [OF assms this] show thesis
    using failed opens by (cases "fd < 0") auto
qed

lemma read_handle:
  assumes "fs_contract io V" "handles (V w) fd = Some (p, pos)" "files (V w) p = Some d"
  shows "\<exists>w'. sceIoRead io fd n w = (int (length (take n (drop pos d))), take n (drop pos d), w')
           \<and> V w' = (V w)\<lparr>handles := (handles (V w))(fd := Some (p, pos + length (take n (drop pos d))))\<rparr>"
proof -
  have "read_contract io V"
    using assms(1) by (simp add: fs_contract_def)
  from this [unfolded read_contract_def, rule_format, OF assms(2,3), of n] show ?thesis
    by (cases "sceIoRead io fd n w") auto
qed

lemma write_handle:
  assumes "fs_contract io V" "handles (V w) fd = Some (p, pos)" "files (V w) p = Some d"
    "pos \<le> length d"
  shows "\<exists>w'. sceIoWrite io fd data w = (int (length data), w')
           \<and> V w' = (V w)\<lparr>files := (files (V w))(p := Some (overlay_at pos d data)),
                           handles := (handles (V w))(fd := Some (p, pos + length data))\<rparr>"
proof -
  have "write_contract io V"
    using assms(1) by (simp add: fs_contract_def)
  from this [unfolded write_contract_def, rule_format, OF assms(2,3,4), of data] show ?thesis
    by (cases "sceIoWrite io fd data w") auto
qed

lemma lseek_handle:
  assumes "fs_contract io V" "handles (V w) fd = Some (p, pos)" "files (V w) p = Some d"
    "0 \<le> seek_target whence off pos d"
  shows "\<exists>w'. sceIoLseek io fd off whence w = (seek_target whence off pos d, w')
           \<and> V w' = (V w)\<lparr>handles := (handles (V w))(fd := Some (p, nat (seek_target whence off pos d)))\<rparr>"
proof -
  have "lseek_contract io V"
    using assms(1) by (simp add: fs_contract_def)
  from this [unfolded lseek_contract_def, rule_format, OF assms(2,3,4)] show ?thesis
    by (cases "sceIoLseek io fd off whence w") auto
qed

lemma close_handle:
  assumes "fs_contract io V"
  shows "\<exists>r w'. sceIoClose io fd w = (r, w') \<and> (r < 0 \<longleftrightarrow> handles (V w) fd = None)
           \<and> V w' = (V w)\<lparr>handles := (handles (V w))(fd := None)\<rparr>"
proof -
  have "close_contract io V"
    using assms by (simp add: fs_contract_def)
  from this [unfolded close_contract_def, THEN spec [of _ fd], THEN spec [of _ w]] show ?thesis
    by (cases "sceIoClose io fd w") simp
qed

lemma getstat_path:
  assumes "fs_contract io V"
  shows "\<exists>r w'. sceIoGetstat io p w = (r, w') \<and> V w' = V w
           \<and> (0 \<le> r \<longleftrightarrow> files (V w) p \<noteq> None \<or> p \<in> dirs (V w))"
proof -
  have "stat_contract io V"
    using assms by (simp add: fs_contract_def)
  from this [unfolded stat_contract_def, THEN spec [of _ p], THEN spec [of _ w]] show ?thesis
    by (cases "sceIoGetstat io p w") simp
qed

lemma remove_path:
  assumes "fs_contract io V"
  shows "\<exists>r w'. sceIoRemove io p w = (r, w') \<and> V w' = (V w)\<lparr>files := (files (V w))(p := None)\<rparr>
           \<and> (0 \<le> r \<longleftrightarrow> files (V w) p \<noteq> None)"
proof -
  have "remove_contract io V"
    using assms by (simp add: fs_contract_def)
  from this [unfolded remove_contract_def, THEN spec [of _ p], THEN spec [of _ w]] show ?thesis
    by (cases "sceIoRemove io p w") simp
qed

lemma fun_upd_None_id: "m x = None \<Longrightarrow> m(x := None) = m"
  by (simp add: fun_upd_idem)

section \<open>An in-memory instance\<close>

record mem =
  mfiles :: "path \<Rightarrow> byte list option"
  mdirs :: "path list"
  mhandles :: "(path \<times> nat) option list"

definition mem_handle :: "mem \<Rightarrow> int \<Rightarrow> (path \<times> nat) option" where
  "mem_handle m fd = (if 0 \<le> fd \<and> nat fd < length (mhandles m) then mhandles m ! nat fd else None)"

definition mem_view :: "mem \<Rightarrow> fsview" where
  "mem_view m = \<lparr>files = mfiles m, dirs = set (mdirs m), handles = mem_handle m\<rparr>"

definition mem_open :: "path \<Rightarrow> open_flag set \<Rightarrow> nat \<Rightarrow> mem \<Rightarrow> int \<times> mem" where
  "mem_open p fl mode m =
     (if mfiles m p = None \<and> O_CREAT \<notin> fl then (-1, m)
      else (int (length (mhandles m)),
            m\<lparr>mfiles := (if O_TRUNC \<in> fl \<or> mfiles m p = None then (mfiles m)(p := Some []) else mfiles m),
              mhandles := mhandles m @ [Some (p, 0)]\<rparr>))"

definition mem_read :: "int \<Rightarrow> nat \<Rightarrow> mem \<Rightarrow> int \<times> byte list \<times> mem" where
  "mem_read fd n m =
     (case mem_handle m fd of
        None \<Rightarrow> (-1, [], m)
      | Some (p, pos) \<Rightarrow>
          (case mfiles m p of
             None \<Rightarrow> (-1, [], m)
           | Some d \<Rightarrow>
               let data = take n (drop pos d)
               in (int (length data), data,
                   m\<lparr>mhandles := (mhandles m)[nat fd := Some (p, pos + length data)]\<rparr>)))"

definition mem_write :: "int \<Rightarrow> byte list \<Rightarrow> mem \<Rightarrow> int \<times> mem" where
  "mem_write fd data m =
     (case mem_handle m fd of
        None \<Rightarrow> (-1, m)
      | Some (p, pos) \<Rightarrow>
          (case mfiles m p of
             None \<Rightarrow> (-1, m)
           | Some d \<Rightarrow>
               (int (length data),
                m\<lparr>mfiles := (mfiles m)(p := Some (overlay_at pos d data)),
                  mhandles := (mhandles m)[nat fd := Some (p, pos + length data)]\<rparr>)))"

definition mem_lseek :: "int \<Rightarrow> int \<Rightarrow> seek_whence \<Rightarrow> mem \<Rightarrow> int \<times> mem" where
  "mem_lseek fd off whence m =
     (case mem_handle m fd of
        None \<Rightarrow> (-1, m)
      | Some (p, pos) \<Rightarrow>
          (case mfiles m p of
             None \<Rightarrow> (-1, m)
           | Some d \<Rightarrow>
               let target = seek_target whence off pos d
               in if target < 0 then (-1, m)
                  else (target, m\<lparr>mhandles := (mhandles m)[nat fd := Some (p, nat target)]\<rparr>)))"

definition mem_close :: "int \<Rightarrow> mem \<Rightarrow> int \<times> mem" where
  "mem_close fd m =
     (case mem_handle m fd of
        None \<Rightarrow> (-1, m)
      | Some _ \<Rightarrow> (0, m\<lparr>mhandles := (mhandles m)[nat fd := None]\<rparr>))"

definition mem_getstat :: "path \<Rightarrow> mem \<Rightarrow> int \<times> mem" where
  "mem_getstat p m = (if mfiles m p \<noteq> None \<or> p \<in> set (mdirs m) then 0 else -1, m)"

definition mem_remove :: "path \<Rightarrow> mem \<Rightarrow> int \<times> mem" where
  "mem_remove p m = (if mfiles m p \<noteq> None then 0 else -1, m\<lparr>mfiles := (mfiles m)(p := None)\<rparr>)"

definition mem_io :: "mem sceio" where
  "mem_io = \<lparr>sceIoOpen = mem_open, sceIoRead = mem_read, sceIoWrite = mem_write,
             sceIoLseek = mem_lseek, sceIoClose = mem_close, sceIoGetstat = mem_getstat,
             sceIoRemove = mem_remove\<rparr>"

lemmas mem_defs = mem_io_def mem_open_def mem_read_def mem_write_def mem_lseek_def mem_close_def
  mem_getstat_def mem_remove_def mem_handle_def

lemma mem_handle_Some: "mem_handle m fd = Some h \<Longrightarrow> 0 \<le> fd \<and> nat fd < length (mhandles m)"
  by (simp add: mem_handle_def split: if_splits)

lemma mem_handle_update:
  "0 \<le> fd \<Longrightarrow> nat fd < length (mhandles m) \<Longrightarrow>
     mem_handle (m\<lparr>mfiles := f, mhandles := (mhandles m)[nat fd := h]\<rparr>) = (mem_handle m)(fd := h)"
  by (rule ext) (auto simp: mem_handle_def nth_list_update)

lemma mem_handle_update':
  "0 \<le> fd \<Longrightarrow> nat fd < length (mhandles m) \<Longrightarrow>
     mem_handle (m\<lparr>mhandles := (mhandles m)[nat fd := h]\<rparr>) = (mem_handle m)(fd := h)"
  by (rule ext) (auto simp: mem_handle_def nth_list_update)

lemma mem_handle_append:
  "mem_handle (m\<lparr>mfiles := f, mhandles := mhandles m @ [h]\<rparr>)
     = (mem_handle m)(int (length (mhandles m)) := h)"
  by (rule ext) (auto simp: mem_handle_def nth_append)

lemma mem_handle_fresh [simp]: "mem_handle m (int (length (mhandles m))) = None"
  by (simp add: mem_handle_def)

lemma mem_handle_files [simp]: "mem_handle (m\<lparr>mfiles := f\<rparr>) = mem_handle m"
  by (rule ext) (simp add: mem_handle_def)

lemma mem_contract: "fs_contract mem_io mem_view"
  unfolding fs_contract_def
proof (intro conjI)
  show "open_contract mem_io mem_view"
    by (auto simp: open_contract_def mem_io_def mem_open_def mem_view_def opened_def mem_handle_append)
  show "read_contract mem_io mem_view"
    by (auto simp: read_contract_def mem_io_def mem_read_def mem_view_def Let_def
        mem_handle_update' dest: mem_handle_Some)
  show "write_contract mem_io mem_view"
    by (auto simp: write_contract_def mem_io_def mem_write_def mem_view_def
        mem_handle_update dest: mem_handle_Some)
  show "lseek_contract mem_io mem_view"
    by (auto simp: lseek_contract_def mem_io_def mem_lseek_def mem_view_def Let_def
        mem_handle_update' dest: mem_handle_Some)
  show "close_contract mem_io mem_view"
    by (auto simp: close_contract_def mem_io_def mem_close_def mem_view_def fun_upd_None_id
        mem_handle_update' dest: mem_handle_Some split: option.splits)
  show "stat_contract mem_io mem_view"
    by (auto simp: stat_contract_def mem_io_def mem_getstat_def mem_view_def)
  show "remove_contract mem_io mem_view"
    by (auto simp: remove_contract_def mem_io_def mem_remove_def mem_view_def)
qed

section \<open>Whole files\<close>

text \<open>
  The three modules wrap the calls in the same four operations on whole files: does a path exist,
  how long is it, read it into a buffer, replace its contents. The locale states what a caller may
  rely on; each module's own wrappers are interpreted below the module's definitions.
\<close>

locale whole_file =
  fixes check :: "'w sceio \<Rightarrow> path \<Rightarrow> 'w \<Rightarrow> int \<times> 'w"
    and size_of :: "'w sceio \<Rightarrow> path \<Rightarrow> 'w \<Rightarrow> int \<times> 'w"
    and read_into :: "'w sceio \<Rightarrow> path \<Rightarrow> byte list \<Rightarrow> nat \<Rightarrow> 'w \<Rightarrow> (int \<times> byte list \<times> 'w) option"
    and write_from :: "'w sceio \<Rightarrow> path \<Rightarrow> byte list \<Rightarrow> nat \<Rightarrow> 'w \<Rightarrow> (int \<times> 'w) option"
  assumes check_law: "fs_contract io V \<Longrightarrow>
      \<exists>r w'. check io p w = (r, w') \<and> V w' = V w
        \<and> (0 \<le> r \<longleftrightarrow> files (V w) p \<noteq> None \<or> p \<in> dirs (V w))"
    and size_present: "fs_contract io V \<Longrightarrow> files (V w) p = Some d \<Longrightarrow> length d < 2 ^ 31 \<Longrightarrow>
      \<exists>w'. size_of io p w = (int (length d), w') \<and> V w' = V w"
    and size_absent: "fs_contract io V \<Longrightarrow> files (V w) p = None \<Longrightarrow>
      \<exists>r w'. size_of io p w = (r, w') \<and> r < 0 \<and> V w' = V w"
    and read_present: "fs_contract io V \<Longrightarrow> files (V w) p = Some d \<Longrightarrow> n \<le> length buf \<Longrightarrow>
      \<exists>w'. read_into io p buf n w = Some (int (length (take n d)), overlay buf (take n d), w') \<and> V w' = V w"
    and read_absent: "fs_contract io V \<Longrightarrow> files (V w) p = None \<Longrightarrow>
      \<exists>r w'. read_into io p buf n w = Some (r, buf, w') \<and> r < 0 \<and> V w' = V w"
    and write_law: "fs_contract io V \<Longrightarrow> n \<le> length buf \<Longrightarrow>
      \<exists>r w'. write_from io p buf n w = Some (r, w')
        \<and> (if r < 0 then V w' = V w \<and> files (V w) p = None
           else r = int n \<and> V w' = (V w)\<lparr>files := (files (V w))(p := Some (take n buf))\<rparr>)"
begin

lemma read_back:
  assumes io: "fs_contract io V" and n: "n \<le> length buf"
    and w: "write_from io p buf n w = Some (r, w')" "0 \<le> r" and b: "length b = n"
  shows "\<exists>w''. read_into io p b n w' = Some (int n, take n buf, w'') \<and> V w'' = V w'"
proof -
  have f: "files (V w') p = Some (take n buf)"
    using write_law [OF io n, of p w] w by (auto split: if_splits)
  have "overlay b (take n (take n buf)) = take n buf"
    using n b by (simp add: overlay_same_length)
  then show ?thesis
    using read_present [OF io f, of n b] n b by auto
qed

lemma write_existing:
  assumes io: "fs_contract io V" and n: "n \<le> length buf" and f: "files (V w) p = Some d"
  shows "\<exists>w'. write_from io p buf n w = Some (int n, w')
           \<and> V w' = (V w)\<lparr>files := (files (V w))(p := Some (take n buf))\<rparr>"
  using write_law [OF io n, of p w] f by (auto split: if_splits)

lemma write_keeps_handles:
  assumes io: "fs_contract io V" and n: "n \<le> length buf"
    and w: "write_from io p buf n w = Some (r, w')"
  shows "handles (V w') = handles (V w)" and "q \<noteq> p \<Longrightarrow> files (V w') q = files (V w) q"
  using write_law [OF io n, of p w] w by (auto split: if_splits)

end

section \<open>The rest of the Vita kernel the modules consult\<close>

record 'w vita_sys =
  vita_io :: "'w sceio"
  taiGetModuleInfo :: "byte list \<Rightarrow> 'w \<Rightarrow> int"
  sceAppMgrGetNameById :: "'w \<Rightarrow> byte list"

definition app_name_into :: "'w vita_sys \<Rightarrow> byte list \<Rightarrow> 'w \<Rightarrow> byte list option" where
  "app_name_into sys buf w = fill buf (sceAppMgrGetNameById sys w @ [NUL])"

definition launched_as :: "'w vita_sys \<Rightarrow> byte list \<Rightarrow> 'w \<Rightarrow> bool" where
  "launched_as sys title w \<longleftrightarrow>
     0 \<le> taiGetModuleInfo sys ''ScePspemu'' w \<and> sceAppMgrGetNameById sys w = title
     \<and> plain title \<and> length title \<le> 11"

section \<open>Opening, using and closing one handle\<close>

text \<open>
  The shape every wrapper has: a fresh handle is opened, used once, and closed. Closing gives back
  the handle table the caller had.
\<close>

lemma opened_simps [simp]:
  "handles (opened fs p fl fd) = (handles fs)(fd := Some (p, 0))"
  "dirs (opened fs p fl fd) = dirs fs"
  "files fs p = Some d \<Longrightarrow> O_TRUNC \<notin> fl \<Longrightarrow> files (opened fs p fl fd) = files fs"
  "O_TRUNC \<in> fl \<Longrightarrow> files (opened fs p fl fd) = (files fs)(p := Some [])"
  by (simp_all add: opened_def)

lemma fsview_update_id [simp]:
  "handles fs fd = None \<Longrightarrow> fs\<lparr>handles := (handles fs)(fd := None)\<rparr> = fs"
  by (simp add: fun_upd_None_id)

lemma read_once:
  assumes io: "fs_contract io V" and f: "files (V w) p = Some d"
    and fl: "O_TRUNC \<notin> fl"
  shows "\<exists>fd w1 w2 w3 r. sceIoOpen io p fl m w = (fd, w1) \<and> 0 \<le> fd
           \<and> sceIoRead io fd n w1 = (int (length (take n d)), take n d, w2)
           \<and> sceIoClose io fd w2 = (r, w3) \<and> V w3 = V w"
proof -
  obtain fd w1 where o: "sceIoOpen io p fl m w = (fd, w1)" "0 \<le> fd" "handles (V w) fd = None"
      "V w1 = opened (V w) p fl fd"
    using open_existing [OF io f] by blast
  have "handles (V w1) fd = Some (p, 0)" "files (V w1) p = Some d"
    using f fl by (simp_all add: o(4))
  from read_handle [OF io this, of n] obtain w2
    where r: "sceIoRead io fd n w1 = (int (length (take n d)), take n d, w2)"
      "V w2 = (V w1)\<lparr>handles := (handles (V w1))(fd := Some (p, 0 + length (take n d)))\<rparr>"
    unfolding drop_0 by blast
  obtain rc w3 where c: "sceIoClose io fd w2 = (rc, w3)"
      "V w3 = (V w2)\<lparr>handles := (handles (V w2))(fd := None)\<rparr>"
    using close_handle [OF io] by blast
  have "V w3 = V w"
    unfolding c(2) r(2) o(4) using f fl o(3) by (simp add: opened_def fun_upd_None_id)
  then show ?thesis
    using o r c by blast
qed

lemma write_once:
  assumes io: "fs_contract io V" and o: "sceIoOpen io p fl m w = (fd, w1)" "0 \<le> fd"
    and fl: "O_TRUNC \<in> fl"
  shows "\<exists>w2 w3 r. sceIoWrite io fd data w1 = (int (length data), w2)
           \<and> sceIoClose io fd w2 = (r, w3)
           \<and> V w3 = (V w)\<lparr>files := (files (V w))(p := Some data)\<rparr>"
proof -
  have v: "handles (V w) fd = None" "V w1 = opened (V w) p fl fd"
    using open_result [OF io o(1)] o(2) by simp_all
  have "handles (V w1) fd = Some (p, 0)" "files (V w1) p = Some []"
    using fl by (simp_all add: v(2))
  from write_handle [OF io this, of data] obtain w2
    where r: "sceIoWrite io fd data w1 = (int (length data), w2)"
      "V w2 = (V w1)\<lparr>files := (files (V w1))(p := Some (overlay_at 0 [] data)),
                      handles := (handles (V w1))(fd := Some (p, 0 + length data))\<rparr>"
    by auto
  obtain rc w3 where c: "sceIoClose io fd w2 = (rc, w3)"
      "V w3 = (V w2)\<lparr>handles := (handles (V w2))(fd := None)\<rparr>"
    using close_handle [OF io] by blast
  have "V w3 = (V w)\<lparr>files := (files (V w))(p := Some data)\<rparr>"
    unfolding c(2) r(2) v(2) using fl v(1) by (simp add: opened_def fun_upd_None_id overlay_at_def)
  then show ?thesis
    using r c by blast
qed

lemma size_once:
  assumes io: "fs_contract io V" and f: "files (V w) p = Some d" and fl: "O_TRUNC \<notin> fl"
  shows "\<exists>fd w1 w2 w3 r. sceIoOpen io p fl m w = (fd, w1) \<and> 0 \<le> fd
           \<and> sceIoLseek io fd 0 SEEK_END w1 = (int (length d), w2)
           \<and> sceIoClose io fd w2 = (r, w3) \<and> V w3 = V w"
proof -
  obtain fd w1 where o: "sceIoOpen io p fl m w = (fd, w1)" "0 \<le> fd" "handles (V w) fd = None"
      "V w1 = opened (V w) p fl fd"
    using open_existing [OF io f] by blast
  have h: "handles (V w1) fd = Some (p, 0)" "files (V w1) p = Some d"
    using f fl by (simp_all add: o(4))
  have t: "seek_target SEEK_END 0 0 d = int (length d)"
    by (simp add: seek_target_def)
  obtain w2 where r: "sceIoLseek io fd 0 SEEK_END w1 = (int (length d), w2)"
      "V w2 = (V w1)\<lparr>handles := (handles (V w1))(fd := Some (p, length d))\<rparr>"
    using lseek_handle [OF io h, of SEEK_END 0] unfolding t by auto
  obtain rc w3 where c: "sceIoClose io fd w2 = (rc, w3)"
      "V w3 = (V w2)\<lparr>handles := (handles (V w2))(fd := None)\<rparr>"
    using close_handle [OF io] by blast
  have "V w3 = V w"
    unfolding c(2) r(2) o(4) using f fl o(3) by (simp add: opened_def fun_upd_None_id)
  then show ?thesis
    using o r c by blast
qed

lemma whole_file_wrappers:
  fixes check size_of :: "'w sceio \<Rightarrow> path \<Rightarrow> 'w \<Rightarrow> int \<times> 'w"
  assumes wrappers:
    "\<And>io p w. check io p w = sceIoGetstat io p w"
    "\<And>io p w. size_of io p w =
       (let (fd, w) = sceIoOpen io p {O_RDONLY} 0 w
        in if fd < 0 then (fd, w)
           else let (sz, w) = sceIoLseek io fd 0 SEEK_END w; (_, w) = sceIoClose io fd w
                in (to_int32 sz, w))"
    "\<And>io p buf n w. read_into io p buf n w =
       (let (fd, w) = sceIoOpen io p {O_RDONLY} 0 w
        in if fd < 0 then Some (fd, buf, w)
           else let (r, data, w) = sceIoRead io fd n w; (_, w) = sceIoClose io fd w
                in do { buf \<leftarrow> fill buf data; Some (r, buf, w) })"
    "\<And>io p buf n w. write_from io p buf n w =
       (let (fd, w) = sceIoOpen io p {O_WRONLY, O_CREAT, O_TRUNC} 511 w
        in if fd < 0 then Some (fd, w)
           else do {
             data \<leftarrow> bytes_arg buf n;
             let (r, w) = sceIoWrite io fd data w;
             let (_, w) = sceIoClose io fd w;
             Some (r, w) })"
  shows "whole_file check size_of read_into write_from"
proof unfold_locales
  fix io :: "'w sceio" and V :: "'w \<Rightarrow> fsview" and w p and d buf :: "byte list" and n
  assume io: "fs_contract io V"
  show "\<exists>r w'. check io p w = (r, w') \<and> V w' = V w
          \<and> (0 \<le> r \<longleftrightarrow> files (V w) p \<noteq> None \<or> p \<in> dirs (V w))"
    unfolding wrappers(1) by (rule getstat_path [OF io])
  show "\<exists>w'. size_of io p w = (int (length d), w') \<and> V w' = V w"
    if "files (V w) p = Some d" "length d < 2 ^ 31"
    using size_once [OF io that(1), of "{O_RDONLY}" 0] that(2)
    by (auto simp: wrappers(2) to_int32_id)
  show "\<exists>r w'. size_of io p w = (r, w') \<and> r < 0 \<and> V w' = V w"
    if "files (V w) p = None"
    using open_missing [OF io that, of "{O_RDONLY}" 0] by (auto simp: wrappers(2))
  show "\<exists>w'. read_into io p buf n w = Some (int (length (take n d)), overlay buf (take n d), w')
          \<and> V w' = V w" if "files (V w) p = Some d" "n \<le> length buf"
    using read_once [OF io that(1), of "{O_RDONLY}" 0 n] that(2)
    by (auto simp: wrappers(3) fill_def)
  show "\<exists>r w'. read_into io p buf n w = Some (r, buf, w') \<and> r < 0 \<and> V w' = V w"
    if "files (V w) p = None"
    using open_missing [OF io that, of "{O_RDONLY}" 0] by (auto simp: wrappers(3))
  show "\<exists>r w'. write_from io p buf n w = Some (r, w')
          \<and> (if r < 0 then V w' = V w \<and> files (V w) p = None
             else r = int n \<and> V w' = (V w)\<lparr>files := (files (V w))(p := Some (take n buf))\<rparr>)"
    if n: "n \<le> length buf"
  proof (rule open_cases [OF io, of p "{O_WRONLY, O_CREAT, O_TRUNC}" 511 w])
    fix fd w'
    assume "sceIoOpen io p {O_WRONLY, O_CREAT, O_TRUNC} 511 w = (fd, w')" "fd < 0" "V w' = V w"
      "files (V w) p = None"
    then show ?thesis
      by (simp add: wrappers(4))
  next
    fix fd w1
    assume o: "sceIoOpen io p {O_WRONLY, O_CREAT, O_TRUNC} 511 w = (fd, w1)" "0 \<le> fd"
    obtain w2 w3 rc where "sceIoWrite io fd (take n buf) w1 = (int n, w2)" "sceIoClose io fd w2 = (rc, w3)"
        "V w3 = (V w)\<lparr>files := (files (V w))(p := Some (take n buf))\<rparr>"
      using write_once [OF io o, of "take n buf"] n by auto
    then show ?thesis
      using o n by (intro exI [of _ "int n"] exI [of _ w3]) (simp add: wrappers(4) bytes_arg_def)
  qed
qed

text \<open>The same memory on a volume without room for a new file: creating fails.\<close>

definition full_io :: "mem sceio" where
  "full_io = mem_io\<lparr>sceIoOpen :=
     (\<lambda>p fl mode m. if mfiles m p = None then (-1, m) else mem_open p fl mode m)\<rparr>"

lemma full_contract: "fs_contract full_io mem_view"
proof -
  have same: "sceIoRead full_io = mem_read" "sceIoWrite full_io = mem_write" "sceIoLseek full_io = mem_lseek"
    "sceIoClose full_io = mem_close" "sceIoGetstat full_io = mem_getstat" "sceIoRemove full_io = mem_remove"
    by (simp_all add: full_io_def mem_io_def)
  have "open_contract full_io mem_view"
    by (auto simp: open_contract_def full_io_def mem_io_def mem_open_def mem_view_def opened_def
        mem_handle_append)
  then show ?thesis
    using mem_contract
    by (simp add: fs_contract_def read_contract_def write_contract_def lseek_contract_def
        close_contract_def stat_contract_def remove_contract_def same)
      (simp add: mem_io_def)
qed

section \<open>Seeking and reading on one handle\<close>

definition holds :: "('w \<Rightarrow> fsview) \<Rightarrow> 'w \<Rightarrow> int \<Rightarrow> path \<Rightarrow> nat \<Rightarrow> fsview \<Rightarrow> bool" where
  "holds V w fd p pos fs \<longleftrightarrow> V w = fs\<lparr>handles := (handles fs)(fd := Some (p, pos))\<rparr>"

lemma open_holds:
  assumes "fs_contract io V" "files (V w) p = Some d" "O_TRUNC \<notin> fl"
  shows "\<exists>fd w'. sceIoOpen io p fl m w = (fd, w') \<and> 0 \<le> fd \<and> holds V w' fd p 0 (V w)
           \<and> handles (V w) fd = None"
  using open_existing [OF assms(1,2)] assms(2,3) by (fastforce simp: holds_def opened_def)

lemma read_holds:
  assumes "fs_contract io V" "holds V w fd p pos fs" "files fs p = Some d"
  shows "\<exists>w'. sceIoRead io fd n w = (int (length (take n (drop pos d))), take n (drop pos d), w')
           \<and> holds V w' fd p (pos + length (take n (drop pos d))) fs"
proof -
  have "handles (V w) fd = Some (p, pos)" "files (V w) p = Some d"
    using assms(2,3) by (simp_all add: holds_def)
  from read_handle [OF assms(1) this, of n] show ?thesis
    using assms(2) by (auto simp: holds_def)
qed

lemma seek_holds:
  assumes "fs_contract io V" "holds V w fd p pos fs" "files fs p = Some d"
    "0 \<le> seek_target whence off pos d"
  shows "\<exists>w'. sceIoLseek io fd off whence w = (seek_target whence off pos d, w')
           \<and> holds V w' fd p (nat (seek_target whence off pos d)) fs"
proof -
  have "handles (V w) fd = Some (p, pos)" "files (V w) p = Some d"
    using assms(2,3) by (simp_all add: holds_def)
  from lseek_handle [OF assms(1) this assms(4)] show ?thesis
    using assms(2) by (auto simp: holds_def)
qed

lemma seek_read_holds:
  assumes "fs_contract io V" "holds V w fd p pos fs" "files fs p = Some d" "0 \<le> off"
  shows "\<exists>w1 w2. sceIoLseek io fd off SEEK_SET w = (off, w1)
           \<and> sceIoRead io fd n w1 = (int (length (take n (drop (nat off) d))), take n (drop (nat off) d), w2)
           \<and> holds V w2 fd p (nat off + length (take n (drop (nat off) d))) fs"
proof -
  have t: "seek_target SEEK_SET off pos d = off"
    by (simp add: seek_target_def)
  obtain w1 where w1: "sceIoLseek io fd off SEEK_SET w = (off, w1)" "holds V w1 fd p (nat off) fs"
    using seek_holds [OF assms(1-3), of SEEK_SET off] assms(4) unfolding t by auto
  show ?thesis
    using read_holds [OF assms(1) w1(2) assms(3), of n] w1(1) by blast
qed

lemma close_holds:
  assumes "fs_contract io V" "holds V w fd p pos fs" "handles fs fd = None"
  shows "\<exists>r w'. sceIoClose io fd w = (r, w') \<and> 0 \<le> r \<and> V w' = fs"
proof -
  obtain r w' where c: "sceIoClose io fd w = (r, w')" "r < 0 \<longleftrightarrow> handles (V w) fd = None"
      "V w' = (V w)\<lparr>handles := (handles (V w))(fd := None)\<rparr>"
    using close_handle [OF assms(1)] by blast
  then show ?thesis
    using assms(2,3) by (auto simp: holds_def fun_upd_None_id)
qed

end
