(* ===== verification/BootInfo.thy ===== *)
theory BootInfo
  imports Prelude
begin

text \<open>
  The two on-disk layouts of \<open>data/boot.bin\<close>: the current 0x140-byte \<open>BootInfo\<close> of
  \<open>src/common/adrenaline_compat.h\<close> and the 0x120-byte \<open>LegacyBootInfo\<close> of
  \<open>src/vita/adrbubblebooter/main.c\<close>. A struct is a record; the bytes a module reads and writes are
  its little-endian image (\<open>boot_info_bytes\<close>, \<open>boot_info_of_bytes\<close>).
\<close>

section \<open>Sequences of 32-bit words\<close>

definition words_bytes :: "u32 list \<Rightarrow> byte list" where
  "words_bytes ws = concat (map le32 ws)"

fun words_of_bytes :: "nat \<Rightarrow> byte list \<Rightarrow> u32 list" where
  "words_of_bytes 0 bs = []"
| "words_of_bytes (Suc n) bs = rd32 (take 4 bs) # words_of_bytes n (drop 4 bs)"

lemma length_words_bytes [simp]: "length (words_bytes ws) = 4 * length ws"
  by (induction ws) (simp_all add: words_bytes_def)

lemma length_words_of_bytes [simp]: "length (words_of_bytes n bs) = n"
  by (induction n arbitrary: bs) simp_all

lemma words_of_bytes_words_bytes:
  "length ws = n \<Longrightarrow> words_of_bytes n (words_bytes ws @ rest) = ws"
  by (induction ws arbitrary: n) (auto simp: words_bytes_def)

lemma words_bytes_words_of_bytes:
  "4 * n \<le> length bs \<Longrightarrow> words_bytes (words_of_bytes n bs) = take (4 * n) bs"
proof (induction n arbitrary: bs)
  case 0
  then show ?case by (simp add: words_bytes_def)
next
  case (Suc n)
  have "le32 (rd32 (take 4 bs)) = take 4 bs"
    using Suc.prems by (intro le32_rd32) simp
  moreover have "take (4 * Suc n) bs = take 4 bs @ take (4 * n) (drop 4 bs)"
    by (simp add: take_add)
  ultimately show ?case
    using Suc by (simp add: words_bytes_def)
qed

section \<open>The records\<close>

record BootInfo =
  magic :: i32
  driver :: i32
  execute :: i32
  customized :: i32
  loadstate :: i32
  psbutton :: i32
  suspend :: i32
  cpuspeed :: i32
  plugins :: i32
  nonpdrm :: i32
  highmemory :: i32
  reserved :: "i32 list"
  file_path :: "byte list"

record LegacyBootInfo =
  legacy_fields :: "i32 list"
  legacy_file_path :: "byte list"

definition sizeof_BootInfo :: nat where
  "sizeof_BootInfo = 0x140"

definition sizeof_LegacyBootInfo :: nat where
  "sizeof_LegacyBootInfo = 0x120"

definition BOOT_INFO_MAGIC :: i32 where
  "BOOT_INFO_MAGIC = 0x00424241"

definition valid_boot_info :: "BootInfo \<Rightarrow> bool" where
  "valid_boot_info b \<longleftrightarrow> length (reserved b) = 5 \<and> length (file_path b) = 256"

definition valid_legacy :: "LegacyBootInfo \<Rightarrow> bool" where
  "valid_legacy l \<longleftrightarrow> length (legacy_fields l) = 8 \<and> length (legacy_file_path l) = 256"

definition boot_info_bytes :: "BootInfo \<Rightarrow> byte list" where
  "boot_info_bytes b =
     words_bytes [magic b, driver b, execute b, customized b, loadstate b, psbutton b, suspend b,
                  cpuspeed b, plugins b, nonpdrm b, highmemory b]
     @ words_bytes (reserved b) @ file_path b"

definition boot_info_of_bytes :: "byte list \<Rightarrow> BootInfo" where
  "boot_info_of_bytes bs =
     (let ws = words_of_bytes 11 bs
      in \<lparr>magic = ws ! 0, driver = ws ! 1, execute = ws ! 2, customized = ws ! 3, loadstate = ws ! 4,
          psbutton = ws ! 5, suspend = ws ! 6, cpuspeed = ws ! 7, plugins = ws ! 8, nonpdrm = ws ! 9,
          highmemory = ws ! 10, reserved = words_of_bytes 5 (drop 44 bs),
          file_path = take 256 (drop 64 bs)\<rparr>)"

definition legacy_bytes :: "LegacyBootInfo \<Rightarrow> byte list" where
  "legacy_bytes l = words_bytes (legacy_fields l) @ legacy_file_path l"

definition legacy_of_bytes :: "byte list \<Rightarrow> LegacyBootInfo" where
  "legacy_of_bytes bs =
     \<lparr>legacy_fields = words_of_bytes 8 bs, legacy_file_path = take 256 (drop 32 bs)\<rparr>"

section \<open>The layouts as fixed-size codecs\<close>

text \<open>
  A struct image is a fixed-size codec: encoding a valid struct gives exactly \<open>sizeof\<close> bytes, and
  either direction undoes the other. Reading fewer bytes than the struct has leaves the tail of the
  old image, which is what \<open>overlay\<close> states.
\<close>

locale struct_image =
  fixes enc :: "'a \<Rightarrow> byte list" and dec :: "byte list \<Rightarrow> 'a" and sz :: nat and valid :: "'a \<Rightarrow> bool"
  assumes enc_length: "valid x \<Longrightarrow> length (enc x) = sz"
    and dec_enc: "valid x \<Longrightarrow> dec (enc x) = x"
    and enc_dec: "length bs = sz \<Longrightarrow> enc (dec bs) = bs"
    and dec_valid: "length bs = sz \<Longrightarrow> valid (dec bs)"
begin

lemma enc_inj: "valid x \<Longrightarrow> valid y \<Longrightarrow> enc x = enc y \<Longrightarrow> x = y"
  by (metis dec_enc)

lemma overlay_full: "valid x \<Longrightarrow> length data = sz \<Longrightarrow> dec (overlay (enc x) data) = dec data"
  by (simp add: overlay_same_length enc_length)

lemma overlay_valid: "valid x \<Longrightarrow> length data \<le> sz \<Longrightarrow> valid (dec (overlay (enc x) data))"
  by (simp add: dec_valid enc_length)

lemma overlay_read_back: "valid x \<Longrightarrow> valid y \<Longrightarrow> dec (overlay (enc x) (enc y)) = y"
  by (simp add: overlay_full enc_length dec_enc)

end

lemma boot_info_bytes_length: "valid_boot_info b \<Longrightarrow> length (boot_info_bytes b) = sizeof_BootInfo"
  by (simp add: boot_info_bytes_def valid_boot_info_def sizeof_BootInfo_def)

lemma boot_info_roundtrip: "valid_boot_info b \<Longrightarrow> boot_info_of_bytes (boot_info_bytes b) = b"
  by (cases b) (simp add: boot_info_of_bytes_def boot_info_bytes_def valid_boot_info_def Let_def
      words_of_bytes_words_bytes)

lemma words_of_bytes_list11: "map ((!) (words_of_bytes 11 bs)) [0,1,2,3,4,5,6,7,8,9,10] = words_of_bytes 11 bs"
  by (rule nth_equalityI) (auto simp: nth_Cons eval_nat_numeral split: nat.splits)

lemma boot_info_bytes_of_bytes:
  assumes "length bs = sizeof_BootInfo"
  shows "boot_info_bytes (boot_info_of_bytes bs) = bs"
proof -
  have "words_bytes (words_of_bytes 11 bs) = take 44 bs"
    "words_bytes (words_of_bytes 5 (drop 44 bs)) = take 20 (drop 44 bs)"
    using assms words_bytes_words_of_bytes [of 11 bs] words_bytes_words_of_bytes [of 5 "drop 44 bs"]
    by (simp_all add: sizeof_BootInfo_def)
  moreover have "take 44 bs @ take 20 (drop 44 bs) @ take 256 (drop 64 bs) = bs"
    using assms append_take_drop_id [of 44 bs] append_take_drop_id [of 20 "drop 44 bs"]
    by (simp add: sizeof_BootInfo_def)
  ultimately show ?thesis
    unfolding boot_info_bytes_def boot_info_of_bytes_def Let_def
    by (simp add: words_of_bytes_list11 [simplified])
qed

lemma boot_info_of_bytes_valid: "length bs = sizeof_BootInfo \<Longrightarrow> valid_boot_info (boot_info_of_bytes bs)"
  by (simp add: valid_boot_info_def boot_info_of_bytes_def Let_def sizeof_BootInfo_def)

interpretation boot_image: struct_image boot_info_bytes boot_info_of_bytes sizeof_BootInfo valid_boot_info
  by unfold_locales
    (simp_all add: boot_info_bytes_length boot_info_roundtrip boot_info_bytes_of_bytes
      boot_info_of_bytes_valid)

lemma legacy_bytes_of_bytes:
  assumes "length bs = sizeof_LegacyBootInfo"
  shows "legacy_bytes (legacy_of_bytes bs) = bs"
proof -
  have "words_bytes (words_of_bytes 8 bs) = take 32 bs"
    using assms words_bytes_words_of_bytes [of 8 bs] by (simp add: sizeof_LegacyBootInfo_def)
  then show ?thesis
    using assms by (simp add: legacy_bytes_def legacy_of_bytes_def sizeof_LegacyBootInfo_def)
qed

interpretation legacy_image: struct_image legacy_bytes legacy_of_bytes sizeof_LegacyBootInfo valid_legacy
proof unfold_locales
  show "legacy_bytes (legacy_of_bytes bs) = bs" if "length bs = sizeof_LegacyBootInfo" for bs
    using that by (rule legacy_bytes_of_bytes)
qed (auto simp: legacy_bytes_def legacy_of_bytes_def valid_legacy_def sizeof_LegacyBootInfo_def
    words_of_bytes_words_bytes)

section \<open>Zero-initialised images\<close>

definition zero_boot_info :: BootInfo where
  "zero_boot_info = boot_info_of_bytes (replicate sizeof_BootInfo NUL)"

lemma zero_boot_info_valid [simp]: "valid_boot_info zero_boot_info"
  by (simp add: zero_boot_info_def boot_info_of_bytes_valid)

lemma zero_boot_info_path [simp]: "file_path zero_boot_info = replicate 256 NUL"
  by (simp add: zero_boot_info_def boot_info_of_bytes_def Let_def sizeof_BootInfo_def)

lemma zero_boot_info_bytes: "boot_info_bytes zero_boot_info = replicate sizeof_BootInfo NUL"
  by (simp add: zero_boot_info_def boot_info_bytes_of_bytes)

lemma words_of_zero_bytes: "4 * n \<le> m \<Longrightarrow> words_of_bytes n (replicate m NUL) = replicate n 0"
proof (induction n arbitrary: m)
  case 0
  then show ?case by simp
next
  case (Suc n)
  have "take 4 (replicate m NUL) = [NUL, NUL, NUL, NUL]"
    using Suc.prems by (simp add: eval_nat_numeral min_def)
  then have "rd32 (take 4 (replicate m NUL)) = 0"
    by (simp add: rd32_def)
  then show ?case
    using Suc by simp
qed

lemma zero_boot_info_eq:
  "zero_boot_info = \<lparr>magic = 0, driver = 0, execute = 0, customized = 0, loadstate = 0, psbutton = 0,
     suspend = 0, cpuspeed = 0, plugins = 0, nonpdrm = 0, highmemory = 0, reserved = replicate 5 0,
     file_path = replicate 256 NUL\<rparr>"
proof -
  have "words_of_bytes 11 (replicate sizeof_BootInfo NUL) = replicate 11 0"
    "words_of_bytes 5 (drop 44 (replicate sizeof_BootInfo NUL)) = replicate 5 0"
    by (simp_all add: sizeof_BootInfo_def words_of_zero_bytes)
  then show ?thesis
    by (simp add: zero_boot_info_def boot_info_of_bytes_def Let_def sizeof_BootInfo_def)
qed

end
