(* ===== verification/Devices.thy ===== *)
theory Devices
  imports CString
begin

text \<open>
  The naming scheme the modules share: memory-stick locations 0 to 4 stand for the Vita devices
  \<open>ux0\<close>, \<open>ur0\<close>, \<open>imc0\<close>, \<open>xmc0\<close> and \<open>uma0\<close>, device names compare without case, and a path is split
  at its last colon. The specifications here are what the modules' own string code is proved
  against; the locale \<open>location_root\<close> is the contract of a function from locations to path prefixes.
\<close>

definition location_names :: "byte list list" where
  "location_names = [''ux0'', ''ur0'', ''imc0'', ''xmc0'', ''uma0'']"

definition same_name :: "byte list \<Rightarrow> byte list \<Rightarrow> bool" where
  "same_name a b \<longleftrightarrow> fold_str a = fold_str b"

definition location_of :: "byte list \<Rightarrow> int" where
  "location_of dev =
     (if same_name dev ''ux0'' then 0 else if same_name dev ''ur0'' then 1
      else if same_name dev ''imc0'' then 2 else if same_name dev ''xmc0'' then 3
      else if same_name dev ''uma0'' then 4 else -1)"

definition device_of :: "byte list \<Rightarrow> byte list" where
  "device_of p =
     (if CHR '':'' \<in> set p then rev (tl (dropWhile (\<lambda>c. c \<noteq> CHR '':'') (rev p))) else p)"

definition after_colon :: "byte list \<Rightarrow> byte list" where
  "after_colon p = rev (takeWhile (\<lambda>c. c \<noteq> CHR '':'') (rev p))"

lemma location_of_bounds: "-1 \<le> location_of dev" "location_of dev \<le> 4"
  by (simp_all add: location_of_def)

lemma same_name_refl [simp]: "same_name a a"
  by (simp add: same_name_def)

lemma location_of_name: "i < 5 \<Longrightarrow> location_of (location_names ! i) = int i"
  by (auto simp: less_Suc_eq numeral_eq_Suc location_names_def location_of_def same_name_def
      fold_case_def)

lemma name_of_location: "0 \<le> location_of dev \<Longrightarrow> same_name dev (location_names ! nat (location_of dev))"
  by (simp add: location_of_def location_names_def split: if_splits)

lemma split_last_colon:
  assumes "CHR '':'' \<in> set p"
  shows "p = device_of p @ CHR '':'' # after_colon p" and "CHR '':'' \<notin> set (after_colon p)"
proof -
  let ?P = "\<lambda>c. c \<noteq> CHR '':''"
  have r: "rev p = takeWhile ?P (rev p) @ dropWhile ?P (rev p)"
    by simp
  have ne: "dropWhile ?P (rev p) \<noteq> []"
    using assms by simp
  then have "hd (dropWhile ?P (rev p)) = CHR '':''"
    using hd_dropWhile [OF ne] by simp
  then have "dropWhile ?P (rev p) = CHR '':'' # tl (dropWhile ?P (rev p))"
    using ne by (metis list.collapse)
  then have "rev p = takeWhile ?P (rev p) @ CHR '':'' # tl (dropWhile ?P (rev p))"
    by (metis r)
  then have "p = rev (takeWhile ?P (rev p) @ CHR '':'' # tl (dropWhile ?P (rev p)))"
    by (metis rev_rev_ident)
  then show "p = device_of p @ CHR '':'' # after_colon p"
    using assms by (simp add: device_of_def after_colon_def)
  show "CHR '':'' \<notin> set (after_colon p)"
    by (auto simp: after_colon_def dest: set_takeWhileD)
qed

lemma device_of_colon:
  assumes "CHR '':'' \<notin> set b"
  shows "device_of (a @ CHR '':'' # b) = a" and "after_colon (a @ CHR '':'' # b) = b"
proof -
  let ?P = "\<lambda>c. c \<noteq> CHR '':''"
  have all: "\<forall>x \<in> set (rev b). ?P x"
    using assms by auto
  have "takeWhile ?P (rev b @ CHR '':'' # rev a) = rev b"
    using all by (intro takeWhile_stop) auto
  moreover have "dropWhile ?P (rev b @ CHR '':'' # rev a) = CHR '':'' # rev a"
    using all by (subst dropWhile_append2) auto
  ultimately show "device_of (a @ CHR '':'' # b) = a" "after_colon (a @ CHR '':'' # b) = b"
    by (simp_all add: device_of_def after_colon_def)
qed

lemma strrchr_colon:
  assumes "terminated buf"
  shows "strrchr buf CHR '':'' =
           Some (if CHR '':'' \<in> set (cstr buf) then Some (length (device_of (cstr buf))) else None)"
proof (cases "CHR '':'' \<in> set (cstr buf)")
  case True
  let ?s = "cstr buf"
  obtain rest where b: "buf = ?s @ NUL # rest"
    using terminated_split [OF assms] by blast
  have s: "?s = device_of ?s @ CHR '':'' # after_colon ?s"
    and n: "CHR '':'' \<notin> set (after_colon ?s)"
    using split_last_colon [OF True] by blast+
  have p: "plain (device_of ?s)" "plain (after_colon ?s)"
    using plain_cstr [of buf] s by (metis plain_append plain_Cons)+
  have b': "buf = device_of ?s @ CHR '':'' # after_colon ?s @ NUL # rest"
    using b s by (metis append.assoc append_Cons)
  have "strrchr (device_of ?s @ CHR '':'' # after_colon ?s @ NUL # rest) CHR '':''
      = Some (Some (length (device_of ?s)))"
    using p n by (intro strrchr_last) (auto simp: cstr_append_NUL)
  then show ?thesis
    using True b' by simp
next
  case False
  then show ?thesis
    using assms by (simp add: strrchr_absent)
qed

section \<open>Prefixes for locations\<close>

locale location_root =
  fixes root :: "int \<Rightarrow> byte list" and sfx :: "byte list"
  assumes root_law: "root l = (if 1 \<le> l \<and> l \<le> 4 then location_names ! nat l else ''ux0'') @ sfx"
    and sfx_colon: "\<exists>dir. sfx = CHR '':'' # dir \<and> plain dir \<and> CHR '':'' \<notin> set dir \<and> length dir \<le> 6"
begin

lemma root_plain: "plain (root l)"
proof -
  have "plain (location_names ! nat l)" if "1 \<le> l" "l \<le> 4"
  proof -
    have "nat l < 5"
      using that by simp
    then show ?thesis
      by (auto simp: less_Suc_eq numeral_eq_Suc location_names_def)
  qed
  then show ?thesis
    using sfx_colon by (auto simp: root_law)
qed

lemma root_length: "length (root l) \<le> 11"
proof -
  have "length (location_names ! nat l) \<le> 4" if "1 \<le> l" "l \<le> 4"
  proof -
    have "nat l < 5"
      using that by simp
    then show ?thesis
      by (auto simp: less_Suc_eq numeral_eq_Suc location_names_def)
  qed
  then show ?thesis
    using sfx_colon by (auto simp: root_law)
qed

lemma root_location:
  assumes "0 \<le> l" "l \<le> 4" "CHR '':'' \<notin> set rest"
  shows "location_of (device_of (root l @ rest)) = l"
proof -
  obtain dir where sfx: "sfx = CHR '':'' # dir" "CHR '':'' \<notin> set dir"
    using sfx_colon by blast
  have "root l = location_names ! nat l @ sfx"
    using assms(1,2) by (cases "l = 0") (auto simp: root_law location_names_def)
  then have "root l @ rest = location_names ! nat l @ CHR '':'' # (dir @ rest)"
    by (simp add: sfx)
  then have "device_of (root l @ rest) = location_names ! nat l"
    using sfx(2) assms(3) by (simp add: device_of_colon)
  then show ?thesis
    using location_of_name [of "nat l"] assms(1,2) by simp
qed

lemma root_unknown: "\<not> (1 \<le> l \<and> l \<le> 4) \<Longrightarrow> root l = root 0"
  by (auto simp: root_law)

end

end
