(* ===== verification/AdrBooter.thy ===== *)
theory AdrBooter
  imports CFormat SceIo BootInfo Devices
begin

text \<open>
  \<open>adrbubblebooter.suprx\<close> (\<open>src/vita/adrbubblebooter/main.c\<close>), loaded into the PSP emulator of
  every bubble. \<open>module_start\<close> reads the bubble's \<open>boot.bin\<close> (upgrading the legacy layout on disk),
  loads the global or per-bubble Adrenaline settings, stores the memory-stick location that the
  content's device implies into them, and leaves the process only when the content or its save state
  exists. The module's static buffers are the record \<open>adr_bss\<close>.
\<close>

section \<open>Static data\<close>

definition ADRENALINE_TITLE_ID :: "byte list" where
  "ADRENALINE_TITLE_ID = ''PSPEMUCFW''"

definition CONFIG_FALLBACK_SIZE :: nat where
  "CONFIG_FALLBACK_SIZE = 0x60"

record adr_bss =
  device_name :: "byte list"
  adrenaline_config_path :: "byte list"
  legacy_boot_info :: LegacyBootInfo
  app_title_id :: "byte list"
  bubble_config_path :: "byte list"
  config :: "byte list"
  boot_info :: BootInfo
  bubble_boot_path :: "byte list"

definition adr_bss_init :: adr_bss where
  "adr_bss_init =
     \<lparr>device_name = replicate 256 NUL, adrenaline_config_path = replicate 64 NUL,
      legacy_boot_info = legacy_of_bytes (replicate sizeof_LegacyBootInfo NUL),
      app_title_id = replicate 12 NUL, bubble_config_path = replicate 64 NUL,
      config = replicate CONFIG_FALLBACK_SIZE NUL, boot_info = zero_boot_info,
      bubble_boot_path = replicate 64 NUL\<rparr>"

section \<open>Whole-file wrappers\<close>

definition adr_check_file :: "'w sceio \<Rightarrow> path \<Rightarrow> 'w \<Rightarrow> int \<times> 'w" where
  "adr_check_file io p w = sceIoGetstat io p w"

definition adr_get_file_size :: "'w sceio \<Rightarrow> path \<Rightarrow> 'w \<Rightarrow> int \<times> 'w" where
  "adr_get_file_size io p w =
     (let (fd, w) = sceIoOpen io p {O_RDONLY} 0 w
      in if fd < 0 then (fd, w)
         else let (sz, w) = sceIoLseek io fd 0 SEEK_END w;
                  (_, w) = sceIoClose io fd w
              in (to_int32 sz, w))"

definition adr_read_file ::
  "'w sceio \<Rightarrow> path \<Rightarrow> byte list \<Rightarrow> nat \<Rightarrow> 'w \<Rightarrow> (int \<times> byte list \<times> 'w) option"
where
  "adr_read_file io p buf n w =
     (let (fd, w) = sceIoOpen io p {O_RDONLY} 0 w
      in if fd < 0 then Some (fd, buf, w)
         else let (r, data, w) = sceIoRead io fd n w;
                  (_, w) = sceIoClose io fd w
              in do { buf \<leftarrow> fill buf data; Some (r, buf, w) })"

definition adr_write_file ::
  "'w sceio \<Rightarrow> path \<Rightarrow> byte list \<Rightarrow> nat \<Rightarrow> 'w \<Rightarrow> (int \<times> 'w) option"
where
  "adr_write_file io p buf n w =
     (let (fd, w) = sceIoOpen io p {O_WRONLY, O_CREAT, O_TRUNC} 511 w
      in if fd < 0 then Some (fd, w)
         else do {
           data \<leftarrow> bytes_arg buf n;
           let (r, w) = sceIoWrite io fd data w;
           let (_, w) = sceIoClose io fd w;
           Some (r, w) })"

section \<open>Devices and locations\<close>

definition adr_after_last_colon :: "byte list \<Rightarrow> nat option" where
  "adr_after_last_colon p =
     do { colon \<leftarrow> strrchr p CHR '':''; case colon of None \<Rightarrow> None | Some i \<Rightarrow> Some (Suc i) }"

definition adr_get_device_name :: "byte list \<Rightarrow> byte list \<Rightarrow> (byte list option \<times> byte list) option" where
  "adr_get_device_name dev p = do {
     n \<leftarrow> strlen p;
     if n \<le> 256 then do {
       dev \<leftarrow> strcpy dev p;
       colon \<leftarrow> strrchr dev CHR '':'';
       let dev = (case colon of None \<Rightarrow> dev | Some i \<Rightarrow> dev[i := NUL]);
       Some (Some dev, dev) }
     else Some (None, dev) }"

definition adr_get_ms_location :: "byte list \<Rightarrow> int option" where
  "adr_get_ms_location dev = do {
     d \<leftarrow> strcasecmp dev (lit ''ux0'');
     if d = 0 then Some 0 else do {
       d \<leftarrow> strcasecmp dev (lit ''ur0'');
       if d = 0 then Some 1 else do {
         d \<leftarrow> strcasecmp dev (lit ''imc0'');
         if d = 0 then Some 2 else do {
           d \<leftarrow> strcasecmp dev (lit ''xmc0'');
           if d = 0 then Some 3 else do {
             d \<leftarrow> strcasecmp dev (lit ''uma0'');
             Some (if d = 0 then 4 else -1) }}}}}"

definition adr_get_pspemu_root :: "int \<Rightarrow> byte list" where
  "adr_get_pspemu_root location =
     (if location = 1 then ''ur0:pspemu''
      else if location = 2 then ''imc0:pspemu''
      else if location = 3 then ''xmc0:pspemu''
      else if location = 4 then ''uma0:pspemu''
      else ''ux0:pspemu'')"

definition clamp_location :: "int \<Rightarrow> int" where
  "clamp_location location =
     (let l = word_of_int location :: i32 in sint (and l (not (signed_drop_bit 31 l))))"

section \<open>Loading the boot record\<close>

definition upgrade_boot_info :: "LegacyBootInfo \<Rightarrow> BootInfo option" where
  "upgrade_boot_info l = do {
     let b = zero_boot_info\<lparr>magic := legacy_fields l ! 0, driver := legacy_fields l ! 1,
       execute := legacy_fields l ! 2, customized := legacy_fields l ! 3,
       loadstate := legacy_fields l ! 4, psbutton := legacy_fields l ! 5,
       suspend := legacy_fields l ! 6\<rparr>;
     p \<leftarrow> strncpy (file_path b) (legacy_file_path l) 256;
     Some (b\<lparr>file_path := p\<rparr>) }"

definition load_boot_info :: "'w sceio \<Rightarrow> adr_bss \<Rightarrow> 'w \<Rightarrow> (adr_bss \<times> 'w) option" where
  "load_boot_info io s w = do {
     p \<leftarrow> path_arg (bubble_boot_path s);
     let (boot_size, w) = adr_get_file_size io p w;
     if boot_size \<noteq> int sizeof_BootInfo then do {
       (_, legacy, w) \<leftarrow> adr_read_file io p (replicate sizeof_LegacyBootInfo NUL) sizeof_LegacyBootInfo w;
       let s = s\<lparr>legacy_boot_info := legacy_of_bytes legacy\<rparr>;
       b \<leftarrow> upgrade_boot_info (legacy_boot_info s);
       (_, w) \<leftarrow> adr_write_file io p (boot_info_bytes b) sizeof_BootInfo w;
       Some (s\<lparr>boot_info := b\<rparr>, w) }
     else do {
       (_, image, w) \<leftarrow> adr_read_file io p (boot_info_bytes zero_boot_info) (nat boot_size) w;
       Some (s\<lparr>boot_info := boot_info_of_bytes image\<rparr>, w) } }"

section \<open>Loading the settings\<close>

definition load_config :: "'w sceio \<Rightarrow> adr_bss \<Rightarrow> 'w \<Rightarrow> (nat \<times> adr_bss \<times> 'w) option" where
  "load_config io s w = do {
     global \<leftarrow> path_arg (adrenaline_config_path s);
     let (sz, w) = adr_get_file_size io global w;
     let config_size = (if sz \<le> 0 then CONFIG_FALLBACK_SIZE else nat sz);
     c \<leftarrow> memset (config s) 0 config_size;
     (_, c, w) \<leftarrow> adr_read_file io global c config_size w;
     (c, w) \<leftarrow>
       (if customized (boot_info s) = 1
        then do {
          bubble \<leftarrow> path_arg (bubble_config_path s);
          (_, c, w) \<leftarrow> adr_read_file io bubble c config_size w;
          Some (c, w) }
        else Some (c, w));
     Some (config_size, s\<lparr>config := c\<rparr>, w) }"

section \<open>Choosing the location and finishing\<close>

definition set_ms_location :: "bool \<Rightarrow> int \<Rightarrow> byte list \<Rightarrow> byte list" where
  "set_ms_location isage location c =
     (if isage then c[0x0B := char_of location] else put32 0x18 (word_of_int location) c)"

definition savestate_path :: "int \<Rightarrow> i32 \<Rightarrow> byte list option" where
  "savestate_path location state =
     (if sint state = - (2 ^ 31) then None
      else do {
        (p, _) \<leftarrow> sprintf (replicate 128 NUL) (lit ''%s/PSP/SAVESTATE/STATE%02d.BIN'')
                    [ArgS (lit (adr_get_pspemu_root location)), ArgD (sint state - 1)];
        Some p })"

definition content_location :: "adr_bss \<Rightarrow> (int \<times> adr_bss) option" where
  "content_location s = do {
     (name, dev) \<leftarrow> adr_get_device_name (device_name s) (file_path (boot_info s));
     name \<leftarrow> name;
     location \<leftarrow> adr_get_ms_location name;
     Some (clamp_location location, s\<lparr>device_name := dev\<rparr>) }"

definition finish_launch ::
  "bool \<Rightarrow> 'w sceio \<Rightarrow> nat \<Rightarrow> int \<Rightarrow> adr_bss \<Rightarrow> 'w \<Rightarrow> (outcome \<times> adr_bss \<times> 'w) option"
where
  "finish_launch isage io config_size location s w = do {
     saved \<leftarrow> savestate_path location (loadstate (boot_info s));
     (found, w) \<leftarrow>
       (if loadstate (boot_info s) \<noteq> 0
        then do {
          p \<leftarrow> path_arg saved;
          let (r, w) = adr_check_file io p w;
          Some (0 \<le> r, w) }
        else Some (False, w));
     if found then Some (Returns 0, s, w)
     else do {
       content \<leftarrow> path_arg (file_path (boot_info s));
       let (r, w) = adr_check_file io content w;
       if 0 \<le> r then do {
         let s = s\<lparr>config := set_ms_location isage location (config s)\<rparr>;
         out \<leftarrow> path_arg (if customized (boot_info s) = 1 then bubble_config_path s
                          else adrenaline_config_path s);
         (r, w) \<leftarrow> adr_write_file io out (config s) config_size w;
         if 0 \<le> r then Some (Returns 0, s, w) else Some (ExitProcess 0, s, w) }
       else Some (ExitProcess 0, s, w) } }"

section \<open>Module entry points\<close>

definition bubble_paths :: "adr_bss \<Rightarrow> adr_bss option" where
  "bubble_paths s = do {
     (boot, _) \<leftarrow> sprintf (bubble_boot_path s) (lit ''ux0:app/%s/data/boot.bin'') [ArgS (app_title_id s)];
     (conf, _) \<leftarrow> sprintf (bubble_config_path s) (lit ''ux0:app/%s/data/config.bin'') [ArgS (app_title_id s)];
     global \<leftarrow> strcpy (adrenaline_config_path s) (lit (''ux0:app/'' @ ADRENALINE_TITLE_ID @ ''/adrenaline.bin''));
     Some (s\<lparr>bubble_boot_path := boot, bubble_config_path := conf, adrenaline_config_path := global\<rparr>) }"

definition adr_module_start ::
  "bool \<Rightarrow> 'w vita_sys \<Rightarrow> adr_bss \<Rightarrow> 'w \<Rightarrow> (outcome \<times> adr_bss \<times> 'w) option"
where
  "adr_module_start isage sys s w =
     (if taiGetModuleInfo sys ''ScePspemu'' w < 0 then Some (ExitProcess 0, s, w)
      else do {
        title \<leftarrow> app_name_into sys (app_title_id s) w;
        let s = s\<lparr>app_title_id := title\<rparr>;
        d \<leftarrow> strcasecmp (app_title_id s) (lit ADRENALINE_TITLE_ID);
        if d = 0 then Some (Returns 0, s, w)
        else do {
          s \<leftarrow> bubble_paths s;
          p \<leftarrow> path_arg (bubble_boot_path s);
          let (r, w) = adr_check_file (vita_io sys) p w;
          if r < 0 then Some (ExitProcess 0, s, w)
          else do {
            (s, w) \<leftarrow> load_boot_info (vita_io sys) s w;
            (config_size, s, w) \<leftarrow> load_config (vita_io sys) s w;
            (location, s) \<leftarrow> content_location s;
            finish_launch isage (vita_io sys) config_size location s w } } })"

definition adr_module_stop :: int where
  "adr_module_stop = 0"

section \<open>The wrappers meet the whole-file contract\<close>

interpretation adr_files: whole_file adr_check_file adr_get_file_size adr_read_file adr_write_file
  by (rule whole_file_wrappers)
    (simp_all add: adr_check_file_def adr_get_file_size_def adr_read_file_def adr_write_file_def)

interpretation adr_root: location_root adr_get_pspemu_root "'':pspemu''"
proof unfold_locales
  fix l :: int
  consider "l = 1" | "l = 2" | "l = 3" | "l = 4" | "\<not> (1 \<le> l \<and> l \<le> 4)"
    by linarith
  then show "adr_get_pspemu_root l
      = (if 1 \<le> l \<and> l \<le> 4 then location_names ! nat l else ''ux0'') @ '':pspemu''"
    by cases (auto simp: adr_get_pspemu_root_def location_names_def)
qed simp

section \<open>Devices\<close>

lemma adr_get_ms_location_eq:
  "terminated dev \<Longrightarrow> adr_get_ms_location dev = Some (location_of (cstr dev))"
proof -
  assume t: "terminated dev"
  have s: "\<exists>d. strcasecmp dev (lit p) = Some d \<and> (d = 0 \<longleftrightarrow> same_name (cstr dev) p)" if "plain p" for p
  proof -
    have "strcasecmp dev (lit p) \<noteq> None"
      using t by (intro strcasecmp_defined) simp_all
    moreover have "cstr (lit p) = p"
      using that by (simp add: cstr_append_NUL)
    ultimately show ?thesis
      using strcasecmp_0_iff [of dev "lit p"] t by (auto simp: same_name_def)
  qed
  show ?thesis
    using s [of "''ux0''"] s [of "''ur0''"] s [of "''imc0''"] s [of "''xmc0''"] s [of "''uma0''"]
    by (auto simp: adr_get_ms_location_def location_of_def)
qed

lemma adr_get_device_name_eq:
  assumes p: "terminated p" "length (cstr p) < 256" and dev: "length dev = 256"
  shows "\<exists>d. adr_get_device_name dev p = Some (Some d, d) \<and> terminated d \<and> length d = 256
           \<and> cstr d = device_of (cstr p)"
proof -
  let ?s = "cstr p"
  let ?d = "?s @ NUL # drop (Suc (length ?s)) dev"
  have n: "strlen p = Some (length ?s)" and c: "strcpy dev p = Some ?d"
    using assms by (simp_all add: strlen_eq strcpy_eq)
  have cd: "cstr ?d = ?s"
    by (simp add: cstr_append_NUL)
  have r: "strrchr ?d CHR '':''
      = Some (if CHR '':'' \<in> set ?s then Some (length (device_of ?s)) else None)"
    using strrchr_colon [of ?d] unfolding cd by simp
  show ?thesis
  proof (cases "CHR '':'' \<in> set ?s")
    case False
    then have "adr_get_device_name dev p = Some (Some ?d, ?d)"
      using p(2) by (simp add: adr_get_device_name_def n c r Let_def)
    moreover have "device_of ?s = ?s"
      using False by (simp add: device_of_def)
    ultimately show ?thesis
      using p(2) dev cd by simp
  next
    case True
    define a b where "a = device_of ?s" and "b = after_colon ?s"
    have s: "?s = a @ CHR '':'' # b"
      unfolding a_def b_def by (rule split_last_colon(1) [OF True])
    have "plain a"
      using plain_cstr [of p] unfolding s by simp
    moreover have u: "?d[length a := NUL] = a @ NUL # b @ NUL # drop (Suc (length ?s)) dev"
      by (simp add: s list_update_append)
    moreover have "adr_get_device_name dev p = Some (Some (?d[length a := NUL]), ?d[length a := NUL])"
      using p(2) True by (simp add: adr_get_device_name_def n c r a_def Let_def)
    moreover have "length (?d[length a := NUL]) = 256"
      using p(2) dev by simp
    ultimately show ?thesis
      by (intro exI [of _ "?d[length a := NUL]"]) (simp add: cstr_append_NUL a_def)
  qed
qed

lemma adr_after_last_colon_eq:
  "terminated p \<Longrightarrow> adr_after_last_colon p =
     (if CHR '':'' \<in> set (cstr p) then Some (Suc (length (device_of (cstr p)))) else None)"
  by (simp add: adr_after_last_colon_def strrchr_colon)

lemma clamp_location_eq:
  assumes "- (2 ^ 31) \<le> l" "l < 2 ^ 31"
  shows "clamp_location l = max 0 l"
proof -
  let ?w = "word_of_int l :: i32"
  have s: "sint ?w = l"
    using to_int32_id [OF assms] by (simp add: to_int32_def)
  have sd: "sint (signed_drop_bit 31 ?w) = l div 2 ^ 31"
    unfolding sint_signed_drop_bit_eq s by (simp add: drop_bit_eq_div)
  have d: "signed_drop_bit 31 ?w = k" if "l div 2 ^ 31 = sint k" for k
    using that sd by (metis signed_word_eqI)
  show ?thesis
  proof (cases "l < 0")
    case True
    then have "l div 2 ^ 31 = sint (-1 :: i32)"
      using assms by simp
    then show ?thesis
      using True d [of "-1"] by (simp add: clamp_location_def Let_def)
  next
    case False
    then have "l div 2 ^ 31 = sint (0 :: i32)"
      using assms by simp
    then show ?thesis
      using False d [of 0] s by (simp add: clamp_location_def Let_def)
  qed
qed

text \<open>The location of a content path: its device's index, or 0 when the device is unknown.\<close>

definition path_location :: "byte list \<Rightarrow> int" where
  "path_location p = max 0 (location_of (device_of p))"

lemma path_location_bounds: "0 \<le> path_location p" "path_location p \<le> 4"
  using location_of_bounds [of "device_of p"] by (simp_all add: path_location_def)

lemma content_location_eq:
  assumes "terminated (file_path (boot_info s))" "length (file_path (boot_info s)) = 256"
    "length (device_name s) = 256"
  shows "\<exists>dev. content_location s
           = Some (path_location (cstr (file_path (boot_info s))), s\<lparr>device_name := dev\<rparr>)
           \<and> length dev = 256"
proof -
  let ?p = "file_path (boot_info s)"
  have "length (cstr ?p) < 256"
    using length_cstr_less [OF assms(1)] assms(2) by simp
  then obtain d where d: "adr_get_device_name (device_name s) ?p = Some (Some d, d)" "terminated d"
      "length d = 256" "cstr d = device_of (cstr ?p)"
    using adr_get_device_name_eq [OF assms(1) _ assms(3)] by blast
  have "clamp_location (location_of (cstr d)) = path_location (cstr ?p)"
    using location_of_bounds [of "cstr d"]
    by (subst clamp_location_eq) (simp_all add: path_location_def d(4))
  then show ?thesis
    using d by (intro exI [of _ d]) (simp add: content_location_def adr_get_ms_location_eq)
qed

section \<open>What a launch does to the files\<close>

text \<open>
  The specification: the boot record a \<open>boot.bin\<close> denotes, the settings in force, and the files
  after the launch, as functions of the file contents.
\<close>

definition bubble_boot :: "byte list \<Rightarrow> path" where
  "bubble_boot title = ''ux0:app/'' @ title @ ''/data/boot.bin''"

definition bubble_conf :: "byte list \<Rightarrow> path" where
  "bubble_conf title = ''ux0:app/'' @ title @ ''/data/config.bin''"

definition global_conf :: path where
  "global_conf = ''ux0:app/PSPEMUCFW/adrenaline.bin''"

definition upgraded :: "LegacyBootInfo \<Rightarrow> BootInfo" where
  "upgraded l =
     zero_boot_info\<lparr>magic := legacy_fields l ! 0, driver := legacy_fields l ! 1,
       execute := legacy_fields l ! 2, customized := legacy_fields l ! 3,
       loadstate := legacy_fields l ! 4, psbutton := legacy_fields l ! 5,
       suspend := legacy_fields l ! 6,
       file_path := pad_to 256 (take 256 (cstr (legacy_file_path l)))\<rparr>"

definition legacy_of_file :: "byte list \<Rightarrow> LegacyBootInfo" where
  "legacy_of_file d =
     legacy_of_bytes (overlay (replicate sizeof_LegacyBootInfo NUL) (take sizeof_LegacyBootInfo d))"

definition boot_of_file :: "byte list \<Rightarrow> BootInfo" where
  "boot_of_file d =
     (if length d = sizeof_BootInfo then boot_info_of_bytes d else upgraded (legacy_of_file d))"

definition boot_file_after :: "byte list \<Rightarrow> byte list" where
  "boot_file_after d =
     (if length d = sizeof_BootInfo then d else boot_info_bytes (upgraded (legacy_of_file d)))"

definition settings_in_force :: "bool \<Rightarrow> byte list \<Rightarrow> byte list \<Rightarrow> byte list" where
  "settings_in_force custom global bubble =
     (if custom then overlay global (take (length global) bubble) else global)"

definition savestate_of :: "int \<Rightarrow> int \<Rightarrow> path" where
  "savestate_of location state =
     adr_get_pspemu_root location @ ''/PSP/SAVESTATE/STATE'' @ signed_decimal (state - 1) 2 CHR ''0''
     @ ''.BIN''"

lemma upgraded_valid: "valid_boot_info (upgraded l)"
proof -
  have "length (pad_to 256 (take 256 (cstr (legacy_file_path l)))) = 256"
    by simp
  then show ?thesis
    using zero_boot_info_valid by (simp add: upgraded_def valid_boot_info_def)
qed

lemma legacy_of_file_valid: "valid_legacy (legacy_of_file d)"
  unfolding legacy_of_file_def
  by (rule legacy_image.dec_valid) (simp add: sizeof_LegacyBootInfo_def)

lemma boot_of_file_valid: "valid_boot_info (boot_of_file d)"
  by (simp add: boot_of_file_def boot_info_of_bytes_valid upgraded_valid)

lemma upgrade_boot_info_eq:
  assumes "valid_legacy l"
  shows "upgrade_boot_info l = Some (upgraded l)"
proof -
  have "strncpy (replicate 256 NUL) (legacy_file_path l) 256
      = Some (pad_to 256 (take 256 (cstr (legacy_file_path l))))"
    using assms by (intro strncpy_same_size) (simp_all add: valid_legacy_def)
  then show ?thesis
    by (simp add: upgrade_boot_info_def upgraded_def Let_def)
qed

lemma length_boot_file_after: "length (boot_file_after d) = sizeof_BootInfo"
  by (simp add: boot_file_after_def boot_image.enc_length upgraded_valid)

lemma boot_of_file_after: "boot_of_file (boot_file_after d) = boot_of_file d"
  using length_boot_file_after [of d]
  by (auto simp: boot_of_file_def boot_file_after_def boot_image.dec_enc upgraded_valid)

lemma bubble_paths_eq:
  assumes title: "plain title" "length title \<le> 11" and buf: "app_title_id s = title @ NUL # rest"
    and len: "length (bubble_boot_path s) = 64" "length (bubble_config_path s) = 64"
      "length (adrenaline_config_path s) = 64"
  shows "\<exists>s'. bubble_paths s = Some s' \<and> path_arg (bubble_boot_path s') = Some (bubble_boot title)
           \<and> path_arg (bubble_config_path s') = Some (bubble_conf title)
           \<and> path_arg (adrenaline_config_path s') = Some global_conf
           \<and> config s' = config s \<and> device_name s' = device_name s"
proof -
  have e: "expand (lit ''ux0:app/%s/data/boot.bin'') [ArgS (app_title_id s)] = Some (bubble_boot title)"
    "expand (lit ''ux0:app/%s/data/config.bin'') [ArgS (app_title_id s)] = Some (bubble_conf title)"
    using title by (simp_all add: buf cstr_append_NUL bubble_boot_def bubble_conf_def)
  have l: "length (bubble_boot title) < 64" "length (bubble_conf title) < 64"
    and p: "plain (bubble_boot title)" "plain (bubble_conf title)" "plain global_conf"
    using title by (simp_all add: bubble_boot_def bubble_conf_def global_conf_def)
  have g: "''ux0:app/'' @ ADRENALINE_TITLE_ID @ ''/adrenaline.bin'' = global_conf"
    by (simp add: global_conf_def ADRENALINE_TITLE_ID_def)
  have "strcpy (adrenaline_config_path s) (lit global_conf)
      = Some (global_conf @ NUL # drop (Suc (length global_conf)) (adrenaline_config_path s))"
    using p(3) len(3) by (simp add: strcpy_eq cstr_append_NUL) (simp add: global_conf_def)
  then show ?thesis
    using sprintf_eq [OF e(1), of "bubble_boot_path s"] sprintf_eq [OF e(2), of "bubble_config_path s"]
      l p len
    unfolding bubble_paths_def g by (simp add: SIZE_MAX_def)
qed

lemma load_boot_info_eq:
  assumes io: "fs_contract io V" and p: "path_arg (bubble_boot_path s) = Some p"
    and f: "files (V w) p = Some d" and d: "length d < 2 ^ 31"
  shows "\<exists>s' w'. load_boot_info io s w = Some (s', w') \<and> boot_info s' = boot_of_file d
           \<and> V w' = (V w)\<lparr>files := (files (V w))(p := Some (boot_file_after d))\<rparr>
           \<and> (\<exists>l. s' = s\<lparr>legacy_boot_info := l, boot_info := boot_of_file d\<rparr>)"
proof -
  obtain w1 where w1: "adr_get_file_size io p w = (int (length d), w1)" "V w1 = V w"
    using adr_files.size_present [OF io f d] by blast
  have f1: "files (V w1) p = Some d"
    using f w1 by simp
  show ?thesis
  proof (cases "length d = sizeof_BootInfo")
    case True
    let ?z = "boot_info_bytes zero_boot_info"
    have z: "length ?z = sizeof_BootInfo"
      by (simp add: boot_info_bytes_length)
    obtain w2 where "adr_read_file io p ?z (length d) w1 = Some (int (length d), d, w2)" "V w2 = V w1"
      using adr_files.read_present [OF io f1, of "length d" ?z] z True
      by (auto simp: overlay_same_length)
    moreover have "(V w)\<lparr>files := (files (V w))(p := Some d)\<rparr> = V w"
      using f by (simp add: fun_upd_idem)
    ultimately show ?thesis
      using True w1 p
      by (intro exI [of _ "s\<lparr>boot_info := boot_info_of_bytes d\<rparr>"] exI [of _ w2])
        (auto simp: load_boot_info_def boot_of_file_def boot_file_after_def
          intro!: exI [of _ "legacy_boot_info s"])
  next
    case False
    let ?z = "replicate sizeof_LegacyBootInfo NUL" and ?l = "legacy_of_file d"
    obtain n w2 where r: "adr_read_file io p ?z sizeof_LegacyBootInfo w1
          = Some (n, overlay ?z (take sizeof_LegacyBootInfo d), w2)" "V w2 = V w1"
      using adr_files.read_present [OF io f1, of sizeof_LegacyBootInfo ?z] by auto
    have l: "legacy_of_bytes (overlay ?z (take sizeof_LegacyBootInfo d)) = ?l"
      by (simp add: legacy_of_file_def)
    have b: "length (boot_info_bytes (upgraded ?l)) = sizeof_BootInfo"
      by (simp add: boot_info_bytes_length upgraded_valid)
    obtain m w3 where wr: "adr_write_file io p (boot_info_bytes (upgraded ?l)) sizeof_BootInfo w2
          = Some (m, w3)"
        "V w3 = (V w2)\<lparr>files := (files (V w2))(p := Some (boot_info_bytes (upgraded ?l)))\<rparr>"
      using adr_files.write_existing [OF io, of sizeof_BootInfo "boot_info_bytes (upgraded ?l)" w2 p d]
        f w1 r b by auto
    have "load_boot_info io s w
        = Some (s\<lparr>legacy_boot_info := ?l, boot_info := upgraded ?l\<rparr>, w3)"
      using False p w1 r wr
      by (simp add: load_boot_info_def Let_def l upgrade_boot_info_eq legacy_of_file_valid)
    then show ?thesis
      using False wr r w1 by (auto simp: boot_of_file_def boot_file_after_def)
  qed
qed

lemma load_config_eq:
  assumes io: "fs_contract io V"
    and g: "path_arg (adrenaline_config_path s) = Some gp" "files (V w) gp = Some c"
      "0 < length c" "length c \<le> CONFIG_FALLBACK_SIZE"
    and b: "path_arg (bubble_config_path s) = Some bp" "customized (boot_info s) = 1 \<Longrightarrow> files (V w) bp = Some bc"
    and z: "config s = replicate CONFIG_FALLBACK_SIZE NUL"
  shows "\<exists>w'. load_config io s w
           = Some (length c,
                   s\<lparr>config := pad_to CONFIG_FALLBACK_SIZE
                       (settings_in_force (customized (boot_info s) = 1) c bc)\<rparr>, w')
           \<and> V w' = V w"
proof -
  let ?z = "replicate CONFIG_FALLBACK_SIZE NUL" and ?n = "length c"
  have lim: "length c < 2 ^ 31"
    using g(4) by (simp add: CONFIG_FALLBACK_SIZE_def)
  obtain w1 where w1: "adr_get_file_size io gp w = (int ?n, w1)" "V w1 = V w"
    using adr_files.size_present [OF io g(2) lim] by blast
  have m: "memset ?z 0 ?n = Some ?z"
    using g(4) by (simp add: memset_eq char_of_0 flip: replicate_add)
  have o1: "overlay ?z (take ?n c) = pad_to CONFIG_FALLBACK_SIZE c"
    by (simp add: overlay_def pad_to_def)
  have f1: "files (V w1) gp = Some c"
    using g(2) w1 by simp
  obtain w2 where w2: "adr_read_file io gp ?z ?n w1
        = Some (int ?n, pad_to CONFIG_FALLBACK_SIZE c, w2)" "V w2 = V w1"
    using adr_files.read_present [OF io f1, of ?n ?z] g(4) unfolding o1 by auto
  show ?thesis
  proof (cases "customized (boot_info s) = 1")
    case False
    then show ?thesis
      using g(1,3) w1 w2 m by (simp add: load_config_def z settings_in_force_def Let_def)
  next
    case True
    let ?c = "pad_to CONFIG_FALLBACK_SIZE c"
    have f2: "files (V w2) bp = Some bc"
      using b(2) [OF True] w1 w2 by simp
    have o2: "overlay ?c (take ?n bc) = pad_to CONFIG_FALLBACK_SIZE (overlay c (take ?n bc))"
      by (simp add: overlay_def pad_to_def)
    obtain r w3 where "adr_read_file io bp ?c ?n w2
          = Some (r, pad_to CONFIG_FALLBACK_SIZE (overlay c (take ?n bc)), w3)" "V w3 = V w2"
      using adr_files.read_present [OF io f2, of ?n ?c] g(4) unfolding o2 by auto
    then show ?thesis
      using True b(1) g(1,3) w1 w2 m by (simp add: load_config_def z settings_in_force_def Let_def)
  qed
qed

lemma length_decimal_state:
  assumes "nat \<bar>v\<bar> < 10 ^ 10"
  shows "length (signed_decimal v 2 c) \<le> 12"
proof -
  let ?L = "length (decimal (nat \<bar>v\<bar>))"
  have "?L \<le> 10"
    using assms by (simp add: length_decimal)
  then have "k - ?L + ?L \<le> k + 10" for k
    by linarith
  from this [of 1] this [of 2] show ?thesis
    by (cases "v < 0") (auto simp: signed_decimal_def Let_def)
qed

lemma savestate_path_eq:
  assumes "sint st \<noteq> - (2 ^ 31)"
  shows "\<exists>buf. savestate_path location st = Some buf
           \<and> path_arg buf = Some (savestate_of location (sint st))"
proof -
  let ?root = "adr_get_pspemu_root location" and ?v = "sint st - 1"
  have v: "- (2 ^ 31) \<le> ?v" "?v < 2 ^ 31"
    using assms sint_ge [of st] sint_lt [of st] by simp_all
  have e: "expand (lit ''%s/PSP/SAVESTATE/STATE%02d.BIN'') [ArgS (lit ?root), ArgD ?v]
      = Some (savestate_of location (sint st))"
    using v by (simp add: cstr_append_NUL adr_root.root_plain savestate_of_def)
  have "length (signed_decimal ?v 2 CHR ''0'') \<le> 12"
    using v by (intro length_decimal_state) simp
  then have l: "length (savestate_of location (sint st)) < 128"
    using adr_root.root_length [of location] by (simp add: savestate_of_def)
  have p: "plain (savestate_of location (sint st))"
    by (simp add: savestate_of_def adr_root.root_plain)
  show ?thesis
    using assms sprintf_eq [OF e, of "replicate 128 NUL"] l p
    by (simp add: savestate_path_def SIZE_MAX_def)
qed

definition exists_in :: "fsview \<Rightarrow> path \<Rightarrow> bool" where
  "exists_in fs p \<longleftrightarrow> files fs p \<noteq> None \<or> p \<in> dirs fs"

definition settings_written :: "bool \<Rightarrow> int \<Rightarrow> byte list \<Rightarrow> nat \<Rightarrow> byte list" where
  "settings_written isage location settings n =
     take n (set_ms_location isage location (pad_to CONFIG_FALLBACK_SIZE settings))"

definition adr_launch ::
  "bool \<Rightarrow> byte list \<Rightarrow> byte list \<Rightarrow> byte list \<Rightarrow> byte list \<Rightarrow> fsview \<Rightarrow> outcome \<times> fsview"
where
  "adr_launch isage title d c bc fs =
     (let b = boot_of_file d;
          content = cstr (file_path b);
          location = path_location content;
          custom = (customized b = 1);
          fs1 = fs\<lparr>files := (files fs)(bubble_boot title := Some (boot_file_after d))\<rparr>;
          out = (if custom then bubble_conf title else global_conf)
      in if loadstate b \<noteq> 0 \<and> exists_in fs1 (savestate_of location (sint (loadstate b)))
         then (Returns 0, fs1)
         else if exists_in fs1 content
         then (Returns 0, fs1\<lparr>files := (files fs1)(out := Some
                 (settings_written isage location (settings_in_force custom c bc) (length c)))\<rparr>)
         else (ExitProcess 0, fs1))"

lemma path_clash:
  "bubble_boot title \<noteq> global_conf" "bubble_boot title \<noteq> bubble_conf title"
proof -
  have r: "rev (bubble_boot title) \<noteq> rev global_conf" "rev (bubble_boot title) \<noteq> rev (bubble_conf title)"
    by (simp_all add: bubble_boot_def bubble_conf_def global_conf_def)
  show "bubble_boot title \<noteq> global_conf" "bubble_boot title \<noteq> bubble_conf title"
    using r by auto
qed

lemma length_set_ms_location [simp]:
  "0x1C \<le> length c \<Longrightarrow> length (set_ms_location isage location c) = length c"
  by (simp add: set_ms_location_def)

lemma length_settings: "length (settings_in_force custom c bc) = length c"
  by (simp add: settings_in_force_def)

lemma check_file_cases:
  assumes "fs_contract io V"
  shows "\<exists>r w'. adr_check_file io p w = (r, w') \<and> V w' = V w \<and> (0 \<le> r \<longleftrightarrow> exists_in (V w) p)"
  using adr_files.check_law [OF assms, of p w] by (simp add: exists_in_def)

lemma finish_launch_eq:
  assumes io: "fs_contract io V"
    and st: "sint (loadstate (boot_info s)) \<noteq> - (2 ^ 31)"
    and p: "path_arg (file_path (boot_info s)) = Some p"
    and out: "path_arg (if customized (boot_info s) = 1 then bubble_config_path s
                        else adrenaline_config_path s) = Some out" "files (V w) out = Some old"
    and c: "config s = pad_to CONFIG_FALLBACK_SIZE settings" "length settings = n"
      "n \<le> CONFIG_FALLBACK_SIZE"
  shows "\<exists>s' w'. finish_launch isage io n location s w =
           Some (if loadstate (boot_info s) \<noteq> 0
                     \<and> exists_in (V w) (savestate_of location (sint (loadstate (boot_info s))))
                   \<or> exists_in (V w) p then Returns 0 else ExitProcess 0, s', w')
         \<and> V w' = (if \<not> (loadstate (boot_info s) \<noteq> 0
                     \<and> exists_in (V w) (savestate_of location (sint (loadstate (boot_info s)))))
                   \<and> exists_in (V w) p
                 then (V w)\<lparr>files := (files (V w))(out := Some (settings_written isage location settings n))\<rparr>
                 else V w)"
proof -
  let ?sv = "savestate_of location (sint (loadstate (boot_info s)))"
  obtain buf where buf: "savestate_path location (loadstate (boot_info s)) = Some buf"
      "path_arg buf = Some ?sv"
    using savestate_path_eq [OF st] by blast
  have len: "length (config s) = CONFIG_FALLBACK_SIZE"
    using c by simp
  let ?c = "set_ms_location isage location (config s)"
  have lc: "n \<le> length ?c"
    using c(3) by (simp add: len CONFIG_FALLBACK_SIZE_def)
  obtain r1 w1 where w1: "adr_check_file io ?sv w = (r1, w1)" "V w1 = V w" "0 \<le> r1 \<longleftrightarrow> exists_in (V w) ?sv"
    using check_file_cases [OF io] by blast
  have stage: "\<exists>w2. (if loadstate (boot_info s) \<noteq> 0
        then do { p \<leftarrow> path_arg buf; let (r, w) = adr_check_file io p w; Some (0 \<le> r, w) }
        else Some (False, w))
      = Some (loadstate (boot_info s) \<noteq> 0 \<and> exists_in (V w) ?sv, w2) \<and> V w2 = V w"
    using buf(2) w1 by simp
  then obtain w2 where w2: "(if loadstate (boot_info s) \<noteq> 0
        then do { p \<leftarrow> path_arg buf; let (r, w) = adr_check_file io p w; Some (0 \<le> r, w) }
        else Some (False, w))
      = Some (loadstate (boot_info s) \<noteq> 0 \<and> exists_in (V w) ?sv, w2)" "V w2 = V w"
    by blast
  obtain r3 w3 where w3: "adr_check_file io p w2 = (r3, w3)" "V w3 = V w2" "0 \<le> r3 \<longleftrightarrow> exists_in (V w) p"
    using check_file_cases [OF io, of p w2] w2(2) by auto
  have f3: "files (V w3) out = Some old"
    using out(2) w2 w3 by simp
  obtain w4 where w4: "adr_write_file io out ?c n w3 = Some (int n, w4)"
      "V w4 = (V w3)\<lparr>files := (files (V w3))(out := Some (take n ?c))\<rparr>"
    using adr_files.write_existing [OF io lc f3] by blast
  show ?thesis
    using p out(1) w3 w4 w2(2)
    by (cases "customized (boot_info s) = 1")
      (simp_all add: finish_launch_def buf(1) w2(1) settings_written_def c(1) Let_def)
qed

text \<open>The launch, from a module whose static data is as the loader left it.\<close>

lemma adr_title_eq:
  assumes "launched_as sys title w"
  shows "\<exists>rest. app_name_into sys (replicate 12 NUL) w = Some (title @ NUL # rest)"
proof -
  have "overlay (replicate 12 NUL) (title @ [NUL]) = title @ NUL # replicate (11 - length title) NUL"
    using assms by (simp add: overlay_def launched_as_def)
  then show ?thesis
    using assms by (simp add: app_name_into_def fill_def launched_as_def)
qed

lemma adr_title_differs:
  assumes "\<not> same_name title ADRENALINE_TITLE_ID" "plain title"
  shows "\<exists>k. strcasecmp (title @ NUL # rest) (lit ADRENALINE_TITLE_ID) = Some k \<and> k \<noteq> 0"
proof -
  have "strcasecmp (title @ NUL # rest) (lit ADRENALINE_TITLE_ID) \<noteq> None"
    by (intro strcasecmp_defined) simp_all
  moreover have "strcasecmp (title @ NUL # rest) (lit ADRENALINE_TITLE_ID) \<noteq> Some 0"
    using assms by (simp add: strcasecmp_0_iff cstr_append_NUL same_name_def ADRENALINE_TITLE_ID_def)
  ultimately show ?thesis
    by auto
qed

lemma adr_module_start_eq:
  assumes io: "fs_contract (vita_io sys) V" and l: "launched_as sys title w"
    and other: "\<not> same_name title ADRENALINE_TITLE_ID"
    and d: "files (V w) (bubble_boot title) = Some d" "length d < 2 ^ 31"
    and b: "terminated (file_path (boot_of_file d))" "sint (loadstate (boot_of_file d)) \<noteq> - (2 ^ 31)"
    and c: "files (V w) global_conf = Some c" "0 < length c" "length c \<le> CONFIG_FALLBACK_SIZE"
    and bc: "customized (boot_of_file d) = 1 \<Longrightarrow> files (V w) (bubble_conf title) = Some bc"
  shows "\<exists>s' w'. adr_module_start isage sys adr_bss_init w
           = Some (fst (adr_launch isage title d c bc (V w)), s', w')
         \<and> V w' = snd (adr_launch isage title d c bc (V w))"
proof -
  let ?io = "vita_io sys" and ?b = "boot_of_file d"
  have title: "plain title" "length title \<le> 11" "\<not> taiGetModuleInfo sys ''ScePspemu'' w < 0"
    using l by (simp_all add: launched_as_def)
  obtain rest where name: "app_name_into sys (replicate 12 NUL) w = Some (title @ NUL # rest)"
    using adr_title_eq [OF l] by blast
  let ?s = "adr_bss_init\<lparr>app_title_id := title @ NUL # rest\<rparr>"
  obtain k where k: "strcasecmp (title @ NUL # rest) (lit ADRENALINE_TITLE_ID) = Some k" "k \<noteq> 0"
    using adr_title_differs [OF other title(1)] by blast
  obtain s1 where s1: "bubble_paths ?s = Some s1"
      "path_arg (bubble_boot_path s1) = Some (bubble_boot title)"
      "path_arg (bubble_config_path s1) = Some (bubble_conf title)"
      "path_arg (adrenaline_config_path s1) = Some global_conf"
      "config s1 = config ?s" "device_name s1 = device_name ?s"
    using bubble_paths_eq [OF title(1,2), of ?s rest] by (auto simp: adr_bss_init_def)
  obtain r1 w1 where w1: "adr_check_file ?io (bubble_boot title) w = (r1, w1)" "V w1 = V w" "\<not> r1 < 0"
    using check_file_cases [OF io, of "bubble_boot title" w] d(1) by (auto simp: exists_in_def)
  have d1: "files (V w1) (bubble_boot title) = Some d"
    using d(1) w1(2) by simp
  obtain s2 w2 leg where w2: "load_boot_info ?io s1 w1 = Some (s2, w2)"
      "V w2 = (V w)\<lparr>files := (files (V w))(bubble_boot title := Some (boot_file_after d))\<rparr>"
      "s2 = s1\<lparr>legacy_boot_info := leg, boot_info := ?b\<rparr>"
    using load_boot_info_eq [OF io s1(2) d1 d(2)] w1(2) by auto
  have g: "path_arg (adrenaline_config_path s2) = Some global_conf" "files (V w2) global_conf = Some c"
    and bub: "path_arg (bubble_config_path s2) = Some (bubble_conf title)"
      "customized (boot_info s2) = 1 \<Longrightarrow> files (V w2) (bubble_conf title) = Some bc"
    and z: "config s2 = replicate CONFIG_FALLBACK_SIZE NUL"
    using s1 c(1) bc path_clash [of title] by (auto simp: w2(2,3) adr_bss_init_def)
  let ?set = "settings_in_force (customized ?b = 1) c bc"
  let ?s3 = "s2\<lparr>config := pad_to CONFIG_FALLBACK_SIZE ?set\<rparr>"
  obtain w3 where w3: "load_config ?io s2 w2 = Some (length c, ?s3, w3)" "V w3 = V w2"
    using load_config_eq [OF io g c(2,3) bub z] by (auto simp: w2(3))
  have p3: "terminated (file_path (boot_info ?s3))" "length (file_path (boot_info ?s3)) = 256"
    "length (device_name ?s3) = 256"
    using b(1) boot_of_file_valid [of d] s1(6) by (simp_all add: w2(3) valid_boot_info_def adr_bss_init_def)
  obtain dev where loc: "content_location ?s3
      = Some (path_location (cstr (file_path ?b)), ?s3\<lparr>device_name := dev\<rparr>)"
    using content_location_eq [OF p3] by (auto simp: w2(3))
  let ?s4 = "?s3\<lparr>device_name := dev\<rparr>" and ?p = "cstr (file_path ?b)"
  let ?out = "if customized ?b = 1 then bubble_conf title else global_conf"
  obtain old where old: "files (V w3) ?out = Some old"
    using g(2) bub(2) w3(2) by (cases "customized ?b = 1") (auto simp: w2(3))
  have fin: "path_arg (file_path (boot_info ?s4)) = Some ?p"
    "sint (loadstate (boot_info ?s4)) \<noteq> - (2 ^ 31)"
    "path_arg (if customized (boot_info ?s4) = 1 then bubble_config_path ?s4
               else adrenaline_config_path ?s4) = Some ?out"
    "config ?s4 = pad_to CONFIG_FALLBACK_SIZE ?set"
    using b g(1) bub(1) by (simp_all add: w2(3) path_arg_terminated)
  from finish_launch_eq [OF io fin(2,1,3) old fin(4) length_settings c(3),
      of isage "path_location ?p"]
  obtain s5 w5 where w5: "finish_launch isage ?io (length c) (path_location ?p) ?s4 w3
      = Some (fst (adr_launch isage title d c bc (V w)), s5, w5)"
      "V w5 = snd (adr_launch isage title d c bc (V w))"
    unfolding w3(2) w2(2) by (auto simp: adr_launch_def Let_def w2(3))
  show ?thesis
    using title(3) name k s1(1,2) w1(1,3) w2(1) w3(1) loc w5
    by (simp add: adr_module_start_def adr_bss_init_def Let_def)
qed

section \<open>Properties\<close>

text \<open>A concrete launch: one bubble, its content on \<open>ur0\<close>, global settings of full size.\<close>

definition sample_title :: "byte list" where
  "sample_title = ''ABCD00001''"

definition sample_content :: path where
  "sample_content = ''ur0:pspemu/ISO/GAME.ISO''"

definition sample_boot :: BootInfo where
  "sample_boot = zero_boot_info\<lparr>file_path := pad_to 256 sample_content\<rparr>"

definition sample_config :: "byte list" where
  "sample_config = replicate CONFIG_FALLBACK_SIZE CHR ''x''"

definition sample_mem :: mem where
  "sample_mem =
     \<lparr>mfiles = [bubble_boot sample_title \<mapsto> boot_info_bytes sample_boot, global_conf \<mapsto> sample_config,
                sample_content \<mapsto> ''disc''], mdirs = [], mhandles = []\<rparr>"

definition sample_sys :: "mem vita_sys" where
  "sample_sys = \<lparr>vita_io = mem_io, taiGetModuleInfo = \<lambda>_ _. 0, sceAppMgrGetNameById = \<lambda>_. sample_title\<rparr>"

lemma sample_boot_valid: "valid_boot_info sample_boot"
  using zero_boot_info_valid
  by (simp add: sample_boot_def valid_boot_info_def sample_content_def)

lemma sample_paths:
  "bubble_boot sample_title = ''ux0:app/ABCD00001/data/boot.bin''"
  "bubble_conf sample_title = ''ux0:app/ABCD00001/data/config.bin''"
  "cstr (file_path sample_boot) = sample_content" "terminated (file_path sample_boot)"
  by (simp_all add: bubble_boot_def bubble_conf_def sample_title_def sample_boot_def
      sample_content_def cstr_pad_to terminated_pad_to)

lemma sample_files:
  "files (mem_view sample_mem) (bubble_boot sample_title) = Some (boot_info_bytes sample_boot)"
  "files (mem_view sample_mem) global_conf = Some sample_config"
  "files (mem_view sample_mem) sample_content = Some ''disc''"
  by (simp_all add: mem_view_def sample_mem_def sample_paths global_conf_def sample_content_def)

lemma sample_launched: "launched_as sample_sys sample_title sample_mem"
  "fs_contract (vita_io sample_sys) mem_view" "\<not> same_name sample_title ADRENALINE_TITLE_ID"
  by (simp_all add: launched_as_def sample_sys_def sample_title_def mem_contract same_name_def
      ADRENALINE_TITLE_ID_def fold_case_def)

lemma sample_boot_of_file:
  "boot_of_file (boot_info_bytes sample_boot) = sample_boot"
  "boot_file_after (boot_info_bytes sample_boot) = boot_info_bytes sample_boot"
  "length (boot_info_bytes sample_boot) = 0x140"
  using sample_boot_valid boot_image.enc_length [OF sample_boot_valid]
  by (simp_all add: boot_of_file_def boot_file_after_def boot_image.dec_enc sizeof_BootInfo_def)

lemma sample_boot_fields: "loadstate sample_boot = 0" "customized sample_boot = 0"
  by (simp_all add: sample_boot_def zero_boot_info_eq)

lemma sample_location: "path_location sample_content = 1"
  by (simp add: path_location_def sample_content_def device_of_def location_of_def same_name_def
      fold_case_def)

text \<open>
  C1: launching a bubble. With the emulator loaded, a bubble whose \<open>boot.bin\<close> exists and settings of
  at most 0x60 bytes, \<open>module_start\<close> has no undefined behaviour and its result and the files it
  leaves are exactly those of \<open>adr_launch\<close>: the boot record is stored back in the current layout, an
  existing save state ends the launch, otherwise existing content gets its device's location stored
  in the settings that are in force, and anything else leaves the process. No handle stays open.
\<close>

theorem adr_launch_correct:
  assumes "fs_contract (vita_io sys) V" and "launched_as sys title w"
    and "\<not> same_name title ADRENALINE_TITLE_ID"
    and "files (V w) (bubble_boot title) = Some d" and "length d < 2 ^ 31"
    and "terminated (file_path (boot_of_file d))"
    and "sint (loadstate (boot_of_file d)) \<noteq> - (2 ^ 31)"
    and "files (V w) global_conf = Some c" and "0 < length c" and "length c \<le> CONFIG_FALLBACK_SIZE"
    and "customized (boot_of_file d) = 1 \<Longrightarrow> files (V w) (bubble_conf title) = Some bc"
  shows "\<exists>s' w'. adr_module_start isage sys adr_bss_init w
           = Some (fst (adr_launch isage title d c bc (V w)), s', w')
         \<and> V w' = snd (adr_launch isage title d c bc (V w))"
  using assms by (rule adr_module_start_eq)

theorem adr_launch_correct_witness:
  "\<exists>s' w'. adr_module_start False sample_sys adr_bss_init sample_mem = Some (Returns 0, s', w')
     \<and> files (mem_view w') global_conf
         = Some (replicate 0x18 CHR ''x'' @ [CHR 0x01, NUL, NUL, NUL] @ replicate 0x44 CHR ''x'')"
proof -
  let ?d = "boot_info_bytes sample_boot"
  have "\<exists>s' w'. adr_module_start False sample_sys adr_bss_init sample_mem
      = Some (fst (adr_launch False sample_title ?d sample_config [] (mem_view sample_mem)), s', w')
      \<and> mem_view w' = snd (adr_launch False sample_title ?d sample_config [] (mem_view sample_mem))"
    by (rule adr_launch_correct [OF sample_launched(2,1,3) sample_files(1)])
      (simp_all add: sample_boot_of_file sample_paths sample_boot_fields sample_files,
       simp_all add: sample_config_def CONFIG_FALLBACK_SIZE_def)
  moreover have "adr_launch False sample_title ?d sample_config [] (mem_view sample_mem)
      = (Returns 0, (mem_view sample_mem)\<lparr>files := (files (mem_view sample_mem))
           (bubble_boot sample_title := Some ?d,
            global_conf := Some (settings_written False 1 sample_config (length sample_config)))\<rparr>)"
    using sample_files
    by (simp add: adr_launch_def Let_def sample_boot_of_file sample_boot_fields sample_paths(3)
        sample_location settings_in_force_def exists_in_def)
  moreover have "settings_written False 1 sample_config (length sample_config)
      = replicate 0x18 CHR ''x'' @ [CHR 0x01, NUL, NUL, NUL] @ replicate 0x44 CHR ''x''"
    by (simp add: settings_written_def set_ms_location_def put32_def overlay_at_def pad_to_def
        sample_config_def CONFIG_FALLBACK_SIZE_def le32_def) (simp add: char_of_def bit_0)
  ultimately show ?thesis
    by auto
qed



text \<open>
  The legacy upgrade. It is total on well-formed records, keeps the seven scalar settings it
  names and the content path, sets every field the legacy layout lacks to zero, and drops the eighth
  legacy scalar: two records that differ only there upgrade alike.
\<close>

theorem legacy_upgrade_fields:
  assumes "valid_legacy l"
  shows "\<exists>b. upgrade_boot_info l = Some b \<and> valid_boot_info b
     \<and> [magic b, driver b, execute b, customized b, loadstate b, psbutton b, suspend b]
         = take 7 (legacy_fields l)
     \<and> cpuspeed b = 0 \<and> plugins b = 0 \<and> nonpdrm b = 0 \<and> highmemory b = 0 \<and> reserved b = replicate 5 0
     \<and> (terminated (legacy_file_path l) \<longrightarrow> cstr (file_path b) = cstr (legacy_file_path l))
     \<and> (\<forall>x. upgrade_boot_info (l\<lparr>legacy_fields := (legacy_fields l)[7 := x]\<rparr>) = Some b)"
proof -
  let ?p = "legacy_file_path l"
  have len: "length (legacy_fields l) = 8" "length ?p = 256"
    using assms by (simp_all add: valid_legacy_def)
  have fields: "take 7 (legacy_fields l) = map ((!) (legacy_fields l)) [0, 1, 2, 3, 4, 5, 6]"
    using len(1) by (intro nth_equalityI) (auto simp: nth_Cons eval_nat_numeral split: nat.splits)
  have path: "cstr (pad_to 256 (take 256 (cstr ?p))) = cstr ?p" if "terminated ?p"
    using length_cstr_less [OF that] len(2) by (simp add: cstr_pad_to)
  have "upgraded (l\<lparr>legacy_fields := (legacy_fields l)[7 := x]\<rparr>) = upgraded l" for x
    by (simp add: upgraded_def)
  moreover have "valid_legacy (l\<lparr>legacy_fields := (legacy_fields l)[7 := x]\<rparr>)" for x
    using assms by (simp add: valid_legacy_def)
  ultimately have drop: "upgrade_boot_info (l\<lparr>legacy_fields := (legacy_fields l)[7 := x]\<rparr>)
      = Some (upgraded l)" for x
    by (simp add: upgrade_boot_info_eq)
  show ?thesis
    using path
    by (intro exI [of _ "upgraded l"])
      (simp add: upgrade_boot_info_eq [OF assms] upgraded_valid drop fields,
       simp add: upgraded_def zero_boot_info_eq)
qed

theorem legacy_upgrade_fields_witness:
  "valid_legacy (legacy_of_bytes (replicate sizeof_LegacyBootInfo NUL))
   \<and> (\<exists>b. upgrade_boot_info (legacy_of_bytes (replicate sizeof_LegacyBootInfo NUL)) = Some b
        \<and> cpuspeed b = 0)"
proof -
  have v: "valid_legacy (legacy_of_bytes (replicate sizeof_LegacyBootInfo NUL))"
    by (rule legacy_image.dec_valid) simp
  show ?thesis
    using legacy_upgrade_fields [OF v] v by blast
qed

text \<open>
  The device of the content decides the location. For every terminated content path the module
  reads the name before the last colon, compares it without case with the five devices, and an
  unknown device counts as location 0; content below the root of location \<open>k\<close> gets \<open>k\<close> back.
\<close>

theorem adr_content_location:
  assumes "terminated (file_path (boot_info s))" and "length (file_path (boot_info s)) = 256"
    and "length (device_name s) = 256"
  shows "\<exists>k dev. content_location s = Some (k, s\<lparr>device_name := dev\<rparr>) \<and> 0 \<le> k \<and> k \<le> 4
     \<and> k = max 0 (location_of (device_of (cstr (file_path (boot_info s)))))
     \<and> (\<forall>l rest. 0 \<le> l \<and> l \<le> 4 \<and> CHR '':'' \<notin> set rest
           \<and> cstr (file_path (boot_info s)) = adr_get_pspemu_root l @ rest \<longrightarrow> k = l)"
proof -
  let ?p = "cstr (file_path (boot_info s))"
  have "path_location ?p = l" if "0 \<le> l" "l \<le> 4" "CHR '':'' \<notin> set rest"
    "?p = adr_get_pspemu_root l @ rest" for l rest
    using adr_root.root_location [OF that(1-3)] that(1) unfolding that(4)
    by (simp add: path_location_def)
  then show ?thesis
    using content_location_eq [OF assms] path_location_bounds [of ?p]
    by (auto simp: path_location_def)
qed

theorem adr_content_location_witness:
  "\<exists>dev. content_location (adr_bss_init\<lparr>boot_info := sample_boot\<rparr>)
     = Some (1, adr_bss_init\<lparr>boot_info := sample_boot, device_name := dev\<rparr>)"
proof -
  let ?s = "adr_bss_init\<lparr>boot_info := sample_boot\<rparr>"
  have "terminated (file_path (boot_info ?s))" "length (file_path (boot_info ?s)) = 256"
    "length (device_name ?s) = 256"
    using sample_boot_valid by (simp_all add: sample_paths valid_boot_info_def adr_bss_init_def)
  from adr_content_location [OF this] show ?thesis
    using sample_location by (auto simp: sample_paths path_location_def)
qed

text \<open>
  C3: the settings buffer holds 0x60 bytes. The module sizes its reads by the host's settings file, so
  a longer file is written past the end of \<open>config\<close> (undefined), and every file of 1 to 0x60 bytes is
  loaded whole, with zeros behind it.
\<close>

theorem adr_config_bound:
  assumes "fs_contract io V" and "path_arg (adrenaline_config_path s) = Some p"
    and "files (V w) p = Some c" and "length c < 2 ^ 31" and "0 < length c"
    and "config s = replicate CONFIG_FALLBACK_SIZE NUL" and "customized (boot_info s) \<noteq> 1"
  shows "(CONFIG_FALLBACK_SIZE < length c \<longrightarrow> load_config io s w = None)
     \<and> (length c \<le> CONFIG_FALLBACK_SIZE \<longrightarrow>
          (\<exists>w'. load_config io s w = Some (length c, s\<lparr>config := pad_to CONFIG_FALLBACK_SIZE c\<rparr>, w')
                \<and> V w' = V w))"
proof (cases "length c \<le> CONFIG_FALLBACK_SIZE")
  case True
  let ?n = "length c" and ?z = "replicate CONFIG_FALLBACK_SIZE NUL"
  obtain w1 where w1: "adr_get_file_size io p w = (int ?n, w1)" "V w1 = V w"
    using adr_files.size_present [OF assms(1,3,4)] by blast
  have m: "memset ?z 0 ?n = Some ?z"
    using True by (simp add: memset_eq char_of_0 flip: replicate_add)
  have o1: "overlay ?z (take ?n c) = pad_to CONFIG_FALLBACK_SIZE c"
    by (simp add: overlay_def pad_to_def)
  have f1: "files (V w1) p = Some c"
    using assms(3) w1 by simp
  obtain w2 where w2: "adr_read_file io p ?z ?n w1 = Some (int ?n, pad_to CONFIG_FALLBACK_SIZE c, w2)"
      "V w2 = V w1"
    using adr_files.read_present [OF assms(1) f1, of ?n ?z] True unfolding o1 by auto
  show ?thesis
    using True assms(2,5,6,7) w1 w2 m by (simp add: load_config_def Let_def)
next
  case False
  obtain w1 where w1: "adr_get_file_size io p w = (int (length c), w1)"
    using adr_files.size_present [OF assms(1,3,4)] by blast
  have "memset (replicate CONFIG_FALLBACK_SIZE NUL) 0 (length c) = None"
    using False by (simp add: memset_None_iff)
  then have "load_config io s w = None"
    using False assms(2,5,6) w1 by (simp add: load_config_def Let_def)
  then show ?thesis
    using False by simp
qed

definition oversized_mem :: mem where
  "oversized_mem = \<lparr>mfiles = [global_conf \<mapsto> replicate 0x61 CHR ''x''], mdirs = [], mhandles = []\<rparr>"

theorem adr_config_bound_witness:
  "load_config mem_io (adr_bss_init\<lparr>adrenaline_config_path := lit global_conf\<rparr>) oversized_mem = None"
proof -
  let ?s = "adr_bss_init\<lparr>adrenaline_config_path := lit global_conf\<rparr>"
  have h: "path_arg (adrenaline_config_path ?s) = Some global_conf"
    "files (mem_view oversized_mem) global_conf = Some (replicate 0x61 CHR ''x'')"
    "config ?s = replicate CONFIG_FALLBACK_SIZE NUL" "customized (boot_info ?s) \<noteq> 1"
    by (simp_all add: global_conf_def oversized_mem_def mem_view_def adr_bss_init_def zero_boot_info_eq path_arg_def)
  show ?thesis
    using adr_config_bound [OF mem_contract h(1,2) _ _ h(3,4)] by (simp add: CONFIG_FALLBACK_SIZE_def)
qed

text \<open>
  When the bubble must not start. Without the emulator module, or without the bubble's
  \<open>boot.bin\<close>, the process is left; started under Adrenaline's own title the module does nothing. In
  all three cases the files and handles are untouched.
\<close>

theorem adr_launch_refused:
  assumes "fs_contract (vita_io sys) V" and "sceAppMgrGetNameById sys w = title"
    and "plain title" and "length title \<le> 11"
  shows "(taiGetModuleInfo sys ''ScePspemu'' w < 0 \<longrightarrow>
            adr_module_start isage sys s w = Some (ExitProcess 0, s, w))
     \<and> (0 \<le> taiGetModuleInfo sys ''ScePspemu'' w \<and> same_name title ADRENALINE_TITLE_ID \<longrightarrow>
            (\<exists>s'. adr_module_start isage sys adr_bss_init w = Some (Returns 0, s', w)))
     \<and> (0 \<le> taiGetModuleInfo sys ''ScePspemu'' w \<and> \<not> same_name title ADRENALINE_TITLE_ID
          \<and> \<not> exists_in (V w) (bubble_boot title) \<longrightarrow>
            (\<exists>s' w'. adr_module_start isage sys adr_bss_init w = Some (ExitProcess 0, s', w')
                   \<and> V w' = V w))"
proof (intro conjI impI)
  assume "taiGetModuleInfo sys ''ScePspemu'' w < 0"
  then show "adr_module_start isage sys s w = Some (ExitProcess 0, s, w)"
    by (simp add: adr_module_start_def)
next
  assume a: "0 \<le> taiGetModuleInfo sys ''ScePspemu'' w \<and> same_name title ADRENALINE_TITLE_ID"
  then have l: "launched_as sys title w"
    using assms by (simp add: launched_as_def)
  obtain rest where name: "app_name_into sys (replicate 12 NUL) w = Some (title @ NUL # rest)"
    using adr_title_eq [OF l] by blast
  have "strcasecmp (title @ NUL # rest) (lit ADRENALINE_TITLE_ID) = Some 0"
    using a assms(3)
    by (simp add: strcasecmp_0_iff cstr_append_NUL same_name_def ADRENALINE_TITLE_ID_def)
  then show "\<exists>s'. adr_module_start isage sys adr_bss_init w = Some (Returns 0, s', w)"
    using a name by (simp add: adr_module_start_def adr_bss_init_def Let_def)
next
  assume a: "0 \<le> taiGetModuleInfo sys ''ScePspemu'' w \<and> \<not> same_name title ADRENALINE_TITLE_ID
    \<and> \<not> exists_in (V w) (bubble_boot title)"
  then have l: "launched_as sys title w"
    using assms by (simp add: launched_as_def)
  obtain rest where name: "app_name_into sys (replicate 12 NUL) w = Some (title @ NUL # rest)"
    using adr_title_eq [OF l] by blast
  let ?s = "adr_bss_init\<lparr>app_title_id := title @ NUL # rest\<rparr>"
  obtain k where k: "strcasecmp (title @ NUL # rest) (lit ADRENALINE_TITLE_ID) = Some k" "k \<noteq> 0"
    using adr_title_differs [of title rest] a assms(3) by blast
  obtain s1 where s1: "bubble_paths ?s = Some s1"
      "path_arg (bubble_boot_path s1) = Some (bubble_boot title)"
    using bubble_paths_eq [OF assms(3,4), of ?s rest] by (auto simp: adr_bss_init_def)
  obtain r w1 where "adr_check_file (vita_io sys) (bubble_boot title) w = (r, w1)" "V w1 = V w" "r < 0"
    using check_file_cases [OF assms(1), of "bubble_boot title" w] a by auto
  then show "\<exists>s' w'. adr_module_start isage sys adr_bss_init w = Some (ExitProcess 0, s', w')
      \<and> V w' = V w"
    using a name k s1 by (simp add: adr_module_start_def adr_bss_init_def Let_def)
qed

theorem adr_launch_refused_witness:
  "\<exists>s' w'. adr_module_start False sample_sys adr_bss_init oversized_mem = Some (ExitProcess 0, s', w')
     \<and> mem_view w' = mem_view oversized_mem"
proof -
  have "\<not> exists_in (mem_view oversized_mem) (bubble_boot sample_title)"
    by (simp add: exists_in_def mem_view_def oversized_mem_def sample_paths global_conf_def)
  moreover have "fs_contract (vita_io sample_sys) mem_view"
    "sceAppMgrGetNameById sample_sys oversized_mem = sample_title"
    "plain sample_title" "length sample_title \<le> 11" "0 \<le> taiGetModuleInfo sample_sys ''ScePspemu'' oversized_mem"
    by (simp_all add: sample_sys_def mem_contract sample_title_def)
  ultimately show ?thesis
    using adr_launch_refused [of sample_sys mem_view oversized_mem sample_title False]
      sample_launched(3) by blast
qed

end
