(* ===== verification/BootConv.thy ===== *)
theory BootConv
  imports CFormat SceIo BootInfo Devices
begin

text \<open>
  \<open>bootconv.suprx\<close> (\<open>src/vita/bootconv/main.c\<close>): the one-shot conversion of a bubble's textual
  \<open>data/boot.inf\<close> into \<open>data/boot.bin\<close>. Its static buffers are the record \<open>bc_bss\<close>; the parser of
  \<open>boot.inf\<close> is the loop \<open>ini_loop\<close> over \<open>strtok_r\<close>.
\<close>

section \<open>Static data\<close>

definition BC_TITLE_ID :: "byte list" where
  "BC_TITLE_ID = ''PSPEMUCFW''"

record bc_bss =
  bc_device_name :: "byte list"
  ini_value :: "byte list"
  bc_config :: "byte list"
  bc_boot_info :: BootInfo

definition bc_bss_init :: bc_bss where
  "bc_bss_init =
     \<lparr>bc_device_name = replicate 256 NUL, ini_value = replicate 256 NUL,
      bc_config = replicate 0xB8 NUL, bc_boot_info = zero_boot_info\<rparr>"

section \<open>Whole-file wrappers\<close>

definition bc_check_file :: "'w sceio \<Rightarrow> path \<Rightarrow> 'w \<Rightarrow> int \<times> 'w" where
  "bc_check_file io p w = sceIoGetstat io p w"

definition bc_get_file_size :: "'w sceio \<Rightarrow> path \<Rightarrow> 'w \<Rightarrow> int \<times> 'w" where
  "bc_get_file_size io p w =
     (let (fd, w) = sceIoOpen io p {O_RDONLY} 0 w
      in if fd < 0 then (fd, w)
         else let (sz, w) = sceIoLseek io fd 0 SEEK_END w;
                  (_, w) = sceIoClose io fd w
              in (to_int32 sz, w))"

definition bc_read_file ::
  "'w sceio \<Rightarrow> path \<Rightarrow> byte list \<Rightarrow> nat \<Rightarrow> 'w \<Rightarrow> (int \<times> byte list \<times> 'w) option"
where
  "bc_read_file io p buf n w =
     (let (fd, w) = sceIoOpen io p {O_RDONLY} 0 w
      in if fd < 0 then Some (fd, buf, w)
         else let (r, data, w) = sceIoRead io fd n w;
                  (_, w) = sceIoClose io fd w
              in do { buf \<leftarrow> fill buf data; Some (r, buf, w) })"

definition bc_write_file ::
  "'w sceio \<Rightarrow> path \<Rightarrow> byte list \<Rightarrow> nat \<Rightarrow> 'w \<Rightarrow> (int \<times> 'w) option"
where
  "bc_write_file io p buf n w =
     (let (fd, w) = sceIoOpen io p {O_WRONLY, O_CREAT, O_TRUNC} 511 w
      in if fd < 0 then Some (fd, w)
         else do {
           data \<leftarrow> bytes_arg buf n;
           let (r, w) = sceIoWrite io fd data w;
           let (_, w) = sceIoClose io fd w;
           Some (r, w) })"

interpretation bc_files: whole_file bc_check_file bc_get_file_size bc_read_file bc_write_file
  by (rule whole_file_wrappers)
    (simp_all add: bc_check_file_def bc_get_file_size_def bc_read_file_def bc_write_file_def)

section \<open>Paths\<close>

definition get_device_prefix :: "int \<Rightarrow> byte list" where
  "get_device_prefix location =
     (if location = 1 then ''ur0:''
      else if location = 2 then ''imc0:''
      else if location = 3 then ''xmc0:''
      else if location = 4 then ''uma0:''
      else ''ux0:'')"

interpretation bc_prefix: location_root get_device_prefix "'':''"
proof unfold_locales
  fix l :: int
  consider "l = 1" | "l = 2" | "l = 3" | "l = 4" | "\<not> (1 \<le> l \<and> l \<le> 4)"
    by linarith
  then show "get_device_prefix l = (if 1 \<le> l \<and> l \<le> 4 then location_names ! nat l else ''ux0'') @ '':''"
    by cases (auto simp: get_device_prefix_def location_names_def)
qed simp

definition bc_get_device_name :: "byte list \<Rightarrow> byte list \<Rightarrow> (byte list option \<times> byte list) option" where
  "bc_get_device_name dev p = do {
     n \<leftarrow> strlen p;
     if n \<le> 256 then do {
       dev \<leftarrow> strcpy dev p;
       colon \<leftarrow> strrchr dev CHR '':'';
       let dev = (case colon of None \<Rightarrow> dev | Some i \<Rightarrow> dev[i := NUL]);
       Some (Some dev, dev) }
     else Some (None, dev) }"

definition bc_path_after_pspemu_device :: "byte list \<Rightarrow> nat option" where
  "bc_path_after_pspemu_device p = do {
     colon \<leftarrow> strrchr p CHR '':'';
     case colon of
       None \<Rightarrow> Some 0
     | Some i \<Rightarrow> if i + 7 \<le> length p then Some (i + 7) else None }"

definition bc_after_last_colon :: "byte list \<Rightarrow> nat option" where
  "bc_after_last_colon p =
     do { colon \<leftarrow> strrchr p CHR '':''; case colon of None \<Rightarrow> None | Some i \<Rightarrow> Some (Suc i) }"

definition starts_with :: "byte list \<Rightarrow> byte list \<Rightarrow> bool option" where
  "starts_with text prefix = do {
     n \<leftarrow> strlen prefix;
     d \<leftarrow> strncasecmp text prefix n;
     Some (d = 0) }"

definition after_first_equals :: "byte list \<Rightarrow> nat option" where
  "after_first_equals line =
     do { eq \<leftarrow> strchr line CHR ''=''; case eq of None \<Rightarrow> None | Some i \<Rightarrow> Some (Suc i) }"

section \<open>The parser of boot.inf\<close>

definition CRLF :: "byte list" where
  "CRLF = [CHR 0x0D, CHR 0x0A, NUL]"

definition ini_line :: "byte list \<Rightarrow> byte list \<Rightarrow> byte list \<Rightarrow> byte list option" where
  "ini_line key line ini =
     (case line of
        [] \<Rightarrow> None
      | c # _ \<Rightarrow>
          if c \<noteq> NUL \<and> c \<noteq> CHR ''#'' then do {
            m \<leftarrow> starts_with line key;
            if m then do {
              v \<leftarrow> after_first_equals line;
              (ini, _) \<leftarrow> snprintf ini 256 (lit ''%s'') [ArgS (drop v line)];
              Some ini }
            else Some ini }
          else Some ini)"

lemma skip_delimiters_progress:
  "skip_delimiters cs ds k = Some k' \<Longrightarrow> k \<le> k' \<and> k' < k + length cs"
proof (induction cs arbitrary: k)
  case Nil
  then show ?case by simp
next
  case (Cons c cs)
  show ?case
  proof (cases "c = NUL \<or> is_delimiter c ds \<noteq> Some True")
    case True
    then show ?thesis
      using Cons.prems by (cases "is_delimiter c ds") (auto split: if_splits)
  next
    case False
    then show ?thesis
      using Cons.IH [of "Suc k"] Cons.prems by auto
  qed
qed

lemma skip_token_progress:
  "skip_token cs ds k = Some k' \<Longrightarrow> k \<le> k' \<and> k' < k + length cs"
proof (induction cs arbitrary: k)
  case Nil
  then show ?case by simp
next
  case (Cons c cs)
  show ?case
  proof (cases "c = NUL \<or> is_delimiter c ds \<noteq> Some False")
    case True
    then show ?thesis
      using Cons.prems by (cases "is_delimiter c ds") (auto split: if_splits)
  next
    case False
    then show ?thesis
      using Cons.IH [of "Suc k"] Cons.prems by auto
  qed
qed

lemma strtok_r_progress:
  assumes "strtok_r data None ds save = Some (Some i, data', save')"
  shows "\<exists>k. save = Some k \<and> length data' = length data
           \<and> (\<forall>k'. save' = Some k' \<longrightarrow> k < k' \<and> k' \<le> length data)"
proof (cases save)
  case None
  then show ?thesis
    using assms by (simp add: strtok_r_def)
next
  case (Some k)
  obtain token where t: "skip_delimiters (drop k data) ds k = Some token"
    using assms by (cases "skip_delimiters (drop k data) ds k") (auto simp: strtok_r_def Some)
  have "k \<le> token" "token < length data"
    using skip_delimiters_progress [OF t] by auto
  moreover have "\<exists>stop. skip_token (drop token data) ds token = Some stop"
    using assms t by (cases "skip_token (drop token data) ds token")
      (auto simp: strtok_r_def Some split: if_splits)
  then obtain stop where s: "skip_token (drop token data) ds token = Some stop"
    by blast
  moreover have "token \<le> stop" "stop < length data"
    using skip_token_progress [OF s] \<open>token < length data\<close> by auto
  ultimately show ?thesis
    using assms t by (auto simp: strtok_r_def Some split: if_splits)
qed

function ini_loop ::
  "byte list \<Rightarrow> byte list \<Rightarrow> nat option \<Rightarrow> nat option \<Rightarrow> byte list \<Rightarrow> byte list option"
where
  "ini_loop key data save line ini =
     (case line of
        None \<Rightarrow> Some ini
      | Some i \<Rightarrow>
          (case ini_line key (drop i data) ini of
             None \<Rightarrow> None
           | Some ini' \<Rightarrow>
               (case strtok_r data None CRLF save of
                  None \<Rightarrow> None
                | Some (line', data', save') \<Rightarrow> ini_loop key data' save' line' ini')))"
  by pat_completeness auto
termination
proof (relation "measure (\<lambda>(key, data, save, line, ini).
    case line of None \<Rightarrow> 0
    | Some _ \<Rightarrow> 1 + (case save of None \<Rightarrow> 0 | Some k \<Rightarrow> 1 + (length data - k)))", goal_cases)
  case (2 key data save line ini i ini' r line' p data' save')
  show ?case
  proof (cases line')
    case None
    then show ?thesis
      by (simp add: 2(1))
  next
    case (Some j)
    have "strtok_r data None CRLF save = Some (Some j, data', save')"
      using 2 Some by simp
    from strtok_r_progress [OF this] show ?thesis
      by (auto simp: 2(1) Some split: option.splits)
  qed
qed simp

declare ini_loop.simps [simp del]

definition read_ini_value ::
  "'w sceio \<Rightarrow> path \<Rightarrow> byte list \<Rightarrow> byte list \<Rightarrow> 'w \<Rightarrow> (bool \<times> byte list \<times> 'w) option"
where
  "read_ini_value io p key ini w =
     (let (fd, w) = sceIoOpen io p {O_RDONLY} 0 w
      in if fd < 0 then let (_, w) = sceIoClose io fd w in Some (False, ini, w)
         else do {
           let (r, data, w) = sceIoRead io fd 1024 w;
           data \<leftarrow> fill (replicate 1024 NUL) data;
           let (_, w) = sceIoClose io fd w;
           (line, data, save) \<leftarrow> strtok_r data (Some 0) CRLF None;
           ini \<leftarrow> ini_loop key data save line ini;
           Some (True, ini, w) })"

section \<open>Module entry points\<close>

definition bc_location :: "bool \<Rightarrow> byte list \<Rightarrow> int" where
  "bc_location isage cfg = (if isage then of_char (cfg ! 0x0B) else sint (get32 0x18 cfg))"

definition bc_convert ::
  "bool \<Rightarrow> 'w sceio \<Rightarrow> path \<Rightarrow> path \<Rightarrow> bc_bss \<Rightarrow> 'w \<Rightarrow> (outcome \<times> bc_bss \<times> 'w) option"
where
  "bc_convert isage io boot_inf boot_bin s w = do {
     let prefix = get_device_prefix (bc_location isage (bc_config s));
     (found, ini, w) \<leftarrow> read_ini_value io boot_inf (lit ''PATH'') (ini_value s) w;
     let s = s\<lparr>ini_value := ini\<rparr>;
     colon \<leftarrow> (if found then bc_after_last_colon ini else None);
     (p, _) \<leftarrow> snprintf (file_path (bc_boot_info s)) 256 (lit ''%spspemu%s'')
                [ArgS (lit prefix), ArgS (drop colon ini)];
     let s = s\<lparr>bc_boot_info := (bc_boot_info s)\<lparr>file_path := p\<rparr>\<rparr>;
     content \<leftarrow> path_arg p;
     let (r, w) = bc_check_file io content w;
     if r < 0 then Some (ExitProcess 0, s, w)
     else do {
       let s = s\<lparr>bc_boot_info := (bc_boot_info s)\<lparr>magic := BOOT_INFO_MAGIC\<rparr>\<rparr>;
       (_, w) \<leftarrow> bc_write_file io boot_bin (boot_info_bytes (bc_boot_info s)) sizeof_BootInfo w;
       let (_, w) = sceIoRemove io boot_inf w;
       Some (Returns 0, s, w) } }"

definition bc_module_start ::
  "bool \<Rightarrow> 'w vita_sys \<Rightarrow> bc_bss \<Rightarrow> 'w \<Rightarrow> (outcome \<times> bc_bss \<times> 'w) option"
where
  "bc_module_start isage sys s w =
     (if taiGetModuleInfo sys ''ScePspemu'' w < 0 then Some (ExitProcess 0, s, w)
      else do {
        title \<leftarrow> app_name_into sys (replicate 12 NUL) w;
        d \<leftarrow> strcmp title (lit BC_TITLE_ID);
        if d = 0 then Some (Returns 0, s, w)
        else do {
          c \<leftarrow> memset (bc_config s) 0 0xB8;
          (_, c, w) \<leftarrow> bc_read_file (vita_io sys) (''ux0:app/'' @ BC_TITLE_ID @ ''/adrenaline.bin'') c 0xB8 w;
          let s = s\<lparr>bc_config := c\<rparr>;
          (bin, _) \<leftarrow> sprintf (replicate 64 NUL) (lit ''ux0:app/%s/data/boot.bin'') [ArgS title];
          (inf, _) \<leftarrow> snprintf (replicate 64 NUL) 64 (lit ''ux0:app/%s/data/boot.inf'') [ArgS title];
          boot_bin \<leftarrow> path_arg bin;
          boot_inf \<leftarrow> path_arg inf;
          let (r, w) = bc_check_file (vita_io sys) boot_inf w;
          if r < 0 then Some (Returns 0, s, w)
          else do {
            let (r, w) = bc_check_file (vita_io sys) boot_bin w;
            if 0 \<le> r then Some (Returns 0, s, w)
            else bc_convert isage (vita_io sys) boot_inf boot_bin s w } } })"

definition bc_module_stop :: int where
  "bc_module_stop = 0"

section \<open>What the parser computes\<close>

text \<open>
  A line matches a key when it does not start with \<open>#\<close> and begins with the key, letters in either
  case; its value is the text after its first equals sign, cut at 255 characters.
\<close>

definition line_matches :: "byte list \<Rightarrow> byte list \<Rightarrow> bool" where
  "line_matches key line \<longleftrightarrow>
     line \<noteq> [] \<and> hd line \<noteq> CHR ''#'' \<and> fold_str (take (length key) line) = fold_str key"

definition line_value :: "byte list \<Rightarrow> byte list" where
  "line_value line = tl (dropWhile (\<lambda>c. c \<noteq> CHR ''='') line)"

definition ini_value_of :: "byte list \<Rightarrow> byte list list \<Rightarrow> byte list option" where
  "ini_value_of key lines =
     (case rev (filter (line_matches key) lines) of [] \<Rightarrow> None | l # _ \<Rightarrow> Some (line_value l))"

lemma strncasecmp_prefix:
  "plain p \<Longrightarrow> terminated as \<Longrightarrow>
     \<exists>d. strncasecmp as (p @ NUL # rest) (length p) = Some d
       \<and> (d = 0 \<longleftrightarrow> fold_str (take (length p) (cstr as)) = fold_str p)"
proof (induction p arbitrary: as)
  case Nil
  then show ?case by simp
next
  case (Cons c p)
  then obtain a as' where as: "as = a # as'"
    by (cases as) auto
  show ?case
    using Cons by (cases "a = NUL") (auto simp: as Let_def)
qed

lemma starts_with_eq:
  assumes "plain p" "terminated l"
  shows "starts_with l (lit p) = Some (fold_str (take (length p) (cstr l)) = fold_str p)"
  using strncasecmp_prefix [OF assms, of "[]"] assms(1)
  by (auto simp: starts_with_def strlen_eq cstr_append_NUL)

lemma after_first_equals_eq:
  assumes "terminated l" "CHR ''='' \<in> set (cstr l)"
  shows "\<exists>i. after_first_equals l = Some i \<and> terminated (drop i l) \<and> cstr (drop i l) = line_value (cstr l)"
proof -
  have "\<exists>i. strchr l CHR ''='' = Some (Some i) \<and> terminated (drop (Suc i) l)
      \<and> cstr (drop (Suc i) l) = line_value (cstr l)"
    using assms by (induction l) (auto simp: line_value_def)
  then show ?thesis
    by (auto simp: after_first_equals_def)
qed

lemma ini_line_eq:
  assumes l: "terminated l" "cstr l \<noteq> []" and key: "plain key" and ini: "length ini = 256"
    and eq: "line_matches key (cstr l) \<Longrightarrow> CHR ''='' \<in> set (cstr l)"
  shows "\<exists>ini'. ini_line (lit key) l ini = Some ini' \<and> length ini' = 256
           \<and> (if line_matches key (cstr l)
              then terminated ini' \<and> cstr ini' = take 255 (line_value (cstr l)) else ini' = ini)"
proof -
  obtain c cs where c: "l = c # cs" "c \<noteq> NUL" "hd (cstr l) = c"
    using l by (cases l) (auto split: if_splits)
  have sw: "starts_with (c # cs) (lit key)
      = Some (fold_str (take (length key) (cstr (c # cs))) = fold_str key)"
    using starts_with_eq [OF key l(1)] by (simp add: c(1))
  show ?thesis
  proof (cases "line_matches key (cstr l)")
    case True
    obtain i where i: "after_first_equals l = Some i" "terminated (drop i l)"
        "cstr (drop i l) = line_value (cstr l)"
      using after_first_equals_eq [OF l(1) eq [OF True]] by blast
    let ?v = "line_value (cstr l)"
    have e: "expand (lit ''%s'') [ArgS (drop i l)] = Some ?v"
      using i by simp
    have pl: "plain ?v"
      using i(3) plain_cstr by metis
    let ?ini = "take 255 ?v @ NUL # drop (Suc (min 255 (length ?v))) ini"
    have "snprintf ini 256 (lit ''%s'') [ArgS (drop i l)] = Some (?ini, int (length ?v))"
      using snprintf_eq [OF e, of 256 ini] ini by simp
    then have "ini_line (lit key) l ini = Some ?ini"
      using True c i(1) by (simp add: ini_line_def line_matches_def sw)
    moreover have "length ?ini = 256"
      using ini by simp
    moreover have "cstr ?ini = take 255 ?v"
      using pl by (simp add: cstr_append_NUL)
    ultimately show ?thesis
      using True by (intro exI [of _ ?ini]) simp
  next
    case False
    then have "ini_line (lit key) l ini = Some ini"
      using c l(2) by (auto simp: ini_line_def line_matches_def sw)
    then show ?thesis
      using False ini by simp
  qed
qed

lemma CRLF_terminated [simp]: "terminated CRLF"
  by (simp add: CRLF_def)

definition lines_of :: "byte list \<Rightarrow> byte list list" where
  "lines_of s = tokens {CHR 0x0D, CHR 0x0A} s"

lemma cstr_CRLF: "set (cstr CRLF) = {CHR 0x0D, CHR 0x0A}"
  by (simp add: CRLF_def)

definition rest_lines :: "byte list \<Rightarrow> nat option \<Rightarrow> nat option \<Rightarrow> byte list list" where
  "rest_lines data save line =
     (case line of None \<Rightarrow> []
      | Some i \<Rightarrow> cstr (drop i data) # (case save of None \<Rightarrow> [] | Some k \<Rightarrow> lines_of (cstr (drop k data))))"

definition wf_scan :: "byte list \<Rightarrow> nat option \<Rightarrow> nat option \<Rightarrow> bool" where
  "wf_scan data save line \<longleftrightarrow>
     (\<forall>i. line = Some i \<longrightarrow> terminated (drop i data) \<and> cstr (drop i data) \<noteq> [])
     \<and> (\<forall>k. save = Some k \<longrightarrow> terminated (drop k data) \<and> k \<le> length data)"

lemma strtok_scan:
  assumes k: "terminated (drop k data)" "k \<le> length data" and t: "text = Some k \<or> text = None \<and> st = Some k"
  shows "\<exists>line data' save. strtok_r data text CRLF st = Some (line, data', save)
     \<and> wf_scan data' save line \<and> rest_lines data' save line = lines_of (cstr (drop k data))"
  using CRLF_terminated k t
proof (rule strtok_r_spec, goal_cases)
  case 1
  then show ?case
    by (simp add: wf_scan_def rest_lines_def lines_of_def cstr_CRLF)
next
  case (2 i)
  have "cstr (drop i data) \<noteq> []"
    using tokens_no_delimiter [of "cstr (drop i data)" "set (cstr CRLF)" "cstr (drop k data)"] 2(4) by simp
  then show ?case
    using 2 by (simp add: wf_scan_def rest_lines_def lines_of_def cstr_CRLF)
next
  case (3 i data' k')
  have "cstr (drop i data') \<noteq> []"
    using tokens_no_delimiter [of "cstr (drop i data')" "set (cstr CRLF)" "cstr (drop k data)"] 3(8) by simp
  then show ?case
    using 3 by (simp add: wf_scan_def rest_lines_def lines_of_def cstr_CRLF)
qed

lemma ini_value_of_Nil [simp]: "ini_value_of key [] = None"
  by (simp add: ini_value_of_def)

lemma ini_value_of_Cons:
  "ini_value_of key (l # ls) =
     (case ini_value_of key ls of
        Some v \<Rightarrow> Some v
      | None \<Rightarrow> if line_matches key l then Some (line_value l) else None)"
  by (simp add: ini_value_of_def split: list.splits)

lemma strtok_r_ended: "strtok_r data None ds None = Some (None, data, None)"
  by (simp add: strtok_r_def)

lemma ini_loop_eq:
  assumes "wf_scan data save line" and "plain key" and "length ini = 256"
    and "\<forall>l \<in> set (rest_lines data save line). line_matches key l \<longrightarrow> CHR ''='' \<in> set l"
  shows "\<exists>ini'. ini_loop (lit key) data save line ini = Some ini' \<and> length ini' = 256
     \<and> (case ini_value_of key (rest_lines data save line) of
          None \<Rightarrow> ini' = ini
        | Some v \<Rightarrow> terminated ini' \<and> cstr ini' = take 255 v)"
  using assms
proof (induction "lit key" data save line ini rule: ini_loop.induct)
  case (1 data save line ini)
  show ?case
  proof (cases line)
    case None
    then show ?thesis
      using "1.prems" by (simp add: ini_loop.simps rest_lines_def)
  next
    case (Some i)
    let ?l = "drop i data"
    have l: "terminated ?l" "cstr ?l \<noteq> []"
      using "1.prems"(1) Some by (auto simp: wf_scan_def)
    have eq: "line_matches key (cstr ?l) \<Longrightarrow> CHR ''='' \<in> set (cstr ?l)"
      using "1.prems"(4) by (simp add: rest_lines_def Some)
    obtain ini1 where ini1: "ini_line (lit key) ?l ini = Some ini1" "length ini1 = 256"
        "if line_matches key (cstr ?l)
         then terminated ini1 \<and> cstr ini1 = take 255 (line_value (cstr ?l)) else ini1 = ini"
      using ini_line_eq [OF l "1.prems"(2,3) eq] by blast
    show ?thesis
    proof (cases save)
      case None
      have "ini_loop (lit key) data save line ini = Some ini1"
        by (subst ini_loop.simps) (simp add: Some None ini1(1) strtok_r_ended ini_loop.simps [of _ _ _ None])
      then show ?thesis
        using ini1 by (auto simp: rest_lines_def Some None ini_value_of_Cons split: if_splits)
    next
      case save: (Some k)
      have k: "terminated (drop k data)" "k \<le> length data"
        using "1.prems"(1) save by (auto simp: wf_scan_def)
      obtain line' data' save' where t: "strtok_r data None CRLF save = Some (line', data', save')"
          "wf_scan data' save' line'" "rest_lines data' save' line' = lines_of (cstr (drop k data))"
        using strtok_scan [OF k, of None save] save by blast
      have rest: "rest_lines data save line = cstr ?l # rest_lines data' save' line'"
        by (simp add: rest_lines_def Some save flip: t(3))
      have eqs: "\<forall>l \<in> set (rest_lines data' save' line'). line_matches key l \<longrightarrow> CHR ''='' \<in> set l"
        using "1.prems"(4) by (simp add: rest)
      obtain ini2 where ini2: "ini_loop (lit key) data' save' line' ini1 = Some ini2" "length ini2 = 256"
          "case ini_value_of key (rest_lines data' save' line') of None \<Rightarrow> ini2 = ini1
           | Some v \<Rightarrow> terminated ini2 \<and> cstr ini2 = take 255 v"
        using "1.hyps" [OF Some ini1(1) t(1) refl refl t(2) "1.prems"(2) ini1(2) eqs] by blast
      have "ini_loop (lit key) data save line ini = Some ini2"
        by (subst ini_loop.simps) (simp add: Some ini1(1) t(1) ini2(1))
      then show ?thesis
        using ini1 ini2 by (auto simp: rest ini_value_of_Cons split: option.splits if_splits)
    qed
  qed
qed

definition ini_text :: "byte list \<Rightarrow> byte list" where
  "ini_text t = cstr (overlay (replicate 1024 NUL) (take 1024 t))"

definition ini_readable :: "byte list \<Rightarrow> byte list \<Rightarrow> bool" where
  "ini_readable key t \<longleftrightarrow>
     terminated (overlay (replicate 1024 NUL) (take 1024 t))
     \<and> (\<forall>l \<in> set (lines_of (ini_text t)). line_matches key l \<longrightarrow> CHR ''='' \<in> set l)"

lemma ini_text_short: "length t < 1024 \<Longrightarrow> ini_text t = cstr t"
  by (simp add: ini_text_def overlay_def)

lemma read_ini_value_eq:
  assumes io: "fs_contract io V" and f: "files (V w) p = Some t" and key: "plain key"
    and r: "ini_readable key t" and ini: "length ini = 256"
  shows "\<exists>ini' w'. read_ini_value io p (lit key) ini w = Some (True, ini', w') \<and> V w' = V w
     \<and> length ini' = 256
     \<and> (case ini_value_of key (lines_of (ini_text t)) of
          None \<Rightarrow> ini' = ini
        | Some v \<Rightarrow> terminated ini' \<and> cstr ini' = take 255 v)"
proof -
  let ?data = "overlay (replicate 1024 NUL) (take 1024 t)"
  obtain fd w1 w2 w3 rc where io_run: "sceIoOpen io p {O_RDONLY} 0 w = (fd, w1)" "0 \<le> fd"
      "sceIoRead io fd 1024 w1 = (int (length (take 1024 t)), take 1024 t, w2)"
      "sceIoClose io fd w2 = (rc, w3)" "V w3 = V w"
    using read_once [OF io f, of "{O_RDONLY}" 0 1024] by auto
  have t0: "terminated (drop 0 ?data)" "0 \<le> length ?data"
    using r by (simp_all add: ini_readable_def)
  obtain line data' save where s: "strtok_r ?data (Some 0) CRLF None = Some (line, data', save)"
      "wf_scan data' save line" "rest_lines data' save line = lines_of (ini_text t)"
    using strtok_scan [OF t0, of "Some 0" None] by (auto simp: ini_text_def)
  have "\<forall>l \<in> set (rest_lines data' save line). line_matches key l \<longrightarrow> CHR ''='' \<in> set l"
    using r by (simp add: s(3) ini_readable_def)
  from ini_loop_eq [OF s(2) key ini this] obtain ini' where
    "ini_loop (lit key) data' save line ini = Some ini'" "length ini' = 256"
    "case ini_value_of key (lines_of (ini_text t)) of None \<Rightarrow> ini' = ini
     | Some v \<Rightarrow> terminated ini' \<and> cstr ini' = take 255 v"
    unfolding s(3) by blast
  then show ?thesis
    using io_run s(1) by (simp add: read_ini_value_def fill_def)
qed

section \<open>What a conversion does to the files\<close>

definition boot_bin_of :: "byte list \<Rightarrow> path" where
  "boot_bin_of title = ''ux0:app/'' @ title @ ''/data/boot.bin''"

definition boot_inf_of :: "byte list \<Rightarrow> path" where
  "boot_inf_of title = ''ux0:app/'' @ title @ ''/data/boot.inf''"

definition bc_global_conf :: path where
  "bc_global_conf = ''ux0:app/PSPEMUCFW/adrenaline.bin''"

definition config_image :: "fsview \<Rightarrow> byte list" where
  "config_image fs = overlay (replicate 0xB8 NUL)
     (case files fs bc_global_conf of None \<Rightarrow> [] | Some c \<Rightarrow> take 0xB8 c)"

definition converted_path :: "bool \<Rightarrow> byte list \<Rightarrow> byte list \<Rightarrow> path" where
  "converted_path isage cfg v =
     take 255 (get_device_prefix (bc_location isage cfg) @ ''pspemu'' @ after_colon (take 255 v))"

definition converted_boot :: "path \<Rightarrow> BootInfo" where
  "converted_boot p = zero_boot_info\<lparr>magic := BOOT_INFO_MAGIC, file_path := pad_to 256 p\<rparr>"

definition path_exists :: "fsview \<Rightarrow> path \<Rightarrow> bool" where
  "path_exists fs p \<longleftrightarrow> files fs p \<noteq> None \<or> p \<in> dirs fs"

lemma bc_check_cases:
  assumes "fs_contract io V"
  shows "\<exists>r w'. bc_check_file io p w = (r, w') \<and> V w' = V w \<and> (0 \<le> r \<longleftrightarrow> path_exists (V w) p)"
  using bc_files.check_law [OF assms, of p w] by (simp add: path_exists_def)

lemma bc_after_last_colon_eq:
  assumes "terminated p" "CHR '':'' \<in> set (cstr p)"
  shows "\<exists>i. bc_after_last_colon p = Some i \<and> terminated (drop i p) \<and> cstr (drop i p) = after_colon (cstr p)"
proof -
  let ?s = "cstr p" and ?i = "Suc (length (device_of (cstr p)))"
  obtain rest where b: "p = ?s @ NUL # rest"
    using terminated_split [OF assms(1)] by blast
  have s: "?s = device_of ?s @ CHR '':'' # after_colon ?s"
    by (rule split_last_colon(1) [OF assms(2)])
  have "p = (device_of ?s @ [CHR '':'']) @ after_colon ?s @ NUL # rest"
    using b s by (metis append.assoc append_Cons append_Nil)
  moreover have "length (device_of ?s @ [CHR '':'']) = ?i"
    by simp
  ultimately have "drop ?i p = after_colon ?s @ NUL # rest"
    by (metis append_eq_conv_conj)
  moreover have "plain (after_colon ?s)"
    using plain_cstr [of p] s by (metis plain_append plain_Cons)
  ultimately show ?thesis
    using assms strrchr_colon [OF assms(1)]
    by (simp add: bc_after_last_colon_def cstr_append_NUL)
qed

text \<open>The kernel grants creating a file in some world that looks like \<open>fs\<close>.\<close>

definition creatable :: "'w sceio \<Rightarrow> ('w \<Rightarrow> fsview) \<Rightarrow> path \<Rightarrow> fsview \<Rightarrow> bool" where
  "creatable io V p fs \<longleftrightarrow>
     (\<exists>u. V u = fs \<and> 0 \<le> fst (sceIoOpen io p {O_WRONLY, O_CREAT, O_TRUNC} 511 u))"

lemma bc_convert_eq:
  fixes isage :: bool
  assumes io: "fs_contract io V" and infp: "files (V w) infp = Some t" and r: "ini_readable ''PATH'' t"
    and v: "ini_value_of ''PATH'' (lines_of (ini_text t)) = Some v" "CHR '':'' \<in> set (take 255 v)"
    and s: "length (ini_value s) = 256" "bc_boot_info s = zero_boot_info" and ne: "infp \<noteq> binp"
  defines "p \<equiv> converted_path isage (bc_config s) v"
  shows "\<exists>s' w'. bc_convert isage io infp binp s w
           = Some (if path_exists (V w) p then Returns 0 else ExitProcess 0, s', w')
     \<and> (if path_exists (V w) p
        then creatable io V binp (V w)
             \<and> V w' = (V w)\<lparr>files := (files (V w))(binp := Some (boot_info_bytes (converted_boot p)), infp := None)\<rparr>
             \<or> files (V w) binp = None \<and> V w' = (V w)\<lparr>files := (files (V w))(infp := None)\<rparr>
        else V w' = V w)"
proof -
  obtain ini w1 where ini: "read_ini_value io infp (lit ''PATH'') (ini_value s) w = Some (True, ini, w1)"
      "V w1 = V w" "terminated ini" "cstr ini = take 255 v"
    using read_ini_value_eq [OF io infp _ r s(1)] v(1) by auto
  obtain i where i: "bc_after_last_colon ini = Some i" "terminated (drop i ini)"
      "cstr (drop i ini) = after_colon (take 255 v)"
    using bc_after_last_colon_eq [OF ini(3)] v(2) unfolding ini(4) by blast
  let ?pre = "get_device_prefix (bc_location isage (bc_config s))"
  let ?u = "?pre @ ''pspemu'' @ after_colon (take 255 v)"
  have e: "expand (lit ''%spspemu%s'') [ArgS (lit ?pre), ArgS (drop i ini)] = Some ?u"
    using i by (simp add: cstr_append_NUL bc_prefix.root_plain)
  let ?buf = "take 255 ?u @ NUL # drop (Suc (min 255 (length ?u))) (replicate 256 NUL)"
  have pl: "plain ?u"
    using plain_cstr [of "drop i ini"] unfolding i(3) by (simp add: bc_prefix.root_plain)
  have buf: "?buf = pad_to 256 p"
    using cut_and_pad [of 255 ?u] by (simp add: p_def converted_path_def)
  have sn: "snprintf (file_path (bc_boot_info s)) 256 (lit ''%spspemu%s'')
      [ArgS (lit ?pre), ArgS (drop i ini)] = Some (pad_to 256 p, int (length ?u))"
    using snprintf_eq [OF e, of 256 "replicate 256 NUL"] unfolding buf [symmetric] by (simp add: s(2))
  have pa: "path_arg (pad_to 256 p) = Some p"
  proof -
    have "plain p" "length p < 256"
      using pl by (simp_all add: p_def converted_path_def)
    then show ?thesis
      by (simp add: path_arg_def cstr_pad_to terminated_pad_to)
  qed
  obtain rc w2 where w2: "bc_check_file io p w1 = (rc, w2)" "V w2 = V w" "0 \<le> rc \<longleftrightarrow> path_exists (V w) p"
    using bc_check_cases [OF io, of p w1] ini(2) by auto
  have conv: "zero_boot_info\<lparr>file_path := pad_to 256 p, magic := BOOT_INFO_MAGIC\<rparr> = converted_boot p"
    by (simp add: converted_boot_def)
  have "length p \<le> 256"
    by (simp add: p_def converted_path_def)
  then have len: "length (boot_info_bytes (converted_boot p)) = sizeof_BootInfo"
    using zero_boot_info_valid
    by (intro boot_info_bytes_length) (simp add: converted_boot_def valid_boot_info_def)
  obtain rw w3 where w3: "bc_write_file io binp (boot_info_bytes (converted_boot p)) sizeof_BootInfo w2
        = Some (rw, w3)"
      "if rw < 0 then V w3 = V w2 \<and> files (V w2) binp = None
       else V w3 = (V w2)\<lparr>files := (files (V w2))(binp := Some (boot_info_bytes (converted_boot p)))\<rparr>"
    using bc_files.write_law [OF io, of sizeof_BootInfo "boot_info_bytes (converted_boot p)" binp w2] len
    by (auto split: if_splits)
  have cr: "creatable io V binp (V w)" if "\<not> rw < 0"
    using that w3(1) w2(2) by (cases "sceIoOpen io binp {O_WRONLY, O_CREAT, O_TRUNC} 511 w2")
      (auto simp: creatable_def bc_write_file_def split: if_splits intro!: exI [of _ w2])
  obtain rr w4 where w4: "sceIoRemove io infp w3 = (rr, w4)"
      "V w4 = (V w3)\<lparr>files := (files (V w3))(infp := None)\<rparr>"
    using remove_path [OF io] by blast
  show ?thesis
    using ini(1) i(1) sn pa w2 w3 w4 s(2) conv cr
    by (auto simp: bc_convert_def Let_def not_le split: if_splits)
qed

lemma bc_module_start_eq:
  fixes isage :: bool
  assumes io: "fs_contract (vita_io sys) V" and l: "launched_as sys title w"
    and other: "title \<noteq> BC_TITLE_ID"
    and t: "files (V w) (boot_inf_of title) = Some t" "ini_readable ''PATH'' t"
    and fresh: "\<not> path_exists (V w) (boot_bin_of title)"
    and v: "ini_value_of ''PATH'' (lines_of (ini_text t)) = Some v" "CHR '':'' \<in> set (take 255 v)"
  defines "p \<equiv> converted_path isage (config_image (V w)) v"
  shows "\<exists>s' w'. bc_module_start isage sys bc_bss_init w
           = Some (if path_exists (V w) p then Returns 0 else ExitProcess 0, s', w')
     \<and> (if path_exists (V w) p
        then creatable (vita_io sys) V (boot_bin_of title) (V w)
             \<and> V w' = (V w)\<lparr>files := (files (V w))
               (boot_bin_of title := Some (boot_info_bytes (converted_boot p)), boot_inf_of title := None)\<rparr>
             \<or> V w' = (V w)\<lparr>files := (files (V w))(boot_inf_of title := None)\<rparr>
        else V w' = V w)"
proof -
  let ?io = "vita_io sys" and ?z = "replicate 0xB8 NUL"
  have title: "plain title" "length title \<le> 11" "\<not> taiGetModuleInfo sys ''ScePspemu'' w < 0"
    using l by (simp_all add: launched_as_def)
  let ?t = "title @ NUL # replicate (11 - length title) NUL"
  have name: "app_name_into sys (replicate 12 NUL) w = Some ?t"
    using l by (simp add: app_name_into_def fill_def launched_as_def overlay_def)
  obtain k where k: "strcmp ?t (lit BC_TITLE_ID) = Some k" "k \<noteq> 0"
    using strcmp_eq_0 [of ?t "lit BC_TITLE_ID"] other title(1)
    by (auto simp: cstr_append_NUL BC_TITLE_ID_def)
  have g: "''ux0:app/'' @ BC_TITLE_ID @ ''/adrenaline.bin'' = bc_global_conf"
    by (simp add: bc_global_conf_def BC_TITLE_ID_def)
  obtain r w1 where w1: "bc_read_file ?io bc_global_conf ?z 0xB8 w = Some (r, config_image (V w), w1)"
      "V w1 = V w"
  proof (cases "files (V w) bc_global_conf")
    case None
    then show thesis
      using bc_files.read_absent [OF io None, of ?z "0xB8"] that by (auto simp: config_image_def)
  next
    case (Some c)
    then show thesis
      using bc_files.read_present [OF io Some, of "0xB8" ?z] that by (auto simp: config_image_def)
  qed
  have m: "memset ?z 0 0xB8 = Some ?z"
    by (simp add: memset_eq char_of_0)
  have e: "expand (lit ''ux0:app/%s/data/boot.bin'') [ArgS ?t] = Some (boot_bin_of title)"
    "expand (lit ''ux0:app/%s/data/boot.inf'') [ArgS ?t] = Some (boot_inf_of title)"
    using title by (simp_all add: boot_bin_of_def boot_inf_of_def cstr_append_NUL)
  have pl: "plain (boot_bin_of title)" "plain (boot_inf_of title)"
    "length (boot_bin_of title) < 64" "length (boot_inf_of title) < 64"
    using title by (simp_all add: boot_bin_of_def boot_inf_of_def)
  have bin: "\<exists>buf n. sprintf (replicate 64 NUL) (lit ''ux0:app/%s/data/boot.bin'') [ArgS ?t] = Some (buf, n)
      \<and> path_arg buf = Some (boot_bin_of title)"
    using sprintf_eq [OF e(1), of "replicate 64 NUL"] pl by (simp add: SIZE_MAX_def)
  have infp: "\<exists>buf n. snprintf (replicate 64 NUL) 64 (lit ''ux0:app/%s/data/boot.inf'') [ArgS ?t] = Some (buf, n)
      \<and> path_arg buf = Some (boot_inf_of title)"
    using snprintf_eq [OF e(2), of 64 "replicate 64 NUL"] pl by simp
  obtain b1 n1 b2 n2 where bufs:
      "sprintf (replicate 64 NUL) (lit ''ux0:app/%s/data/boot.bin'') [ArgS ?t] = Some (b1, n1)"
      "path_arg b1 = Some (boot_bin_of title)"
      "snprintf (replicate 64 NUL) 64 (lit ''ux0:app/%s/data/boot.inf'') [ArgS ?t] = Some (b2, n2)"
      "path_arg b2 = Some (boot_inf_of title)"
    using bin infp by blast
  obtain r2 w2 where w2: "bc_check_file ?io (boot_inf_of title) w1 = (r2, w2)" "V w2 = V w" "\<not> r2 < 0"
    using bc_check_cases [OF io, of "boot_inf_of title" w1] t(1) w1(2) by (auto simp: path_exists_def)
  obtain r3 w3 where w3: "bc_check_file ?io (boot_bin_of title) w2 = (r3, w3)" "V w3 = V w" "r3 < 0"
    using bc_check_cases [OF io, of "boot_bin_of title" w2] fresh w2(2) by auto
  let ?s = "bc_bss_init\<lparr>bc_config := config_image (V w)\<rparr>"
  have t3: "files (V w3) (boot_inf_of title) = Some t"
    using t(1) w3(2) by simp
  have ini: "length (ini_value ?s) = 256" "bc_boot_info ?s = zero_boot_info"
    by (simp_all add: bc_bss_init_def)
  have ne: "boot_inf_of title \<noteq> boot_bin_of title"
    by (simp add: boot_inf_of_def boot_bin_of_def)
  have cfg: "bc_config ?s = config_image (V w)"
    by simp
  obtain s' w' where run: "bc_convert isage ?io (boot_inf_of title) (boot_bin_of title) ?s w3
        = Some (if path_exists (V w) p then Returns 0 else ExitProcess 0, s', w')"
      "if path_exists (V w) p
       then creatable (vita_io sys) V (boot_bin_of title) (V w)
            \<and> V w' = (V w)\<lparr>files := (files (V w))
              (boot_bin_of title := Some (boot_info_bytes (converted_boot p)), boot_inf_of title := None)\<rparr>
            \<or> V w' = (V w)\<lparr>files := (files (V w))(boot_inf_of title := None)\<rparr>
       else V w' = V w"
    using bc_convert_eq [OF io t3 t(2) v ini ne, of isage] unfolding w3(2) cfg p_def [symmetric]
    by (auto split: if_splits)
  have "bc_module_start isage sys bc_bss_init w
      = Some (if path_exists (V w) p then Returns 0 else ExitProcess 0, s', w')"
    using title(3) name k w1(1) m bufs w2(1,3) w3(1,3) run(1)
    unfolding bc_module_start_def g by (simp add: bc_bss_init_def Let_def not_le)
  then show ?thesis
    using run(2) by blast
qed

section \<open>Properties\<close>

definition bc_sample_title :: "byte list" where
  "bc_sample_title = ''ABCD00001''"

definition bc_sample_ini :: "byte list" where
  "bc_sample_ini =
     ''#PATH=ms0:/x'' @ [CHR 0x0D, CHR 0x0A] @ ''PATH=ms0:/ISO/OLD.ISO'' @ [CHR 0x0A] @ ''path=ms0:/ISO/NEW.ISO''"

definition bc_sample_mem :: mem where
  "bc_sample_mem =
     \<lparr>mfiles = [boot_inf_of bc_sample_title \<mapsto> bc_sample_ini, ''ux0:pspemu/ISO/NEW.ISO'' \<mapsto> ''disc''],
      mdirs = [], mhandles = []\<rparr>"

definition bc_sample_sys :: "mem sceio \<Rightarrow> mem vita_sys" where
  "bc_sample_sys io = \<lparr>vita_io = io, taiGetModuleInfo = \<lambda>_ _. 0, sceAppMgrGetNameById = \<lambda>_. bc_sample_title\<rparr>"

lemma bc_sample_lines:
  "lines_of bc_sample_ini = [''#PATH=ms0:/x'', ''PATH=ms0:/ISO/OLD.ISO'', ''path=ms0:/ISO/NEW.ISO'']"
  by (simp add: lines_of_def bc_sample_ini_def tokens.simps)

lemma bc_sample_text: "ini_text bc_sample_ini = bc_sample_ini"
  by (subst ini_text_short) (simp_all add: bc_sample_ini_def)

lemma bc_sample_readable: "ini_readable ''PATH'' bc_sample_ini"
  unfolding ini_readable_def bc_sample_text bc_sample_lines
  by (simp add: bc_sample_ini_def overlay_def)

lemma bc_sample_value:
  "ini_value_of ''PATH'' (lines_of (ini_text bc_sample_ini)) = Some ''ms0:/ISO/NEW.ISO''"
  unfolding bc_sample_text bc_sample_lines
  by (simp add: ini_value_of_def line_matches_def line_value_def fold_case_def)

lemma bc_sample_path:
  "converted_path False (config_image (mem_view bc_sample_mem)) ''ms0:/ISO/NEW.ISO'' = ''ux0:pspemu/ISO/NEW.ISO''"
proof -
  have "config_image (mem_view bc_sample_mem) = replicate 0xB8 NUL"
    by (simp add: config_image_def mem_view_def bc_sample_mem_def boot_inf_of_def bc_sample_title_def
        bc_global_conf_def)
  moreover have "rd32 [NUL, NUL, NUL, NUL] = 0"
    by (simp add: rd32_def)
  ultimately have "bc_location False (config_image (mem_view bc_sample_mem)) = 0"
    by (simp add: bc_location_def get32_def eval_nat_numeral)
  then show ?thesis
    by (simp add: converted_path_def get_device_prefix_def after_colon_def)
qed

lemma bc_sample_state:
  "launched_as (bc_sample_sys io) bc_sample_title bc_sample_mem" "bc_sample_title \<noteq> BC_TITLE_ID"
  "files (mem_view bc_sample_mem) (boot_inf_of bc_sample_title) = Some bc_sample_ini"
  "\<not> path_exists (mem_view bc_sample_mem) (boot_bin_of bc_sample_title)"
  "path_exists (mem_view bc_sample_mem) ''ux0:pspemu/ISO/NEW.ISO''"
  by (simp_all add: launched_as_def bc_sample_sys_def bc_sample_title_def BC_TITLE_ID_def
      path_exists_def mem_view_def bc_sample_mem_def boot_inf_of_def boot_bin_of_def)



text \<open>
  The parser. Reading a key from a readable file yields the value of the last matching line, cut
  at 255 characters, or leaves the buffer alone when no line matches; the file, the handles and every
  other byte of the world stay as they are.
\<close>

theorem boot_inf_last_match:
  assumes "fs_contract io V" and "files (V w) p = Some t" and "plain key" and "ini_readable key t"
    and "length ini = 256"
  shows "\<exists>ini' w'. read_ini_value io p (lit key) ini w = Some (True, ini', w') \<and> V w' = V w
     \<and> (case rev (filter (line_matches key) (lines_of (ini_text t))) of
          [] \<Rightarrow> ini' = ini
        | l # _ \<Rightarrow> cstr ini' = take 255 (line_value l) \<and> terminated ini')"
proof -
  obtain ini' w' where "read_ini_value io p (lit key) ini w = Some (True, ini', w')" "V w' = V w"
      "case ini_value_of key (lines_of (ini_text t)) of None \<Rightarrow> ini' = ini
       | Some v \<Rightarrow> terminated ini' \<and> cstr ini' = take 255 v"
    using read_ini_value_eq [OF assms] by blast
  then show ?thesis
    by (intro exI [of _ ini'] exI [of _ w']) (auto simp: ini_value_of_def split: list.splits)
qed

theorem boot_inf_last_match_witness:
  "\<exists>ini' w'. read_ini_value mem_io (boot_inf_of bc_sample_title) (lit ''PATH'') (replicate 256 NUL) bc_sample_mem
     = Some (True, ini', w') \<and> cstr ini' = ''ms0:/ISO/NEW.ISO''"
proof -
  have r: "rev (filter (line_matches ''PATH'') (lines_of (ini_text bc_sample_ini)))
      = [''path=ms0:/ISO/NEW.ISO'', ''PATH=ms0:/ISO/OLD.ISO'']"
    unfolding bc_sample_text bc_sample_lines by (simp add: line_matches_def fold_case_def)
  have "plain ''PATH''" "length (replicate 256 NUL) = 256"
    by simp_all
  from boot_inf_last_match [OF mem_contract bc_sample_state(3) this(1) bc_sample_readable this(2)]
  show ?thesis
    unfolding r by (auto simp: line_value_def)
qed

text \<open>
  A conversion that cannot store its result still deletes its input. When \<open>boot.bin\<close> cannot be
  created the result of \<open>write_file\<close> is ignored and \<open>boot.inf\<close> is removed: the module reports success
  and the bubble has neither file.
\<close>

theorem bc_conversion_loses_input:
  assumes "fs_contract (vita_io sys) V" and "launched_as sys title w" and "title \<noteq> BC_TITLE_ID"
    and "files (V w) (boot_inf_of title) = Some t" and "ini_readable ''PATH'' t"
    and "\<not> path_exists (V w) (boot_bin_of title)"
    and "ini_value_of ''PATH'' (lines_of (ini_text t)) = Some v" and "CHR '':'' \<in> set (take 255 v)"
    and "path_exists (V w) (converted_path isage (config_image (V w)) v)"
    and "\<not> creatable (vita_io sys) V (boot_bin_of title) (V w)"
    and "bc_module_start isage sys bc_bss_init w = Some (o', s', w')"
  shows "o' = Returns 0 \<and> files (V w') (boot_inf_of title) = None \<and> files (V w') (boot_bin_of title) = None"
proof -
  have "files (V w) (boot_bin_of title) = None"
    using assms(6) by (simp add: path_exists_def)
  then show ?thesis
    using bc_module_start_eq [OF assms(1-8), of isage] assms(9-11) by (auto split: if_splits)
qed

theorem bc_conversion_loses_input_witness:
  "\<exists>s' w'. bc_module_start False (bc_sample_sys full_io) bc_bss_init bc_sample_mem = Some (Returns 0, s', w')
     \<and> files (mem_view w') (boot_inf_of bc_sample_title) = None
     \<and> files (mem_view w') (boot_bin_of bc_sample_title) = None"
proof -
  have io: "fs_contract (vita_io (bc_sample_sys full_io)) mem_view"
    by (simp add: bc_sample_sys_def full_contract)
  have c: "CHR '':'' \<in> set (take 255 ''ms0:/ISO/NEW.ISO'')"
    by simp
  have p: "path_exists (mem_view bc_sample_mem)
      (converted_path False (config_image (mem_view bc_sample_mem)) ''ms0:/ISO/NEW.ISO'')"
    unfolding bc_sample_path by (rule bc_sample_state(5))
  have n: "\<not> creatable (vita_io (bc_sample_sys full_io)) mem_view (boot_bin_of bc_sample_title)
      (mem_view bc_sample_mem)"
    using bc_sample_state(4)
    by (auto simp: creatable_def bc_sample_sys_def full_io_def path_exists_def mem_view_def)
  obtain s' w' where run: "bc_module_start False (bc_sample_sys full_io) bc_bss_init bc_sample_mem
      = Some (Returns 0, s', w')"
    using bc_module_start_eq [OF io bc_sample_state(1,2,3) bc_sample_readable bc_sample_state(4)
        bc_sample_value c, of False] p by auto
  show ?thesis
    using bc_conversion_loses_input [OF io bc_sample_state(1,2,3) bc_sample_readable bc_sample_state(4)
        bc_sample_value c p n run] run by blast
qed

end
