(* ===== verification/PspBooter.thy ===== *)
theory PspBooter
  imports CFormat SceIo BootInfo Devices
begin

text \<open>
  \<open>booter.prx\<close> (\<open>src/psp/booter/main.c\<close>), the PSP-side module that starts the selected content:
  it reads \<open>boot.bin\<close>, rewrites the Vita path into a memory-stick path, classifies the content by its
  magic numbers and hands it to SystemCtrl. SystemCtrl's and the kernel's services are recorded as
  the list of calls made, in order; the file layer is the parameter \<open>io\<close>.
\<close>

section \<open>Constants and calls\<close>

datatype ContentType = CONTENT_UNKNOWN | CONTENT_ISO | CONTENT_PSP_PBP | CONTENT_NPDRM_PBP | CONTENT_PS1_PBP

fun content_code :: "ContentType \<Rightarrow> int" where
  "content_code CONTENT_UNKNOWN = 0"
| "content_code CONTENT_ISO = 1"
| "content_code CONTENT_PSP_PBP = 2"
| "content_code CONTENT_NPDRM_PBP = 3"
| "content_code CONTENT_PS1_PBP = 4"

definition BOOT_CONFIG_MARCH33 :: "bool \<Rightarrow> int" where
  "BOOT_CONFIG_MARCH33 isage = (if isage then 2 else 1)"

definition BOOT_CONFIG_NP9660 :: "bool \<Rightarrow> int" where
  "BOOT_CONFIG_NP9660 isage = (if isage then 3 else 2)"

definition BOOT_CONFIG_INFERNO :: "bool \<Rightarrow> int" where
  "BOOT_CONFIG_INFERNO isage = (if isage then 4 else 3)"

datatype BubbleDriver = BUBBLE_DRIVER_INFERNO | BUBBLE_DRIVER_MARCH33 | BUBBLE_DRIVER_NP9660

fun driver_code :: "BubbleDriver \<Rightarrow> int" where
  "driver_code BUBBLE_DRIVER_INFERNO = 0"
| "driver_code BUBBLE_DRIVER_MARCH33 = 1"
| "driver_code BUBBLE_DRIVER_NP9660 = 2"

datatype BubbleExecute = BUBBLE_EXECUTE_EBOOT_BIN | BUBBLE_EXECUTE_EBOOT_OLD | BUBBLE_EXECUTE_BOOT_BIN

fun execute_code :: "BubbleExecute \<Rightarrow> int" where
  "execute_code BUBBLE_EXECUTE_EBOOT_BIN = 0"
| "execute_code BUBBLE_EXECUTE_EBOOT_OLD = 1"
| "execute_code BUBBLE_EXECUTE_BOOT_BIN = 2"

datatype apitype = APITYPE_NONE | APITYPE_UMD | APITYPE_UMD_EMU_MS1 | APITYPE_MS2 | APITYPE_MS5

fun apitype_code :: "apitype \<Rightarrow> int" where
  "apitype_code APITYPE_NONE = 0"
| "apitype_code APITYPE_UMD = 0x120"
| "apitype_code APITYPE_UMD_EMU_MS1 = 0x123"
| "apitype_code APITYPE_MS2 = 0x141"
| "apitype_code APITYPE_MS5 = 0x144"

datatype psp_call =
    SetUmdFile "byte list"
  | SetBootConfFileIndex int
  | SetDiscTypeGame
  | MountUmdFromFile "byte list" int int
  | SetParamSfo "byte list"
  | FlushCaches
  | LoadExec int "byte list" nat "byte list" "byte list"

record booter =
  psp_boot_info :: BootInfo
  ps1_title_id :: "byte list"
  k1 :: u32
  calls :: "psp_call list"

definition call :: "psp_call \<Rightarrow> booter \<Rightarrow> booter" where
  "call c b = b\<lparr>calls := calls b @ [c]\<rparr>"

definition pspSdkSetK1 :: "u32 \<Rightarrow> booter \<Rightarrow> u32 \<times> booter" where
  "pspSdkSetK1 v b = (k1 b, b\<lparr>k1 := v\<rparr>)"

section \<open>Launching\<close>

definition select_driver :: "bool \<Rightarrow> i32 \<Rightarrow> booter \<Rightarrow> booter" where
  "select_driver isage d b =
     (if sint d = driver_code BUBBLE_DRIVER_INFERNO
      then call (SetBootConfFileIndex (BOOT_CONFIG_INFERNO isage)) b
      else if sint d = driver_code BUBBLE_DRIVER_MARCH33
      then call (SetBootConfFileIndex (BOOT_CONFIG_MARCH33 isage)) b
      else if sint d = driver_code BUBBLE_DRIVER_NP9660
      then call (SetBootConfFileIndex (BOOT_CONFIG_NP9660 isage)) b
      else b)"

definition execute_path :: "i32 \<Rightarrow> byte list" where
  "execute_path e =
     (if sint e = execute_code BUBBLE_EXECUTE_EBOOT_OLD then ''disc0:/PSP_GAME/SYSDIR/EBOOT.OLD''
      else if sint e = execute_code BUBBLE_EXECUTE_BOOT_BIN then ''disc0:/PSP_GAME/SYSDIR/BOOT.BIN''
      else ''disc0:/PSP_GAME/SYSDIR/EBOOT.BIN'')"

definition prepare_launch ::
  "bool \<Rightarrow> int \<Rightarrow> booter \<Rightarrow> (booter \<times> apitype \<times> byte list option \<times> byte list) option"
where
  "prepare_launch isage type b =
     (if type = content_code CONTENT_NPDRM_PBP then
        Some (call (SetBootConfFileIndex (BOOT_CONFIG_NP9660 isage)) (call (SetUmdFile []) b),
              APITYPE_UMD_EMU_MS1, Some (lit ''disc0:/PSP_GAME/SYSDIR/EBOOT.BIN''), ''umdemu'')
      else if type = content_code CONTENT_ISO then do {
        p \<leftarrow> path_arg (file_path (psp_boot_info b));
        let b = call (SetUmdFile p) b;
        let b = select_driver isage (driver (psp_boot_info b)) b;
        let b = call (MountUmdFromFile p 1 1) (call SetDiscTypeGame b);
        Some (b, APITYPE_UMD, Some (lit (execute_path (execute (psp_boot_info b)))), ''umdemu'') }
      else if type = content_code CONTENT_PSP_PBP then
        Some (b, APITYPE_MS2, Some (file_path (psp_boot_info b)), ''game'')
      else if type = content_code CONTENT_PS1_PBP then do {
        disc \<leftarrow> path_arg (ps1_title_id b);
        Some (call (SetParamSfo disc) b, APITYPE_MS5, Some (file_path (psp_boot_info b)), ''pops'') }
      else Some (b, APITYPE_NONE, None, []))"

definition launch_content :: "bool \<Rightarrow> int \<Rightarrow> booter \<Rightarrow> booter option" where
  "launch_content isage type b = do {
     let (old_k1, b) = pspSdkSetK1 0 b;
     (b, apitype, argp, key) \<leftarrow> prepare_launch isage type b;
     argp \<leftarrow> argp;
     n \<leftarrow> strlen argp;
     let (_, b) = pspSdkSetK1 old_k1 b;
     file \<leftarrow> path_arg (if type = content_code CONTENT_ISO then argp else file_path (psp_boot_info b));
     Some (call (LoadExec (apitype_code apitype) file (n + 1) (cstr argp) key) b) }"

section \<open>Files and paths\<close>

definition pb_read_file ::
  "'w sceio \<Rightarrow> path \<Rightarrow> byte list \<Rightarrow> nat \<Rightarrow> 'w \<Rightarrow> (int \<times> byte list \<times> 'w) option"
where
  "pb_read_file io p buf n w =
     (let (fd, w) = sceIoOpen io p {O_RDONLY} 0 w
      in if 0 \<le> fd
         then let (r, data, w) = sceIoRead io fd n w;
                  (_, w) = sceIoClose io fd w
              in do { buf \<leftarrow> fill buf data; Some (r, buf, w) }
         else Some (fd, buf, w))"

definition pb_path_after_pspemu_device :: "byte list \<Rightarrow> nat option" where
  "pb_path_after_pspemu_device p = do {
     colon \<leftarrow> strrchr p CHR '':'';
     case colon of
       None \<Rightarrow> Some 0
     | Some i \<Rightarrow> if i + 7 \<le> length p then Some (i + 7) else None }"

definition pb_check_file :: "'w sceio \<Rightarrow> path \<Rightarrow> 'w \<Rightarrow> int \<times> 'w" where
  "pb_check_file io p w = sceIoGetstat io p w"

section \<open>Content detection\<close>

definition sizeof_PBPHeader :: nat where
  "sizeof_PBPHeader = 0x28"

definition psar_offset :: "byte list \<Rightarrow> u32" where
  "psar_offset pbp_header = get32 0x24 pbp_header"

definition classify_psar :: "byte list \<Rightarrow> ContentType" where
  "classify_psar header =
     (if take 12 header = ''PSISOIMG0000'' \<or> take 16 header = ''PSTITLEIMG000000'' then CONTENT_PS1_PBP
      else if take 8 header = ''NPUMDIMG'' then CONTENT_NPDRM_PBP
      else CONTENT_PSP_PBP)"

definition detect_content_type ::
  "'w sceio \<Rightarrow> path \<Rightarrow> byte list \<Rightarrow> byte list \<Rightarrow> booter \<Rightarrow> 'w \<Rightarrow> (int \<times> booter \<times> 'w) option"
where
  "detect_content_type io p pbp_header header b w =
     (let (fd, w) = sceIoOpen io p {O_RDONLY} 0 w
      in if 0 \<le> fd then do {
           let (_, data, w) = sceIoRead io fd sizeof_PBPHeader w;
           pbp_header \<leftarrow> fill pbp_header data;
           let (_, w) = sceIoLseek io fd 0 SEEK_SET w;
           let (_, data, w) = sceIoRead io fd 16 w;
           header \<leftarrow> fill header data;
           (type, b, w) \<leftarrow>
             (if take 4 header \<noteq> NUL # ''PBP'' then Some (CONTENT_ISO, b, w)
              else do {
                let (_, w) = sceIoLseek io fd (uint (psar_offset pbp_header)) SEEK_SET w;
                let (_, data, w) = sceIoRead io fd 16 w;
                header \<leftarrow> fill header data;
                if classify_psar header = CONTENT_PS1_PBP then do {
                  let (_, w) = sceIoLseek io fd 0x130 SEEK_SET w;
                  let (_, data, w) = sceIoRead io fd 9 w;
                  disc \<leftarrow> fill (ps1_title_id b) data;
                  Some (CONTENT_PS1_PBP, b\<lparr>ps1_title_id := disc\<rparr>, w) }
                else Some (classify_psar header, b, w) });
           let (_, w) = sceIoClose io fd w;
           Some (content_code type, call FlushCaches b, w) }
         else Some (fd, b, w))"

section \<open>The thread\<close>

datatype thread_exit = ThreadReturns int | FallsThrough

definition memory_stick_path :: "byte list \<Rightarrow> byte list option" where
  "memory_stick_path old = do {
     k \<leftarrow> pb_path_after_pspemu_device old;
     (p, _) \<leftarrow> sprintf (replicate 256 NUL) (lit ''ms0:%s'') [ArgS (drop k old)];
     strncpy old p 255 }"

definition booter_thread ::
  "bool \<Rightarrow> 'w sceio \<Rightarrow> byte list \<Rightarrow> byte list \<Rightarrow> booter \<Rightarrow> 'w \<Rightarrow> (thread_exit \<times> booter \<times> 'w) option"
where
  "booter_thread isage io pbp_header header b w = do {
     (r, image, w) \<leftarrow> pb_read_file io ''ms0:/__APPID__/data/boot.bin'' (boot_info_bytes zero_boot_info)
                        sizeof_BootInfo w;
     let b = b\<lparr>psp_boot_info := boot_info_of_bytes image\<rparr>;
     if 0 \<le> r then do {
       p \<leftarrow> memory_stick_path (file_path (psp_boot_info b));
       let b = b\<lparr>psp_boot_info := (psp_boot_info b)\<lparr>file_path := p\<rparr>\<rparr>;
       content \<leftarrow> path_arg p;
       let (r, w) = pb_check_file io content w;
       if 0 \<le> r then do {
         (type, b, w) \<leftarrow> detect_content_type io content pbp_header header b w;
         if type \<noteq> content_code CONTENT_UNKNOWN then do {
           b \<leftarrow> launch_content isage type b;
           Some (FallsThrough, b, w) }
         else Some (ThreadReturns (-1), b, w) }
       else Some (ThreadReturns (-1), b, w) }
     else Some (ThreadReturns (-1), b, w) }"

definition booter_module_start :: "int \<Rightarrow> bool \<times> int" where
  "booter_module_start thread = (0 \<le> thread, 0)"

definition reference_entry_prefix :: int where
  "reference_entry_prefix = 0"

section \<open>Paths\<close>

lemma memory_stick_path_eq:
  assumes "length old = 256" and s: "cstr old = dev @ CHR '':'' # seg @ rest" "length seg = 6"
      "CHR '':'' \<notin> set seg \<union> set rest"
    and t: "terminated old"
  shows "\<exists>p. memory_stick_path old = Some p \<and> length p = 256 \<and> path_arg p = Some (''ms0:'' @ rest)"
proof -
  have dev: "device_of (cstr old) = dev"
    using s(3) unfolding s(1) by (simp add: device_of_colon)
  obtain tl where old: "old = dev @ CHR '':'' # seg @ rest @ NUL # tl"
    using terminated_split [OF t] unfolding s(1) by auto
  have k: "pb_path_after_pspemu_device old = Some (length dev + 7)"
    using strrchr_colon [OF t] s dev assms(1)
    by (simp add: pb_path_after_pspemu_device_def old)
  note s = s(1) s(2)
  have d: "drop (length dev + 7) old = rest @ NUL # tl"
    using s(2) by (simp add: old)
  have pl: "plain rest"
    using plain_cstr [of old] unfolding s(1) by simp
  have len: "length rest \<le> 248"
    using assms(1) s(2) by (simp add: old)
  have e: "expand (lit ''ms0:%s'') [ArgS (rest @ NUL # tl)] = Some (''ms0:'' @ rest)"
    using pl by (simp add: cstr_append_NUL)
  let ?b = "(''ms0:'' @ rest) @ NUL # drop (Suc (length (''ms0:'' @ rest))) (replicate 256 NUL)"
  have sp: "sprintf (replicate 256 NUL) (lit ''ms0:%s'') [ArgS (rest @ NUL # tl)]
      = Some (?b, int (length (''ms0:'' @ rest)))"
    by (rule sprintf_eq [OF e]) (use len in \<open>simp_all add: SIZE_MAX_def\<close>)
  have cb: "cstr ?b = ''ms0:'' @ rest" "terminated ?b"
    using pl by (simp_all add: cstr_append_NUL)
  let ?p = "take 255 (cstr ?b) @ replicate (255 - length (cstr ?b)) NUL @ drop 255 old"
  have p: "strncpy old ?b 255 = Some ?p"
    using assms(1) cb(2) by (intro strncpy_eq) simp_all
  have "replicate (255 - length (cstr ?b)) NUL = NUL # replicate (254 - length (cstr ?b)) NUL"
    using len unfolding cb(1) by (simp add: Suc_diff_le flip: replicate_Suc)
  then have "path_arg ?p = Some (''ms0:'' @ rest)"
    using pl len unfolding cb(1) by (simp add: path_arg_def cstr_append_NUL)
  moreover have "length ?p = 256"
    using assms(1) len unfolding cb(1) by simp
  moreover have "memory_stick_path old = Some ?p"
    by (simp only: memory_stick_path_def k d sp p Option.bind.bind_lunit prod.case)
  ultimately show ?thesis
    by blast
qed

section \<open>Detection\<close>

definition psar_header :: "byte list \<Rightarrow> byte list" where
  "psar_header d = overlay (take 16 d) (take 16 (drop (unat (psar_offset (take 0x28 d))) d))"

definition content_type_of :: "byte list \<Rightarrow> ContentType" where
  "content_type_of d =
     (if take 4 d \<noteq> NUL # ''PBP'' then CONTENT_ISO else classify_psar (psar_header d))"

lemma detect_content_type_eq:
  assumes io: "fs_contract io V" and f: "files (V w) p = Some d" and len: "0x28 \<le> length d"
    and bufs: "length pbp = 0x28" "length hdr = 16" "length (ps1_title_id b) = 12"
  shows "\<exists>w' disc. detect_content_type io p pbp hdr b w
           = Some (content_code (content_type_of d), call FlushCaches (b\<lparr>ps1_title_id := disc\<rparr>), w')
     \<and> V w' = V w \<and> length disc = 12
     \<and> disc = (if content_type_of d = CONTENT_PS1_PBP
               then overlay (ps1_title_id b) (take 9 (drop 0x130 d)) else ps1_title_id b)"
proof -
  obtain fd w1 where w1: "sceIoOpen io p {O_RDONLY} 0 w = (fd, w1)" "0 \<le> fd"
      "holds V w1 fd p 0 (V w)" "handles (V w) fd = None"
    using open_holds [OF io f, of "{O_RDONLY}" 0] by auto
  obtain w2 where w2: "sceIoRead io fd 0x28 w1 = (0x28, take 0x28 d, w2)" "holds V w2 fd p 0x28 (V w)"
    using read_holds [OF io w1(3) f, of "0x28"] len by auto
  obtain w3 w4 where w4: "sceIoLseek io fd 0 SEEK_SET w2 = (0, w3)"
      "sceIoRead io fd 16 w3 = (16, take 16 d, w4)" "holds V w4 fd p 16 (V w)"
    using seek_read_holds [OF io w2(2) f, of 0 16] len by auto
  have b1: "fill pbp (take 0x28 d) = Some (take 0x28 d)" "fill hdr (take 16 d) = Some (take 16 d)"
    using bufs len by (simp_all add: fill_exact)
  have m: "take 4 (take 16 d) = take 4 d"
    by simp
  have szh: "sizeof_PBPHeader = 0x28"
    by (simp add: sizeof_PBPHeader_def)
  show ?thesis
  proof (cases "take 4 d = NUL # ''PBP''")
    case False
    obtain r w5 where w5: "sceIoClose io fd w4 = (r, w5)" "V w5 = V w"
      using close_holds [OF io w4(3) w1(4)] by blast
    have "detect_content_type io p pbp hdr b w = Some (content_code CONTENT_ISO, call FlushCaches b, w5)"
      using w1(1,2) w2(1) w4(1,2) b1 False w5(1)
      by (simp add: detect_content_type_def szh Let_def)
    then show ?thesis
      using False w5(2) bufs(3) by (intro exI [of _ w5] exI [of _ "ps1_title_id b"]) (simp add: content_type_of_def)
  next
    case True
    let ?off = "uint (psar_offset (take 0x28 d))"
    let ?x = "take 16 (drop (nat ?off) d)"
    have u: "nat ?off = unat (psar_offset (take 0x28 d))"
      by simp
    obtain w5 w6 where w6: "sceIoLseek io fd ?off SEEK_SET w4 = (?off, w5)"
        "sceIoRead io fd 16 w5 = (int (length ?x), ?x, w6)"
        "holds V w6 fd p (nat ?off + length ?x) (V w)"
      using seek_read_holds [OF io w4(3) f, of ?off 16] by auto
    have h: "fill (take 16 d) ?x = Some (psar_header d)"
      using len by (simp add: fill_def psar_header_def u)
    have ty: "content_type_of d = classify_psar (psar_header d)"
      using True by (simp add: content_type_of_def)
    show ?thesis
    proof (cases "classify_psar (psar_header d) = CONTENT_PS1_PBP")
      case False
      obtain r w7 where w7: "sceIoClose io fd w6 = (r, w7)" "V w7 = V w"
        using close_holds [OF io w6(3) w1(4)] by blast
      have "detect_content_type io p pbp hdr b w
          = Some (content_code (content_type_of d), call FlushCaches b, w7)"
        using w1(1,2) w2(1) w4(1,2) b1 True w6(1,2) h False w7(1)
        by (simp add: detect_content_type_def szh Let_def ty)
      then show ?thesis
        using False w7(2) bufs(3)
        by (intro exI [of _ w7] exI [of _ "ps1_title_id b"]) (simp add: ty)
    next
      case ps1: True
      let ?y = "take 9 (drop 0x130 d)"
      obtain w7 w8 where w8: "sceIoLseek io fd 0x130 SEEK_SET w6 = (0x130, w7)"
          "sceIoRead io fd 9 w7 = (int (length ?y), ?y, w8)"
          "holds V w8 fd p (0x130 + length ?y) (V w)"
        using seek_read_holds [OF io w6(3) f, of "0x130" 9] by auto
      obtain r w9 where w9: "sceIoClose io fd w8 = (r, w9)" "V w9 = V w"
        using close_holds [OF io w8(3) w1(4)] by blast
      have y: "fill (ps1_title_id b) ?y = Some (overlay (ps1_title_id b) ?y)"
        "length (overlay (ps1_title_id b) ?y) = 12"
        using bufs(3) by (simp_all add: fill_def)
      have "detect_content_type io p pbp hdr b w
          = Some (content_code (content_type_of d),
                  call FlushCaches (b\<lparr>ps1_title_id := overlay (ps1_title_id b) ?y\<rparr>), w9)"
        using w1(1,2) w2(1) w4(1,2) b1 True w6(1,2) h ps1 w8(1,2) y(1) w9(1)
        by (simp add: detect_content_type_def szh Let_def ty)
      then show ?thesis
        using ps1 w9(2) y(2)
        by (intro exI [of _ w9] exI [of _ "overlay (ps1_title_id b) ?y"]) (simp add: ty)
    qed
  qed
qed

section \<open>Launching\<close>

lemma launch_content_ISO:
  assumes p: "path_arg (file_path (psp_boot_info b)) = Some p"
  shows "launch_content isage (content_code CONTENT_ISO) b
    = Some (b\<lparr>calls := calls b @ [SetUmdFile p]
        @ (if 0 \<le> sint (driver (psp_boot_info b)) \<and> sint (driver (psp_boot_info b)) \<le> 2
           then [SetBootConfFileIndex
             ((if sint (driver (psp_boot_info b)) = 0 then 3 else sint (driver (psp_boot_info b)))
              + (if isage then 1 else 0))] else [])
        @ [SetDiscTypeGame, MountUmdFromFile p 1 1,
           LoadExec 0x120 (execute_path (execute (psp_boot_info b)))
             (length (execute_path (execute (psp_boot_info b))) + 1)
             (execute_path (execute (psp_boot_info b))) ''umdemu'']\<rparr>)"
proof -
  let ?e = "execute_path (execute (psp_boot_info b))" and ?d = "sint (driver (psp_boot_info b))"
  have e: "plain ?e"
    by (simp add: execute_path_def)
  have n: "strlen (lit ?e) = Some (length ?e)" "cstr (lit ?e) = ?e" "path_arg (lit ?e) = Some ?e"
    using e by (simp_all add: strlen_eq cstr_append_NUL)
  have keep: "psp_boot_info (call c x) = psp_boot_info x" "k1 (call c x) = k1 x"
    "calls (call c x) = calls x @ [c]" for c x
    by (simp_all add: call_def)
  consider "?d = 0" | "?d = 1" | "?d = 2" | "\<not> (0 \<le> ?d \<and> ?d \<le> 2)"
    by linarith
  then show ?thesis
    by cases (use p n in \<open>auto simp: launch_content_def prepare_launch_def select_driver_def
      pspSdkSetK1_def Let_def call_def BOOT_CONFIG_INFERNO_def BOOT_CONFIG_MARCH33_def
      BOOT_CONFIG_NP9660_def\<close>)
qed

lemma launch_content_PBP:
  assumes p: "terminated (file_path (psp_boot_info b))"
  defines "content \<equiv> cstr (file_path (psp_boot_info b))"
  shows "launch_content isage (content_code CONTENT_PSP_PBP) b
      = Some (b\<lparr>calls := calls b @ [LoadExec 0x141 content (length content + 1) content ''game'']\<rparr>)"
    and "terminated (ps1_title_id b) \<Longrightarrow> launch_content isage (content_code CONTENT_PS1_PBP) b
      = Some (b\<lparr>calls := calls b @ [SetParamSfo (cstr (ps1_title_id b)),
                LoadExec 0x144 content (length content + 1) content ''pops'']\<rparr>)"
    and "launch_content isage (content_code CONTENT_NPDRM_PBP) b
      = Some (b\<lparr>calls := calls b @ [SetUmdFile [], SetBootConfFileIndex (if isage then 3 else 2),
                LoadExec 0x123 content 33 ''disc0:/PSP_GAME/SYSDIR/EBOOT.BIN'' ''umdemu'']\<rparr>)"
  using p
  by (simp_all add: launch_content_def prepare_launch_def pspSdkSetK1_def Let_def call_def content_def
      strlen_eq path_arg_terminated BOOT_CONFIG_NP9660_def)

lemma launch_content_other:
  "type \<notin> {1, 2, 3, 4} \<Longrightarrow> launch_content isage type b = None"
  by (simp add: launch_content_def prepare_launch_def pspSdkSetK1_def Let_def)

section \<open>The whole thread\<close>

definition psp_boot_bin :: path where
  "psp_boot_bin = ''ms0:/__APPID__/data/boot.bin''"

lemma pb_read_present:
  assumes "fs_contract io V" "files (V w) p = Some d" "n \<le> length buf"
  shows "\<exists>w'. pb_read_file io p buf n w = Some (int (length (take n d)), overlay buf (take n d), w')
           \<and> V w' = V w"
  using read_once [OF assms(1,2), of "{O_RDONLY}" 0 n] assms(3)
  by (auto simp: pb_read_file_def fill_def)

lemma pb_read_boot:
  assumes "fs_contract io V" "files (V w) psp_boot_bin = Some d" "length d = sizeof_BootInfo"
  shows "\<exists>w'. pb_read_file io ''ms0:/__APPID__/data/boot.bin'' (boot_info_bytes zero_boot_info)
             sizeof_BootInfo w = Some (0x140, d, w') \<and> V w' = V w"
  using pb_read_present [OF assms(1,2), of sizeof_BootInfo "boot_info_bytes zero_boot_info"] assms(3)
  by (simp add: psp_boot_bin_def boot_info_bytes_length overlay_same_length)
    (simp add: sizeof_BootInfo_def)

lemma launch_content_total:
  assumes "path_arg (file_path (psp_boot_info b)) = Some p" "terminated (ps1_title_id b)"
    "ct \<noteq> CONTENT_UNKNOWN"
  shows "\<exists>b'. launch_content isage (content_code ct) b = Some b'"
proof -
  have t: "terminated (file_path (psp_boot_info b))"
    using assms(1) by (simp add: path_arg_def split: if_splits)
  show ?thesis
    using assms(2,3) launch_content_ISO [OF assms(1), of isage] launch_content_PBP [OF t, of isage]
    by (cases ct) blast+
qed

lemma content_type_of_known: "content_type_of d \<noteq> CONTENT_UNKNOWN"
  by (simp add: content_type_of_def classify_psar_def)

lemma content_code_0: "content_code ct = 0 \<longleftrightarrow> ct = CONTENT_UNKNOWN"
  by (cases ct) simp_all

lemma booter_thread_launches:
  assumes io: "fs_contract io V" and d: "files (V w) psp_boot_bin = Some d" "length d = sizeof_BootInfo"
    and s: "cstr (file_path (boot_info_of_bytes d)) = dev @ '':pspemu'' @ rest" "CHR '':'' \<notin> set rest"
      "terminated (file_path (boot_info_of_bytes d))"
    and c: "files (V w) (''ms0:'' @ rest) = Some c" "0x28 \<le> length c"
    and b: "ps1_title_id b = replicate 12 NUL" "length pbp = 0x28" "length hdr = 16"
  shows "\<exists>b1 b' w'. booter_thread isage io pbp hdr b w = Some (FallsThrough, b', w') \<and> V w' = V w
     \<and> launch_content isage (content_code (content_type_of c)) b1 = Some b'
     \<and> calls b1 = calls b @ [FlushCaches] \<and> k1 b1 = k1 b
     \<and> path_arg (file_path (psp_boot_info b1)) = Some (''ms0:'' @ rest)
     \<and> (\<exists>p. psp_boot_info b1 = (boot_info_of_bytes d)\<lparr>file_path := p\<rparr>)"
proof -
  let ?c = "''ms0:'' @ rest"
  obtain w1 where w1: "pb_read_file io ''ms0:/__APPID__/data/boot.bin'' (boot_info_bytes zero_boot_info)
      sizeof_BootInfo w = Some (0x140, d, w1)" "V w1 = V w"
    using pb_read_boot [OF io d] by blast
  have "length (file_path (boot_info_of_bytes d)) = 256"
    using boot_info_of_bytes_valid [OF d(2)] by (simp add: valid_boot_info_def)
  moreover have "cstr (file_path (boot_info_of_bytes d)) = dev @ CHR '':'' # ''pspemu'' @ rest"
    "length ''pspemu'' = 6" "CHR '':'' \<notin> set ''pspemu'' \<union> set rest"
    using s(1,2) by simp_all
  ultimately obtain p where
    p: "memory_stick_path (file_path (boot_info_of_bytes d)) = Some p" "path_arg p = Some ?c"
    using memory_stick_path_eq [OF _ _ _ _ s(3)] by blast
  obtain r w2 where w2: "pb_check_file io ?c w1 = (r, w2)" "0 \<le> r" "V w2 = V w"
    using getstat_path [OF io, of ?c w1] c(1) w1(2) by (auto simp: pb_check_file_def)
  have c2: "files (V w2) ?c = Some c"
    using c(1) w2(3) by simp
  let ?b = "b\<lparr>psp_boot_info := (boot_info_of_bytes d)\<lparr>file_path := p\<rparr>\<rparr>"
  have l12: "length (ps1_title_id ?b) = 12"
    by (simp add: b(1))
  obtain w3 disc where w3: "detect_content_type io ?c pbp hdr ?b w2
        = Some (content_code (content_type_of c), call FlushCaches (?b\<lparr>ps1_title_id := disc\<rparr>), w3)"
      "V w3 = V w2" "disc = (if content_type_of c = CONTENT_PS1_PBP
         then overlay (ps1_title_id ?b) (take 9 (drop 0x130 c)) else ps1_title_id ?b)"
    using detect_content_type_eq [OF io c2 c(2) b(2,3) l12] by blast
  let ?b1 = "call FlushCaches (?b\<lparr>ps1_title_id := disc\<rparr>)"
  have "terminated disc"
    unfolding w3(3) by (simp add: b(1) overlay_def min_less_iff_disj)
  then have t: "terminated (ps1_title_id ?b1)"
    by (simp add: call_def)
  have pa: "path_arg (file_path (psp_boot_info ?b1)) = Some ?c"
    using p(2) by (simp add: call_def)
  obtain b' where b': "launch_content isage (content_code (content_type_of c)) ?b1 = Some b'"
    using launch_content_total [OF pa t content_type_of_known] by blast
  have nz: "content_code (content_type_of c) \<noteq> content_code CONTENT_UNKNOWN"
    using content_type_of_known [of c] content_code_0 [of "content_type_of c"] by simp
  have "booter_thread isage io pbp hdr b w = Some (FallsThrough, b', w3)"
    using w1(1) p w2(1,2) w3(1) b' nz by (simp add: booter_thread_def Let_def)
  then show ?thesis
    using b' w3(2) w2(3) pa
    by (intro exI [of _ ?b1] exI [of _ b'] exI [of _ w3]) (auto simp: call_def)
qed

section \<open>Properties\<close>

text \<open>A bubble that starts a UMD image with the raw driver selector 0.\<close>

definition psp_sample_boot :: BootInfo where
  "psp_sample_boot = zero_boot_info\<lparr>execute := 2, file_path := pad_to 256 ''ux0:pspemu/ISO/A.ISO''\<rparr>"

definition psp_sample_iso :: "byte list" where
  "psp_sample_iso = replicate 0x28 CHR ''i''"

definition psp_sample_mem :: mem where
  "psp_sample_mem =
     \<lparr>mfiles = [psp_boot_bin \<mapsto> boot_info_bytes psp_sample_boot, ''ms0:/ISO/A.ISO'' \<mapsto> psp_sample_iso],
      mdirs = [], mhandles = []\<rparr>"

definition psp_idle :: booter where
  "psp_idle = \<lparr>psp_boot_info = zero_boot_info, ps1_title_id = replicate 12 NUL, k1 = 7, calls = []\<rparr>"

lemma psp_sample_facts:
  "files (mem_view psp_sample_mem) psp_boot_bin = Some (boot_info_bytes psp_sample_boot)"
  "length (boot_info_bytes psp_sample_boot) = sizeof_BootInfo"
  "boot_info_of_bytes (boot_info_bytes psp_sample_boot) = psp_sample_boot"
  "cstr (file_path psp_sample_boot) = ''ux0'' @ '':pspemu'' @ ''/ISO/A.ISO''"
  "terminated (file_path psp_sample_boot)"
  "files (mem_view psp_sample_mem) (''ms0:'' @ ''/ISO/A.ISO'') = Some psp_sample_iso"
  "content_type_of psp_sample_iso = CONTENT_ISO"
proof -
  have v: "valid_boot_info psp_sample_boot"
    using zero_boot_info_valid by (simp add: psp_sample_boot_def valid_boot_info_def)
  show "length (boot_info_bytes psp_sample_boot) = sizeof_BootInfo"
    "boot_info_of_bytes (boot_info_bytes psp_sample_boot) = psp_sample_boot"
    using boot_image.enc_length [OF v] boot_image.dec_enc [OF v] by simp_all
  show "cstr (file_path psp_sample_boot) = ''ux0'' @ '':pspemu'' @ ''/ISO/A.ISO''"
    "terminated (file_path psp_sample_boot)"
    by (simp_all add: psp_sample_boot_def cstr_pad_to terminated_pad_to)
  show "files (mem_view psp_sample_mem) psp_boot_bin = Some (boot_info_bytes psp_sample_boot)"
    "files (mem_view psp_sample_mem) (''ms0:'' @ ''/ISO/A.ISO'') = Some psp_sample_iso"
    by (simp_all add: mem_view_def psp_sample_mem_def psp_boot_bin_def)
  show "content_type_of psp_sample_iso = CONTENT_ISO"
    by (simp add: content_type_of_def psp_sample_iso_def eval_nat_numeral)
qed

text \<open>
  C7: the PSP booter starts what \<open>boot.bin\<close> names. Given a complete \<open>boot.bin\<close> whose content lies below
  a device's \<open>pspemu\<close> and whose memory-stick copy exists and holds at least a PBP header, the thread
  has no undefined behaviour, changes no file and leaks no handle, rewrites the path to \<open>ms0:\<close>,
  classifies the content and runs \<open>launch_content\<close> on it after flushing the caches; it then falls off
  its end without a return value.
\<close>

theorem psp_thread_launches:
  assumes "fs_contract io V" and "files (V w) psp_boot_bin = Some d" and "length d = sizeof_BootInfo"
    and "cstr (file_path (boot_info_of_bytes d)) = dev @ '':pspemu'' @ rest" and "CHR '':'' \<notin> set rest"
    and "terminated (file_path (boot_info_of_bytes d))"
    and "files (V w) (''ms0:'' @ rest) = Some c" and "0x28 \<le> length c"
    and "ps1_title_id b = replicate 12 NUL" and "length pbp = 0x28" and "length hdr = 16"
  shows "\<exists>b1 b' w'. booter_thread isage io pbp hdr b w = Some (FallsThrough, b', w') \<and> V w' = V w
     \<and> launch_content isage (content_code (content_type_of c)) b1 = Some b'
     \<and> calls b1 = calls b @ [FlushCaches] \<and> k1 b1 = k1 b
     \<and> path_arg (file_path (psp_boot_info b1)) = Some (''ms0:'' @ rest)
     \<and> (\<exists>p. psp_boot_info b1 = (boot_info_of_bytes d)\<lparr>file_path := p\<rparr>)"
  using assms by (rule booter_thread_launches)

theorem psp_thread_launches_witness:
  "\<exists>b' w'. booter_thread False mem_io (replicate 0x28 NUL) (replicate 16 NUL) psp_idle psp_sample_mem
       = Some (FallsThrough, b', w')
     \<and> calls b' = [FlushCaches, SetUmdFile ''ms0:/ISO/A.ISO'', SetBootConfFileIndex 3, SetDiscTypeGame,
          MountUmdFromFile ''ms0:/ISO/A.ISO'' 1 1,
          LoadExec 0x120 ''disc0:/PSP_GAME/SYSDIR/BOOT.BIN'' 32 ''disc0:/PSP_GAME/SYSDIR/BOOT.BIN'' ''umdemu'']
     \<and> k1 b' = 7"
proof -
  note f = psp_sample_facts
  have h: "cstr (file_path (boot_info_of_bytes (boot_info_bytes psp_sample_boot)))
      = ''ux0'' @ '':pspemu'' @ ''/ISO/A.ISO''" "CHR '':'' \<notin> set ''/ISO/A.ISO''"
    "terminated (file_path (boot_info_of_bytes (boot_info_bytes psp_sample_boot)))"
    "0x28 \<le> length psp_sample_iso" "ps1_title_id psp_idle = replicate 12 NUL"
    "length (replicate 0x28 NUL) = 0x28" "length (replicate 16 NUL) = 16"
    by (simp_all add: f(3-5) psp_sample_iso_def psp_idle_def)
  obtain b1 b' w' p where r:
    "booter_thread False mem_io (replicate 0x28 NUL) (replicate 16 NUL) psp_idle psp_sample_mem
       = Some (FallsThrough, b', w')"
    "launch_content False (content_code CONTENT_ISO) b1 = Some b'"
    "calls b1 = [FlushCaches]" "k1 b1 = 7"
    "path_arg (file_path (psp_boot_info b1)) = Some ''ms0:/ISO/A.ISO''"
    "psp_boot_info b1 = psp_sample_boot\<lparr>file_path := p\<rparr>"
    using psp_thread_launches [OF mem_contract f(1,2) h(1-3) f(6) h(4-7), of False]
    by (auto simp: f(3,7) psp_idle_def)
  have "driver (psp_boot_info b1) = 0" "execute (psp_boot_info b1) = 2"
    by (simp_all add: r(6) psp_sample_boot_def zero_boot_info_eq)
  then show ?thesis
    using r(1-4) launch_content_ISO [OF r(5), of False] by (auto simp: execute_path_def)
qed



text \<open>
  Content detection reads the file's own magic numbers. A file that does not begin with a PBP
  header is an image; a PBP is told apart by the first bytes of its \<open>DATA.PSAR\<close>, at the offset its
  header states; only a PlayStation PBP stores nine bytes of disc id. The file and handles are as
  before.
\<close>

theorem psp_detection:
  assumes "fs_contract io V" and "files (V w) p = Some d" and "0x28 \<le> length d"
    and "length pbp = 0x28" and "length hdr = 16" and "length (ps1_title_id b) = 12"
    and "psar = drop (unat (get32 0x24 (take 0x28 d))) d" and "16 \<le> length psar"
  shows "\<exists>b' w'. detect_content_type io p pbp hdr b w = Some
       (if take 4 d \<noteq> NUL # ''PBP'' then 1
        else if take 12 psar = ''PSISOIMG0000'' \<or> take 16 psar = ''PSTITLEIMG000000'' then 4
        else if take 8 psar = ''NPUMDIMG'' then 3 else 2, b', w')
     \<and> V w' = V w \<and> calls b' = calls b @ [FlushCaches]"
proof -
  have "psar_header d = take 16 psar"
    using assms(3,8) by (simp add: psar_header_def psar_offset_def overlay_same_length assms(7))
  then have "content_code (content_type_of d) = (if take 4 d \<noteq> NUL # ''PBP'' then 1
        else if take 12 psar = ''PSISOIMG0000'' \<or> take 16 psar = ''PSTITLEIMG000000'' then 4
        else if take 8 psar = ''NPUMDIMG'' then 3 else 2)"
    by (simp add: content_type_of_def classify_psar_def)
  then show ?thesis
    using detect_content_type_eq [OF assms(1-6)] by (auto simp: call_def)
qed

definition psp_sample_npdrm :: "byte list" where
  "psp_sample_npdrm = NUL # ''PBP'' @ replicate 0x20 NUL @ le32 0x28 @ ''NPUMDIMG'' @ replicate 8 NUL"

definition psp_npdrm_mem :: mem where
  "psp_npdrm_mem = \<lparr>mfiles = [''ms0:/a'' \<mapsto> psp_sample_npdrm], mdirs = [], mhandles = []\<rparr>"

theorem psp_detection_witness:
  "\<exists>b' w'. detect_content_type mem_io ''ms0:/a'' (replicate 0x28 NUL) (replicate 16 NUL) psp_idle
      psp_npdrm_mem = Some (3, b', w')"
proof -
  have h: "take 0x28 psp_sample_npdrm = NUL # ''PBP'' @ replicate 0x20 NUL @ le32 0x28"
    "drop 0x28 psp_sample_npdrm = ''NPUMDIMG'' @ replicate 8 NUL" "length psp_sample_npdrm = 0x38"
    "take 4 psp_sample_npdrm = NUL # ''PBP''"
    by (simp_all add: psp_sample_npdrm_def)
  have g: "get32 0x24 (take 0x28 psp_sample_npdrm) = 0x28"
    unfolding h(1) by (simp add: get32_def)
  have f: "files (mem_view psp_npdrm_mem) ''ms0:/a'' = Some psp_sample_npdrm"
    by (simp add: mem_view_def psp_npdrm_mem_def)
  have len: "0x28 \<le> length psp_sample_npdrm" "length (replicate 0x28 NUL) = 0x28"
    "length (replicate 16 NUL) = 16" "length (ps1_title_id psp_idle) = 12"
    by (simp_all add: h psp_idle_def)
  have psar: "''NPUMDIMG'' @ replicate 8 NUL = drop (unat (get32 0x24 (take 0x28 psp_sample_npdrm))) psp_sample_npdrm"
    "16 \<le> length (''NPUMDIMG'' @ replicate 8 NUL)"
    unfolding g by (simp_all add: h)
  have "\<exists>b' w'. detect_content_type mem_io ''ms0:/a'' (replicate 0x28 NUL) (replicate 16 NUL) psp_idle
      psp_npdrm_mem = Some
       (if take 4 psp_sample_npdrm \<noteq> NUL # ''PBP'' then 1
        else if take 12 (''NPUMDIMG'' @ replicate 8 NUL) = ''PSISOIMG0000''
             \<or> take 16 (''NPUMDIMG'' @ replicate 8 NUL) = ''PSTITLEIMG000000'' then 4
        else if take 8 (''NPUMDIMG'' @ replicate 8 NUL) = ''NPUMDIMG'' then 3 else 2, b', w')"
    using psp_detection [OF mem_contract f len psar] by blast
  moreover have "take 12 (''NPUMDIMG'' @ replicate 8 NUL) \<noteq> ''PSISOIMG0000''"
    "take 16 (''NPUMDIMG'' @ replicate 8 NUL) \<noteq> ''PSTITLEIMG000000''"
    "take 8 (''NPUMDIMG'' @ replicate 8 NUL) = ''NPUMDIMG''"
    by simp_all
  ultimately show ?thesis
    unfolding h(4) by (simp only: simp_thms if_True if_False)
qed

text \<open>
  Rewriting the path. A 256-byte field that holds a path below some device's \<open>pspemu\<close> becomes the
  same path below \<open>ms0:\<close>, always terminated and inside the field; the seven characters after the last
  colon are skipped unread, so nothing checks that they are \<open>:pspemu\<close>.
\<close>

theorem psp_path_rewrite:
  assumes "length old = 256" and "terminated old" and "cstr old = dev @ CHR '':'' # seg @ rest"
    and "length seg = 6" and "CHR '':'' \<notin> set seg \<union> set rest"
  shows "\<exists>p. memory_stick_path old = Some p \<and> length p = 256 \<and> terminated p \<and> cstr p = ''ms0:'' @ rest"
proof -
  obtain p where "memory_stick_path old = Some p" "length p = 256" "path_arg p = Some (''ms0:'' @ rest)"
    using memory_stick_path_eq [OF assms(1,3,4,5,2)] by blast
  then show ?thesis
    by (auto simp: path_arg_def split: if_splits)
qed

theorem psp_path_rewrite_witness:
  "\<exists>p. memory_stick_path (pad_to 256 ''uma0:pspemu/ISO/A.ISO'') = Some p \<and> cstr p = ''ms0:/ISO/A.ISO''"
proof -
  have h: "length (pad_to 256 ''uma0:pspemu/ISO/A.ISO'') = 256"
    "terminated (pad_to 256 ''uma0:pspemu/ISO/A.ISO'')"
    "cstr (pad_to 256 ''uma0:pspemu/ISO/A.ISO'') = ''uma0'' @ CHR '':'' # ''pspemu'' @ ''/ISO/A.ISO''"
    "length ''pspemu'' = 6" "CHR '':'' \<notin> set ''pspemu'' \<union> set ''/ISO/A.ISO''"
    by (simp_all add: cstr_pad_to terminated_pad_to)
  show ?thesis
    using psp_path_rewrite [OF h] by auto
qed

text \<open>
  Content that exists but cannot be opened is undefined. When the rewritten path names a
  directory, \<open>check_file\<close> succeeds and \<open>sceIoOpen\<close> fails; the negative error is no content type but is
  not \<open>CONTENT_UNKNOWN\<close> either, so it reaches \<open>launch_content\<close>, which measures a null pointer.
\<close>

theorem psp_unopenable_content:
  assumes "fs_contract io V" and "files (V w) psp_boot_bin = Some d" and "length d = sizeof_BootInfo"
    and "cstr (file_path (boot_info_of_bytes d)) = dev @ '':pspemu'' @ rest" and "CHR '':'' \<notin> set rest"
    and "terminated (file_path (boot_info_of_bytes d))"
    and "files (V w) (''ms0:'' @ rest) = None" and "''ms0:'' @ rest \<in> dirs (V w)"
  shows "booter_thread isage io pbp hdr b w = None"
proof -
  let ?c = "''ms0:'' @ rest"
  obtain w1 where w1: "pb_read_file io ''ms0:/__APPID__/data/boot.bin'' (boot_info_bytes zero_boot_info)
      sizeof_BootInfo w = Some (0x140, d, w1)" "V w1 = V w"
    using pb_read_boot [OF assms(1-3)] by blast
  have l: "length (file_path (boot_info_of_bytes d)) = 256"
    using boot_info_of_bytes_valid [OF assms(3)] by (simp add: valid_boot_info_def)
  have seg: "cstr (file_path (boot_info_of_bytes d)) = dev @ CHR '':'' # ''pspemu'' @ rest"
    "length ''pspemu'' = 6" "CHR '':'' \<notin> set ''pspemu'' \<union> set rest"
    using assms(4,5) by simp_all
  obtain p where p: "memory_stick_path (file_path (boot_info_of_bytes d)) = Some p"
      "path_arg p = Some ?c"
    using memory_stick_path_eq [OF l seg assms(6)] by blast
  obtain r w2 where w2: "pb_check_file io ?c w1 = (r, w2)" "0 \<le> r" "V w2 = V w"
    using getstat_path [OF assms(1), of ?c w1] assms(8) w1(2) by (auto simp: pb_check_file_def)
  have f: "files (V w2) ?c = None"
    using assms(7) w2(3) by simp
  obtain fd w3 where w3: "sceIoOpen io ?c {O_RDONLY} 0 w2 = (fd, w3)" "fd < 0"
    using open_missing [OF assms(1) f, of "{O_RDONLY}" 0] by auto
  have det: "detect_content_type io ?c pbp hdr bb w2 = Some (fd, bb, w3)" for bb
    unfolding detect_content_type_def w3(1) using w3(2) by simp
  have launch: "launch_content isage fd bb = None" for bb
    using w3(2) by (intro launch_content_other) auto
  have "fd \<noteq> content_code CONTENT_UNKNOWN"
    using w3(2) by simp
  then show ?thesis
    unfolding booter_thread_def w1(1) using p w2(1,2) det launch by (simp add: Let_def)
qed

definition psp_dir_mem :: mem where
  "psp_dir_mem =
     \<lparr>mfiles = [psp_boot_bin \<mapsto> boot_info_bytes psp_sample_boot], mdirs = [''ms0:/ISO/A.ISO''], mhandles = []\<rparr>"

theorem psp_unopenable_content_witness:
  "booter_thread False mem_io [] [] psp_idle psp_dir_mem = None"
proof -
  note f = psp_sample_facts
  have v: "files (mem_view psp_dir_mem) psp_boot_bin = Some (boot_info_bytes psp_sample_boot)"
    "files (mem_view psp_dir_mem) (''ms0:'' @ ''/ISO/A.ISO'') = None"
    "''ms0:'' @ ''/ISO/A.ISO'' \<in> dirs (mem_view psp_dir_mem)"
    by (simp_all add: mem_view_def psp_dir_mem_def psp_boot_bin_def)
  have h: "cstr (file_path (boot_info_of_bytes (boot_info_bytes psp_sample_boot)))
      = ''ux0'' @ '':pspemu'' @ ''/ISO/A.ISO''" "CHR '':'' \<notin> set ''/ISO/A.ISO''"
    "terminated (file_path (boot_info_of_bytes (boot_info_bytes psp_sample_boot)))"
    by (simp_all add: f(3-5))
  show ?thesis
    by (rule psp_unopenable_content [OF mem_contract v(1) f(2) h v(2,3)])
qed

end
