(* ===== verification/UserUtils.thy ===== *)
theory UserUtils
  imports CFormat SceIo Devices
begin

unbundle bit_operations_syntax

text \<open>
  The helpers of the Adrenaline user module (\<open>overlay/user/utils.c\<close>, with the enumerations of
  \<open>overlay/user/main.h\<close> and \<open>overlay/user/utils.h\<close>): whole-file access, the pad sampler with its edge and
  repeat logic, double clicks, the time and date texts, the memory-stick root, and the Thumb-2
  instruction encoders used to patch the emulator.
\<close>

section \<open>Configuration\<close>

datatype MemoryStickLocations =
    MEMORY_STICK_LOCATION_UX0 | MEMORY_STICK_LOCATION_UR0 | MEMORY_STICK_LOCATION_IMC0
  | MEMORY_STICK_LOCATION_XMC0 | MEMORY_STICK_LOCATION_UMA0

fun location_code :: "MemoryStickLocations \<Rightarrow> int" where
  "location_code MEMORY_STICK_LOCATION_UX0 = 0"
| "location_code MEMORY_STICK_LOCATION_UR0 = 1"
| "location_code MEMORY_STICK_LOCATION_IMC0 = 2"
| "location_code MEMORY_STICK_LOCATION_XMC0 = 3"
| "location_code MEMORY_STICK_LOCATION_UMA0 = 4"

text \<open>The floats of the record are kept as their 32-bit images: nothing here computes with them.\<close>

record AdrenalineConfig =
  cfg_magic :: "i32 list"
  graphics_filtering :: i32
  no_smooth_graphics :: i32
  flux_mode :: i32
  screen_size :: i32
  ms_location :: i32
  use_ds3_ds4 :: i32
  screen_mode :: i32
  skip_logo :: i32
  psp_screen_scale_x :: u32
  psp_screen_scale_y :: u32
  ps1_screen_scale_x :: u32
  ps1_screen_scale_y :: u32
  usbdevice :: i32
  screen_scale_aspect_ratio :: i32
  suspend_threads :: i32

definition ADRENALINE_CFG_MAGIC_1 :: u32 where
  "ADRENALINE_CFG_MAGIC_1 = 0x31483943"

definition ADRENALINE_CFG_MAGIC_2 :: u32 where
  "ADRENALINE_CFG_MAGIC_2 = 0x334F4E33"

definition getPspemuMemoryStickLocation :: "int \<Rightarrow> byte list" where
  "getPspemuMemoryStickLocation location =
     (if location = location_code MEMORY_STICK_LOCATION_UR0 then ''ur0:pspemu''
      else if location = location_code MEMORY_STICK_LOCATION_IMC0 then ''imc0:pspemu''
      else if location = location_code MEMORY_STICK_LOCATION_XMC0 then ''xmc0:pspemu''
      else if location = location_code MEMORY_STICK_LOCATION_UMA0 then ''uma0:pspemu''
      else ''ux0:pspemu'')"

interpretation user_root: location_root getPspemuMemoryStickLocation "'':pspemu''"
proof unfold_locales
  fix l :: int
  consider "l = 1" | "l = 2" | "l = 3" | "l = 4" | "\<not> (1 \<le> l \<and> l \<le> 4)"
    by linarith
  then show "getPspemuMemoryStickLocation l
      = (if 1 \<le> l \<and> l \<le> 4 then location_names ! nat l else ''ux0'') @ '':pspemu''"
    by cases (auto simp: getPspemuMemoryStickLocation_def location_names_def)
qed simp

section \<open>Whole files\<close>

definition ReadFile ::
  "'w sceio \<Rightarrow> path \<Rightarrow> byte list \<Rightarrow> nat \<Rightarrow> 'w \<Rightarrow> (int \<times> byte list \<times> 'w) option"
where
  "ReadFile io p buf n w =
     (let (fd, w) = sceIoOpen io p {O_RDONLY} 0 w
      in if fd < 0 then Some (fd, buf, w)
         else let (r, data, w) = sceIoRead io fd n w;
                  (_, w) = sceIoClose io fd w
              in do { buf \<leftarrow> fill buf data; Some (r, buf, w) })"

definition WriteFile ::
  "'w sceio \<Rightarrow> path \<Rightarrow> byte list \<Rightarrow> nat \<Rightarrow> 'w \<Rightarrow> (int \<times> 'w) option"
where
  "WriteFile io p buf n w =
     (let (fd, w) = sceIoOpen io p {O_WRONLY, O_CREAT, O_TRUNC} 511 w
      in if fd < 0 then Some (fd, w)
         else do {
           data \<leftarrow> bytes_arg buf n;
           let (r, w) = sceIoWrite io fd data w;
           let (_, w) = sceIoClose io fd w;
           Some (r, w) })"

definition CheckFile :: "'w sceio \<Rightarrow> path \<Rightarrow> 'w \<Rightarrow> int \<times> 'w" where
  "CheckFile io p w =
     (let (fd, w) = sceIoOpen io p {O_RDONLY} 0 w
      in if fd < 0 then (fd, w)
         else let (_, w) = sceIoClose io fd w in (0, w))"

section \<open>The pad\<close>

datatype ctrl = CTRL_UP | CTRL_DOWN | CTRL_LEFT | CTRL_RIGHT | CTRL_LTRIGGER | CTRL_RTRIGGER
  | CTRL_TRIANGLE | CTRL_CIRCLE | CTRL_CROSS | CTRL_SQUARE | CTRL_START | CTRL_SELECT
  | CTRL_PSBUTTON | CTRL_POWER

definition ANALOG_CENTER :: int where "ANALOG_CENTER = 128"
definition ANALOG_THRESHOLD :: int where "ANALOG_THRESHOLD = 64"

definition PAD_UP :: nat where "PAD_UP = 0"
definition PAD_DOWN :: nat where "PAD_DOWN = 1"
definition PAD_LEFT :: nat where "PAD_LEFT = 2"
definition PAD_RIGHT :: nat where "PAD_RIGHT = 3"
definition PAD_LTRIGGER :: nat where "PAD_LTRIGGER = 4"
definition PAD_RTRIGGER :: nat where "PAD_RTRIGGER = 5"
definition PAD_TRIANGLE :: nat where "PAD_TRIANGLE = 6"
definition PAD_CIRCLE :: nat where "PAD_CIRCLE = 7"
definition PAD_CROSS :: nat where "PAD_CROSS = 8"
definition PAD_SQUARE :: nat where "PAD_SQUARE = 9"
definition PAD_START :: nat where "PAD_START = 10"
definition PAD_SELECT :: nat where "PAD_SELECT = 11"
definition PAD_PSBUTTON :: nat where "PAD_PSBUTTON = 12"
definition PAD_ENTER :: nat where "PAD_ENTER = 13"
definition PAD_CANCEL :: nat where "PAD_CANCEL = 14"
definition PAD_LEFT_ANALOG_UP :: nat where "PAD_LEFT_ANALOG_UP = 15"
definition PAD_LEFT_ANALOG_DOWN :: nat where "PAD_LEFT_ANALOG_DOWN = 16"
definition PAD_LEFT_ANALOG_LEFT :: nat where "PAD_LEFT_ANALOG_LEFT = 17"
definition PAD_LEFT_ANALOG_RIGHT :: nat where "PAD_LEFT_ANALOG_RIGHT = 18"
definition PAD_RIGHT_ANALOG_UP :: nat where "PAD_RIGHT_ANALOG_UP = 19"
definition PAD_RIGHT_ANALOG_DOWN :: nat where "PAD_RIGHT_ANALOG_DOWN = 20"
definition PAD_RIGHT_ANALOG_LEFT :: nat where "PAD_RIGHT_ANALOG_LEFT = 21"
definition PAD_RIGHT_ANALOG_RIGHT :: nat where "PAD_RIGHT_ANALOG_RIGHT = 22"
definition PAD_N_BUTTONS :: nat where "PAD_N_BUTTONS = 23"

lemmas pad_index_defs =
  PAD_UP_def PAD_DOWN_def PAD_LEFT_def PAD_RIGHT_def PAD_LTRIGGER_def PAD_RTRIGGER_def
  PAD_TRIANGLE_def PAD_CIRCLE_def PAD_CROSS_def PAD_SQUARE_def PAD_START_def PAD_SELECT_def
  PAD_PSBUTTON_def PAD_ENTER_def PAD_CANCEL_def PAD_LEFT_ANALOG_UP_def PAD_LEFT_ANALOG_DOWN_def
  PAD_LEFT_ANALOG_LEFT_def PAD_LEFT_ANALOG_RIGHT_def PAD_RIGHT_ANALOG_UP_def
  PAD_RIGHT_ANALOG_DOWN_def PAD_RIGHT_ANALOG_LEFT_def PAD_RIGHT_ANALOG_RIGHT_def

record SceCtrlData =
  buttons :: u32
  lx :: u8
  ly :: u8
  rx :: u8
  ry :: u8

record pads =
  old_pad :: "u8 list"
  current_pad :: "u8 list"
  pressed_pad :: "u8 list"
  released_pad :: "u8 list"
  hold_pad :: "u8 list"
  hold2_pad :: "u8 list"
  hold_count :: "u8 list"
  hold2_count :: "u8 list"

definition button_bits :: "(ctrl \<times> nat) list" where
  "button_bits =
     [(CTRL_UP, PAD_UP), (CTRL_DOWN, PAD_DOWN), (CTRL_LEFT, PAD_LEFT), (CTRL_RIGHT, PAD_RIGHT),
      (CTRL_LTRIGGER, PAD_LTRIGGER), (CTRL_RTRIGGER, PAD_RTRIGGER), (CTRL_TRIANGLE, PAD_TRIANGLE),
      (CTRL_CIRCLE, PAD_CIRCLE), (CTRL_CROSS, PAD_CROSS), (CTRL_SQUARE, PAD_SQUARE),
      (CTRL_START, PAD_START), (CTRL_SELECT, PAD_SELECT), (CTRL_PSBUTTON, PAD_PSBUTTON)]"

definition set_buttons :: "(ctrl \<Rightarrow> u32) \<Rightarrow> u32 \<Rightarrow> u8 list \<Rightarrow> u8 list" where
  "set_buttons btn b pad =
     fold (\<lambda>(c, i) p. if b AND btn c \<noteq> 0 then p[i := 1] else p) button_bits pad"

definition set_axis :: "u8 \<Rightarrow> nat \<Rightarrow> nat \<Rightarrow> u8 list \<Rightarrow> u8 list" where
  "set_axis v low high pad =
     (if uint v < ANALOG_CENTER - ANALOG_THRESHOLD then pad[low := 1]
      else if uint v > ANALOG_CENTER + ANALOG_THRESHOLD then pad[high := 1]
      else pad)"

definition sample_pad :: "(ctrl \<Rightarrow> u32) \<Rightarrow> SceCtrlData \<Rightarrow> u8 list" where
  "sample_pad btn pad =
     set_axis (rx pad) PAD_RIGHT_ANALOG_LEFT PAD_RIGHT_ANALOG_RIGHT
       (set_axis (ry pad) PAD_RIGHT_ANALOG_UP PAD_RIGHT_ANALOG_DOWN
         (set_axis (lx pad) PAD_LEFT_ANALOG_LEFT PAD_LEFT_ANALOG_RIGHT
           (set_axis (ly pad) PAD_LEFT_ANALOG_UP PAD_LEFT_ANALOG_DOWN
             (set_buttons btn (buttons pad) (replicate PAD_N_BUTTONS 0)))))"

definition step_button :: "nat \<Rightarrow> pads \<Rightarrow> pads" where
  "step_button i s =
     (let pressed = current_pad s ! i AND NOT (old_pad s ! i);
          released = NOT (current_pad s ! i) AND old_pad s ! i;
          s = s\<lparr>pressed_pad := (pressed_pad s)[i := pressed],
                released_pad := (released_pad s)[i := released],
                hold_pad := (hold_pad s)[i := pressed],
                hold2_pad := (hold2_pad s)[i := pressed]\<rparr>
      in if current_pad s ! i \<noteq> 0
         then let s = (if 10 \<le> hold_count s ! i
                       then s\<lparr>hold_pad := (hold_pad s)[i := 1], hold_count := (hold_count s)[i := 6]\<rparr>
                       else s);
                  s = (if 10 \<le> hold2_count s ! i
                       then s\<lparr>hold2_pad := (hold2_pad s)[i := 1], hold2_count := (hold2_count s)[i := 10]\<rparr>
                       else s)
              in s\<lparr>hold_count := (hold_count s)[i := hold_count s ! i + 1],
                   hold2_count := (hold2_count s)[i := hold2_count s ! i + 1]\<rparr>
         else s\<lparr>hold_count := (hold_count s)[i := 0], hold2_count := (hold2_count s)[i := 0]\<rparr>)"

definition copy_button :: "nat \<Rightarrow> nat \<Rightarrow> pads \<Rightarrow> pads" where
  "copy_button dst src s =
     s\<lparr>old_pad := (old_pad s)[dst := old_pad s ! src],
       current_pad := (current_pad s)[dst := current_pad s ! src],
       pressed_pad := (pressed_pad s)[dst := pressed_pad s ! src],
       released_pad := (released_pad s)[dst := released_pad s ! src],
       hold_pad := (hold_pad s)[dst := hold_pad s ! src],
       hold2_pad := (hold2_pad s)[dst := hold2_pad s ! src]\<rparr>"

definition assign_enter :: "bool \<Rightarrow> pads \<Rightarrow> pads" where
  "assign_enter circle s =
     (if circle then copy_button PAD_CANCEL PAD_CROSS (copy_button PAD_ENTER PAD_CIRCLE s)
      else copy_button PAD_CANCEL PAD_CIRCLE (copy_button PAD_ENTER PAD_CROSS s))"

definition readPad :: "(ctrl \<Rightarrow> u32) \<Rightarrow> bool \<Rightarrow> SceCtrlData \<Rightarrow> SceCtrlData \<Rightarrow> pads \<Rightarrow> pads" where
  "readPad btn circle pad home s =
     (let pad = pad\<lparr>buttons := (buttons pad AND NOT (btn CTRL_PSBUTTON))
                                 OR (buttons home AND btn CTRL_PSBUTTON)\<rparr>;
          s = s\<lparr>old_pad := current_pad s\<rparr>;
          s = s\<lparr>current_pad := sample_pad btn pad\<rparr>;
          s = fold step_button [0..<PAD_N_BUTTONS] s
      in assign_enter circle s)"

section \<open>Double clicks\<close>

record clicks =
  old_buttons :: u32
  current_buttons :: u32
  released_buttons :: u32
  last_time :: "64 word"
  clicked :: bool

definition doubleClick ::
  "u32 \<Rightarrow> 64 word \<Rightarrow> u32 \<Rightarrow> 64 word \<Rightarrow> 64 word \<Rightarrow> clicks \<Rightarrow> bool \<times> clicks"
where
  "doubleClick bits max_time pad_buttons now later s =
     (let s = s\<lparr>old_buttons := current_buttons s\<rparr>;
          s = s\<lparr>current_buttons := pad_buttons\<rparr>;
          s = s\<lparr>released_buttons := NOT (current_buttons s) AND old_buttons s\<rparr>
      in if released_buttons s AND bits \<noteq> 0
         then if clicked s
              then if now - last_time s < max_time
                   then (True, s\<lparr>clicked := False, last_time := 0\<rparr>)
                   else (False, s\<lparr>clicked := True, last_time := later\<rparr>)
              else (False, s\<lparr>clicked := True, last_time := now\<rparr>)
         else (False, s))"

definition powerPressed :: "(ctrl \<Rightarrow> u32) \<Rightarrow> SceCtrlData \<Rightarrow> bool" where
  "powerPressed btn pad \<longleftrightarrow> buttons pad AND btn CTRL_POWER \<noteq> 0"

section \<open>Time and date\<close>

record SceDateTime =
  year :: nat
  month :: nat
  day :: nat
  hour :: nat
  minute :: nat

datatype time_format = FORMAT_12HR | FORMAT_24HR
datatype date_format = YYYYMMDD | DDMMYYYY | MMDDYYYY

definition getTimeString ::
  "(SceDateTime \<Rightarrow> SceDateTime) \<Rightarrow> byte list \<Rightarrow> time_format \<Rightarrow> SceDateTime \<Rightarrow> (byte list \<times> int) option"
where
  "getTimeString to_local str fmt time =
     (let t = to_local time
      in case fmt of
           FORMAT_12HR \<Rightarrow>
             snprintf str 16 (lit ''%02d:%02d %s'')
               [ArgD (int (if 12 < hour t then hour t - 12 else if hour t = 0 then 12 else hour t)),
                ArgD (int (minute t)), ArgS (lit (if 12 \<le> hour t then ''PM'' else ''AM''))]
         | FORMAT_24HR \<Rightarrow>
             snprintf str 16 (lit ''%02d:%02d'') [ArgD (int (hour t)), ArgD (int (minute t))])"

definition getDateString ::
  "(SceDateTime \<Rightarrow> SceDateTime) \<Rightarrow> byte list \<Rightarrow> date_format \<Rightarrow> SceDateTime \<Rightarrow> (byte list \<times> int) option"
where
  "getDateString to_local str fmt time =
     (let t = to_local time
      in case fmt of
           YYYYMMDD \<Rightarrow> snprintf str 24 (lit ''%04d/%02d/%02d'')
                         [ArgD (int (year t)), ArgD (int (month t)), ArgD (int (day t))]
         | DDMMYYYY \<Rightarrow> snprintf str 24 (lit ''%02d/%02d/%04d'')
                         [ArgD (int (day t)), ArgD (int (month t)), ArgD (int (year t))]
         | MMDDYYYY \<Rightarrow> snprintf str 24 (lit ''%02d/%02d/%04d'')
                         [ArgD (int (month t)), ArgD (int (day t)), ArgD (int (year t))])"

section \<open>Instruction encoders\<close>

definition THUMB_SHUFFLE :: "u32 \<Rightarrow> u32" where
  "THUMB_SHUFFLE x = drop_bit 16 (x AND 0xFFFF0000) OR push_bit 16 (x AND 0xFFFF)"

definition movw_fields :: "u32 \<Rightarrow> u8 \<Rightarrow> u16 \<Rightarrow> u32" where
  "movw_fields opcode rd imm16 =
     (let imm = ucast imm16 :: u32;
          imm4 = drop_bit 12 imm AND 0xF;
          i = drop_bit 11 imm AND 0x1;
          imm3 = drop_bit 8 imm AND 0x7;
          imm8 = imm AND 0xFF
      in THUMB_SHUFFLE (opcode OR push_bit 8 (ucast rd) OR push_bit 26 i OR push_bit 16 imm4
                        OR push_bit 12 imm3 OR imm8))"

definition encode_movw :: "u8 \<Rightarrow> u16 \<Rightarrow> u32" where
  "encode_movw rd imm16 = movw_fields 0xF2400000 rd imm16"

definition encode_movt :: "u8 \<Rightarrow> u16 \<Rightarrow> u32" where
  "encode_movt rd imm16 = movw_fields 0xF2C00000 rd imm16"

definition encode_bl :: "u32 \<Rightarrow> u32 \<Rightarrow> u32" where
  "encode_bl patch_offset target_offset =
     (let displacement = target_offset - (patch_offset AND NOT 1) - 4;
          signbit = drop_bit 31 displacement AND 1;
          i1 = drop_bit 23 displacement AND 1;
          i2 = drop_bit 22 displacement AND 1;
          imm10 = drop_bit 12 displacement AND 0x03FF;
          imm11 = drop_bit 1 displacement AND 0x07FF;
          j1 = i1 XOR (signbit XOR 1);
          j2 = i2 XOR (signbit XOR 1);
          v = push_bit 26 signbit OR push_bit 13 j1 OR push_bit 11 j2 OR push_bit 16 imm10 OR imm11;
          v = v OR 0xF000D000
      in THUMB_SHUFFLE v)"

section \<open>The pad's invariant\<close>

definition bits01 :: "u8 list \<Rightarrow> bool" where
  "bits01 p \<longleftrightarrow> length p = PAD_N_BUTTONS \<and> set p \<subseteq> {0, 1}"

definition pads_wf :: "pads \<Rightarrow> bool" where
  "pads_wf s \<longleftrightarrow> bits01 (current_pad s)
     \<and> length (pressed_pad s) = PAD_N_BUTTONS \<and> length (released_pad s) = PAD_N_BUTTONS
     \<and> length (hold_pad s) = PAD_N_BUTTONS \<and> length (hold2_pad s) = PAD_N_BUTTONS
     \<and> length (hold_count s) = PAD_N_BUTTONS \<and> length (hold2_count s) = PAD_N_BUTTONS
     \<and> (\<forall>c \<in> set (hold_count s). c \<le> 10) \<and> (\<forall>c \<in> set (hold2_count s). c \<le> 11)"

lemma bits01_update [inv_intros]: "bits01 p \<Longrightarrow> v \<in> {0, 1} \<Longrightarrow> bits01 (p[i := v])"
  using set_update_subset_insert [of p i v] by (auto simp: bits01_def)

lemma bits01_nth: "bits01 p \<Longrightarrow> i < PAD_N_BUTTONS \<Longrightarrow> p ! i = 0 \<or> p ! i = 1"
  unfolding bits01_def by (metis insertE nth_mem singletonD subsetD)

lemma bits01_set_axis [inv_intros]: "bits01 p \<Longrightarrow> bits01 (set_axis v l h p)"
  by (auto simp: set_axis_def intro: bits01_update)

lemma bits01_set_buttons [inv_intros]: "bits01 p \<Longrightarrow> bits01 (set_buttons btn b p)"
proof -
  have "bits01 q \<Longrightarrow> bits01 (fold (\<lambda>(c, i) p. if b AND btn c \<noteq> 0 then p[i := 1] else p) xs q)" for xs q
    by (induction xs arbitrary: q) (simp_all add: bits01_update split: prod.splits)
  then show "bits01 p \<Longrightarrow> bits01 (set_buttons btn b p)"
    by (simp add: set_buttons_def)
qed

lemma bits01_sample: "bits01 (sample_pad btn pad)"
proof -
  have "bits01 (replicate PAD_N_BUTTONS 0)"
    by (auto simp: bits01_def)
  then show ?thesis
    by (simp add: sample_pad_def bits01_set_axis bits01_set_buttons)
qed

text \<open>What one iteration of the loop does to each array.\<close>

definition count_next :: "u8 \<Rightarrow> u8 \<Rightarrow> u8 \<Rightarrow> u8" where
  "count_next restart c n = (if c \<noteq> 0 then (if 10 \<le> n then restart else n) + 1 else 0)"

definition hold_value :: "u8 \<Rightarrow> u8 \<Rightarrow> u8 \<Rightarrow> u8" where
  "hold_value c prev n = (if c \<noteq> 0 \<and> 10 \<le> n then 1 else c AND NOT prev)"

lemma step_button_fields:
  assumes "i < length (hold_count s)" "i < length (hold2_count s)" "i < length (hold_pad s)"
    "i < length (hold2_pad s)"
  shows "old_pad (step_button i s) = old_pad s" "current_pad (step_button i s) = current_pad s"
    "pressed_pad (step_button i s) = (pressed_pad s)[i := current_pad s ! i AND NOT (old_pad s ! i)]"
    "released_pad (step_button i s) = (released_pad s)[i := NOT (current_pad s ! i) AND old_pad s ! i]"
    "hold_pad (step_button i s)
       = (hold_pad s)[i := hold_value (current_pad s ! i) (old_pad s ! i) (hold_count s ! i)]"
    "hold2_pad (step_button i s)
       = (hold2_pad s)[i := hold_value (current_pad s ! i) (old_pad s ! i) (hold2_count s ! i)]"
    "hold_count (step_button i s) = (hold_count s)[i := count_next 6 (current_pad s ! i) (hold_count s ! i)]"
    "hold2_count (step_button i s) = (hold2_count s)[i := count_next 10 (current_pad s ! i) (hold2_count s ! i)]"
  using assms by (simp_all add: step_button_def Let_def count_next_def hold_value_def)

definition pad_lengths :: "pads \<Rightarrow> bool" where
  "pad_lengths s \<longleftrightarrow> length (pressed_pad s) = PAD_N_BUTTONS \<and> length (released_pad s) = PAD_N_BUTTONS
     \<and> length (hold_pad s) = PAD_N_BUTTONS \<and> length (hold2_pad s) = PAD_N_BUTTONS
     \<and> length (hold_count s) = PAD_N_BUTTONS \<and> length (hold2_count s) = PAD_N_BUTTONS"

lemma fold_step_buttons:
  assumes "pad_lengths s" "n \<le> PAD_N_BUTTONS"
  defines "t \<equiv> fold step_button [0..<n] s"
  shows "pad_lengths t \<and> old_pad t = old_pad s \<and> current_pad t = current_pad s
     \<and> (\<forall>i < PAD_N_BUTTONS.
          pressed_pad t ! i = (if i < n then current_pad s ! i AND NOT (old_pad s ! i) else pressed_pad s ! i)
        \<and> released_pad t ! i = (if i < n then NOT (current_pad s ! i) AND old_pad s ! i else released_pad s ! i)
        \<and> hold_pad t ! i = (if i < n then hold_value (current_pad s ! i) (old_pad s ! i) (hold_count s ! i)
                            else hold_pad s ! i)
        \<and> hold2_pad t ! i = (if i < n then hold_value (current_pad s ! i) (old_pad s ! i) (hold2_count s ! i)
                             else hold2_pad s ! i)
        \<and> hold_count t ! i = (if i < n then count_next 6 (current_pad s ! i) (hold_count s ! i)
                              else hold_count s ! i)
        \<and> hold2_count t ! i = (if i < n then count_next 10 (current_pad s ! i) (hold2_count s ! i)
                               else hold2_count s ! i))"
  using assms(2) unfolding t_def
proof (induction n)
  case 0
  then show ?case
    using assms(1) by simp
next
  case (Suc n)
  let ?t = "fold step_button [0..<n] s"
  have IH: "pad_lengths ?t" "old_pad ?t = old_pad s" "current_pad ?t = current_pad s"
    using Suc by simp_all
  have n: "n < PAD_N_BUTTONS"
    using Suc.prems by simp
  have l: "n < length (hold_count ?t)" "n < length (hold2_count ?t)" "n < length (hold_pad ?t)"
    "n < length (hold2_pad ?t)"
    using IH(1) n by (simp_all add: pad_lengths_def)
  note f = step_button_fields [OF l]
  show ?case
    using Suc.IH n IH unfolding upt_Suc_append [OF le0] fold_append comp_def fold.simps id_apply
    by (auto simp: f pad_lengths_def nth_list_update less_Suc_eq)
qed

lemma and_not_01: "c \<in> {0, 1} \<Longrightarrow> q \<in> {0, 1} \<Longrightarrow> c AND NOT q = (if c = 1 \<and> q = 0 then 1 else 0)"
  for c q :: u8
  by auto

lemma count_next_bound:
  "n \<le> 10 \<Longrightarrow> count_next 6 c n \<le> 10" "n \<le> 11 \<Longrightarrow> count_next 10 c n \<le> 11"
  for n :: u8
  unfolding count_next_def by (auto simp: word_le_nat_alt unat_word_ariths)

lemma copy_button_other:
  "i \<noteq> d \<Longrightarrow> current_pad (copy_button d e s) ! i = current_pad s ! i"
  "i \<noteq> d \<Longrightarrow> old_pad (copy_button d e s) ! i = old_pad s ! i"
  "i \<noteq> d \<Longrightarrow> pressed_pad (copy_button d e s) ! i = pressed_pad s ! i"
  "i \<noteq> d \<Longrightarrow> released_pad (copy_button d e s) ! i = released_pad s ! i"
  "i \<noteq> d \<Longrightarrow> hold_pad (copy_button d e s) ! i = hold_pad s ! i"
  "i \<noteq> d \<Longrightarrow> hold2_pad (copy_button d e s) ! i = hold2_pad s ! i"
  "hold_count (copy_button d e s) = hold_count s" "hold2_count (copy_button d e s) = hold2_count s"
  by (simp_all add: copy_button_def)

lemma assign_enter_other:
  assumes "i \<noteq> PAD_ENTER" "i \<noteq> PAD_CANCEL"
  shows "current_pad (assign_enter circle s) ! i = current_pad s ! i"
    "pressed_pad (assign_enter circle s) ! i = pressed_pad s ! i"
    "released_pad (assign_enter circle s) ! i = released_pad s ! i"
    "hold_pad (assign_enter circle s) ! i = hold_pad s ! i"
    "hold2_pad (assign_enter circle s) ! i = hold2_pad s ! i"
    "hold_count (assign_enter circle s) = hold_count s" "hold2_count (assign_enter circle s) = hold2_count s"
  using assms by (simp_all add: assign_enter_def copy_button_other)

definition merged :: "(ctrl \<Rightarrow> u32) \<Rightarrow> SceCtrlData \<Rightarrow> SceCtrlData \<Rightarrow> SceCtrlData" where
  "merged btn pad home =
     pad\<lparr>buttons := (buttons pad AND NOT (btn CTRL_PSBUTTON)) OR (buttons home AND btn CTRL_PSBUTTON)\<rparr>"

lemma readPad_eq:
  "readPad btn circle pad home s = assign_enter circle (fold step_button [0..<PAD_N_BUTTONS]
     (s\<lparr>old_pad := current_pad s, current_pad := sample_pad btn (merged btn pad home)\<rparr>))"
  by (simp add: readPad_def merged_def Let_def)

lemma readPad_at:
  fixes btn :: "ctrl \<Rightarrow> u32" and pad home :: SceCtrlData and circle :: bool
  assumes wf: "pads_wf s" and i: "i < PAD_N_BUTTONS" "i \<noteq> PAD_ENTER" "i \<noteq> PAD_CANCEL"
  defines "c \<equiv> sample_pad btn (merged btn pad home) ! i" and "t \<equiv> readPad btn circle pad home s"
  shows "current_pad t ! i = c" "pressed_pad t ! i = (if c = 1 \<and> current_pad s ! i = 0 then 1 else 0)"
    "released_pad t ! i = (if c = 0 \<and> current_pad s ! i = 1 then 1 else 0)"
    "hold_pad t ! i = (if c = 1 \<and> (10 \<le> hold_count s ! i \<or> current_pad s ! i = 0) then 1 else 0)"
    "hold2_pad t ! i = (if c = 1 \<and> (10 \<le> hold2_count s ! i \<or> current_pad s ! i = 0) then 1 else 0)"
    "hold_count t ! i = count_next 6 c (hold_count s ! i)"
    "hold2_count t ! i = count_next 10 c (hold2_count s ! i)"
proof -
  let ?s = "s\<lparr>old_pad := current_pad s, current_pad := sample_pad btn (merged btn pad home)\<rparr>"
  let ?t = "fold step_button [0..<PAD_N_BUTTONS] ?s"
  have l: "pad_lengths ?s"
    using wf by (simp add: pads_wf_def pad_lengths_def)
  have c: "c \<in> {0, 1}" "current_pad s ! i \<in> {0, 1}"
    using bits01_nth [OF bits01_sample i(1)] bits01_nth [OF _ i(1), of "current_pad s"] wf
    unfolding c_def pads_wf_def by auto
  note f = fold_step_buttons [OF l order_refl, THEN conjunct2, THEN conjunct2, THEN conjunct2, rule_format, OF i(1)]
  have cur: "current_pad ?t = current_pad ?s"
    using fold_step_buttons [OF l order_refl] by blast
  note e = assign_enter_other [OF i(2,3)]
  show "current_pad t ! i = c"
    by (simp add: t_def readPad_eq e cur c_def)
  show "pressed_pad t ! i = (if c = 1 \<and> current_pad s ! i = 0 then 1 else 0)"
    using f i(1) and_not_01 [OF c] by (simp add: t_def readPad_eq e c_def)
  show "released_pad t ! i = (if c = 0 \<and> current_pad s ! i = 1 then 1 else 0)"
    using f i(1) and_not_01 [OF c(2,1)] by (simp add: t_def readPad_eq e c_def and.commute conj_commute)
  show "hold_pad t ! i = (if c = 1 \<and> (10 \<le> hold_count s ! i \<or> current_pad s ! i = 0) then 1 else 0)"
    using f i(1) and_not_01 [OF c] c by (auto simp: t_def readPad_eq e c_def hold_value_def)
  show "hold2_pad t ! i = (if c = 1 \<and> (10 \<le> hold2_count s ! i \<or> current_pad s ! i = 0) then 1 else 0)"
    using f i(1) and_not_01 [OF c] c by (auto simp: t_def readPad_eq e c_def hold_value_def)
  show "hold_count t ! i = count_next 6 c (hold_count s ! i)"
    "hold2_count t ! i = count_next 10 c (hold2_count s ! i)"
    using f i(1) by (simp_all add: t_def readPad_eq e c_def)
qed

lemma pads_wf_copy:
  assumes "pads_wf s" "src < PAD_N_BUTTONS"
  shows "pads_wf (copy_button d src s)"
  using assms bits01_nth [of "current_pad s" src] bits01_update [of "current_pad s"]
  by (auto simp: pads_wf_def copy_button_def)

lemma pads_wf_readPad [inv_intros]:
  assumes wf: "pads_wf s"
  shows "pads_wf (readPad btn circle pad home s)"
proof -
  let ?s = "s\<lparr>old_pad := current_pad s, current_pad := sample_pad btn (merged btn pad home)\<rparr>"
  let ?t = "fold step_button [0..<PAD_N_BUTTONS] ?s"
  have l: "pad_lengths ?s"
    using wf by (simp add: pads_wf_def pad_lengths_def)
  note f = fold_step_buttons [OF l order_refl]
  have lt: "pad_lengths ?t"
    using f by blast
  have cur: "current_pad ?t = sample_pad btn (merged btn pad home)"
    using f by simp
  have h: "c \<le> 10" if c: "c \<in> set (hold_count ?t)" for c
  proof -
    obtain i where "i < length (hold_count ?t)" "c = hold_count ?t ! i"
      using c unfolding in_set_conv_nth by blast
    then have i: "i < PAD_N_BUTTONS" "c = hold_count ?t ! i"
      using lt by (simp_all add: pad_lengths_def)
    have "hold_count s ! i \<le> 10"
      using wf i(1) by (auto simp: pads_wf_def)
    then show ?thesis
      using f i by (simp add: count_next_bound(1))
  qed
  have h2: "c \<le> 11" if c: "c \<in> set (hold2_count ?t)" for c
  proof -
    obtain i where "i < length (hold2_count ?t)" "c = hold2_count ?t ! i"
      using c unfolding in_set_conv_nth by blast
    then have i: "i < PAD_N_BUTTONS" "c = hold2_count ?t ! i"
      using lt by (simp_all add: pad_lengths_def)
    have "hold2_count s ! i \<le> 11"
      using wf i(1) by (auto simp: pads_wf_def)
    then show ?thesis
      using f i by (simp add: count_next_bound(2))
  qed
  have "pads_wf ?t"
    using lt h h2 bits01_sample cur by (simp add: pads_wf_def pad_lengths_def)
  then show ?thesis
    unfolding readPad_eq assign_enter_def
    by (auto simp: pad_index_defs PAD_N_BUTTONS_def intro!: pads_wf_copy)
qed

text \<open>The repeat counters while a button stays down.\<close>

definition count_after :: "nat \<Rightarrow> u8" where
  "count_after k = (if k \<le> 10 then of_nat k else of_nat (7 + (k - 11) mod 4))"

lemma count_after_Suc: "count_next 6 1 (count_after k) = count_after (Suc k)"
proof -
  consider "k < 10" | "k = 10" | "10 < k"
    by linarith
  then show ?thesis
  proof cases
    case 1
    then have "\<not> (10 :: u8) \<le> of_nat k"
      by (simp add: word_le_nat_alt unat_of_nat)
    then show ?thesis
      using 1 by (simp add: count_next_def count_after_def)
  next
    case 2
    then show ?thesis
      by (simp add: count_next_def count_after_def)
  next
    case 3
    define j where "j = (k - 11) mod 4"
    obtain m where m: "k = m + 11"
      using 3 by (metis add.commute le_Suc_ex Suc_leI add_Suc_right eval_nat_numeral(3) numeral_plus_one)
    have j: "j < 4" "(Suc k - 11) mod 4 = (if j = 3 then 0 else Suc j)"
      by (simp_all add: j_def m mod_Suc)
    have "j = 0 \<or> j = 1 \<or> j = 2 \<or> j = 3"
      using j(1) by linarith
    then show ?thesis
      using 3 j(2) by (auto simp: count_next_def count_after_def simp flip: j_def)
  qed
qed

lemma count_after_fires: "10 \<le> count_after k \<longleftrightarrow> 10 \<le> k \<and> 4 dvd (k - 10)"
proof (cases "k \<le> 10")
  case True
  then have "(10 :: u8) \<le> of_nat k \<longleftrightarrow> 10 \<le> k"
    by (simp add: word_le_nat_alt unat_of_nat)
  then show ?thesis
    using True by (auto simp: count_after_def)
next
  case False
  then obtain m where m: "k = m + 11"
    by (metis add.commute le_Suc_ex not_less_eq_eq eval_nat_numeral(3) numeral_plus_one add_Suc_right)
  have j: "m mod 4 = 0 \<or> m mod 4 = 1 \<or> m mod 4 = 2 \<or> m mod 4 = 3"
    by linarith
  have "4 dvd (k - 10) \<longleftrightarrow> m mod 4 = 3"
    unfolding m by presburger
  moreover have "count_after k = of_nat (7 + m mod 4)"
    by (simp add: m count_after_def)
  ultimately show ?thesis
    using j by (auto simp: m)
qed

lemma readPad_iterate:
  fixes btn :: "ctrl \<Rightarrow> u32" and pad home :: SceCtrlData and circle :: bool
  assumes wf: "pads_wf s" and i: "i < PAD_N_BUTTONS" "i \<noteq> PAD_ENTER" "i \<noteq> PAD_CANCEL"
    and up: "current_pad s ! i = 0" "hold_count s ! i = 0"
    and down: "sample_pad btn (merged btn pad home) ! i = 1"
  shows "pads_wf ((readPad btn circle pad home ^^ k) s)
    \<and> current_pad ((readPad btn circle pad home ^^ k) s) ! i = (if k = 0 then 0 else 1)
    \<and> hold_count ((readPad btn circle pad home ^^ k) s) ! i = count_after k"
proof (induction k)
  case 0
  then show ?case
    using wf up by (simp add: count_after_def)
next
  case (Suc k)
  let ?s = "(readPad btn circle pad home ^^ k) s"
  have w: "pads_wf ?s" "hold_count ?s ! i = count_after k"
    using Suc by simp_all
  note r = readPad_at [OF w(1) i, where btn = btn and pad = pad and home = home and circle = circle, unfolded down]
  show ?case
    using r(1,6) pads_wf_readPad [OF w(1)] w(2) by (simp add: count_after_Suc)
qed

section \<open>Properties\<close>

text \<open>
  Pad edges. Sampling keeps the pad state well formed: 0/1 entries, 23 of them, repeat counters of
  at most 10 and 11. For every button but the two derived ones, \<open>pressed\<close> is set exactly when it went
  down since the last sample and \<open>released\<close> exactly when it went up; a press always reports \<open>hold\<close>.
\<close>

theorem pad_edges:
  assumes "pads_wf s" and "i < PAD_N_BUTTONS" and "i \<noteq> PAD_ENTER" and "i \<noteq> PAD_CANCEL"
    and "t = readPad btn circle pad home s"
  shows "pads_wf t
     \<and> (pressed_pad t ! i = 1 \<longleftrightarrow> current_pad t ! i = 1 \<and> current_pad s ! i = 0)
     \<and> (released_pad t ! i = 1 \<longleftrightarrow> current_pad t ! i = 0 \<and> current_pad s ! i = 1)
     \<and> (pressed_pad t ! i = 1 \<longrightarrow> hold_pad t ! i = 1 \<and> hold2_pad t ! i = 1)
     \<and> (hold_pad t ! i = 1 \<longrightarrow> current_pad t ! i = 1)"
  using readPad_at [OF assms(1-4), where btn = btn and circle = circle and pad = pad and home = home]
    pads_wf_readPad [OF assms(1)]
  by (auto simp: assms(5) split: if_splits)

definition idle_pads :: pads where
  "idle_pads =
     \<lparr>old_pad = replicate 23 0, current_pad = replicate 23 0, pressed_pad = replicate 23 0,
      released_pad = replicate 23 0, hold_pad = replicate 23 0, hold2_pad = replicate 23 0,
      hold_count = replicate 23 0, hold2_count = replicate 23 0\<rparr>"

definition sample_bits :: "ctrl \<Rightarrow> u32" where
  "sample_bits c = (if c = CTRL_UP then 1 else if c = CTRL_PSBUTTON then 2 else 0)"

definition sample_data :: SceCtrlData where
  "sample_data = \<lparr>buttons = 1, lx = 128, ly = 128, rx = 128, ry = 128\<rparr>"

lemma idle_pads_wf: "pads_wf idle_pads"
  by (auto simp: pads_wf_def idle_pads_def bits01_def PAD_N_BUTTONS_def)

lemma sample_data_up: "sample_pad sample_bits (merged sample_bits sample_data sample_data) ! PAD_UP = 1"
  by (simp add: sample_pad_def set_axis_def set_buttons_def button_bits_def merged_def sample_data_def
      sample_bits_def pad_index_defs PAD_N_BUTTONS_def ANALOG_CENTER_def ANALOG_THRESHOLD_def)

theorem pad_edges_witness:
  "pressed_pad (readPad sample_bits False sample_data sample_data idle_pads) ! PAD_UP = 1"
proof -
  have i: "PAD_UP < PAD_N_BUTTONS" "PAD_UP \<noteq> PAD_ENTER" "PAD_UP \<noteq> PAD_CANCEL"
    by (simp_all add: PAD_N_BUTTONS_def pad_index_defs)
  have "current_pad (readPad sample_bits False sample_data sample_data idle_pads) ! PAD_UP = 1"
    using readPad_at(1) [OF idle_pads_wf i, where btn = sample_bits and pad = sample_data
        and home = sample_data and circle = False] sample_data_up by simp
  moreover have "current_pad idle_pads ! PAD_UP = 0"
    by (simp add: idle_pads_def pad_index_defs)
  ultimately show ?thesis
    using pad_edges [OF idle_pads_wf i refl] by blast
qed

text \<open>
  Key repeat. A button that goes down and stays down fires \<open>hold\<close> on its first sample, then again
  on the eleventh and every fourth sample after that.
\<close>

theorem pad_repeat:
  fixes btn :: "ctrl \<Rightarrow> u32" and pad home :: SceCtrlData and circle :: bool
  assumes "pads_wf s" and "i < PAD_N_BUTTONS" and "i \<noteq> PAD_ENTER" and "i \<noteq> PAD_CANCEL"
    and "current_pad s ! i = 0" and "hold_count s ! i = 0"
    and "sample_pad btn (merged btn pad home) ! i = 1" and "0 < k"
  shows "hold_pad ((readPad btn circle pad home ^^ k) s) ! i
           = (if k = 1 \<or> 11 \<le> k \<and> 4 dvd (k - 11) then 1 else 0)"
proof -
  obtain m where k: "k = Suc m"
    using assms(8) by (cases k) auto
  let ?s = "(readPad btn circle pad home ^^ m) s"
  have it: "pads_wf ?s" "current_pad ?s ! i = (if m = 0 then 0 else 1)" "hold_count ?s ! i = count_after m"
    using readPad_iterate [OF assms(1-7), where k = m and circle = circle] by blast+
  have "hold_pad (readPad btn circle pad home ?s) ! i = (if 10 \<le> hold_count ?s ! i \<or> current_pad ?s ! i = 0 then 1 else 0)"
    using readPad_at(4) [OF it(1) assms(2-4), where btn = btn and pad = pad and home = home and circle = circle]
    by (simp add: assms(7))
  then show ?thesis
    by (auto simp: k it(2,3) count_after_fires)
qed

theorem pad_repeat_witness:
  "hold_pad ((readPad sample_bits False sample_data sample_data ^^ 15) idle_pads) ! PAD_UP = 1"
proof -
  have i: "PAD_UP < PAD_N_BUTTONS" "PAD_UP \<noteq> PAD_ENTER" "PAD_UP \<noteq> PAD_CANCEL"
    "current_pad idle_pads ! PAD_UP = 0" "hold_count idle_pads ! PAD_UP = 0"
    by (simp_all add: PAD_N_BUTTONS_def pad_index_defs idle_pads_def)
  have "(0 :: nat) < 15"
    by simp
  from pad_repeat [OF idle_pads_wf i sample_data_up this, of False] show ?thesis
    by simp
qed

text \<open>
  The clock text. For a local time of day the 12-hour text is \<open>hh:mm AM\<close> or \<open>hh:mm PM\<close> with an
  hour of 1 to 12 that denotes the same time, the 24-hour text is \<open>hh:mm\<close>; both fit the 16-byte buffer
  and are terminated.
\<close>

theorem time_text:
  assumes "to_local time = t" and "hour t < 24" and "minute t < 60" and "length str = 16"
  shows "\<exists>h out n out' n'. getTimeString to_local str FORMAT_12HR time = Some (out, n)
     \<and> cstr out = [char_of (48 + h div 10), char_of (48 + h mod 10), CHR '':'',
          char_of (48 + minute t div 10), char_of (48 + minute t mod 10), CHR '' '']
          @ (if 12 \<le> hour t then ''PM'' else ''AM'')
     \<and> 1 \<le> h \<and> h \<le> (12 :: nat) \<and> hour t = h mod 12 + (if 12 \<le> hour t then 12 else 0)
     \<and> getTimeString to_local str FORMAT_24HR time = Some (out', n')
     \<and> cstr out' = [char_of (48 + hour t div 10), char_of (48 + hour t mod 10), CHR '':'',
          char_of (48 + minute t div 10), char_of (48 + minute t mod 10)]"
proof -
  let ?h = "if 12 < hour t then hour t - 12 else if hour t = 0 then 12 else hour t"
  let ?ap = "if 12 \<le> hour t then ''PM'' else ''AM''"
  have sd: "signed_decimal (int ?h) 2 CHR ''0'' = [char_of (48 + ?h div 10), char_of (48 + ?h mod 10)]"
    "signed_decimal (int (minute t)) 2 CHR ''0''
       = [char_of (48 + minute t div 10), char_of (48 + minute t mod 10)]"
    "signed_decimal (int (hour t)) 2 CHR ''0'' = [char_of (48 + hour t div 10), char_of (48 + hour t mod 10)]"
    using assms(2,3) by (intro signed_decimal_two_digits; auto)+
  let ?u = "signed_decimal (int ?h) 2 CHR ''0'' @ CHR '':'' # signed_decimal (int (minute t)) 2 CHR ''0''
      @ CHR '' '' # ?ap"
  have e1: "expand (lit ''%02d:%02d %s'') [ArgD (int ?h), ArgD (int (minute t)), ArgS (lit ?ap)] = Some ?u"
    using assms(2,3) by (simp add: cstr_append_NUL)
  let ?v = "signed_decimal (int (hour t)) 2 CHR ''0'' @ CHR '':'' # signed_decimal (int (minute t)) 2 CHR ''0''"
  have e2: "expand (lit ''%02d:%02d'') [ArgD (int (hour t)), ArgD (int (minute t))] = Some ?v"
    using assms(2,3) by simp
  have p: "plain ?u" "plain ?v"
    by simp_all
  have l: "length ?u = 8" "length ?v = 5"
    by (simp_all add: sd)
  obtain out n where o1: "snprintf str 16 (lit ''%02d:%02d %s'') [ArgD (int ?h), ArgD (int (minute t)), ArgS (lit ?ap)]
      = Some (out, n)" "cstr out = ?u"
    using snprintf_fits [OF e1 p(1), of 16 str] assms(4) l(1) by auto
  obtain out' n' where o2: "snprintf str 16 (lit ''%02d:%02d'') [ArgD (int (hour t)), ArgD (int (minute t))]
      = Some (out', n')" "cstr out' = ?v"
    using snprintf_fits [OF e2 p(2), of 16 str] assms(4) l(2) by auto
  have g: "getTimeString to_local str FORMAT_12HR time = Some (out, n)"
    "getTimeString to_local str FORMAT_24HR time = Some (out', n')"
    using o1(1) o2(1) by (simp_all add: getTimeString_def assms(1) Let_def)
  have h: "1 \<le> ?h" "?h \<le> 12" "hour t = ?h mod 12 + (if 12 \<le> hour t then 12 else 0)"
    using assms(2) by auto
  show ?thesis
    by (intro exI [of _ ?h] exI [of _ out] exI [of _ n] exI [of _ out'] exI [of _ n'])
      (use g o1(2) o2(2) h sd in \<open>simp only: append.simps simp_thms\<close>)
qed

definition noon_time :: SceDateTime where
  "noon_time = \<lparr>year = 2018, month = 1, day = 31, hour = 12, minute = 5\<rparr>"

theorem time_text_witness:
  "\<exists>out n. getTimeString (\<lambda>t. t) (replicate 16 NUL) FORMAT_24HR noon_time = Some (out, n)
     \<and> length (cstr out) = 5"
proof -
  have h: "(\<lambda>t. t) noon_time = noon_time" "hour noon_time < 24" "minute noon_time < 60"
    "length (replicate 16 NUL) = 16"
    by (simp_all add: noon_time_def)
  show ?thesis
    using time_text [where to_local = "\<lambda>t. t" and time = noon_time and t = noon_time
        and str = "replicate 16 NUL"] h by auto
qed

lemma lt32_cases:
  "n < 32 \<Longrightarrow> n \<in> {0,1,2,3,4,5,6,7,8,9,10,11,12,13,14,15,16,17,18,19,20,21,22,23,24,25,26,27,28,29,30,31}"
  for n :: nat
  by (simp; presburger)

lemma lt16_cases: "n < 16 \<Longrightarrow> n \<in> {0,1,2,3,4,5,6,7,8,9,10,11,12,13,14,15}" for n :: nat
  by (simp; presburger)

lemma bit_u8_high [simp]: "8 \<le> k \<Longrightarrow> \<not> bit (rd :: u8) k"
  using bit_imp_le_length [of rd k] by auto

lemma bit_u16_high [simp]: "16 \<le> k \<Longrightarrow> \<not> bit (imm :: u16) k"
  using bit_imp_le_length [of imm k] by auto

lemma THUMB_SHUFFLE_bit:
  "bit (THUMB_SHUFFLE x) n \<longleftrightarrow> (if n < 16 then bit x (n + 16) else n < 32 \<and> bit x (n - 16))"
proof (cases "n < 32")
  case True
  from lt32_cases [OF True] show ?thesis
    unfolding THUMB_SHUFFLE_def by (elim insertE emptyE; simp add: bit_simps)
next
  case False
  then show ?thesis
    by (simp add: THUMB_SHUFFLE_def bit_simps)
qed

lemma THUMB_SHUFFLE_invol [simp]: "THUMB_SHUFFLE (THUMB_SHUFFLE x) = x"
  by (rule bit_word_eqI) (auto simp: THUMB_SHUFFLE_bit)

definition movw_imm :: "u32 \<Rightarrow> u16" where
  "movw_imm v = ucast (push_bit 12 (drop_bit 16 v AND 0xF) OR push_bit 11 (drop_bit 26 v AND 1)
                       OR push_bit 8 (drop_bit 12 v AND 7) OR (v AND 0xFF))"

definition movw_rd :: "u32 \<Rightarrow> u8" where
  "movw_rd v = ucast (drop_bit 8 v AND 0xF)"

lemma bit_rd_high: "\<not> bit rd k" if "rd < 16" "4 \<le> k" for rd :: u8
proof -
  have "unat rd < 2 ^ 4"
    using that(1) by (simp add: word_less_nat_alt)
  then have "unat (take_bit 4 rd) = unat rd"
    by (simp only: unsigned_take_bit_eq take_bit_nat_eq_self)
  then have "take_bit 4 rd = rd"
    by (simp only: word_unat_eq_iff)
  then show ?thesis
    using that(2) by (metis bit_take_bit_iff not_less)
qed

lemma movw_imm_fields:
  assumes "opcode \<in> {0xF2400000, 0xF2C00000}" "rd < 16"
  shows "movw_imm (THUMB_SHUFFLE (movw_fields opcode rd imm16)) = imm16"
proof (rule bit_word_eqI)
  fix n assume "n < LENGTH(16)"
  then have "n < 16"
    by simp
  have rd: "\<not> bit rd 4" "\<not> bit rd 5" "\<not> bit rd 6" "\<not> bit rd 7"
    by (rule bit_rd_high [OF assms(2)]; simp)+
  from lt16_cases [OF \<open>n < 16\<close>] assms(1) rd
  show "bit (movw_imm (THUMB_SHUFFLE (movw_fields opcode rd imm16))) n = bit imm16 n"
    unfolding movw_imm_def movw_fields_def Let_def THUMB_SHUFFLE_invol
    by (elim insertE emptyE; simp add: bit_simps)
qed

definition bl_displacement :: "u32 \<Rightarrow> u32" where
  "bl_displacement v =
     (let s = drop_bit 26 v AND 1;
          i1 = (drop_bit 13 v AND 1) XOR s XOR 1;
          i2 = (drop_bit 11 v AND 1) XOR s XOR 1
      in (if s = 1 then 0xFF000000 else 0)
         OR push_bit 23 i1 OR push_bit 22 i2 OR push_bit 12 (drop_bit 16 v AND 0x3FF) OR push_bit 1 (v AND 0x7FF))"

definition bl_reachable :: "u32 \<Rightarrow> bool" where
  "bl_reachable d \<longleftrightarrow> even d \<and> - (2 ^ 24) \<le> sint d \<and> sint d < 2 ^ 24"

lemma bl_reachable_bits:
  assumes "bl_reachable d" "24 \<le> k" "k < 32"
  shows "bit d k = bit d 31"
proof -
  have e: "signed_take_bit 24 (sint d) = sint d"
    using assms(1) by (simp add: bl_reachable_def signed_take_bit_int_eq_self)
  have "bit (signed_take_bit 24 (sint d)) m = bit (sint d) 24" if "24 \<le> m" for m
    using that by (simp add: bit_signed_take_bit_iff min_def)
  note b = this [unfolded e]
  have "bit (sint d) k = bit (sint d) 31"
    by (rule trans [OF b [OF assms(2)] sym [OF b]]) simp
  moreover have w: "bit (sint d) m = bit d m" if "m < 32" for m
    using that by (simp add: bit_sint_iff)
  ultimately show ?thesis
    by (simp only: w [OF assms(3)] w [of 31])
qed

lemma bit_doubled: "bit (a * 2) k \<longleftrightarrow> 0 < k \<and> k < 32 \<and> bit a (k - 1)" for a :: u32
  by (simp add: mult.commute [of a] bit_double_iff) auto

lemma encode_bl_fields:
  assumes "bl_reachable d" and "d = target_offset - (patch_offset AND NOT 1) - 4"
  shows "bl_displacement (THUMB_SHUFFLE (encode_bl patch_offset target_offset)) = d"
proof (rule bit_word_eqI)
  fix n assume n: "n < LENGTH(32)"
  have hi: "bit d 24 = bit d 31" "bit d 25 = bit d 31" "bit d 26 = bit d 31" "bit d 27 = bit d 31"
    "bit d 28 = bit d 31" "bit d 29 = bit d 31" "bit d 30 = bit d 31"
    by (rule bl_reachable_bits [OF assms(1)]; simp)+
  have lo: "\<not> bit d 0"
    using assms(1) by (simp add: bl_reachable_def bit_0)
  define v where "v = THUMB_SHUFFLE (encode_bl patch_offset target_offset)"
  have vb: "v = push_bit 26 (drop_bit 31 d AND 1)
     OR push_bit 13 ((drop_bit 23 d AND 1) XOR (drop_bit 31 d AND 1 XOR 1))
     OR push_bit 11 ((drop_bit 22 d AND 1) XOR (drop_bit 31 d AND 1 XOR 1)) 
     OR push_bit 16 (drop_bit 12 d AND 0x03FF)
     OR (drop_bit 1 d AND 0x07FF) OR 0xF000D000"
     (is "v = ?w")
    by (simp only: v_def encode_bl_def Let_def THUMB_SHUFFLE_invol assms(2) or.assoc)
  have s: "drop_bit 26 v AND 1 = (if bit d 31 then 1 else 0)"
  proof (rule bit_word_eqI)
    fix n assume "n < LENGTH(32)"
    then show "bit (drop_bit 26 v AND 1) n = bit (if bit d 31 then 1 else 0 :: u32) n"
      unfolding vb by (cases "n = 0") (simp_all add: bit_simps)
  qed
  have "n < 32"
    using n by simp
  from lt32_cases [OF this] show "bit (bl_displacement v) n = bit d n"
    unfolding bl_displacement_def Let_def s
    by (elim insertE emptyE; simp add: bit_simps bit_doubled hi lo vb)
      (simp_all add: numeral_2_eq_2 numeral_3_eq_3)
qed

lemma encode_bl_opcode:
  "THUMB_SHUFFLE (encode_bl patch_offset target_offset) AND 0xF800D000 = 0xF000D000"
proof (rule bit_word_eqI)
  fix n assume n: "n < LENGTH(32)"
  have "n < 32"
    using n by simp
  from lt32_cases [OF this]
  show "bit (THUMB_SHUFFLE (encode_bl patch_offset target_offset) AND 0xF800D000) n = bit (0xF000D000 :: u32) n"
    unfolding encode_bl_def Let_def THUMB_SHUFFLE_invol
    by (elim insertE emptyE; simp add: bit_simps)
qed

lemma movw_rd_fields:
  assumes "opcode \<in> {0xF2400000, 0xF2C00000}" "rd < 16"
  shows "movw_rd (THUMB_SHUFFLE (movw_fields opcode rd imm16)) = rd"
proof (rule bit_word_eqI)
  fix n assume "n < LENGTH(8)"
  then have "n < 8"
    by simp
  then have "n < 16"
    by simp
  have rd: "\<not> bit rd 4" "\<not> bit rd 5" "\<not> bit rd 6" "\<not> bit rd 7"
    by (rule bit_rd_high [OF assms(2)]; simp)+
  from lt16_cases [OF \<open>n < 16\<close>] assms(1) rd \<open>n < 8\<close>
  show "bit (movw_rd (THUMB_SHUFFLE (movw_fields opcode rd imm16))) n = bit rd n"
    unfolding movw_rd_def movw_fields_def Let_def THUMB_SHUFFLE_invol
    by (elim insertE emptyE; simp add: bit_simps)
qed

lemma movw_opcode:
  assumes "opcode \<in> {0xF2400000, 0xF2C00000}" "rd < 16"
  shows "THUMB_SHUFFLE (movw_fields opcode rd imm16) AND 0xFBF08000 = opcode"
proof (rule bit_word_eqI)
  fix n assume n: "n < LENGTH(32)"
  have "n < 32"
    using n by simp
  have rd: "\<not> bit rd 4" "\<not> bit rd 5" "\<not> bit rd 6" "\<not> bit rd 7"
    by (rule bit_rd_high [OF assms(2)]; simp)+
  from lt32_cases [OF \<open>n < 32\<close>] assms(1) rd
  show "bit (THUMB_SHUFFLE (movw_fields opcode rd imm16) AND 0xFBF08000) n = bit opcode n"
    unfolding movw_fields_def Let_def THUMB_SHUFFLE_invol
    by (elim insertE emptyE; simp add: bit_simps)
qed

lemma halves_join: "push_bit 16 (ucast (ucast (drop_bit 16 a) :: u16)) OR ucast (ucast a :: u16) = a" for a :: u32
proof (rule bit_word_eqI)
  fix n assume n: "n < LENGTH(32)"
  then show "bit (push_bit 16 (ucast (ucast (drop_bit 16 a) :: u16)) OR ucast (ucast a :: u16) :: u32) n = bit a n"
    by (cases "n < 16") (auto simp: bit_simps)
qed

text \<open>
  Loading an address. The pair \<open>movw rd, #lo16; movt rd, #hi16\<close> that the patches write, decoded as the
  architecture manual decodes it, names the register asked for in both instructions, carries the two opcodes,
  and the two immediates together are the 32-bit address: no field of one instruction spills into another.
\<close>

theorem movw_movt_load:
  fixes address :: u32
  assumes "rd < 16"
  defines "w \<equiv> THUMB_SHUFFLE (encode_movw rd (ucast address))"
    and "t \<equiv> THUMB_SHUFFLE (encode_movt rd (ucast (drop_bit 16 address)))"
  shows "w AND 0xFBF08000 = 0xF2400000 \<and> t AND 0xFBF08000 = 0xF2C00000
     \<and> movw_rd w = rd \<and> movw_rd t = rd
     \<and> push_bit 16 (ucast (movw_imm t)) OR ucast (movw_imm w) = address"
  unfolding w_def t_def encode_movw_def encode_movt_def
  using movw_opcode [OF _ assms(1)] movw_rd_fields [OF _ assms(1)] movw_imm_fields [OF _ assms(1)] halves_join
  by simp

theorem movw_movt_load_witness:
  "push_bit 16 (ucast (movw_imm (THUMB_SHUFFLE (encode_movt 12 0x8100))))
     OR ucast (movw_imm (THUMB_SHUFFLE (encode_movw 12 0x5678))) = (0x81005678 :: u32)"
proof -
  have e: "(0x81005678 :: u16) = 0x5678"
    by (subst word_uint_eq_iff) simp
  have "(12 :: u8) < 16"
    by simp
  from movw_movt_load [OF this, where address = "0x81005678"] show ?thesis
    by (simp add: e)
qed

text \<open>
  The call patched into the emulator. For a target at an even distance of less than 16 MiB from the
  patched place, \<open>encode_bl\<close> produces a Thumb-2 \<open>BL\<close>: its opcode bits are those of the instruction, and the
  displacement the processor decodes from it, added to the address of the next instruction, is the target. The
  Thumb bit of the patched address is ignored.
\<close>

theorem encode_bl_reaches:
  fixes target_offset patch_offset :: u32
  assumes "bl_reachable (target_offset - (patch_offset AND NOT 1) - 4)"
  defines "i \<equiv> THUMB_SHUFFLE (encode_bl patch_offset target_offset)"
  shows "i AND 0xF800D000 = 0xF000D000
     \<and> (patch_offset AND NOT 1) + 4 + bl_displacement i = target_offset"
  unfolding i_def encode_bl_fields [OF assms(1) refl] encode_bl_opcode
  by (simp add: algebra_simps)

theorem encode_bl_reaches_witness:
  "(0x1001 AND NOT 1) + 4 + bl_displacement (THUMB_SHUFFLE (encode_bl 0x1001 0x800)) = 0x800"
proof -
  have "bl_reachable (0x800 - (0x1001 AND NOT 1) - 4)"
    by (simp add: bl_reachable_def)
  from encode_bl_reaches [OF this] show ?thesis
    by blast
qed

end
