(* ===== verification/Slots.thy ===== *)
theory Slots
  imports Prelude
begin

text \<open>
  Tables of descriptors. The file-system drivers keep their open files in a fixed array: opening looks for
  the first free element and stores the new descriptor there, closing marks the element free, and the index is the
  handle the caller gets. The locale \<open>slot_table\<close> states what such a pair of operations promises; its lemmas
  are the handle discipline that follows: a handle given out is fresh, no other handle is disturbed, a lookup
  returns what was stored until the slot is released, and allocation fails exactly when the table is full. The
  memory-stick server and the disc-image driver interpret it on their own arrays.
\<close>

section \<open>The first free slot\<close>

fun first_index :: "('d \<Rightarrow> bool) \<Rightarrow> 'd list \<Rightarrow> nat" where
  "first_index P [] = 0"
| "first_index P (d # ds) = (if P d then 0 else Suc (first_index P ds))"

lemma first_index_le: "first_index P ds \<le> length ds"
  by (induction ds) auto

lemma first_index_none: "first_index P ds = length ds \<longleftrightarrow> (\<forall>d \<in> set ds. \<not> P d)"
  by (induction ds) auto

lemma first_index_some:
  assumes "first_index P ds < length ds"
  shows "P (ds ! first_index P ds)"
  using assms by (induction ds) auto

lemma first_index_before: "j < first_index P ds \<Longrightarrow> \<not> P (ds ! j)"
proof (induction ds arbitrary: j)
  case (Cons d ds)
  then show ?case
    by (cases j) (auto split: if_splits)
qed simp

section \<open>The contract\<close>

locale slot_table =
  fixes unused :: "'d \<Rightarrow> bool"
    and vacate :: "'d \<Rightarrow> 'd"
    and claim :: "'d \<Rightarrow> 'd list \<Rightarrow> (nat \<times> 'd list) option"
    and release :: "nat \<Rightarrow> 'd list \<Rightarrow> 'd list"
  assumes unused_vacate: "unused (vacate d)"
    and claim_full: "claim d ds = None \<longleftrightarrow> (\<forall>x \<in> set ds. \<not> unused x)"
    and claim_slot: "claim d ds = Some (i, ds') \<Longrightarrow>
          i < length ds \<and> unused (ds ! i) \<and> (\<forall>j < i. \<not> unused (ds ! j)) \<and> ds' = ds[i := d]"
    and release_slot: "i < length ds \<Longrightarrow> release i ds = ds[i := vacate (ds ! i)]"
begin

definition live :: "'d list \<Rightarrow> nat set" where
  "live ds = {i. i < length ds \<and> \<not> unused (ds ! i)}"

lemma live_finite [simp]: "finite (live ds)"
  by (rule finite_subset [of _ "{..< length ds}"]) (auto simp: live_def)

lemma live_card: "card (live ds) \<le> length ds"
proof -
  have "card (live ds) \<le> card {..< length ds}"
    by (rule card_mono) (auto simp: live_def)
  then show ?thesis
    by simp
qed

lemma claim_length: "claim d ds = Some (i, ds') \<Longrightarrow> length ds' = length ds"
  by (drule claim_slot) simp

lemma claim_fresh: "claim d ds = Some (i, ds') \<Longrightarrow> i \<notin> live ds"
  by (drule claim_slot) (simp add: live_def)

lemma claim_live:
  assumes "claim d ds = Some (i, ds')" "\<not> unused d"
  shows "live ds' = insert i (live ds)"
proof -
  note c = claim_slot [OF assms(1)]
  then have *: "ds' = ds[i := d]"
    by blast
  show ?thesis
    using conjunct1 [OF c] assms(2) by (auto simp: live_def * nth_list_update)
qed

lemma claim_stored: "claim d ds = Some (i, ds') \<Longrightarrow> ds' ! i = d"
  by (drule claim_slot) simp

lemma claim_others: "claim d ds = Some (i, ds') \<Longrightarrow> j \<noteq> i \<Longrightarrow> ds' ! j = ds ! j"
  by (drule claim_slot) simp

lemma claim_none_iff: "claim d ds = None \<longleftrightarrow> live ds = {..< length ds}"
proof -
  have "(\<forall>x \<in> set ds. \<not> unused x) \<longleftrightarrow> (\<forall>i < length ds. \<not> unused (ds ! i))"
    by (simp add: all_set_conv_all_nth)
  then show ?thesis
    unfolding claim_full by (auto simp: live_def)
qed

lemma claim_succeeds:
  assumes "card (live ds) < length ds"
  obtains i ds' where "claim d ds = Some (i, ds')"
proof -
  have "claim d ds \<noteq> None"
  proof
    assume "claim d ds = None"
    then have "live ds = {..< length ds}"
      by (simp only: claim_none_iff)
    then show False
      using assms by simp
  qed
  then show thesis
    using that by (cases "claim d ds") fastforce+
qed

lemma claim_least:
  assumes "claim d ds = Some (i, ds')" "j < length ds" "j \<notin> live ds"
  shows "i \<le> j"
  using claim_slot [OF assms(1)] assms(2,3) by (metis live_def mem_Collect_eq not_less)

lemma release_live:
  assumes "i < length ds"
  shows "live (release i ds) = live ds - {i}"
  using assms unused_vacate by (auto simp: release_slot live_def nth_list_update)

lemma release_length: "i < length ds \<Longrightarrow> length (release i ds) = length ds"
  by (simp add: release_slot)

lemma release_others: "i < length ds \<Longrightarrow> j \<noteq> i \<Longrightarrow> release i ds ! j = ds ! j"
  by (simp add: release_slot)

lemma release_claim:
  assumes "claim d ds = Some (i, ds')"
  shows "release i ds' = ds[i := vacate d]"
  using claim_slot [OF assms] by (simp add: release_slot)

lemma reclaim:
  assumes "i < length ds" "i \<in> live ds"
  obtains j ds' where "claim d (release i ds) = Some (j, ds')" "j \<le> i"
proof -
  have *: "live (release i ds) \<subset> live ds"
    using assms by (auto simp: release_live)
  then have "card (live (release i ds)) < length (release i ds)"
    using psubset_card_mono [OF live_finite *] live_card [of ds] assms(1) by (simp add: release_length)
  then obtain j ds' where c: "claim d (release i ds) = Some (j, ds')"
    by (rule claim_succeeds)
  moreover have "j \<le> i"
    using claim_least [OF c, of i] assms(1) by (simp add: release_length release_live)
  ultimately show thesis
    by (rule that)
qed

end

end
