(* ===== verification/Msfs.thy ===== *)
theory Msfs
  imports SceIo Slots UserUtils
begin

text \<open>
  The memory-stick server of the user module, \<open>overlay/user/msfs.c\<close>: the emulated PSP sends file requests,
  the server maps their paths to the Vita's file system and keeps one descriptor per open file or directory,
  with what is needed to reopen it after a suspend. C strings that the code only reads are their contents;
  the arrays the code writes keep their size, and a string that does not fit is undefined (\<open>None\<close>). The sizes
  and the kernel constants that come from headers outside the repository are the fields of \<open>msfs_cfg\<close>, and the
  kernel's calls the fields of \<open>msfs_sys\<close>.
\<close>

section \<open>Parameters\<close>

definition MAX_PATH_LENGTH :: nat where
  "MAX_PATH_LENGTH = 1024"

record msfs_cfg =
  MAX_DESCRIPTORS :: nat
  TRANSFER_SIZE :: nat
  MAX_IO_SIZE :: nat
  path_field :: nat
  filter_field :: nat
  ENODEV :: int
  EINVAL :: int
  S_IFDIR :: u32
  S_IFREG :: u32
  S_IRWX :: u32
  SECTOR_SIZE :: u32
  SO_IFDIR :: u32
  SO_IFREG :: u32
  CST_DROPPED :: u32

record SceIoStat =
  st_mode :: u32
  st_attr :: u32
  st_size :: "64 word"
  st_times :: "nat list"

record SceIoDirent =
  d_stat :: SceIoStat
  d_name :: path
  d_private :: u32

record SceIoDevInfo =
  max_size :: "64 word"
  free_size :: "64 word"
  cluster_size :: u32

record ScePspemuIoDevInfo =
  max_clusters :: u32
  free_clusters :: u32
  max_sectors :: u32
  sector_size :: u32
  sector_count :: u32

record 'w msfs_sys =
  host :: "'w sceio"
  sceIoRename :: "path \<Rightarrow> path \<Rightarrow> 'w \<Rightarrow> int \<times> 'w"
  sceIoMkdir :: "path \<Rightarrow> nat \<Rightarrow> 'w \<Rightarrow> int \<times> 'w"
  sceIoRmdir :: "path \<Rightarrow> 'w \<Rightarrow> int \<times> 'w"
  sceIoDopen :: "path \<Rightarrow> 'w \<Rightarrow> int \<times> 'w"
  sceIoDclose :: "int \<Rightarrow> 'w \<Rightarrow> int \<times> 'w"
  sceIoDread :: "int \<Rightarrow> SceIoDirent \<Rightarrow> 'w \<Rightarrow> int \<times> SceIoDirent \<times> 'w"
  sceIoStat :: "path \<Rightarrow> SceIoStat \<Rightarrow> 'w \<Rightarrow> int \<times> SceIoStat \<times> 'w"
  sceIoChstat :: "path \<Rightarrow> SceIoStat \<Rightarrow> u32 \<Rightarrow> 'w \<Rightarrow> int \<times> 'w"
  sceIoDevctl :: "path \<Rightarrow> u32 \<Rightarrow> 'w \<Rightarrow> int \<times> SceIoDevInfo \<times> 'w"
  to_localtime :: "SceIoStat \<Rightarrow> SceIoStat"
  to_utc :: "SceIoStat \<Rightarrow> SceIoStat"
  divide :: "64 word \<Rightarrow> 64 word \<Rightarrow> u32"
  heap :: "nat \<Rightarrow> 'w \<Rightarrow> byte list option"

record msfs_env =
  titleid :: path
  ms_loc :: int

text \<open>A string printed into a buffer of \<open>n\<close> bytes, and one copied into an array of \<open>n\<close> bytes.\<close>

definition printed :: "nat \<Rightarrow> path \<Rightarrow> path" where
  "printed n s = take (n - 1) s"

definition copied :: "nat \<Rightarrow> path \<Rightarrow> path option" where
  "copied n s = (if length s < n then Some s else None)"

lemma printed_id: "length s < n \<Longrightarrow> printed n s = s"
  by (simp add: printed_def)

lemma copied_Some [simp]: "length s < n \<Longrightarrow> copied n s = Some s"
  by (simp add: copied_def)

section \<open>Paths\<close>

definition buildPspemuMsfsPath :: "msfs_env \<Rightarrow> path \<Rightarrow> path" where
  "buildPspemuMsfsPath env in_path =
     (let in_path = (case in_path of c # rest \<Rightarrow> if c = CHR ''/'' then rest else in_path | [] \<Rightarrow> [])
      in if take 14 in_path = ''__ADRENALINE__''
         then printed MAX_PATH_LENGTH (''ux0:app/PSPEMUCFW/'' @ drop 14 in_path)
         else if take 9 in_path = ''__APPID__''
         then printed MAX_PATH_LENGTH (''ux0:app/'' @ titleid env @ ''/'' @ drop 9 in_path)
         else printed MAX_PATH_LENGTH (getPspemuMemoryStickLocation (ms_loc env) @ ''/'' @ in_path))"

section \<open>Descriptors\<close>

record descriptor =
  ds_path :: path
  ds_fd :: int
  ds_flags :: "open_flag set"
  ds_trunc :: bool
  ds_folder :: bool
  ds_extra :: int
  ds_offset :: int
  ds_first_write :: bool
  ds_first_write_offset :: int
  ds_filter :: path

definition blank_descriptor :: descriptor where
  "blank_descriptor = \<lparr>ds_path = [], ds_fd = 0, ds_flags = {}, ds_trunc = False, ds_folder = False,
     ds_extra = 0, ds_offset = 0, ds_first_write = False, ds_first_write_offset = 0, ds_filter = []\<rparr>"

definition free_slot :: "descriptor \<Rightarrow> bool" where
  "free_slot d \<longleftrightarrow> ds_fd d = 0"

definition new_descriptor ::
  "msfs_cfg \<Rightarrow> int \<Rightarrow> path \<Rightarrow> open_flag set \<Rightarrow> bool \<Rightarrow> bool \<Rightarrow> descriptor option"
where
  "new_descriptor cfg fd p flags trunc folder = do {
     p \<leftarrow> copied (path_field cfg) p;
     let d = blank_descriptor\<lparr>ds_path := p, ds_fd := fd, ds_flags := flags, ds_trunc := trunc,
               ds_folder := folder, ds_extra := (if folder then 0 else -1)\<rparr>;
     Some (if p = [] \<or> p = ''/'' then d\<lparr>ds_extra := -1\<rparr> else d) }"

definition claim_descriptor :: "descriptor \<Rightarrow> descriptor list \<Rightarrow> (nat \<times> descriptor list) option" where
  "claim_descriptor d ds =
     (let i = first_index free_slot ds
      in if i = length ds then None else Some (i, ds[i := d]))"

definition ScePspemuMsfsAddDescriptor ::
  "msfs_cfg \<Rightarrow> int \<Rightarrow> path \<Rightarrow> open_flag set \<Rightarrow> bool \<Rightarrow> bool \<Rightarrow> descriptor list
     \<Rightarrow> (int \<times> descriptor list) option"
where
  "ScePspemuMsfsAddDescriptor cfg fd p flags trunc folder ds =
     (if first_index free_slot ds = length ds then Some (-1, ds)
      else do {
        d \<leftarrow> new_descriptor cfg fd p flags trunc folder;
        (i, ds) \<leftarrow> claim_descriptor d ds;
        Some (int i, ds) })"

definition ScePspemuMsfsGetDescriptor :: "int \<Rightarrow> descriptor list \<Rightarrow> descriptor option" where
  "ScePspemuMsfsGetDescriptor i ds =
     (if i < 0 \<or> int (length ds) \<le> i then None else Some (ds ! nat i))"

definition ScePspemuMsfsRemoveDescriptor :: "int \<Rightarrow> descriptor list \<Rightarrow> int \<times> descriptor list" where
  "ScePspemuMsfsRemoveDescriptor i ds =
     (case ScePspemuMsfsGetDescriptor i ds of
        None \<Rightarrow> (-1, ds)
      | Some _ \<Rightarrow> (0, ds[nat i := blank_descriptor]))"

definition release_descriptor :: "nat \<Rightarrow> descriptor list \<Rightarrow> descriptor list" where
  "release_descriptor i ds = snd (ScePspemuMsfsRemoveDescriptor (int i) ds)"

definition put_descriptor :: "int \<Rightarrow> descriptor \<Rightarrow> descriptor list \<Rightarrow> descriptor list" where
  "put_descriptor i d ds = ds[nat i := d]"

interpretation msfs_slots: slot_table free_slot "\<lambda>_. blank_descriptor" claim_descriptor release_descriptor
proof unfold_locales
  show "free_slot blank_descriptor"
    by (simp add: free_slot_def blank_descriptor_def)
next
  fix d ds
  show "claim_descriptor d ds = None \<longleftrightarrow> (\<forall>x \<in> set ds. \<not> free_slot x)"
    by (simp add: claim_descriptor_def Let_def first_index_none)
next
  fix d ds i ds'
  assume "claim_descriptor d ds = Some (i, ds')"
  then have e: "first_index free_slot ds \<noteq> length ds" "i = first_index free_slot ds" "ds' = ds[i := d]"
    by (auto simp: claim_descriptor_def Let_def split: if_splits)
  then have "i < length ds"
    using first_index_le [of free_slot ds] by simp
  then show "i < length ds \<and> free_slot (ds ! i) \<and> (\<forall>j < i. \<not> free_slot (ds ! j)) \<and> ds' = ds[i := d]"
    using first_index_some [of free_slot ds] first_index_before [of _ free_slot ds] e by simp
next
  fix i and ds :: "descriptor list"
  assume "i < length ds"
  then show "release_descriptor i ds = ds[i := blank_descriptor]"
    by (simp add: release_descriptor_def ScePspemuMsfsRemoveDescriptor_def ScePspemuMsfsGetDescriptor_def)
qed

section \<open>Reopening and closing all\<close>

fun close_descriptors :: "'w msfs_sys \<Rightarrow> descriptor list \<Rightarrow> 'w \<Rightarrow> 'w" where
  "close_descriptors sys [] w = w"
| "close_descriptors sys (d # ds) w =
     (if ds_fd d \<noteq> 0
      then let (res, w) = sceIoClose (host sys) (ds_fd d) w;
               w = (if res < 0 then snd (sceIoDclose sys (ds_fd d) w) else w)
           in close_descriptors sys ds w
      else close_descriptors sys ds w)"

definition ScePspemuMsfsCloseAllDescriptors ::
  "'w msfs_sys \<Rightarrow> descriptor list \<Rightarrow> 'w \<Rightarrow> descriptor list \<times> 'w"
where
  "ScePspemuMsfsCloseAllDescriptors sys ds w =
     (replicate (length ds) blank_descriptor, close_descriptors sys ds w)"

definition ScePspemuMsfsReopenFile ::
  "'w msfs_sys \<Rightarrow> msfs_env \<Rightarrow> descriptor \<Rightarrow> 'w \<Rightarrow> int \<times> descriptor \<times> 'w"
where
  "ScePspemuMsfsReopenFile sys env d w =
     (let p = buildPspemuMsfsPath env (ds_path d)
      in if ds_folder d
         then let (fd, w) = sceIoDopen sys p w in (fd, d\<lparr>ds_fd := fd\<rparr>, w)
         else let (fd, w) = sceIoOpen (host sys) p (ds_flags d) 511 w;
                  (_, w) = sceIoLseek (host sys) fd (ds_offset d) SEEK_SET w
              in (fd, d\<lparr>ds_fd := fd\<rparr>, w))"

fun reopen_descriptors ::
  "'w msfs_sys \<Rightarrow> msfs_env \<Rightarrow> descriptor list \<Rightarrow> 'w \<Rightarrow> descriptor list \<times> 'w"
where
  "reopen_descriptors sys env [] w = ([], w)"
| "reopen_descriptors sys env (d # ds) w =
     (let (d, w) = (if ds_fd d \<noteq> 0 then snd (ScePspemuMsfsReopenFile sys env d w) else (d, w));
          (ds, w) = reopen_descriptors sys env ds w
      in (d # ds, w))"

definition ScePspemuMsfsGetFileDescriptors :: "descriptor list \<Rightarrow> descriptor list" where
  "ScePspemuMsfsGetFileDescriptors ds = ds"

definition ScePspemuMsfsSetFileDescriptors ::
  "'w msfs_sys \<Rightarrow> msfs_env \<Rightarrow> descriptor list \<Rightarrow> descriptor list \<Rightarrow> 'w \<Rightarrow> descriptor list \<times> 'w"
where
  "ScePspemuMsfsSetFileDescriptors sys env saved ds w =
     (let (ds, w) = ScePspemuMsfsCloseAllDescriptors sys ds w
      in reopen_descriptors sys env saved w)"

definition ScePspemuMsfsInit :: "'w msfs_sys \<Rightarrow> descriptor list \<Rightarrow> 'w \<Rightarrow> int \<times> descriptor list \<times> 'w" where
  "ScePspemuMsfsInit sys ds w = (0, ScePspemuMsfsCloseAllDescriptors sys ds w)"

definition ScePspemuMsfsExit :: "'w msfs_sys \<Rightarrow> descriptor list \<Rightarrow> 'w \<Rightarrow> int \<times> descriptor list \<times> 'w" where
  "ScePspemuMsfsExit sys ds w = (0, ScePspemuMsfsCloseAllDescriptors sys ds w)"

section \<open>Opening and closing\<close>

definition TRUNC_SUFFIX :: path where
  "TRUNC_SUFFIX = ''__TRUNC__''"

definition save_truncated :: "'w msfs_sys \<Rightarrow> path \<Rightarrow> 'w \<Rightarrow> (bool \<times> 'w) option" where
  "save_truncated sys p w = do {
     saved \<leftarrow> copied MAX_PATH_LENGTH (p @ TRUNC_SUFFIX);
     let (r, w) = sceIoRename sys p saved w;
     if 0 \<le> r
     then let (fd, w) = sceIoOpen (host sys) p {O_WRONLY, O_CREAT, O_TRUNC} 511 w
          in if 0 \<le> fd then let (_, w) = sceIoClose (host sys) fd w in Some (True, w)
             else Some (False, w)
     else Some (False, w) }"

definition ScePspemuMsfsOpen ::
  "msfs_cfg \<Rightarrow> 'w msfs_sys \<Rightarrow> msfs_env \<Rightarrow> path \<Rightarrow> open_flag set \<Rightarrow> descriptor list \<Rightarrow> 'w
     \<Rightarrow> (int \<times> descriptor list \<times> 'w) option"
where
  "ScePspemuMsfsOpen cfg sys env file flags ds w =
     (let p = buildPspemuMsfsPath env file
      in if file = [] then Some (EINVAL cfg, ds, w)
         else do {
           (trunc, w) \<leftarrow> (if O_TRUNC \<in> flags then save_truncated sys p w else Some (False, w));
           let (fd, w) = sceIoOpen (host sys) p flags 511 w;
           if fd < 0 then Some (fd, ds, w)
           else do {
             (i, ds) \<leftarrow> ScePspemuMsfsAddDescriptor cfg fd file flags trunc False ds;
             Some (i, ds, w) } })"

text \<open>
  The copy loop of the truncation fix. The buffer keeps what a short read leaves of its earlier contents, and
  the whole chunk is written back. \<open>remain\<close> and the chunk are 64-bit and 32-bit signed in the code; the chunk
  is at most \<open>TRANSFER_SIZE\<close>, which fits.
\<close>

function copy_back ::
  "msfs_cfg \<Rightarrow> 'w msfs_sys \<Rightarrow> int \<Rightarrow> int \<Rightarrow> int \<Rightarrow> byte list \<Rightarrow> int \<Rightarrow> 'w \<Rightarrow> (int \<times> 'w) option"
where
  "copy_back cfg sys fd out limit buf seek w =
     (let remain = limit - seek;
          buf_size = (if remain < int (TRANSFER_SIZE cfg) then remain else int (TRANSFER_SIZE cfg))
      in if buf_size = 0 then Some (0, w)
         else if buf_size < 0 then None
         else let (r, data, w) = sceIoRead (host sys) fd (nat buf_size) w
              in if r < 0 then Some (r, w)
                 else do {
                   buf \<leftarrow> fill buf data;
                   chunk \<leftarrow> bytes_arg buf (nat buf_size);
                   let (written, w) = sceIoWrite (host sys) out chunk w;
                   if written < 0 then Some (written, w)
                   else if seek + buf_size < limit
                   then copy_back cfg sys fd out limit buf (seek + buf_size) w
                   else Some (0, w) })"
  by pat_completeness auto
termination
  by (relation "measure (\<lambda>(cfg, sys, fd, out, limit, buf, seek, w). nat (limit - seek))") auto

declare copy_back.simps [simp del]

definition ScePspemuMsfsTruncateFix ::
  "msfs_cfg \<Rightarrow> 'w msfs_sys \<Rightarrow> msfs_env \<Rightarrow> descriptor \<Rightarrow> 'w \<Rightarrow> (int \<times> 'w) option"
where
  "ScePspemuMsfsTruncateFix cfg sys env d w = do {
     saved \<leftarrow> copied MAX_PATH_LENGTH (buildPspemuMsfsPath env (ds_path d) @ TRUNC_SUFFIX);
     let (fd, w) = sceIoOpen (host sys) saved {O_RDONLY} 0 w;
     if fd < 0
     then let (_, w) = sceIoRemove (host sys) saved w in Some (fd, w)
     else do {
       let (_, w) = sceIoLseek (host sys) (ds_fd d) 0 SEEK_SET w;
       (res, w) \<leftarrow> (case heap sys (TRANSFER_SIZE cfg) w of
                      None \<Rightarrow> Some (-1, w)
                    | Some buf \<Rightarrow> copy_back cfg sys fd (ds_fd d) (ds_first_write_offset d) buf 0 w);
       let (_, w) = sceIoClose (host sys) fd w;
       let (_, w) = sceIoRemove (host sys) saved w;
       Some (res, w) } }"

definition close_result :: "msfs_cfg \<Rightarrow> int \<Rightarrow> int" where
  "close_result cfg res = (if res = ENODEV cfg then 0 else res)"

definition ScePspemuMsfsClose ::
  "msfs_cfg \<Rightarrow> 'w msfs_sys \<Rightarrow> msfs_env \<Rightarrow> int \<Rightarrow> descriptor list \<Rightarrow> 'w
     \<Rightarrow> (int \<times> descriptor list \<times> 'w) option"
where
  "ScePspemuMsfsClose cfg sys env i ds w =
     (case ScePspemuMsfsGetDescriptor i ds of
        None \<Rightarrow> Some (EINVAL cfg, ds, w)
      | Some d \<Rightarrow> do {
          (res, w) \<leftarrow> (if ds_trunc d then ScePspemuMsfsTruncateFix cfg sys env d w else Some (0, w));
          if res < 0 then Some (res, ds, w)
          else do {
            let (res, w) = sceIoClose (host sys) (ds_fd d) w;
            let res = close_result cfg res;
            Some (res, if 0 \<le> res then snd (ScePspemuMsfsRemoveDescriptor i ds) else ds, w) } })"

section \<open>Reading, writing and seeking\<close>

text \<open>
  A request of \<open>want\<close> bytes is served in chunks. \<open>remain\<close> is the signed 32-bit difference; a chunk that
  comes out negative asks the kernel for more than the buffer holds. When the device has gone away the file
  is reopened once per chunk.
\<close>

definition io_chunk :: "msfs_cfg \<Rightarrow> nat \<Rightarrow> nat \<Rightarrow> int" where
  "io_chunk cfg want seek =
     (let remain = to_int32 (int want - int seek)
      in if remain < int (MAX_IO_SIZE cfg) then remain else int (MAX_IO_SIZE cfg))"

definition read_chunk ::
  "msfs_cfg \<Rightarrow> 'w msfs_sys \<Rightarrow> msfs_env \<Rightarrow> descriptor \<Rightarrow> nat \<Rightarrow> 'w \<Rightarrow> int \<times> byte list \<times> descriptor \<times> 'w"
where
  "read_chunk cfg sys env d n w =
     (let (res, data, w) = sceIoRead (host sys) (ds_fd d) n w
      in if res = ENODEV cfg
         then let (fd, d, w) = ScePspemuMsfsReopenFile sys env d w
              in if 0 \<le> fd
                 then let (res, data, w) = sceIoRead (host sys) (ds_fd d) n w in (res, data, d, w)
                 else (res, data, d, w)
         else (res, data, d, w))"

function read_loop ::
  "msfs_cfg \<Rightarrow> 'w msfs_sys \<Rightarrow> msfs_env \<Rightarrow> nat \<Rightarrow> nat \<Rightarrow> byte list \<Rightarrow> descriptor \<Rightarrow> 'w
     \<Rightarrow> (int \<times> byte list \<times> descriptor \<times> 'w) option"
where
  "read_loop cfg sys env want seek buf d w =
     (let n = io_chunk cfg want seek
      in if n < 0 then None
         else let (res, data, d, w) = read_chunk cfg sys env d (nat n) w
              in if length buf < seek + length data then None
                 else let buf = overlay_at seek buf data
                      in if res < 0 then Some (res, buf, d, w)
                         else if res = 0 then Some (int seek, buf, d, w)
                         else let seek' = seek + nat res;
                                  d = d\<lparr>ds_offset := ds_offset d + res\<rparr>
                              in if seek' < want then read_loop cfg sys env want seek' buf d w
                                 else Some (int seek', buf, d, w))"
  by pat_completeness auto
termination
  by (relation "measure (\<lambda>(cfg, sys, env, want, seek, buf, d, w). want - seek)") auto

declare read_loop.simps [simp del]

definition ScePspemuMsfsRead ::
  "msfs_cfg \<Rightarrow> 'w msfs_sys \<Rightarrow> msfs_env \<Rightarrow> int \<Rightarrow> byte list \<Rightarrow> nat \<Rightarrow> descriptor list \<Rightarrow> 'w
     \<Rightarrow> (int \<times> byte list \<times> descriptor list \<times> 'w) option"
where
  "ScePspemuMsfsRead cfg sys env i buf want ds w =
     (case ScePspemuMsfsGetDescriptor i ds of
        None \<Rightarrow> Some (EINVAL cfg, buf, ds, w)
      | Some d \<Rightarrow> do {
          (res, buf, d, w) \<leftarrow> read_loop cfg sys env want 0 buf d w;
          Some (res, buf, put_descriptor i d ds, w) })"

definition write_chunk ::
  "msfs_cfg \<Rightarrow> 'w msfs_sys \<Rightarrow> msfs_env \<Rightarrow> descriptor \<Rightarrow> byte list \<Rightarrow> 'w \<Rightarrow> int \<times> descriptor \<times> 'w"
where
  "write_chunk cfg sys env d data w =
     (let (res, w) = sceIoWrite (host sys) (ds_fd d) data w
      in if res = ENODEV cfg
         then let (fd, d, w) = ScePspemuMsfsReopenFile sys env d w
              in if 0 \<le> fd
                 then let (res, w) = sceIoWrite (host sys) (ds_fd d) data w in (res, d, w)
                 else (res, d, w)
         else (res, d, w))"

function write_loop ::
  "msfs_cfg \<Rightarrow> 'w msfs_sys \<Rightarrow> msfs_env \<Rightarrow> nat \<Rightarrow> nat \<Rightarrow> byte list \<Rightarrow> descriptor \<Rightarrow> 'w
     \<Rightarrow> (int \<times> descriptor \<times> 'w) option"
where
  "write_loop cfg sys env want seek data d w =
     (let n = io_chunk cfg want seek
      in if n < 0 \<or> length data < seek + nat n then None
         else let (res, d, w) = write_chunk cfg sys env d (take (nat n) (drop seek data)) w
              in if res < 0 then Some (res, d, w)
                 else if res = 0 then Some (int seek, d, w)
                 else let seek' = seek + nat res;
                          d = d\<lparr>ds_offset := ds_offset d + res\<rparr>
                      in if seek' < want then write_loop cfg sys env want seek' data d w
                         else Some (int seek', d, w))"
  by pat_completeness auto
termination
  by (relation "measure (\<lambda>(cfg, sys, env, want, seek, data, d, w). want - seek)") auto

declare write_loop.simps [simp del]

definition note_first_write :: "nat \<Rightarrow> descriptor \<Rightarrow> descriptor" where
  "note_first_write want d =
     (if \<not> ds_first_write d \<and> 0 < want
      then d\<lparr>ds_first_write_offset := ds_offset d, ds_first_write := True\<rparr> else d)"

definition ScePspemuMsfsWrite ::
  "msfs_cfg \<Rightarrow> 'w msfs_sys \<Rightarrow> msfs_env \<Rightarrow> int \<Rightarrow> byte list \<Rightarrow> nat \<Rightarrow> descriptor list \<Rightarrow> 'w
     \<Rightarrow> (int \<times> descriptor list \<times> 'w) option"
where
  "ScePspemuMsfsWrite cfg sys env i data want ds w =
     (case ScePspemuMsfsGetDescriptor i ds of
        None \<Rightarrow> Some (EINVAL cfg, ds, w)
      | Some d \<Rightarrow> do {
          (res, d, w) \<leftarrow> write_loop cfg sys env want 0 data (note_first_write want d) w;
          Some (res, put_descriptor i d ds, w) })"

definition ScePspemuMsfsLseek ::
  "msfs_cfg \<Rightarrow> 'w msfs_sys \<Rightarrow> msfs_env \<Rightarrow> int \<Rightarrow> int \<Rightarrow> seek_whence \<Rightarrow> descriptor list \<Rightarrow> 'w
     \<Rightarrow> int \<times> descriptor list \<times> 'w"
where
  "ScePspemuMsfsLseek cfg sys env i off whence ds w =
     (case ScePspemuMsfsGetDescriptor i ds of
        None \<Rightarrow> (EINVAL cfg, ds, w)
      | Some d \<Rightarrow>
          let (res, w) = sceIoLseek (host sys) (ds_fd d) off whence w;
              (res, d, w) = (if to_int32 res = ENODEV cfg
                             then let (fd, d, w) = ScePspemuMsfsReopenFile sys env d w
                                  in if 0 \<le> fd
                                     then let (res, w) = sceIoLseek (host sys) (ds_fd d) off whence w
                                          in (res, d, w)
                                     else (res, d, w)
                             else (res, d, w));
              d = (if 0 \<le> to_int32 res then d\<lparr>ds_offset := res\<rparr> else d)
          in (res, put_descriptor i d ds, w))"

section \<open>Commands on a file or a path\<close>

definition FILTER_CMD :: u32 where
  "FILTER_CMD = 0x02415050"

definition ScePspemuMsfsIoctl ::
  "msfs_cfg \<Rightarrow> int \<Rightarrow> u32 \<Rightarrow> (nat \<times> path) option \<Rightarrow> descriptor list \<Rightarrow> (int \<times> descriptor list) option"
where
  "ScePspemuMsfsIoctl cfg i cmd indata ds =
     (case ScePspemuMsfsGetDescriptor i ds of
        None \<Rightarrow> Some (EINVAL cfg, ds)
      | Some d \<Rightarrow>
          (case indata of
             Some (inlen, name) \<Rightarrow>
               if cmd = FILTER_CMD \<and> inlen = 4
               then do {
                 name \<leftarrow> copied (filter_field cfg) name;
                 Some (0, put_descriptor i (d\<lparr>ds_filter := name\<rparr>) ds) }
               else Some (EINVAL cfg, ds)
           | None \<Rightarrow> Some (EINVAL cfg, ds)))"

definition ScePspemuMsfsRemove :: "msfs_cfg \<Rightarrow> 'w msfs_sys \<Rightarrow> msfs_env \<Rightarrow> path \<Rightarrow> 'w \<Rightarrow> int \<times> 'w" where
  "ScePspemuMsfsRemove cfg sys env file w =
     (let p = buildPspemuMsfsPath env file
      in if file = [] then (EINVAL cfg, w) else sceIoRemove (host sys) p w)"

definition ScePspemuMsfsMkdir :: "msfs_cfg \<Rightarrow> 'w msfs_sys \<Rightarrow> msfs_env \<Rightarrow> path \<Rightarrow> 'w \<Rightarrow> int \<times> 'w" where
  "ScePspemuMsfsMkdir cfg sys env dir w =
     (let p = buildPspemuMsfsPath env dir
      in if dir = [] then (EINVAL cfg, w) else sceIoMkdir sys p 511 w)"

definition ScePspemuMsfsRmdir :: "msfs_cfg \<Rightarrow> 'w msfs_sys \<Rightarrow> msfs_env \<Rightarrow> path \<Rightarrow> 'w \<Rightarrow> int \<times> 'w" where
  "ScePspemuMsfsRmdir cfg sys env dir w =
     (let p = buildPspemuMsfsPath env dir
      in if dir = [] then (EINVAL cfg, w) else sceIoRmdir sys p w)"

definition ScePspemuMsfsDopen ::
  "msfs_cfg \<Rightarrow> 'w msfs_sys \<Rightarrow> msfs_env \<Rightarrow> path \<Rightarrow> descriptor list \<Rightarrow> 'w \<Rightarrow> (int \<times> descriptor list \<times> 'w) option"
where
  "ScePspemuMsfsDopen cfg sys env dirname ds w =
     (let (dfd, w) = sceIoDopen sys (buildPspemuMsfsPath env dirname) w
      in if dfd < 0 then Some (dfd, ds, w)
         else do {
           (i, ds) \<leftarrow> ScePspemuMsfsAddDescriptor cfg dfd dirname {} False True ds;
           Some (i, ds, w) })"

definition ScePspemuMsfsDclose ::
  "msfs_cfg \<Rightarrow> 'w msfs_sys \<Rightarrow> int \<Rightarrow> descriptor list \<Rightarrow> 'w \<Rightarrow> int \<times> descriptor list \<times> 'w"
where
  "ScePspemuMsfsDclose cfg sys i ds w =
     (case ScePspemuMsfsGetDescriptor i ds of
        None \<Rightarrow> (EINVAL cfg, ds, w)
      | Some d \<Rightarrow>
          let (res, w) = sceIoDclose sys (ds_fd d) w;
              res = close_result cfg res
          in (res, if 0 \<le> res then snd (ScePspemuMsfsRemoveDescriptor i ds) else ds, w))"

definition convertFileStat :: "msfs_cfg \<Rightarrow> 'w msfs_sys \<Rightarrow> SceIoStat \<Rightarrow> SceIoStat" where
  "convertFileStat cfg sys st =
     (let st = (if st_mode st AND S_IFDIR cfg \<noteq> 0 then st\<lparr>st_attr := st_attr st OR SO_IFDIR cfg\<rparr> else st);
          st = (if st_mode st AND S_IFREG cfg \<noteq> 0 then st\<lparr>st_attr := st_attr st OR SO_IFREG cfg\<rparr> else st)
      in to_localtime sys st)"

definition ScePspemuMsfsGetstat ::
  "msfs_cfg \<Rightarrow> 'w msfs_sys \<Rightarrow> msfs_env \<Rightarrow> path \<Rightarrow> SceIoStat \<Rightarrow> 'w \<Rightarrow> int \<times> SceIoStat \<times> 'w"
where
  "ScePspemuMsfsGetstat cfg sys env file st w =
     (let p = buildPspemuMsfsPath env file
      in if file = [] then (EINVAL cfg, st, w)
         else let (res, st, w) = sceIoStat sys p st w in (res, convertFileStat cfg sys st, w))"

definition ScePspemuMsfsChstat ::
  "msfs_cfg \<Rightarrow> 'w msfs_sys \<Rightarrow> msfs_env \<Rightarrow> path \<Rightarrow> SceIoStat \<Rightarrow> u32 \<Rightarrow> 'w \<Rightarrow> int \<times> 'w"
where
  "ScePspemuMsfsChstat cfg sys env file st bits w =
     (let p = buildPspemuMsfsPath env file
      in if file = [] then (EINVAL cfg, w)
         else let bits = bits AND NOT (CST_DROPPED cfg);
                  st = st\<lparr>st_attr := 0\<rparr>;
                  st = to_utc sys st
              in sceIoChstat sys p st bits w)"

definition before_last_slash :: "path \<Rightarrow> path option" where
  "before_last_slash p =
     (if CHR ''/'' \<in> set p then Some (rev (tl (dropWhile (\<lambda>c. c \<noteq> CHR ''/'') (rev p)))) else None)"

definition ScePspemuMsfsRename ::
  "msfs_cfg \<Rightarrow> 'w msfs_sys \<Rightarrow> msfs_env \<Rightarrow> path \<Rightarrow> path \<Rightarrow> 'w \<Rightarrow> int \<times> 'w"
where
  "ScePspemuMsfsRename cfg sys env oldname newname w =
     (let old_path = buildPspemuMsfsPath env oldname;
          new_path = buildPspemuMsfsPath env newname
      in if oldname = [] \<or> newname = [] then (EINVAL cfg, w)
         else if CHR ''/'' \<notin> set newname
         then (case before_last_slash old_path of
                 None \<Rightarrow> (EINVAL cfg, w)
               | Some dir \<Rightarrow> sceIoRename sys old_path (printed MAX_PATH_LENGTH (dir @ ''/'' @ newname)) w)
         else sceIoRename sys old_path new_path w)"

definition ScePspemuMsfsChdir :: "path \<Rightarrow> int" where
  "ScePspemuMsfsChdir p = -1"

definition devctl_device :: "int \<Rightarrow> path" where
  "devctl_device location =
     (if location = location_code MEMORY_STICK_LOCATION_UR0 then ''ur0:''
      else if location = location_code MEMORY_STICK_LOCATION_IMC0 then ''imc0:''
      else if location = location_code MEMORY_STICK_LOCATION_XMC0 then ''xmc0:''
      else if location = location_code MEMORY_STICK_LOCATION_UMA0 then ''uma0:''
      else ''ux0:'')"

definition ScePspemuMsfsDevctl ::
  "msfs_cfg \<Rightarrow> 'w msfs_sys \<Rightarrow> msfs_env \<Rightarrow> u32 \<Rightarrow> nat option \<Rightarrow> nat \<Rightarrow> 'w
     \<Rightarrow> int \<times> ScePspemuIoDevInfo option \<times> 'w"
where
  "ScePspemuMsfsDevctl cfg sys env cmd outlen devinfo_size w =
     (if cmd = 0x02425818 \<and> outlen = Some devinfo_size
      then let (res, info, w) = sceIoDevctl sys (devctl_device (ms_loc env)) 0x3001 w
           in if res < 0 then (res, None, w)
              else let maxc = divide sys (max_size info) (ucast (cluster_size info));
                       freec = divide sys (free_size info) (ucast (cluster_size info))
                   in (0, Some \<lparr>max_clusters = maxc, free_clusters = freec, max_sectors = freec,
                              sector_size = SECTOR_SIZE cfg,
                              sector_count = cluster_size info div SECTOR_SIZE cfg\<rparr>, w)
      else (EINVAL cfg, None, w))"

section \<open>Directories\<close>

abbreviation wildcard :: "char \<Rightarrow> bool" where
  "wildcard c \<equiv> c = CHR ''*'' \<or> c = CHR ''?''"

function filter_walk :: "path \<Rightarrow> path \<Rightarrow> path \<times> path" where
  "filter_walk p [] = (p, [])"
| "filter_walk [] (b # q) = ([], b # q)"
| "filter_walk (a # p) (b # q) =
     (if a = b \<or> b = CHR ''?'' then filter_walk p q
      else if b = CHR ''*''
      then (case dropWhile wildcard q of
              [] \<Rightarrow> ([], [])
            | c # q' \<Rightarrow>
                (case dropWhile (\<lambda>x. x \<noteq> c) (a # p) of
                   [] \<Rightarrow> ([], c # q')
                 | x # p' \<Rightarrow> filter_walk (x # p') (c # q')))
      else (a # p, b # q))"
  by pat_completeness auto
termination
proof (relation "measure (\<lambda>(p, q). length p + length q)", goal_cases)
  case (3 a p b q c q' x p')
  have "length (c # q') \<le> length q"
    using length_dropWhile_le [of wildcard q] by (simp add: 3(3))
  moreover have "length (x # p') \<le> length (a # p)"
    using length_dropWhile_le [of "\<lambda>x. x \<noteq> c" "a # p"] by (simp only: 3(4))
  ultimately show ?case
    by simp
qed auto

declare filter_walk.simps(3) [simp del]

definition ScePspemuMsfsDirectoryFilter :: "path \<Rightarrow> path \<Rightarrow> bool" where
  "ScePspemuMsfsDirectoryFilter name flt =
     (case filter_walk name flt of (p, q) \<Rightarrow> p = [] \<and> dropWhile wildcard q = [])"

definition ScePspemuMsfsExtraDread ::
  "msfs_cfg \<Rightarrow> 'w msfs_sys \<Rightarrow> msfs_env \<Rightarrow> descriptor \<Rightarrow> SceIoDirent \<Rightarrow> 'w
     \<Rightarrow> int \<times> descriptor \<times> SceIoDirent \<times> 'w"
where
  "ScePspemuMsfsExtraDread cfg sys env d dir w =
     (if 0 \<le> ds_extra d \<and> ds_extra d < 2
      then let (d, dir) = (if ds_extra d = 0 then (d\<lparr>ds_extra := 1\<rparr>, dir\<lparr>d_name := ''.''\<rparr>)
                           else (d\<lparr>ds_extra := -1\<rparr>, dir\<lparr>d_name := ''..''\<rparr>));
               (_, st, w) = ScePspemuMsfsGetstat cfg sys env (ds_path d) (d_stat dir) w;
               st = st\<lparr>st_mode := S_IFDIR cfg OR S_IRWX cfg, st_attr := SO_IFDIR cfg\<rparr>
           in (1, d, dir\<lparr>d_stat := st\<rparr>, w)
      else (0, d, dir, w))"

definition next_entry ::
  "msfs_cfg \<Rightarrow> 'w msfs_sys \<Rightarrow> msfs_env \<Rightarrow> descriptor \<Rightarrow> SceIoDirent \<Rightarrow> 'w
     \<Rightarrow> int \<times> descriptor \<times> SceIoDirent \<times> 'w"
where
  "next_entry cfg sys env d dir w =
     (if 0 \<le> ds_extra d then ScePspemuMsfsExtraDread cfg sys env d dir w
      else let (res, dir, w) = sceIoDread sys (ds_fd d) dir w in (res, d, dir, w))"

partial_function (option) dread_loop ::
  "msfs_cfg \<Rightarrow> 'w msfs_sys \<Rightarrow> msfs_env \<Rightarrow> descriptor \<Rightarrow> SceIoDirent \<Rightarrow> 'w
     \<Rightarrow> (int \<times> descriptor \<times> SceIoDirent \<times> 'w) option"
where
  "dread_loop cfg sys env d dir w =
     (case next_entry cfg sys env d dir w of (res, d, dir, w) \<Rightarrow>
        if res \<noteq> 0 \<and> ds_filter d \<noteq> [] \<and> \<not> ScePspemuMsfsDirectoryFilter (d_name dir) (ds_filter d)
        then dread_loop cfg sys env d dir w
        else Some (res, d, dir, w))"

text \<open>
  The long name goes to the caller's \<open>SceFatMsDirent\<close> when it passed one. The name is printed as a format
  string, so a name with a conversion in it is undefined.
\<close>

definition print_name :: "path \<Rightarrow> path option" where
  "print_name name = (if CHR ''%'' \<in> set name then None else Some (printed MAX_PATH_LENGTH name))"

definition ScePspemuMsfsDread ::
  "msfs_cfg \<Rightarrow> 'w msfs_sys \<Rightarrow> msfs_env \<Rightarrow> (u32 \<Rightarrow> bool) \<Rightarrow> int \<Rightarrow> SceIoDirent \<Rightarrow> descriptor list \<Rightarrow> 'w
     \<Rightarrow> (int \<times> SceIoDirent \<times> path option \<times> descriptor list \<times> 'w) option"
where
  "ScePspemuMsfsDread cfg sys env has_dirent i dir ds w =
     (case ScePspemuMsfsGetDescriptor i ds of
        None \<Rightarrow> Some (EINVAL cfg, dir, None, ds, w)
      | Some d \<Rightarrow> do {
          let private = d_private dir;
          (res, d, dir, w) \<leftarrow> dread_loop cfg sys env d dir w;
          let dir = dir\<lparr>d_stat := convertFileStat cfg sys (d_stat dir)\<rparr>;
          let dir = dir\<lparr>d_private := private\<rparr>;
          long \<leftarrow> (if private \<noteq> 0 \<and> has_dirent private then map_option Some (print_name (d_name dir))
                   else Some None);
          Some (res, dir, long, put_descriptor i d ds, w) })"

section \<open>The request loop\<close>

text \<open>
  A Kermit request names an operation; its arguments are addresses in the PSP's memory, given here as what
  they point to. The answer is the result as a 64-bit word and, when the result is not negative, the memory
  that is written back to the PSP; the long name of a directory entry is written back in any case.
\<close>

datatype msfs_request =
    MSFS_INIT | MSFS_EXIT
  | MSFS_OPEN path "open_flag set"
  | MSFS_CLOSE int
  | MSFS_READ int "byte list" nat
  | MSFS_WRITE int "byte list" nat
  | MSFS_LSEEK int int seek_whence
  | MSFS_IOCTL int u32 "(nat \<times> path) option"
  | MSFS_REMOVE path | MSFS_MKDIR path | MSFS_RMDIR path
  | MSFS_DOPEN path | MSFS_DCLOSE int | MSFS_DREAD int SceIoDirent
  | MSFS_GETSTAT path SceIoStat | MSFS_CHSTAT path SceIoStat u32
  | MSFS_RENAME path path | MSFS_CHDIR path
  | MSFS_DEVCTL u32 "nat option"
  | MSFS_OTHER nat

datatype written_back =
    Data "byte list" | Dirent SceIoDirent "path option" | Stat SceIoStat | DevInfo "ScePspemuIoDevInfo option"
  | LongName "path option" | Outdata | Nothing

definition answer :: "int \<Rightarrow> written_back \<Rightarrow> 64 word \<times> written_back" where
  "answer res out = (word_of_int res, if 0 \<le> res then out else Nothing)"

definition DEVINFO_SIZE :: nat where
  "DEVINFO_SIZE = 20"

fun msfs_serve ::
  "msfs_cfg \<Rightarrow> 'w msfs_sys \<Rightarrow> msfs_env \<Rightarrow> (u32 \<Rightarrow> bool) \<Rightarrow> msfs_request \<Rightarrow> descriptor list \<times> 'w
     \<Rightarrow> ((64 word \<times> written_back) \<times> descriptor list \<times> 'w) option"
where
  "msfs_serve cfg sys env mapped MSFS_INIT (ds, w) =
     (case ScePspemuMsfsInit sys ds w of (res, s) \<Rightarrow> Some (answer res Nothing, s))"
| "msfs_serve cfg sys env mapped MSFS_EXIT (ds, w) =
     (case ScePspemuMsfsExit sys ds w of (res, s) \<Rightarrow> Some (answer res Nothing, s))"
| "msfs_serve cfg sys env mapped (MSFS_OPEN file flags) (ds, w) = do {
     (res, s) \<leftarrow> ScePspemuMsfsOpen cfg sys env file flags ds w;
     Some (answer res Nothing, s) }"
| "msfs_serve cfg sys env mapped (MSFS_CLOSE fd) (ds, w) = do {
     (res, s) \<leftarrow> ScePspemuMsfsClose cfg sys env fd ds w;
     Some (answer res Nothing, s) }"
| "msfs_serve cfg sys env mapped (MSFS_READ fd buf n) (ds, w) = do {
     (res, buf, s) \<leftarrow> ScePspemuMsfsRead cfg sys env fd buf n ds w;
     Some (answer res (Data buf), s) }"
| "msfs_serve cfg sys env mapped (MSFS_WRITE fd data n) (ds, w) = do {
     (res, s) \<leftarrow> ScePspemuMsfsWrite cfg sys env fd data n ds w;
     Some (answer res Nothing, s) }"
| "msfs_serve cfg sys env mapped (MSFS_LSEEK fd off whence) (ds, w) =
     (case ScePspemuMsfsLseek cfg sys env fd off whence ds w of (res, s) \<Rightarrow> Some (answer res Nothing, s))"
| "msfs_serve cfg sys env mapped (MSFS_IOCTL fd cmd indata) (ds, w) = do {
     (res, ds) \<leftarrow> ScePspemuMsfsIoctl cfg fd cmd indata ds;
     Some (answer res Outdata, ds, w) }"
| "msfs_serve cfg sys env mapped (MSFS_REMOVE file) (ds, w) =
     (case ScePspemuMsfsRemove cfg sys env file w of (res, w) \<Rightarrow> Some (answer res Nothing, ds, w))"
| "msfs_serve cfg sys env mapped (MSFS_MKDIR dir) (ds, w) =
     (case ScePspemuMsfsMkdir cfg sys env dir w of (res, w) \<Rightarrow> Some (answer res Nothing, ds, w))"
| "msfs_serve cfg sys env mapped (MSFS_RMDIR p) (ds, w) =
     (case ScePspemuMsfsRmdir cfg sys env p w of (res, w) \<Rightarrow> Some (answer res Nothing, ds, w))"
| "msfs_serve cfg sys env mapped (MSFS_DOPEN dir) (ds, w) = do {
     (res, s) \<leftarrow> ScePspemuMsfsDopen cfg sys env dir ds w;
     Some (answer res Nothing, s) }"
| "msfs_serve cfg sys env mapped (MSFS_DCLOSE fd) (ds, w) =
     (case ScePspemuMsfsDclose cfg sys fd ds w of (res, s) \<Rightarrow> Some (answer res Nothing, s))"
| "msfs_serve cfg sys env mapped (MSFS_DREAD fd dir) (ds, w) = do {
     (res, dir, long, s) \<leftarrow> ScePspemuMsfsDread cfg sys env mapped fd dir ds w;
     Some ((word_of_int res, if 0 \<le> res then Dirent dir long else LongName long), s) }"
| "msfs_serve cfg sys env mapped (MSFS_GETSTAT file st) (ds, w) =
     (case ScePspemuMsfsGetstat cfg sys env file st w of (res, st, w) \<Rightarrow> Some (answer res (Stat st), ds, w))"
| "msfs_serve cfg sys env mapped (MSFS_CHSTAT file st bits) (ds, w) =
     (case ScePspemuMsfsChstat cfg sys env file st bits w of (res, w) \<Rightarrow> Some (answer res Nothing, ds, w))"
| "msfs_serve cfg sys env mapped (MSFS_RENAME old new) (ds, w) =
     (case ScePspemuMsfsRename cfg sys env old new w of (res, w) \<Rightarrow> Some (answer res Nothing, ds, w))"
| "msfs_serve cfg sys env mapped (MSFS_CHDIR p) (ds, w) = Some (answer (ScePspemuMsfsChdir p) Nothing, ds, w)"
| "msfs_serve cfg sys env mapped (MSFS_DEVCTL cmd outlen) (ds, w) =
     (case ScePspemuMsfsDevctl cfg sys env cmd outlen DEVINFO_SIZE w of
        (res, info, w) \<Rightarrow> Some (answer res (DevInfo info), ds, w))"
| "msfs_serve cfg sys env mapped (MSFS_OTHER cmd) (ds, w) = Some (answer 0 Nothing, ds, w)"

fun ScePspemuRemoteMsfs ::
  "msfs_cfg \<Rightarrow> 'w msfs_sys \<Rightarrow> msfs_env \<Rightarrow> (u32 \<Rightarrow> bool) \<Rightarrow> msfs_request list \<Rightarrow> descriptor list \<times> 'w
     \<Rightarrow> ((64 word \<times> written_back) list \<times> descriptor list \<times> 'w) option"
where
  "ScePspemuRemoteMsfs cfg sys env mapped [] s = Some ([], s)"
| "ScePspemuRemoteMsfs cfg sys env mapped (r # rs) s = do {
     (a, s) \<leftarrow> msfs_serve cfg sys env mapped r s;
     (as, s) \<leftarrow> ScePspemuRemoteMsfs cfg sys env mapped rs s;
     Some (a # as, s) }"

end
