(* ===== verification/MsfsLaws.thy ===== *)
theory MsfsLaws
  imports Msfs
begin

text \<open>
  What the memory-stick server of \<open>Msfs\<close> does: a request split into chunks is one transfer, the truncation fix
  restores what precedes the first write, the directory filter accepts only what its pattern matches, a
  directory is read to its end, and every request keeps the descriptor table well formed.
\<close>

section \<open>A request served in chunks\<close>

definition io_sizes :: "msfs_cfg \<Rightarrow> nat \<Rightarrow> bool" where
  "io_sizes cfg want \<longleftrightarrow> 0 < MAX_IO_SIZE cfg \<and> MAX_IO_SIZE cfg < 2 ^ 31 \<and> want < 2 ^ 31 \<and> ENODEV cfg < 0"

lemma io_chunk_eq:
  assumes "io_sizes cfg want" "seek \<le> want"
  shows "io_chunk cfg want seek = int (min (want - seek) (MAX_IO_SIZE cfg))"
proof -
  have "to_int32 (int want - int seek) = int want - int seek"
    using assms by (intro to_int32_id) (auto simp: io_sizes_def)
  then show ?thesis
    using assms(2) by (auto simp: io_chunk_def Let_def min_def)
qed

lemma take_split:
  fixes n m :: nat
  assumes "n \<le> m"
  shows "take m xs = take n xs @ take (m - length (take n xs)) (drop (length (take n xs)) xs)"
proof (cases "n \<le> length xs")
  case True
  then show ?thesis
    using assms by (simp add: min_def) (metis le_add_diff_inverse take_add)
next
  case False
  then show ?thesis
    using assms by simp
qed

lemma read_loop_step:
  assumes "io_chunk cfg want seek = int n" "read_chunk cfg sys env d n w = (int (length data), data, d, w1)"
    "seek + length data \<le> length buf"
  shows "read_loop cfg sys env want seek buf d w
    = (if data = [] then Some (int seek, buf, d, w1)
       else if seek + length data < want
       then read_loop cfg sys env want (seek + length data) (overlay_at seek buf data)
              (d\<lparr>ds_offset := ds_offset d + int (length data)\<rparr>) w1
       else Some (int (seek + length data), overlay_at seek buf data,
                  d\<lparr>ds_offset := ds_offset d + int (length data)\<rparr>, w1))"
  unfolding read_loop.simps [of cfg sys env want seek buf d w] assms(1) Let_def nat_int assms(2) prod.case
  using assms(3) by (cases "data = []") simp_all

lemma read_loop_correct:
  assumes "fs_contract (host sys) V" "files fs p = Some c" "io_sizes cfg want" "want \<le> length buf"
    "seek \<le> want" "holds V w (ds_fd d) p pos fs"
  defines "data \<equiv> take (want - seek) (drop pos c)"
  shows "\<exists>w'. read_loop cfg sys env want seek buf d w
           = Some (int (seek + length data), overlay_at seek buf data,
                   d\<lparr>ds_offset := ds_offset d + int (length data)\<rparr>, w')
         \<and> holds V w' (ds_fd d) p (pos + length data) fs"
  unfolding data_def using assms(4-6)
proof (induction "want - seek" arbitrary: seek buf d w pos rule: less_induct)
  case less
  let ?n = "min (want - seek) (MAX_IO_SIZE cfg)"
  let ?a = "take ?n (drop pos c)"
  obtain w1 where r: "sceIoRead (host sys) (ds_fd d) ?n w = (int (length ?a), ?a, w1)"
      "holds V w1 (ds_fd d) p (pos + length ?a) fs"
    using read_holds [OF assms(1) less.prems(3) assms(2), of ?n] by blast
  have enodev: "int k \<noteq> ENODEV cfg" for k
    using assms(3) by (simp add: io_sizes_def)
  have rc: "read_chunk cfg sys env d ?n w = (int (length ?a), ?a, d, w1)"
    unfolding read_chunk_def r(1) using enodev by simp
  have la: "length ?a \<le> want - seek"
    by simp
  then have fits: "\<not> length buf < seek + length ?a"
    using less.prems(1,2) by linarith
  have "seek + length ?a \<le> length buf"
    using fits by simp
  note step = read_loop_step [OF io_chunk_eq [OF assms(3) less.prems(2)] rc this]
  have data: "take (want - seek) (drop pos c)
      = ?a @ take (want - seek - length ?a) (drop (pos + length ?a) c)"
    using take_split [of ?n "want - seek" "drop pos c"] by (simp only: drop_drop add.commute)
  show ?case
  proof (cases "?a = []")
    case True
    have "want - seek = 0 \<or> drop pos c = []"
      using True assms(3) by (auto simp: io_sizes_def)
    then have t: "take (want - seek) (drop pos c) = []"
      by auto
    have "read_loop cfg sys env want seek buf d w = Some (int seek, buf, d, w1)"
      by (simp only: step True if_True simp_thms)
    moreover have "holds V w1 (ds_fd d) p pos fs"
      using r(2) unfolding True by simp
    ultimately show ?thesis
      unfolding t by simp
  next
    case False
    show ?thesis
    proof (cases "seek + length ?a < want")
      case True
      let ?d = "d\<lparr>ds_offset := ds_offset d + int (length ?a)\<rparr>"
      have "0 < length ?a"
        using False by blast
      then have "want - (seek + length ?a) < want - seek"
        using True by linarith
      moreover have "want \<le> length (overlay_at seek buf ?a)"
        using less.prems(1) fits by simp
      moreover have "seek + length ?a \<le> want" "holds V w1 (ds_fd ?d) p (pos + length ?a) fs"
        using True r(2) by simp_all
      ultimately obtain w' where w': "read_loop cfg sys env want (seek + length ?a) (overlay_at seek buf ?a) ?d w1
         = Some (int (seek + length ?a + length (take (want - (seek + length ?a)) (drop (pos + length ?a) c))),
                 overlay_at (seek + length ?a) (overlay_at seek buf ?a) (take (want - (seek + length ?a)) (drop (pos + length ?a) c)),
                 ?d\<lparr>ds_offset := ds_offset ?d + int (length (take (want - (seek + length ?a)) (drop (pos + length ?a) c)))\<rparr>, w')"
         "holds V w' (ds_fd ?d) p (pos + length ?a + length (take (want - (seek + length ?a)) (drop (pos + length ?a) c))) fs"
        using less.hyps by blast
      let ?b = "take (want - (seek + length ?a)) (drop (pos + length ?a) c)"
      have "want - (seek + length ?a) = want - seek - length ?a"
        by (simp only: diff_diff_left)
      then have t: "take (want - seek) (drop pos c) = ?a @ ?b"
        using data by (simp only:)
      have o: "seek \<le> length buf"
        using less.prems(1,2) by simp
      have compose: "\<exists>w'. R = Some (int (seek + length (a @ b)), overlay_at seek buf (a @ b),
              d\<lparr>ds_offset := ds_offset d + int (length (a @ b))\<rparr>, w')
            \<and> holds V w' (ds_fd d) p (pos + length (a @ b)) fs"
        if "R = Some (int (seek + length a + length b), overlay_at (seek + length a) (overlay_at seek buf a) b,
              (d\<lparr>ds_offset := ds_offset d + int (length a)\<rparr>)
                \<lparr>ds_offset := ds_offset (d\<lparr>ds_offset := ds_offset d + int (length a)\<rparr>) + int (length b)\<rparr>, w')"
          "holds V w' (ds_fd (d\<lparr>ds_offset := ds_offset d + int (length a)\<rparr>)) p (pos + length a + length b) fs"
        for R a b
        using that by (simp add: overlay_at_append [OF o] add.assoc)
      have "read_loop cfg sys env want seek buf d w
          = read_loop cfg sys env want (seek + length ?a) (overlay_at seek buf ?a) ?d w1"
        by (simp only: step False True if_True if_False)
      from compose [OF trans [OF this w'(1)] w'(2)] show ?thesis
        unfolding t .
    next
      case full: False
      then have "want - seek - length ?a = 0"
        by simp
      then have "take (want - seek) (drop pos c) = ?a"
        unfolding data by (simp only: take_0 append_Nil2)
      then show ?thesis
        using False full r(2) unfolding step by (simp only: if_False) blast
    qed
  qed
qed

lemma write_holds:
  assumes "fs_contract io V" "holds V w fd p pos fs" "files fs p = Some d" "pos \<le> length d"
  shows "\<exists>w'. sceIoWrite io fd data w = (int (length data), w')
           \<and> holds V w' fd p (pos + length data) (fs\<lparr>files := (files fs)(p := Some (overlay_at pos d data))\<rparr>)"
proof -
  have "handles (V w) fd = Some (p, pos)" "files (V w) p = Some d"
    using assms(2,3) by (simp_all add: holds_def)
  from write_handle [OF assms(1) this assms(4), of data] show ?thesis
    using assms(2) by (auto simp: holds_def)
qed

lemma write_loop_step:
  assumes "io_chunk cfg want seek = int n" "write_chunk cfg sys env d (take n (drop seek data)) w = (int n, d, w1)"
    "seek + n \<le> length data"
  shows "write_loop cfg sys env want seek data d w
    = (if n = 0 then Some (int seek, d, w1)
       else if seek + n < want
       then write_loop cfg sys env want (seek + n) data (d\<lparr>ds_offset := ds_offset d + int n\<rparr>) w1
       else Some (int (seek + n), d\<lparr>ds_offset := ds_offset d + int n\<rparr>, w1))"
  unfolding write_loop.simps [of cfg sys env want seek data d w] assms(1) Let_def nat_int assms(2) prod.case
  using assms(3) by (cases "n = 0") simp_all

lemma length_overlay_at_max: "pos \<le> length c \<Longrightarrow> length (overlay_at pos c a) = max (length c) (pos + length a)"
  by (simp add: overlay_at_def)

lemma write_loop_correct:
  assumes "fs_contract (host sys) V" "io_sizes cfg want" "want \<le> length data"
    "seek \<le> want" "files fs p = Some c" "pos \<le> length c" "holds V w (ds_fd d) p pos fs"
  shows "\<exists>w'. write_loop cfg sys env want seek data d w
           = Some (int want, d\<lparr>ds_offset := ds_offset d + int (want - seek)\<rparr>, w')
         \<and> holds V w' (ds_fd d) p (pos + (want - seek))
             (fs\<lparr>files := (files fs)(p := Some (overlay_at pos c (take (want - seek) (drop seek data))))\<rparr>)"
  using assms(4-)
proof (induction "want - seek" arbitrary: seek d w pos c fs rule: less_induct)
  case less
  let ?n = "min (want - seek) (MAX_IO_SIZE cfg)"
  let ?a = "take ?n (drop seek data)"
  have la: "length ?a = ?n"
    using assms(3) less.prems(1) by simp
  let ?fs = "fs\<lparr>files := (files fs)(p := Some (overlay_at pos c ?a))\<rparr>"
  obtain w1 where r: "sceIoWrite (host sys) (ds_fd d) ?a w = (int ?n, w1)"
      "holds V w1 (ds_fd d) p (pos + ?n) ?fs"
    using write_holds [OF assms(1) less.prems(4,2,3), of ?a] unfolding la by blast
  have enodev: "int k \<noteq> ENODEV cfg" for k
    using assms(2) by (simp add: io_sizes_def)
  have rc: "write_chunk cfg sys env d ?a w = (int ?n, d, w1)"
    unfolding write_chunk_def r(1) using enodev by simp
  have "seek + ?n \<le> length data"
    using assms(3) less.prems(1) by simp
  note step = write_loop_step [OF io_chunk_eq [OF assms(2) less.prems(1)] rc this]
  show ?case
  proof (cases "?n = 0")
    case True
    then have e: "want = seek"
      using assms(2) less.prems(1) by (auto simp: io_sizes_def)
    have "write_loop cfg sys env want seek data d w = Some (int seek, d, w1)"
      by (simp only: step True if_True simp_thms)
    moreover have "holds V w1 (ds_fd d) p pos fs"
    proof -
      have "fs\<lparr>files := (files fs)(p := Some (overlay_at pos c []))\<rparr> = fs"
        using less.prems(2) by (simp add: fun_upd_idem)
      then show ?thesis
        using r(2) unfolding True by simp
    qed
    ultimately show ?thesis
      using less.prems(2) by (simp add: e fun_upd_idem)
  next
    case False
    show ?thesis
    proof (cases "seek + ?n < want")
      case True
      let ?d = "d\<lparr>ds_offset := ds_offset d + int ?n\<rparr>"
      have 1: "want - (seek + ?n) < want - seek" "seek + ?n \<le> want"
        using False True by simp_all
      have 2: "files ?fs p = Some (overlay_at pos c ?a)" "pos + ?n \<le> length (overlay_at pos c ?a)"
        using less.prems(3) la by (simp_all add: length_overlay_at_max)
      have 3: "holds V w1 (ds_fd ?d) p (pos + ?n) ?fs"
        using r(2) by simp
      obtain w' where w': "write_loop cfg sys env want (seek + ?n) data ?d w1
           = Some (int want, ?d\<lparr>ds_offset := ds_offset ?d + int (want - (seek + ?n))\<rparr>, w')"
         "holds V w' (ds_fd ?d) p (pos + ?n + (want - (seek + ?n)))
            (?fs\<lparr>files := (files ?fs)(p := Some (overlay_at (pos + ?n) (overlay_at pos c ?a)
                  (take (want - (seek + ?n)) (drop (seek + ?n) data))))\<rparr>)"
        using less.hyps [OF 1 2 3] by blast
      have o: "overlay_at (pos + ?n) (overlay_at pos c ?a) b = overlay_at pos c (?a @ b)" for b
        using overlay_at_append [OF less.prems(3), of ?a b] unfolding la .
      have "?a @ take (want - (seek + ?n)) (drop (seek + ?n) data) = take (want - seek) (drop seek data)"
        using take_split [of ?n "want - seek" "drop seek data"] unfolding la
        by (simp add: add.commute)
      note o' = o [of "take (want - (seek + ?n)) (drop (seek + ?n) data)", unfolded this]
      have n: "pos + ?n + (want - (seek + ?n)) = pos + (want - seek)"
        "ds_offset d + int ?n + int (want - (seek + ?n)) = ds_offset d + int (want - seek)"
        using True by simp_all
      have "write_loop cfg sys env want seek data d w
           = Some (int want, d\<lparr>ds_offset := ds_offset d + int (want - seek)\<rparr>, w')"
        unfolding step using False True w'(1) n(2) by simp
      moreover have "holds V w' (ds_fd d) p (pos + (want - seek))
             (fs\<lparr>files := (files fs)(p := Some (overlay_at pos c (take (want - seek) (drop seek data))))\<rparr>)"
        using w'(2) unfolding o' n(1) by simp
      ultimately show ?thesis
        by blast
    next
      case full: False
      then have e: "?n = want - seek"
        using less.prems(1) by linarith
      have s: "seek + (want - seek) = want"
        using less.prems(1) by simp
      show ?thesis
        using False full r(2) unfolding step unfolding e s by simp
    qed
  qed
qed

section \<open>The truncation fix\<close>

lemma overlay_take: "length data \<le> length buf \<Longrightarrow> take (length data) (overlay buf data) = data"
  by (simp add: overlay_def)

lemma copy_back_step:
  assumes "n = min (limit - k) (TRANSFER_SIZE cfg)" "0 < n"
    "sceIoRead (host sys) fd n w = (int (length data), data, w1)" "length data = n"
    "n \<le> length buf" "sceIoWrite (host sys) out data w1 = (int n, w2)"
  shows "copy_back cfg sys fd out (int limit) buf (int k) w
     = (if k + n < limit then copy_back cfg sys fd out (int limit) (overlay buf data) (int (k + n)) w2 else Some (0, w2))"
proof -
  have e: "(if int limit - int k < int (TRANSFER_SIZE cfg) then int limit - int k else int (TRANSFER_SIZE cfg)) = int n"
    using assms(1,2) by (auto simp: min_def)
  have f: "fill buf data = Some (overlay buf data)" "bytes_arg (overlay buf data) n = Some data"
    using assms(4,5) overlay_take [of data buf] by (auto simp: fill_def bytes_arg_def overlay_def)
  show ?thesis
    unfolding copy_back.simps [of cfg sys fd out "int limit" buf "int k" w] Let_def e nat_int assms(3) prod.case f
      assms(6) option.sel
    using assms(2) by (simp add: f assms(6))
qed

lemma copy_back_correct:
  assumes "fs_contract (host sys) V" "saved \<noteq> p" "fd \<noteq> out" "0 < TRANSFER_SIZE cfg" "limit \<le> length old"
    and "k \<le> limit" "length buf = TRANSFER_SIZE cfg"
    and "handles (V w) fd = Some (saved, k)" "handles (V w) out = Some (p, k)"
    and "files (V w) saved = Some old" "files (V w) p = Some c" "k \<le> length c"
  shows "\<exists>w'. copy_back cfg sys fd out (int limit) buf (int k) w = Some (0, w')
         \<and> V w' = (V w)\<lparr>files := (files (V w))(p := Some (overlay_at k c (take (limit - k) (drop k old)))),
                          handles := (handles (V w))(fd := Some (saved, limit), out := Some (p, limit))\<rparr>"
  using assms(6-)
proof (induction "limit - k" arbitrary: k buf w c rule: less_induct)
  case less
  show ?case
  proof (cases "limit = k")
    case True
    have "copy_back cfg sys fd out (int limit) buf (int k) w = Some (0, w)"
      using assms(4) by (simp add: copy_back.simps True)
    moreover have "V w = (V w)\<lparr>files := (files (V w))(p := Some (overlay_at k c (take (limit - k) (drop k old)))),
                          handles := (handles (V w))(fd := Some (saved, limit), out := Some (p, limit))\<rparr>"
      using less.prems(3,4,6) True by (simp add: fun_upd_idem)
    ultimately show ?thesis
      by blast
  next
    case False
    define n where "n = min (limit - k) (TRANSFER_SIZE cfg)"
    define a where "a = take n (drop k old)"
    have n: "0 < n" "k + n \<le> limit" "n \<le> length buf"
      using False less.prems(1,2) assms(4) by (auto simp: n_def)
    have la: "length a = n"
      using n assms(5) by (simp add: a_def)
    obtain w1 where r: "sceIoRead (host sys) fd n w = (int (length a), a, w1)"
        "V w1 = (V w)\<lparr>handles := (handles (V w))(fd := Some (saved, k + n))\<rparr>"
      using read_handle [OF assms(1) less.prems(3,5), of n] unfolding a_def [symmetric] la by blast
    have h: "handles (V w1) out = Some (p, k)" "files (V w1) p = Some c"
      using less.prems(4,6) assms(3) by (simp_all add: r(2))
    obtain w2 where wr: "sceIoWrite (host sys) out a w1 = (int n, w2)"
        "V w2 = (V w1)\<lparr>files := (files (V w1))(p := Some (overlay_at k c a)),
                        handles := (handles (V w1))(out := Some (p, k + n))\<rparr>"
      using write_handle [OF assms(1) h less.prems(7), of a] unfolding la by blast
    note step = copy_back_step [OF n_def n(1) r(1) la n(3) wr(1)]
    have v2: "V w2 = (V w)\<lparr>files := (files (V w))(p := Some (overlay_at k c a)),
                            handles := (handles (V w))(fd := Some (saved, k + n), out := Some (p, k + n))\<rparr>"
      by (simp add: wr(2) r(2))
    have t: "take (limit - k) (drop k old) = a @ take (limit - (k + n)) (drop (k + n) old)"
      using take_split [of n "limit - k" "drop k old"] la
      by (simp add: a_def n_def add.commute)
    show ?thesis
    proof (cases "k + n < limit")
      case True
      have 1: "limit - (k + n) < limit - k" "k + n \<le> limit" "length (overlay buf a) = TRANSFER_SIZE cfg"
        using n less.prems(2) False la by (simp_all add: overlay_def)
      have 2: "handles (V w2) fd = Some (saved, k + n)" "handles (V w2) out = Some (p, k + n)"
        "files (V w2) saved = Some old" "files (V w2) p = Some (overlay_at k c a)"
        "k + n \<le> length (overlay_at k c a)"
        using assms(2,3) less.prems(5,7) la by (simp_all add: v2 length_overlay_at_max)
      obtain w' where w': "copy_back cfg sys fd out (int limit) (overlay buf a) (int (k + n)) w2 = Some (0, w')"
        "V w' = (V w2)\<lparr>files := (files (V w2))(p := Some (overlay_at (k + n) (overlay_at k c a)
                    (take (limit - (k + n)) (drop (k + n) old)))),
                  handles := (handles (V w2))(fd := Some (saved, limit), out := Some (p, limit))\<rparr>"
        using less.hyps [OF 1 2] by blast
      have "overlay_at (k + n) (overlay_at k c a) b = overlay_at k c (a @ b)" for b
        using overlay_at_append [OF less.prems(7), of a b] by (simp only: la)
      then have "V w' = (V w)\<lparr>files := (files (V w))(p := Some (overlay_at k c (take (limit - k) (drop k old)))),
                          handles := (handles (V w))(fd := Some (saved, limit), out := Some (p, limit))\<rparr>"
        using assms(3) unfolding t w'(2) v2 by (simp add: fun_upd_twist)
      moreover have "copy_back cfg sys fd out (int limit) buf (int k) w = Some (0, w')"
        using step True w'(1) by (simp only: if_True)
      ultimately show ?thesis
        by blast
    next
      case full: False
      then have e: "k + n = limit"
        using n(2) by simp
      then have "take (limit - k) (drop k old) = a"
        unfolding t by simp
      then show ?thesis
        using step full v2 unfolding e by (simp only: if_False) blast
    qed
  qed
qed

lemma truncate_fix_correct:
  fixes d :: descriptor and env :: msfs_env
  defines "p \<equiv> buildPspemuMsfsPath env (ds_path d)"
  assumes "fs_contract (host sys) V" "length p + 9 < MAX_PATH_LENGTH"
    "holds V w (ds_fd d) p pos fs" "files fs p = Some cur" "files fs (p @ TRUNC_SUFFIX) = Some old"
    "ds_first_write_offset d = int limit" "limit \<le> length old" "limit \<le> length cur"
    "\<And>w. \<exists>buf. heap sys (TRANSFER_SIZE cfg) w = Some buf \<and> length buf = TRANSFER_SIZE cfg"
    "0 < TRANSFER_SIZE cfg"
  shows "\<exists>w'. ScePspemuMsfsTruncateFix cfg sys env d w = Some (0, w')
     \<and> holds V w' (ds_fd d) p limit
         (fs\<lparr>files := (files fs)(p := Some (take limit old @ drop limit cur), p @ TRUNC_SUFFIX := None)\<rparr>)"
proof -
  let ?saved = "p @ TRUNC_SUFFIX"
  have ne: "?saved \<noteq> p"
    by (simp add: TRUNC_SUFFIX_def)
  have cp: "copied MAX_PATH_LENGTH ?saved = Some ?saved"
    using assms(3) by (intro copied_Some) (simp add: TRUNC_SUFFIX_def)
  have f: "files (V w) ?saved = Some old" "files (V w) p = Some cur" "handles (V w) (ds_fd d) = Some (p, pos)"
    using assms(4-6) by (simp_all add: holds_def)
  obtain fd w1 where o: "sceIoOpen (host sys) ?saved {O_RDONLY} 0 w = (fd, w1)" "0 \<le> fd"
      "handles (V w) fd = None" "V w1 = opened (V w) ?saved {O_RDONLY} fd"
    using open_existing [OF assms(2) f(1), of "{O_RDONLY}" 0] by blast
  have fd: "fd \<noteq> ds_fd d"
    using o(3) f(3) by auto
  have v1: "V w1 = (V w)\<lparr>handles := (handles (V w))(fd := Some (?saved, 0))\<rparr>"
    using f(1) by (simp add: o(4) opened_def)
  have h1: "handles (V w1) (ds_fd d) = Some (p, pos)" "files (V w1) p = Some cur"
    using f fd by (simp_all add: v1)
  have t: "seek_target SEEK_SET 0 pos cur = 0"
    by (simp add: seek_target_def)
  obtain w2 where l: "sceIoLseek (host sys) (ds_fd d) 0 SEEK_SET w1 = (0, w2)"
      "V w2 = (V w1)\<lparr>handles := (handles (V w1))(ds_fd d := Some (p, 0))\<rparr>"
    using lseek_handle [OF assms(2) h1, of SEEK_SET 0] unfolding t by auto
  obtain buf where b: "heap sys (TRANSFER_SIZE cfg) w2 = Some buf" "length buf = TRANSFER_SIZE cfg"
    using assms(10) by blast
  have h2: "handles (V w2) fd = Some (?saved, 0)" "handles (V w2) (ds_fd d) = Some (p, 0)"
    "files (V w2) ?saved = Some old" "files (V w2) p = Some cur"
    using f fd by (simp_all add: l(2) v1)
  obtain w3 where c: "copy_back cfg sys fd (ds_fd d) (int limit) buf 0 w2 = Some (0, w3)"
      "V w3 = (V w2)\<lparr>files := (files (V w2))(p := Some (overlay_at 0 cur (take limit old))),
                      handles := (handles (V w2))(fd := Some (?saved, limit), ds_fd d := Some (p, limit))\<rparr>"
    using copy_back_correct [OF assms(2) ne fd assms(11,8) _ b(2) h2] by auto
  obtain rc w4 where cl: "sceIoClose (host sys) fd w3 = (rc, w4)"
      "V w4 = (V w3)\<lparr>handles := (handles (V w3))(fd := None)\<rparr>"
    using close_handle [OF assms(2)] by blast
  obtain rr w5 where rm: "sceIoRemove (host sys) ?saved w4 = (rr, w5)"
      "V w5 = (V w4)\<lparr>files := (files (V w4))(?saved := None)\<rparr>"
    using remove_path [OF assms(2)] by blast
  have "ScePspemuMsfsTruncateFix cfg sys env d w = Some (0, w5)"
    using o(2) by (simp add: ScePspemuMsfsTruncateFix_def p_def [symmetric] cp o(1) l(1) b(1) assms(7) c(1) cl(1) rm(1))
  moreover have "overlay_at 0 cur (take limit old) = take limit old @ drop limit cur"
    using assms(8) by (simp add: overlay_at_def min_def)
  moreover have "holds V w5 (ds_fd d) p limit
         (fs\<lparr>files := (files fs)(p := Some (overlay_at 0 cur (take limit old)), ?saved := None)\<rparr>)"
  proof -
    have "handles fs fd = None"
      using o(3) fd assms(4) by (simp add: holds_def)
    then have "(handles fs)(ds_fd d := x, fd := None) = (handles fs)(ds_fd d := x)" for x
      using fd by (auto simp: fun_eq_iff)
    then show ?thesis
      using fd assms(4) by (simp add: holds_def rm(2) cl(2) c(2) l(2) v1 fun_upd_twist [of fd])
  qed
  ultimately show ?thesis
    by auto
qed

section \<open>The directory filter\<close>

fun globs :: "path \<Rightarrow> path \<Rightarrow> bool" where
  "globs [] n \<longleftrightarrow> n = []"
| "globs (c # q) n \<longleftrightarrow>
     (if c = CHR ''*'' then \<exists>k \<le> length n. globs q (drop k n)
      else case n of [] \<Rightarrow> False | a # n' \<Rightarrow> a = c \<and> globs q n')"

lemma globs_star_skip: "globs q (drop k n) \<Longrightarrow> k \<le> length n \<Longrightarrow> globs (CHR ''*'' # q) n"
  by auto

lemma globs_stars: "set s \<subseteq> {CHR ''*''} \<Longrightarrow> globs q n \<Longrightarrow> globs (s @ q) n"
proof (induction s)
  case (Cons c s)
  have "globs (CHR ''*'' # (s @ q)) n"
    by (rule globs_star_skip [of _ 0]) (use Cons in auto)
  then show ?case
    using Cons.prems(1) by (simp del: globs.simps)
qed simp

lemma globs_all_stars: "set s \<subseteq> {CHR ''*''} \<Longrightarrow> s \<noteq> [] \<Longrightarrow> globs s n"
proof (induction s)
  case (Cons c s)
  have "globs (CHR ''*'' # s) n"
  proof (cases "s = []")
    case True
    then show ?thesis
      using globs_star_skip [of "[]" "length n" n] by (simp del: globs.simps(2))
  next
    case False
    then show ?thesis
      using globs_star_skip [of s 0 n] Cons by (simp del: globs.simps(2))
  qed
  then show ?case
    using Cons.prems(1) by (simp del: globs.simps)
qed simp

lemma wildcards_are_stars:
  assumes "CHR ''?'' \<notin> set q"
  shows "set (takeWhile wildcard q) \<subseteq> {CHR ''*''}"
  using assms by (auto dest: set_takeWhileD)

lemma dropWhile_suffix: "\<exists>k \<le> length xs. dropWhile P xs = drop k xs"
  by (rule exI [of _ "length (takeWhile P xs)"]) (simp add: dropWhile_eq_drop length_takeWhile_le)

definition accepted :: "path \<times> path \<Rightarrow> bool" where
  "accepted r \<longleftrightarrow> fst r = [] \<and> dropWhile wildcard (snd r) = []"

lemma filter_accepted: "ScePspemuMsfsDirectoryFilter name flt \<longleftrightarrow> accepted (filter_walk name flt)"
  by (simp add: ScePspemuMsfsDirectoryFilter_def accepted_def split: prod.splits)

lemma filter_walk_sound:
  "CHR ''?'' \<notin> set q \<Longrightarrow> accepted (filter_walk p q) \<Longrightarrow> globs q p"
proof (induction p q rule: filter_walk.induct)
  case (2 b q)
  then have "set (b # q) \<subseteq> {CHR ''*''}"
    by (auto simp: accepted_def dropWhile_eq_Nil_conv split: if_splits)
  then show ?case
    by (rule globs_all_stars) simp
next
  case (3 a p b q)
  consider (same) "a = b" | (star) "a \<noteq> b" "b = CHR ''*''" | (other) "a \<noteq> b" "b \<noteq> CHR ''*''" "b \<noteq> CHR ''?''"
    using 3(3) by auto
  then show ?case
  proof cases
    case same
    then have g: "globs q p"
      using 3 by (simp add: filter_walk.simps(3))
    show ?thesis
    proof (cases "b = CHR ''*''")
      case True
      then show ?thesis
        using globs_star_skip [of q 1 "a # p"] g by (simp del: globs.simps)
    next
      case False
      then show ?thesis
        using g same by simp
    qed
  next
    case star
    show ?thesis
    proof (cases "dropWhile wildcard q")
      case Nil
      then have tw: "takeWhile wildcard q = q"
        by (metis append_Nil2 takeWhile_dropWhile_id)
      have "CHR ''?'' \<notin> set q"
        using 3(3) by simp
      from wildcards_are_stars [OF this] have "set q \<subseteq> {CHR ''*''}"
        unfolding tw .
      then have "set (b # q) \<subseteq> {CHR ''*''}"
        using star(2) by simp
      then show ?thesis
        by (rule globs_all_stars) simp
    next
      case (Cons c q')
      have c: "\<not> wildcard c"
        using Cons unfolding dropWhile_eq_Cons_conv by blast
      show ?thesis
      proof (cases "dropWhile (\<lambda>x. x \<noteq> c) (a # p)")
        case Nil
        then have "filter_walk (a # p) (b # q) = ([], c # q')"
          using star Cons by (simp add: filter_walk.simps(3))
        then show ?thesis
          using 3(4) c by (simp add: accepted_def)
      next
        case (Cons x p')
        note dp = this and dq = \<open>dropWhile wildcard q = c # q'\<close>
        have e: "filter_walk (a # p) (b # q) = filter_walk (x # p') (c # q')"
          using star dp dq by (simp add: filter_walk.simps(3))
        have "CHR ''?'' \<notin> set (c # q')"
          using 3(3) set_dropWhileD [of _ wildcard q] unfolding dq by auto
        then have g: "globs (c # q') (x # p')"
          using 3(2) [OF _ star(2) dq dp] 3(4) star e by auto
        have "globs (takeWhile wildcard q @ dropWhile wildcard q) (x # p')"
          unfolding dq by (rule globs_stars [OF wildcards_are_stars g]) (use 3(3) in simp)
        then have "globs q (x # p')"
          by simp
        then show ?thesis
          using dropWhile_suffix [of "a # p" "\<lambda>x. x \<noteq> c"] globs_star_skip unfolding dp star(2) by metis
      qed
    qed
  next
    case other
    then show ?thesis
      using 3(4) by (simp add: filter_walk.simps(3) accepted_def)
  qed
qed (simp add: accepted_def)

lemma filter_walk_literal:
  assumes "\<forall>c \<in> set q. \<not> wildcard c"
  shows "accepted (filter_walk p q) \<longleftrightarrow> p = q"
  using assms by (induction p q rule: filter_walk.induct) (auto simp: accepted_def filter_walk.simps(3))

lemma filter_walk_suffix:
  assumes "\<forall>x \<in> set (c # q). \<not> wildcard x" "CHR ''*'' \<notin> set p" "p \<noteq> []"
  shows "accepted (filter_walk p (CHR ''*'' # c # q)) \<longleftrightarrow> (\<exists>stem. c \<notin> set stem \<and> p = stem @ c # q)"
proof -
  obtain a p0 where p: "p = a # p0"
    using assms(3) by (cases p) auto
  have a: "a \<noteq> CHR ''*''"
    using assms(2) p by auto
  have d: "dropWhile wildcard (c # q) = c # q"
    using assms(1) by simp
  show ?thesis
  proof (cases "dropWhile (\<lambda>x. x \<noteq> c) p")
    case Nil
    then have "c \<notin> set p"
      by (auto simp: dropWhile_eq_Nil_conv)
    then have "\<not> (\<exists>stem. c \<notin> set stem \<and> p = stem @ c # q)"
      by auto
    moreover have "filter_walk p (CHR ''*'' # c # q) = ([], c # q)"
      using Nil d a by (simp add: p filter_walk.simps(3))
    ultimately show ?thesis
      using assms(1) by (simp add: accepted_def)
  next
    case (Cons x p')
    have "x = c"
      using Cons unfolding dropWhile_eq_Cons_conv by blast
    have s: "p = takeWhile (\<lambda>x. x \<noteq> c) p @ c # p'"
      using takeWhile_dropWhile_id [of "\<lambda>x. x \<noteq> c" p] unfolding Cons \<open>x = c\<close> by simp
    have e: "filter_walk p (CHR ''*'' # c # q) = filter_walk (c # p') (c # q)"
      using Cons d a \<open>x = c\<close> by (simp add: p filter_walk.simps(3))
    have "(\<exists>stem. c \<notin> set stem \<and> p = stem @ c # q) \<longleftrightarrow> p' = q"
    proof
      assume "\<exists>stem. c \<notin> set stem \<and> p = stem @ c # q"
      then obtain stem where st: "c \<notin> set stem" "p = stem @ c # q"
        by blast
      then have "dropWhile (\<lambda>x. x \<noteq> c) p = c # q"
        unfolding st(2) by (subst dropWhile_append2) auto
      then show "p' = q"
        using Cons by simp
    next
      assume "p' = q"
      then show "\<exists>stem. c \<notin> set stem \<and> p = stem @ c # q"
        using s by (intro exI [of _ "takeWhile (\<lambda>x. x \<noteq> c) p"]) (auto dest: set_takeWhileD)
    qed
    then show ?thesis
      unfolding e using filter_walk_literal [of "c # q" "c # p'"] assms(1) by auto
  qed
qed

section \<open>Reading a directory\<close>

text \<open>
  What the reader relies on: an open directory delivers its entries one after the other, then 0. Each call
  leaves the other directories alone.
\<close>

definition dir_contract :: "'w msfs_sys \<Rightarrow> ('w \<Rightarrow> int \<Rightarrow> path list) \<Rightarrow> bool" where
  "dir_contract sys pending \<longleftrightarrow>
     (\<forall>fd dir w. case sceIoDread sys fd dir w of (res, dir', w') \<Rightarrow>
        (case pending w fd of
           [] \<Rightarrow> res = 0 \<and> pending w' = pending w
         | n # ns \<Rightarrow> res = 1 \<and> d_name dir' = n \<and> pending w' = (pending w)(fd := ns)))
     \<and> (\<forall>p st w. pending (snd (snd (sceIoStat sys p st w))) = pending w)"

definition dots :: "int \<Rightarrow> path list" where
  "dots extra = (if extra = 0 then [''.'', ''..''] else if extra = 1 then [''..''] else [])"

definition pending_names :: "('w \<Rightarrow> int \<Rightarrow> path list) \<Rightarrow> descriptor \<Rightarrow> 'w \<Rightarrow> path list" where
  "pending_names pending d w = dots (ds_extra d) @ pending w (ds_fd d)"

definition admits :: "path \<Rightarrow> path \<Rightarrow> bool" where
  "admits flt name \<longleftrightarrow> flt = [] \<or> ScePspemuMsfsDirectoryFilter name flt"

lemma getstat_pending:
  assumes "dir_contract sys pending"
  shows "pending (snd (snd (ScePspemuMsfsGetstat cfg sys env file st w))) = pending w"
  using assms by (simp add: ScePspemuMsfsGetstat_def dir_contract_def Let_def split: prod.splits)
    (metis snd_conv)

lemma next_entry_correct:
  assumes "dir_contract sys pending" "ds_extra d < 2"
  shows "case next_entry cfg sys env d dir w of (res, d', dir', w') \<Rightarrow>
     (\<exists>x < 2. d' = d\<lparr>ds_extra := x\<rparr>)
     \<and> (case pending_names pending d w of
          [] \<Rightarrow> res = 0 \<and> pending_names pending d' w' = []
        | n # ns \<Rightarrow> res = 1 \<and> d_name dir' = n \<and> pending_names pending d' w' = ns)"
proof -
  consider (dot) "ds_extra d = 0" | (dotdot) "ds_extra d = 1" | (entries) "ds_extra d < 0"
    using assms(2) by linarith
  then show ?thesis
  proof cases
    case dot
    show ?thesis
      using getstat_pending [OF assms(1), of cfg env "ds_path d" "d_stat dir" w]
      by (auto simp: next_entry_def ScePspemuMsfsExtraDread_def dot pending_names_def dots_def split: prod.splits
          intro!: exI [of _ 1])
  next
    case dotdot
    show ?thesis
      using getstat_pending [OF assms(1), of cfg env "ds_path d" "d_stat dir" w]
      by (auto simp: next_entry_def ScePspemuMsfsExtraDread_def dotdot pending_names_def dots_def split: prod.splits
          list.splits intro!: exI [of _ "-1"])
  next
    case entries
    then have n: "\<not> 0 \<le> ds_extra d" "dots (ds_extra d) = []" "\<exists>x < 2. d = d\<lparr>ds_extra := x\<rparr>"
      by (auto simp: dots_def intro: exI [of _ "ds_extra d"])
    obtain res dir' w' where r: "sceIoDread sys (ds_fd d) dir w = (res, dir', w')"
      by (cases "sceIoDread sys (ds_fd d) dir w") blast
    have "case pending w (ds_fd d) of
           [] \<Rightarrow> res = 0 \<and> pending w' = pending w
         | n # ns \<Rightarrow> res = 1 \<and> d_name dir' = n \<and> pending w' = (pending w)(ds_fd d := ns)"
      using conjunct1 [OF assms(1) [unfolded dir_contract_def], THEN spec [of _ "ds_fd d"],
          THEN spec [of _ dir], THEN spec [of _ w]] by (simp add: r)
    then show ?thesis
      using n by (auto simp: next_entry_def r pending_names_def split: list.splits)
  qed
qed

lemma dread_loop_correct:
  assumes "dir_contract sys pending" "ds_extra d < 2"
  shows "\<exists>res d' dir' w'. dread_loop cfg sys env d dir w = Some (res, d', dir', w')
     \<and> (\<exists>x < 2. d' = d\<lparr>ds_extra := x\<rparr>)
     \<and> (case dropWhile (\<lambda>n. \<not> admits (ds_filter d) n) (pending_names pending d w) of
          [] \<Rightarrow> res = 0 \<and> pending_names pending d' w' = []
        | n # ns \<Rightarrow> res = 1 \<and> d_name dir' = n \<and> pending_names pending d' w' = ns)"
  using assms(2)
proof (induction "pending_names pending d w" arbitrary: d dir w)
  case Nil
  then show ?case
    using next_entry_correct [OF assms(1), where d = d and cfg = cfg and env = env and dir = dir and w = w]
    by (subst dread_loop.simps) (auto split: prod.splits)
next
  case (Cons n ns)
  obtain res d1 dir1 w1 where e: "next_entry cfg sys env d dir w = (res, d1, dir1, w1)"
    by (cases "next_entry cfg sys env d dir w") blast
  have p: "pending_names pending d w = n # ns"
    by (rule sym) fact
  obtain x where x: "x < 2" "d1 = d\<lparr>ds_extra := x\<rparr>"
    and r: "res = 1" "d_name dir1 = n" "pending_names pending d1 w1 = ns"
    using next_entry_correct [OF assms(1) Cons.prems, where cfg = cfg and env = env and dir = dir and w = w] unfolding e p by auto
  have flt: "ds_filter d1 = ds_filter d" "ds_extra d1 < 2"
    using x by simp_all
  have step: "dread_loop cfg sys env d dir w
      = (if admits (ds_filter d) n then Some (res, d1, dir1, w1) else dread_loop cfg sys env d1 dir1 w1)"
    by (subst dread_loop.simps) (simp add: e r flt admits_def)
  show ?case
  proof (cases "admits (ds_filter d) n")
    case True
    then show ?thesis
      using x r by (auto simp: step p)
  next
    case False
    obtain res' d' dir' w' y where ih: "dread_loop cfg sys env d1 dir1 w1 = Some (res', d', dir', w')"
      "y < 2" "d' = d1\<lparr>ds_extra := y\<rparr>"
      "case dropWhile (\<lambda>n. \<not> admits (ds_filter d) n) ns of
          [] \<Rightarrow> res' = 0 \<and> pending_names pending d' w' = []
        | n # ns \<Rightarrow> res' = 1 \<and> d_name dir' = n \<and> pending_names pending d' w' = ns"
      using Cons.hyps(1) [OF r(3) [symmetric] flt(2), of dir1] unfolding r(3) flt(1) by blast
    have "d' = d\<lparr>ds_extra := y\<rparr>"
      using x(2) ih(3) by simp
    then show ?thesis
      using ih False by (auto simp: step p)
  qed
qed

text \<open>When the directory handle has died, every call fails and leaves the entry as it was.\<close>

lemma dread_loop_hangs:
  assumes dead: "\<And>w. \<exists>e w'. e < 0 \<and> sceIoDread sys (ds_fd d) dir w = (e, dir, w')"
    and "ds_extra d < 0" "\<not> admits (ds_filter d) (d_name dir)"
  shows "dread_loop cfg sys env d dir w = None"
proof (rule ccontr)
  assume "dread_loop cfg sys env d dir w \<noteq> None"
  then obtain r where ret: "dread_loop cfg sys env d dir w = Some r"
    by blast
  have "\<not> (sys' = sys \<and> d' = d \<and> dir' = dir)"
    if "dread_loop cfg' sys' env' d' dir' w' = Some r'" for cfg' sys' env' d' dir' w' r'
  proof (rule dread_loop.raw_induct [where P = "\<lambda>cfg' sys' env' d' dir' w' r'. \<not> (sys' = sys \<and> d' = d \<and> dir' = dir)",
        OF _ that])
    fix f cfg' env' w' r' and sys' :: "'a msfs_sys" and d' dir'
    assume IH: "\<And>cfg' sys' env' d' dir' w' r'.
        f cfg' sys' env' d' dir' w' = Some r' \<Longrightarrow> \<not> (sys' = sys \<and> d' = d \<and> dir' = dir)"
      and eq: "(case next_entry cfg' sys' env' d' dir' w' of (res, d, dir, w) \<Rightarrow>
         if res \<noteq> 0 \<and> ds_filter d \<noteq> [] \<and> \<not> ScePspemuMsfsDirectoryFilter (d_name dir) (ds_filter d)
         then f cfg' sys' env' d dir w else Some (res, d, dir, w)) = Some r'"
    show "\<not> (sys' = sys \<and> d' = d \<and> dir' = dir)"
    proof
      assume s: "sys' = sys \<and> d' = d \<and> dir' = dir"
      obtain e w1 where e: "e < 0" "sceIoDread sys (ds_fd d) dir w' = (e, dir, w1)"
        using dead by blast
      have "next_entry cfg' sys' env' d' dir' w' = (e, d, dir, w1)"
        using s e(2) assms(2) by (simp add: next_entry_def)
      then have "f cfg' sys' env' d dir w1 = Some r'"
        using eq e(1) assms(3) by (simp add: admits_def)
      then show False
        using IH s by blast
    qed
  qed
  then show False
    using ret by blast
qed

section \<open>The table's invariant\<close>

definition descriptor_wf :: "msfs_cfg \<Rightarrow> descriptor \<Rightarrow> bool" where
  "descriptor_wf cfg d \<longleftrightarrow>
     length (ds_path d) < path_field cfg \<and> length (ds_filter d) < filter_field cfg
     \<and> ds_extra d \<in> {-1, 0, 1} \<and> (ds_folder d \<longrightarrow> \<not> ds_trunc d \<and> ds_flags d = {})"

definition msfs_inv :: "msfs_cfg \<Rightarrow> descriptor list \<Rightarrow> bool" where
  "msfs_inv cfg ds \<longleftrightarrow> length ds = MAX_DESCRIPTORS cfg \<and> (\<forall>d \<in> set ds. descriptor_wf cfg d)"

definition msfs_fields :: "msfs_cfg \<Rightarrow> bool" where
  "msfs_fields cfg \<longleftrightarrow> 0 < path_field cfg \<and> 0 < filter_field cfg"

lemma blank_wf [inv_intros]: "msfs_fields cfg \<Longrightarrow> descriptor_wf cfg blank_descriptor"
  by (simp add: descriptor_wf_def blank_descriptor_def msfs_fields_def)

lemma wf_updates [simp]:
  "descriptor_wf cfg (d\<lparr>ds_fd := f\<rparr>) = descriptor_wf cfg d"
  "descriptor_wf cfg (d\<lparr>ds_offset := off\<rparr>) = descriptor_wf cfg d"
  "descriptor_wf cfg (d\<lparr>ds_first_write_offset := off, ds_first_write := b\<rparr>) = descriptor_wf cfg d"
  by (simp_all add: descriptor_wf_def)

lemma update_inv [inv_intros]:
  "msfs_inv cfg ds \<Longrightarrow> descriptor_wf cfg d \<Longrightarrow> msfs_inv cfg (ds[i := d])"
  using set_update_subset_insert [of ds i d] by (auto simp: msfs_inv_def)

lemma put_inv [inv_intros]: "msfs_inv cfg ds \<Longrightarrow> descriptor_wf cfg d \<Longrightarrow> msfs_inv cfg (put_descriptor i d ds)"
  unfolding put_descriptor_def by (rule update_inv)

lemma get_wf:
  "msfs_inv cfg ds \<Longrightarrow> ScePspemuMsfsGetDescriptor i ds = Some d \<Longrightarrow> descriptor_wf cfg d"
  by (auto simp: ScePspemuMsfsGetDescriptor_def msfs_inv_def split: if_splits)

lemma remove_inv [inv_intros]:
  "msfs_fields cfg \<Longrightarrow> msfs_inv cfg ds \<Longrightarrow> msfs_inv cfg (snd (ScePspemuMsfsRemoveDescriptor i ds))"
  by (auto simp: ScePspemuMsfsRemoveDescriptor_def split: option.split intro: inv_intros)

lemma new_wf:
  assumes "msfs_fields cfg" "new_descriptor cfg fd p flags trunc folder = Some d" "folder \<longrightarrow> \<not> trunc \<and> flags = {}"
  shows "descriptor_wf cfg d"
  using assms by (auto simp: new_descriptor_def copied_def descriptor_wf_def blank_descriptor_def msfs_fields_def
      Let_def split: if_splits)

lemma add_inv:
  assumes "msfs_fields cfg" "msfs_inv cfg ds" "folder \<longrightarrow> \<not> trunc \<and> flags = {}"
    "ScePspemuMsfsAddDescriptor cfg fd p flags trunc folder ds = Some (i, ds')"
  shows "msfs_inv cfg ds'"
proof (cases "first_index free_slot ds = length ds")
  case True
  then show ?thesis
    using assms by (simp add: ScePspemuMsfsAddDescriptor_def)
next
  case False
  then obtain d where d: "new_descriptor cfg fd p flags trunc folder = Some d" "ds' = ds[first_index free_slot ds := d]"
    using assms(4) by (auto simp: ScePspemuMsfsAddDescriptor_def claim_descriptor_def bind_eq_Some_conv Let_def)
  show ?thesis
    unfolding d(2) by (intro inv_intros assms(2) new_wf [OF assms(1) d(1) assms(3)])
qed

lemma reopen_wf: "descriptor_wf cfg (fst (snd (ScePspemuMsfsReopenFile sys env d w))) = descriptor_wf cfg d"
  by (simp add: ScePspemuMsfsReopenFile_def Let_def split: prod.splits)

lemma reopened_wf:
  "ScePspemuMsfsReopenFile sys env d w = (fd, d', w') \<Longrightarrow> descriptor_wf cfg d' = descriptor_wf cfg d"
  using reopen_wf [of cfg sys env d w] by simp

lemma read_chunk_wf: "read_chunk cfg sys env d n w = (res, data, d', w') \<Longrightarrow> descriptor_wf cfg d \<Longrightarrow> descriptor_wf cfg d'"
  by (auto simp: read_chunk_def Let_def reopened_wf split: prod.splits if_splits)

lemma write_chunk_wf: "write_chunk cfg sys env d data w = (res, d', w') \<Longrightarrow> descriptor_wf cfg d \<Longrightarrow> descriptor_wf cfg d'"
  by (auto simp: write_chunk_def Let_def reopened_wf split: prod.splits if_splits)

lemma read_loop_wf:
  "read_loop cfg sys env want seek buf d w = Some (res, buf', d', w') \<Longrightarrow> descriptor_wf cfg d \<Longrightarrow> descriptor_wf cfg d'"
proof (induction cfg sys env want seek buf d w rule: read_loop.induct)
  case (1 cfg sys env want seek buf d w)
  obtain r data d1 w1 where c: "read_chunk cfg sys env d (nat (io_chunk cfg want seek)) w = (r, data, d1, w1)"
    by (metis prod_cases4)
  have wf1: "descriptor_wf cfg d1"
    using read_chunk_wf [OF c 1(3)] .
  show ?case
    using 1(2) wf1 1(1) [OF refl _ refl c [symmetric] refl refl _ refl]
    by (subst (asm) read_loop.simps) (auto simp: c Let_def split: if_splits)
qed

lemma write_loop_wf:
  "write_loop cfg sys env want seek data d w = Some (res, d', w') \<Longrightarrow> descriptor_wf cfg d \<Longrightarrow> descriptor_wf cfg d'"
proof (induction cfg sys env want seek data d w rule: write_loop.induct)
  case (1 cfg sys env want seek data d w)
  obtain r d1 w1 where c: "write_chunk cfg sys env d (take (nat (io_chunk cfg want seek)) (drop seek data)) w = (r, d1, w1)"
    by (metis prod_cases3)
  have wf1: "descriptor_wf cfg d1"
    using write_chunk_wf [OF c 1(3)] .
  show ?case
    using 1(2) wf1 1(1) [OF refl _ refl c [symmetric] refl _ _ refl refl]
    by (subst (asm) write_loop.simps) (auto simp: c Let_def split: if_splits)
qed

lemma next_entry_wf:
  "next_entry cfg sys env d dir w = (res, d', dir', w') \<Longrightarrow> descriptor_wf cfg d \<Longrightarrow> descriptor_wf cfg d'"
  by (auto simp: next_entry_def ScePspemuMsfsExtraDread_def descriptor_wf_def Let_def split: prod.splits if_splits)

lemma dread_loop_wf:
  assumes "dread_loop cfg sys env d dir w = Some (res, d', dir', w')" "descriptor_wf cfg d"
  shows "descriptor_wf cfg d'"
proof -
  have "descriptor_wf cfg d \<longrightarrow> descriptor_wf cfg (fst (snd r))" if "dread_loop cfg sys env d dir w = Some r" for r
  proof (rule dread_loop.raw_induct [where P = "\<lambda>cfg sys env d dir w r. descriptor_wf cfg d \<longrightarrow> descriptor_wf cfg (fst (snd r))",
        OF _ that])
    fix f cfg and sys :: "'a msfs_sys" and env d dir w r
    assume IH: "\<And>cfg sys env d dir w r. f cfg sys env d dir w = Some r \<Longrightarrow>
          descriptor_wf cfg d \<longrightarrow> descriptor_wf cfg (fst (snd r))"
      and eq: "(case next_entry cfg sys env d dir w of (res, d, dir, w) \<Rightarrow>
         if res \<noteq> 0 \<and> ds_filter d \<noteq> [] \<and> \<not> ScePspemuMsfsDirectoryFilter (d_name dir) (ds_filter d)
         then f cfg sys env d dir w else Some (res, d, dir, w)) = Some r"
    obtain e d1 dir1 w1 where n: "next_entry cfg sys env d dir w = (e, d1, dir1, w1)"
      by (metis prod_cases4)
    show "descriptor_wf cfg d \<longrightarrow> descriptor_wf cfg (fst (snd r))"
      using eq IH [of cfg sys env d1 dir1 w1 r] next_entry_wf [OF n] by (auto simp: n split: if_splits)
  qed
  then show ?thesis
    using assms by fastforce
qed

lemma reopen_all_wf:
  "\<forall>d \<in> set ds. descriptor_wf cfg d \<Longrightarrow>
     length (fst (reopen_descriptors sys env ds w)) = length ds
     \<and> (\<forall>d \<in> set (fst (reopen_descriptors sys env ds w)). descriptor_wf cfg d)"
proof (induction ds arbitrary: w)
  case (Cons d ds)
  then show ?case
    using reopen_wf [of cfg sys env d] by (auto simp: Let_def split: prod.splits) (metis fst_conv snd_conv)+
qed simp

lemma close_all_inv [inv_intros]:
  "msfs_fields cfg \<Longrightarrow> msfs_inv cfg ds \<Longrightarrow> msfs_inv cfg (fst (ScePspemuMsfsCloseAllDescriptors sys ds w))"
  by (auto simp: ScePspemuMsfsCloseAllDescriptors_def msfs_inv_def intro: blank_wf)

lemma set_descriptors_inv:
  assumes "msfs_inv cfg saved"
  shows "msfs_inv cfg (fst (ScePspemuMsfsSetFileDescriptors sys env saved ds w))"
  using reopen_all_wf [of saved cfg sys env "snd (ScePspemuMsfsCloseAllDescriptors sys ds w)"] assms
  by (simp add: ScePspemuMsfsSetFileDescriptors_def msfs_inv_def case_prod_beta)

lemma open_inv:
  assumes "msfs_fields cfg" "msfs_inv cfg ds" "ScePspemuMsfsOpen cfg sys env file flags ds w = Some (res, ds', w')"
  shows "msfs_inv cfg ds'"
  using assms add_inv [OF assms(1,2), of False]
  by (auto simp: ScePspemuMsfsOpen_def Let_def bind_eq_Some_conv case_prod_beta split: if_splits)

lemma dopen_inv:
  assumes "msfs_fields cfg" "msfs_inv cfg ds" "ScePspemuMsfsDopen cfg sys env dir ds w = Some (res, ds', w')"
  shows "msfs_inv cfg ds'"
  using assms add_inv [OF assms(1,2), of True False "{}"]
  by (auto simp: ScePspemuMsfsDopen_def Let_def bind_eq_Some_conv case_prod_beta split: if_splits)

lemma close_inv:
  assumes "msfs_fields cfg" "msfs_inv cfg ds" "ScePspemuMsfsClose cfg sys env i ds w = Some (res, ds', w')"
  shows "msfs_inv cfg ds'"
  using assms remove_inv [OF assms(1,2)]
  by (auto simp: ScePspemuMsfsClose_def Let_def bind_eq_Some_conv case_prod_beta split: if_splits option.splits)

lemma dclose_inv:
  assumes "msfs_fields cfg" "msfs_inv cfg ds" "ScePspemuMsfsDclose cfg sys i ds w = (res, ds', w')"
  shows "msfs_inv cfg ds'"
  using assms remove_inv [OF assms(1,2)]
  by (auto simp: ScePspemuMsfsDclose_def Let_def case_prod_beta split: if_splits option.splits)

lemma read_inv:
  assumes "msfs_inv cfg ds" "ScePspemuMsfsRead cfg sys env i buf n ds w = Some (res, buf', ds', w')"
  shows "msfs_inv cfg ds'"
  using assms get_wf [OF assms(1)]
  by (auto simp: ScePspemuMsfsRead_def bind_eq_Some_conv case_prod_beta split: option.splits
      intro!: put_inv dest: read_loop_wf)

lemma write_inv:
  assumes "msfs_inv cfg ds" "ScePspemuMsfsWrite cfg sys env i data n ds w = Some (res, ds', w')"
  shows "msfs_inv cfg ds'"
  using assms get_wf [OF assms(1)]
  by (auto simp: ScePspemuMsfsWrite_def note_first_write_def bind_eq_Some_conv case_prod_beta split: option.splits if_splits
      intro!: put_inv dest: write_loop_wf)

lemma lseek_inv:
  assumes "msfs_inv cfg ds" "ScePspemuMsfsLseek cfg sys env i off whence ds w = (res, ds', w')"
  shows "msfs_inv cfg ds'"
  using assms get_wf [OF assms(1)]
  by (auto simp: ScePspemuMsfsLseek_def Let_def reopen_wf case_prod_beta split: option.splits if_splits intro!: put_inv)

lemma ioctl_inv:
  assumes "msfs_inv cfg ds" "ScePspemuMsfsIoctl cfg i cmd indata ds = Some (res, ds')"
  shows "msfs_inv cfg ds'"
  using assms get_wf [OF assms(1)]
  by (auto simp: ScePspemuMsfsIoctl_def copied_def bind_eq_Some_conv descriptor_wf_def case_prod_beta
      split: option.splits if_splits intro!: put_inv)

lemma dread_inv:
  assumes "msfs_inv cfg ds" "ScePspemuMsfsDread cfg sys env mapped i dir ds w = Some (res, dir', long, ds', w')"
  shows "msfs_inv cfg ds'"
  using assms get_wf [OF assms(1)]
  by (auto simp: ScePspemuMsfsDread_def Let_def bind_eq_Some_conv case_prod_beta
      split: option.splits if_splits intro!: put_inv dest: dread_loop_wf)

lemma msfs_serve_inv:
  assumes "msfs_fields cfg" "msfs_inv cfg ds"
    "msfs_serve cfg sys env mapped r (ds, w) = Some (a, ds', w')"
  shows "msfs_inv cfg ds'"
proof (cases r)
  case MSFS_INIT
  then show ?thesis
    using assms close_all_inv [OF assms(1,2), of sys w] by (auto simp: ScePspemuMsfsInit_def)
next
  case MSFS_EXIT
  then show ?thesis
    using assms close_all_inv [OF assms(1,2), of sys w] by (auto simp: ScePspemuMsfsExit_def)
qed (use assms in \<open>auto simp: bind_eq_Some_conv split: prod.splits
      dest: open_inv dopen_inv close_inv dclose_inv read_inv write_inv lseek_inv ioctl_inv dread_inv\<close>)

lemma msfs_read_loop:
  assumes "fs_contract (host sys) V" and "ScePspemuMsfsGetDescriptor i ds = Some d"
    and "holds V w (ds_fd d) p pos fs" and "files fs p = Some c"
    and "io_sizes cfg want" and "want \<le> length buf"
  shows "\<exists>w'. ScePspemuMsfsRead cfg sys env i buf want ds w
       = Some (int (length (take want (drop pos c))), overlay buf (take want (drop pos c)),
               put_descriptor i (d\<lparr>ds_offset := ds_offset d + int (length (take want (drop pos c)))\<rparr>) ds, w')
     \<and> holds V w' (ds_fd d) p (pos + length (take want (drop pos c))) fs"
  using read_loop_correct [OF assms(1,4,5,6) _ assms(3), where seek = 0 and env = env] assms(2)
  by (auto simp: ScePspemuMsfsRead_def overlay_at_0)

section \<open>Properties\<close>

text \<open>
  A read request is one read. Whatever the transfer limit, a request to read \<open>want\<close> bytes of an open file
  returns the bytes that remain, at most \<open>want\<close>, puts them at the start of the caller's buffer and nothing
  else, and moves the file and the descriptor's saved offset by that many bytes.
\<close>

theorem msfs_read_serves:
  assumes "fs_contract (host sys) V" and "ScePspemuMsfsGetDescriptor i ds = Some d"
    and "holds V w (ds_fd d) p pos fs" and "files fs p = Some c"
    and "io_sizes cfg want" and "want \<le> length buf"
  defines "data \<equiv> take want (drop pos c)"
  shows "\<exists>w'. ScePspemuMsfsRead cfg sys env i buf want ds w
       = Some (int (length data), overlay buf data,
               put_descriptor i (d\<lparr>ds_offset := ds_offset d + int (length data)\<rparr>) ds, w')
     \<and> holds V w' (ds_fd d) p (pos + length data) fs"
  unfolding data_def by (rule msfs_read_loop [OF assms(1-6)])

definition msfs_sample_cfg :: msfs_cfg where
  "msfs_sample_cfg = \<lparr>MAX_DESCRIPTORS = 2, TRANSFER_SIZE = 2, MAX_IO_SIZE = 2, path_field = 256, filter_field = 32,
     ENODEV = -19, EINVAL = -22, S_IFDIR = 0x1000, S_IFREG = 0x2000, S_IRWX = 0x1FF, SECTOR_SIZE = 512, SO_IFDIR = 0x10,
     SO_IFREG = 0x20, CST_DROPPED = 0xF\<rparr>"

definition mem_msfs :: "mem msfs_sys" where
  "mem_msfs = \<lparr>host = mem_io, sceIoRename = (\<lambda>p q m. (-1, m)), sceIoMkdir = (\<lambda>p n m. (-1, m)),
     sceIoRmdir = (\<lambda>p m. (-1, m)), sceIoDopen = (\<lambda>p m. (-1, m)), sceIoDclose = (\<lambda>fd m. (-1, m)),
     sceIoDread = (\<lambda>fd dir m. case mdirs m of [] \<Rightarrow> (0, dir, m)
                     | n # ns \<Rightarrow> (1, dir\<lparr>d_name := n\<rparr>, m\<lparr>mdirs := ns\<rparr>)),
     sceIoStat = (\<lambda>p st m. (0, st, m)), sceIoChstat = (\<lambda>p st b m. (0, m)),
     sceIoDevctl = (\<lambda>p c m. (-1, \<lparr>max_size = 0, free_size = 0, cluster_size = 0\<rparr>, m)),
     to_localtime = (\<lambda>st. st), to_utc = (\<lambda>st. st), divide = (\<lambda>a b. ucast (a div b)),
     heap = (\<lambda>n m. Some (replicate n NUL))\<rparr>"

definition msfs_sample_file :: path where
  "msfs_sample_file = ''ux0:pspemu/A.TXT''"

definition msfs_sample_mem :: "nat \<Rightarrow> mem" where
  "msfs_sample_mem pos = \<lparr>mfiles = [msfs_sample_file \<mapsto> ''abcdefgh'', msfs_sample_file @ TRUNC_SUFFIX \<mapsto> ''ABCDEFGH''],
     mdirs = [''A.ISO'', ''B.TXT'', ''C.ISO''], mhandles = [None, Some (msfs_sample_file, pos)]\<rparr>"

definition msfs_sample_desc :: descriptor where
  "msfs_sample_desc = blank_descriptor\<lparr>ds_path := ''/A.TXT'', ds_fd := 1, ds_extra := -1, ds_offset := 3,
     ds_first_write := True, ds_first_write_offset := 3, ds_trunc := True\<rparr>"

lemma msfs_sample_facts:
  "fs_contract (host mem_msfs) mem_view"
  "ScePspemuMsfsGetDescriptor 0 [msfs_sample_desc, blank_descriptor] = Some msfs_sample_desc"
  "ds_fd msfs_sample_desc = 1" "ds_offset msfs_sample_desc = 3"
  "io_sizes msfs_sample_cfg 5"
proof -
  show "fs_contract (host mem_msfs) mem_view"
    using mem_contract by (simp add: mem_msfs_def)
qed (simp_all add: ScePspemuMsfsGetDescriptor_def msfs_sample_desc_def io_sizes_def msfs_sample_cfg_def)

definition msfs_sample_view :: fsview where
  "msfs_sample_view = (mem_view (msfs_sample_mem 0))\<lparr>handles := (\<lambda>_. None)\<rparr>"

lemma msfs_sample_holds:
  "holds mem_view (msfs_sample_mem k) (ds_fd msfs_sample_desc) msfs_sample_file k msfs_sample_view"
  "files msfs_sample_view msfs_sample_file = Some ''abcdefgh''"
  "files msfs_sample_view (msfs_sample_file @ TRUNC_SUFFIX) = Some ''ABCDEFGH''"
proof -
  have "mem_handle (msfs_sample_mem k) = (\<lambda>_. None)(1 := Some (msfs_sample_file, k))"
    by (rule ext) (auto simp: mem_handle_def msfs_sample_mem_def nth_Cons split: nat.splits)
  then show "holds mem_view (msfs_sample_mem k) (ds_fd msfs_sample_desc) msfs_sample_file k msfs_sample_view"
    by (simp add: holds_def mem_view_def msfs_sample_view_def msfs_sample_mem_def msfs_sample_facts(3))
qed (simp_all add: msfs_sample_view_def mem_view_def msfs_sample_mem_def TRUNC_SUFFIX_def)

definition msfs_sample_env :: msfs_env where
  "msfs_sample_env = \<lparr>titleid = ''ABCD00001'', ms_loc = 0\<rparr>"

theorem msfs_read_serves_witness:
  "\<exists>ds' w'. ScePspemuMsfsRead msfs_sample_cfg mem_msfs msfs_sample_env 0 (replicate 8 CHR ''.'') 5
       [msfs_sample_desc, blank_descriptor] (msfs_sample_mem 5) = Some (3, ''fgh.....'', ds', w')"
proof -
  have b: "(5 :: nat) \<le> length (replicate 8 CHR ''.'')"
    by simp
  note f = msfs_sample_facts
  have "take 5 (drop 5 ''abcdefgh'') = ''fgh''" "overlay (replicate 8 CHR ''.'') ''fgh'' = ''fgh.....''"
    by (simp_all add: overlay_def eval_nat_numeral)
  then show ?thesis
    using msfs_read_serves [OF f(1,2) msfs_sample_holds(1) [of 5] msfs_sample_holds(2) f(5) b, where env = msfs_sample_env]
    by fastforce
qed

text \<open>
  C11: what is written is what is read back. A write request on an open file stores all its bytes whatever the
  transfer limit, and seeking back to where it began and reading the same amount returns them; the rest of the
  file, the other files and the caller's buffer past the data are untouched.
\<close>

theorem msfs_write_then_read:
  assumes "fs_contract (host sys) V" and "ScePspemuMsfsGetDescriptor i ds = Some d"
    and "holds V w (ds_fd d) p pos fs" and "files fs p = Some c" and "pos \<le> length c"
    and "io_sizes cfg want" and "want \<le> length data" and "want \<le> length buf" and "pos < 2 ^ 31"
  shows "\<exists>ds1 w1 ds2 w2 ds3 w3.
       ScePspemuMsfsWrite cfg sys env i data want ds w = Some (int want, ds1, w1)
     \<and> ScePspemuMsfsLseek cfg sys env i (int pos) SEEK_SET ds1 w1 = (int pos, ds2, w2)
     \<and> ScePspemuMsfsRead cfg sys env i buf want ds2 w2 = Some (int want, overlay buf (take want data), ds3, w3)
     \<and> holds V w3 (ds_fd d) p (pos + want)
         (fs\<lparr>files := (files fs)(p := Some (overlay_at pos c (take want data)))\<rparr>)"
proof -
  let ?fs = "fs\<lparr>files := (files fs)(p := Some (overlay_at pos c (take want data)))\<rparr>"
  let ?d0 = "note_first_write want d"
  let ?d1 = "?d0\<lparr>ds_offset := ds_offset ?d0 + int want\<rparr>"
  let ?d2 = "?d1\<lparr>ds_offset := int pos\<rparr>"
  have i: "0 \<le> i" "nat i < length ds"
    using assms(2) by (auto simp: ScePspemuMsfsGetDescriptor_def split: if_splits)
  have get: "ScePspemuMsfsGetDescriptor i (put_descriptor i e es) = Some e" if "length es = length ds" for e es
    using i that by (simp add: ScePspemuMsfsGetDescriptor_def put_descriptor_def)
  have fd: "ds_fd ?d0 = ds_fd d"
    by (simp add: note_first_write_def)
  have h0: "holds V w (ds_fd ?d0) p pos fs"
    using assms(3) by (simp only: fd)
  obtain w1 where wr: "write_loop cfg sys env want 0 data ?d0 w = Some (int want, ?d1, w1)"
      "holds V w1 (ds_fd d) p (pos + want) ?fs"
    using write_loop_correct [OF assms(1,6,7) _ assms(4,5) h0, of 0 env] by (auto simp: fd)
  have t: "seek_target SEEK_SET (int pos) (pos + want) x = int pos" for x
    by (simp add: seek_target_def)
  have f: "files ?fs p = Some (overlay_at pos c (take want data))"
    by simp
  obtain w2 where sk: "sceIoLseek (host sys) (ds_fd d) (int pos) SEEK_SET w1 = (int pos, w2)"
      "holds V w2 (ds_fd d) p pos ?fs"
    using seek_holds [OF assms(1) wr(2) f, of SEEK_SET "int pos"] unfolding t by auto
  have ip: "to_int32 (int pos) = int pos"
    using assms(9) by (intro to_int32_id) auto
  have "ENODEV cfg < 0"
    using assms(6) by (simp add: io_sizes_def)
  then have "ScePspemuMsfsLseek cfg sys env i (int pos) SEEK_SET (put_descriptor i ?d1 ds) w1
      = (int pos, put_descriptor i ?d2 (put_descriptor i ?d1 ds), w2)"
    by (simp add: ScePspemuMsfsLseek_def get fd sk(1) ip)
  moreover have "ScePspemuMsfsWrite cfg sys env i data want ds w = Some (int want, put_descriptor i ?d1 ds, w1)"
    using assms(2) by (simp add: ScePspemuMsfsWrite_def wr(1))
  moreover obtain ds3 w3 where "ScePspemuMsfsRead cfg sys env i buf want (put_descriptor i ?d2 (put_descriptor i ?d1 ds)) w2
        = Some (int want, overlay buf (take want data), ds3, w3)" "holds V w3 (ds_fd d) p (pos + want) ?fs"
  proof -
    have g2: "ScePspemuMsfsGetDescriptor i (put_descriptor i ?d2 (put_descriptor i ?d1 ds)) = Some ?d2"
      by (rule get) (simp add: put_descriptor_def)
    have h2: "holds V w2 (ds_fd ?d2) p pos ?fs"
      using sk(2) by (simp add: fd)
    have "take want (drop pos (overlay_at pos c (take want data))) = take want data"
      using assms(5,7) by (simp add: overlay_at_def)
    then show ?thesis
      using msfs_read_loop [OF assms(1) g2 h2 f assms(6,8), of env] assms(7) that by (auto simp: fd)
  qed
  ultimately show ?thesis
    by blast
qed

theorem msfs_write_then_read_witness:
  "\<exists>ds1 w1 ds2 w2 ds3 w3.
       ScePspemuMsfsWrite msfs_sample_cfg mem_msfs msfs_sample_env 0 ''12345'' 5 [msfs_sample_desc, blank_descriptor]
         (msfs_sample_mem 2) = Some (5, ds1, w1)
     \<and> ScePspemuMsfsLseek msfs_sample_cfg mem_msfs msfs_sample_env 0 2 SEEK_SET ds1 w1 = (2, ds2, w2)
     \<and> ScePspemuMsfsRead msfs_sample_cfg mem_msfs msfs_sample_env 0 ''.....'' 5 ds2 w2 = Some (5, ''12345'', ds3, w3)"
proof -
  note f = msfs_sample_facts
  have b: "(5 :: nat) \<le> length ''12345''" "(5 :: nat) \<le> length ''.....''" "2 \<le> length ''abcdefgh''" "(2 :: nat) < 2 ^ 31"
    by simp_all
  have e: "overlay ''.....'' (take 5 ''12345'') = ''12345''"
    by (simp add: overlay_def)
  show ?thesis
    using msfs_write_then_read [OF f(1,2) msfs_sample_holds(1) [of 2] msfs_sample_holds(2) b(3) f(5) b(1,2,4), where env = msfs_sample_env]
    unfolding e by fastforce
qed

text \<open>
  C9: truncation keeps what a PSP keeps. The host empties a file opened for truncation; when such a file is
  closed, the bytes before the first write are copied back from the copy saved at opening, what was written
  stays, the copy is gone, no handle is left and the descriptor is free again.
\<close>

theorem msfs_close_restores:
  assumes "fs_contract (host sys) V" and "ScePspemuMsfsGetDescriptor i ds = Some d" and "ds_trunc d"
    and "buildPspemuMsfsPath env (ds_path d) = p" and "length p + 9 < MAX_PATH_LENGTH"
    and "holds V w (ds_fd d) p pos fs" and "handles fs (ds_fd d) = None"
    and "files fs p = Some cur" and "files fs (p @ TRUNC_SUFFIX) = Some old"
    and "ds_first_write_offset d = int limit" and "limit \<le> length old" and "limit \<le> length cur"
    and "\<forall>w. heap sys (TRANSFER_SIZE cfg) w = Some (replicate (TRANSFER_SIZE cfg) NUL)"
    and "0 < TRANSFER_SIZE cfg" and "ENODEV cfg < 0"
  shows "\<exists>res w'. ScePspemuMsfsClose cfg sys env i ds w = Some (res, ds[nat i := blank_descriptor], w')
     \<and> 0 \<le> res
     \<and> V w' = fs\<lparr>files := (files fs)(p := Some (take limit old @ drop limit cur), p @ TRUNC_SUFFIX := None)\<rparr>"
proof -
  let ?fs = "fs\<lparr>files := (files fs)(p := Some (take limit old @ drop limit cur), p @ TRUNC_SUFFIX := None)\<rparr>"
  have buf: "\<exists>buf. heap sys (TRANSFER_SIZE cfg) w = Some buf \<and> length buf = TRANSFER_SIZE cfg" for w
    using assms(13) by simp
  obtain w1 where tf: "ScePspemuMsfsTruncateFix cfg sys env d w = Some (0, w1)" "holds V w1 (ds_fd d) p limit ?fs"
    using truncate_fix_correct [where d = d and env = env, unfolded assms(4),
        OF assms(1,5,6,8,9,10,11,12) buf assms(14)] by blast
  obtain res w2 where cl: "sceIoClose (host sys) (ds_fd d) w1 = (res, w2)" "0 \<le> res" "V w2 = ?fs"
    using close_holds [OF assms(1) tf(2)] assms(7) by auto
  have "ScePspemuMsfsClose cfg sys env i ds w = Some (res, ds[nat i := blank_descriptor], w2)"
    using assms(2,3,15) tf(1) cl(1,2)
    by (simp add: ScePspemuMsfsClose_def close_result_def ScePspemuMsfsRemoveDescriptor_def)
  then show ?thesis
    using cl(2,3) by blast
qed

theorem msfs_close_restores_witness:
  "\<exists>res w'. ScePspemuMsfsClose msfs_sample_cfg mem_msfs msfs_sample_env 0 [msfs_sample_desc, blank_descriptor] (msfs_sample_mem 5)
       = Some (res, [blank_descriptor, blank_descriptor], w')
     \<and> files (mem_view w') msfs_sample_file = Some ''ABCdefgh'' \<and> files (mem_view w') (msfs_sample_file @ TRUNC_SUFFIX) = None"
proof -
  note f = msfs_sample_facts and h = msfs_sample_holds
  have a: "ds_trunc msfs_sample_desc" "buildPspemuMsfsPath msfs_sample_env (ds_path msfs_sample_desc) = msfs_sample_file"
    "length msfs_sample_file + 9 < MAX_PATH_LENGTH" "handles msfs_sample_view (ds_fd msfs_sample_desc) = None"
    "ds_first_write_offset msfs_sample_desc = int 3" "3 \<le> length ''ABCDEFGH''" "3 \<le> length ''abcdefgh''"
    "\<forall>w. heap mem_msfs (TRANSFER_SIZE msfs_sample_cfg) w = Some (replicate (TRANSFER_SIZE msfs_sample_cfg) NUL)"
    "0 < TRANSFER_SIZE msfs_sample_cfg" "ENODEV msfs_sample_cfg < 0"
    by (simp_all add: msfs_sample_desc_def buildPspemuMsfsPath_def msfs_sample_env_def msfs_sample_file_def
        MAX_PATH_LENGTH_def msfs_sample_view_def mem_msfs_def msfs_sample_cfg_def printed_def
        getPspemuMemoryStickLocation_def)
  have e: "[msfs_sample_desc, blank_descriptor][nat 0 := blank_descriptor] = [blank_descriptor, blank_descriptor]"
    "take 3 ''ABCDEFGH'' @ drop 3 ''abcdefgh'' = ''ABCdefgh''" "msfs_sample_file \<noteq> msfs_sample_file @ TRUNC_SUFFIX"
    by (simp_all add: TRUNC_SUFFIX_def)
  show ?thesis
    using msfs_close_restores [OF f(1,2) a(1-3) h(1) [of 5] a(4) h(2,3) a(5-10)] unfolding e(1,2) using e(3) by fastforce
qed





text \<open>
  C12: reading a directory ends. On a directory that delivers its entries and then 0, a read request always
  returns: it skips the entries the filter rejects, the two dot entries of a non-root directory included, gives
  the first that passes with result 1 and leaves the rest for the next request, or gives 0 when none is left.
\<close>

theorem msfs_dread_next:
  assumes "dir_contract sys pending" and "ScePspemuMsfsGetDescriptor i ds = Some d"
    and "ds_extra d < 2" and "d_private dir = 0"
  shows "\<exists>res dir' x w'. let d' = d\<lparr>ds_extra := x\<rparr> in
       ScePspemuMsfsDread cfg sys env mapped i dir ds w = Some (res, dir', None, put_descriptor i d' ds, w')
     \<and> (case dropWhile (\<lambda>n. \<not> admits (ds_filter d) n) (pending_names pending d w) of
          [] \<Rightarrow> res = 0 \<and> pending_names pending d' w' = []
        | n # ns \<Rightarrow> res = 1 \<and> d_name dir' = n \<and> pending_names pending d' w' = ns)"
proof -
  obtain res dir' x w' where r: "dread_loop cfg sys env d dir w = Some (res, d\<lparr>ds_extra := x\<rparr>, dir', w')"
    "case dropWhile (\<lambda>n. \<not> admits (ds_filter d) n) (pending_names pending d w) of
          [] \<Rightarrow> res = 0 \<and> pending_names pending (d\<lparr>ds_extra := x\<rparr>) w' = []
        | n # ns \<Rightarrow> res = 1 \<and> d_name dir' = n \<and> pending_names pending (d\<lparr>ds_extra := x\<rparr>) w' = ns"
    using dread_loop_correct [OF assms(1,3), where cfg = cfg and env = env and dir = dir and w = w] by auto
  let ?dir = "dir'\<lparr>d_stat := convertFileStat cfg sys (d_stat dir'), d_private := d_private dir\<rparr>"
  have "ScePspemuMsfsDread cfg sys env mapped i dir ds w
      = Some (res, ?dir, None, put_descriptor i (d\<lparr>ds_extra := x\<rparr>) ds, w')"
    using assms(2,4) r(1) by (simp add: ScePspemuMsfsDread_def)
  moreover have "d_name ?dir = d_name dir'"
    by simp
  ultimately show ?thesis
    unfolding Let_def using r(2) by metis
qed

definition msfs_dir_desc :: "path \<Rightarrow> descriptor" where
  "msfs_dir_desc flt = blank_descriptor\<lparr>ds_path := ''/ISO'', ds_fd := 7, ds_folder := True, ds_filter := flt\<rparr>"

definition msfs_dirent :: SceIoDirent where
  "msfs_dirent = \<lparr>d_stat = \<lparr>st_mode = 0, st_attr = 0, st_size = 0, st_times = []\<rparr>, d_name = ''zzz'', d_private = 0\<rparr>"

text \<open>One directory only: the instance's entries are those of every handle.\<close>

definition one_dir_msfs :: "path list msfs_sys" where
  "one_dir_msfs = \<lparr>host = \<lparr>sceIoOpen = (\<lambda>p fl n w. (-1, w)), sceIoRead = (\<lambda>fd n w. (-1, [], w)),
       sceIoWrite = (\<lambda>fd d w. (-1, w)), sceIoLseek = (\<lambda>fd off wh w. (-1, w)), sceIoClose = (\<lambda>fd w. (-1, w)),
       sceIoGetstat = (\<lambda>p w. (-1, w)), sceIoRemove = (\<lambda>p w. (-1, w))\<rparr>,
     sceIoRename = (\<lambda>p q m. (-1, m)), sceIoMkdir = (\<lambda>p n m. (-1, m)),
     sceIoRmdir = (\<lambda>p m. (-1, m)), sceIoDopen = (\<lambda>p m. (7, m)), sceIoDclose = (\<lambda>fd m. (0, m)),
     sceIoDread = (\<lambda>fd dir ns. if fd = 7 then (case ns of [] \<Rightarrow> (0, dir, []) | n # ns \<Rightarrow> (1, dir\<lparr>d_name := n\<rparr>, ns))
                     else (0, dir, ns)),
     sceIoStat = (\<lambda>p st m. (0, st, m)), sceIoChstat = (\<lambda>p st b m. (0, m)),
     sceIoDevctl = (\<lambda>p c m. (-1, \<lparr>max_size = 0, free_size = 0, cluster_size = 0\<rparr>, m)),
     to_localtime = (\<lambda>st. st), to_utc = (\<lambda>st. st), divide = (\<lambda>a b. ucast (a div b)),
     heap = (\<lambda>n m. None)\<rparr>"

definition one_dir_pending :: "path list \<Rightarrow> int \<Rightarrow> path list" where
  "one_dir_pending ns fd = (if fd = 7 then ns else [])"

lemma one_dir_contract: "dir_contract one_dir_msfs one_dir_pending"
  by (auto simp: dir_contract_def one_dir_msfs_def one_dir_pending_def fun_eq_iff split: list.split)

theorem msfs_dread_next_witness:
  "\<exists>dir' ds' w'. ScePspemuMsfsDread msfs_sample_cfg one_dir_msfs msfs_sample_env (\<lambda>_. False) 0 msfs_dirent
       [msfs_dir_desc ''*.ISO''] [''A.TXT'', ''B.ISO'', ''C.ISO''] = Some (1, dir', None, ds', w')
     \<and> d_name dir' = ''B.ISO''"
proof -
  have a: "ScePspemuMsfsGetDescriptor 0 [msfs_dir_desc ''*.ISO''] = Some (msfs_dir_desc ''*.ISO'')"
    "ds_extra (msfs_dir_desc ''*.ISO'') < 2" "d_private msfs_dirent = 0"
    by (simp_all add: ScePspemuMsfsGetDescriptor_def msfs_dir_desc_def blank_descriptor_def msfs_dirent_def)
  have p: "pending_names one_dir_pending (msfs_dir_desc ''*.ISO'') [''A.TXT'', ''B.ISO'', ''C.ISO'']
      = [''.'', ''..'', ''A.TXT'', ''B.ISO'', ''C.ISO'']"
    by (simp add: pending_names_def dots_def msfs_dir_desc_def blank_descriptor_def one_dir_pending_def)
  have ad: "\<not> admits ''*.ISO'' ''.''" "\<not> admits ''*.ISO'' ''..''" "\<not> admits ''*.ISO'' ''A.TXT''" "admits ''*.ISO'' ''B.ISO''"
    by (simp_all add: admits_def ScePspemuMsfsDirectoryFilter_def filter_walk.simps)
  have fl: "ds_filter (msfs_dir_desc ''*.ISO'') = ''*.ISO''"
    by (simp add: msfs_dir_desc_def)
  show ?thesis
    using msfs_dread_next [OF one_dir_contract a, where cfg = msfs_sample_cfg and env = msfs_sample_env
        and mapped = "\<lambda>_. False" and w = "[''A.TXT'', ''B.ISO'', ''C.ISO'']"]
    unfolding p fl by (simp add: ad Let_def) blast
qed

text \<open>
  C14: a dead directory handle. After a suspend the host refuses every read of the directory and leaves the
  caller's entry as it was; if the name in that entry does not pass the descriptor's filter, the request never
  returns: the loop repeats on any result but 0.
\<close>

theorem msfs_dread_hangs:
  assumes "ScePspemuMsfsGetDescriptor i ds = Some d" and "ds_extra d < 0"
    and "\<not> admits (ds_filter d) (d_name dir)"
    and "\<forall>w. fst (sceIoDread sys (ds_fd d) dir w) < 0 \<and> fst (snd (sceIoDread sys (ds_fd d) dir w)) = dir"
  shows "ScePspemuMsfsDread cfg sys env mapped i dir ds w = None"
proof -
  have "\<exists>e w'. e < 0 \<and> sceIoDread sys (ds_fd d) dir w = (e, dir, w')" for w
    using assms(4) by (metis prod.collapse)
  then have "dread_loop cfg sys env d dir w = None"
    using assms(2,3) by (rule dread_loop_hangs)
  then show ?thesis
    using assms(1) by (simp add: ScePspemuMsfsDread_def)
qed

definition dead_dir_msfs :: "path list msfs_sys" where
  "dead_dir_msfs = one_dir_msfs\<lparr>sceIoDread := (\<lambda>fd dir w. (-19, dir, w))\<rparr>"

theorem msfs_dread_hangs_witness:
  "ScePspemuMsfsDread msfs_sample_cfg dead_dir_msfs msfs_sample_env (\<lambda>_. False) 0 msfs_dirent
     [msfs_dir_desc ''*.ISO''\<lparr>ds_extra := -1\<rparr>] [] = None"
proof (rule msfs_dread_hangs)
  show "\<not> admits (ds_filter (msfs_dir_desc ''*.ISO''\<lparr>ds_extra := -1\<rparr>)) (d_name msfs_dirent)"
    by (simp add: admits_def msfs_dir_desc_def msfs_dirent_def ScePspemuMsfsDirectoryFilter_def filter_walk.simps)
qed (simp_all add: ScePspemuMsfsGetDescriptor_def dead_dir_msfs_def)

end
