(* ===== verification/IsoFs.thy ===== *)
theory IsoFs
  imports Slots SceIo "HOL-Library.Signed_Division"
begin

text \<open>
  The disc-image file system, \<open>overlay/cef/vshctrl/isofs_driver/isofs_driver.c\<close>: lookup of a path in the
  directory records of an ISO 9660 image, a table of open files, and reads that go through a buffer of eight
  sectors where a transfer is not whole sectors. The record layout, the sector size and the error codes come
  from headers outside the repository and are the fields of \<open>iso_cfg\<close>; the sector reader is the field of
  \<open>iso_dev\<close>. Strings are their contents; an access outside an array, a negative index and a signed overflow are
  undefined (\<open>None\<close>).
\<close>

unbundle bit_operations_syntax

section \<open>Data\<close>

record dirrec =
  len_dr :: nat
  lsbStart :: int
  lsbDataLength :: int
  fileFlags :: u8
  len_fi :: nat
  fi :: "byte list"

record iso_cfg =
  SECTOR_SIZE :: nat
  sizeof_record :: nat
  record_at :: "byte list \<Rightarrow> dirrec"
  FILEFLAGS_DIR :: u8
  notallowed :: u32
  strtol :: "path \<Rightarrow> int"
  EMFILE :: int
  ENAMETOOLONG :: int
  ENOENT :: int
  EINVAL' :: int
  ENOTDIR :: int
  EFLAG :: int
  EBADF :: int
  EIO :: int
  EFBIG :: int

record 'w iso_dev =
  Umd9660ReadSectors2 :: "int \<Rightarrow> int \<Rightarrow> 'w \<Rightarrow> int \<times> byte list \<times> 'w"

record FileHandle =
  opened :: bool
  lba :: int
  filesize :: int
  filepointer :: int

definition closed_handle :: FileHandle where
  "closed_handle = \<lparr>opened = False, lba = 0, filesize = 0, filepointer = 0\<rparr>"

definition MAX_HANDLERS :: nat where
  "MAX_HANDLERS = 32"

definition SIZE_OF_SECTORS :: "iso_cfg \<Rightarrow> nat" where
  "SIZE_OF_SECTORS cfg = SECTOR_SIZE cfg * 8 + 64"

record isofs =
  main_record :: dirrec
  handlers :: "FileHandle list"
  sectors :: "byte list option"
  g_lastLBA :: int
  g_lastReadSize :: int

definition zero_record :: dirrec where
  "zero_record = \<lparr>len_dr = 0, lsbStart = 0, lsbDataLength = 0, fileFlags = 0, len_fi = 0, fi = []\<rparr>"

text \<open>C's division and remainder, and signed 32-bit arithmetic that must not overflow.\<close>

definition int32 :: "int \<Rightarrow> int option" where
  "int32 x = (if - (2 ^ 31) \<le> x \<and> x < 2 ^ 31 then Some x else None)"

lemma int32_Some: "int32 x = Some y \<longleftrightarrow> y = x \<and> - (2 ^ 31) \<le> x \<and> x < 2 ^ 31"
  by (auto simp: int32_def)

definition SizeToSectors :: "iso_cfg \<Rightarrow> int \<Rightarrow> int" where
  "SizeToSectors cfg n =
     (let len = n sdiv int (SECTOR_SIZE cfg)
      in if n smod int (SECTOR_SIZE cfg) \<noteq> 0 then len + 1 else len)"

section \<open>Reading sectors\<close>

text \<open>
  Into the driver's own buffer, eight sectors at most, with the 64 bytes after them cleared; into a caller's
  buffer at an offset.
\<close>

definition read_own ::
  "iso_cfg \<Rightarrow> 'w iso_dev \<Rightarrow> int \<Rightarrow> int \<Rightarrow> byte list \<Rightarrow> 'w \<Rightarrow> (int \<times> byte list \<times> 'w) option"
where
  "read_own cfg dev start n buf w =
     (if 8 < n then Some (EFBIG cfg, buf, w)
      else if n < 0 \<or> length buf < nat n * SECTOR_SIZE cfg + 64 then None
      else let buf = overlay_at (nat n * SECTOR_SIZE cfg) buf (replicate 64 NUL);
               (res, data, w) = Umd9660ReadSectors2 dev start n w
           in do { buf \<leftarrow> fill buf data; Some (res, buf, w) })"

definition read_into ::
  "'w iso_dev \<Rightarrow> int \<Rightarrow> int \<Rightarrow> byte list \<Rightarrow> nat \<Rightarrow> 'w \<Rightarrow> (int \<times> byte list \<times> 'w) option"
where
  "read_into dev start n buf off w =
     (let (res, data, w) = Umd9660ReadSectors2 dev start n w
      in if off + length data \<le> length buf then Some (res, overlay_at off buf data, w) else None)"

section \<open>Handles\<close>

text \<open>Element 0 of the table is never given out.\<close>

definition free_handle :: "FileHandle \<Rightarrow> bool" where
  "free_handle h \<longleftrightarrow> \<not> opened h"

definition GetFreeHandle :: "iso_cfg \<Rightarrow> FileHandle list \<Rightarrow> int" where
  "GetFreeHandle cfg hs =
     (let i = first_index free_handle (tl hs)
      in if i < length (tl hs) then int (Suc i) else EMFILE cfg)"

definition claim_handle :: "FileHandle \<Rightarrow> FileHandle list \<Rightarrow> (nat \<times> FileHandle list) option" where
  "claim_handle h hs =
     (let i = first_index free_handle hs in if i < length hs then Some (i, hs[i := h]) else None)"

definition close_handle :: "FileHandle \<Rightarrow> FileHandle" where
  "close_handle h = h\<lparr>opened := False\<rparr>"

definition release_handle :: "nat \<Rightarrow> FileHandle list \<Rightarrow> FileHandle list" where
  "release_handle i hs = hs[i := close_handle (hs ! i)]"

interpretation iso_slots: slot_table free_handle close_handle claim_handle release_handle
proof unfold_locales
  show "free_handle (close_handle d)" for d
    by (simp add: free_handle_def close_handle_def)
next
  fix d ds
  show "claim_handle d ds = None \<longleftrightarrow> (\<forall>x \<in> set ds. \<not> free_handle x)"
    using first_index_none [of free_handle ds] first_index_le [of free_handle ds]
    by (auto simp: claim_handle_def Let_def)
next
  fix d ds i ds'
  assume "claim_handle d ds = Some (i, ds')"
  then have e: "first_index free_handle ds < length ds" "i = first_index free_handle ds" "ds' = ds[i := d]"
    by (auto simp: claim_handle_def Let_def split: if_splits)
  show "i < length ds \<and> free_handle (ds ! i) \<and> (\<forall>j < i. \<not> free_handle (ds ! j)) \<and> ds' = ds[i := d]"
    using first_index_some [OF e(1)] first_index_before [of _ free_handle ds] e by simp
next
  fix i and ds :: "FileHandle list"
  show "release_handle i ds = ds[i := close_handle (ds ! i)]"
    by (simp add: release_handle_def)
qed

text \<open>Taking a slot and filling it, as the three branches of \<open>isofs_open\<close> do.\<close>

definition take_handle :: "iso_cfg \<Rightarrow> int \<Rightarrow> int \<Rightarrow> isofs \<Rightarrow> int \<times> isofs" where
  "take_handle cfg start len s =
     (let i = GetFreeHandle cfg (handlers s)
      in if i < 0 then (i, s)
         else (i, s\<lparr>handlers := (handlers s)[nat i := \<lparr>opened = True, lba = start, filesize = len, filepointer = 0\<rparr>]\<rparr>))"

section \<open>Names and paths\<close>

fun UmdNormalizeName :: "path \<Rightarrow> path" where
  "UmdNormalizeName (a # b # rest) =
     (if a = CHR '';'' \<and> b = CHR ''1'' then [] else a # UmdNormalizeName (b # rest))"
| "UmdNormalizeName name = name"

definition strip_slash :: "path \<Rightarrow> path" where
  "strip_slash p = (if last p = CHR ''/'' then butlast p else p)"

definition after_last_slash :: "path \<Rightarrow> path" where
  "after_last_slash p = rev (takeWhile (\<lambda>c. c \<noteq> CHR ''/'') (rev p))"

definition up_to_last_slash :: "path \<Rightarrow> path" where
  "up_to_last_slash p = rev (dropWhile (\<lambda>c. c \<noteq> CHR ''/'') (rev p))"

text \<open>The result is the code, the directory part and the name.\<close>

definition GetPathAndName :: "iso_cfg \<Rightarrow> path \<Rightarrow> (int \<times> path \<times> path) option" where
  "GetPathAndName cfg fullpath =
     (if 256 \<le> length fullpath \<or> fullpath = [] then None
      else let fullpath2 = strip_slash fullpath
           in if CHR ''/'' \<notin> set fullpath2
              then if 32 < length fullpath2 + 1 then Some (ENAMETOOLONG cfg, [], [])
                   else Some (0, [], UmdNormalizeName fullpath2)
              else let name = after_last_slash fullpath2;
                       dir = up_to_last_slash fullpath2
                   in if 32 < length name + 1 then Some (ENAMETOOLONG cfg, [], [])
                      else Some (0, if hd fullpath2 = CHR ''/'' then tl dir else dir, UmdNormalizeName name))"

section \<open>Directory lookup\<close>

text \<open>
  One record: its name is the bytes of the identifier, cut at the first zero; 32 bytes without a zero fill the
  array and are not a string.
\<close>

definition record_name :: "dirrec \<Rightarrow> path option" where
  "record_name r = (let name = take (len_fi r) (fi r)
                    in if len_fi r = 32 \<and> NUL \<notin> set name then None else Some (UmdNormalizeName (cstr name)))"

datatype entry_check = Skip | Hit | Fail int

definition check_entry :: "iso_cfg \<Rightarrow> path \<Rightarrow> bool \<Rightarrow> dirrec \<Rightarrow> entry_check option" where
  "check_entry cfg filename isDir r =
     (if 32 < len_fi r then Some (Fail (EINVAL' cfg))
      else if fi r = [] then None
      else if hd (fi r) = NUL then Some (if filename = ''.'' then Hit else Skip)
      else if hd (fi r) = CHR 0x01 then Some (if filename = ''..'' then Hit else Skip)
      else do {
        name \<leftarrow> record_name r;
        Some (if name = filename
              then if isDir \<and> fileFlags r AND FILEFLAGS_DIR cfg = 0 then Fail (ENOTDIR cfg) else Hit
              else Skip) })"

definition fetch :: "iso_cfg \<Rightarrow> byte list \<Rightarrow> nat \<Rightarrow> dirrec option" where
  "fetch cfg buf off =
     (if off + sizeof_record cfg \<le> length buf then Some (record_at cfg (drop off buf)) else None)"

text \<open>A record of length 0 ends the sector, or the directory.\<close>

definition skip_padding :: "iso_cfg \<Rightarrow> byte list \<Rightarrow> nat \<Rightarrow> nat \<Rightarrow> nat \<Rightarrow> (nat \<times> nat \<times> dirrec) option option" where
  "skip_padding cfg buf off pos oldDirLen = do {
     r \<leftarrow> fetch cfg buf off;
     if len_dr r = 0
     then let gap = SECTOR_SIZE cfg - pos mod SECTOR_SIZE cfg
          in if gap \<le> oldDirLen
             then do {
               r \<leftarrow> fetch cfg buf (off + gap);
               Some (if len_dr r = 0 then None else Some (off + gap, pos + gap, r)) }
             else Some None
     else Some (Some (off, pos, r)) }"

definition needs_refill :: "iso_cfg \<Rightarrow> nat \<Rightarrow> bool" where
  "needs_refill cfg off \<longleftrightarrow> 8 * SECTOR_SIZE cfg \<le> off + sizeof_record cfg + 0x60"

lemma skip_padding_off:
  "skip_padding cfg buf off pos old = Some (Some (off', pos', r)) \<Longrightarrow> off \<le> off' \<and> off' \<le> length buf \<and> len_dr r \<noteq> 0"
  by (auto simp: skip_padding_def fetch_def Let_def bind_eq_Some_conv split: if_splits)

function scan_dir ::
  "iso_cfg \<Rightarrow> 'w iso_dev \<Rightarrow> path \<Rightarrow> bool \<Rightarrow> dirrec \<Rightarrow> int \<Rightarrow> int \<Rightarrow> nat \<Rightarrow> nat \<Rightarrow> nat \<Rightarrow> byte list \<Rightarrow> 'w
     \<Rightarrow> (int \<times> dirrec \<times> byte list \<times> 'w) option"
where
  "scan_dir cfg dev filename isDir ret start remaining off pos oldDirLen buf w =
     (case skip_padding cfg buf off pos oldDirLen of
        None \<Rightarrow> None
      | Some None \<Rightarrow> Some (ENOENT cfg, ret, buf, w)
      | Some (Some (off, pos, r)) \<Rightarrow>
          (case check_entry cfg filename isDir r of
             None \<Rightarrow> None
           | Some (Fail e) \<Rightarrow> Some (e, ret, buf, w)
           | Some Hit \<Rightarrow> Some (lsbStart r, r, buf, w)
           | Some Skip \<Rightarrow>
               let pos = pos + len_dr r; off' = off + len_dr r
               in if 0 < remaining \<and> needs_refill cfg off'
                  then let start = start + int (off' div SECTOR_SIZE cfg)
                       in (case read_own cfg dev start 8 buf w of
                             None \<Rightarrow> None
                           | Some (res, buf, w) \<Rightarrow>
                               if res < 0 then Some (res, ret, buf, w)
                               else scan_dir cfg dev filename isDir ret start
                                      (if 8 * SECTOR_SIZE cfg \<le> off' then remaining - 8 else remaining - 7)
                                      (off' mod SECTOR_SIZE cfg) pos (len_dr r) buf w)
                  else scan_dir cfg dev filename isDir ret start remaining off' pos (len_dr r) buf w))"
  by pat_completeness auto
termination
  by (relation "measures [\<lambda>(cfg, dev, filename, isDir, ret, start, remaining, off, pos, old, buf, w). nat remaining,
      \<lambda>(cfg, dev, filename, isDir, ret, start, remaining, off, pos, old, buf, w). length buf + 1 - off]")
    (auto dest!: skip_padding_off)

declare scan_dir.simps [simp del]

definition FindFileLBA ::
  "iso_cfg \<Rightarrow> 'w iso_dev \<Rightarrow> path \<Rightarrow> int \<Rightarrow> int \<Rightarrow> bool \<Rightarrow> dirrec \<Rightarrow> byte list \<Rightarrow> 'w
     \<Rightarrow> (int \<times> dirrec \<times> byte list \<times> 'w) option"
where
  "FindFileLBA cfg dev filename start dirSize isDir ret buf w =
     (let n = SizeToSectors cfg dirSize;
          remaining = (if n \<le> 8 then 0 else n - 8)
      in do {
        (res, buf, w) \<leftarrow> read_own cfg dev start (if n \<le> 8 then n else 8) buf w;
        if res < 0 then Some (res, ret, buf, w)
        else scan_dir cfg dev filename isDir ret start remaining 0 (nat (start * int (SECTOR_SIZE cfg))) 0 buf w })"


text \<open>
  A path ends with a slash here; each component must be a directory. \<open>..\<close> may climb above the root as far as
  the records allow.
\<close>

definition next_level :: "path \<Rightarrow> int \<Rightarrow> int" where
  "next_level curdir level = (if curdir = ''.'' then level else if curdir = ''..'' then level - 1 else level + 1)"

function walk_path ::
  "iso_cfg \<Rightarrow> 'w iso_dev \<Rightarrow> path \<Rightarrow> int \<Rightarrow> int \<Rightarrow> dirrec \<Rightarrow> byte list \<Rightarrow> 'w
     \<Rightarrow> (int \<times> dirrec \<times> byte list \<times> 'w) option"
where
  "walk_path cfg dev curpath level start ret buf w =
     (if CHR ''/'' \<notin> set curpath then Some (start, ret, buf, w)
      else let curdir = takeWhile (\<lambda>c. c \<noteq> CHR ''/'') curpath
           in if 32 < length curdir + 1 then Some (ENAMETOOLONG cfg, ret, buf, w)
              else let level = next_level curdir level
                   in if 8 < level then Some (EINVAL' cfg, ret, buf, w)
                      else (case FindFileLBA cfg dev curdir start (lsbDataLength ret) True ret buf w of
                              None \<Rightarrow> None
                            | Some (res, ret, buf, w) \<Rightarrow>
                                if res < 0 then Some (res, ret, buf, w)
                                else walk_path cfg dev (drop (length curdir + 1) curpath) level res ret buf w))"
  by pat_completeness auto
termination
proof (relation "measure (\<lambda>(cfg, dev, curpath, level, start, ret, buf, w). length curpath)", goal_cases)
  case (2 cfg dev curpath)
  then show ?case
    by (cases curpath) simp_all
qed simp

declare walk_path.simps [simp del]

definition FindPathLBA ::
  "iso_cfg \<Rightarrow> 'w iso_dev \<Rightarrow> path \<Rightarrow> dirrec \<Rightarrow> byte list \<Rightarrow> 'w \<Rightarrow> (int \<times> dirrec \<times> byte list \<times> 'w) option"
where
  "FindPathLBA cfg dev p main buf w = walk_path cfg dev p 0 (lsbStart main) main buf w"

text \<open>The lookup shared by opening and stating a file: directory first, then the name in it.\<close>

definition lookup_file ::
  "iso_cfg \<Rightarrow> 'w iso_dev \<Rightarrow> path \<Rightarrow> dirrec \<Rightarrow> byte list \<Rightarrow> 'w \<Rightarrow> (int \<times> dirrec \<times> byte list \<times> 'w) option"
where
  "lookup_file cfg dev fullpath main buf w = do {
     (res, dir, name) \<leftarrow> GetPathAndName cfg fullpath;
     if res < 0 then Some (res, main, buf, w)
     else do {
       (start, rec, buf, w) \<leftarrow> (if dir \<noteq> [] then FindPathLBA cfg dev dir main buf w
                              else Some (lsbStart main, main, buf, w));
       if start < 0 then Some (start, rec, buf, w)
       else FindFileLBA cfg dev name start (lsbDataLength rec) False rec buf w } }"

section \<open>The driver's entry points\<close>

definition blank_handlers :: "FileHandle list" where
  "blank_handlers = replicate MAX_HANDLERS closed_handle"

definition isofs_init ::
  "iso_cfg \<Rightarrow> 'w iso_dev \<Rightarrow> (nat \<Rightarrow> bool) \<Rightarrow> isofs \<Rightarrow> 'w \<Rightarrow> (int \<times> isofs \<times> 'w) option"
where
  "isofs_init cfg dev can_alloc s w =
     (if \<not> can_alloc (SIZE_OF_SECTORS cfg) then Some (-1, s\<lparr>sectors := None\<rparr>, w)
      else do {
        (res, buf, w) \<leftarrow> read_own cfg dev 0x10 1 (replicate (SIZE_OF_SECTORS cfg) NUL) w;
        let s = s\<lparr>sectors := Some buf\<rparr>;
        if res < 0 then Some (res, s, w)
        else if take 5 (drop 1 buf) \<noteq> ''CD001'' then Some (EINVAL' cfg, s, w)
        else do {
          r \<leftarrow> fetch cfg buf 0x9C;
          Some (0, s\<lparr>main_record := r, handlers := blank_handlers, g_lastLBA := -1, g_lastReadSize := 0\<rparr>, w) } })"

definition isofs_fastinit :: "iso_cfg \<Rightarrow> (nat \<Rightarrow> bool) \<Rightarrow> isofs \<Rightarrow> int \<times> isofs" where
  "isofs_fastinit cfg can_alloc s =
     (if \<not> can_alloc (SIZE_OF_SECTORS cfg) then (-1, s\<lparr>sectors := None\<rparr>)
      else (0, s\<lparr>sectors := Some (replicate (SIZE_OF_SECTORS cfg) NUL), main_record := zero_record,
                 handlers := blank_handlers, g_lastLBA := -1, g_lastReadSize := 0\<rparr>))"

definition isofs_exit :: "isofs \<Rightarrow> int \<times> isofs" where
  "isofs_exit s = (0, s\<lparr>sectors := None, g_lastLBA := -1, g_lastReadSize := 0\<rparr>)"

definition isofs_reset :: "isofs \<Rightarrow> int \<times> isofs" where
  "isofs_reset s = (0, s\<lparr>main_record := zero_record, handlers := blank_handlers, g_lastLBA := -1, g_lastReadSize := 0\<rparr>)"

fun find_substring :: "path \<Rightarrow> path \<Rightarrow> nat option" where
  "find_substring needle [] = (if needle = [] then Some 0 else None)"
| "find_substring needle (c # cs) =
     (if take (length needle) (c # cs) = needle then Some 0 else map_option Suc (find_substring needle cs))"

definition open_lbn :: "iso_cfg \<Rightarrow> path \<Rightarrow> isofs \<Rightarrow> int \<times> isofs" where
  "open_lbn cfg fullpath s =
     (case find_substring ''_size'' fullpath of
        None \<Rightarrow> (EINVAL' cfg, s)
      | Some k \<Rightarrow>
          if 10 < k - 8 then (ENAMETOOLONG cfg, s)
          else let start = strtol cfg (take (k - 8) (drop 8 fullpath))
               in if start < 0 then (EINVAL' cfg, s)
                  else if 10 < length (drop (k + 5) fullpath) then (ENAMETOOLONG cfg, s)
                  else let len = strtol cfg (drop (k + 5) fullpath)
                       in if len < 0 then (EINVAL' cfg, s) else take_handle cfg start len s)"

definition isofs_open ::
  "iso_cfg \<Rightarrow> 'w iso_dev \<Rightarrow> path option \<Rightarrow> u32 \<Rightarrow> isofs \<Rightarrow> 'w \<Rightarrow> (int \<times> isofs \<times> 'w) option"
where
  "isofs_open cfg dev file flags s w =
     (case file of
        None \<Rightarrow> Some (EINVAL' cfg, s, w)
      | Some file \<Rightarrow>
          if file = ''/''
          then let (i, s) = take_handle cfg (lsbStart (main_record s)) (lsbDataLength (main_record s)) s in Some (i, s, w)
          else if file = [] \<or> 256 \<le> length file then None
          else let fullpath = strip_slash file
               in if flags AND notallowed cfg \<noteq> 0 then Some (EFLAG cfg, s, w)
                  else if take 8 fullpath \<noteq> ''/sce_lbn''
                  then do {
                    buf \<leftarrow> sectors s;
                    (res, rec, buf, w) \<leftarrow> lookup_file cfg dev fullpath (main_record s) buf w;
                    let s = s\<lparr>sectors := Some buf\<rparr>;
                    if res < 0 then Some (res, s, w)
                    else let (i, s) = take_handle cfg res (lsbDataLength rec) s in Some (i, s, w) }
                  else let (i, s) = open_lbn cfg fullpath s in Some (i, s, w))"

definition bad_fd :: "int \<Rightarrow> isofs \<Rightarrow> bool" where
  "bad_fd fd s \<longleftrightarrow> fd < 0 \<or> int MAX_HANDLERS \<le> fd \<or> \<not> opened (handlers s ! nat fd)"

definition put_handle :: "int \<Rightarrow> FileHandle \<Rightarrow> isofs \<Rightarrow> isofs" where
  "put_handle fd h s = s\<lparr>handlers := (handlers s)[nat fd := h]\<rparr>"

definition isofs_close :: "iso_cfg \<Rightarrow> int \<Rightarrow> isofs \<Rightarrow> int \<times> isofs" where
  "isofs_close cfg fd s =
     (if bad_fd fd s then (EBADF cfg, s)
      else (0, s\<lparr>handlers := release_handle (nat fd) (handlers s)\<rparr>))"

text \<open>
  A read in three parts: the rest of a sector the file pointer stands in, whole sectors straight into the
  caller's buffer, and the start of a last sector. Each part returns early when the device fails.
\<close>

definition place :: "byte list \<Rightarrow> nat \<Rightarrow> byte list \<Rightarrow> byte list option" where
  "place data p chunk = (if p + length chunk \<le> length data then Some (overlay_at p data chunk) else None)"

definition read_last ::
  "iso_cfg \<Rightarrow> 'w iso_dev \<Rightarrow> int \<Rightarrow> nat \<Rightarrow> int \<Rightarrow> int \<Rightarrow> int \<Rightarrow> byte list \<Rightarrow> byte list \<Rightarrow> 'w
     \<Rightarrow> (int \<times> int \<times> byte list \<times> byte list \<times> 'w) option"
where
  "read_last cfg dev remaining p got fp nextsector own data w =
     (if remaining \<le> 0 then Some (got, fp, own, data, w)
      else do {
        (res, own, w) \<leftarrow> read_own cfg dev nextsector 1 own w;
        if res < 0 then Some (res, fp, own, data, w)
        else do {
          let k = remaining smod int (SECTOR_SIZE cfg);
          data \<leftarrow> place data p (take (nat k) own);
          Some (if 0 < remaining - k then EIO cfg else got + k, fp + k, own, data, w) } })"

definition read_whole ::
  "iso_cfg \<Rightarrow> 'w iso_dev \<Rightarrow> int \<Rightarrow> nat \<Rightarrow> int \<Rightarrow> int \<Rightarrow> int \<Rightarrow> byte list \<Rightarrow> byte list \<Rightarrow> 'w
     \<Rightarrow> (int \<times> int \<times> byte list \<times> byte list \<times> 'w) option"
where
  "read_whole cfg dev remaining p got fp nextsector own data w =
     (if remaining \<le> 0 then Some (got, fp, own, data, w)
      else let n = SizeToSectors cfg remaining;
               m = (if remaining smod int (SECTOR_SIZE cfg) \<noteq> 0 then n - 1 else n)
           in if 0 < m
              then do {
                (res, data, w) \<leftarrow> read_into dev nextsector m data p w;
                if res < 0 then Some (res, fp, own, data, w)
                else let k = res * int (SECTOR_SIZE cfg)
                     in read_last cfg dev (remaining - k) (p + nat k) (got + k) (fp + k) (nextsector + res) own data w }
              else read_last cfg dev remaining p got fp nextsector own data w)"

definition read_parts ::
  "iso_cfg \<Rightarrow> 'w iso_dev \<Rightarrow> FileHandle \<Rightarrow> int \<Rightarrow> byte list \<Rightarrow> byte list \<Rightarrow> 'w
     \<Rightarrow> (int \<times> int \<times> byte list \<times> byte list \<times> 'w) option"
where
  "read_parts cfg dev h remaining own data w =
     (let fp = filepointer h;
          within = fp smod int (SECTOR_SIZE cfg);
          nextsector = lba h + fp sdiv int (SECTOR_SIZE cfg)
      in if within \<noteq> 0
         then do {
           (res, own, w) \<leftarrow> read_own cfg dev nextsector 1 own w;
           if res \<noteq> 1 then Some (res, fp, own, data, w)
           else if within < 0 then None
           else do {
             let got = min (int (SECTOR_SIZE cfg) - within) remaining;
             data \<leftarrow> place data 0 (take (nat got) (drop (nat within) own));
             read_whole cfg dev (remaining - got) (nat got) got (fp + got) (nextsector + 1) own data w } }
         else read_whole cfg dev remaining 0 0 fp nextsector own data w)"

definition clip_request :: "FileHandle \<Rightarrow> int \<Rightarrow> int option" where
  "clip_request h len = do {
     sum \<leftarrow> int32 (len + filepointer h);
     if filesize h < sum
     then do { over \<leftarrow> int32 (sum - filesize h); int32 (len - over) }
     else Some len }"

definition isofs_read ::
  "iso_cfg \<Rightarrow> 'w iso_dev \<Rightarrow> int \<Rightarrow> byte list \<Rightarrow> int \<Rightarrow> isofs \<Rightarrow> 'w \<Rightarrow> (int \<times> byte list \<times> isofs \<times> 'w) option"
where
  "isofs_read cfg dev fd data len s w =
     (if bad_fd fd s then Some (EBADF cfg, data, s, w)
      else if len < 0 then Some (EINVAL' cfg, data, s, w)
      else do {
        let h = handlers s ! nat fd;
        remaining \<leftarrow> clip_request h len;
        if remaining \<le> 0 then Some (0, data, s, w)
        else do {
          own \<leftarrow> sectors s;
          (res, fp, own, data, w) \<leftarrow> read_parts cfg dev h remaining own data w;
          Some (res, data, put_handle fd (h\<lparr>filepointer := fp\<rparr>) (s\<lparr>sectors := Some own\<rparr>), w) } })"

definition seek_to :: "FileHandle \<Rightarrow> int \<Rightarrow> seek_whence \<Rightarrow> int option" where
  "seek_to h ofs whence =
     (case whence of
        SEEK_SET \<Rightarrow> Some (to_int32 ofs)
      | SEEK_CUR \<Rightarrow> int32 (filepointer h + to_int32 ofs)
      | SEEK_END \<Rightarrow> int32 (filesize h - to_int32 ofs))"

definition isofs_lseek :: "iso_cfg \<Rightarrow> int \<Rightarrow> int \<Rightarrow> seek_whence option \<Rightarrow> isofs \<Rightarrow> (int \<times> isofs) option" where
  "isofs_lseek cfg fd ofs whence s =
     (if bad_fd fd s then Some (EBADF cfg, s)
      else (case whence of
              None \<Rightarrow> Some (EINVAL' cfg, s)
            | Some wh \<Rightarrow> do {
                fp \<leftarrow> seek_to (handlers s ! nat fd) ofs wh;
                Some (fp, put_handle fd ((handlers s ! nat fd)\<lparr>filepointer := fp\<rparr>) s) }))"

text \<open>The status returned: size and start sector, or nothing for a path by sector number.\<close>

definition isofs_getstat ::
  "iso_cfg \<Rightarrow> 'w iso_dev \<Rightarrow> path option \<Rightarrow> isofs \<Rightarrow> 'w \<Rightarrow> (int \<times> (int \<times> int) option \<times> isofs \<times> 'w) option"
where
  "isofs_getstat cfg dev file s w =
     (case file of
        None \<Rightarrow> Some (EINVAL' cfg, None, s, w)
      | Some file \<Rightarrow>
          if 256 < length file + 1 then Some (ENAMETOOLONG cfg, None, s, w)
          else if file = [] then None
          else let fullpath = strip_slash file
               in if take 8 fullpath \<noteq> ''/sce_lbn''
                  then do {
                    buf \<leftarrow> sectors s;
                    (res, rec, buf, w) \<leftarrow> lookup_file cfg dev fullpath (main_record s) buf w;
                    let s = s\<lparr>sectors := Some buf\<rparr>;
                    Some (if res < 0 then (res, None, s, w) else (0, Some (lsbDataLength rec, res), s, w)) }
                  else Some (0, None, s, w))"

section \<open>Reading is reading the disc\<close>

definition disc_contract :: "iso_cfg \<Rightarrow> 'w iso_dev \<Rightarrow> byte list \<Rightarrow> bool" where
  "disc_contract cfg dev disc \<longleftrightarrow>
     (\<forall>l n w. (l + n) * SECTOR_SIZE cfg \<le> length disc \<longrightarrow>
        (\<exists>w'. Umd9660ReadSectors2 dev (int l) (int n) w
                = (int n, take (n * SECTOR_SIZE cfg) (drop (l * SECTOR_SIZE cfg) disc), w')))"

definition disc_bytes :: "byte list \<Rightarrow> nat \<Rightarrow> nat \<Rightarrow> byte list" where
  "disc_bytes disc start n = take n (drop start disc)"

lemma disc_bytes_length: "start + n \<le> length disc \<Longrightarrow> length (disc_bytes disc start n) = n"
  by (simp add: disc_bytes_def)

lemma disc_bytes_append: "disc_bytes disc start n @ disc_bytes disc (start + n) m = disc_bytes disc start (n + m)"
  by (simp add: disc_bytes_def take_add) (simp add: add.commute)

lemma sdiv_nat: "int a sdiv int b = int (a div b)" "int a smod int b = int (a mod b)"
  by (simp_all add: signed_divide_int_def signed_modulo_int_def zdiv_int zmod_int sgn_if)

lemma SizeToSectors_nat: "0 < SECTOR_SIZE cfg \<Longrightarrow> SizeToSectors cfg (int r)
   = int (r div SECTOR_SIZE cfg + (if r mod SECTOR_SIZE cfg = 0 then 0 else 1))"
  by (simp add: SizeToSectors_def sdiv_nat Let_def)

lemma read_own_ok:
  assumes "disc_contract cfg dev disc" "n \<le> 8" "(l + n) * SECTOR_SIZE cfg \<le> length disc"
    "length own = SIZE_OF_SECTORS cfg"
  shows "\<exists>own' w'. read_own cfg dev (int l) (int n) own w = Some (int n, own', w')
     \<and> length own' = SIZE_OF_SECTORS cfg
     \<and> take (n * SECTOR_SIZE cfg) own' = disc_bytes disc (l * SECTOR_SIZE cfg) (n * SECTOR_SIZE cfg)
     \<and> own' = disc_bytes disc (l * SECTOR_SIZE cfg) (n * SECTOR_SIZE cfg) @ replicate 64 NUL
               @ drop (n * SECTOR_SIZE cfg + 64) own"
proof -
  let ?S = "SECTOR_SIZE cfg"
  let ?data = "disc_bytes disc (l * ?S) (n * ?S)"
  let ?own = "overlay_at (n * ?S) own (replicate 64 NUL)"
  obtain w' where r: "Umd9660ReadSectors2 dev (int l) (int n) w = (int n, ?data, w')"
    using assms(1,3) unfolding disc_contract_def disc_bytes_def by blast
  have fits: "n * ?S + 64 \<le> length own"
    using assms(2,4) by (simp add: SIZE_OF_SECTORS_def mult.commute [of _ 8])
  have ld: "length ?data = n * ?S"
    using assms(3) by (intro disc_bytes_length) (simp add: algebra_simps)
  have lo: "length ?own = length own"
    using fits by simp
  have f: "fill ?own ?data = Some (overlay ?own ?data)"
    using fits lo ld by (simp add: fill_def)
  have "read_own cfg dev (int l) (int n) own w = Some (int n, overlay ?own ?data, w')"
    using assms(2) fits by (simp add: read_own_def Let_def r f)
  moreover have "length (overlay ?own ?data) = SIZE_OF_SECTORS cfg"
    using fits lo ld assms(4) by (simp add: overlay_def)
  moreover have "take (n * ?S) (overlay ?own ?data) = ?data"
    using ld by (simp add: overlay_def)
  moreover have "overlay ?own ?data = ?data @ replicate 64 NUL @ drop (n * ?S + 64) own"
    using fits ld by (simp add: overlay_def overlay_at_def)
  ultimately show ?thesis
    by blast
qed

lemma read_last_ok:
  assumes "disc_contract cfg dev disc" "r < SECTOR_SIZE cfg" "r = 0 \<or> (l + 1) * SECTOR_SIZE cfg \<le> length disc"
    "length own = SIZE_OF_SECTORS cfg" "p + r \<le> length data"
  shows "\<exists>own' w'. read_last cfg dev (int r) p got fp (int l) own data w
      = Some (got + int r, fp + int r, own', overlay_at p data (disc_bytes disc (l * SECTOR_SIZE cfg) r), w')
    \<and> length own' = SIZE_OF_SECTORS cfg"
proof (cases "r = 0")
  case True
  then show ?thesis
    using assms(4) by (simp add: read_last_def disc_bytes_def overlay_at_def)
next
  case False
  let ?S = "SECTOR_SIZE cfg"
  have l: "(l + 1) * ?S \<le> length disc"
    using assms(3) False by blast
  then obtain own' w' where o: "read_own cfg dev (int l) (int 1) own w = Some (int 1, own', w')"
    "length own' = SIZE_OF_SECTORS cfg" "take (1 * ?S) own' = disc_bytes disc (l * ?S) (1 * ?S)"
    using read_own_ok [OF assms(1) _ l assms(4)] by force
  have m: "int r smod int ?S = int r"
    using assms(2) by (simp add: sdiv_nat)
  have "take r own' = take r (take (1 * ?S) own')"
    using assms(2) by simp
  also have "\<dots> = disc_bytes disc (l * ?S) r"
    unfolding o(3) using assms(2) by (simp add: disc_bytes_def)
  finally have t: "take r own' = disc_bytes disc (l * ?S) r" .
  have "length (disc_bytes disc (l * ?S) r) = r"
    using l assms(2) by (intro disc_bytes_length) simp
  then have "place data p (take r own') = Some (overlay_at p data (disc_bytes disc (l * ?S) r))"
    using assms(5) by (simp add: place_def t)
  then show ?thesis
    using o(1,2) False by (simp add: read_last_def m Let_def)
qed

lemma read_whole_ok:
  fixes r l p :: nat
  assumes "disc_contract cfg dev disc" "0 < SECTOR_SIZE cfg" "r \<le> e * SECTOR_SIZE cfg"
    "(l + e) * SECTOR_SIZE cfg \<le> length disc" "length own = SIZE_OF_SECTORS cfg" "p + r \<le> length data"
  shows "\<exists>own' w'. read_whole cfg dev (int r) p got fp (int l) own data w
      = Some (got + int r, fp + int r, own', overlay_at p data (disc_bytes disc (l * SECTOR_SIZE cfg) r), w')
    \<and> length own' = SIZE_OF_SECTORS cfg"
proof (cases "r = 0")
  case True
  then show ?thesis
    using assms(5) by (simp add: read_whole_def disc_bytes_def overlay_at_def)
next
  case False
  let ?S = "SECTOR_SIZE cfg"
  define q t where "q = r div ?S" and "t = r mod ?S"
  have r: "r = q * ?S + t" and t: "t < ?S"
    using assms(2) by (simp_all add: q_def t_def)
  have qe: "q \<le> e"
    using assms(2,3) by (metis div_le_mono div_mult_self_is_m mult.commute q_def)
  have te: "t = 0 \<or> q + 1 \<le> e"
  proof (rule disjCI)
    assume "\<not> q + 1 \<le> e"
    then have "e * ?S \<le> q * ?S"
      by simp
    then show "t = 0"
      using assms(3) r by linarith
  qed
  have m: "(if int r smod int ?S \<noteq> 0 then SizeToSectors cfg (int r) - 1 else SizeToSectors cfg (int r)) = int q"
    using assms(2) by (simp add: SizeToSectors_nat sdiv_nat q_def)
  have last: "\<exists>own' w'. read_last cfg dev (int t) (p + q * ?S) (got + int (q * ?S)) (fp + int (q * ?S)) (int (l + q)) own data' w1
      = Some (got + int (q * ?S) + int t, fp + int (q * ?S) + int t, own',
              overlay_at (p + q * ?S) data' (disc_bytes disc ((l + q) * ?S) t), w')
    \<and> length own' = SIZE_OF_SECTORS cfg" if "length data' = length data" for data' w1
  proof (rule read_last_ok [OF assms(1) t _ assms(5)])
    have "q + 1 \<le> e \<Longrightarrow> (l + q + 1) * ?S \<le> (l + e) * ?S"
      by (intro mult_le_mono1) simp
    then show "t = 0 \<or> (l + q + 1) * ?S \<le> length disc"
      using te assms(4) by linarith
    show "p + q * ?S + t \<le> length data'"
      using assms(6) r that by simp
  qed
  show ?thesis
  proof (cases "q = 0")
    case True
    have "read_whole cfg dev (int r) p got fp (int l) own data w
        = read_last cfg dev (int t) (p + q * ?S) (got + int (q * ?S)) (fp + int (q * ?S)) (int (l + q)) own data w"
      unfolding read_whole_def Let_def m using False True r by simp
    then show ?thesis
      using last [of data w] True r by simp
  next
    case qpos: False
    let ?a = "disc_bytes disc (l * ?S) (q * ?S)"
    have "(l + q) * ?S \<le> (l + e) * ?S"
      using qe by (intro mult_le_mono1) simp
    then have lq: "(l + q) * ?S \<le> length disc"
      using assms(4) by linarith
    obtain w1 where u: "Umd9660ReadSectors2 dev (int l) (int q) w = (int q, ?a, w1)"
      using assms(1) lq unfolding disc_contract_def disc_bytes_def by blast
    have la: "length ?a = q * ?S"
      using lq by (intro disc_bytes_length) (simp add: algebra_simps)
    let ?data = "overlay_at p data ?a"
    have fits: "p + length ?a \<le> length data"
      using la assms(6) r by linarith
    have "read_into dev (int l) (int q) data p w = Some (int q, ?data, w1)"
      using fits by (simp add: read_into_def u)
    moreover have "int r - int q * int ?S = int t" "nat (int q * int ?S) = q * ?S"
      using r by (simp_all add: nat_mult_distrib)
    ultimately have "read_whole cfg dev (int r) p got fp (int l) own data w
        = read_last cfg dev (int t) (p + q * ?S) (got + int (q * ?S)) (fp + int (q * ?S)) (int (l + q)) own ?data w1"
      unfolding read_whole_def Let_def m using False qpos by simp
    moreover have "overlay_at (p + q * ?S) ?data (disc_bytes disc ((l + q) * ?S) t)
        = overlay_at p data (disc_bytes disc (l * ?S) r)"
      using overlay_at_append [of p data ?a "disc_bytes disc ((l + q) * ?S) t"] fits
        disc_bytes_append [of disc "l * ?S" "q * ?S" t] by (simp add: la r algebra_simps)
    ultimately show ?thesis
      using last [of ?data w1] fits r by (simp add: add.assoc)
  qed
qed

lemma read_parts_ok:
  fixes f L r :: nat
  assumes "disc_contract cfg dev disc" "0 < SECTOR_SIZE cfg" "f + r \<le> e * SECTOR_SIZE cfg" "0 < r"
    "(L + e) * SECTOR_SIZE cfg \<le> length disc" "length own = SIZE_OF_SECTORS cfg" "r \<le> length data"
    "lba h = int L" "filepointer h = int f"
  shows "\<exists>own' w'. read_parts cfg dev h (int r) own data w
      = Some (int r, int (f + r), own', overlay data (disc_bytes disc (L * SECTOR_SIZE cfg + f) r), w')
    \<and> length own' = SIZE_OF_SECTORS cfg"
proof -
  let ?S = "SECTOR_SIZE cfg"
  define q t where "q = f div ?S" and "t = f mod ?S"
  have f: "f = q * ?S + t" and t: "t < ?S"
    using assms(2) by (simp_all add: q_def t_def)
  have qe: "q < e"
  proof (rule ccontr)
    assume "\<not> q < e"
    then have "e * ?S \<le> q * ?S"
      by simp
    then show False
      using assms(3,4) f by linarith
  qed
  have nxt: "lba h + filepointer h sdiv int ?S = int (L + q)" "filepointer h smod int ?S = int t"
    by (simp_all add: assms(8,9) sdiv_nat q_def t_def)
  show ?thesis
  proof (cases "t = 0")
    case True
    have 1: "r \<le> (e - q) * ?S"
      using assms(3) f True by (simp add: diff_mult_distrib)
    have 2: "(L + q + (e - q)) * ?S \<le> length disc"
      using assms(5) qe by simp
    have "0 + r \<le> length data"
      using assms(7) by simp
    note whole = read_whole_ok [OF assms(1,2) 1 2 assms(6) this, of 0 "int f" w]
    have step: "read_parts cfg dev h (int r) own data w = read_whole cfg dev (int r) 0 0 (int f) (int (L + q)) own data w"
      unfolding read_parts_def Let_def nxt using True by (simp add: assms(9))
    have "(L + q) * ?S = L * ?S + f"
      using f True by (simp add: algebra_simps)
    then show ?thesis
      using whole unfolding step by (simp add: overlay_at_0)
  next
    case False
    define g where "g = min (?S - t) r"
    have "(L + q + 1) * ?S \<le> (L + e) * ?S"
      using qe by (intro mult_le_mono1) simp
    then have l1: "(L + q + 1) * ?S \<le> length disc"
      using assms(5) by linarith
    obtain own1 w1 where o: "read_own cfg dev (int (L + q)) (int 1) own w = Some (int 1, own1, w1)"
      "length own1 = SIZE_OF_SECTORS cfg" "take (1 * ?S) own1 = disc_bytes disc ((L + q) * ?S) (1 * ?S)"
      using read_own_ok [OF assms(1) _ l1 assms(6)] by force
    let ?a = "disc_bytes disc (L * ?S + f) g"
    have tg: "t + g \<le> ?S"
      using t by (simp add: g_def)
    have "take g (drop t own1) = take g (drop t (take (1 * ?S) own1))"
      using tg by (simp add: drop_take min_def)
    also have "\<dots> = ?a"
      unfolding o(3) using tg f by (simp add: disc_bytes_def drop_take min_def algebra_simps)
    finally have a: "take g (drop t own1) = ?a" .
    have la: "length ?a = g"
      using l1 tg f by (intro disc_bytes_length) (simp add: algebra_simps)
    have pl: "place data 0 (take g (drop t own1)) = Some (overlay data ?a)"
    proof -
      have "g \<le> length data"
        using assms(7) by (simp add: g_def)
      then show ?thesis
        unfolding a place_def using la by (simp add: overlay_at_0)
    qed
    have gi: "min (int ?S - int t) (int r) = int g"
      using t by (simp add: g_def of_nat_diff)
    have step: "read_parts cfg dev h (int r) own data w
        = read_whole cfg dev (int (r - g)) (0 + g) (int g) (int (f + g)) (int (L + q + 1)) own1 (overlay data ?a) w1"
      unfolding read_parts_def Let_def nxt using o(1) False pl by (simp add: assms(9) gi) (simp add: g_def ac_simps)
    have ld: "length (overlay data ?a) = length data"
      using la assms(7) by (simp add: overlay_def g_def)
    have 1: "r - g \<le> (e - (q + 1)) * ?S"
    proof (cases "g = r")
      case False
      then have "q * ?S + t + g = (q + 1) * ?S"
        using t by (simp add: g_def min_def split: if_splits)
      then show ?thesis
        using assms(3) f by (simp add: diff_mult_distrib)
    qed simp
    have 2: "(L + q + 1 + (e - (q + 1))) * ?S \<le> length disc"
      using assms(5) qe by simp
    have 3: "0 + g + (r - g) \<le> length (overlay data ?a)"
      using assms(7) ld by (simp add: g_def)
    obtain own' w' where w: "read_whole cfg dev (int (r - g)) (0 + g) (int g) (int (f + g)) (int (L + q + 1)) own1 (overlay data ?a) w1
      = Some (int g + int (r - g), int (f + g) + int (r - g), own',
              overlay_at (0 + g) (overlay data ?a) (disc_bytes disc ((L + q + 1) * ?S) (r - g)), w')"
      "length own' = SIZE_OF_SECTORS cfg"
      using read_whole_ok [OF assms(1,2) 1 2 o(2) 3] by blast
    have "g = r \<or> (L + q + 1) * ?S = L * ?S + f + g"
      using t f by (auto simp: g_def min_def algebra_simps)
    then have "disc_bytes disc ((L + q + 1) * ?S) (r - g) = disc_bytes disc (L * ?S + f + g) (r - g)"
      by (auto simp: disc_bytes_def)
    then have "overlay_at (0 + g) (overlay data ?a) (disc_bytes disc ((L + q + 1) * ?S) (r - g))
        = overlay data (disc_bytes disc (L * ?S + f) r)"
      using overlay_at_append [of 0 data ?a "disc_bytes disc (L * ?S + f + g) (r - g)"]
        disc_bytes_append [of disc "L * ?S + f" g "r - g"] la by (simp add: overlay_at_0 g_def)
    then show ?thesis
      using w unfolding step by (simp add: g_def)
  qed
qed

section \<open>Directory lookup\<close>

text \<open>
  A directory of the image, as records with a flag for those that start a new sector after padding. The code
  crosses padding only when it is no longer than the record before it: \<open>visible\<close> is what it gets to see.
\<close>

definition sector_gap :: "iso_cfg \<Rightarrow> nat \<Rightarrow> nat" where
  "sector_gap cfg off = SECTOR_SIZE cfg - off mod SECTOR_SIZE cfg"

fun iso_dir :: "iso_cfg \<Rightarrow> byte list \<Rightarrow> nat \<Rightarrow> nat \<Rightarrow> (bool \<times> dirrec) list \<Rightarrow> bool" where
  "iso_dir cfg buf off old [] \<longleftrightarrow>
     map_option len_dr (fetch cfg buf off) = Some 0
     \<and> (sector_gap cfg off \<le> old \<longrightarrow> map_option len_dr (fetch cfg buf (off + sector_gap cfg off)) = Some 0)"
| "iso_dir cfg buf off old ((pad, r) # rs) \<longleftrightarrow>
     (let off' = (if pad then off + sector_gap cfg off else off)
      in (pad \<longrightarrow> map_option len_dr (fetch cfg buf off) = Some 0) \<and> fetch cfg buf off' = Some r \<and> 0 < len_dr r
         \<and> iso_dir cfg buf (off' + len_dr r) (len_dr r) rs)"

fun visible :: "iso_cfg \<Rightarrow> nat \<Rightarrow> nat \<Rightarrow> (bool \<times> dirrec) list \<Rightarrow> dirrec list" where
  "visible cfg off old [] = []"
| "visible cfg off old ((pad, r) # rs) =
     (if pad \<and> old < sector_gap cfg off then []
      else r # visible cfg ((if pad then off + sector_gap cfg off else off) + len_dr r) (len_dr r) rs)"

definition named :: "path \<Rightarrow> dirrec \<Rightarrow> bool" where
  "named filename r \<longleftrightarrow>
     (if hd (fi r) = NUL then filename = ''.''
      else if hd (fi r) = CHR 0x01 then filename = ''..''
      else UmdNormalizeName (cstr (take (len_fi r) (fi r))) = filename)"

definition plain_record :: "dirrec \<Rightarrow> bool" where
  "plain_record r \<longleftrightarrow> len_fi r < 32 \<and> fi r \<noteq> []"

definition not_a_dir :: "iso_cfg \<Rightarrow> dirrec \<Rightarrow> bool" where
  "not_a_dir cfg r \<longleftrightarrow> hd (fi r) \<notin> {NUL, CHR 0x01} \<and> fileFlags r AND FILEFLAGS_DIR cfg = 0"

lemma check_entry_named:
  assumes "plain_record r"
  shows "check_entry cfg filename isDir r
    = Some (if named filename r then if isDir \<and> not_a_dir cfg r then Fail (ENOTDIR cfg) else Hit else Skip)"
  using assms by (auto simp: plain_record_def check_entry_def named_def record_name_def not_a_dir_def Let_def)

definition lookup_result :: "iso_cfg \<Rightarrow> path \<Rightarrow> bool \<Rightarrow> dirrec \<Rightarrow> dirrec list \<Rightarrow> int \<times> dirrec" where
  "lookup_result cfg filename isDir ret rs =
     (case find (named filename) rs of
        None \<Rightarrow> (ENOENT cfg, ret)
      | Some r \<Rightarrow> if isDir \<and> not_a_dir cfg r then (ENOTDIR cfg, ret) else (lsbStart r, r))"

lemma scan_dir_correct:
  assumes "iso_dir cfg buf off old rs" "\<forall>r \<in> snd ` set rs. plain_record r"
    "pos mod SECTOR_SIZE cfg = off mod SECTOR_SIZE cfg" "0 < SECTOR_SIZE cfg"
  shows "scan_dir cfg dev filename isDir ret start 0 off pos old buf w
    = Some (case lookup_result cfg filename isDir ret (visible cfg off old rs) of (res, rec) \<Rightarrow> (res, rec, buf, w))"
  using assms(1-3)
proof (induction cfg buf off old rs arbitrary: pos rule: iso_dir.induct)
  case (1 cfg buf off old)
  have "skip_padding cfg buf off pos old = Some None"
    using 1 by (auto simp: skip_padding_def Let_def sector_gap_def bind_eq_Some_conv)
  then show ?case
    by (subst scan_dir.simps) (simp add: lookup_result_def)
next
  case (2 cfg buf off old pad r rs)
  let ?off = "if pad then off + sector_gap cfg off else off"
  let ?pos = "if pad then pos + sector_gap cfg off else pos"
  have d: "pad \<longrightarrow> map_option len_dr (fetch cfg buf off) = Some 0" "fetch cfg buf ?off = Some r" "0 < len_dr r"
    "iso_dir cfg buf (?off + len_dr r) (len_dr r) rs"
    using 2(2) by (simp_all add: Let_def)
  have g: "SECTOR_SIZE cfg - pos mod SECTOR_SIZE cfg = sector_gap cfg off"
    by (simp add: sector_gap_def 2(4))
  show ?case
  proof (cases "pad \<and> old < sector_gap cfg off")
    case True
    then have "skip_padding cfg buf off pos old = Some None"
      using d(1) by (auto simp: skip_padding_def Let_def g)
    then show ?thesis
      using True by (subst scan_dir.simps) (simp add: lookup_result_def)
  next
    case False
    have s: "skip_padding cfg buf off pos old = Some (Some (?off, ?pos, r))"
      using False d by (auto simp: skip_padding_def Let_def g)
    have c: "check_entry cfg filename isDir r
      = Some (if named filename r then if isDir \<and> not_a_dir cfg r then Fail (ENOTDIR cfg) else Hit else Skip)"
      using 2(3) by (intro check_entry_named) simp
    have v: "visible cfg off old ((pad, r) # rs) = r # visible cfg (?off + len_dr r) (len_dr r) rs"
      using False by simp
    show ?thesis
    proof (cases "named filename r")
      case True
      then show ?thesis
        unfolding v by (subst scan_dir.simps) (simp add: s c lookup_result_def)
    next
      case nn: False
      have "scan_dir cfg dev filename isDir ret start 0 off pos old buf w
          = scan_dir cfg dev filename isDir ret start 0 (?off + len_dr r) (?pos + len_dr r) (len_dr r) buf w"
        using nn by (subst scan_dir.simps) (simp add: s c)
      moreover have "(?pos + len_dr r) mod SECTOR_SIZE cfg = (?off + len_dr r) mod SECTOR_SIZE cfg"
        using 2(4) by (auto intro: mod_add_cong)
      moreover have "lookup_result cfg filename isDir ret (r # xs) = lookup_result cfg filename isDir ret xs" for xs
        using nn by (simp add: lookup_result_def)
      ultimately show ?thesis
        unfolding v using 2(1) [OF refl d(4)] 2(3) by simp
    qed
  qed
qed

section \<open>Properties\<close>

text \<open>
  C15: reading a file is reading its extent. For a handle whose extent lies on the disc, a read of \<open>len\<close> bytes
  from any position delivers exactly the bytes of the disc from there on, at most up to the end of the file,
  at the start of the caller's buffer; it returns their number and advances the position by it. Partial first
  and last sectors, whole sectors in between, and requests past the end are all covered.
\<close>

theorem isofs_read_extent:
  fixes L f len size e :: nat
  assumes "disc_contract cfg dev disc" and "0 < SECTOR_SIZE cfg"
    and "\<not> bad_fd fd s" and "handlers s ! nat fd = \<lparr>opened = True, lba = int L, filesize = int size, filepointer = int f\<rparr>"
    and "sectors s = Some own" and "length own = SIZE_OF_SECTORS cfg"
    and "size \<le> e * SECTOR_SIZE cfg" and "(L + e) * SECTOR_SIZE cfg \<le> length disc"
    and "len + f < 2 ^ 31" and "size < 2 ^ 31" and "len \<le> length data"
  defines "n \<equiv> min len (size - f)"
  shows "\<exists>own' w'. isofs_read cfg dev fd data (int len) s w
       = Some (int n, overlay data (disc_bytes disc (L * SECTOR_SIZE cfg + f) n),
               put_handle fd \<lparr>opened = True, lba = int L, filesize = int size, filepointer = int (f + n)\<rparr>
                 (s\<lparr>sectors := Some own'\<rparr>), w')
     \<and> length own' = SIZE_OF_SECTORS cfg"
proof -
  let ?h = "\<lparr>opened = True, lba = int L, filesize = int size, filepointer = int f\<rparr>"
  have clip: "clip_request ?h (int len) = Some (if size < len + f then int size - int f else int len)"
    using assms(9,10) by (auto simp: clip_request_def int32_def)
  show ?thesis
  proof (cases "n = 0")
    case True
    then have "(if size < len + f then int size - int f else int len) \<le> 0"
      by (auto simp: n_def)
    then have "isofs_read cfg dev fd data (int len) s w = Some (0, data, s, w)"
      using assms(3,4) by (simp add: isofs_read_def clip del: int_if)
    moreover have "put_handle fd \<lparr>opened = True, lba = int L, filesize = int size, filepointer = int (f + n)\<rparr>
        (s\<lparr>sectors := Some own\<rparr>) = s"
    proof -
      have "s\<lparr>sectors := Some own\<rparr> = s"
        by (simp add: assms(5) [symmetric])
      moreover have "(handlers s)[nat fd := ?h] = handlers s"
        by (simp add: assms(4) [symmetric])
      ultimately show ?thesis
        using True by (simp add: put_handle_def)
    qed
    ultimately show ?thesis
      using True assms(6) by (intro exI [of _ own] exI [of _ w]) (simp add: disc_bytes_def overlay_def)
  next
    case False
    have c: "(if size < len + f then int size - int f else int len) = int n"
      using False by (auto simp: n_def min_def of_nat_diff split: if_splits)
    have 1: "f + n \<le> e * SECTOR_SIZE cfg" "0 < n" "n \<le> length data"
      using False assms(7,11) by (simp_all add: n_def min_def split: if_splits)
    obtain own' w' where "read_parts cfg dev ?h (int n) own data w
        = Some (int n, int (f + n), own', overlay data (disc_bytes disc (L * SECTOR_SIZE cfg + f) n), w')"
      "length own' = SIZE_OF_SECTORS cfg"
      using read_parts_ok [OF assms(1,2) 1(1,2) assms(8,6) 1(3), of ?h w] by auto
    then show ?thesis
      using 1(2) assms(3,4,5) by (intro exI [of _ own'] exI [of _ w']) (simp add: isofs_read_def clip c del: int_if)
  qed
qed

definition iso_sample_record :: "byte list \<Rightarrow> dirrec" where
  "iso_sample_record bs = \<lparr>len_dr = of_char (bs ! 0), lsbStart = of_char (bs ! 1), lsbDataLength = of_char (bs ! 2),
     fileFlags = of_char (bs ! 3), len_fi = of_char (bs ! 4), fi = take (of_char (bs ! 4)) (drop 5 bs)\<rparr>"

definition iso_sample_cfg :: "nat \<Rightarrow> iso_cfg" where
  "iso_sample_cfg sector = \<lparr>SECTOR_SIZE = sector, sizeof_record = 6, record_at = iso_sample_record, FILEFLAGS_DIR = 2,
     notallowed = 0xF, strtol = (\<lambda>s. 0), EMFILE = -24, ENAMETOOLONG = -91, ENOENT = -2, EINVAL' = -22, ENOTDIR = -20,
     EFLAG = -30, EBADF = -9, EIO = -5, EFBIG = -27\<rparr>"

definition disc_dev :: "nat \<Rightarrow> byte list \<Rightarrow> unit iso_dev" where
  "disc_dev sector disc = \<lparr>Umd9660ReadSectors2 =
     (\<lambda>l n w. (n, take (nat n * sector) (drop (nat l * sector) disc), w))\<rparr>"

lemma disc_dev_contract: "disc_contract (iso_sample_cfg sector) (disc_dev sector disc) disc"
  by (simp add: disc_contract_def iso_sample_cfg_def disc_dev_def)

definition iso_sample_file :: FileHandle where
  "iso_sample_file = \<lparr>opened = True, lba = 2, filesize = 10, filepointer = 3\<rparr>"

definition iso_sample_state :: isofs where
  "iso_sample_state = \<lparr>main_record = zero_record, handlers = blank_handlers[1 := iso_sample_file],
     sectors = Some (replicate 96 NUL), g_lastLBA = -1, g_lastReadSize = 0\<rparr>"

theorem isofs_read_extent_witness:
  "\<exists>s' w'. isofs_read (iso_sample_cfg 4) (disc_dev 4 ''....----abcdefghijkl'') 1 (replicate 9 CHR ''_'') 9 iso_sample_state ()
       = Some (7, ''defghij__'', s', w')"
proof -
  have h: "0 < SECTOR_SIZE (iso_sample_cfg 4)" "\<not> bad_fd 1 iso_sample_state"
    "handlers iso_sample_state ! nat 1 = \<lparr>opened = True, lba = int 2, filesize = int 10, filepointer = int 3\<rparr>"
    "sectors iso_sample_state = Some (replicate 96 NUL)"
    "length (replicate 96 NUL) = SIZE_OF_SECTORS (iso_sample_cfg 4)" "10 \<le> 3 * SECTOR_SIZE (iso_sample_cfg 4)"
    "(2 + 3) * SECTOR_SIZE (iso_sample_cfg 4) \<le> length ''....----abcdefghijkl''" "9 + 3 < (2 :: nat) ^ 31" "10 < (2 :: nat) ^ 31"
    "9 \<le> length (replicate 9 CHR ''_'')"
    by (simp_all add: iso_sample_cfg_def bad_fd_def iso_sample_state_def blank_handlers_def MAX_HANDLERS_def
        iso_sample_file_def SIZE_OF_SECTORS_def)
  have e: "int 9 = 9" "int (min 9 (10 - 3)) = 7"
    "overlay (replicate 9 CHR ''_'') (disc_bytes ''....----abcdefghijkl'' (2 * SECTOR_SIZE (iso_sample_cfg 4) + 3) (min 9 (10 - 3)))
      = ''defghij__''"
    by (simp_all add: disc_bytes_def overlay_def iso_sample_cfg_def eval_nat_numeral)
  show ?thesis
    using isofs_read_extent [OF disc_dev_contract h, where w = "()"] unfolding e by blast
qed

text \<open>
  C16: finding a name in a directory. In a directory of at most eight sectors whose records are well formed the
  result is the first visible record of that name, or \<open>ENOENT\<close>; asked for a directory, a file of that name gives
  \<open>ENOTDIR\<close>. All records are visible exactly when no padding at the end of a sector is longer than the record
  before it; otherwise the records after that padding are not found.
\<close>

theorem isofs_finds_visible:
  fixes L n :: nat
  assumes "disc_contract cfg dev disc" and "0 < SECTOR_SIZE cfg" and "length buf = SIZE_OF_SECTORS cfg"
    and "SizeToSectors cfg dirSize = int n" and "n \<le> 8" and "(L + n) * SECTOR_SIZE cfg \<le> length disc"
    and "\<forall>rest. iso_dir cfg (disc_bytes disc (L * SECTOR_SIZE cfg) (n * SECTOR_SIZE cfg) @ replicate 64 NUL @ rest) 0 0 rs
          \<or> length rest \<noteq> SIZE_OF_SECTORS cfg - (n * SECTOR_SIZE cfg + 64)"
    and "\<forall>r \<in> snd ` set rs. plain_record r"
  shows "\<exists>buf' w'. FindFileLBA cfg dev filename (int L) dirSize isDir ret buf w
       = Some (fst (lookup_result cfg filename isDir ret (visible cfg 0 0 rs)),
               snd (lookup_result cfg filename isDir ret (visible cfg 0 0 rs)), buf', w')
     \<and> length buf' = SIZE_OF_SECTORS cfg"
proof -
  obtain buf' w' where r: "read_own cfg dev (int L) (int n) buf w = Some (int n, buf', w')"
    "length buf' = SIZE_OF_SECTORS cfg"
    "buf' = disc_bytes disc (L * SECTOR_SIZE cfg) (n * SECTOR_SIZE cfg) @ replicate 64 NUL @ drop (n * SECTOR_SIZE cfg + 64) buf"
    using read_own_ok [OF assms(1,5,6,3)] by blast
  have d: "iso_dir cfg buf' 0 0 rs"
    using assms(7) unfolding r(3) by (metis assms(3) length_drop)
  have p: "nat (int L * int (SECTOR_SIZE cfg)) mod SECTOR_SIZE cfg = 0 mod SECTOR_SIZE cfg"
    by (simp add: nat_mult_distrib)
  have "FindFileLBA cfg dev filename (int L) dirSize isDir ret buf w
      = scan_dir cfg dev filename isDir ret (int L) 0 0 (nat (int L * int (SECTOR_SIZE cfg))) 0 buf' w'"
    using assms(5) r(1) by (simp add: FindFileLBA_def assms(4) Let_def)
  then show ?thesis
    using scan_dir_correct [OF d assms(8) p assms(2)] r(2)
    by (intro exI [of _ buf'] exI [of _ w']) (simp add: case_prod_beta)
qed

text \<open>Two sectors of 16 bytes: a record of 7 bytes, 9 bytes of padding, then a record of 9 bytes.\<close>

definition iso_sample_dir :: "byte list" where
  "iso_sample_dir = [CHR 0x07, CHR 0x05, CHR 0x09, NUL, CHR 0x02, CHR ''A'', CHR ''B''] @ replicate 9 NUL
     @ [CHR 0x09, CHR 0x06, CHR 0x03, NUL, CHR 0x02, CHR ''C'', CHR ''D'', NUL, NUL] @ replicate 7 NUL"

definition iso_sample_recs :: "(bool \<times> dirrec) list" where
  "iso_sample_recs =
     [(False, \<lparr>len_dr = 7, lsbStart = 5, lsbDataLength = 9, fileFlags = 0, len_fi = 2, fi = ''AB''\<rparr>),
      (True, \<lparr>len_dr = 9, lsbStart = 6, lsbDataLength = 3, fileFlags = 0, len_fi = 2, fi = ''CD''\<rparr>)]"

lemma iso_sample_dir_list: "iso_sample_dir = [CHR 0x07, CHR 0x05, CHR 0x09, NUL, CHR 0x02, CHR ''A'', CHR ''B'',
     NUL, NUL, NUL, NUL, NUL, NUL, NUL, NUL, NUL,
     CHR 0x09, CHR 0x06, CHR 0x03, NUL, CHR 0x02, CHR ''C'', CHR ''D'', NUL, NUL,
     NUL, NUL, NUL, NUL, NUL, NUL, NUL]"
  by (simp add: iso_sample_dir_def numeral_eq_Suc)

lemma iso_sample_length: "length iso_sample_dir = 32"
  by (simp add: iso_sample_dir_def)

lemma iso_sample_fetch:
  "off + 6 \<le> 32 \<Longrightarrow> fetch (iso_sample_cfg 16) (iso_sample_dir @ rest) off = Some (iso_sample_record (drop off iso_sample_dir @ rest))"
  by (simp add: fetch_def iso_sample_cfg_def iso_sample_length)

lemma iso_sample_fetch_zero:
  "off \<le> 32 \<Longrightarrow> drop off iso_sample_dir = replicate (32 - off) NUL \<Longrightarrow>
     map_option len_dr (fetch (iso_sample_cfg 16) (iso_sample_dir @ replicate 64 NUL @ rest) off) = Some 0"
  by (simp add: fetch_def iso_sample_cfg_def iso_sample_length iso_sample_record_def nth_append)

lemma iso_sample_records:
  "iso_sample_record (drop 0 iso_sample_dir @ rest)
     = \<lparr>len_dr = 7, lsbStart = 5, lsbDataLength = 9, fileFlags = 0, len_fi = 2, fi = ''AB''\<rparr>"
  "iso_sample_record (drop 16 iso_sample_dir @ rest)
     = \<lparr>len_dr = 9, lsbStart = 6, lsbDataLength = 3, fileFlags = 0, len_fi = 2, fi = ''CD''\<rparr>"
  by (simp_all add: iso_sample_record_def iso_sample_dir_list)

lemma iso_sample_holds: "iso_dir (iso_sample_cfg 16) (iso_sample_dir @ replicate 64 NUL @ rest) 0 0 iso_sample_recs"
proof -
  have g: "sector_gap (iso_sample_cfg 16) 7 = 9" "sector_gap (iso_sample_cfg 16) 25 = 7"
    by (simp_all add: sector_gap_def iso_sample_cfg_def)
  have z: "map_option len_dr (fetch (iso_sample_cfg 16) (iso_sample_dir @ replicate 64 NUL @ rest) 7) = Some 0"
    by (simp add: fetch_def iso_sample_cfg_def iso_sample_length iso_sample_record_def nth_append iso_sample_dir_list)
  have z': "map_option len_dr (fetch (iso_sample_cfg 16) (iso_sample_dir @ replicate 64 NUL @ rest) 25) = Some 0"
    "map_option len_dr (fetch (iso_sample_cfg 16) (iso_sample_dir @ replicate 64 NUL @ rest) 32) = Some 0"
    by (intro iso_sample_fetch_zero; simp add: iso_sample_dir_list numeral_eq_Suc)+
  show ?thesis
    using z z' by (simp add: iso_sample_recs_def g iso_sample_fetch iso_sample_records [unfolded drop_0])
qed

theorem isofs_finds_visible_witness:
  "(\<exists>r b w. FindFileLBA (iso_sample_cfg 16) (disc_dev 16 iso_sample_dir) ''AB'' 0 32 False zero_record
       (replicate 192 NUL) () = Some (5, r, b, w))
   \<and> (\<exists>r b w. FindFileLBA (iso_sample_cfg 16) (disc_dev 16 iso_sample_dir) ''CD'' 0 32 False zero_record
       (replicate 192 NUL) () = Some (-2, r, b, w))"
proof -
  let ?cfg = "iso_sample_cfg 16"
  have d: "disc_bytes iso_sample_dir (0 * SECTOR_SIZE ?cfg) (2 * SECTOR_SIZE ?cfg) = iso_sample_dir"
    by (simp add: disc_bytes_def iso_sample_dir_def iso_sample_cfg_def)
  have dir: "iso_dir ?cfg (iso_sample_dir @ replicate 64 NUL @ rest) 0 0 iso_sample_recs" for rest
    by (rule iso_sample_holds)
  have h: "0 < SECTOR_SIZE ?cfg" "length (replicate 192 NUL) = SIZE_OF_SECTORS ?cfg"
    "SizeToSectors ?cfg 32 = int 2" "2 \<le> (8 :: nat)" "(0 + 2) * SECTOR_SIZE ?cfg \<le> length iso_sample_dir"
    "\<forall>rest. iso_dir ?cfg (disc_bytes iso_sample_dir (0 * SECTOR_SIZE ?cfg) (2 * SECTOR_SIZE ?cfg) @ replicate 64 NUL @ rest) 0 0 iso_sample_recs
          \<or> length rest \<noteq> SIZE_OF_SECTORS ?cfg - (2 * SECTOR_SIZE ?cfg + 64)"
    "\<forall>r \<in> snd ` set iso_sample_recs. plain_record r"
    using dir unfolding d
    by (simp_all add: iso_sample_cfg_def SIZE_OF_SECTORS_def SizeToSectors_def iso_sample_dir_def iso_sample_recs_def
        plain_record_def signed_divide_int_def signed_modulo_int_def)
  have v: "visible ?cfg 0 0 iso_sample_recs
      = [\<lparr>len_dr = 7, lsbStart = 5, lsbDataLength = 9, fileFlags = 0, len_fi = 2, fi = ''AB''\<rparr>]"
    by (simp add: iso_sample_recs_def sector_gap_def iso_sample_cfg_def)
  have r: "fst (lookup_result ?cfg ''AB'' False zero_record (visible ?cfg 0 0 iso_sample_recs)) = 5"
    "fst (lookup_result ?cfg ''CD'' False zero_record (visible ?cfg 0 0 iso_sample_recs)) = -2"
    unfolding v by (simp_all add: lookup_result_def named_def iso_sample_cfg_def)
  note find = isofs_finds_visible [OF disc_dev_contract h, where isDir = False and ret = zero_record and w = "()"]
  show ?thesis
    using find [of "''AB''"] find [of "''CD''"] unfolding r by auto
qed

end
