(* ===== verification/Usb.thy ===== *)
theory Usb
  imports SceIo
begin

text \<open>
  The USB storage session of the user module, \<open>overlay/user/usb.c\<close>: a kernel module is loaded, the MTP driver
  stopped and the storage driver started; a failure on the way is undone by a chain of clean-up labels. The
  kernel's calls are the fields of \<open>usb_sys\<close>; \<open>lock_power\<close> of \<open>overlay/user/main.c\<close> is the boolean that is passed
  along. \<open>usb_contract\<close> is what the calls document.
\<close>

section \<open>Calls\<close>

record 'w usb_sys =
  sceAppMgrDestroyOtherApp :: "'w \<Rightarrow> 'w"
  taiLoadStartKernelModule :: "path \<Rightarrow> 'w \<Rightarrow> int \<times> 'w"
  taiStopUnloadKernelModule :: "int \<Rightarrow> 'w \<Rightarrow> int \<times> 'w"
  sceMtpIfStopDriver :: "int \<Rightarrow> 'w \<Rightarrow> int \<times> 'w"
  sceMtpIfStartDriver :: "int \<Rightarrow> 'w \<Rightarrow> int \<times> 'w"
  sceUsbstorVStorSetDeviceInfo :: "byte list \<Rightarrow> byte list \<Rightarrow> 'w \<Rightarrow> int \<times> 'w"
  sceUsbstorVStorSetImgFilePath :: "path \<Rightarrow> 'w \<Rightarrow> int \<times> 'w"
  sceUsbstorVStorStart :: "int \<Rightarrow> 'w \<Rightarrow> int \<times> 'w"
  sceUsbstorVStorStop :: "'w \<Rightarrow> int \<times> 'w"
  vshIoMount_svc :: "int \<Rightarrow> path option \<Rightarrow> int \<Rightarrow> u32 list \<Rightarrow> 'w \<Rightarrow> int \<times> 'w"
  vshIoUmount :: "int \<Rightarrow> int \<Rightarrow> int \<Rightarrow> int \<Rightarrow> 'w \<Rightarrow> int \<times> 'w"
  usb_dopen :: "path \<Rightarrow> 'w \<Rightarrow> int \<times> 'w"
  usb_dclose :: "int \<Rightarrow> 'w \<Rightarrow> int \<times> 'w"

section \<open>The module\<close>

definition lockPower :: "bool \<Rightarrow> bool" where
  "lockPower lock_power = True"

definition unlockPower :: "bool \<Rightarrow> bool" where
  "unlockPower lock_power = False"

definition vshIoMount ::
  "'w usb_sys \<Rightarrow> int \<Rightarrow> path option \<Rightarrow> int \<Rightarrow> u32 \<Rightarrow> u32 \<Rightarrow> u32 \<Rightarrow> 'w \<Rightarrow> int \<times> 'w"
where
  "vshIoMount sys i p permission a4 a5 a6 w = vshIoMount_svc sys i p permission [a4, a5, a6] w"

definition remount :: "'w usb_sys \<Rightarrow> int \<Rightarrow> 'w \<Rightarrow> 'w" where
  "remount sys i w =
     (let w = snd (vshIoUmount sys i 0 0 0 w);
          w = snd (vshIoUmount sys i 1 0 0 w)
      in snd (vshIoMount sys i None 0 0 0 0 w))"

definition checkFolderExist :: "'w usb_sys \<Rightarrow> path \<Rightarrow> 'w \<Rightarrow> bool \<times> 'w" where
  "checkFolderExist sys folder w =
     (let (dfd, w) = usb_dopen sys folder w
      in if dfd < 0 then (False, w) else (True, snd (usb_dclose sys dfd w)))"

definition MTP_NOT_RUNNING :: int where
  "MTP_NOT_RUNNING = 0x8054360C - 2 ^ 32"

text \<open>The three clean-up labels fall through into each other; each is the rest of the function.\<close>

definition error_stop_driver :: "'w usb_sys \<Rightarrow> int \<Rightarrow> int \<Rightarrow> bool \<times> 'w \<Rightarrow> int \<times> bool \<times> 'w" where
  "error_stop_driver sys modid res s = (let (l, w) = s in (res, l, snd (taiStopUnloadKernelModule sys modid w)))"

definition error_usbstor :: "'w usb_sys \<Rightarrow> int \<Rightarrow> int \<Rightarrow> bool \<times> 'w \<Rightarrow> int \<times> bool \<times> 'w" where
  "error_usbstor sys modid res s =
     (let (l, w) = s in error_stop_driver sys modid res (l, snd (sceMtpIfStartDriver sys 1 w)))"

definition startUsb :: "'w usb_sys \<Rightarrow> path \<Rightarrow> path \<Rightarrow> int \<Rightarrow> bool \<times> 'w \<Rightarrow> int \<times> bool \<times> 'w" where
  "startUsb sys usbDevicePath imgFilePath typ s =
     (let (l, w) = s;
          w = sceAppMgrDestroyOtherApp sys w;
          (res, w) = taiLoadStartKernelModule sys usbDevicePath w
      in if res < 0 then (res, l, w)
         else let modid = res; (res, w) = sceMtpIfStopDriver sys 1 w
      in if res < 0 \<and> res \<noteq> MTP_NOT_RUNNING then error_stop_driver sys modid res (l, w)
         else let (res, w) = sceUsbstorVStorSetDeviceInfo sys ''\"PS Vita\" MC'' ''1.00'' w
      in if res < 0 then error_usbstor sys modid res (l, w)
         else let (res, w) = sceUsbstorVStorSetImgFilePath sys imgFilePath w
      in if res < 0 then error_usbstor sys modid res (l, w)
         else let (res, w) = sceUsbstorVStorStart sys typ w
      in if res < 0 then error_usbstor sys modid res (l, w)
         else (modid, lockPower l, w))"

definition remount_if :: "'w usb_sys \<Rightarrow> path \<Rightarrow> int \<Rightarrow> 'w \<Rightarrow> 'w" where
  "remount_if sys folder i w =
     (let (yes, w) = checkFolderExist sys folder w in if yes then remount sys i w else w)"

definition stopUsb :: "'w usb_sys \<Rightarrow> int \<Rightarrow> bool \<times> 'w \<Rightarrow> int \<times> bool \<times> 'w" where
  "stopUsb sys modid s =
     (let (l, w) = s
      in if modid < 0 then (0, l, w)
         else let (res, w) = sceUsbstorVStorStop sys w
      in if res < 0 then (res, l, w)
         else let (res, w) = sceMtpIfStartDriver sys 1 w
      in if res < 0 then (res, l, w)
         else let (res, w) = taiStopUnloadKernelModule sys modid w
      in if res < 0 then (res, l, w)
         else let l = unlockPower l;
                  w = remount sys 0x800 w;
                  w = remount_if sys ''imc0:'' 0xD00 w;
                  w = remount_if sys ''xmc0:'' 0xE00 w;
                  w = remount_if sys ''uma0:'' 0xF00 w
              in (0, l, w))"

section \<open>What the calls document\<close>

record usb_view =
  loaded :: "int set"
  mtp :: bool
  storing :: bool

definition usb_quiet :: "('w \<Rightarrow> usb_view) \<Rightarrow> ('w \<Rightarrow> int \<times> 'w) \<Rightarrow> bool" where
  "usb_quiet V f \<longleftrightarrow> (\<forall>w. V (snd (f w)) = V w)"

definition usb_effect :: "('w \<Rightarrow> usb_view) \<Rightarrow> (usb_view \<Rightarrow> usb_view) \<Rightarrow> ('w \<Rightarrow> int \<times> 'w) \<Rightarrow> bool" where
  "usb_effect V g f \<longleftrightarrow> (\<forall>w. V (snd (f w)) = (if fst (f w) < 0 then V w else g (V w)))"

definition usb_contract :: "'w usb_sys \<Rightarrow> ('w \<Rightarrow> usb_view) \<Rightarrow> bool" where
  "usb_contract sys V \<longleftrightarrow>
     (\<forall>w. V (sceAppMgrDestroyOtherApp sys w) = V w)
     \<and> (\<forall>p w r w'. taiLoadStartKernelModule sys p w = (r, w') \<longrightarrow>
          (if r < 0 then V w' = V w
           else r \<notin> loaded (V w) \<and> V w' = (V w)\<lparr>loaded := insert r (loaded (V w))\<rparr>))
     \<and> (\<forall>m. usb_effect V (\<lambda>v. v\<lparr>loaded := loaded v - {m}\<rparr>) (taiStopUnloadKernelModule sys m))
     \<and> (\<forall>a. usb_effect V (\<lambda>v. v\<lparr>mtp := False\<rparr>) (sceMtpIfStopDriver sys a))
     \<and> (\<forall>a w. fst (sceMtpIfStopDriver sys a w) = MTP_NOT_RUNNING \<longrightarrow> \<not> mtp (V w))
     \<and> (\<forall>a. usb_effect V (\<lambda>v. v\<lparr>mtp := True\<rparr>) (sceMtpIfStartDriver sys a))
     \<and> (\<forall>a b. usb_quiet V (sceUsbstorVStorSetDeviceInfo sys a b))
     \<and> (\<forall>p. usb_quiet V (sceUsbstorVStorSetImgFilePath sys p))
     \<and> (\<forall>t. usb_effect V (\<lambda>v. v\<lparr>storing := True\<rparr>) (sceUsbstorVStorStart sys t))
     \<and> usb_effect V (\<lambda>v. v\<lparr>storing := False\<rparr>) (sceUsbstorVStorStop sys)
     \<and> (\<forall>i p n b. usb_quiet V (vshIoMount_svc sys i p n b))
     \<and> (\<forall>i a b c. usb_quiet V (vshIoUmount sys i a b c))
     \<and> (\<forall>p. usb_quiet V (usb_dopen sys p)) \<and> (\<forall>d. usb_quiet V (usb_dclose sys d))"

section \<open>Laws\<close>

lemma usb_contract_rules:
  assumes "usb_contract sys V"
  shows "V (sceAppMgrDestroyOtherApp sys w) = V w"
    and "V (snd (taiLoadStartKernelModule sys p w))
      = (if fst (taiLoadStartKernelModule sys p w) < 0 then V w
         else (V w)\<lparr>loaded := insert (fst (taiLoadStartKernelModule sys p w)) (loaded (V w))\<rparr>)"
    and "0 \<le> fst (taiLoadStartKernelModule sys p w) \<Longrightarrow> fst (taiLoadStartKernelModule sys p w) \<notin> loaded (V w)"
    and "V (snd (taiStopUnloadKernelModule sys m w))
      = (if fst (taiStopUnloadKernelModule sys m w) < 0 then V w else (V w)\<lparr>loaded := loaded (V w) - {m}\<rparr>)"
    and "V (snd (sceMtpIfStopDriver sys a w))
      = (if fst (sceMtpIfStopDriver sys a w) < 0 then V w else (V w)\<lparr>mtp := False\<rparr>)"
    and "fst (sceMtpIfStopDriver sys a w) = MTP_NOT_RUNNING \<Longrightarrow> \<not> mtp (V w)"
    and "V (snd (sceMtpIfStartDriver sys a w))
      = (if fst (sceMtpIfStartDriver sys a w) < 0 then V w else (V w)\<lparr>mtp := True\<rparr>)"
    and "V (snd (sceUsbstorVStorSetDeviceInfo sys x y w)) = V w"
    and "V (snd (sceUsbstorVStorSetImgFilePath sys p w)) = V w"
    and "V (snd (sceUsbstorVStorStart sys t w))
      = (if fst (sceUsbstorVStorStart sys t w) < 0 then V w else (V w)\<lparr>storing := True\<rparr>)"
    and "V (snd (sceUsbstorVStorStop sys w))
      = (if fst (sceUsbstorVStorStop sys w) < 0 then V w else (V w)\<lparr>storing := False\<rparr>)"
    and "V (snd (vshIoMount_svc sys i q n b w)) = V w"
    and "V (snd (vshIoUmount sys i a' b' c' w)) = V w"
    and "V (snd (usb_dopen sys p w)) = V w" and "V (snd (usb_dclose sys d w)) = V w"
  using assms unfolding usb_contract_def usb_quiet_def usb_effect_def by (auto simp: prod_eq_iff)

lemma usb_remount_quiet:
  assumes "usb_contract sys V"
  shows "V (remount sys i w) = V w" and "V (remount_if sys p i w) = V w"
  using usb_contract_rules [OF assms]
  by (simp_all add: remount_def remount_if_def checkFolderExist_def vshIoMount_def Let_def case_prod_beta)

lemma usb_view_ids [simp]:
  "\<not> mtp v \<Longrightarrow> v\<lparr>mtp := False\<rparr> = v"
  "m \<notin> loaded v \<Longrightarrow> v\<lparr>loaded := insert m (loaded v) - {m}\<rparr> = v"
  by (cases v; simp)+

lemma start_usb_effect:
  assumes "usb_contract sys V" and "\<forall>m w. 0 \<le> fst (taiStopUnloadKernelModule sys m w)"
    and "\<forall>w. 0 \<le> fst (sceMtpIfStartDriver sys 1 w)"
    and "startUsb sys dev img typ (l, w) = (r, l', w')"
  shows "if r < 0 then l' = l \<and> (V w' = V w \<or> V w' = (V w)\<lparr>mtp := True\<rparr>)
     else l' \<and> r \<notin> loaded (V w) \<and> V w' = (V w)\<lparr>loaded := insert r (loaded (V w)), mtp := False, storing := True\<rparr>"
proof -
  note rules = usb_contract_rules [OF assms(1)]
  let ?w0 = "sceAppMgrDestroyOtherApp sys w"
  let ?m = "fst (taiLoadStartKernelModule sys dev ?w0)"
  have m: "0 \<le> ?m \<Longrightarrow> ?m \<notin> loaded (V w)"
    using rules(3) [of dev ?w0] rules(1) by simp
  have nr: "MTP_NOT_RUNNING < 0"
    by (simp add: MTP_NOT_RUNNING_def)
  have ok: "\<not> fst (taiStopUnloadKernelModule sys x y) < 0" "\<not> fst (sceMtpIfStartDriver sys 1 y) < 0" for x y
    using assms(2,3) by (simp_all add: not_less)
  show ?thesis
    using assms(4) m nr rules(6) [of 1 "snd (taiLoadStartKernelModule sys dev ?w0)"]
    by (auto simp: startUsb_def error_usbstor_def error_stop_driver_def Let_def case_prod_beta lockPower_def
        rules(1,2,4,5,7-10) ok split: if_splits)
qed

lemma stop_usb_effect:
  assumes "usb_contract sys V" and "\<forall>m w. 0 \<le> fst (taiStopUnloadKernelModule sys m w)"
    and "\<forall>w. 0 \<le> fst (sceMtpIfStartDriver sys 1 w)" and "0 \<le> m"
    and "stopUsb sys m (l, w) = (r, l', w')"
  shows "if r < 0 then l' = l \<and> V w' = V w
     else \<not> l' \<and> V w' = (V w)\<lparr>loaded := loaded (V w) - {m}, mtp := True, storing := False\<rparr>"
proof -
  note rules = usb_contract_rules [OF assms(1)] usb_remount_quiet [OF assms(1)]
  have ok: "\<not> fst (taiStopUnloadKernelModule sys x y) < 0" "\<not> fst (sceMtpIfStartDriver sys 1 y) < 0" for x y
    using assms(2,3) by (simp_all add: not_less)
  show ?thesis
    using assms(4,5)
    by (auto simp: stopUsb_def Let_def case_prod_beta unlockPower_def rules(4,7,11) rules(16,17) ok split: if_splits)
qed

section \<open>Properties\<close>

text \<open>
  C39: a USB session is all or nothing when the clean-up calls do not fail. A start that fails leaves the loaded
  modules, the storage driver and the power lock as they were (the MTP driver runs afterwards even if it did
  not before); a start that succeeds holds the lock with exactly one more module loaded, and a stop that
  succeeds gives back the module, the MTP driver and the lock, and a stop that fails changes nothing.
\<close>

theorem usb_session_all_or_nothing:
  assumes "usb_contract sys V" and "\<forall>m w. 0 \<le> fst (taiStopUnloadKernelModule sys m w)"
    and "\<forall>w. 0 \<le> fst (sceMtpIfStartDriver sys 1 w)"
    and "startUsb sys dev img typ (l, w) = (r, l1, w1)" and "stopUsb sys r (l1, w1) = (r2, l2, w2)"
  shows "if r < 0 then l1 = l \<and> (V w1 = V w \<or> V w1 = (V w)\<lparr>mtp := True\<rparr>) \<and> r2 = 0 \<and> l2 = l1 \<and> w2 = w1
     else l1 \<and> V w1 = (V w)\<lparr>loaded := insert r (loaded (V w)), mtp := False, storing := True\<rparr>
       \<and> (if r2 < 0 then l2 \<and> V w2 = V w1 else \<not> l2 \<and> V w2 = (V w)\<lparr>mtp := True, storing := False\<rparr>)"
proof (cases "r < 0")
  case True
  then show ?thesis
    using start_usb_effect [OF assms(1-4)] assms(5) by (simp add: stopUsb_def)
next
  case False
  then show ?thesis
    using start_usb_effect [OF assms(1-4)] stop_usb_effect [OF assms(1-3) _ assms(5)] by (auto simp: insert_Diff_if)
qed

text \<open>A console on which the storage driver starts for type 1 only.\<close>

definition usb_console :: "usb_view usb_sys" where
  "usb_console = \<lparr>sceAppMgrDestroyOtherApp = (\<lambda>v. v),
     taiLoadStartKernelModule = (\<lambda>p v. if 7 \<in> loaded v then (-1, v) else (7, v\<lparr>loaded := insert 7 (loaded v)\<rparr>)),
     taiStopUnloadKernelModule = (\<lambda>m v. (0, v\<lparr>loaded := loaded v - {m}\<rparr>)),
     sceMtpIfStopDriver = (\<lambda>a v. if mtp v then (0, v\<lparr>mtp := False\<rparr>) else (MTP_NOT_RUNNING, v)),
     sceMtpIfStartDriver = (\<lambda>a v. (0, v\<lparr>mtp := True\<rparr>)),
     sceUsbstorVStorSetDeviceInfo = (\<lambda>a b v. (0, v)), sceUsbstorVStorSetImgFilePath = (\<lambda>p v. (0, v)),
     sceUsbstorVStorStart = (\<lambda>t v. if t = 1 then (0, v\<lparr>storing := True\<rparr>) else (-1, v)),
     sceUsbstorVStorStop = (\<lambda>v. (0, v\<lparr>storing := False\<rparr>)),
     vshIoMount_svc = (\<lambda>i p n b v. (0, v)), vshIoUmount = (\<lambda>i a b c v. (0, v)),
     usb_dopen = (\<lambda>p v. (-1, v)), usb_dclose = (\<lambda>d v. (0, v))\<rparr>"

lemma usb_console_contract: "usb_contract usb_console (\<lambda>v. v)"
  by (auto simp: usb_contract_def usb_quiet_def usb_effect_def usb_console_def MTP_NOT_RUNNING_def)

theorem usb_session_all_or_nothing_witness:
  "\<exists>w1 w2. startUsb usb_console ''ux0:usb.skprx'' ''sd0:'' 1 (False, \<lparr>loaded = {3}, mtp = True, storing = False\<rparr>)
       = (7, True, w1) \<and> stopUsb usb_console 7 (True, w1) = (0, False, w2)
     \<and> w1 = \<lparr>loaded = {7, 3}, mtp = False, storing = True\<rparr> \<and> w2 = \<lparr>loaded = {3}, mtp = True, storing = False\<rparr>"
proof -
  let ?w = "\<lparr>loaded = {3}, mtp = True, storing = False\<rparr>"
  have t: "\<forall>m w. 0 \<le> fst (taiStopUnloadKernelModule usb_console m w)" "\<forall>w. 0 \<le> fst (sceMtpIfStartDriver usb_console 1 w)"
    by (simp_all add: usb_console_def)
  obtain r l1 w1 where s: "startUsb usb_console ''ux0:usb.skprx'' ''sd0:'' 1 (False, ?w) = (r, l1, w1)"
    by (metis prod_cases3)
  then have r: "r = 7"
    by (simp add: startUsb_def usb_console_def)
  obtain r2 l2 w2 where e: "stopUsb usb_console r (l1, w1) = (r2, l2, w2)"
    by (metis prod_cases3)
  then have r2: "r2 = 0"
    by (simp add: stopUsb_def usb_console_def r Let_def case_prod_beta)
  show ?thesis
    using usb_session_all_or_nothing [OF usb_console_contract t s e] s e unfolding r r2 by simp
qed

end
