(* ===== verification/Flash0.thy ===== *)
theory Flash0
  imports SceIo "HOL-Library.Sublist"
begin

text \<open>
  The builder of the emulated flash0, \<open>overlay/user/flashfs.c\<close>: the files embedded in the module and the files of
  the firmware's own package that \<open>files.h\<close> names are laid out in one package of 0x920000 bytes (a table of
  12-byte entries from offset 0, the names from 0x1000, the contents from 0x2000, aligned to 64 bytes), which is
  copied over the firmware's package and to the PSP's memory. Memory is an \<open>area\<close>: a size and the bytes; an
  access outside it is undefined. The embedded contents and the names of \<open>files.h\<close> are parameters.
\<close>

unbundle bit_operations_syntax

section \<open>Memory areas\<close>

record area =
  extent :: nat
  at :: "nat \<Rightarrow> byte"

definition zeroed :: "nat \<Rightarrow> area" where
  "zeroed n = \<lparr>extent = n, at = (\<lambda>i. NUL)\<rparr>"

definition peek :: "area \<Rightarrow> nat \<Rightarrow> nat \<Rightarrow> byte list option" where
  "peek a off n = (if off + n \<le> extent a then Some (map (at a) [off..<off + n]) else None)"

definition poke :: "nat \<Rightarrow> byte list \<Rightarrow> area \<Rightarrow> area option" where
  "poke off bs a =
     (if off + length bs \<le> extent a
      then Some (a\<lparr>at := (\<lambda>i. if off \<le> i \<and> i < off + length bs then bs ! (i - off) else at a i)\<rparr>)
      else None)"

definition peek_str :: "area \<Rightarrow> nat \<Rightarrow> path option" where
  "peek_str a off =
     (let s = cstr (map (at a) [off..<extent a]) in if off + length s < extent a then Some s else None)"

section \<open>The package\<close>

definition ALIGN :: "u32 \<Rightarrow> u32 \<Rightarrow> u32" where
  "ALIGN x align = (x + (align - 1)) AND NOT (align - 1)"

definition SCE_PSPEMU_EXTRA_MEMORY :: u32 where
  "SCE_PSPEMU_EXTRA_MEMORY = 0x8B000000"

definition SCE_PSPEMU_FLASH0_PACKAGE_SIZE :: nat where
  "SCE_PSPEMU_FLASH0_PACKAGE_SIZE = 0x920000"

definition sizeof_package_entry :: nat where
  "sizeof_package_entry = 12"

record ScePspemuFlash0Package =
  e_name :: u32
  e_buffer :: u32
  e_size :: u32

definition entry_bytes :: "ScePspemuFlash0Package \<Rightarrow> byte list" where
  "entry_bytes e = le32 (e_name e) @ le32 (e_buffer e) @ le32 (e_size e)"

definition package_entry :: "area \<Rightarrow> nat \<Rightarrow> ScePspemuFlash0Package option" where
  "package_entry a j = do {
     w \<leftarrow> peek a (sizeof_package_entry * j) sizeof_package_entry;
     Some \<lparr>e_name = rd32 w, e_buffer = rd32 (drop 4 w), e_size = rd32 (drop 8 w)\<rparr> }"

record cursors =
  pkg_ptr :: u32
  name_ptr :: u32
  buffer_ptr :: u32

definition addFile :: "path \<times> byte list \<Rightarrow> area \<times> cursors \<Rightarrow> (area \<times> cursors) option" where
  "addFile f st =
     (let (name, buffer) = f; (data, c) = st; b = ALIGN (buffer_ptr c) 0x40
      in do {
        data \<leftarrow> poke (unat b) buffer data;
        data \<leftarrow> poke (unat (name_ptr c)) (lit name) data;
        data \<leftarrow> poke (unat (pkg_ptr c))
          (entry_bytes \<lparr>e_name = SCE_PSPEMU_EXTRA_MEMORY + name_ptr c, e_buffer = SCE_PSPEMU_EXTRA_MEMORY + b,
             e_size = word_of_nat (length buffer)\<rparr>) data;
        Some (data, \<lparr>pkg_ptr = pkg_ptr c + word_of_nat sizeof_package_entry,
                      name_ptr = name_ptr c + word_of_nat (length name + 1),
                      buffer_ptr = b + word_of_nat (length buffer)\<rparr>) })"

fun add_all :: "(path \<times> byte list) list \<Rightarrow> area \<times> cursors \<Rightarrow> (area \<times> cursors) option" where
  "add_all [] st = Some st"
| "add_all (f # fs) st = do { st \<leftarrow> addFile f st; add_all fs st }"

text \<open>
  The search in the firmware's package, which \<open>package_entry\<close> reads at its own place in memory, starts at the
  entry where the last one stopped and does not pass an entry that was found.
\<close>

definition e_offset :: "u32 \<Rightarrow> nat" where
  "e_offset address = unat (address - SCE_PSPEMU_EXTRA_MEMORY)"

lemma package_entry_bound: "package_entry a j = Some e \<Longrightarrow> 12 * j + 12 \<le> extent a"
  by (auto simp: package_entry_def peek_def sizeof_package_entry_def Option.bind_eq_Some_conv split: if_splits)

function find_file :: "area \<Rightarrow> path \<Rightarrow> nat \<Rightarrow> (nat \<times> (path \<times> byte list) option) option" where
  "find_file a f j =
     (case package_entry a j of
        None \<Rightarrow> None
      | Some e \<Rightarrow>
          if e_buffer e = 0 then Some (j, None)
          else (case peek_str a (e_offset (e_name e)) of
                  None \<Rightarrow> None
                | Some name \<Rightarrow>
                    if f = name
                    then (case peek a (e_offset (e_buffer e)) (unat (e_size e)) of
                            None \<Rightarrow> None | Some data \<Rightarrow> Some (j, Some (name, data)))
                    else find_file a f (Suc j)))"
  by pat_completeness auto
termination
  by (relation "measure (\<lambda>(a, f, j). extent a - 12 * j)") (auto dest!: package_entry_bound)

fun add_selected :: "area \<Rightarrow> path list \<Rightarrow> nat \<Rightarrow> area \<times> cursors \<Rightarrow> (area \<times> cursors) option" where
  "add_selected old [] j st = Some st"
| "add_selected old (f # fs) j st = do {
     (j, found) \<leftarrow> find_file old f j;
     st \<leftarrow> (case found of None \<Rightarrow> Some st | Some file \<Rightarrow> addFile file st);
     add_selected old fs j st }"

definition custom_names :: "path list" where
  "custom_names = [''/kd/booter.prx'', ''/kd/galaxy.prx'', ''/kd/inferno.prx'', ''/kd/kermit_idstorage.prx'',
     ''/kd/libpsardumper.prx'', ''/kd/march33.prx'', ''/kd/popcorn.prx'', ''/kd/pspbtbnf.bin'', ''/kd/pspbtjnf.bin'',
     ''/kd/pspbtknf.bin'', ''/kd/pspbtlnf.bin'', ''/kd/pspbtmnf.bin'', ''/kd/pspbtrnf.bin'', ''/kd/systemctrl.prx'',
     ''/kd/vshctrl.prx'', ''/vsh/module/recovery.prx'', ''/vsh/module/satelite.prx'']"

definition custom_package :: "(path \<Rightarrow> byte list) \<Rightarrow> (path \<times> byte list) list" where
  "custom_package rsc = map (\<lambda>n. (n, rsc n)) custom_names"

text \<open>The list of entries with the addresses the host uses, and the number of files.\<close>

definition MAX_LIST :: nat where
  "MAX_LIST = 187"

function make_list ::
  "area \<Rightarrow> u32 \<Rightarrow> nat \<Rightarrow> ScePspemuFlash0Package list \<Rightarrow> (nat \<times> ScePspemuFlash0Package list) option"
where
  "make_list a base i out =
     (case package_entry a i of
        None \<Rightarrow> None
      | Some e \<Rightarrow>
          if e_buffer e = 0 then Some (i, out)
          else if i < length out
          then make_list a base (Suc i)
            (out[i := \<lparr>e_name = e_name e - SCE_PSPEMU_EXTRA_MEMORY + base,
                       e_buffer = e_buffer e - SCE_PSPEMU_EXTRA_MEMORY + base, e_size = e_size e\<rparr>])
          else None)"
  by pat_completeness auto
termination
  by (relation "measure (\<lambda>(a, base, i, out). extent a - 12 * i)") (auto dest!: package_entry_bound)

definition index_bytes :: "nat \<Rightarrow> u8 list" where
  "index_bytes n_files = map (\<lambda>i. if i < n_files then word_of_nat i else 0) [0..<141]"

record flash0_mem =
  flash0_package :: area
  psp_extra :: area
  flash0_list :: "ScePspemuFlash0Package list"
  index_table :: "u8 list"

definition copy_area :: "area \<Rightarrow> area \<Rightarrow> area option" where
  "copy_area src dst =
     (if extent src \<le> extent dst
      then Some (dst\<lparr>at := (\<lambda>i. if i < extent src then at src i else at dst i)\<rparr>) else None)"

definition zero_entry :: ScePspemuFlash0Package where
  "zero_entry = \<lparr>e_name = 0, e_buffer = 0, e_size = 0\<rparr>"

definition first_cursors :: cursors where
  "first_cursors = \<lparr>pkg_ptr = 0, name_ptr = 0x1000, buffer_ptr = 0x2000\<rparr>"

text \<open>The result is the code, the memory blocks that stay allocated and the memory.\<close>

definition ScePspemuBuildFlash0 ::
  "u32 \<Rightarrow> (path \<Rightarrow> byte list) \<Rightarrow> path list \<Rightarrow> int \<Rightarrow> int \<Rightarrow> flash0_mem \<Rightarrow> (int \<times> int list \<times> flash0_mem) option"
where
  "ScePspemuBuildFlash0 base rsc names flash0_blockid temp_blockid m =
     (if flash0_blockid < 0 then Some (flash0_blockid, [], m)
      else if temp_blockid < 0 then Some (temp_blockid, [flash0_blockid], m)
      else do {
        st \<leftarrow> add_all (custom_package rsc) (zeroed SCE_PSPEMU_FLASH0_PACKAGE_SIZE, first_cursors);
        (data, _) \<leftarrow> add_selected (flash0_package m) names 0 st;
        pkg \<leftarrow> copy_area data (flash0_package m);
        psp \<leftarrow> copy_area data (psp_extra m);
        (n_files, entries) \<leftarrow> make_list pkg base 0 (replicate MAX_LIST zero_entry);
        Some (0, [], \<lparr>flash0_package = pkg, psp_extra = psp, flash0_list = entries,
                       index_table = index_bytes n_files\<rparr>) })"

declare find_file.simps [simp del] make_list.simps [simp del]

section \<open>Areas\<close>

lemma extent_poke: "poke off bs a = Some a' \<Longrightarrow> extent a' = extent a"
  by (auto simp: poke_def split: if_splits)

lemma poke_Some: "off + length bs \<le> extent a \<Longrightarrow> \<exists>a'. poke off bs a = Some a' \<and> extent a' = extent a"
  by (simp add: poke_def)

lemma peek_poke: "poke off bs a = Some a' \<Longrightarrow> peek a' off (length bs) = Some bs"
  by (auto simp: poke_def peek_def split: if_splits intro!: nth_equalityI)

lemma peek_other:
  "poke off bs a = Some a' \<Longrightarrow> o' + n \<le> off \<or> off + length bs \<le> o' \<Longrightarrow> peek a' o' n = peek a o' n"
  by (auto simp: poke_def peek_def split: if_splits)

lemma at_other:
  "poke off bs a = Some a' \<Longrightarrow> i < off \<or> off + length bs \<le> i \<Longrightarrow> at a' i = at a i"
  by (auto simp: poke_def split: if_splits)

lemma peek_str_lit:
  assumes "peek a off (length s + 1) = Some (lit s)" and "plain s"
  shows "peek_str a off = Some s"
proof -
  have e: "off + length s + 1 \<le> extent a" "map (at a) [off..<off + (length s + 1)] = lit s"
    using assms(1) by (auto simp: peek_def split: if_splits)
  have "[off..<extent a] = [off..<off + (length s + 1)] @ [off + (length s + 1)..<extent a]"
    using e(1) by (metis add.assoc le_add1 upt_add_eq_append le_add_diff_inverse)
  then have "map (at a) [off..<extent a] = lit s @ map (at a) [off + (length s + 1)..<extent a]"
    by (simp only: map_append e(2))
  then show ?thesis
    using assms(2) e(1) by (simp add: peek_str_def cstr_append_NUL)
qed

lemma unat_ALIGN:
  assumes "unat x + 63 < 2 ^ 32"
  shows "unat (ALIGN x 0x40) = 64 * ((unat x + 63) div 64)"
proof -
  have a: "y AND NOT (mask 6) = push_bit 6 (drop_bit 6 y)" for y :: u32
    by (rule bit_word_eqI) (auto simp: bit_simps)
  have m: "(0x40 - 1 :: u32) = mask 6"
    by (simp add: mask_eq_exp_minus_1)
  have u: "unat (x + mask 6) = unat x + 63"
  proof -
    have "unat (x + mask 6) = (unat x + 63) mod 2 ^ 32"
      by (simp add: unat_word_ariths mask_eq_exp_minus_1)
    then show ?thesis
      using assms by simp
  qed
  have t: "take_bit 32 (unat x + 63) = unat x + 63"
    using assms by (simp add: take_bit_nat_eq_self)
  have "unat (ALIGN x 0x40) = take_bit 32 (push_bit 6 (drop_bit 6 (unat x + 63)))"
    unfolding ALIGN_def m a by (simp add: unsigned_push_bit_eq unsigned_drop_bit_eq u t del: push_bit_eq_mult)
  also have "\<dots> = 64 * ((unat x + 63) div 64)"
    using assms by (simp add: take_bit_nat_eq_self push_bit_eq_mult drop_bit_eq_div)
  finally show ?thesis .
qed


section \<open>The layout\<close>

text \<open>File \<open>k\<close> of the package: its table entry, its name and its contents.\<close>

definition package_holds :: "area \<Rightarrow> nat \<Rightarrow> nat \<Rightarrow> nat \<Rightarrow> path \<times> byte list \<Rightarrow> bool" where
  "package_holds a k noff boff f \<longleftrightarrow>
     peek a (12 * k) 12 = Some (entry_bytes \<lparr>e_name = SCE_PSPEMU_EXTRA_MEMORY + word_of_nat noff,
        e_buffer = SCE_PSPEMU_EXTRA_MEMORY + word_of_nat boff, e_size = word_of_nat (length (snd f))\<rparr>)
     \<and> peek a noff (length (fst f) + 1) = Some (lit (fst f)) \<and> peek a boff (length (snd f)) = Some (snd f)"

definition in_regions :: "nat \<Rightarrow> nat \<Rightarrow> nat \<Rightarrow> nat \<Rightarrow> path \<times> byte list \<Rightarrow> bool" where
  "in_regions noff boff n b f \<longleftrightarrow>
     0x1000 \<le> noff \<and> noff + length (fst f) + 1 \<le> n \<and> 0x2000 \<le> boff \<and> boff + length (snd f) \<le> b
     \<and> 64 dvd boff"

definition laid_out :: "(path \<times> byte list) list \<Rightarrow> area \<Rightarrow> nat \<Rightarrow> nat \<Rightarrow> bool" where
  "laid_out fs a n b \<longleftrightarrow>
     12 * length fs \<le> 0x1000 \<and> 0x1000 \<le> n \<and> n \<le> 0x2000 \<and> 0x2000 \<le> b \<and> b \<le> extent a
     \<and> extent a = SCE_PSPEMU_FLASH0_PACKAGE_SIZE
     \<and> (\<forall>i. 12 * length fs \<le> i \<and> i < 0x1000 \<longrightarrow> at a i = NUL)
     \<and> (\<forall>k < length fs. \<exists>noff boff. package_holds a k noff boff (fs ! k) \<and> in_regions noff boff n b (fs ! k))"

definition cursors_at :: "cursors \<Rightarrow> nat \<Rightarrow> nat \<Rightarrow> nat \<Rightarrow> bool" where
  "cursors_at c p n b \<longleftrightarrow> unat (pkg_ptr c) = p \<and> unat (name_ptr c) = n \<and> unat (buffer_ptr c) = b"

definition aligned64 :: "nat \<Rightarrow> nat" where
  "aligned64 b = 64 * ((b + 63) div 64)"

lemma aligned64_bounds: "b \<le> aligned64 b" "64 dvd aligned64 b" "aligned64 b < b + 64"
  by (simp_all add: aligned64_def; presburger?)+

lemma unat_add_small: "unat (x :: u32) + n < 2 ^ 32 \<Longrightarrow> unat (x + word_of_nat n) = unat x + n"
  by (simp add: unat_word_ariths unat_of_nat)

lemma length_entry_bytes [simp]: "length (entry_bytes e) = 12"
  by (simp add: entry_bytes_def)

lemma package_holds_poke:
  assumes "poke off bs a = Some a'" and "package_holds a k noff boff f" and "in_regions noff boff n b f"
    and "12 * k + 12 \<le> 0x1000" and "n \<le> 0x2000"
    and "b \<le> off \<or> (n \<le> off \<and> off + length bs \<le> 0x2000) \<or> (12 * k + 12 \<le> off \<and> off + length bs \<le> 0x1000)"
  shows "package_holds a' k noff boff f"
proof -
  have "peek a' (12 * k) 12 = peek a (12 * k) 12" "peek a' noff (length (fst f) + 1) = peek a noff (length (fst f) + 1)"
    "peek a' boff (length (snd f)) = peek a boff (length (snd f))"
    using assms(3-6) by (auto intro!: peek_other [OF assms(1)] simp: in_regions_def)
  then show ?thesis
    using assms(2) by (simp add: package_holds_def)
qed

lemma addFile_lays_out:
  assumes "laid_out fs a n b" and "cursors_at c (12 * length fs) n b"
    and "12 * (length fs + 1) \<le> 0x1000" and "n + length (fst f) + 1 \<le> 0x2000"
    and "aligned64 b + length (snd f) \<le> SCE_PSPEMU_FLASH0_PACKAGE_SIZE"
  shows "\<exists>a' c'. addFile f (a, c) = Some (a', c')
     \<and> laid_out (fs @ [f]) a' (n + length (fst f) + 1) (aligned64 b + length (snd f))
     \<and> cursors_at c' (12 * length (fs @ [f])) (n + length (fst f) + 1) (aligned64 b + length (snd f))"
proof -
  obtain name buffer where f: "f = (name, buffer)"
    by fastforce
  let ?b = "aligned64 b"
  have L: "0x1000 \<le> n" "0x2000 \<le> b" "b \<le> extent a" "extent a = 0x920000" "n \<le> 0x2000"
    using assms(1) by (simp_all add: laid_out_def SCE_PSPEMU_FLASH0_PACKAGE_SIZE_def)
  have C: "unat (pkg_ptr c) = 12 * length fs" "unat (name_ptr c) = n" "unat (buffer_ptr c) = b"
    using assms(2) by (simp_all add: cursors_at_def)
  have sz: "?b + length buffer \<le> 0x920000"
    using assms(5) f by (simp add: SCE_PSPEMU_FLASH0_PACKAGE_SIZE_def)
  have al: "unat (ALIGN (buffer_ptr c) 0x40) = ?b"
    using unat_ALIGN [of "buffer_ptr c"] L C by (simp add: aligned64_def)
  obtain a1 where a1: "poke ?b buffer a = Some a1" "extent a1 = extent a"
    using poke_Some [of ?b buffer a] sz L(4) by auto
  obtain a2 where a2: "poke n (lit name) a1 = Some a2" "extent a2 = extent a"
    using poke_Some [of n "lit name" a1] assms(4) f L(4) a1(2) by auto
  define e where "e = \<lparr>e_name = SCE_PSPEMU_EXTRA_MEMORY + name_ptr c,
    e_buffer = SCE_PSPEMU_EXTRA_MEMORY + ALIGN (buffer_ptr c) 0x40, e_size = word_of_nat (length buffer) :: u32\<rparr>"
  have e: "e = \<lparr>e_name = SCE_PSPEMU_EXTRA_MEMORY + word_of_nat n, e_buffer = SCE_PSPEMU_EXTRA_MEMORY + word_of_nat ?b,
      e_size = word_of_nat (length buffer)\<rparr>"
    unfolding e_def C(2) [symmetric] al [symmetric] by simp
  obtain a3 where a3: "poke (12 * length fs) (entry_bytes e) a2 = Some a3" "extent a3 = extent a"
    using poke_Some [of "12 * length fs" "entry_bytes e" a2] assms(3) L(4) a2(2) by auto
  define c' where "c' = \<lparr>pkg_ptr = pkg_ptr c + word_of_nat sizeof_package_entry,
      name_ptr = name_ptr c + word_of_nat (length name + 1),
      buffer_ptr = ALIGN (buffer_ptr c) 0x40 + word_of_nat (length buffer)\<rparr>"
  have run: "addFile f (a, c) = Some (a3, c')"
    using a1(1) a2(1) a3(1) by (simp add: addFile_def f Let_def al C e_def c'_def)
  have cur: "cursors_at c' (12 * length (fs @ [f])) (n + length name + 1) (?b + length buffer)"
    using assms(3,4) sz f C al
    by (simp add: cursors_at_def c'_def sizeof_package_entry_def unat_add_small del: of_nat_Suc of_nat_numeral of_nat_add)
  have old: "\<exists>noff boff. package_holds a3 k noff boff ((fs @ [f]) ! k)
      \<and> in_regions noff boff (n + length name + 1) (?b + length buffer) ((fs @ [f]) ! k)" if k: "k < length fs" for k
  proof -
    obtain noff boff where h: "package_holds a k noff boff (fs ! k)" "in_regions noff boff n b (fs ! k)"
      using assms(1) k unfolding laid_out_def by blast
    have kk: "12 * k + 12 \<le> 0x1000" "12 * k + 12 \<le> 12 * length fs"
      using k assms(3) by simp_all
    have "package_holds a1 k noff boff (fs ! k)"
      by (rule package_holds_poke [OF a1(1) h kk(1) L(5)]) (simp add: aligned64_bounds)
    then have "package_holds a2 k noff boff (fs ! k)"
      by (rule package_holds_poke [OF a2(1) _ h(2) kk(1) L(5)]) (use assms(4) f in simp)
    then have "package_holds a3 k noff boff (fs ! k)"
      by (rule package_holds_poke [OF a3(1) _ h(2) kk(1) L(5)]) (use assms(3) kk(2) in simp)
    moreover have "in_regions noff boff (n + length name + 1) (?b + length buffer) (fs ! k)"
      using h(2) aligned64_bounds(1) [of b] by (simp add: in_regions_def)
    ultimately show ?thesis
      using k by (auto simp: nth_append)
  qed
  have new: "package_holds a3 (length fs) n ?b f"
  proof -
    have "peek a3 (12 * length fs) 12 = Some (entry_bytes e)"
      using peek_poke [OF a3(1)] by simp
    moreover have "peek a3 n (length name + 1) = peek a2 n (length name + 1)"
      by (rule peek_other [OF a3(1)]) (use assms(3) L in simp)
    then have "peek a3 n (length name + 1) = Some (lit name)"
      using peek_poke [OF a2(1)] by simp
    moreover have "peek a3 ?b (length buffer) = peek a2 ?b (length buffer)"
      by (rule peek_other [OF a3(1)]) (use assms(3) L aligned64_bounds(1) [of b] in simp)
    moreover have "peek a2 ?b (length buffer) = peek a1 ?b (length buffer)"
      by (rule peek_other [OF a2(1)]) (use assms(4) f L aligned64_bounds(1) [of b] in simp)
    ultimately show ?thesis
      using peek_poke [OF a1(1)] e f by (simp add: package_holds_def)
  qed
  have zero: "at a3 i = NUL" if i: "12 * length fs + 12 \<le> i" "i < 0x1000" for i
  proof -
    have "at a i = NUL"
      using assms(1) i unfolding laid_out_def by simp
    moreover have "at a1 i = at a i" "at a2 i = at a1 i" "at a3 i = at a2 i"
      using i L aligned64_bounds(1) [of b]
      by (auto intro!: at_other [OF a1(1)] at_other [OF a2(1)] at_other [OF a3(1)])
    ultimately show ?thesis
      by simp
  qed
  have "laid_out (fs @ [f]) a3 (n + length name + 1) (?b + length buffer)"
    unfolding laid_out_def
  proof (intro conjI allI impI)
    show "\<exists>noff boff. package_holds a3 k noff boff ((fs @ [f]) ! k)
        \<and> in_regions noff boff (n + length name + 1) (?b + length buffer) ((fs @ [f]) ! k)"
      if "k < length (fs @ [f])" for k
    proof (cases "k < length fs")
      case False
      then have "k = length fs"
        using that by simp
      moreover have "in_regions n ?b (n + length name + 1) (?b + length buffer) f"
        using L aligned64_bounds [of b] f by (simp add: in_regions_def)
      ultimately show ?thesis
        using new by auto
    qed (rule old)
  qed (use assms(3,4) f L sz a3(2) zero aligned64_bounds(1) [of b] in \<open>simp_all add: SCE_PSPEMU_FLASH0_PACKAGE_SIZE_def\<close>)
  then show ?thesis
    using run cur f by (intro exI [of _ a3] exI [of _ c']) simp
qed


section \<open>Reading a package back\<close>

text \<open>The files of a package from entry \<open>j\<close> on, up to the first entry without contents.\<close>

function read_package :: "area \<Rightarrow> nat \<Rightarrow> (path \<times> byte list) list option" where
  "read_package a j =
     (case package_entry a j of
        None \<Rightarrow> None
      | Some e \<Rightarrow>
          if e_buffer e = 0 then Some []
          else (case (peek_str a (e_offset (e_name e)), peek a (e_offset (e_buffer e)) (unat (e_size e)),
                      read_package a (Suc j)) of
                  (Some name, Some data, Some rest) \<Rightarrow> Some ((name, data) # rest) | _ \<Rightarrow> None))"
  by pat_completeness auto
termination
  by (relation "measure (\<lambda>(a, j). extent a - 12 * j)") (auto dest!: package_entry_bound)

declare read_package.simps [simp del]

lemma read_package_end: "package_entry a j = Some e \<Longrightarrow> e_buffer e = 0 \<Longrightarrow> read_package a j = Some []"
  by (subst read_package.simps) simp

lemma read_package_step:
  "package_entry a j = Some e \<Longrightarrow> e_buffer e \<noteq> 0 \<Longrightarrow> peek_str a (e_offset (e_name e)) = Some name \<Longrightarrow>
     peek a (e_offset (e_buffer e)) (unat (e_size e)) = Some data \<Longrightarrow> read_package a (Suc j) = Some rest \<Longrightarrow>
     read_package a j = Some ((name, data) # rest)"
  by (subst read_package.simps) simp

lemma read_package_cases:
  assumes "read_package a j = Some xs"
  obtains (stop) e where "package_entry a j = Some e" "e_buffer e = 0" "xs = []"
  | (entry) e name data rest where "package_entry a j = Some e" "e_buffer e \<noteq> 0"
      "peek_str a (e_offset (e_name e)) = Some name" "peek a (e_offset (e_buffer e)) (unat (e_size e)) = Some data"
      "read_package a (Suc j) = Some rest" "xs = (name, data) # rest"
  using assms by (subst (asm) read_package.simps) (auto split: option.splits if_splits)

lemma rd32_entry:
  "rd32 (entry_bytes e) = e_name e" "rd32 (drop 4 (entry_bytes e)) = e_buffer e"
  "rd32 (drop 8 (entry_bytes e)) = e_size e"
  by (simp_all add: entry_bytes_def)

lemma holds_entry:
  assumes "package_holds a k noff boff f" "in_regions noff boff n b f" "n \<le> 0x2000" "b \<le> 0x920000" "plain (fst f)"
  shows "\<exists>e. package_entry a k = Some e \<and> e_buffer e \<noteq> 0 \<and> peek_str a (e_offset (e_name e)) = Some (fst f)
     \<and> peek a (e_offset (e_buffer e)) (unat (e_size e)) = Some (snd f)"
proof -
  define e where "e = \<lparr>e_name = SCE_PSPEMU_EXTRA_MEMORY + word_of_nat noff,
    e_buffer = SCE_PSPEMU_EXTRA_MEMORY + word_of_nat boff, e_size = word_of_nat (length (snd f)) :: u32\<rparr>"
  have r: "noff < 0x2000" "boff < 0x920001" "length (snd f) < 0x920001"
    using assms(2-4) by (simp_all add: in_regions_def)
  have "unat (SCE_PSPEMU_EXTRA_MEMORY + word_of_nat boff :: u32) = unat SCE_PSPEMU_EXTRA_MEMORY + boff"
    using r by (intro unat_add_small) (simp add: SCE_PSPEMU_EXTRA_MEMORY_def)
  then have nz: "e_buffer e \<noteq> 0"
    by (auto simp: e_def SCE_PSPEMU_EXTRA_MEMORY_def simp flip: unat_eq_zero)
  have off: "e_offset (e_name e) = noff" "e_offset (e_buffer e) = boff" "unat (e_size e) = length (snd f)"
    using r by (simp_all add: e_offset_def e_def unat_of_nat)
  have "package_entry a k = Some e"
    using assms(1) by (simp add: package_entry_def package_holds_def sizeof_package_entry_def rd32_entry e_def)
  then show ?thesis
    using assms(1) nz off peek_str_lit [OF _ assms(5)] by (auto simp: package_holds_def)
qed

lemma read_package_laid_out:
  assumes "laid_out fs a n b" and "12 * (length fs + 1) \<le> 0x1000" and "\<forall>f \<in> set fs. plain (fst f)"
    and "k \<le> length fs"
  shows "read_package a k = Some (drop k fs)"
  using assms(4)
proof (induction "length fs - k" arbitrary: k)
  case 0
  have sz: "12 * k + 12 \<le> extent a" and z: "\<forall>i. 12 * k \<le> i \<and> i < 0x1000 \<longrightarrow> at a i = NUL"
    using assms(1,2) 0 by (auto simp: laid_out_def)
  have "map (at a) [12 * k..<12 * k + 12] = replicate 12 NUL"
    using z assms(2) 0 by (intro nth_equalityI) auto
  then have "package_entry a k = Some \<lparr>e_name = 0, e_buffer = 0, e_size = 0\<rparr>"
    using sz by (simp add: package_entry_def peek_def sizeof_package_entry_def rd32_def del: upt_Suc)
  then show ?case
    using 0 by (simp add: read_package_end)
next
  case (Suc d)
  then have k: "k < length fs" "d = length fs - Suc k" "Suc k \<le> length fs"
    by simp_all
  obtain noff boff where h: "package_holds a k noff boff (fs ! k)" "in_regions noff boff n b (fs ! k)"
    using assms(1) k(1) unfolding laid_out_def by blast
  have nb: "n \<le> 0x2000" "b \<le> 0x920000"
    using assms(1) by (simp_all add: laid_out_def SCE_PSPEMU_FLASH0_PACKAGE_SIZE_def)
  have p: "plain (fst (fs ! k))"
    using assms(3) k(1) by simp
  show ?case
    using holds_entry [OF h nb p] Suc.hyps(1) [OF k(2,3)] drop_Cons_nth [OF k(1)]
    by (cases "fs ! k") (auto intro: read_package_step)
qed

section \<open>Adding files\<close>

fun contents_end :: "nat \<Rightarrow> (path \<times> byte list) list \<Rightarrow> nat" where
  "contents_end b [] = b"
| "contents_end b (f # fs) = contents_end (aligned64 b + length (snd f)) fs"

definition names_size :: "(path \<times> byte list) list \<Rightarrow> nat" where
  "names_size fs = sum_list (map (\<lambda>f. length (fst f) + 1) fs)"

definition fits_package :: "(path \<times> byte list) list \<Rightarrow> bool" where
  "fits_package fs \<longleftrightarrow>
     12 * (length fs + 1) \<le> 0x1000 \<and> length fs \<le> MAX_LIST \<and> names_size fs \<le> 0x1000
     \<and> contents_end 0x2000 fs \<le> SCE_PSPEMU_FLASH0_PACKAGE_SIZE \<and> (\<forall>f \<in> set fs. plain (fst f))"

lemma contents_end_append: "contents_end b (xs @ ys) = contents_end (contents_end b xs) ys"
  by (induction xs arbitrary: b) auto

lemma contents_end_mono: "b \<le> contents_end b fs"
proof (induction fs arbitrary: b)
  case (Cons f fs)
  show ?case
    using Cons.IH [of "aligned64 b + length (snd f)"] aligned64_bounds(1) [of b] by simp
qed simp

lemma add_all_lays_out:
  assumes "laid_out ps a n b" and "cursors_at c (12 * length ps) n b"
    and "12 * (length ps + length fs) \<le> 0x1000" and "n + names_size fs \<le> 0x2000"
    and "contents_end b fs \<le> SCE_PSPEMU_FLASH0_PACKAGE_SIZE"
  shows "\<exists>a' c'. add_all fs (a, c) = Some (a', c')
     \<and> laid_out (ps @ fs) a' (n + names_size fs) (contents_end b fs)
     \<and> cursors_at c' (12 * length (ps @ fs)) (n + names_size fs) (contents_end b fs)"
  using assms
proof (induction fs arbitrary: ps a n b c)
  case (Cons f fs)
  have 1: "12 * (length ps + 1) \<le> 0x1000" "n + length (fst f) + 1 \<le> 0x2000"
    "aligned64 b + length (snd f) \<le> SCE_PSPEMU_FLASH0_PACKAGE_SIZE"
    using Cons.prems(3-5) contents_end_mono [of "aligned64 b + length (snd f)" fs] by (simp_all add: names_size_def)
  obtain a' c' where s: "addFile f (a, c) = Some (a', c')"
    "laid_out (ps @ [f]) a' (n + length (fst f) + 1) (aligned64 b + length (snd f))"
    "cursors_at c' (12 * length (ps @ [f])) (n + length (fst f) + 1) (aligned64 b + length (snd f))"
    using addFile_lays_out [OF Cons.prems(1,2) 1] by blast
  have 2: "12 * (length (ps @ [f]) + length fs) \<le> 0x1000" "n + length (fst f) + 1 + names_size fs \<le> 0x2000"
    "contents_end (aligned64 b + length (snd f)) fs \<le> SCE_PSPEMU_FLASH0_PACKAGE_SIZE"
    using Cons.prems(3-5) by (simp_all add: names_size_def)
  show ?case
    using Cons.IH [OF s(2,3) 2] s(1) by (simp add: names_size_def add.assoc)
qed (simp add: names_size_def)

lemma zeroed_laid_out: "laid_out [] (zeroed SCE_PSPEMU_FLASH0_PACKAGE_SIZE) 0x1000 0x2000"
  by (simp add: laid_out_def zeroed_def SCE_PSPEMU_FLASH0_PACKAGE_SIZE_def)

lemma first_cursors_at: "cursors_at first_cursors 0 0x1000 0x2000"
  by (simp add: cursors_at_def first_cursors_def)

section \<open>Selecting the firmware's files\<close>

fun pick_files :: "path list \<Rightarrow> (path \<times> byte list) list \<Rightarrow> (path \<times> byte list) list" where
  "pick_files [] old = []"
| "pick_files (f # fs) old =
     (case dropWhile (\<lambda>e. fst e \<noteq> f) old of [] \<Rightarrow> [] | e # rest \<Rightarrow> e # pick_files fs (e # rest))"

lemma find_file_correct:
  "read_package a j = Some xs \<Longrightarrow>
     \<exists>j'. find_file a f j = Some (j', case dropWhile (\<lambda>e. fst e \<noteq> f) xs of [] \<Rightarrow> None | e # _ \<Rightarrow> Some e)
        \<and> read_package a j' = Some (dropWhile (\<lambda>e. fst e \<noteq> f) xs)"
proof (induction a f j arbitrary: xs rule: find_file.induct)
  case (1 a f j)
  show ?case
    using 1(2)
  proof (cases rule: read_package_cases)
    case (stop e)
    then show ?thesis
      using 1(2) by (subst find_file.simps) simp
  next
    case (entry e name data rest)
    show ?thesis
    proof (cases "f = name")
      case True
      then show ?thesis
        using entry 1(2) by (subst find_file.simps) simp
    next
      case False
      then show ?thesis
        using 1(1) [OF entry(1,2,3) False entry(5)] entry by (subst find_file.simps) simp
    qed
  qed
qed

lemma add_selected_correct:
  "read_package old j = Some xs \<Longrightarrow> add_selected old fs j st = add_all (pick_files fs xs) st"
proof (induction fs arbitrary: j xs st)
  case (Cons f fs)
  obtain j' where j': "find_file old f j
      = Some (j', case dropWhile (\<lambda>e. fst e \<noteq> f) xs of [] \<Rightarrow> None | e # _ \<Rightarrow> Some e)"
    "read_package old j' = Some (dropWhile (\<lambda>e. fst e \<noteq> f) xs)"
    using find_file_correct [OF Cons.prems] by blast
  have none: "pick_files fs [] = []"
    by (cases fs) simp_all
  have ih: "add_selected old fs j' = add_all (pick_files fs (dropWhile (\<lambda>e. fst e \<noteq> f) xs))"
    by (rule ext) (rule Cons.IH [OF j'(2)])
  show ?case
    using j'(1) none ih
    by (cases "dropWhile (\<lambda>e. fst e \<noteq> f) xs") (simp_all del: dropWhile_eq_Nil_conv)
qed simp

lemma pick_files_filter:
  "subseq fs (map fst old) \<Longrightarrow> distinct (map fst old) \<Longrightarrow> pick_files fs old = filter (\<lambda>e. fst e \<in> set fs) old"
proof (induction fs arbitrary: old)
  case (Cons f fs)
  obtain us' v' vs' where "map fst old = us' @ v' # vs'" "f = v'" "subseq fs vs'"
    using list_emb_ConsD [OF Cons.prems(1)] by blast
  then obtain us e rest where o: "old = us @ e # rest" "fst e = f" "subseq fs (map fst rest)"
    by (auto simp: map_eq_append_conv)
  have d: "f \<notin> fst ` set us" "f \<notin> fst ` set rest" "fst ` set us \<inter> fst ` set rest = {}" "distinct (map fst (e # rest))"
    using Cons.prems(2) o(2) unfolding o(1) by auto
  have fs: "set fs \<subseteq> fst ` set rest"
    by (auto elim: list_emb_set [OF o(3)])
  have dw: "dropWhile (\<lambda>x. fst x \<noteq> f) old = e # rest"
  proof -
    have "fst x \<noteq> f" if "x \<in> set us" for x
      using d(1) that by blast
    then show ?thesis
      using o(2) unfolding o(1) by (simp add: dropWhile_append2)
  qed
  have "pick_files (f # fs) old = e # filter (\<lambda>x. fst x \<in> set fs) (e # rest)"
  proof -
    have "subseq fs (map fst (e # rest))"
      using o(3) by (simp add: list_emb_Cons)
    from Cons.IH [OF this d(4)] show ?thesis
      by (simp add: dw)
  qed
  also have "\<dots> = e # filter (\<lambda>x. fst x \<in> set (f # fs)) rest"
  proof -
    have "fst x \<noteq> f" if "x \<in> set rest" for x
      using d(2) that by blast
    moreover have "fst e \<notin> set fs"
      using d(2) fs o(2) by blast
    ultimately show ?thesis
      by (auto intro!: filter_cong)
  qed
  also have "\<dots> = filter (\<lambda>x. fst x \<in> set (f # fs)) old"
  proof -
    have "fst x \<notin> set (f # fs)" if "x \<in> set us" for x
      using that d(1,3) fs by auto
    then have "filter (\<lambda>x. fst x \<in> set (f # fs)) us = []"
      by (simp only: filter_empty_conv) blast
    then show ?thesis
      using o(2) unfolding o(1) by simp
  qed
  finally show ?case .
qed simp

section \<open>The host's list\<close>

definition host_entries :: "area \<Rightarrow> u32 \<Rightarrow> nat \<Rightarrow> nat \<Rightarrow> ScePspemuFlash0Package list \<Rightarrow> bool" where
  "host_entries a base i n out \<longleftrightarrow>
     (\<forall>k. i \<le> k \<and> k < n \<longrightarrow> (\<exists>e. package_entry a k = Some e
        \<and> out ! k = \<lparr>e_name = e_name e - SCE_PSPEMU_EXTRA_MEMORY + base,
             e_buffer = e_buffer e - SCE_PSPEMU_EXTRA_MEMORY + base, e_size = e_size e\<rparr>))"

lemma make_list_correct:
  "read_package a i = Some xs \<Longrightarrow> i + length xs \<le> length out \<Longrightarrow>
     \<exists>out'. make_list a base i out = Some (i + length xs, out') \<and> length out' = length out
       \<and> host_entries a base i (i + length xs) out'
       \<and> (\<forall>k. k < i \<or> i + length xs \<le> k \<longrightarrow> out' ! k = out ! k)"
proof (induction xs arbitrary: i out)
  case Nil
  then obtain e where "package_entry a i = Some e" "e_buffer e = 0"
    by (auto elim: read_package_cases)
  then show ?case
    by (subst make_list.simps) (auto simp: host_entries_def)
next
  case (Cons x xs)
  from Cons.prems(1) obtain e where e: "package_entry a i = Some e" "e_buffer e \<noteq> 0" "read_package a (Suc i) = Some xs"
    by (auto elim: read_package_cases)
  let ?e = "\<lparr>e_name = e_name e - SCE_PSPEMU_EXTRA_MEMORY + base,
    e_buffer = e_buffer e - SCE_PSPEMU_EXTRA_MEMORY + base, e_size = e_size e\<rparr>"
  have "Suc i + length xs \<le> length (out[i := ?e])"
    using Cons.prems(2) by simp
  then obtain out' where o: "make_list a base (Suc i) (out[i := ?e]) = Some (Suc i + length xs, out')"
    "length out' = length out" "host_entries a base (Suc i) (Suc i + length xs) out'"
    "\<forall>k. k < Suc i \<or> Suc i + length xs \<le> k \<longrightarrow> out' ! k = out[i := ?e] ! k"
    using Cons.IH [OF e(3)] by fastforce
  have "host_entries a base i (Suc i + length xs) out'"
    unfolding host_entries_def
  proof (intro allI impI)
    fix k
    assume k: "i \<le> k \<and> k < Suc i + length xs"
    show "\<exists>e. package_entry a k = Some e \<and> out' ! k = \<lparr>e_name = e_name e - SCE_PSPEMU_EXTRA_MEMORY + base,
        e_buffer = e_buffer e - SCE_PSPEMU_EXTRA_MEMORY + base, e_size = e_size e\<rparr>"
    proof (cases "k = i")
      case True
      then show ?thesis
        using o(4) e(1) Cons.prems(2) by (auto simp: nth_list_update)
    next
      case False
      then show ?thesis
        using o(3) k unfolding host_entries_def by (metis Suc_leI le_neq_implies_less)
    qed
  qed
  then show ?case
    using o e(1,2) Cons.prems(2) by (subst make_list.simps) (auto simp: nth_list_update)
qed

section \<open>Properties\<close>

lemma copy_area_reads:
  assumes "extent src = extent dst"
  shows "\<exists>a. copy_area src dst = Some a \<and> extent a = extent src \<and> (\<forall>off n. peek a off n = peek src off n)
     \<and> (\<forall>off. peek_str a off = peek_str src off) \<and> (\<forall>j. package_entry a j = package_entry src j)"
proof -
  define a where "a = dst\<lparr>at := (\<lambda>i. if i < extent src then at src i else at dst i)\<rparr>"
  have c: "copy_area src dst = Some a" and x: "extent a = extent src"
    using assms by (simp_all add: copy_area_def a_def)
  have p: "peek a off n = peek src off n" for off n
    using assms by (simp add: peek_def x) (simp add: a_def)
  have "map (at a) [off..<extent src] = map (at src) [off..<extent src]" for off
    by (simp add: a_def)
  then have "peek_str a off = peek_str src off" for off
    unfolding peek_str_def x by (simp only:)
  then show ?thesis
    using c x p by (simp add: package_entry_def)
qed

lemma read_package_cong:
  assumes "\<forall>off n. peek a off n = peek b off n" "\<forall>off. peek_str a off = peek_str b off"
    "\<forall>j. package_entry a j = package_entry b j"
  shows "read_package a j = Some xs \<Longrightarrow> read_package b j = Some xs"
proof (induction xs arbitrary: j)
  case Nil
  then show ?case
    using assms by (auto elim!: read_package_cases intro: read_package_end)
next
  case (Cons x xs)
  from Cons.prems show ?case
  proof (cases rule: read_package_cases)
    case (entry e name data rest)
    then show ?thesis
      using assms Cons.IH by (auto intro: read_package_step)
  qed simp
qed

lemma add_all_append: "add_all (xs @ ys) = (\<lambda>st. add_all xs st \<bind> add_all ys)"
proof (induction xs)
  case (Cons x xs)
  show ?case
    by (rule ext) (simp add: Cons.IH)
qed (simp add: fun_eq_iff)

text \<open>
  C37: the package is built as meant. When the embedded files and the firmware's own files that \<open>files.h\<close> names fit
  the package and the names are in the firmware's order, both copies of the package read back as the embedded
  files followed by exactly those files of the firmware, in the firmware's order, with their names and contents;
  the host's list and the index table describe the same files, and no memory block stays allocated.
\<close>

theorem flash0_package_built:
  fixes old names rsc m base b1 b2
  defines "fs \<equiv> custom_package rsc @ filter (\<lambda>e. fst e \<in> set names) old"
  assumes "read_package (flash0_package m) 0 = Some old" and "distinct (map fst old)"
    and "subseq names (map fst old)" and "fits_package fs" and "0 \<le> b1" and "0 \<le> b2"
    and "extent (flash0_package m) = SCE_PSPEMU_FLASH0_PACKAGE_SIZE"
    and "extent (psp_extra m) = SCE_PSPEMU_FLASH0_PACKAGE_SIZE"
  shows "\<exists>m'. ScePspemuBuildFlash0 base rsc names b1 b2 m = Some (0, [], m')
     \<and> read_package (flash0_package m') 0 = Some fs \<and> read_package (psp_extra m') 0 = Some fs
     \<and> length (flash0_list m') = MAX_LIST \<and> host_entries (flash0_package m') base 0 (length fs) (flash0_list m')
     \<and> (\<forall>k. length fs \<le> k \<and> k < MAX_LIST \<longrightarrow> flash0_list m' ! k = zero_entry)
     \<and> index_table m' = index_bytes (length fs)"
proof -
  let ?custom = "custom_package rsc"
  have pick: "pick_files names old = filter (\<lambda>e. fst e \<in> set names) old"
    by (rule pick_files_filter [OF assms(4,3)])
  have F: "12 * (length fs + 1) \<le> 0x1000" "length fs \<le> MAX_LIST" "0x1000 + names_size fs \<le> 0x2000"
    "contents_end 0x2000 fs \<le> SCE_PSPEMU_FLASH0_PACKAGE_SIZE" "\<forall>f \<in> set fs. plain (fst f)"
    using assms(5) by (simp_all add: fits_package_def)
  obtain a c where built: "add_all fs (zeroed SCE_PSPEMU_FLASH0_PACKAGE_SIZE, first_cursors) = Some (a, c)"
    "laid_out fs a (0x1000 + names_size fs) (contents_end 0x2000 fs)"
    using add_all_lays_out [OF zeroed_laid_out, of first_cursors fs] first_cursors_at F by auto
  have ext: "extent a = SCE_PSPEMU_FLASH0_PACKAGE_SIZE"
    using built(2) by (simp add: laid_out_def)
  have reads: "read_package a 0 = Some fs"
    using read_package_laid_out [OF built(2) F(1,5), of 0] by simp
  obtain pkg where pkg: "copy_area a (flash0_package m) = Some pkg" "read_package pkg 0 = Some fs"
    using copy_area_reads [of a "flash0_package m"] ext assms(8) read_package_cong [of a _ 0 fs, OF _ _ _ reads] by metis
  obtain psp where psp: "copy_area a (psp_extra m) = Some psp" "read_package psp 0 = Some fs"
    using copy_area_reads [of a "psp_extra m"] ext assms(9) read_package_cong [of a _ 0 fs, OF _ _ _ reads] by metis
  obtain out where out: "make_list pkg base 0 (replicate MAX_LIST zero_entry) = Some (length fs, out)"
    "length out = MAX_LIST" "host_entries pkg base 0 (length fs) out"
    "\<forall>k. length fs \<le> k \<longrightarrow> out ! k = replicate MAX_LIST zero_entry ! k"
    using make_list_correct [OF pkg(2), of "replicate MAX_LIST zero_entry" base] F(2) by auto
  have "ScePspemuBuildFlash0 base rsc names b1 b2 m = Some (0, [], \<lparr>flash0_package = pkg, psp_extra = psp,
      flash0_list = out, index_table = index_bytes (length fs)\<rparr>)"
  proof -
    obtain st where st: "add_all ?custom (zeroed SCE_PSPEMU_FLASH0_PACKAGE_SIZE, first_cursors) = Some st"
      "add_all (filter (\<lambda>e. fst e \<in> set names) old) st = Some (a, c)"
      using built(1) unfolding fs_def add_all_append by (auto simp: Option.bind_eq_Some_conv)
    have "add_selected (flash0_package m) names 0 st = Some (a, c)"
      using add_selected_correct [OF assms(2), of names st] st(2) by (simp add: pick)
    then show ?thesis
      using st(1) pkg(1) psp(1) out(1) assms(6,7) by (simp add: ScePspemuBuildFlash0_def)
  qed
  then show ?thesis
    using pkg(2) psp(2) out by auto
qed


definition flash0_sample_old :: "(path \<times> byte list) list" where
  "flash0_sample_old = [(''/kd/ata.prx'', ''AAAA''), (''/kd/usb.prx'', ''BB'')]"

definition flash0_sample_rsc :: "path \<Rightarrow> byte list" where
  "flash0_sample_rsc n = ''~PSP''"

lemma flash0_sample_fits:
  "fits_package flash0_sample_old"
  "fits_package (custom_package flash0_sample_rsc @ [(''/kd/usb.prx'', ''BB'')])"
  by (simp_all add: fits_package_def flash0_sample_old_def custom_package_def custom_names_def flash0_sample_rsc_def
      names_size_def aligned64_def MAX_LIST_def SCE_PSPEMU_FLASH0_PACKAGE_SIZE_def)

theorem flash0_package_built_witness:
  "\<exists>m m'. read_package (flash0_package m) 0 = Some [(''/kd/ata.prx'', ''AAAA''), (''/kd/usb.prx'', ''BB'')]
     \<and> ScePspemuBuildFlash0 0x81000000 flash0_sample_rsc [''/kd/usb.prx''] 5 6 m = Some (0, [], m')
     \<and> read_package (psp_extra m') 0 = Some (custom_package flash0_sample_rsc @ [(''/kd/usb.prx'', ''BB'')])"
proof -
  note F = flash0_sample_fits(1) [unfolded fits_package_def]
  obtain a c where a: "laid_out flash0_sample_old a (0x1000 + names_size flash0_sample_old) (contents_end 0x2000 flash0_sample_old)"
    using add_all_lays_out [OF zeroed_laid_out, of first_cursors flash0_sample_old] first_cursors_at F by auto
  have r: "read_package a 0 = Some flash0_sample_old"
    using read_package_laid_out [OF a, of 0] F by simp
  have e: "extent a = SCE_PSPEMU_FLASH0_PACKAGE_SIZE"
    using a by (simp add: laid_out_def)
  define m where "m = \<lparr>flash0_package = a, psp_extra = a, flash0_list = [], index_table = []\<rparr>"
  have f: "filter (\<lambda>e. fst e \<in> set [''/kd/usb.prx'']) flash0_sample_old = [(''/kd/usb.prx'', ''BB'')]"
    by (simp add: flash0_sample_old_def)
  have "read_package (flash0_package m) 0 = Some flash0_sample_old" "distinct (map fst flash0_sample_old)"
    "subseq [''/kd/usb.prx''] (map fst flash0_sample_old)"
    using r by (simp_all add: m_def flash0_sample_old_def)
  from flash0_package_built [OF this, unfolded f, OF flash0_sample_fits(2), of 5 6 "0x81000000"] e
  obtain m' where "ScePspemuBuildFlash0 0x81000000 flash0_sample_rsc [''/kd/usb.prx''] 5 6 m = Some (0, [], m')"
    "read_package (psp_extra m') 0 = Some (custom_package flash0_sample_rsc @ [(''/kd/usb.prx'', ''BB'')])"
    by (auto simp: m_def)
  then show ?thesis
    using r by (intro exI [of _ m] exI [of _ m']) (simp add: m_def flash0_sample_old_def)
qed


end
