(* ===== verification/InitPatch.thy ===== *)
theory InitPatch
  imports SceIo CString
begin

text \<open>
  The module loader hooks of SystemControl, \<open>overlay/cef/systemctrl/init_patch.c\<close>: boot modules are looked for on
  the memory stick first, and the first module started after the system is up starts the plugins that a text
  file lists. Kernel calls are the fields of \<open>init_sys\<close>; of the configuration, whose layout is outside the
  repository, the fields this file reads are those of \<open>cef_config\<close>. \<open>char\<close> is signed on the PSP, so bytes from
  128 on count as less than a space.
\<close>

unbundle bit_operations_syntax

section \<open>Parameters\<close>

datatype keyconfig = KEYCONFIG_VSH | KEYCONFIG_GAME | KEYCONFIG_POPS | KEYCONFIG_OTHER

record cef_config =
  usesonypsposk :: bool
  skiplogo :: bool
  notusexmbplugins :: bool
  notusegameplugins :: bool
  notusepopsplugins :: bool

type_synonym module_args = "nat \<times> byte list option"

record 'w init_sys =
  init_io :: "'w sceio"
  sceKernelLoadModule661 :: "path \<Rightarrow> 'w \<Rightarrow> int \<times> 'w"
  sceKernelStartModule661 :: "int \<Rightarrow> module_args \<Rightarrow> 'w \<Rightarrow> int \<times> 'w"
  sceKernelLoadModuleBufferBootInitBtcnf661 :: "int \<Rightarrow> 'w \<Rightarrow> int \<times> 'w"
  LoadModuleBufferAnchorInBtcnf :: "bool \<Rightarrow> 'w \<Rightarrow> int \<times> 'w"
  sceKernelFindModuleByUID661 :: "int \<Rightarrow> 'w \<Rightarrow> path option"
  sceKernelFindModuleByName661 :: "path \<Rightarrow> 'w \<Rightarrow> bool"
  sceKernelInitKeyConfig :: "'w \<Rightarrow> keyconfig"
  sceKernelDelayThread :: "nat \<Rightarrow> 'w \<Rightarrow> 'w"
  sceKernelCreateFpl :: "'w \<Rightarrow> int \<times> 'w"
  sceKernelAllocateFpl :: "int \<Rightarrow> 'w \<Rightarrow> byte list option \<times> 'w"
  sceKernelFreeFpl :: "int \<Rightarrow> 'w \<Rightarrow> 'w"
  sceKernelDeleteFpl :: "int \<Rightarrow> 'w \<Rightarrow> 'w"

section \<open>Boot modules\<close>

record boot_module =
  info_name :: path
  info_size :: int
  info_attr :: u32

text \<open>\<open>sprintf\<close> into 64 bytes.\<close>

definition stick_path :: "path \<Rightarrow> path option" where
  "stick_path name =
     (let p = ''ms0:/__ADRENALINE__/flash0'' @ name in if length p < 64 then Some p else None)"

definition sceKernelLoadModuleBufferBootInitBtcnfPatched ::
  "'w init_sys \<Rightarrow> cef_config \<Rightarrow> boot_module \<Rightarrow> 'w \<Rightarrow> (int \<times> boot_module \<times> 'w) option"
where
  "sceKernelLoadModuleBufferBootInitBtcnfPatched sys cfg info w = do {
     let info = (if usesonypsposk cfg \<and> info_name info = ''/kd/kermit_utility.prx''
                 then info\<lparr>info_name := ''/kd/utility.prx''\<rparr> else info);
     p \<leftarrow> stick_path (info_name info);
     let (m, w) = sceKernelLoadModule661 sys p w;
     if 0 \<le> m then Some (m, info, w)
     else let (m, w) = sceKernelLoadModuleBufferBootInitBtcnf661 sys (info_size info) w in Some (m, info, w) }"

definition LoadModuleBufferAnchorInBtcnfPatched :: "'w init_sys \<Rightarrow> boot_module \<Rightarrow> 'w \<Rightarrow> (int \<times> 'w) option" where
  "LoadModuleBufferAnchorInBtcnfPatched sys info w = do {
     p \<leftarrow> stick_path (info_name info);
     let (m, w) = sceKernelLoadModule661 sys p w;
     if 0 \<le> m then Some (m, w)
     else Some (LoadModuleBufferAnchorInBtcnf sys (drop_bit 8 (info_attr info) AND 1 = (1 :: u32)) w) }"

text \<open>
  The homebrew loader: LEDA registers a handler, and \<open>sceKernelLoadModuleMs2\<close> remembers the API type for the call
  the handler makes.
\<close>

definition sceKernelLoadModuleMs2Init ::
  "(path \<Rightarrow> nat \<Rightarrow> 'w \<Rightarrow> int \<times> 'w) \<Rightarrow> int \<Rightarrow> path \<Rightarrow> nat \<Rightarrow> int \<times> 'w \<Rightarrow> int \<times> int \<times> 'w"
where
  "sceKernelLoadModuleMs2Init handler apitype p flags s = (apitype, handler p flags (snd s))"

definition sceKernelLoadModuleMs2Leda ::
  "(int \<Rightarrow> path \<Rightarrow> nat \<Rightarrow> 'w \<Rightarrow> int \<times> 'w) \<Rightarrow> path \<Rightarrow> nat \<Rightarrow> int \<times> 'w \<Rightarrow> int \<times> 'w"
where
  "sceKernelLoadModuleMs2Leda load p flags s = load (fst s) p flags (snd s)"

section \<open>The plugin list\<close>

definition blank :: "byte \<Rightarrow> bool" where
  "blank c \<longleftrightarrow> c = CHR '' '' \<or> c = CHR 0x09"

definition signed_char :: "byte \<Rightarrow> int" where
  "signed_char c = (if of_char c < (128 :: int) then of_char c else of_char c - 256)"

definition line_break :: "byte \<Rightarrow> bool" where
  "line_break c \<longleftrightarrow> signed_char c < 0x20 \<and> c \<noteq> CHR 0x09"

fun trim_loop :: "nat \<Rightarrow> byte list \<Rightarrow> byte list" where
  "trim_loop 0 s = s"
| "trim_loop (Suc i) s = (if blank (s ! i) then trim_loop i (s[i := NUL]) else s)"

definition trim :: "byte list \<Rightarrow> byte list option" where
  "trim s = do { n \<leftarrow> strlen s; Some (trim_loop n s) }"

text \<open>
  One pass of the reading loop: \<open>i\<close> bytes of the buffer are behind, \<open>n\<close> of them are in the array. A write past
  the array and a read past the buffer are undefined.
\<close>

fun get_line :: "byte list \<Rightarrow> int \<Rightarrow> nat \<Rightarrow> nat \<Rightarrow> byte list \<Rightarrow> (nat \<times> nat \<times> byte list) option" where
  "get_line buf len i n str =
     (if len \<le> int i then Some (i, n, str)
      else case buf of
        [] \<Rightarrow> None
      | ch # rest \<Rightarrow>
          if line_break ch
          then if n \<noteq> 0 then Some (i + 1, n, str) else get_line rest len (i + 1) n str
          else if n < length str then get_line rest len (i + 1) (n + 1) (str[n := ch]) else None)"

declare get_line.simps [simp del]

fun skip_high :: "byte list \<Rightarrow> byte list" where
  "skip_high [] = []"
| "skip_high (c # q) = (if signed_char c < 0 then skip_high q else c # q)"

text \<open>The array is terminated when the search for a blank starts, so the strings in it are its contents.\<close>

definition GetPlugin :: "byte list \<Rightarrow> int \<Rightarrow> byte list \<Rightarrow> (nat \<times> byte list \<times> bool) option" where
  "GetPlugin buf len str = do {
     (i, n, s) \<leftarrow> get_line buf len 0 0 str;
     s \<leftarrow> trim s;
     if 0 < i \<and> list_ex blank (cstr s)
     then let p = length (takeWhile (\<lambda>c. \<not> blank c) (cstr s));
              q = skip_high (drop (p + 1) (cstr s))
          in Some (i, s[p := NUL], q = ''1'')
     else Some (i, s, False) }"

definition LoadStartModule :: "'w init_sys \<Rightarrow> path \<Rightarrow> 'w \<Rightarrow> int \<times> 'w" where
  "LoadStartModule sys file w =
     (let (m, w) = sceKernelLoadModule661 sys file w
      in if m < 0 then (m, w) else sceKernelStartModule661 sys m (length file + 1, Some (lit file)) w)"

definition plugin_array :: "byte list" where
  "plugin_array = replicate 64 NUL"

lemma get_line_empty: "len \<le> 0 \<Longrightarrow> get_line buf len 0 0 str = Some (0, 0, str)"
  by (subst get_line.simps) simp

lemma GetPlugin_progress: "GetPlugin buf len str = Some (i, s, a) \<Longrightarrow> 0 < i \<Longrightarrow> 0 < len"
  by (rule ccontr) (auto simp: GetPlugin_def get_line_empty Option.bind_eq_Some_conv Let_def split: if_splits)

function plugins_loop :: "'w init_sys \<Rightarrow> byte list \<Rightarrow> int \<Rightarrow> 'w \<Rightarrow> 'w option" where
  "plugins_loop sys buf len w =
     (case GetPlugin buf len plugin_array of
        None \<Rightarrow> None
      | Some (res, plugin, activated) \<Rightarrow>
          if 0 < res
          then plugins_loop sys (drop res buf) (len - int res)
            (if activated then snd (LoadStartModule sys (cstr plugin) w) else w)
          else Some w)"
  by pat_completeness auto
termination
  by (relation "measure (\<lambda>(sys, buf, len, w). nat len)") (auto dest: GetPlugin_progress)

declare plugins_loop.simps [simp del]

section \<open>Starting modules\<close>

definition vshmain_args :: "module_args \<Rightarrow> byte list option" where
  "vshmain_args args = do {
     buf \<leftarrow> (case args of
        (argsize, Some argp) \<Rightarrow>
          if argsize \<le> 0x400 \<and> argsize \<le> length argp then Some (overlay (replicate 0x400 NUL) (take argsize argp)) else None
      | (argsize, None) \<Rightarrow> Some (replicate 0x400 NUL));
     Some (put32 64 1 (put32 4 0x20 (put32 0 0x400 buf))) }"

definition plugin_file :: "'w init_sys \<Rightarrow> cef_config \<Rightarrow> int \<Rightarrow> 'w \<Rightarrow> path option" where
  "plugin_file sys cfg booter_plugins w =
     (let typ = sceKernelInitKeyConfig sys w
      in if typ = KEYCONFIG_VSH \<and> \<not> sceKernelFindModuleByName661 sys ''scePspNpDrm_Driver'' w then None
         else let file =
           (if typ = KEYCONFIG_VSH \<and> \<not> notusexmbplugins cfg then Some ''ms0:/seplugins/vsh.txt''
            else if typ = KEYCONFIG_GAME \<and> \<not> notusegameplugins cfg then Some ''ms0:/seplugins/game.txt''
            else if typ = KEYCONFIG_POPS \<and> \<not> notusepopsplugins cfg then Some ''ms0:/seplugins/pops.txt''
            else None)
         in if typ \<noteq> KEYCONFIG_VSH \<and> booter_plugins = 2 then None else file)"

fun open_retry :: "'w init_sys \<Rightarrow> path \<Rightarrow> nat \<Rightarrow> int \<times> 'w \<Rightarrow> int \<times> 'w" where
  "open_retry sys file 0 s = s"
| "open_retry sys file (Suc k) s =
     (let (fd, w) = sceIoOpen (init_io sys) file {O_RDONLY} 0 (snd s)
      in if 0 \<le> fd then (fd, w) else open_retry sys file k (fd, sceKernelDelayThread sys 20000 w))"

text \<open>The pool that stays to be freed after the module is started, and the world.\<close>

definition run_plugins :: "'w init_sys \<Rightarrow> path \<Rightarrow> 'w \<Rightarrow> (int option \<times> 'w) option" where
  "run_plugins sys file w =
     (let (fd, w) = open_retry sys file 0x10 (-1, w)
      in if fd < 0 then Some (None, w)
         else let (fpl, w) = sceKernelCreateFpl sys w
         in if fpl < 0 then Some (None, w)
         else let (plug_buf, w) = sceKernelAllocateFpl sys fpl w
         in do {
           buf \<leftarrow> plug_buf;
           let (len, data, w) = sceIoRead (init_io sys) fd 1024 w;
           buf \<leftarrow> fill buf data;
           w \<leftarrow> plugins_loop sys buf len w;
           Some (Some fpl, snd (sceIoClose (init_io sys) fd w)) })"

definition wait_module :: "'w init_sys \<Rightarrow> 'w \<Rightarrow> path" where
  "wait_module sys w =
     (if sceKernelFindModuleByName661 sys ''sceNp9660_driver'' w then ''sceMeCodecWrapper'' else ''sceMediaSync'')"

definition start_and_free ::
  "'w init_sys \<Rightarrow> int \<Rightarrow> module_args \<Rightarrow> bool \<Rightarrow> int option \<Rightarrow> 'w \<Rightarrow> (int \<times> bool \<times> 'w) option"
where
  "start_and_free sys modid args plugindone fpl w =
     (let (res, w) = sceKernelStartModule661 sys modid args w
      in case fpl of
           None \<Rightarrow> Some (res, plugindone, w)
         | Some f \<Rightarrow> Some (res, plugindone, sceKernelDeleteFpl sys f (sceKernelFreeFpl sys f w)))"

definition sceKernelStartModulePatched ::
  "'w init_sys \<Rightarrow> cef_config \<Rightarrow> int \<Rightarrow> int \<Rightarrow> module_args \<Rightarrow> bool \<times> 'w \<Rightarrow> (int \<times> bool \<times> 'w) option"
where
  "sceKernelStartModulePatched sys cfg booter_plugins modid args s =
     (let (plugindone, w) = s
      in case sceKernelFindModuleByUID661 sys modid w of
           None \<Rightarrow> start_and_free sys modid args plugindone None w
         | Some modname \<Rightarrow>
             if modname = ''vsh_module''
             then if skiplogo cfg
                  then do {
                    buf \<leftarrow> vshmain_args args;
                    start_and_free sys modid (0x400, Some buf) plugindone None w }
                  else start_and_free sys modid args plugindone None w
             else if \<not> plugindone \<and> sceKernelFindModuleByName661 sys (wait_module sys w) w
             then (case plugin_file sys cfg booter_plugins w of
                     None \<Rightarrow> start_and_free sys modid args True None w
                   | Some file \<Rightarrow> do {
                       (fpl, w) \<leftarrow> run_plugins sys file w;
                       start_and_free sys modid args True fpl w })
             else start_and_free sys modid args plugindone None w)"

section \<open>Lines\<close>

definition breaks :: "byte set" where
  "breaks = {c. line_break c}"

lemma get_line_collect:
  "0 < n \<Longrightarrow> n \<le> length str \<Longrightarrow> int i \<le> len \<Longrightarrow> nat len - i \<le> length buf \<Longrightarrow>
     get_line buf len i n str =
       (let xs = take (nat len - i) buf; t = takeWhile (\<lambda>c. \<not> line_break c) xs
        in if n + length t \<le> length str
           then Some (i + length t + (if t = xs then 0 else 1), n + length t, overlay_at n str t) else None)"
proof (induction buf arbitrary: i n str)
  case Nil
  then show ?case
    by (subst get_line.simps) simp
next
  case (Cons c buf)
  show ?case
  proof (cases "len \<le> int i")
    case True
    then show ?thesis
      using Cons.prems by (subst get_line.simps) simp
  next
    case False
    define k where "k = nat len - Suc i"
    have k: "nat len - i = Suc k" "nat len - (i + 1) = k"
      using False by (simp_all add: k_def)
    show ?thesis
    proof (cases "line_break c")
      case True
      then show ?thesis
        using False Cons.prems(1,2) by (subst get_line.simps) (simp add: k)
    next
      case nb: False
      have pr: "int (i + 1) \<le> len" "nat len - (i + 1) \<le> length buf"
        using False Cons.prems(4) by simp_all
      show ?thesis
      proof (cases "n < length str")
        case True
        let ?t = "takeWhile (\<lambda>c. \<not> line_break c) (take k buf)"
        have u: "str[n := c] = overlay_at n str [c]"
          using True by (simp add: overlay_at_def upd_conv_take_nth_drop)
        have o: "overlay_at (n + 1) (str[n := c]) ?t = overlay_at n str (c # ?t)"
          using overlay_at_append [of n str "[c]" ?t] True unfolding u by simp
        have "get_line buf len (i + 1) (n + 1) (str[n := c]) =
            (if n + 1 + length ?t \<le> length str
             then Some (i + 1 + length ?t + (if ?t = take k buf then 0 else 1), n + 1 + length ?t, overlay_at n str (c # ?t))
             else None)"
          using Cons.IH [of "n + 1" "str[n := c]" "i + 1"] pr True unfolding k(2) o [symmetric] by (simp add: Let_def)
        then show ?thesis
          using False nb True by (subst get_line.simps) (simp add: k Let_def)
      next
        case no: False
        then show ?thesis
          using False nb by (subst get_line.simps) (simp add: k Let_def)
      qed
    qed
  qed
qed

lemma get_line_first:
  "int i \<le> len \<Longrightarrow> nat len - i \<le> length buf \<Longrightarrow> 0 < length str \<Longrightarrow>
     get_line buf len i 0 str =
       (let xs = take (nat len - i) buf; ys = dropWhile line_break xs; t = takeWhile (\<lambda>c. \<not> line_break c) ys
        in if length t \<le> length str
           then Some (i + (length xs - length ys) + length t + (if t = ys then 0 else 1), length t, overlay_at 0 str t)
           else None)"
proof (induction buf arbitrary: i)
  case Nil
  then show ?case
    by (subst get_line.simps) simp
next
  case (Cons c buf)
  show ?case
  proof (cases "len \<le> int i")
    case True
    then show ?thesis
      using Cons.prems by (subst get_line.simps) simp
  next
    case False
    define k where "k = nat len - Suc i"
    have k: "nat len - i = Suc k" "nat len - (i + 1) = k"
      using False by (simp_all add: k_def)
    have pr: "int (i + 1) \<le> len" "nat len - (i + 1) \<le> length buf"
      using False Cons.prems(2) by simp_all
    have le: "length (dropWhile line_break (take k buf)) \<le> length (take k buf)"
      by (rule length_dropWhile_le)
    show ?thesis
    proof (cases "line_break c")
      case True
      let ?ys = "dropWhile line_break (take k buf)"
      have e: "length (take (Suc k) (c # buf)) - length ?ys = Suc (length (take k buf) - length ?ys)"
        using le by (simp add: Suc_diff_le)
      have "get_line (c # buf) len i 0 str = get_line buf len (i + 1) 0 str"
        using False True by (subst get_line.simps) simp
      moreover have "dropWhile line_break (take (Suc k) (c # buf)) = ?ys"
        using True by simp
      ultimately show ?thesis
        using Cons.IH [OF pr Cons.prems(3)] unfolding k Let_def by (simp only: e) simp
    next
      case nb: False
      have u: "str[0 := c] = overlay_at 0 str [c]"
        using Cons.prems(3) by (cases str) (simp_all add: overlay_at_def)
      let ?t = "takeWhile (\<lambda>c. \<not> line_break c) (take k buf)"
      have o: "overlay_at 1 (str[0 := c]) ?t = overlay_at 0 str (c # ?t)"
        using overlay_at_append [of 0 str "[c]" ?t] unfolding u by simp
      have "get_line buf len (i + 1) 1 (str[0 := c]) =
          (if 1 + length ?t \<le> length str
           then Some (i + 1 + length ?t + (if ?t = take k buf then 0 else 1), 1 + length ?t, overlay_at 0 str (c # ?t)) else None)"
        using get_line_collect [of 1 "str[0 := c]" "i + 1" len buf] pr Cons.prems(3) unfolding k(2) o [symmetric]
        by (simp add: Let_def Suc_le_eq)
      then show ?thesis
        using False nb Cons.prems(3) by (subst get_line.simps) (simp add: k Let_def)
    qed
  qed
qed


section \<open>Plugins\<close>

definition strip_blanks :: "byte list \<Rightarrow> byte list" where
  "strip_blanks t = rev (dropWhile blank (rev t))"

text \<open>What a line means: the path up to the first blank, and whether exactly a 1 follows it.\<close>

definition plugin_entry :: "byte list \<Rightarrow> path \<times> bool" where
  "plugin_entry t =
     (let s = strip_blanks t; p = takeWhile (\<lambda>c. \<not> blank c) s in (p, drop (length p + 1) s = ''1''))"

definition load_entry :: "'w init_sys \<Rightarrow> path \<times> bool \<Rightarrow> 'w \<Rightarrow> 'w" where
  "load_entry sys e w = (if snd e then snd (LoadStartModule sys (fst e) w) else w)"

lemma trim_loop_strip:
  "trim_loop (length t) (t @ zs) = strip_blanks t @ replicate (length t - length (strip_blanks t)) NUL @ zs"
proof (induction t arbitrary: zs rule: rev_induct)
  case (snoc c t)
  have "length (strip_blanks t) \<le> length t"
    using length_dropWhile_le [of blank "rev t"] by (simp add: strip_blanks_def)
  then show ?case
    using snoc.IH [of "NUL # zs"] by (simp add: strip_blanks_def nth_append Suc_diff_le replicate_append_same
        replicate_app_Cons_same)
qed (simp add: strip_blanks_def)

lemma strip_blanks_prefix: "\<exists>bs. t = strip_blanks t @ bs"
  using takeWhile_dropWhile_id [of blank "rev t"] unfolding strip_blanks_def by (metis rev_append rev_rev_ident)

lemma line_break_facts: "line_break NUL" "signed_char c < 0 \<Longrightarrow> line_break c"
  by (auto simp: line_break_def signed_char_def)

lemma trim_pad:
  assumes "plain t" "length t < n"
  shows "trim (pad_to n t) = Some (pad_to n (strip_blanks t))"
proof -
  have "length (strip_blanks t) \<le> length t"
    using length_dropWhile_le [of blank "rev t"] by (simp add: strip_blanks_def)
  then have "replicate (length t - length (strip_blanks t)) NUL @ replicate (n - length t) NUL
      = replicate (n - length (strip_blanks t)) NUL"
    using assms(2) by (simp flip: replicate_add)
  then show ?thesis
    using assms trim_loop_strip [of t "replicate (n - length t) NUL"]
    by (simp add: trim_def strlen_eq cstr_pad_to terminated_pad_to) (simp add: pad_to_def)
qed

lemma skip_high_id: "\<forall>c \<in> set q. \<not> line_break c \<Longrightarrow> skip_high q = q"
  using line_break_facts(2) by (cases q) auto

lemma GetPlugin_line:
  assumes "\<forall>c \<in> set t. \<not> line_break c" and "length t < 64" and "t \<noteq> []"
    and "get_line buf len 0 0 plugin_array = Some (i, length t, overlay_at 0 plugin_array t)" and "0 < i"
  shows "\<exists>s. GetPlugin buf len plugin_array = Some (i, s, snd (plugin_entry t)) \<and> terminated s \<and> cstr s = fst (plugin_entry t)"
proof -
  have pl: "plain t"
    using assms(1) line_break_facts(1) by (auto simp: plain_def)
  have o: "overlay_at 0 plugin_array t = pad_to 64 t"
    using assms(2) by (simp add: overlay_at_def plugin_array_def pad_to_def)
  obtain bs where bs: "t = strip_blanks t @ bs"
    using strip_blanks_prefix by blast
  define u where "u = strip_blanks t"
  have u: "plain u" "length u < 64" "\<forall>c \<in> set u. \<not> line_break c"
    using pl assms(1,2) bs unfolding u_def [symmetric] by (auto simp: plain_def)
  have tr: "trim (overlay_at 0 plugin_array t) = Some (pad_to 64 u)"
    using trim_pad [OF pl assms(2)] by (simp add: o u_def)
  have cu: "cstr (pad_to 64 u) = u"
    using u by (simp add: cstr_pad_to)
  show ?thesis
  proof (cases "list_ex blank u")
    case True
    let ?p = "takeWhile (\<lambda>c. \<not> blank c) u"
    have "dropWhile (\<lambda>c. \<not> blank c) u \<noteq> []"
      using True by (auto simp: list_ex_iff)
    then obtain b rest where "dropWhile (\<lambda>c. \<not> blank c) u = b # rest"
      by (cases "dropWhile (\<lambda>c. \<not> blank c) u") simp_all
    then have split: "u = ?p @ b # rest"
      by (metis takeWhile_dropWhile_id)
    have q: "skip_high (drop (length ?p + 1) u) = drop (length ?p + 1) u"
      using u(3) by (intro skip_high_id) (auto dest: in_set_dropD)
    have "pad_to 64 u = ?p @ b # rest @ replicate (64 - length u) NUL"
      using split unfolding pad_to_def by (metis append.assoc append_Cons)
    then have "(pad_to 64 u)[length ?p := NUL] = ?p @ NUL # rest @ replicate (64 - length u) NUL"
      by (simp only: list_update_length)
    moreover have "plain ?p"
      using u(1) by (auto simp: plain_def dest: set_takeWhileD)
    ultimately have c: "cstr ((pad_to 64 u)[length ?p := NUL]) = ?p" "terminated ((pad_to 64 u)[length ?p := NUL])"
      by (simp_all add: cstr_append_NUL)
    show ?thesis
      using assms(4,5) tr cu True q c by (simp add: GetPlugin_def plugin_entry_def u_def [symmetric] Let_def)
  next
    case False
    have e: "plugin_entry t = (u, False)"
    proof -
      have "takeWhile (\<lambda>c. \<not> blank c) u = u"
        using False by (simp add: list_ex_iff takeWhile_eq_all_conv)
      then show ?thesis
        unfolding plugin_entry_def u_def [symmetric] by (simp only: Let_def) simp
    qed
    show ?thesis
      using assms(4,5) tr cu False u(2) by (simp add: GetPlugin_def e terminated_pad_to)
  qed
qed

lemma GetPlugin_long:
  assumes "\<forall>c \<in> set t. \<not> line_break c" and "64 \<le> length t"
    and "get_line buf len 0 0 plugin_array = (if length t \<le> 64 then Some (i, length t, overlay_at 0 plugin_array t) else None)"
  shows "GetPlugin buf len plugin_array = None"
proof (cases "length t = 64")
  case True
  have "overlay_at 0 plugin_array t = t"
    using True by (simp add: overlay_at_def plugin_array_def)
  moreover have "\<not> terminated t"
    using assms(1) line_break_facts(1) by (auto simp: terminated_def)
  ultimately show ?thesis
    using assms(3) True by (simp add: GetPlugin_def trim_def strlen_eq)
next
  case False
  then show ?thesis
    using assms(2,3) by (simp add: GetPlugin_def)
qed

lemma plugins_loop_correct:
  "0 \<le> len \<Longrightarrow> nat len \<le> length buf \<Longrightarrow>
     plugins_loop sys buf len w =
       (if \<forall>t \<in> set (tokens breaks (take (nat len) buf)). length t < 64
        then Some (fold (load_entry sys) (map plugin_entry (tokens breaks (take (nat len) buf))) w) else None)"
proof (induction "nat len" arbitrary: buf len w rule: less_induct)
  case less
  let ?xs = "take (nat len) buf"
  define ys where "ys = dropWhile line_break ?xs"
  define t where "t = takeWhile (\<lambda>c. \<not> line_break c) ys"
  define i where "i = (length ?xs - length ys) + length t + (if t = ys then 0 else 1)"
  have arr: "0 < length plugin_array" "length plugin_array = 64"
    by (simp_all add: plugin_array_def)
  have line: "get_line buf len 0 0 plugin_array = (if length t \<le> 64 then Some (i, length t, overlay_at 0 plugin_array t) else None)"
    using get_line_first [of 0 len buf plugin_array] less.prems arr
    by (simp add: Let_def i_def t_def ys_def)
  have lx: "length ?xs = nat len"
    using less.prems by simp
  have ly: "length ys \<le> nat len"
    using length_dropWhile_le [of line_break ?xs] lx by (simp add: ys_def)
  have tb: "\<forall>c \<in> set t. \<not> line_break c"
    by (auto simp: t_def dest: set_takeWhileD)
  have br: "(\<lambda>c. c \<in> breaks) = line_break" "(\<lambda>c. c \<notin> breaks) = (\<lambda>c. \<not> line_break c)"
    by (simp_all add: breaks_def fun_eq_iff)
  show ?case
  proof (cases ys)
    case Nil
    then have e: "t = []" "i = nat len"
      using lx by (simp_all add: t_def i_def)
    have tok: "tokens breaks ?xs = []"
      using Nil tokens_Nil [of breaks ?xs] unfolding br ys_def by simp
    have g: "GetPlugin buf len plugin_array = Some (nat len, plugin_array, False)"
      using line e by (simp add: GetPlugin_def trim_def strlen_eq plugin_array_def)
    show ?thesis
    proof (cases "nat len = 0")
      case True
      then show ?thesis
        using g tok by (subst plugins_loop.simps) simp
    next
      case False
      have "plugins_loop sys (drop (nat len) buf) (len - int (nat len)) w = Some w"
        using less.hyps [of "len - int (nat len)" "drop (nat len) buf" w] False less.prems
        by (simp add: tokens_Nil)
      then show ?thesis
        using g tok False by (subst plugins_loop.simps) simp
    qed
  next
    case (Cons c cs)
    have nc: "\<not> line_break c"
      using Cons by (metis dropWhile_eq_Cons_conv ys_def)
    then have t0: "t = c # takeWhile (\<lambda>c. \<not> line_break c) cs"
      by (simp add: t_def Cons)
    let ?r = "dropWhile (\<lambda>c. \<not> line_break c) cs"
    have tok: "tokens breaks ?xs = t # tokens breaks ?r"
      using tokens_Cons [of breaks ?xs c cs] Cons unfolding br ys_def t0 by simp
    have yt: "ys = t @ ?r"
      unfolding t0 Cons by simp
    have pos: "0 < i"
      by (simp add: i_def t0)
    let ?A = "takeWhile line_break ?xs"
    have xs: "?xs = (?A @ t) @ ?r"
      using takeWhile_dropWhile_id [of line_break ?xs] unfolding ys_def [symmetric] yt by simp
    have la: "length ?xs - length ys = length ?A"
      using arg_cong [OF xs, of length] yt by simp
    have e: "(if t = ys then 0 else 1) = (if ?r = [] then 0 else (1 :: nat))"
      using yt by auto
    have i: "i = length (?A @ t) + (if ?r = [] then 0 else 1)"
      unfolding i_def la e by simp
    have di: "drop i ?xs = tl ?r"
    proof -
      have d: "drop (length us + k) (us @ vs) = drop k vs" for us vs :: "byte list" and k
        by simp
      have "drop i ?xs = drop i ((?A @ t) @ ?r)"
        by (rule arg_cong [OF xs])
      also have "\<dots> = drop (if ?r = [] then 0 else 1) ?r"
        unfolding i by (rule d)
      also have "\<dots> = tl ?r"
        using drop_Suc [of 0 ?r] by (simp del: dropWhile_eq_Nil_conv)
      finally show ?thesis .
    qed
    have tr: "tokens breaks (tl ?r) = tokens breaks ?r"
    proof (cases ?r)
      case (Cons d ds)
      then have "d \<in> breaks"
        unfolding breaks_def by (metis dropWhile_eq_Cons_conv mem_Collect_eq)
      then show ?thesis
        unfolding Cons by (simp add: tokens_skip)
    next
      case Nil
      then show ?thesis
        unfolding Nil by simp
    qed
    have ile: "i \<le> nat len"
      using arg_cong [OF xs, of length] unfolding i lx by (cases ?r) simp_all
    show ?thesis
    proof (cases "length t < 64")
      case True
      obtain s where s: "GetPlugin buf len plugin_array = Some (i, s, snd (plugin_entry t))" "cstr s = fst (plugin_entry t)"
        using GetPlugin_line [OF tb True _ _ pos, of buf len] line True t0 by auto
      have n: "nat (len - int i) = nat len - i"
        using less.prems(1) by linarith
      have sub: "take (nat (len - int i)) (drop i buf) = tl ?r"
        unfolding di [symmetric] by (simp add: drop_take n)
      have "plugins_loop sys (drop i buf) (len - int i) w' =
          (if \<forall>t \<in> set (tokens breaks ?r). length t < 64
           then Some (fold (load_entry sys) (map plugin_entry (tokens breaks ?r)) w') else None)" for w'
        using less.hyps [of "len - int i" "drop i buf" w'] pos ile less.prems unfolding sub tr by simp
      then show ?thesis
        using s pos True tok by (subst plugins_loop.simps) (simp add: load_entry_def)
    next
      case False
      then show ?thesis
        using GetPlugin_long [OF tb _ line] tok by (subst plugins_loop.simps) simp
    qed
  qed
qed

section \<open>Properties\<close>

text \<open>
  C38: the plugin list. Reading the file line by line, the loop starts, in order, exactly the modules whose line has
  a 1 directly after the first blank, and it returns; a line of 64 bytes or more overruns the array. Lines end at
  every control character but the tab and at every byte from 128 on, and two blanks before the 1 disable a plugin.
\<close>

theorem plugin_list_started:
  "plugins_loop sys (data @ junk) (int (length data)) w =
     (if list_all (\<lambda>t. length t < 64) (tokens breaks data)
      then Some (fold (load_entry sys) (map plugin_entry (tokens breaks data)) w) else None)
   \<and> map plugin_entry (tokens breaks (''ms0:/a.prx 1'' @ CHR 0x0D # CHR 0x0A # ''ms0:/b.prx  1''))
     = [(''ms0:/a.prx'', True), (''ms0:/b.prx'', False)]"
proof
  show "plugins_loop sys (data @ junk) (int (length data)) w =
     (if list_all (\<lambda>t. length t < 64) (tokens breaks data)
      then Some (fold (load_entry sys) (map plugin_entry (tokens breaks data)) w) else None)"
  proof -
    have d: "take (nat (int (length data))) (data @ junk) = data"
      by simp
    show ?thesis
      using plugins_loop_correct [of "int (length data)" "data @ junk" sys w] unfolding d list_all_iff by simp
  qed
  have "tokens breaks (''ms0:/a.prx 1'' @ CHR 0x0D # CHR 0x0A # ''ms0:/b.prx  1'') = [''ms0:/a.prx 1'', ''ms0:/b.prx  1'']"
    by (subst tokens.simps, simp add: breaks_def line_break_def signed_char_def)+
  then show "map plugin_entry (tokens breaks (''ms0:/a.prx 1'' @ CHR 0x0D # CHR 0x0A # ''ms0:/b.prx  1''))
     = [(''ms0:/a.prx'', True), (''ms0:/b.prx'', False)]"
    by (simp add: plugin_entry_def strip_blanks_def blank_def)
qed


end
