(* ===== verification/SysCtrl.thy ===== *)
theory SysCtrl
  imports SceIo
begin

text \<open>
  Services of SystemControl that keep no state of their own or a little of it: the configuration files
  (\<open>overlay/cef/systemctrl/conf.c\<close>), the recognition of decrypted DRM files (\<open>nodrm.c\<close>), the kernel bridge
  (\<open>kubridge.c\<close>) and the suspension of threads (\<open>threadctrl.c\<close>). They run with the K1 register cleared and
  restore it; the state they pass is the register and the world. The functions they replace and the kernel's
  calls are parameters.
\<close>

unbundle bit_operations_syntax

section \<open>The K1 register\<close>

type_synonym 'w kernel = "u32 \<times> 'w"

definition set_k1 :: "u32 \<Rightarrow> 'w kernel \<Rightarrow> u32 \<times> 'w kernel" where
  "set_k1 k s = (fst s, (k, snd s))"

section \<open>Configuration files\<close>

definition config_path :: path where
  "config_path = ''flash1:/config.adrenaline''"

definition booter_config_path :: path where
  "booter_config_path = ''ms0:/__APPID__/data/boot.bin''"

text \<open>Both readers clear the object first; an object shorter than the size given is undefined.\<close>

definition get_config_file ::
  "'w sceio \<Rightarrow> path \<Rightarrow> byte list \<Rightarrow> nat \<Rightarrow> 'w kernel \<Rightarrow> (int \<times> byte list \<times> 'w kernel) option"
where
  "get_config_file io p cfg n s =
     (let (k1, (_, w)) = set_k1 0 s
      in if length cfg < n then None
         else let cfg = overlay cfg (replicate n NUL);
                  (fd, w) = sceIoOpen io p {O_RDONLY} 0 w
         in if fd < 0 then Some (-1, cfg, (k1, w))
            else let (res, data, w) = sceIoRead io fd n w; (_, w) = sceIoClose io fd w
            in do { cfg \<leftarrow> fill cfg data; Some (res, cfg, (k1, w)) })"

definition sctrlSEGetConfigEx ::
  "'w sceio \<Rightarrow> byte list \<Rightarrow> nat \<Rightarrow> 'w kernel \<Rightarrow> (int \<times> byte list \<times> 'w kernel) option"
where
  "sctrlSEGetConfigEx io cfg n s = get_config_file io config_path cfg n s"

definition sctrlSEGetBooterConfigEx ::
  "'w sceio \<Rightarrow> byte list \<Rightarrow> nat \<Rightarrow> 'w kernel \<Rightarrow> (int \<times> byte list \<times> 'w kernel) option"
where
  "sctrlSEGetBooterConfigEx io cfg n s = get_config_file io booter_config_path cfg n s"

text \<open>The offset of the two words of the magic in the structure is a parameter, as its layout is outside the repository.\<close>

definition set_magic :: "nat \<Rightarrow> u32 \<Rightarrow> u32 \<Rightarrow> byte list \<Rightarrow> byte list" where
  "set_magic off m1 m2 cfg = put32 (off + 4) m2 (put32 off m1 cfg)"

definition sctrlSESetConfigEx ::
  "'w sceio \<Rightarrow> (byte list \<Rightarrow> byte list) \<Rightarrow> byte list \<Rightarrow> nat \<Rightarrow> 'w kernel \<Rightarrow> (int \<times> byte list \<times> 'w kernel) option"
where
  "sctrlSESetConfigEx io magic cfg n s =
     (let (k1, (_, w)) = set_k1 0 s; (fd, w) = sceIoOpen io config_path {O_WRONLY, O_CREAT, O_TRUNC} 511 w
      in if fd < 0 then Some (-1, cfg, (k1, w))
         else let cfg = magic cfg
         in do {
           data \<leftarrow> bytes_arg cfg n;
           let (res, w) = sceIoWrite io fd data w;
           let (_, w) = sceIoClose io fd w;
           Some (if res < int n then -1 else 0, cfg, (k1, w)) })"

section \<open>Plain DRM files\<close>

record 'w drm_sys =
  drm_io :: "'w sceio"
  do_open :: "path \<Rightarrow> u32 \<Rightarrow> 'w \<Rightarrow> int \<times> 'w"
  do_ioctl :: "int \<Rightarrow> u32 \<Rightarrow> 'w \<Rightarrow> int \<times> 'w"
  sceKernelLoadModuleNpDrm :: "path \<Rightarrow> 'w \<Rightarrow> int \<times> 'w"
  sceNpDrmRenameCheck :: "path \<Rightarrow> 'w \<Rightarrow> int \<times> 'w"
  sceNpDrmEdataSetupKey :: "int \<Rightarrow> 'w \<Rightarrow> int \<times> 'w"
  sceNpDrmEdataGetDataSize :: "int \<Rightarrow> 'w \<Rightarrow> int \<times> 'w"
  drm_LoadModule661 :: "path \<Rightarrow> 'w \<Rightarrow> int \<times> 'w"

definition sceIoLseek32 :: "'w sceio \<Rightarrow> int \<Rightarrow> int \<Rightarrow> seek_whence \<Rightarrow> 'w \<Rightarrow> int \<times> 'w" where
  "sceIoLseek32 io fd off whence w = (let (r, w) = sceIoLseek io fd off whence w in (to_int32 r, w))"

definition encrypted_header :: "byte list \<Rightarrow> bool" where
  "encrypted_header buf \<longleftrightarrow> take 8 buf = NUL # ''PSPEDAT'' \<or> take 4 buf = NUL # ''PGD''"

definition IsPlainDrmFd :: "'w sceio \<Rightarrow> int \<Rightarrow> 'w kernel \<Rightarrow> (int \<times> 'w kernel) option" where
  "IsPlainDrmFd io fd s =
     (let (k1, (_, w)) = set_k1 0 s;
          (pos, w) = sceIoLseek32 io fd 0 SEEK_CUR w;
          (_, w) = sceIoLseek32 io fd 0 SEEK_SET w;
          (n, data, w) = sceIoRead io fd 8 w
      in if n = 8
         then if length data \<noteq> 8 then None
              else let (_, w) = sceIoLseek32 io fd pos SEEK_SET w
                   in Some (if encrypted_header data then 0 else 1, (k1, w))
         else if 8 < length data then None else Some (-1, (k1, w)))"

definition IsPlainDrmPath :: "'w sceio \<Rightarrow> path \<Rightarrow> 'w kernel \<Rightarrow> (bool \<times> 'w kernel) option" where
  "IsPlainDrmPath io p s =
     (let (k1, (k, w)) = set_k1 0 s; (fd, w) = sceIoOpen io p {O_RDONLY} 0 w
      in if fd < 0 then Some (False, (k1, w))
         else do {
           (res, (_, w)) \<leftarrow> IsPlainDrmFd io fd (k, w);
           let (_, w) = sceIoClose io fd w;
           Some (res \<noteq> 0, (k1, w)) })"

definition do_open_patched :: "'w drm_sys \<Rightarrow> path \<Rightarrow> u32 \<Rightarrow> 'w kernel \<Rightarrow> (int \<times> 'w kernel) option" where
  "do_open_patched sys file flags s =
     (if flags AND 0x40000000 \<noteq> 0
      then do {
        (plain, (k, w)) \<leftarrow> IsPlainDrmPath (drm_io sys) file s;
        let (r, w) = do_open sys file (if plain then flags AND NOT 0x40000000 else flags) w;
        Some (r, (k, w)) }
      else let (r, w) = do_open sys file flags (snd s) in Some (r, (fst s, w)))"

definition do_ioctl_patched :: "'w drm_sys \<Rightarrow> int \<Rightarrow> u32 \<Rightarrow> 'w kernel \<Rightarrow> (int \<times> 'w kernel) option" where
  "do_ioctl_patched sys fd cmd s =
     (let (res, w) = do_ioctl sys fd cmd (snd s)
      in if res < 0 \<and> (cmd = 0x04100001 \<or> cmd = 0x04100002)
         then do { (plain, s) \<leftarrow> IsPlainDrmFd (drm_io sys) fd (fst s, w); Some (if plain \<noteq> 0 then 0 else res, s) }
         else Some (res, (fst s, w)))"

definition sceKernelLoadModuleNpDrmPatched :: "'w drm_sys \<Rightarrow> path \<Rightarrow> 'w kernel \<Rightarrow> (int \<times> 'w kernel) option" where
  "sceKernelLoadModuleNpDrmPatched sys p s =
     (let (res, w) = sceKernelLoadModuleNpDrm sys p (snd s)
      in if res < 0
         then do {
           (plain, (k, w)) \<leftarrow> IsPlainDrmPath (drm_io sys) p (fst s, w);
           if plain then let (r, w) = drm_LoadModule661 sys p w in Some (r, (k, w)) else Some (res, (k, w)) }
         else Some (res, (fst s, w)))"

definition sceNpDrmRenameCheckPatched :: "'w drm_sys \<Rightarrow> path \<Rightarrow> 'w kernel \<Rightarrow> (int \<times> 'w kernel) option" where
  "sceNpDrmRenameCheckPatched sys p s =
     (let (res, w) = sceNpDrmRenameCheck sys p (snd s)
      in if res < 0
         then do { (plain, s) \<leftarrow> IsPlainDrmPath (drm_io sys) p (fst s, w); Some (if plain then 0 else res, s) }
         else Some (res, (fst s, w)))"

definition sceNpDrmEdataSetupKeyPatched :: "'w drm_sys \<Rightarrow> int \<Rightarrow> 'w kernel \<Rightarrow> (int \<times> 'w kernel) option" where
  "sceNpDrmEdataSetupKeyPatched sys fd s =
     (let (res, w) = sceNpDrmEdataSetupKey sys fd (snd s)
      in if res < 0
         then do { (plain, s) \<leftarrow> IsPlainDrmFd (drm_io sys) fd (fst s, w); Some (if plain \<noteq> 0 then 0 else res, s) }
         else Some (res, (fst s, w)))"

definition sceNpDrmEdataGetDataSizePatched :: "'w drm_sys \<Rightarrow> int \<Rightarrow> 'w kernel \<Rightarrow> (int \<times> 'w kernel) option" where
  "sceNpDrmEdataGetDataSizePatched sys fd s =
     (let (res, w) = sceNpDrmEdataGetDataSize sys fd (snd s)
      in if res < 0
         then do {
           (plain, (k, w)) \<leftarrow> IsPlainDrmFd (drm_io sys) fd (fst s, w);
           if plain \<noteq> 0
           then let (pos, w) = sceIoLseek32 (drm_io sys) fd 0 SEEK_CUR w;
                    (len, w) = sceIoLseek32 (drm_io sys) fd 0 SEEK_END w;
                    (_, w) = sceIoLseek32 (drm_io sys) fd pos SEEK_SET w
                in Some (len, (k, w))
           else Some (res, (k, w)) }
         else Some (res, (fst s, w)))"

text \<open>Whether the hooks are installed: the bubble's own setting wins over the general one.\<close>

definition nodrm_enabled :: "int \<Rightarrow> bool \<Rightarrow> bool \<Rightarrow> bool" where
  "nodrm_enabled nonpdrm notusenodrmengine boot_from_disc \<longleftrightarrow>
     nonpdrm \<noteq> 2 \<and> (nonpdrm = 1 \<or> \<not> notusenodrmengine) \<and> boot_from_disc"

section \<open>The kernel bridge\<close>

definition kuKernelGetModel :: int where
  "kuKernelGetModel = 1"

text \<open>A call made with K1 cleared, the shape of every function of the bridge.\<close>

definition with_k1 :: "('w \<Rightarrow> int \<times> 'w) \<Rightarrow> 'w kernel \<Rightarrow> int \<times> 'w kernel" where
  "with_k1 f s = (let (k1, (_, w)) = set_k1 0 s; (res, w) = f w in (res, (k1, w)))"

definition kuKernelSetDdrMemoryProtection ::
  "(u32 \<Rightarrow> int \<Rightarrow> int \<Rightarrow> 'w \<Rightarrow> int \<times> 'w) \<Rightarrow> u32 \<Rightarrow> int \<Rightarrow> int \<Rightarrow> 'w kernel \<Rightarrow> int \<times> 'w kernel"
where
  "kuKernelSetDdrMemoryProtection call addr n prot s = with_k1 (call addr n prot) s"

definition kuKernelGetUserLevel :: "('w \<Rightarrow> int \<times> 'w) \<Rightarrow> 'w kernel \<Rightarrow> int \<times> 'w kernel" where
  "kuKernelGetUserLevel call s = with_k1 call s"

definition kuKernelInitFileName :: "path \<Rightarrow> byte list \<Rightarrow> 'w kernel \<Rightarrow> (int \<times> byte list \<times> 'w kernel) option" where
  "kuKernelInitFileName name buf s =
     (let (k1, (_, w)) = set_k1 0 s in do { buf \<leftarrow> fill buf (lit name); Some (0, buf, (k1, w)) })"

definition kuKernelLoadModuleWithApitype2 ::
  "(int \<Rightarrow> path \<Rightarrow> 'w \<Rightarrow> int \<times> 'w) \<Rightarrow> int \<Rightarrow> path \<Rightarrow> 'w kernel \<Rightarrow> int \<times> 'w kernel"
where
  "kuKernelLoadModuleWithApitype2 call apitype p s = with_k1 (call apitype p) s"

definition kuKernelLoadModule :: "(path \<Rightarrow> 'w \<Rightarrow> int \<times> 'w) \<Rightarrow> path \<Rightarrow> 'w kernel \<Rightarrow> int \<times> 'w kernel" where
  "kuKernelLoadModule call p s = with_k1 (call p) s"

definition kuKernelLoadStartModule ::
  "(path \<Rightarrow> 'w \<Rightarrow> int \<times> 'w) \<Rightarrow> (int \<Rightarrow> 'w \<Rightarrow> int \<times> 'w) \<Rightarrow> path \<Rightarrow> 'w kernel \<Rightarrow> int \<times> 'w kernel"
where
  "kuKernelLoadStartModule load start p s =
     (let (res, (k, w)) = with_k1 (load p) s
      in if 0 \<le> res then let (res, w) = start res w in (res, (k, w)) else (res, (k, w)))"

section \<open>Suspending threads\<close>

definition MAX_THREADS :: nat where
  "MAX_THREADS = 32"

record thread_info =
  status :: u32

record 'w thread_sys =
  sceKernelGetThreadmanIdList :: "nat \<Rightarrow> 'w \<Rightarrow> int list \<times> nat"
  sceKernelReferThreadStatus :: "int \<Rightarrow> 'w \<Rightarrow> int \<times> thread_info"
  sceKernelSuspendThread :: "int \<Rightarrow> 'w \<Rightarrow> 'w"
  sceKernelResumeThread :: "int \<Rightarrow> 'w \<Rightarrow> 'w"
  THREAD_RUNNING :: u32
  THREAD_SUSPEND :: u32

record threadctrl =
  threads :: "int list"
  thread_count :: nat
  suspended_count :: nat

definition keeps_thread :: "'w thread_sys \<Rightarrow> int \<Rightarrow> 'w \<Rightarrow> bool" where
  "keeps_thread sys t w \<longleftrightarrow>
     (let (res, info) = sceKernelReferThreadStatus sys t w
      in res = 0 \<and> status info AND THREAD_RUNNING sys = 0 \<and> status info AND THREAD_SUSPEND sys = 0)"

fun mark_threads :: "'w thread_sys \<Rightarrow> 'w \<Rightarrow> nat \<Rightarrow> nat \<Rightarrow> int list \<Rightarrow> int list option" where
  "mark_threads sys w 0 i ts = Some ts"
| "mark_threads sys w (Suc n) i ts =
     (if i < length ts
      then mark_threads sys w n (i + 1) (if keeps_thread sys (ts ! i) w then ts else ts[i := -1])
      else None)"

fun suspend_down :: "'w thread_sys \<Rightarrow> nat \<Rightarrow> int list \<Rightarrow> 'w \<Rightarrow> 'w option" where
  "suspend_down sys 0 ts w = Some w"
| "suspend_down sys (Suc i) ts w =
     (if Suc i < length ts
      then suspend_down sys i ts (if 0 \<le> ts ! Suc i then sceKernelSuspendThread sys (ts ! Suc i) w else w)
      else None)"

definition SuspendThreads :: "'w thread_sys \<Rightarrow> threadctrl \<times> 'w \<Rightarrow> (threadctrl \<times> 'w) option" where
  "SuspendThreads sys s =
     (let (c, w) = s; (ids, count) = sceKernelGetThreadmanIdList sys MAX_THREADS w
      in if length (threads c) < length ids then None
         else do {
           ts \<leftarrow> mark_threads sys w count 0 (ids @ drop (length ids) (threads c));
           w \<leftarrow> suspend_down sys count ts w;
           Some (\<lparr>threads = ts, thread_count = count, suspended_count = count\<rparr>, w) })"

fun resume_up :: "'w thread_sys \<Rightarrow> nat \<Rightarrow> nat \<Rightarrow> int list \<Rightarrow> 'w \<Rightarrow> 'w option" where
  "resume_up sys 0 i ts w = Some w"
| "resume_up sys (Suc n) i ts w =
     (if i < length ts
      then resume_up sys n (i + 1) ts (if 0 \<le> ts ! i then sceKernelResumeThread sys (ts ! i) w else w)
      else None)"

definition ResumeThreads :: "'w thread_sys \<Rightarrow> threadctrl \<times> 'w \<Rightarrow> (threadctrl \<times> 'w) option" where
  "ResumeThreads sys s =
     (let (c, w) = s
      in if suspended_count c = 0 then Some (c, w)
         else do {
           w \<leftarrow> resume_up sys (thread_count c) 0 (threads c) w;
           Some (c\<lparr>suspended_count := 0\<rparr>, w) })"

section \<open>Lemmas\<close>

lemma seek32_holds:
  assumes "fs_contract io V" "holds V w fd p pos fs" "files fs p = Some d"
    "0 \<le> seek_target whence off pos d" "seek_target whence off pos d < 2 ^ 31"
  shows "\<exists>w'. sceIoLseek32 io fd off whence w = (seek_target whence off pos d, w')
           \<and> holds V w' fd p (nat (seek_target whence off pos d)) fs"
  using seek_holds [OF assms(1-4)] assms(4,5) by (auto simp: sceIoLseek32_def to_int32_id)

lemma encrypted_header_take: "encrypted_header (take 8 d) \<longleftrightarrow> encrypted_header d"
  by (simp add: encrypted_header_def min_def)

text \<open>The answer for a file's contents: -1 below eight bytes, which every caller takes for a plain file.\<close>

definition drm_class :: "byte list \<Rightarrow> int" where
  "drm_class d = (if length d < 8 then -1 else if encrypted_header d then 0 else 1)"

lemma is_plain_fd:
  assumes "fs_contract io V" and "holds V w fd p pos fs" and "files fs p = Some d" and "pos < 2 ^ 31"
  shows "\<exists>w'. IsPlainDrmFd io fd (k, w) = Some (drm_class d, (k, w'))
     \<and> holds V w' fd p (if length d < 8 then length d else pos) fs"
proof -
  have t: "seek_target SEEK_CUR 0 pos d = int pos" "seek_target SEEK_SET off pos' d = off" for off pos'
    by (simp_all add: seek_target_def)
  obtain w1 where w1: "sceIoLseek32 io fd 0 SEEK_CUR w = (int pos, w1)" "holds V w1 fd p pos fs"
    using seek32_holds [OF assms(1-3), of SEEK_CUR 0] assms(4) by (auto simp: t)
  obtain w2 where w2: "sceIoLseek32 io fd 0 SEEK_SET w1 = (0, w2)" "holds V w2 fd p 0 fs"
    using seek32_holds [OF assms(1) w1(2) assms(3), of SEEK_SET 0] by (auto simp: t)
  obtain w3 where w3: "sceIoRead io fd 8 w2 = (int (length (take 8 d)), take 8 d, w3)"
    "holds V w3 fd p (length (take 8 d)) fs"
    using read_holds [OF assms(1) w2(2) assms(3), of 8] by auto
  show ?thesis
  proof (cases "length d < 8")
    case True
    then show ?thesis
      using w1(1) w2(1) w3 by (simp add: IsPlainDrmFd_def set_k1_def drm_class_def)
  next
    case False
    then have l: "length (take 8 d) = 8"
      by simp
    obtain w4 where w4: "sceIoLseek32 io fd (int pos) SEEK_SET w3 = (int pos, w4)" "holds V w4 fd p pos fs"
      using seek32_holds [OF assms(1) w3(2) assms(3), of SEEK_SET "int pos"] assms(4) by (auto simp: t)
    show ?thesis
      using w1(1) w2(1) w3(1) w4 False unfolding l
      by (simp add: IsPlainDrmFd_def set_k1_def l encrypted_header_take drm_class_def)
  qed
qed

lemma is_plain_path:
  assumes "fs_contract io V"
  shows "\<exists>w'. IsPlainDrmPath io p (k, w)
       = Some (case files (V w) p of None \<Rightarrow> False | Some d \<Rightarrow> drm_class d \<noteq> 0, (k, w')) \<and> V w' = V w"
proof (cases "files (V w) p")
  case None
  then show ?thesis
    using open_missing [OF assms None, of "{O_RDONLY}" 0] by (auto simp: IsPlainDrmPath_def set_k1_def)
next
  case (Some d)
  obtain fd w1 where o: "sceIoOpen io p {O_RDONLY} 0 w = (fd, w1)" "0 \<le> fd" "holds V w1 fd p 0 (V w)"
    "handles (V w) fd = None"
    using open_holds [OF assms Some, where fl = "{O_RDONLY}" and m = 0] by auto
  obtain w2 n where c: "IsPlainDrmFd io fd (0, w1) = Some (drm_class d, (0, w2))" "holds V w2 fd p n (V w)"
    using is_plain_fd [OF assms o(3) Some, of 0] by auto
  obtain r w3 where "sceIoClose io fd w2 = (r, w3)" "V w3 = V w"
    using close_holds [OF assms c(2) o(4)] by blast
  then show ?thesis
    using o(1,2) c(1) Some by (simp add: IsPlainDrmPath_def set_k1_def)
qed

section \<open>Properties\<close>

text \<open>
  Decrypted DRM files. A file is passed through as plain exactly when it does not start with the EDAT or PGD
  signature, and also when it is too short to have one; the check gives back K1 and, unless the file is too
  short, the position. A path is opened without the decryption flag, a module loaded and a size computed exactly
  for such files; other failures keep their code.
\<close>

theorem drm_plain_files:
  assumes "fs_contract (drm_io sys) V" and "files (V w) p = Some d" and "holds V w' fd p pos (V w)"
    and "pos < 2 ^ 31" and "length d < 2 ^ 31"
    and "sceNpDrmEdataGetDataSize sys fd w' = (res, w')" and "res < 0"
  shows "\<exists>w1 w2 w3. IsPlainDrmPath (drm_io sys) p (k, w) = Some (drm_class d \<noteq> 0, (k, w1)) \<and> V w1 = V w
     \<and> do_open_patched sys p 0x40000001 (k, w)
         = (let (r, u) = do_open sys p (if drm_class d \<noteq> 0 then 1 else 0x40000001) w1 in Some (r, (k, u)))
     \<and> IsPlainDrmFd (drm_io sys) fd (k, w') = Some (drm_class d, (k, w2))
     \<and> holds V w2 fd p (if length d < 8 then length d else pos) (V w)
     \<and> sceNpDrmEdataGetDataSizePatched sys fd (k, w') = Some (if drm_class d \<noteq> 0 then int (length d) else res, (k, w3))
     \<and> holds V w3 fd p (if length d < 8 then length d else pos) (V w)"
proof -
  let ?pos = "if length d < 8 then length d else pos"
  obtain w1 where w1: "IsPlainDrmPath (drm_io sys) p (k, w) = Some (drm_class d \<noteq> 0, (k, w1))" "V w1 = V w"
    using is_plain_path [OF assms(1), of p k w] assms(2) by auto
  obtain w2 where w2: "IsPlainDrmFd (drm_io sys) fd (k, w') = Some (drm_class d, (k, w2))" "holds V w2 fd p ?pos (V w)"
    using is_plain_fd [OF assms(1,3,2,4), of k] by auto
  have "do_open_patched sys p 0x40000001 (k, w)
      = (let (r, u) = do_open sys p (if drm_class d \<noteq> 0 then 1 else 0x40000001) w1 in Some (r, (k, u)))"
    using w1(1) by (simp add: do_open_patched_def)
  moreover have "\<exists>w3. sceNpDrmEdataGetDataSizePatched sys fd (k, w')
      = Some (if drm_class d \<noteq> 0 then int (length d) else res, (k, w3)) \<and> holds V w3 fd p ?pos (V w)"
  proof (cases "drm_class d = 0")
    case True
    then show ?thesis
      using w2 assms(6,7) by (simp add: sceNpDrmEdataGetDataSizePatched_def)
  next
    case False
    have t: "seek_target SEEK_CUR 0 q d = int q" "seek_target SEEK_SET off q d = off"
      "seek_target SEEK_END 0 q d = int (length d)" for off q
      by (simp_all add: seek_target_def)
    have b: "?pos < 2 ^ 31"
      using assms(4,5) by simp
    obtain u1 where u1: "sceIoLseek32 (drm_io sys) fd 0 SEEK_CUR w2 = (int ?pos, u1)" "holds V u1 fd p ?pos (V w)"
      using seek32_holds [OF assms(1) w2(2) assms(2), of SEEK_CUR 0] b unfolding t by auto
    obtain u2 where u2: "sceIoLseek32 (drm_io sys) fd 0 SEEK_END u1 = (int (length d), u2)"
      "holds V u2 fd p (length d) (V w)"
      using seek32_holds [OF assms(1) u1(2) assms(2), of SEEK_END 0] assms(5) unfolding t by auto
    obtain u3 where u3: "sceIoLseek32 (drm_io sys) fd (int ?pos) SEEK_SET u2 = (int ?pos, u3)"
      "holds V u3 fd p ?pos (V w)"
      using seek32_holds [OF assms(1) u2(2) assms(2), of SEEK_SET "int ?pos"] b unfolding t by auto
    show ?thesis
      using False w2(1) assms(6,7) u1(1) u2(1) u3 by (simp add: sceNpDrmEdataGetDataSizePatched_def)
  qed
  ultimately show ?thesis
    using w1 w2 by auto
qed


definition drm_sample_mem :: mem where
  "drm_sample_mem = \<lparr>mfiles = [''ms0:/a.edat'' \<mapsto> ''plain file''], mdirs = [], mhandles = [Some (''ms0:/a.edat'', 3)]\<rparr>"

definition drm_sample_sys :: "mem drm_sys" where
  "drm_sample_sys = \<lparr>drm_io = mem_io, do_open = (\<lambda>p fl m. (int (unat fl), m)), do_ioctl = (\<lambda>fd cmd m. (-1, m)),
     sceKernelLoadModuleNpDrm = (\<lambda>p m. (-1, m)), sceNpDrmRenameCheck = (\<lambda>p m. (-1, m)),
     sceNpDrmEdataSetupKey = (\<lambda>fd m. (-1, m)), sceNpDrmEdataGetDataSize = (\<lambda>fd m. (-1, m)),
     drm_LoadModule661 = (\<lambda>p m. (9, m))\<rparr>"

theorem drm_plain_files_witness:
  "\<exists>w3. sceNpDrmEdataGetDataSizePatched drm_sample_sys 0 (5, drm_sample_mem) = Some (10, (5, w3))
     \<and> drm_class ''plain file'' = 1"
proof -
  have c: "drm_class ''plain file'' = 1"
    by (simp add: drm_class_def encrypted_header_def)
  have h: "fs_contract (drm_io drm_sample_sys) mem_view" "files (mem_view drm_sample_mem) ''ms0:/a.edat'' = Some ''plain file''"
    "holds mem_view drm_sample_mem 0 ''ms0:/a.edat'' 3 (mem_view drm_sample_mem)" "3 < (2 :: nat) ^ 31"
    "length ''plain file'' < 2 ^ 31" "sceNpDrmEdataGetDataSize drm_sample_sys 0 drm_sample_mem = (-1, drm_sample_mem)"
    "(-1 :: int) < 0"
    using mem_contract by (auto simp: drm_sample_sys_def drm_sample_mem_def mem_view_def holds_def mem_handle_def fun_eq_iff)
  have l: "int (length ''plain file'') = 10" "1 \<noteq> (0 :: int)"
    by simp_all
  show ?thesis
    using drm_plain_files [OF h, of 5] unfolding c l(1) if_P [OF l(2)] by blast
qed

lemma mark_threads_eq:
  "i + n \<le> length ts \<Longrightarrow> mark_threads sys w n i ts =
     Some (take i ts @ map (\<lambda>t. if keeps_thread sys t w then t else -1) (take n (drop i ts)) @ drop (i + n) ts)"
proof (induction n arbitrary: i ts)
  case (Suc n)
  let ?f = "\<lambda>t. if keeps_thread sys t w then t else -1"
  have u: "(if keeps_thread sys (ts ! i) w then ts else ts[i := -1]) = ts[i := ?f (ts ! i)]"
    by simp
  have d: "drop i ts = ts ! i # drop (Suc i) ts"
    using Suc.prems by (simp add: drop_Cons_nth)
  have "mark_threads sys w n (i + 1) (ts[i := ?f (ts ! i)])
      = Some (take (i + 1) (ts[i := ?f (ts ! i)]) @ map ?f (take n (drop (i + 1) ts)) @ drop (i + 1 + n) ts)"
    using Suc.IH [of "i + 1" "ts[i := ?f (ts ! i)]"] Suc.prems by (simp add: drop_update_cancel)
  then show ?case
    using Suc.prems unfolding mark_threads.simps u d by (simp add: take_Suc_conv_app_nth)
qed simp

lemma suspend_down_eq:
  "n < length ts \<Longrightarrow> suspend_down sys n ts w
     = Some (fold (sceKernelSuspendThread sys) (filter (\<lambda>t. 0 \<le> t) (rev (take n (drop 1 ts)))) w)"
proof (induction n arbitrary: w)
  case (Suc n)
  have "take (Suc n) (drop 1 ts) = take n (drop 1 ts) @ [ts ! Suc n]"
    using Suc.prems by (subst take_Suc_conv_app_nth) simp_all
  then show ?case
    using Suc by simp
qed simp

lemma suspend_down_out: "length ts \<le> Suc n \<Longrightarrow> suspend_down sys (Suc n) ts w = None"
  by simp

text \<open>
  Suspending threads. The thread listed first is never suspended, and the entry behind the list, left from an
  earlier call, is suspended instead when it is not negative; with a full list the loop reads behind the array.
\<close>

theorem suspend_threads_off_by_one:
  assumes "sceKernelGetThreadmanIdList sys MAX_THREADS w = (t0 # ids, length (t0 # ids))"
    and "length (threads c) = MAX_THREADS" and "length (t0 # ids) \<le> MAX_THREADS" and "list_all (\<lambda>t. 0 \<le> t) (t0 # ids)"
  shows "map_option snd (SuspendThreads sys (c, w)) =
     (if length (t0 # ids) = MAX_THREADS then None
      else Some (fold (sceKernelSuspendThread sys)
        (filter (\<lambda>t. 0 \<le> t) [threads c ! length (t0 # ids)] @ rev (filter (\<lambda>t. keeps_thread sys t w) ids)) w))"
proof -
  let ?n = "length (t0 # ids)" and ?f = "\<lambda>t. if keeps_thread sys t w then t else -1"
  have m: "mark_threads sys w ?n 0 ((t0 # ids) @ drop ?n (threads c)) = Some (map ?f (t0 # ids) @ drop ?n (threads c))"
    using mark_threads_eq [of 0 ?n "(t0 # ids) @ drop ?n (threads c)" sys w] assms(2,3) by (simp add: take_map)
  have run: "SuspendThreads sys (c, w) = do {
      w \<leftarrow> suspend_down sys ?n (map ?f (t0 # ids) @ drop ?n (threads c)) w;
      Some (\<lparr>threads = map ?f (t0 # ids) @ drop ?n (threads c), thread_count = ?n, suspended_count = ?n\<rparr>, w) }"
    using assms(1-3) m by (simp add: SuspendThreads_def)
  show ?thesis
  proof (cases "?n = MAX_THREADS")
    case True
    have l: "length (map ?f (t0 # ids) @ drop ?n (threads c)) = Suc (length ids)"
      using assms(2) True by simp
    have "suspend_down sys ?n (map ?f (t0 # ids) @ drop ?n (threads c)) w = None"
      using suspend_down_out [of "map ?f (t0 # ids) @ drop ?n (threads c)" "length ids"] l by simp
    then show ?thesis
      using run True by simp
  next
    case False
    have nl: "?n < length (threads c)"
      using assms(2,3) False by simp
    have tk: "take ?n (drop 1 (map ?f (t0 # ids) @ drop ?n (threads c))) = map ?f ids @ [threads c ! ?n]"
      using drop_Cons_nth [OF nl] by simp
    have fl: "filter (\<lambda>t. 0 \<le> t) (map ?f ids) = filter (\<lambda>t. keeps_thread sys t w) ids"
      using assms(4) by (induction ids) auto
    have "suspend_down sys ?n (map ?f (t0 # ids) @ drop ?n (threads c)) w = Some (fold (sceKernelSuspendThread sys)
        (filter (\<lambda>t. 0 \<le> t) [threads c ! ?n] @ rev (filter (\<lambda>t. keeps_thread sys t w) ids)) w)"
      using suspend_down_eq [of ?n "map ?f (t0 # ids) @ drop ?n (threads c)" sys w] nl
      unfolding tk rev_append filter_append fl rev_filter [symmetric] by (simp add: rev_filter fl)
    then show ?thesis
      using run False by simp
  qed
qed

definition thread_sample :: "int list thread_sys" where
  "thread_sample = \<lparr>sceKernelGetThreadmanIdList = (\<lambda>n w. ([10, 11, 12], 3)),
     sceKernelReferThreadStatus = (\<lambda>t w. (0, \<lparr>status = if t = 12 then 1 else 4\<rparr>)),
     sceKernelSuspendThread = (\<lambda>t w. w @ [t]), sceKernelResumeThread = (\<lambda>t w. removeAll t w),
     THREAD_RUNNING = 1, THREAD_SUSPEND = 8\<rparr>"

theorem suspend_threads_off_by_one_witness:
  "map_option snd (SuspendThreads thread_sample
     (\<lparr>threads = replicate 3 0 @ 77 # replicate 28 0, thread_count = 5, suspended_count = 0\<rparr>, [])) = Some [77, 11]"
proof -
  let ?c = "\<lparr>threads = replicate 3 0 @ 77 # replicate 28 0, thread_count = 5, suspended_count = 0\<rparr>"
  have h: "sceKernelGetThreadmanIdList thread_sample MAX_THREADS [] = (10 # [11, 12], length (10 # [11, 12 :: int]))"
    "length (threads ?c) = MAX_THREADS" "length (10 # [11, 12 :: int]) \<le> MAX_THREADS" "list_all (\<lambda>t. 0 \<le> t) (10 # [11, 12 :: int])"
    by (simp_all add: thread_sample_def MAX_THREADS_def)
  have n: "threads ?c ! length (10 # [11, 12 :: int]) = 77"
    by (simp add: nth_append)
  show ?thesis
    using suspend_threads_off_by_one [OF h] unfolding n
    by (simp add: MAX_THREADS_def thread_sample_def keeps_thread_def)
qed


lemma overlay_overlay: "length b \<le> length a \<Longrightarrow> length a \<le> length buf \<Longrightarrow> length b = length a \<Longrightarrow> overlay (overlay buf a) b = overlay buf b"
  by (simp add: overlay_def)

text \<open>
  The settings file. What \<open>sctrlSESetConfigEx\<close> reports as written, the magic included, is what
  \<open>sctrlSEGetConfigEx\<close> reads back over whatever the object held, and both give back K1.
\<close>

theorem config_roundtrip:
  assumes "fs_contract io V" and "n \<le> length cfg" and "length (magic cfg) = length cfg" and "n \<le> length buf"
    and "sctrlSESetConfigEx io magic cfg n (k, w) = Some (0, cfg', (k', w'))"
  shows "cfg' = magic cfg \<and> k' = k
     \<and> (\<exists>w''. sctrlSEGetConfigEx io buf n (k', w') = Some (int n, overlay buf (take n cfg'), (k, w'')) \<and> V w'' = V w')"
proof -
  obtain fd w1 where o: "sceIoOpen io config_path {O_WRONLY, O_CREAT, O_TRUNC} 511 w = (fd, w1)"
    by fastforce
  have fd: "0 \<le> fd"
    using assms(5) o by (auto simp: sctrlSESetConfigEx_def set_k1_def split: if_splits)
  let ?data = "take n (magic cfg)"
  have l: "length ?data = n"
    using assms(2,3) by simp
  obtain w2 w3 r where wr: "sceIoWrite io fd ?data w1 = (int n, w2)" "sceIoClose io fd w2 = (r, w3)"
    "V w3 = (V w)\<lparr>files := (files (V w))(config_path := Some ?data)\<rparr>"
    using write_once [OF assms(1) o fd, of ?data] l by auto
  have e: "cfg' = magic cfg" "k' = k" "w' = w3"
    using assms(2,3,5) o fd wr by (auto simp: sctrlSESetConfigEx_def set_k1_def bytes_arg_def)
  have f: "files (V w') config_path = Some ?data"
    by (simp add: e wr(3))
  obtain fd2 u1 u2 u3 r2 where rd: "sceIoOpen io config_path {O_RDONLY} 0 w' = (fd2, u1)" "0 \<le> fd2"
    "sceIoRead io fd2 n u1 = (int (length (take n ?data)), take n ?data, u2)" "sceIoClose io fd2 u2 = (r2, u3)" "V u3 = V w'"
    using read_once [OF assms(1) f, of "{O_RDONLY}" 0 n] by auto
  have t: "take n ?data = ?data"
    by simp
  have ov: "fill (overlay buf (replicate n NUL)) ?data = Some (overlay buf ?data)"
    using assms(4) l overlay_overlay [of ?data "replicate n NUL" buf] by (simp add: fill_def)
  have "sctrlSEGetConfigEx io buf n (k', w') = Some (int n, overlay buf ?data, (k, u3))"
    using rd ov assms(4) unfolding t l by (simp add: sctrlSEGetConfigEx_def get_config_file_def set_k1_def e)
  then show ?thesis
    using rd(5) e by auto
qed

theorem config_roundtrip_witness:
  "\<exists>w w'. sctrlSESetConfigEx mem_io (set_magic 0 1 2) (replicate 12 CHR ''x'') 12 (7, \<lparr>mfiles = Map.empty, mdirs = [], mhandles = []\<rparr>)
       = Some (0, le32 1 @ le32 2 @ ''xxxx'', (7, w))
     \<and> sctrlSEGetConfigEx mem_io (replicate 16 CHR ''y'') 12 (7, w) = Some (12, le32 1 @ le32 2 @ ''xxxxyyyy'', (7, w'))"
proof -
  let ?cfg = "replicate 12 CHR ''x''"
  have m: "set_magic 0 1 2 ?cfg = le32 1 @ le32 2 @ ''xxxx''"
    by (simp add: set_magic_def put32_def overlay_at_def numeral_eq_Suc)
  have h: "12 \<le> length ?cfg" "length (set_magic 0 1 2 ?cfg) = length ?cfg" "12 \<le> length (replicate 16 CHR ''y'')"
    unfolding m by simp_all
  obtain w where w: "sctrlSESetConfigEx mem_io (set_magic 0 1 2) ?cfg 12 (7, \<lparr>mfiles = Map.empty, mdirs = [], mhandles = []\<rparr>)
      = Some (0, le32 1 @ le32 2 @ ''xxxx'', (7, w))"
    by (simp add: sctrlSESetConfigEx_def set_k1_def m mem_defs bytes_arg_def Let_def)
  have e: "overlay (replicate 16 CHR ''y'') (take 12 (le32 1 @ le32 2 @ ''xxxx'')) = le32 1 @ le32 2 @ ''xxxxyyyy''"
    by (simp add: overlay_def numeral_eq_Suc)
  show ?thesis
    using config_roundtrip [OF mem_contract h w] w unfolding e by auto
qed


end
