(* ===== verification/Shared.thy ===== *)
theory Shared
  imports Prelude
begin

text \<open>
  The memory both sides share, \<open>overlay/adrenaline_compat.h\<close>: the Vita side (the user module) and the PSP side
  (SystemControl) exchange commands through one \<open>SceAdrenaline\<close> object in the emulated memory. Fields carry the
  prefix \<open>a\<close>. An array of characters is its bytes.
\<close>

datatype savestate_mode = SAVESTATE_MODE_NONE | SAVESTATE_MODE_SAVE | SAVESTATE_MODE_LOAD

datatype psp_cmd =
    PSP_CMD_NONE | PSP_CMD_REINSERT_MS | PSP_CMD_SAVESTATE | PSP_CMD_LOADSTATE | PSP_CMD_RESTART_BOOTER
  | PSP_CMD_EXIT_VSH | PSP_CMD_SUSPEND | PSP_CMD_RESUME

datatype vita_cmd =
    VITA_CMD_NONE | VITA_CMD_SAVESTATE | VITA_CMD_LOADSTATE | VITA_CMD_GET_USB_STATE | VITA_CMD_START_USB
  | VITA_CMD_STOP_USB | VITA_CMD_PAUSE_POPS | VITA_CMD_RESUME_POPS | VITA_CMD_POWER_SHUTDOWN
  | VITA_CMD_POWER_REBOOT

datatype vita_response = VITA_RESPONSE_NONE | VITA_RESPONSE_SAVED | VITA_RESPONSE_LOADED

record SceAdrenaline =
  a_savestate_mode :: savestate_mode
  a_num :: int
  a_sp :: u32
  a_ra :: u32
  a_pops_mode :: bool
  a_draw_psp_screen_in_pops :: bool
  a_title :: "byte list"
  a_titleid :: "byte list"
  a_filename :: "byte list"
  a_psp_cmd :: psp_cmd
  a_vita_cmd :: vita_cmd
  a_psp_response :: int
  a_vita_response :: vita_response
  a_adr_id :: int
  a_game_mode :: bool

end
