(* ===== verification/States.thy ===== *)
theory States
  imports UserUtils Shared
begin

text \<open>
  Save states of the user module, \<open>overlay/user/states.c\<close> with \<open>states.h\<close>: the list of 32 slots read from the
  memory stick, the screenshot written with a state, the requests to the emulated PSP and the list and option
  menu driven by the pad. An access outside the slots is undefined. Kernel and graphics calls are the fields of
  \<open>states_sys\<close>; drawing itself is not modelled, only which slots it reads.
\<close>

unbundle bit_operations_syntax

section \<open>Constants and data\<close>

definition MAX_STATES :: int where
  "MAX_STATES = 32"

definition MAX_POSITION :: int where
  "MAX_POSITION = 4"

definition SCREENSHOT_SIZE :: nat where
  "SCREENSHOT_SIZE = 240 * 136 * 4"

definition ADRENALINE_SAVESTATE_MAGIC :: u32 where
  "ADRENALINE_SAVESTATE_MAGIC = 0x54535653"

definition sizeof_AdrenalineStateHeader :: nat where
  "sizeof_AdrenalineStateHeader = 0x100"

record AdrenalineStateEntry =
  num :: int
  tex :: "nat option"
  title :: path
  st_size :: nat
  st_time :: "nat list"

datatype option_mode = OPTION_MODE_NEW | OPTION_MODE_EXIST

definition option_entries_new :: "path list" where
  "option_entries_new = [''Save State'', ''Cancel'']"

definition option_entries_exist :: "path list" where
  "option_entries_exist = [''Load State'', ''Overwrite State'', ''Delete State'', ''Cancel'']"

record states_ui =
  slots :: "AdrenalineStateEntry list option"
  option_sel :: int
  rel_pos :: int
  base_pos :: int
  open_options :: bool
  load_state :: bool
  n_options :: int
  mode :: option_mode

record 'w states_sys =
  st_io :: "'w sceio"
  st_mkdir :: "path \<Rightarrow> 'w \<Rightarrow> 'w"
  st_dopen :: "path \<Rightarrow> 'w \<Rightarrow> int \<times> 'w"
  st_dread :: "int \<Rightarrow> 'w \<Rightarrow> int \<times> path \<times> 'w"
  st_dclose :: "int \<Rightarrow> 'w \<Rightarrow> 'w"
  st_getstat :: "path \<Rightarrow> 'w \<Rightarrow> int \<times> nat \<times> nat list \<times> 'w"
  create_texture :: "'w \<Rightarrow> nat option \<times> 'w"
  fill_texture :: "nat \<Rightarrow> byte list \<Rightarrow> 'w \<Rightarrow> 'w"
  free_texture :: "nat \<Rightarrow> 'w \<Rightarrow> 'w"
  malloc_ok :: "nat \<Rightarrow> 'w \<Rightarrow> bool"
  draw_native :: "'w \<Rightarrow> bool"
  pops_mode :: "'w \<Rightarrow> bool"
  native_pixels :: "'w \<Rightarrow> nat \<Rightarrow> u16"
  pops_pixels :: "'w \<Rightarrow> nat \<Rightarrow> u32"
  psp_pixels :: "'w \<Rightarrow> nat \<Rightarrow> u32"
  set_state_num :: "int \<Rightarrow> 'w \<Rightarrow> 'w"
  stop_usb :: "'w \<Rightarrow> 'w"
  SendAdrenalineRequest :: "psp_cmd \<Rightarrow> 'w \<Rightarrow> 'w"

section \<open>Files of states\<close>

definition makeSaveStatePath :: "int \<Rightarrow> int \<Rightarrow> path" where
  "makeSaveStatePath location n =
     getPspemuMemoryStickLocation location @ ''/PSP/SAVESTATE/STATE'' @ signed_decimal n 2 CHR ''0'' @ ''.BIN''"

definition convert565To8888 :: "u16 \<Rightarrow> u32" where
  "convert565To8888 color =
     (let red_value = ucast (drop_bit 11 (color AND 0xF800)) :: u8;
          green_value = ucast (drop_bit 5 (color AND 0x7E0)) :: u8;
          blue_value = ucast (color AND 0x1F) :: u8;
          red = push_bit 3 red_value; green = push_bit 2 green_value; blue = push_bit 3 blue_value
      in push_bit 24 0xFF OR push_bit 16 (ucast red) OR push_bit 8 (ucast green) OR ucast blue)"

definition pixel_grid :: "nat \<Rightarrow> nat \<Rightarrow> nat \<Rightarrow> (nat \<Rightarrow> nat \<Rightarrow> 'p) \<Rightarrow> 'p list" where
  "pixel_grid step height width f =
     concat (map (\<lambda>y. map (\<lambda>x. f (step * x) (step * y)) [0..<(width + step - 1) div step])
       [0..<(height + step - 1) div step])"

definition screenshot :: "'w states_sys \<Rightarrow> 'w \<Rightarrow> u32 list" where
  "screenshot sys w =
     (if draw_native sys w
      then pixel_grid 4 544 960 (\<lambda>x y. convert565To8888 (native_pixels sys w (x + 960 * y)))
      else if pops_mode sys w
      then pixel_grid 4 544 960 (\<lambda>x y. 0xFF000000 OR pops_pixels sys w (x + 1024 * y))
      else pixel_grid 2 272 480 (\<lambda>x y. psp_pixels sys w (x + 512 * y)))"

text \<open>The buffer holds \<open>SCREENSHOT_SIZE\<close> bytes; more pixels would be written behind it, fewer leave bytes of the heap.\<close>

definition saveFrameBuffer :: "'w states_sys \<Rightarrow> int \<Rightarrow> 'w \<Rightarrow> (int \<times> 'w) option" where
  "saveFrameBuffer sys fd w =
     (if \<not> malloc_ok sys SCREENSHOT_SIZE w then Some (-1, w)
      else let pixels = screenshot sys w
           in if 4 * length pixels \<noteq> SCREENSHOT_SIZE then None
              else Some (0, snd (sceIoWrite (st_io sys) fd (concat (map le32 pixels)) w)))"

definition saveState :: "'w states_sys \<Rightarrow> int \<Rightarrow> int \<Rightarrow> 'w \<Rightarrow> 'w option" where
  "saveState sys location n w = do {
     let w = st_mkdir sys (getPspemuMemoryStickLocation location @ ''/PSP/SAVESTATE'') w;
     let p = makeSaveStatePath location n;
     let (fd, w) = sceIoOpen (st_io sys) (p @ ''.tmp'') {O_WRONLY, O_CREAT, O_TRUNC} 511 w;
     w \<leftarrow> (if 0 \<le> fd
           then do {
             let (_, w) = sceIoWrite (st_io sys) fd (replicate sizeof_AdrenalineStateHeader NUL) w;
             (_, w) \<leftarrow> saveFrameBuffer sys fd w;
             Some (snd (sceIoClose (st_io sys) fd w)) }
           else Some w);
     Some (SendAdrenalineRequest sys PSP_CMD_SAVESTATE (stop_usb sys (set_state_num sys n w))) }"

definition loadState :: "'w states_sys \<Rightarrow> int \<Rightarrow> 'w \<Rightarrow> 'w" where
  "loadState sys n w = SendAdrenalineRequest sys PSP_CMD_LOADSTATE (stop_usb sys (set_state_num sys n w))"

section \<open>The list of slots\<close>

definition slot :: "AdrenalineStateEntry list \<Rightarrow> int \<Rightarrow> AdrenalineStateEntry option" where
  "slot sts n = (if 0 \<le> n \<and> nat n < length sts then Some (sts ! nat n) else None)"

definition free_tex :: "'w states_sys \<Rightarrow> AdrenalineStateEntry \<Rightarrow> 'w \<Rightarrow> 'w" where
  "free_tex sys e w = (case tex e of None \<Rightarrow> w | Some t \<Rightarrow> free_texture sys t w)"

definition deleteState ::
  "'w states_sys \<Rightarrow> int \<Rightarrow> int \<Rightarrow> AdrenalineStateEntry list \<Rightarrow> 'w \<Rightarrow> (AdrenalineStateEntry list \<times> 'w) option"
where
  "deleteState sys location n sts w = do {
     let p = makeSaveStatePath location n;
     let (_, w) = sceIoRemove (st_io sys) p w;
     e \<leftarrow> slot sts n;
     Some (sts[nat n := e\<lparr>num := -1\<rparr>], free_tex sys e w) }"

definition finishStates :: "'w states_sys \<Rightarrow> states_ui \<Rightarrow> 'w \<Rightarrow> states_ui \<times> 'w" where
  "finishStates sys ui w =
     (case slots ui of
        None \<Rightarrow> (ui, w)
      | Some sts \<Rightarrow>
          (ui\<lparr>slots := None\<rparr>, fold (\<lambda>e w. if num e \<noteq> -1 then free_tex sys e w else w) (take (nat MAX_STATES) sts) w))"

definition digit :: "byte \<Rightarrow> bool" where
  "digit c \<longleftrightarrow> 48 \<le> (of_char c :: nat) \<and> (of_char c :: nat) \<le> 57"

definition state_number :: "path \<Rightarrow> int option" where
  "state_number name =
     (let d_name = name @ replicate 8 NUL
      in if take 5 name = ''STATE'' \<and> digit (d_name ! 5) \<and> digit (d_name ! 6)
         then let n = 10 * (of_char (d_name ! 5) - 48) + (of_char (d_name ! 6) - 48)
              in if MAX_STATES \<le> n then None else Some n
         else None)"

text \<open>
  Reading one state file into its slot. The header object holds what the stack held before (\<open>stack\<close>); its title
  must be a string, and the screenshot must fit the texture.
\<close>

definition load_slot ::
  "'w states_sys \<Rightarrow> byte list \<Rightarrow> path \<Rightarrow> int \<Rightarrow> AdrenalineStateEntry \<Rightarrow> 'w \<Rightarrow> (AdrenalineStateEntry \<times> 'w) option"
where
  "load_slot sys stack p n e w =
     (let (fd, w) = sceIoOpen (st_io sys) p {O_RDONLY} 0 w
      in if fd < 0 then Some (e, w)
         else do {
           let (_, data, w) = sceIoRead (st_io sys) fd sizeof_AdrenalineStateHeader w;
           header \<leftarrow> fill stack data;
           (e, w) \<leftarrow>
             (if get32 0 header = ADRENALINE_SAVESTATE_MAGIC
              then do {
                ttl \<leftarrow> path_arg (take 0x80 (drop 8 header));
                let (t, w) = create_texture sys w;
                w \<leftarrow> (case t of
                        None \<Rightarrow> Some w
                      | Some tid \<Rightarrow>
                          let (_, w) = sceIoLseek (st_io sys) fd (uint (get32 0x90 header)) SEEK_SET w;
                              (_, data, w) = sceIoRead (st_io sys) fd (unat (get32 0x94 header)) w
                          in if length data \<le> SCREENSHOT_SIZE then Some (fill_texture sys tid data w) else None);
                let e = e\<lparr>num := n, title := ttl, tex := t\<rparr>;
                let (res, sz, time, w) = st_getstat sys p w;
                Some (if 0 \<le> res then e\<lparr>st_size := sz, st_time := time\<rparr> else e, w) }
              else Some (e, w));
           Some (e, snd (sceIoClose (st_io sys) fd w)) })"

definition load_entry ::
  "'w states_sys \<Rightarrow> byte list \<Rightarrow> int \<Rightarrow> path \<Rightarrow> AdrenalineStateEntry list \<Rightarrow> 'w
     \<Rightarrow> (AdrenalineStateEntry list \<times> 'w) option"
where
  "load_entry sys stack location name sts w =
     (case state_number name of
        None \<Rightarrow> Some (sts, w)
      | Some n \<Rightarrow> do {
          let p = makeSaveStatePath location n;
          e \<leftarrow> slot sts n;
          (e, w) \<leftarrow> load_slot sys stack p n e w;
          Some (sts[nat n := e], w) })"

partial_function (option) load_states ::
  "'w states_sys \<Rightarrow> byte list \<Rightarrow> int \<Rightarrow> int \<Rightarrow> AdrenalineStateEntry list \<Rightarrow> 'w
     \<Rightarrow> (AdrenalineStateEntry list \<times> 'w) option"
where
  "load_states sys stack location dfd sts w =
     (case st_dread sys dfd w of (res, name, w) \<Rightarrow>
        if 0 < res
        then (case load_entry sys stack location name sts w of
                None \<Rightarrow> None | Some (sts, w) \<Rightarrow> load_states sys stack location dfd sts w)
        else Some (sts, w))"

text \<open>\<open>raw\<close> is the memory the allocator returns, \<open>None\<close> when it fails.\<close>

definition initStates ::
  "'w states_sys \<Rightarrow> byte list \<Rightarrow> int \<Rightarrow> AdrenalineStateEntry list option \<Rightarrow> states_ui \<Rightarrow> 'w
     \<Rightarrow> (int \<times> states_ui \<times> 'w) option"
where
  "initStates sys stack location raw ui w =
     (let ui = ui\<lparr>option_sel := 0, open_options := False, slots := None\<rparr>
      in case raw of
           None \<Rightarrow> Some (-1, ui, w)
         | Some sts \<Rightarrow> do {
             let sts = map (\<lambda>e. e\<lparr>num := -1\<rparr>) sts;
             let (dfd, w) = st_dopen sys (getPspemuMemoryStickLocation location @ ''/PSP/SAVESTATE'') w;
             if 0 \<le> dfd
             then do {
               (sts, w) \<leftarrow> load_states sys stack location dfd sts w;
               Some (0, ui\<lparr>slots := Some sts\<rparr>, st_dclose sys dfd w) }
             else Some (0, ui\<lparr>slots := Some sts\<rparr>, w) })"

section \<open>The menu\<close>

text \<open>
  Leaving the menu: \<open>leave\<close> is what \<open>ExitAdrenalineMenu\<close> of \<open>menu.c\<close> does to the menu \<open>'m\<close> and the world before it
  calls \<open>finishStates\<close>.
\<close>

type_synonym ('m, 'w) leaving = "'m \<times> 'w \<Rightarrow> 'm \<times> 'w"

definition exit_menu :: "('m, 'w) leaving \<Rightarrow> 'w states_sys \<Rightarrow> states_ui \<Rightarrow> 'm \<times> 'w \<Rightarrow> states_ui \<times> 'm \<times> 'w" where
  "exit_menu leave sys ui s =
     (let (m, w) = leave s; (ui, w) = finishStates sys ui w in (ui, m, w))"

definition choose_option ::
  "('m, 'w) leaving \<Rightarrow> 'w states_sys \<Rightarrow> int \<Rightarrow> states_ui \<Rightarrow> 'm \<times> 'w \<Rightarrow> (states_ui \<times> 'm \<times> 'w) option"
where
  "choose_option leave sys location ui s =
     (let n = base_pos ui + rel_pos ui
      in case mode ui of
           OPTION_MODE_NEW \<Rightarrow>
             if option_sel ui = 0
             then let (ui, m, w) = exit_menu leave sys ui s in do { w \<leftarrow> saveState sys location n w; Some (ui, m, w) }
             else if option_sel ui = 1 then Some (ui\<lparr>open_options := False\<rparr>, s)
             else Some (ui, s)
         | OPTION_MODE_EXIST \<Rightarrow>
             if option_sel ui = 0
             then let (ui, m, w) = exit_menu leave sys ui s in Some (ui, m, loadState sys n w)
             else if option_sel ui = 1
             then let (ui, m, w) = exit_menu leave sys ui s in do { w \<leftarrow> saveState sys location n w; Some (ui, m, w) }
             else if option_sel ui = 2
             then do {
               sts \<leftarrow> slots ui;
               (sts, w) \<leftarrow> deleteState sys location n sts (snd s);
               Some (ui\<lparr>slots := Some sts, open_options := False\<rparr>, fst s, w) }
             else if option_sel ui = 3 then Some (ui\<lparr>open_options := False\<rparr>, s)
             else Some (ui, s))"

definition pad_on :: "u8 list \<Rightarrow> nat \<Rightarrow> bool" where
  "pad_on p i \<longleftrightarrow> p ! i \<noteq> 0"

definition going_up :: "pads \<Rightarrow> bool" where
  "going_up p \<longleftrightarrow> pad_on (hold_pad p) PAD_UP \<or> pad_on (hold_pad p) PAD_LEFT_ANALOG_UP"

definition going_down :: "pads \<Rightarrow> bool" where
  "going_down p \<longleftrightarrow> pad_on (hold_pad p) PAD_DOWN \<or> pad_on (hold_pad p) PAD_LEFT_ANALOG_DOWN"

definition option_up :: "states_ui \<Rightarrow> states_ui" where
  "option_up ui = (if 0 < option_sel ui then ui\<lparr>option_sel := option_sel ui - 1\<rparr> else ui)"

definition option_down :: "states_ui \<Rightarrow> states_ui" where
  "option_down ui = (if option_sel ui < n_options ui - 1 then ui\<lparr>option_sel := option_sel ui + 1\<rparr> else ui)"

definition list_up :: "states_ui \<Rightarrow> states_ui" where
  "list_up ui =
     (if 0 < rel_pos ui then ui\<lparr>rel_pos := rel_pos ui - 1\<rparr>
      else if 0 < base_pos ui then ui\<lparr>base_pos := base_pos ui - 1\<rparr> else ui)"

definition list_down :: "states_ui \<Rightarrow> states_ui" where
  "list_down ui =
     (if rel_pos ui < MAX_STATES - 1
      then if rel_pos ui < MAX_POSITION - 1 then ui\<lparr>rel_pos := rel_pos ui + 1\<rparr>
           else if base_pos ui + rel_pos ui < MAX_STATES - 1 then ui\<lparr>base_pos := base_pos ui + 1\<rparr> else ui
      else ui)"

definition open_menu :: "states_ui \<Rightarrow> AdrenalineStateEntry list \<Rightarrow> states_ui option" where
  "open_menu ui sts = do {
     e \<leftarrow> slot sts (base_pos ui + rel_pos ui);
     let ui = ui\<lparr>open_options := True, option_sel := 0\<rparr>;
     Some (if num e = -1
           then ui\<lparr>n_options := int (length option_entries_new), mode := OPTION_MODE_NEW\<rparr>
           else ui\<lparr>n_options := int (length option_entries_exist), mode := OPTION_MODE_EXIST\<rparr>) }"

definition ctrlStates ::
  "('m, 'w) leaving \<Rightarrow> 'w states_sys \<Rightarrow> int \<Rightarrow> pads \<Rightarrow> states_ui \<Rightarrow> 'm \<times> 'w \<Rightarrow> (states_ui \<times> 'm \<times> 'w) option"
where
  "ctrlStates leave sys location p ui s =
     (case slots ui of
        None \<Rightarrow> Some (ui, s)
      | Some sts \<Rightarrow>
          if open_options ui
          then do {
            let ui = (if pad_on (released_pad p) PAD_CANCEL then ui\<lparr>open_options := False\<rparr> else ui);
            (ui, s) \<leftarrow> (if pad_on (released_pad p) PAD_ENTER then choose_option leave sys location ui s else Some (ui, s));
            let ui = (if going_up p then option_up ui else ui);
            Some (if going_down p then option_down ui else ui, s) }
          else do {
            let ui = (if going_up p then list_up ui else ui);
            let ui = (if going_down p then list_down ui else ui);
            ui \<leftarrow> (if pad_on (released_pad p) PAD_ENTER then open_menu ui sts else Some ui);
            Some (ui, s) })"

text \<open>The slots a frame reads.\<close>

definition drawn_slots :: "states_ui \<Rightarrow> AdrenalineStateEntry list option" where
  "drawn_slots ui =
     (case slots ui of
        None \<Rightarrow> Some []
      | Some sts \<Rightarrow> those (map (\<lambda>i. slot sts (base_pos ui + i)) [0, 1, 2, 3]))"

definition stateExists :: "'w states_sys \<Rightarrow> int \<Rightarrow> int \<Rightarrow> 'w \<Rightarrow> int \<times> 'w" where
  "stateExists sys location n w =
     (let (res, _, _, w) = st_getstat sys (makeSaveStatePath location n) w in (res, w))"

definition autoLoadState :: "'w states_sys \<Rightarrow> int \<Rightarrow> int \<Rightarrow> states_ui \<Rightarrow> 'w \<Rightarrow> states_ui \<times> 'w" where
  "autoLoadState sys location n ui w =
     (if load_state ui then (ui, w)
      else let (res, w) = stateExists sys location n w
      in if res < 0 then (ui, w)
         else let ui = ui\<lparr>load_state := True\<rparr>; w = loadState sys n w in (ui\<lparr>base_pos := n\<rparr>, w))"

section \<open>The screenshot\<close>

lemma length_pixel_grid:
  "length (pixel_grid step height width f) = ((height + step - 1) div step) * ((width + step - 1) div step)"
  by (simp add: pixel_grid_def length_concat comp_def sum_list_triv)

lemma screenshot_fits: "4 * length (screenshot sys w) = SCREENSHOT_SIZE"
  by (simp add: screenshot_def length_pixel_grid SCREENSHOT_SIZE_def)

lemma saveState_defined: "\<exists>w'. saveState sys location n w = Some w'"
  by (simp add: saveState_def saveFrameBuffer_def screenshot_fits Let_def case_prod_beta)

section \<open>The cursor\<close>

definition cursor_ok :: "states_ui \<Rightarrow> bool" where
  "cursor_ok ui \<longleftrightarrow>
     0 \<le> rel_pos ui \<and> rel_pos ui < MAX_POSITION \<and> 0 \<le> base_pos ui \<and> base_pos ui \<le> MAX_STATES - MAX_POSITION"

definition options_ok :: "states_ui \<Rightarrow> bool" where
  "options_ok ui \<longleftrightarrow>
     (open_options ui \<longrightarrow> 0 \<le> option_sel ui \<and> option_sel ui < n_options ui
        \<and> n_options ui = int (length (case mode ui of OPTION_MODE_NEW \<Rightarrow> option_entries_new | OPTION_MODE_EXIST \<Rightarrow> option_entries_exist)))"

definition slots_ok :: "states_ui \<Rightarrow> bool" where
  "slots_ok ui \<longleftrightarrow> (case slots ui of None \<Rightarrow> True | Some sts \<Rightarrow> length sts = nat MAX_STATES)"

definition states_ok :: "states_ui \<Rightarrow> bool" where
  "states_ok ui \<longleftrightarrow> cursor_ok ui \<and> options_ok ui \<and> slots_ok ui"

fun ctrl_run ::
  "('m, 'w) leaving \<Rightarrow> 'w states_sys \<Rightarrow> int \<Rightarrow> pads list \<Rightarrow> states_ui \<times> 'm \<times> 'w \<Rightarrow> (states_ui \<times> 'm \<times> 'w) option"
where
  "ctrl_run leave sys location [] s = Some s"
| "ctrl_run leave sys location (p # ps) s =
     do { s \<leftarrow> ctrlStates leave sys location p (fst s) (snd s); ctrl_run leave sys location ps s }"

lemmas states_defs = states_ok_def cursor_ok_def options_ok_def slots_ok_def MAX_STATES_def MAX_POSITION_def

lemma slot_in_range: "0 \<le> n \<Longrightarrow> n < MAX_STATES \<Longrightarrow> length sts = nat MAX_STATES \<Longrightarrow> slot sts n = Some (sts ! nat n)"
  by (simp add: slot_def MAX_STATES_def)

lemma cursor_moves:
  "states_ok ui \<Longrightarrow> \<not> open_options ui \<Longrightarrow> states_ok (list_up ui) \<and> \<not> open_options (list_up ui) \<and> slots (list_up ui) = slots ui"
  "states_ok ui \<Longrightarrow> \<not> open_options ui \<Longrightarrow> states_ok (list_down ui) \<and> \<not> open_options (list_down ui) \<and> slots (list_down ui) = slots ui"
  "states_ok ui \<Longrightarrow> states_ok (option_up ui)" "states_ok ui \<Longrightarrow> states_ok (option_down ui)"
  by (auto simp: list_up_def list_down_def option_up_def option_down_def states_defs)

lemma open_menu_ok:
  assumes "states_ok ui" "slots ui = Some sts"
  shows "\<exists>ui'. open_menu ui sts = Some ui' \<and> states_ok ui'"
proof -
  have "slot sts (base_pos ui + rel_pos ui) = Some (sts ! nat (base_pos ui + rel_pos ui))"
    using assms by (intro slot_in_range) (auto simp: states_defs)
  then show ?thesis
    using assms by (simp add: open_menu_def states_defs option_entries_new_def option_entries_exist_def Let_def)
qed

lemma exit_menu_ok:
  "states_ok ui \<Longrightarrow> states_ok (fst (exit_menu leave sys ui s))"
  by (cases "slots ui") (auto simp: exit_menu_def finishStates_def states_defs case_prod_beta Let_def)

lemma choose_option_ok:
  assumes "states_ok ui" "slots ui = Some sts"
  shows "\<exists>ui' s'. choose_option leave sys location ui s = Some (ui', s') \<and> states_ok ui'"
proof -
  let ?n = "base_pos ui + rel_pos ui"
  have s: "slot sts ?n = Some (sts ! nat ?n)" "length sts = nat MAX_STATES"
    using assms by (auto intro!: slot_in_range simp: states_defs)
  obtain w1 where saved: "saveState sys location ?n (snd (snd (exit_menu leave sys ui s))) = Some w1"
    using saveState_defined [of sys location ?n "snd (snd (exit_menu leave sys ui s))"] by blast
  show ?thesis
    using assms s saved exit_menu_ok [OF assms(1), of leave sys s]
    by (cases "mode ui") (simp_all add: choose_option_def deleteState_def case_prod_beta Let_def,
        auto simp: states_defs)
qed

lemma ctrl_states_ok:
  assumes "states_ok ui"
  shows "\<exists>ui' s'. ctrlStates leave sys location p ui s = Some (ui', s') \<and> states_ok ui'"
proof (cases "slots ui")
  case None
  then show ?thesis
    using assms by (simp add: ctrlStates_def)
next
  case (Some sts)
  show ?thesis
  proof (cases "open_options ui")
    case True
    define ui1 where "ui1 = (if pad_on (released_pad p) PAD_CANCEL then ui\<lparr>open_options := False\<rparr> else ui)"
    have u1: "states_ok ui1" "slots ui1 = Some sts"
      using assms Some by (auto simp: ui1_def states_defs)
    obtain ui2 s2 where c: "(if pad_on (released_pad p) PAD_ENTER then choose_option leave sys location ui1 s else Some (ui1, s))
        = Some (ui2, s2)" "states_ok ui2"
      using choose_option_ok [OF u1, of leave sys location s] u1(1) by (cases "pad_on (released_pad p) PAD_ENTER") auto
    then show ?thesis
      using cursor_moves(3,4) Some True unfolding ctrlStates_def ui1_def [symmetric]
      by (simp add: ui1_def [symmetric] Let_def del: if_split)
  next
    case False
    define ui1 where "ui1 = (if going_up p then list_up ui else ui)"
    define ui2 where "ui2 = (if going_down p then list_down ui1 else ui1)"
    have u: "states_ok ui2" "slots ui2 = Some sts"
      using cursor_moves(1) [OF assms False] cursor_moves(2) [of ui1] assms False Some
      by (auto simp: ui1_def ui2_def)
    have "\<exists>ui3. (if pad_on (released_pad p) PAD_ENTER then open_menu ui2 sts else Some ui2) = Some ui3 \<and> states_ok ui3"
      using open_menu_ok [OF u] u(1) by simp
    then show ?thesis
      using Some False by (auto simp: ctrlStates_def Let_def ui1_def [symmetric] ui2_def [symmetric])
  qed
qed

lemma drawn_ok: "states_ok ui \<Longrightarrow> drawn_slots ui \<noteq> None"
  by (auto simp: drawn_slots_def slot_def states_defs split: option.splits)

section \<open>Properties\<close>

text \<open>
  C36: the list of save states is safe to drive. From a well-formed state every sequence of pad samples is handled
  without an access outside the 32 slots, the screenshot fills its buffer exactly, the cursor stays on a slot,
  the option cursor stays on an option of its menu, and the four slots a frame draws exist.
\<close>

theorem states_menu_safe:
  assumes "states_ok ui"
  shows "\<exists>ui' s'. ctrl_run leave sys location ps (ui, s) = Some (ui', s') \<and> states_ok ui' \<and> drawn_slots ui' \<noteq> None"
  using assms
proof (induction ps arbitrary: ui s)
  case Nil
  then show ?case
    using drawn_ok by simp
next
  case (Cons p ps)
  obtain ui1 s1 where "ctrlStates leave sys location p ui s = Some (ui1, s1)" "states_ok ui1"
    using ctrl_states_ok [OF Cons.prems, of leave sys location p s] by blast
  then show ?case
    using Cons.IH by simp
qed

definition states_sample_sys :: "path list states_sys" where
  "states_sample_sys = \<lparr>st_io = \<lparr>sceIoOpen = (\<lambda>p f m w. (1, w @ [p])), sceIoRead = (\<lambda>fd n w. (0, [], w)),
       sceIoWrite = (\<lambda>fd d w. (int (length d), w)), sceIoLseek = (\<lambda>fd n b w. (n, w)), sceIoClose = (\<lambda>fd w. (0, w)),
       sceIoGetstat = (\<lambda>p w. (0, w)), sceIoRemove = (\<lambda>p w. (0, w @ [p]))\<rparr>,
     st_mkdir = (\<lambda>p w. w), st_dopen = (\<lambda>p w. (-1, w)), st_dread = (\<lambda>d w. (0, [], w)), st_dclose = (\<lambda>d w. w),
     st_getstat = (\<lambda>p w. (0, 0, [], w)), create_texture = (\<lambda>w. (None, w)), fill_texture = (\<lambda>t d w. w),
     free_texture = (\<lambda>t w. w), malloc_ok = (\<lambda>n w. True), draw_native = (\<lambda>w. False), pops_mode = (\<lambda>w. False),
     native_pixels = (\<lambda>w n. 0), pops_pixels = (\<lambda>w n. 0), psp_pixels = (\<lambda>w n. 0), set_state_num = (\<lambda>n w. w),
     stop_usb = (\<lambda>w. w), SendAdrenalineRequest = (\<lambda>c w. w)\<rparr>"

definition empty_slot :: AdrenalineStateEntry where
  "empty_slot = \<lparr>num = -1, tex = None, title = [], st_size = 0, st_time = []\<rparr>"

definition states_sample_ui :: states_ui where
  "states_sample_ui = \<lparr>slots = Some (replicate 32 empty_slot), option_sel = 0, rel_pos = 3, base_pos = 28,
     open_options = False, load_state = False, n_options = 0, mode = OPTION_MODE_NEW\<rparr>"

definition pad_holding :: "nat \<Rightarrow> pads" where
  "pad_holding i = \<lparr>old_pad = replicate 23 0, current_pad = replicate 23 0, pressed_pad = replicate 23 0,
     released_pad = replicate 23 0, hold_pad = (replicate 23 0)[i := 1], hold2_pad = replicate 23 0,
     hold_count = replicate 23 0, hold2_count = replicate 23 0\<rparr>"

theorem states_menu_safe_witness:
  "states_ok states_sample_ui
   \<and> (\<exists>ui' s'. ctrl_run (\<lambda>s. s) states_sample_sys 0 [pad_holding PAD_DOWN, pad_holding PAD_UP] (states_sample_ui, (), []) = Some (ui', s')
        \<and> base_pos ui' = 28 \<and> rel_pos ui' = 2 \<and> drawn_slots ui' \<noteq> None)"
proof -
  have ok: "states_ok states_sample_ui"
    by (simp add: states_sample_ui_def states_defs)
  obtain ui' s' where r: "ctrl_run (\<lambda>s. s) states_sample_sys 0 [pad_holding PAD_DOWN, pad_holding PAD_UP] (states_sample_ui, (), []) = Some (ui', s')"
    "drawn_slots ui' \<noteq> None"
    using states_menu_safe [OF ok, of "\<lambda>s. s" states_sample_sys 0 "[pad_holding PAD_DOWN, pad_holding PAD_UP]" "((), [])"] by blast
  have pads: "going_down (pad_holding PAD_DOWN)" "\<not> going_up (pad_holding PAD_DOWN)"
    "going_up (pad_holding PAD_UP)" "\<not> going_down (pad_holding PAD_UP)" "\<not> pad_on (released_pad (pad_holding i)) PAD_ENTER" for i
    by (simp_all add: going_down_def going_up_def pad_on_def pad_holding_def PAD_DOWN_def PAD_UP_def PAD_LEFT_ANALOG_UP_def
        PAD_LEFT_ANALOG_DOWN_def PAD_ENTER_def)
  have "base_pos ui' = 28 \<and> rel_pos ui' = 2"
    using r(1) by (auto simp: ctrlStates_def states_sample_ui_def pads list_up_def list_down_def MAX_STATES_def MAX_POSITION_def)
  then show ?thesis
    using ok r by blast
qed

text \<open>
  Loading a state at boot moves the list to that slot. The next frame of the list reads only slots that exist
  exactly when the slot is one of the first 29; after an automatic load of one of the last three the menu reads
  behind the slots.
\<close>

theorem states_autoload_escapes:
  assumes "\<not> load_state ui" and "st_getstat sys (makeSaveStatePath location n) w = (res, sz, time, w')" and "0 \<le> res"
    and "length sts = nat MAX_STATES"
  shows "drawn_slots ((fst (autoLoadState sys location n ui w))\<lparr>slots := Some sts\<rparr>) \<noteq> None \<longleftrightarrow> 0 \<le> n \<and> n \<le> 28"
proof -
  have "base_pos (fst (autoLoadState sys location n ui w)) = n"
    using assms(1-3) by (simp add: autoLoadState_def stateExists_def Let_def)
  then show ?thesis
    using assms(4) by (auto simp: drawn_slots_def slot_def MAX_STATES_def)
qed

theorem states_autoload_escapes_witness:
  "drawn_slots ((fst (autoLoadState states_sample_sys 0 30 (states_sample_ui\<lparr>slots := None, base_pos := 0\<rparr>) []))
      \<lparr>slots := Some (replicate 32 empty_slot)\<rparr>) = None"
proof -
  let ?ui = "states_sample_ui\<lparr>slots := None, base_pos := 0\<rparr>"
  have h: "\<not> load_state ?ui" "st_getstat states_sample_sys (makeSaveStatePath 0 30) [] = (0, 0, [], [])" "(0 :: int) \<le> 0"
    "length (replicate 32 empty_slot) = nat MAX_STATES"
    by (simp_all add: states_sample_ui_def states_sample_sys_def MAX_STATES_def)
  show ?thesis
    using states_autoload_escapes [OF h] by simp
qed


end
