(* ===== verification/Reboot.thy ===== *)
theory Reboot
  imports SceIo Shared
begin

text \<open>
  What survives a reboot of the emulated PSP: \<open>overlay/cef/rebootex/main.c\<close> (the same code is in
  \<open>payloadex/main.c\<close>) answers the loader's requests for the boot configuration and for the module to insert, and
  \<open>overlay/cef/systemctrl/sysmodpatches.c\<close> fills the record they share: the boot configuration, the memory
  partitions and the reboot module; it also sets the clock, the region and the sleep timer. The record's layout
  is outside the repository: its fields are those of \<open>RebootexConfig\<close> that the code uses. The kernel's functions
  that are replaced are parameters.
\<close>

unbundle bit_operations_syntax

section \<open>The shared record\<close>

datatype BootModes = BOOT_NORMAL | BOOT_INFERNO | BOOT_MARCH33 | BOOT_NP9660 | BOOT_RECOVERY | BOOT_BOOTER

fun boot_code :: "BootModes \<Rightarrow> int" where
  "boot_code BOOT_NORMAL = 0"
| "boot_code BOOT_INFERNO = 1"
| "boot_code BOOT_MARCH33 = 2"
| "boot_code BOOT_NP9660 = 3"
| "boot_code BOOT_RECOVERY = 4"
| "boot_code BOOT_BOOTER = 5"

record RebootexConfig =
  bootfileindex :: int
  umdfilename :: "byte list"
  ram2 :: u32
  ram11 :: u32
  module_buf :: "byte list"

section \<open>The loader's requests\<close>

definition REBOOT_MODULE :: path where
  "REBOOT_MODULE = ''/rtm.prx''"

text \<open>A file request: its name (\<open>None\<close> is the null pointer), the address it is loaded to and the bytes put there.\<close>

record boot_file =
  bf_name :: "path option"
  bf_address :: u32
  bf_data :: "byte list"

definition boot_file_name :: "int \<Rightarrow> path option" where
  "boot_file_name i =
     (if i = boot_code BOOT_NORMAL then Some ''/kd/pspbtjnf.bin''
      else if i = boot_code BOOT_INFERNO then Some ''/kd/pspbtknf.bin''
      else if i = boot_code BOOT_MARCH33 then Some ''/kd/pspbtlnf.bin''
      else if i = boot_code BOOT_NP9660 then Some ''/kd/pspbtmnf.bin''
      else if i = boot_code BOOT_RECOVERY then Some ''/kd/pspbtrnf.bin''
      else if i = boot_code BOOT_BOOTER then Some ''/kd/pspbtbnf.bin''
      else None)"

definition sceKernelBootLoadFilePatched ::
  "(boot_file \<Rightarrow> 'w \<Rightarrow> boot_file \<times> 'w) \<Rightarrow> RebootexConfig \<Rightarrow> boot_file \<Rightarrow> 'w
     \<Rightarrow> (int \<times> RebootexConfig \<times> boot_file \<times> 'w) option"
where
  "sceKernelBootLoadFilePatched load cfg file w =
     (case bf_name file of
        None \<Rightarrow> None
      | Some name \<Rightarrow>
          if name = ''pspbtcnf.bin''
          then let new = boot_file_name (bootfileindex cfg);
                   cfg = (if bootfileindex cfg = boot_code BOOT_RECOVERY
                          then cfg\<lparr>bootfileindex := boot_code BOOT_NORMAL\<rparr> else cfg);
                   (file, w) = load (file\<lparr>bf_name := new\<rparr>) w
               in Some (0, cfg, file, w)
          else if name = REBOOT_MODULE
          then Some (0, cfg, file\<lparr>bf_address := 0x89000000, bf_data := module_buf cfg\<rparr>, w)
          else let (file, w) = load file w in Some (0, cfg, file, w))"

text \<open>Compressed modules that carry a gzip header at 0x150 are taken as they are; others are decrypted.\<close>

definition DecryptExecutablePatched ::
  "(byte list \<Rightarrow> int \<Rightarrow> int \<times> byte list \<times> u32) \<Rightarrow> byte list \<Rightarrow> int \<Rightarrow> (int \<times> byte list \<times> u32) option"
where
  "DecryptExecutablePatched decrypt buf len =
     (if length buf < 0x152 then None
      else if take 2 (drop 0x150 buf) = [CHR 0x1F, CHR 0x8B]
      then let n = get32 0xB0 buf
           in if length buf < 0x150 + unat n then None
              else Some (0, overlay_at 0 buf (take (unat n) (drop 0x150 buf)), n)
      else Some (decrypt buf len))"

record partition_table =
  extVshell_addr :: u32
  extVshell_size :: u32

definition SetMemoryPartitionTablePatched :: "(partition_table \<Rightarrow> partition_table) \<Rightarrow> partition_table \<Rightarrow> partition_table" where
  "SetMemoryPartitionTablePatched original table =
     (original table)\<lparr>extVshell_addr := 0x8A000000, extVshell_size := 20 * 1024 * 1024\<rparr>"

section \<open>Before the reboot\<close>

definition RunRebootPatched :: "(RebootexConfig \<Rightarrow> 'w \<Rightarrow> int \<times> 'w) \<Rightarrow> path \<Rightarrow> RebootexConfig \<Rightarrow> 'w \<Rightarrow> int \<times> RebootexConfig \<times> 'w" where
  "RunRebootPatched reboot file cfg w =
     (let cfg = (if take 7 file \<noteq> ''disc0:/''
                 then (if bootfileindex cfg \<noteq> boot_code BOOT_RECOVERY
                       then cfg\<lparr>bootfileindex := boot_code BOOT_NORMAL\<rparr> else cfg)
                      \<lparr>umdfilename := replicate 0x48 NUL\<rparr>
                 else cfg);
          (res, w) = reboot cfg w
      in (res, cfg, w))"

section \<open>Memory partitions\<close>

text \<open>A partition: its address and size, and the size word of its data. The sum of the sizes wraps at 32 bits.\<close>

record mem_partition =
  p_address :: u32
  p_size :: u32
  p_data_size :: u32

record partitions =
  user_partition :: mem_partition
  partition11 :: mem_partition

definition sctrlHENSetMemory :: "u32 \<Rightarrow> u32 \<Rightarrow> RebootexConfig \<Rightarrow> u32 \<times> RebootexConfig" where
  "sctrlHENSetMemory p2 p11 cfg =
     (if p2 = 0 then (0x80000107, cfg)
      else if 52 < p2 + p11 then (0x80000107, cfg)
      else (0, cfg\<lparr>ram2 := p2, ram11 := p11\<rparr>))"

definition partition_data :: "u32 \<Rightarrow> u32" where
  "partition_data n = push_bit 9 (drop_bit 8 n) OR 0xFC"

text \<open>\<open>found\<close> tells whether the kernel's \<open>GetPartition\<close> was found by its code.\<close>

definition ApplyMemory :: "bool \<Rightarrow> RebootexConfig \<Rightarrow> partitions \<Rightarrow> partitions" where
  "ApplyMemory found cfg ps =
     (if ram2 cfg \<noteq> 0 \<and> ram2 cfg + ram11 cfg \<le> 52 \<and> found
      then let user_size = ram2 cfg * 1024 * 1024;
               n11 = ram11 cfg * 1024 * 1024
           in ps\<lparr>user_partition := (user_partition ps)\<lparr>p_size := user_size, p_data_size := partition_data user_size\<rparr>,
                 partition11 := (partition11 ps)\<lparr>p_size := n11, p_address := 0x88800000 + user_size,
                                                 p_data_size := partition_data n11\<rparr>\<rparr>
      else ps)"

text \<open>The entries of the \<open>PARAM.SFO\<close> as names and values; the last MEMSIZE counts.\<close>

definition large_memory :: "(path \<times> byte list) list \<Rightarrow> u32" where
  "large_memory entries =
     fold (\<lambda>(name, v) acc. if name = ''MEMSIZE'' then rd32 v else acc) entries 0"

definition sceSystemFileGetIndexPatched ::
  "bool \<Rightarrow> (path \<times> byte list) list \<Rightarrow> RebootexConfig \<times> partitions \<Rightarrow> RebootexConfig \<times> partitions"
where
  "sceSystemFileGetIndexPatched found entries s =
     (let (cfg, ps) = s
      in if ram2 cfg = 0
         then if large_memory entries \<noteq> 0
              then let cfg = snd (sctrlHENSetMemory 52 0 cfg) in (cfg, ApplyMemory found cfg ps)
              else (cfg, ps)
         else (cfg\<lparr>ram2 := 0\<rparr>, ApplyMemory found cfg ps))"

text \<open>At the start of the power service: the bubble's setting, then the general one.\<close>

definition force_high_memory :: "bool \<Rightarrow> int \<Rightarrow> bool \<Rightarrow> bool" where
  "force_high_memory in_game highmemory forcehighmemory \<longleftrightarrow>
     in_game \<and> highmemory \<noteq> 2 \<and> (highmemory = 1 \<or> forcehighmemory)"

section \<open>Clock, region and timers\<close>

definition cpu_list :: "int list" where
  "cpu_list = [0, 20, 50, 75, 100, 111, 122, 133, 166, 200, 222, 266, 288, 300, 333]"

definition bus_list :: "int list" where
  "bus_list = [0, 10, 25, 37, 50, 55, 61, 66, 83, 100, 111, 133, 144, 150, 166]"

definition N_CPU :: nat where
  "N_CPU = length cpu_list"

text \<open>The clock that is set, if any, and whether the game's own calls are disabled from then on.\<close>

definition SetSpeed :: "bool \<Rightarrow> int \<Rightarrow> int \<Rightarrow> (int \<times> int \<times> bool) option" where
  "SetSpeed in_vsh cpu bus =
     (if cpu = 20 \<or> cpu = 50 \<or> cpu = 75 \<or> cpu = 100 \<or> cpu = 111 \<or> cpu = 122 \<or> cpu = 133 \<or> cpu = 166 \<or> cpu = 200
         \<or> cpu = 222 \<or> cpu = 266 \<or> cpu = 288 \<or> cpu = 300 \<or> cpu = 333
      then Some (cpu, bus, \<not> in_vsh) else None)"

text \<open>The remainder is taken of unsigned numbers.\<close>

definition speed_index :: "i32 \<Rightarrow> nat" where
  "speed_index setting = unat setting mod N_CPU"

definition idle_speed :: "bool \<Rightarrow> int \<Rightarrow> i32 \<Rightarrow> i32 \<Rightarrow> bool \<Rightarrow> (int \<times> int \<times> bool) option" where
  "idle_speed boot_from_disc adr_id bubble_speed umdisocpuspeed in_vsh =
     (if \<not> boot_from_disc then None
      else let i = (if adr_id \<noteq> 0 then speed_index umdisocpuspeed
                    else if 0 < sint bubble_speed then speed_index bubble_speed
                    else speed_index umdisocpuspeed)
           in SetSpeed in_vsh (cpu_list ! i) (bus_list ! i))"

text \<open>The region bytes; a stored byte is the low eight bits.\<close>

definition fake_region :: "int \<Rightarrow> u8 \<Rightarrow> u8" where
  "fake_region fakeregion old =
     (if fakeregion = 0 then old
      else let r = word_of_int (if fakeregion < 12 then fakeregion + 2 else fakeregion - 11) :: u8
           in if r = 2 then 3 else r)"

definition sceChkregGetPsCodePatched :: "int \<Rightarrow> u8 list \<Rightarrow> u8 list option" where
  "sceChkregGetPsCodePatched fakeregion pscode =
     (if length pscode < 8 then None
      else Some ([0x01, 0x00, fake_region fakeregion (pscode ! 2), 0x00, 0x01, 0x00, 0x01, 0x00] @ drop 8 pscode))"

definition SetIdleCallbackPatched :: "(u32 \<Rightarrow> 'w \<Rightarrow> int \<times> 'w) \<Rightarrow> u32 \<Rightarrow> 'w \<Rightarrow> int \<times> 'w" where
  "SetIdleCallbackPatched original flags w = (if flags AND 8 \<noteq> 0 then original flags w else (0, w))"

definition wait_event_cmd :: "u32 \<Rightarrow> vita_cmd option" where
  "wait_event_cmd outBits =
     (if outBits AND 1 \<noteq> 0 then Some VITA_CMD_PAUSE_POPS
      else if outBits AND 2 \<noteq> 0 then Some VITA_CMD_RESUME_POPS else None)"

text \<open>The volatile memory is tried sixteen times; a failure of the audio decoder's set-up is hidden.\<close>

fun try_lock :: "('w \<Rightarrow> int \<times> 'w) \<Rightarrow> ('w \<Rightarrow> 'w) \<Rightarrow> nat \<Rightarrow> int \<times> 'w \<Rightarrow> int \<times> 'w" where
  "try_lock lock delay 0 s = s"
| "try_lock lock delay (Suc n) s =
     (let (res, w) = lock (snd s) in if 0 \<le> res then (res, w) else try_lock lock delay n (res, delay w))"

definition sceKernelVolatileMemTryLockPatched :: "('w \<Rightarrow> int \<times> 'w) \<Rightarrow> ('w \<Rightarrow> 'w) \<Rightarrow> 'w \<Rightarrow> int \<times> 'w" where
  "sceKernelVolatileMemTryLockPatched lock delay w = try_lock lock delay 0x10 (0, w)"

definition sceMeAudio_driver_C300D466_Patched :: "int \<Rightarrow> int \<Rightarrow> int \<Rightarrow> int" where
  "sceMeAudio_driver_C300D466_Patched res codec unk = (if res < 0 \<and> codec = 0x1002 \<and> unk = 2 then 0 else res)"

section \<open>Lemmas\<close>

lemma speed_index_bound: "speed_index s < length cpu_list" "length bus_list = length cpu_list"
  by (simp_all add: speed_index_def N_CPU_def cpu_list_def bus_list_def)

lemma bus_is_half: "bus_list = map (\<lambda>c. c div 2) cpu_list"
  by (simp add: bus_list_def cpu_list_def)

lemma SetSpeed_table: "SetSpeed v cpu bus = (if cpu \<in> set (tl cpu_list) then Some (cpu, bus, \<not> v) else None)"
  by (simp add: SetSpeed_def cpu_list_def)

lemma fake_region_range:
  assumes "0 < r" "r \<le> 13"
  shows "fake_region r old \<noteq> 2 \<and> unat (fake_region r old) \<in> {1..13}"
proof -
  have "r = 1 \<or> r = 2 \<or> r = 3 \<or> r = 4 \<or> r = 5 \<or> r = 6 \<or> r = 7 \<or> r = 8 \<or> r = 9 \<or> r = 10 \<or> r = 11 \<or> r = 12 \<or> r = 13"
    using assms by presburger
  then show ?thesis
    by (elim disjE) (simp_all add: fake_region_def)
qed

lemma unat_mul_MB: "unat n \<le> 52 \<Longrightarrow> unat (n * 1024 * 1024 :: u32) = unat n * 2 ^ 20"
  by (simp add: unat_word_ariths)

lemma base_plus: "unat x \<le> 52 * 2 ^ 20 \<Longrightarrow> unat (0x88800000 + x :: u32) = 0x88800000 + unat x"
  by (simp add: unat_word_ariths)

lemma partition_data_MB: "partition_data (n * 1024 * 1024) = 2 * (n * 1024 * 1024) OR 0xFC"
proof -
  have p: "n * 1024 * 1024 = push_bit 20 n" "2 * (n * 1024 * 1024) = push_bit 1 (push_bit 20 n)"
    by (simp_all add: push_bit_eq_mult)
  have "push_bit 9 (drop_bit 8 (push_bit 20 n)) = push_bit 1 (push_bit 20 n)"
    by (rule bit_word_eqI) (auto simp: bit_simps)
  then show ?thesis
    unfolding partition_data_def p(2) unfolding p(1) by simp
qed

section \<open>Properties\<close>

text \<open>
  The memory partitions. A request is accepted exactly when the user partition is not empty and the sum of the
  sizes, modulo 2^32, is at most 52 MB, so a sum that wraps is accepted as well. A request whose true sum is at
  most 52 MB gives the user partition its size, puts partition 11 right behind it, and both end within 52 MB.
\<close>

theorem memory_partitions:
  "(fst (sctrlHENSetMemory p2 p11 cfg) = 0 \<longleftrightarrow> p2 \<noteq> 0 \<and> (unat p2 + unat p11) mod 2 ^ 32 \<le> 52)
   \<and> (if p2 \<noteq> 0 \<and> unat p2 + unat p11 \<le> 52
      then (let ps' = ApplyMemory True (snd (sctrlHENSetMemory p2 p11 cfg)) ps
            in unat (p_size (user_partition ps')) = unat p2 * 2 ^ 20 \<and> unat (p_size (partition11 ps')) = unat p11 * 2 ^ 20
               \<and> unat (p_address (partition11 ps')) = 0x88800000 + unat p2 * 2 ^ 20
               \<and> unat (p_address (partition11 ps')) + unat (p_size (partition11 ps')) \<le> 0x88800000 + 52 * 2 ^ 20
               \<and> p_data_size (user_partition ps') = 2 * p_size (user_partition ps') OR 0xFC
               \<and> p_data_size (partition11 ps') = 2 * p_size (partition11 ps') OR 0xFC)
      else True)"
proof
  show "fst (sctrlHENSetMemory p2 p11 cfg) = 0 \<longleftrightarrow> p2 \<noteq> 0 \<and> (unat p2 + unat p11) mod 2 ^ 32 \<le> 52"
    by (auto simp: sctrlHENSetMemory_def word_less_nat_alt unat_word_ariths)
next
  show "if p2 \<noteq> 0 \<and> unat p2 + unat p11 \<le> 52
      then (let ps' = ApplyMemory True (snd (sctrlHENSetMemory p2 p11 cfg)) ps
            in unat (p_size (user_partition ps')) = unat p2 * 2 ^ 20 \<and> unat (p_size (partition11 ps')) = unat p11 * 2 ^ 20
               \<and> unat (p_address (partition11 ps')) = 0x88800000 + unat p2 * 2 ^ 20
               \<and> unat (p_address (partition11 ps')) + unat (p_size (partition11 ps')) \<le> 0x88800000 + 52 * 2 ^ 20
               \<and> p_data_size (user_partition ps') = 2 * p_size (user_partition ps') OR 0xFC
               \<and> p_data_size (partition11 ps') = 2 * p_size (partition11 ps') OR 0xFC)
      else True"
  proof (cases "p2 \<noteq> 0 \<and> unat p2 + unat p11 \<le> 52")
    case True
    have sum: "unat (p2 + p11) = unat p2 + unat p11"
      using True by (simp add: unat_word_ariths)
    then have ok: "\<not> 52 < p2 + p11" "p2 + p11 \<le> 52"
      using True by (simp_all add: word_less_nat_alt word_le_nat_alt)
    have m: "unat (p2 * 1024 * 1024) = unat p2 * 2 ^ 20" "unat (p11 * 1024 * 1024) = unat p11 * 2 ^ 20"
      using True by (intro unat_mul_MB; simp)+
    have a: "unat (0x88800000 + p2 * 1024 * 1024) = 0x88800000 + unat p2 * 2 ^ 20"
      using base_plus [of "p2 * 1024 * 1024"] True unfolding m(1) by simp
    show ?thesis
      using True ok m a partition_data_MB [of p2] partition_data_MB [of p11]
      by (simp add: sctrlHENSetMemory_def ApplyMemory_def Let_def)
  next
    case False
    show ?thesis
      unfolding if_not_P [OF False] by (rule TrueI)
  qed
qed

text \<open>
  The boot configuration of a reboot. A program started from the disc keeps the configuration that was
  selected and the image's path; any other program is started in the normal configuration without an image,
  unless a recovery was requested. A recovery is done once: after the boot no request for it is left. The loader
  asks for the file of that configuration instead of its own, reports success in every case, and finds the reboot
  module at its fixed address.
\<close>

theorem reboot_boot_file:
  "(case RunRebootPatched reboot file cfg w of (res, cfg1, w1) \<Rightarrow>
     (case sceKernelBootLoadFilePatched load cfg1 (request\<lparr>bf_name := Some ''pspbtcnf.bin''\<rparr>) w1 of
        None \<Rightarrow> False
      | Some (r, cfg2, answer, w2) \<Rightarrow>
          let disc = (take 7 file = ''disc0:/''); i = bootfileindex cfg
          in (res, w1) = reboot cfg1 w \<and> r = 0
           \<and> (answer, w2) = load (request\<lparr>bf_name :=
                (if disc \<or> i = boot_code BOOT_RECOVERY then boot_file_name i else Some ''/kd/pspbtjnf.bin'')\<rparr>) w1
           \<and> bootfileindex cfg2 = (if disc \<and> i \<noteq> boot_code BOOT_RECOVERY then i else boot_code BOOT_NORMAL)
           \<and> umdfilename cfg2 = (if disc then umdfilename cfg else replicate 0x48 NUL)
           \<and> sceKernelBootLoadFilePatched load cfg2 (request\<lparr>bf_name := Some REBOOT_MODULE\<rparr>) w2
              = Some (0, cfg2, request\<lparr>bf_name := Some REBOOT_MODULE, bf_address := 0x89000000, bf_data := module_buf cfg\<rparr>, w2)))"
proof -
  have m: "sceKernelBootLoadFilePatched load c (request\<lparr>bf_name := Some REBOOT_MODULE\<rparr>) w2
      = Some (0, c, request\<lparr>bf_name := Some REBOOT_MODULE, bf_address := 0x89000000, bf_data := module_buf c\<rparr>, w2)" for c w2
    by (simp add: sceKernelBootLoadFilePatched_def REBOOT_MODULE_def)
  have b: "sceKernelBootLoadFilePatched load c (request\<lparr>bf_name := Some ''pspbtcnf.bin''\<rparr>) w1
      = (let (f, w2) = load (request\<lparr>bf_name := boot_file_name (bootfileindex c)\<rparr>) w1
         in Some (0, c\<lparr>bootfileindex := (if bootfileindex c = boot_code BOOT_RECOVERY then boot_code BOOT_NORMAL
                                        else bootfileindex c)\<rparr>, f, w2))" for c w1
    by (simp add: sceKernelBootLoadFilePatched_def Let_def split: prod.splits)
  define cfg1 where "cfg1 = fst (snd (RunRebootPatched reboot file cfg w))"
  obtain res w1 where w1: "reboot cfg1 w = (res, w1)" "RunRebootPatched reboot file cfg w = (res, cfg1, w1)"
    by (cases "reboot cfg1 w") (simp add: cfg1_def RunRebootPatched_def Let_def split: prod.splits)
  obtain answer w2 where w2: "load (request\<lparr>bf_name := boot_file_name (bootfileindex cfg1)\<rparr>) w1 = (answer, w2)"
    by (cases "load (request\<lparr>bf_name := boot_file_name (bootfileindex cfg1)\<rparr>) w1")
  have c: "cfg1 = (if take 7 file = ''disc0:/'' then cfg
      else (if bootfileindex cfg = boot_code BOOT_RECOVERY then cfg else cfg\<lparr>bootfileindex := boot_code BOOT_NORMAL\<rparr>)
             \<lparr>umdfilename := replicate 0x48 NUL\<rparr>)"
    by (simp add: cfg1_def RunRebootPatched_def Let_def split: prod.splits)
  have n: "boot_file_name 0 = Some ''/kd/pspbtjnf.bin''"
    by (simp add: boot_file_name_def)
  show ?thesis
    using w2 w1(1) [symmetric] by (cases "take 7 file = ''disc0:/''"; cases "bootfileindex cfg = boot_code BOOT_RECOVERY")
      (simp_all add: w1(2) b m Let_def n c)
qed

end
