(* ===== verification/Lz4.thy ===== *)
theory Lz4
  imports Prelude
begin

unbundle bit_operations_syntax

text \<open>
  The LZ4 block codec of \<open>overlay/user/lz4/lz4.c\<close>, as \<open>SaveState\<close> and \<open>LoadState\<close> use it:
  \<open>LZ4_compress_fast\<close> (no dictionary, one block) and \<open>LZ4_decompress_fast\<close> (end on the output size), built for
  the 32-bit little-endian processor of the console. A pointer into an object is its offset; a read or a write outside
  the object is undefined behaviour and is \<open>None\<close>. The destination is the real buffer, so the eight-byte copies that
  run over the end of what they copy, and the word writes that run over the end of a length, are in the model.
\<close>

section \<open>Memory\<close>

definition LZ4_read8 :: "byte list \<Rightarrow> nat \<Rightarrow> nat option" where
  "LZ4_read8 obj p = (if p < length obj then Some (of_char (obj ! p)) else None)"

definition LZ4_readLE16 :: "byte list \<Rightarrow> nat \<Rightarrow> nat option" where
  "LZ4_readLE16 obj p = do { bs \<leftarrow> obj_read obj p 2; Some (of_char (bs ! 0) + 256 * of_char (bs ! 1)) }"

definition LZ4_read32 :: "byte list \<Rightarrow> nat \<Rightarrow> u32 option" where
  "LZ4_read32 obj p = do { bs \<leftarrow> obj_read obj p 4; Some (rd32 bs) }"

definition lz4_le16 :: "nat \<Rightarrow> byte list" where
  "lz4_le16 v = [char_of v, char_of (v div 256)]"

definition LZ4_memcpy :: "byte list \<Rightarrow> nat \<Rightarrow> nat \<Rightarrow> nat \<Rightarrow> byte list option" where
  "LZ4_memcpy dst d s k = do { bs \<leftarrow> obj_read dst s k; obj_write dst d bs }"

text \<open>\<open>rd\<close> is where the copy reads: another object, or the buffer it writes.\<close>

function LZ4_wildCopy :: "(byte list \<Rightarrow> nat \<Rightarrow> byte list option) \<Rightarrow> byte list \<Rightarrow> nat \<Rightarrow> nat \<Rightarrow> nat \<Rightarrow> byte list option" where
  "LZ4_wildCopy rd dst d s e = do {
     bs \<leftarrow> rd dst s;
     dst \<leftarrow> obj_write dst d bs;
     if d + 8 < e then LZ4_wildCopy rd dst (d + 8) (s + 8) e else Some dst }"
  by pat_completeness auto
termination by (relation "measure (\<lambda>(rd, dst, d, s, e). e - d)") auto

section \<open>Constants\<close>

definition LASTLITERALS :: nat where "LASTLITERALS = 5"
definition MINMATCH :: nat where "MINMATCH = 4"
definition WILDCOPYLENGTH :: nat where "WILDCOPYLENGTH = 8"
definition MFLIMIT :: nat where "MFLIMIT = WILDCOPYLENGTH + MINMATCH"
definition LZ4_minLength :: nat where "LZ4_minLength = MFLIMIT + 1"
definition MAX_DISTANCE :: nat where "MAX_DISTANCE = 2 ^ 16 - 1"
definition ML_BITS :: nat where "ML_BITS = 4"
definition ML_MASK :: nat where "ML_MASK = 2 ^ ML_BITS - 1"
definition RUN_MASK :: nat where "RUN_MASK = 2 ^ (8 - ML_BITS) - 1"
definition LZ4_64Klimit :: nat where "LZ4_64Klimit = 64 * 1024 + (MFLIMIT - 1)"
definition LZ4_skipTrigger :: nat where "LZ4_skipTrigger = 6"
definition LZ4_HASHLOG :: nat where "LZ4_HASHLOG = 14 - 2"
definition LZ4_MAX_INPUT_SIZE :: nat where "LZ4_MAX_INPUT_SIZE = 0x7E000000"

lemmas lz4_consts = LASTLITERALS_def MINMATCH_def WILDCOPYLENGTH_def MFLIMIT_def LZ4_minLength_def MAX_DISTANCE_def
  ML_BITS_def ML_MASK_def RUN_MASK_def LZ4_64Klimit_def LZ4_skipTrigger_def LZ4_HASHLOG_def LZ4_MAX_INPUT_SIZE_def

definition LZ4_compressBound :: "nat \<Rightarrow> nat" where
  "LZ4_compressBound n = (if LZ4_MAX_INPUT_SIZE < n then 0 else n + n div 255 + 16)"

section \<open>Comparing\<close>

text \<open>The number of trailing zero bits of a word that is not zero, the compiler's builtin.\<close>

definition ctz32 :: "u32 \<Rightarrow> nat" where
  "ctz32 v = length (takeWhile (\<lambda>i. \<not> bit v i) [0..<32])"

definition LZ4_NbCommonBytes :: "u32 \<Rightarrow> nat" where
  "LZ4_NbCommonBytes v = ctz32 v div 8"

function LZ4_count_words :: "byte list \<Rightarrow> nat \<Rightarrow> nat \<Rightarrow> nat \<Rightarrow> (nat \<times> nat \<times> bool) option" where
  "LZ4_count_words src pin pm lim =
     (if pin + 3 < lim then do {
        a \<leftarrow> LZ4_read32 src pm;
        b \<leftarrow> LZ4_read32 src pin;
        if a XOR b = 0 then LZ4_count_words src (pin + 4) (pm + 4) lim
        else Some (pin + LZ4_NbCommonBytes (a XOR b), pm, True) }
      else Some (pin, pm, False))"
  by pat_completeness auto
termination by (relation "measure (\<lambda>(src, pin, pm, lim). lim - pin)") auto

definition LZ4_count :: "byte list \<Rightarrow> nat \<Rightarrow> nat \<Rightarrow> nat \<Rightarrow> nat option" where
  "LZ4_count src start pm lim = do {
     (pin, pm, stop) \<leftarrow> LZ4_count_words src start pm lim;
     if stop then Some (pin - start)
     else do {
       (pin, pm) \<leftarrow> (if pin + 1 < lim then do {
            a \<leftarrow> obj_read src pm 2; b \<leftarrow> obj_read src pin 2;
            Some (if a = b then (pin + 2, pm + 2) else (pin, pm)) } else Some (pin, pm));
       pin \<leftarrow> (if pin < lim then do {
            a \<leftarrow> LZ4_read8 src pm; b \<leftarrow> LZ4_read8 src pin;
            Some (if a = b then pin + 1 else pin) } else Some pin);
       Some (pin - start) } }"

section \<open>The table of positions\<close>

datatype tableType_t = clearedTable | byPtr | byU32 | byU16

text \<open>An entry of a table of pointers that was never set is the null pointer, far from every position: \<open>None\<close>.\<close>

type_synonym lz4_table = "nat \<Rightarrow> nat option"

definition LZ4_empty_table :: "tableType_t \<Rightarrow> lz4_table" where
  "LZ4_empty_table tt = (\<lambda>h. if tt = byPtr then None else Some 0)"

definition LZ4_hash4 :: "u32 \<Rightarrow> tableType_t \<Rightarrow> nat" where
  "LZ4_hash4 v tt =
     unat (drop_bit (MINMATCH * 8 - (if tt = byU16 then LZ4_HASHLOG + 1 else LZ4_HASHLOG)) (v * 2654435761))"

definition LZ4_hashPosition :: "tableType_t \<Rightarrow> byte list \<Rightarrow> nat \<Rightarrow> nat option" where
  "LZ4_hashPosition tt src p = do { v \<leftarrow> LZ4_read32 src p; Some (LZ4_hash4 v tt) }"

definition LZ4_putPositionOnHash :: "tableType_t \<Rightarrow> nat \<Rightarrow> nat \<Rightarrow> lz4_table \<Rightarrow> lz4_table" where
  "LZ4_putPositionOnHash tt p h tab =
     (case tt of clearedTable \<Rightarrow> tab
      | byPtr \<Rightarrow> tab(h \<mapsto> p)
      | byU32 \<Rightarrow> tab(h \<mapsto> p mod 2 ^ 32)
      | byU16 \<Rightarrow> tab(h \<mapsto> p mod 2 ^ 16))"

definition LZ4_putPosition :: "tableType_t \<Rightarrow> byte list \<Rightarrow> nat \<Rightarrow> lz4_table \<Rightarrow> lz4_table option" where
  "LZ4_putPosition tt src p tab = do { h \<leftarrow> LZ4_hashPosition tt src p; Some (LZ4_putPositionOnHash tt p h tab) }"

definition LZ4_getPosition :: "tableType_t \<Rightarrow> byte list \<Rightarrow> nat \<Rightarrow> lz4_table \<Rightarrow> nat option option" where
  "LZ4_getPosition tt src p tab = do { h \<leftarrow> LZ4_hashPosition tt src p; Some (tab h) }"

text \<open>Whether a candidate is a match: near enough, where the table does not ensure it, and the same four bytes.\<close>

definition LZ4_is_match :: "bool \<Rightarrow> byte list \<Rightarrow> nat option \<Rightarrow> nat \<Rightarrow> bool option" where
  "LZ4_is_match near src cand ip =
     (case cand of None \<Rightarrow> Some False
      | Some m \<Rightarrow> if \<not> near \<and> m + MAX_DISTANCE < ip then Some False
          else do { a \<leftarrow> LZ4_read32 src m; b \<leftarrow> LZ4_read32 src ip; Some (a = b) })"

section \<open>The compressor\<close>

text \<open>Find a match: \<open>None\<close> of the inner option is the jump to the last literals.\<close>

function LZ4_search ::
  "byte list \<Rightarrow> tableType_t \<Rightarrow> nat \<Rightarrow> nat \<Rightarrow> nat \<Rightarrow> u32 \<Rightarrow> nat \<Rightarrow> lz4_table \<Rightarrow> (nat \<times> nat \<times> lz4_table) option option"
where
  "LZ4_search src tt mfl ip step nb h tab =
     (let fwd = ip + step in
      if mfl < fwd then Some None
      else do {
        let cand = tab h;
        h' \<leftarrow> LZ4_hashPosition tt src fwd;
        let tab = LZ4_putPositionOnHash tt ip h tab;
        ok \<leftarrow> LZ4_is_match (tt = byU16) src cand ip;
        if ok then Some (Some (ip, the cand, tab))
        else LZ4_search src tt mfl fwd (unat (drop_bit LZ4_skipTrigger nb)) (nb + 1) h' tab })"
  by pat_completeness auto

text \<open>
  The counter of attempts is 32 bits wide: an acceleration of \<open>2 ^ 26\<close> or more wraps its start, and the first steps may
  be of length 0; the search still ends, since the counter grows until the steps do.
\<close>

lemma skip_counter:
  assumes "unat (drop_bit LZ4_skipTrigger (nb :: u32)) = 0"
  shows "unat nb < 64" and "unat (nb + 1) = unat nb + 1"
proof -
  have "unat nb div 64 = 0"
    using assms by (simp add: LZ4_skipTrigger_def unat_drop_bit_eq drop_bit_eq_div unat_div)
  then show u: "unat nb < 64"
    by (simp add: div_eq_0_iff)
  show "unat (nb + 1) = unat nb + 1"
    using u by (simp add: unat_word_ariths)
qed

termination LZ4_search
proof (relation "measures [\<lambda>(src, tt, mfl, ip, step, nb, h, tab). mfl + 1 - ip,
    \<lambda>(src, tt, mfl, ip, step, nb, h, tab). if 0 < step then 0 else if unat nb < 64 then 65 - unat nb else 1]", simp)
  fix src tt mfl ip step and nb :: u32 and h tab fwd h' tab' ok
  assume a: "(fwd :: nat) = ip + step" "\<not> mfl < fwd"
  show "((src, tt, mfl, fwd, unat (drop_bit LZ4_skipTrigger nb), nb + 1, h', tab'), src, tt, mfl, ip, step, nb, h, tab)
    \<in> measures [\<lambda>(src, tt, mfl, ip, step, nb, h, tab). mfl + 1 - ip,
      \<lambda>(src, tt, mfl, ip, step, nb, h, tab). if 0 < step then 0 else if unat nb < 64 then 65 - unat nb else 1]"
    using a skip_counter [of nb] by (cases "unat (drop_bit LZ4_skipTrigger nb) = 0") auto
qed

fun LZ4_catch_up :: "byte list \<Rightarrow> nat \<Rightarrow> nat \<Rightarrow> nat \<Rightarrow> (nat \<times> nat) option" where
  "LZ4_catch_up src anchor ip m =
     (if anchor < ip \<and> 0 < m then do {
        a \<leftarrow> LZ4_read8 src (ip - 1);
        b \<leftarrow> LZ4_read8 src (m - 1);
        if a = b then LZ4_catch_up src anchor (ip - 1) (m - 1) else Some (ip, m) }
      else Some (ip, m))"

fun LZ4_put_run :: "nat \<Rightarrow> nat \<Rightarrow> byte list \<Rightarrow> (nat \<times> byte list) option" where
  "LZ4_put_run len op dst =
     (if 255 \<le> len then do { dst \<leftarrow> obj_write dst op [CHR 0xFF]; LZ4_put_run (len - 255) (op + 1) dst }
      else do { dst \<leftarrow> obj_write dst op [char_of len]; Some (op + 1, dst) })"

text \<open>
  \<open>Inl dst\<close> is \<open>return 0\<close> with what the destination holds then; \<open>olimit\<close> is \<open>None\<close> when the output is not limited.
\<close>

definition LZ4_exceeds :: "nat option \<Rightarrow> nat \<Rightarrow> bool" where
  "LZ4_exceeds olimit p = (case olimit of None \<Rightarrow> False | Some l \<Rightarrow> l < p)"

definition LZ4_put_length :: "nat \<Rightarrow> nat \<Rightarrow> byte list \<Rightarrow> (nat \<times> byte list) option" where
  "LZ4_put_length lits token dst =
     (if RUN_MASK \<le> lits
      then do { dst \<leftarrow> obj_write dst token [char_of (RUN_MASK * 2 ^ ML_BITS)]; LZ4_put_run (lits - RUN_MASK) (token + 1) dst }
      else do { dst \<leftarrow> obj_write dst token [char_of (lits * 2 ^ ML_BITS)]; Some (token + 1, dst) })"

definition LZ4_put_literals ::
  "nat option \<Rightarrow> byte list \<Rightarrow> nat \<Rightarrow> nat \<Rightarrow> nat \<Rightarrow> byte list \<Rightarrow> (byte list + nat \<times> nat \<times> byte list) option"
where
  "LZ4_put_literals olimit src anchor ip op dst =
     (let lits = ip - anchor; token = op; op = op + 1 in
      if LZ4_exceeds olimit (op + lits + (2 + 1 + LASTLITERALS) + lits div 255) then Some (Inl dst)
      else do {
        (op, dst) \<leftarrow> LZ4_put_length lits token dst;
        dst \<leftarrow> LZ4_wildCopy (\<lambda>_ s. obj_read src s 8) dst op anchor (op + lits);
        Some (Inr (token, op + lits, dst)) })"

fun LZ4_put_words :: "nat \<Rightarrow> nat \<Rightarrow> byte list \<Rightarrow> (nat \<times> nat \<times> byte list) option" where
  "LZ4_put_words code op dst =
     (if 4 * 255 \<le> code then do {
        dst \<leftarrow> obj_write dst (op + 4) (replicate 4 (CHR 0xFF));
        LZ4_put_words (code - 4 * 255) (op + 4) dst }
      else Some (code, op, dst))"

definition LZ4_add_token :: "byte list \<Rightarrow> nat \<Rightarrow> nat \<Rightarrow> byte list option" where
  "LZ4_add_token dst token v = do { t \<leftarrow> LZ4_read8 dst token; obj_write dst token [char_of (t + v)] }"

definition LZ4_put_code :: "nat \<Rightarrow> nat \<Rightarrow> nat \<Rightarrow> byte list \<Rightarrow> (nat \<times> byte list) option" where
  "LZ4_put_code code token op dst =
     (if ML_MASK \<le> code then do {
        dst \<leftarrow> LZ4_add_token dst token ML_MASK;
        let code = code - ML_MASK;
        dst \<leftarrow> obj_write dst op (replicate 4 (CHR 0xFF));
        (code, op, dst) \<leftarrow> LZ4_put_words code op dst;
        let op = op + code div 255;
        dst \<leftarrow> obj_write dst op [char_of (code mod 255)];
        Some (op + 1, dst) }
      else do {
        dst \<leftarrow> LZ4_add_token dst token code;
        Some (op, dst) })"

text \<open>Encode the offset and the match length of a match at \<open>ip\<close> with \<open>m\<close>: the new \<open>ip\<close> and \<open>op\<close>.\<close>

definition LZ4_put_match ::
  "nat option \<Rightarrow> byte list \<Rightarrow> nat \<Rightarrow> nat \<Rightarrow> nat \<Rightarrow> nat \<Rightarrow> byte list \<Rightarrow> (byte list + nat \<times> nat \<times> byte list) option"
where
  "LZ4_put_match olimit src ip m token op dst = do {
     dst \<leftarrow> obj_write dst op (lz4_le16 (ip - m));
     let op = op + 2;
     code \<leftarrow> LZ4_count src (ip + MINMATCH) (m + MINMATCH) (length src - LASTLITERALS);
     let ip = ip + MINMATCH + code;
     if LZ4_exceeds olimit (op + (1 + LASTLITERALS) + code div 2 ^ 8) then Some (Inl dst)
     else do {
       (op, dst) \<leftarrow> LZ4_put_code code token op dst;
       Some (Inr (ip, op, dst)) } }"

text \<open>
  The state between two sequences: \<open>pending\<close> is the match that was found right at the anchor, which jumps to
  \<open>_next_match\<close>; without one the search starts at the next position.
\<close>

record lz4_cstate =
  c_anchor :: nat
  c_op :: nat
  c_dst :: "byte list"
  c_tab :: lz4_table
  c_pending :: "nat option"

datatype lz4_next = Fail "byte list" | Last lz4_cstate | More lz4_cstate

definition LZ4_begin ::
  "nat option \<Rightarrow> u32 \<Rightarrow> byte list \<Rightarrow> tableType_t \<Rightarrow> lz4_cstate \<Rightarrow> (lz4_next + nat \<times> nat \<times> nat \<times> lz4_cstate) option"
where
  "LZ4_begin olimit acc src tt st =
     (case c_pending st of
        Some m \<Rightarrow> do {
          dst \<leftarrow> obj_write (c_dst st) (c_op st) [NUL];
          Some (Inr (c_anchor st, m, c_op st, st\<lparr>c_dst := dst, c_op := c_op st + 1\<rparr>)) }
      | None \<Rightarrow> do {
          let start = c_anchor st + 1;
          h \<leftarrow> LZ4_hashPosition tt src start;
          found \<leftarrow> LZ4_search src tt (length src - MFLIMIT + 1) start 1 (push_bit LZ4_skipTrigger acc) h (c_tab st);
          case found of None \<Rightarrow> Some (Inl (Last st))
          | Some (ip, m, tab) \<Rightarrow> do {
              (ip, m) \<leftarrow> LZ4_catch_up src (c_anchor st) ip m;
              put \<leftarrow> LZ4_put_literals olimit src (c_anchor st) ip (c_op st) (c_dst st);
              Some (case put of Inl dst \<Rightarrow> Inl (Fail dst)
                | Inr (token, op, dst) \<Rightarrow> Inr (ip, m, token, st\<lparr>c_op := op, c_dst := dst, c_tab := tab\<rparr>)) } })"

definition LZ4_finish_match ::
  "byte list \<Rightarrow> tableType_t \<Rightarrow> lz4_cstate \<Rightarrow> nat \<Rightarrow> lz4_next option"
where
  "LZ4_finish_match src tt st ip =
     (if length src - MFLIMIT + 1 \<le> ip then Some (Last (st\<lparr>c_anchor := ip, c_pending := None\<rparr>))
      else do {
        tab \<leftarrow> LZ4_putPosition tt src (ip - 2) (c_tab st);
        cand \<leftarrow> LZ4_getPosition tt src ip tab;
        tab \<leftarrow> LZ4_putPosition tt src ip tab;
        ok \<leftarrow> LZ4_is_match False src cand ip;
        Some (More (st\<lparr>c_anchor := ip, c_tab := tab, c_pending := (if ok then cand else None)\<rparr>)) })"

definition LZ4_sequence :: "nat option \<Rightarrow> u32 \<Rightarrow> byte list \<Rightarrow> tableType_t \<Rightarrow> lz4_cstate \<Rightarrow> lz4_next option" where
  "LZ4_sequence olimit acc src tt st = do {
     b \<leftarrow> LZ4_begin olimit acc src tt st;
     case b of Inl r \<Rightarrow> Some r
     | Inr (ip, m, token, st) \<Rightarrow> do {
         put \<leftarrow> LZ4_put_match olimit src ip m token (c_op st) (c_dst st);
         case put of Inl dst \<Rightarrow> Some (Fail dst)
         | Inr (ip, op, dst) \<Rightarrow> LZ4_finish_match src tt (st\<lparr>c_op := op, c_dst := dst\<rparr>) ip } }"


declare LZ4_wildCopy.simps [simp del] LZ4_count_words.simps [simp del] LZ4_search.simps [simp del]
  LZ4_catch_up.simps [simp del] LZ4_put_run.simps [simp del] LZ4_put_words.simps [simp del]

lemma LZ4_search_ge: "LZ4_search src tt mfl ip step nb h tab = Some (Some (ip', m, tab')) \<Longrightarrow> ip \<le> ip'"
proof (induction src tt mfl ip step nb h tab rule: LZ4_search.induct)
  case (1 src tt mfl ip step nb h tab)
  have e: "\<not> mfl < ip + step"
    using "1.prems" by (auto simp: LZ4_search.simps Let_def)
  obtain h' ok where h: "LZ4_hashPosition tt src (ip + step) = Some h'" "LZ4_is_match (tt = byU16) src (tab h) ip = Some ok"
    using "1.prems" e by (subst (asm) LZ4_search.simps) (auto simp: Let_def split: Option.bind_splits)
  show ?case
  proof (cases ok)
    case True
    then show ?thesis
      using "1.prems" e h by (subst (asm) LZ4_search.simps) simp
  next
    case False
    then have "LZ4_search src tt mfl (ip + step) (unat (drop_bit LZ4_skipTrigger nb)) (nb + 1) h'
        (LZ4_putPositionOnHash tt ip h tab) = Some (Some (ip', m, tab'))"
      using "1.prems" e h by (subst (asm) LZ4_search.simps) simp
    from "1.IH" [OF refl e refl h(1) refl h(2) False this] show ?thesis
      by simp
  qed
qed

lemma LZ4_catch_up_ge: "LZ4_catch_up src anchor ip m = Some (ip', m') \<Longrightarrow> anchor \<le> ip \<Longrightarrow> anchor \<le> ip'"
proof (induction src anchor ip m rule: LZ4_catch_up.induct)
  case (1 src anchor ip m)
  show ?case
    using "1.prems"(1) [unfolded LZ4_catch_up.simps [of src anchor ip m]] "1.prems"(2) "1.IH"
    by (force split: if_splits Option.bind_splits)
qed

lemma LZ4_begin_cases:
  assumes "LZ4_begin olimit acc src tt st = Some b" "c_pending st = None"
  obtains (none) h where "LZ4_hashPosition tt src (c_anchor st + 1) = Some h"
      "LZ4_search src tt (length src - MFLIMIT + 1) (c_anchor st + 1) 1 (push_bit LZ4_skipTrigger acc) h (c_tab st) = Some None"
      "b = Inl (Last st)"
  | (full) dst where "b = Inl (Fail dst)"
  | (found) h ip0 m0 tab ip m token op dst where "LZ4_hashPosition tt src (c_anchor st + 1) = Some h"
      "LZ4_search src tt (length src - MFLIMIT + 1) (c_anchor st + 1) 1 (push_bit LZ4_skipTrigger acc) h (c_tab st)
        = Some (Some (ip0, m0, tab))"
      "LZ4_catch_up src (c_anchor st) ip0 m0 = Some (ip, m)"
      "LZ4_put_literals olimit src (c_anchor st) ip (c_op st) (c_dst st) = Some (Inr (token, op, dst))"
      "b = Inr (ip, m, token, st\<lparr>c_op := op, c_dst := dst, c_tab := tab\<rparr>)"
proof -
  obtain h where h: "LZ4_hashPosition tt src (c_anchor st + 1) = Some h"
    using assms by (auto simp: LZ4_begin_def Let_def split: Option.bind_splits)
  obtain found where f: "LZ4_search src tt (length src - MFLIMIT + 1) (c_anchor st + 1) 1 (push_bit LZ4_skipTrigger acc) h (c_tab st)
      = Some found"
    using assms h by (auto simp: LZ4_begin_def Let_def split: Option.bind_splits)
  show thesis
  proof (cases found)
    case None
    then show thesis
      using assms h f none by (simp add: LZ4_begin_def Let_def)
  next
    case (Some q)
    obtain ip0 m0 tab where q: "q = (ip0, m0, tab)"
      by (metis prod_cases3)
    obtain ip1 m1 where c: "LZ4_catch_up src (c_anchor st) ip0 m0 = Some (ip1, m1)"
      using assms h f q Some by (auto simp: LZ4_begin_def Let_def split: Option.bind_splits)
    obtain put where p: "LZ4_put_literals olimit src (c_anchor st) ip1 (c_op st) (c_dst st) = Some put"
      using assms h f q Some c by (auto simp: LZ4_begin_def Let_def split: Option.bind_splits)
    show thesis
    proof (cases put)
      case (Inl d)
      then show thesis
        using assms h f q Some c p full [of d] by (simp add: LZ4_begin_def Let_def)
    next
      case (Inr t)
      obtain token op dst where "t = (token, op, dst)"
        by (metis prod_cases3)
      then show thesis
        using assms h f q Some c p Inr found by (simp add: LZ4_begin_def Let_def)
    qed
  qed
qed

lemma LZ4_begin_ge:
  assumes "LZ4_begin olimit acc src tt st = Some (Inr (ip, m, token, st'))"
  shows "c_anchor st \<le> ip"
proof (cases "c_pending st")
  case None
  from assms None show ?thesis
  proof (cases rule: LZ4_begin_cases)
    case (found h ip0 m0 tab ip1 m1 token op dst)
    then show ?thesis
      using LZ4_catch_up_ge [OF found(3)] LZ4_search_ge [OF found(2)] by simp
  qed simp_all
next
  case (Some m)
  then show ?thesis
    using assms by (auto simp: LZ4_begin_def split: Option.bind_splits)
qed

lemma LZ4_put_match_ge:
  assumes "LZ4_put_match olimit src ip m token op dst = Some (Inr (ip', op', dst'))"
  shows "ip + 4 \<le> ip'"
  using assms by (auto simp: LZ4_put_match_def Let_def MINMATCH_def split: Option.bind_splits if_splits)

lemma LZ4_finish_match_anchor:
  assumes "LZ4_finish_match src tt st ip = Some (More st')"
  shows "c_anchor st' = ip" "ip < length src - MFLIMIT + 1"
  using assms by (auto simp: LZ4_finish_match_def split: Option.bind_splits if_splits)

lemma LZ4_sequence_cases:
  assumes "LZ4_sequence olimit acc src tt st = Some r"
  obtains (stop) "LZ4_begin olimit acc src tt st = Some (Inl r)"
  | (full) dst where "r = Fail dst"
  | (match) ip m token st1 ip' op dst where "LZ4_begin olimit acc src tt st = Some (Inr (ip, m, token, st1))"
      "LZ4_put_match olimit src ip m token (c_op st1) (c_dst st1) = Some (Inr (ip', op, dst))"
      "LZ4_finish_match src tt (st1\<lparr>c_op := op, c_dst := dst\<rparr>) ip' = Some r"
proof -
  obtain b where b: "LZ4_begin olimit acc src tt st = Some b"
    using assms by (auto simp: LZ4_sequence_def split: Option.bind_splits)
  show thesis
  proof (cases b)
    case (Inl r0)
    then show thesis
      using assms b stop by (simp add: LZ4_sequence_def)
  next
    case (Inr q)
    obtain ip m token st1 where q: "q = (ip, m, token, st1)"
      by (metis prod_cases3 surj_pair)
    obtain put where put: "LZ4_put_match olimit src ip m token (c_op st1) (c_dst st1) = Some put"
      using assms b q Inr by (auto simp: LZ4_sequence_def split: Option.bind_splits)
    show thesis
    proof (cases put)
      case (Inl d)
      then show thesis
        using assms b q Inr put full [of d] by (simp add: LZ4_sequence_def)
    next
      case (Inr t)
      obtain ip' op dst where "t = (ip', op, dst)"
        by (metis prod_cases3)
      then show thesis
        using assms b q \<open>b = Inr q\<close> put Inr match by (simp add: LZ4_sequence_def)
    qed
  qed
qed

lemma LZ4_begin_stops: "LZ4_begin olimit acc src tt st = Some (Inl r) \<Longrightarrow> r = Last st \<or> (\<exists>dst. r = Fail dst)"
proof (cases "c_pending st")
  case None
  assume "LZ4_begin olimit acc src tt st = Some (Inl r)"
  from this None show ?thesis
    by (cases rule: LZ4_begin_cases) simp_all
qed (auto simp: LZ4_begin_def split: Option.bind_splits)

lemma LZ4_sequence_progress:
  assumes "LZ4_sequence olimit acc src tt st = Some (More st')"
  shows "c_anchor st < c_anchor st' \<and> c_anchor st' < length src - MFLIMIT + 1"
  using assms
proof (cases rule: LZ4_sequence_cases)
  case stop
  then show ?thesis
    using LZ4_begin_stops by fastforce
next
  case (match ip m token st1 ip' op dst)
  then show ?thesis
    using LZ4_begin_ge [OF match(1)] LZ4_put_match_ge [OF match(2)] LZ4_finish_match_anchor [OF match(3)] by simp
qed simp

function LZ4_sequences :: "nat option \<Rightarrow> u32 \<Rightarrow> byte list \<Rightarrow> tableType_t \<Rightarrow> lz4_cstate \<Rightarrow> (byte list + lz4_cstate) option" where
  "LZ4_sequences olimit acc src tt st =
     (case LZ4_sequence olimit acc src tt st of
        None \<Rightarrow> None
      | Some (Fail dst) \<Rightarrow> Some (Inl dst)
      | Some (Last st') \<Rightarrow> Some (Inr st')
      | Some (More st') \<Rightarrow> LZ4_sequences olimit acc src tt st')"
  by pat_completeness auto
termination
proof (relation "measure (\<lambda>(olimit, acc, src, tt, st). length src - MFLIMIT + 1 - c_anchor st)", simp)
  fix olimit acc src tt st q st'
  assume "LZ4_sequence olimit acc src tt st = Some q" "q = More st'"
  then show "((olimit, acc, src, tt, st'), olimit, acc, src, tt, st)
      \<in> measure (\<lambda>(olimit, acc, src, tt, st). length src - MFLIMIT + 1 - c_anchor st)"
    using LZ4_sequence_progress [of olimit acc src tt st st'] by (simp add: diff_less_mono2)
qed

declare LZ4_sequences.simps [simp del]

definition LZ4_last_literals ::
  "nat option \<Rightarrow> byte list \<Rightarrow> nat \<Rightarrow> nat \<Rightarrow> byte list \<Rightarrow> (byte list + nat \<times> byte list) option"
where
  "LZ4_last_literals olimit src anchor op dst =
     (let lastRun = length src - anchor in
      if LZ4_exceeds olimit (op + lastRun + 1 + (lastRun + 255 - RUN_MASK) div 255) then Some (Inl dst)
      else do {
        (op, dst) \<leftarrow> LZ4_put_length lastRun op dst;
        lits \<leftarrow> obj_read src anchor lastRun;
        dst \<leftarrow> obj_write dst op lits;
        Some (Inr (op + lastRun, dst)) })"

text \<open>The number of bytes written, or 0, and the destination.\<close>

definition LZ4_compress_generic ::
  "byte list \<Rightarrow> byte list \<Rightarrow> nat option \<Rightarrow> tableType_t \<Rightarrow> u32 \<Rightarrow> (nat \<times> byte list) option"
where
  "LZ4_compress_generic src dst olimit tt acc =
     (if LZ4_MAX_INPUT_SIZE < length src then Some (0, dst)
      else if tt = byU16 \<and> LZ4_64Klimit \<le> length src then Some (0, dst)
      else do {
        let st = \<lparr>c_anchor = 0, c_op = 0, c_dst = dst, c_tab = LZ4_empty_table tt, c_pending = None\<rparr>;
        last \<leftarrow> (if length src < LZ4_minLength then Some (Inr st)
           else do {
             tab \<leftarrow> LZ4_putPosition tt src 0 (c_tab st);
             LZ4_sequences olimit acc src tt (st\<lparr>c_tab := tab\<rparr>) });
        case last of Inl dst \<Rightarrow> Some (0, dst)
        | Inr st \<Rightarrow> do {
            put \<leftarrow> LZ4_last_literals olimit src (c_anchor st) (c_op st) (c_dst st);
            Some (case put of Inl dst \<Rightarrow> (0, dst) | Inr (op, dst) \<Rightarrow> (op, dst)) } })"

definition sizeof_ptr :: nat where
  "sizeof_ptr = 4"

definition ACCELERATION_DEFAULT :: int where
  "ACCELERATION_DEFAULT = 1"

definition LZ4_compress_fast_extState ::
  "byte list \<Rightarrow> byte list \<Rightarrow> nat \<Rightarrow> int \<Rightarrow> (nat \<times> byte list) option"
where
  "LZ4_compress_fast_extState src dst maxOutputSize acceleration =
     (let acc = word_of_int (if acceleration < 1 then ACCELERATION_DEFAULT else acceleration);
          olimit = (if LZ4_compressBound (length src) \<le> maxOutputSize then None else Some maxOutputSize);
          tt = (if length src < LZ4_64Klimit then byU16 else if sizeof_ptr = 8 then byU32 else byPtr)
      in LZ4_compress_generic src dst olimit tt acc)"

definition LZ4_compress_fast :: "byte list \<Rightarrow> byte list \<Rightarrow> nat \<Rightarrow> int \<Rightarrow> (nat \<times> byte list) option" where
  "LZ4_compress_fast src dst maxOutputSize acceleration = LZ4_compress_fast_extState src dst maxOutputSize acceleration"

section \<open>The decompressor\<close>

text \<open>A length that goes on over several bytes, literal run and match alike.\<close>

function LZ4_read_run :: "byte list \<Rightarrow> nat \<Rightarrow> nat \<Rightarrow> (nat \<times> nat) option" where
  "LZ4_read_run src ip len = (case LZ4_read8 src ip of None \<Rightarrow> None
     | Some s \<Rightarrow> if s = 255 then LZ4_read_run src (ip + 1) (len + s) else Some (ip + 1, len + s))"
  by pat_completeness auto
termination
  by (relation "measure (\<lambda>(src, ip, len). length src - ip)") (auto simp: LZ4_read8_def split: if_splits)

declare LZ4_read_run.simps [simp del]

definition inc32table :: "nat list" where
  "inc32table = [0, 1, 2, 1, 0, 4, 4, 4]"

definition dec64table :: "int list" where
  "dec64table = [0, 0, 0, -1, -4, 1, 2, 3]"

fun LZ4_copy_bytes :: "byte list \<Rightarrow> nat \<Rightarrow> nat \<Rightarrow> nat \<Rightarrow> byte list option" where
  "LZ4_copy_bytes dst d s 0 = Some dst"
| "LZ4_copy_bytes dst d s (Suc k) = do { dst \<leftarrow> LZ4_memcpy dst d s 1; LZ4_copy_bytes dst (d + 1) (s + 1) k }"

text \<open>
  Copy a match within the block: the first eight bytes, by tables where source and destination overlap, and the rest
  by words, byte by byte close to the end. The result is \<open>None\<close> inside when the last literals would be overwritten.
\<close>

definition LZ4_copy_start :: "byte list \<Rightarrow> nat \<Rightarrow> nat \<Rightarrow> nat \<Rightarrow> (byte list \<times> nat) option" where
  "LZ4_copy_start dst op m off =
     (if off < 8 then do {
        dst \<leftarrow> LZ4_copy_bytes dst op m 4;
        let m = m + inc32table ! off;
        dst \<leftarrow> LZ4_memcpy dst (op + 4) m 4;
        Some (dst, nat (int m - dec64table ! off)) }
      else do { dst \<leftarrow> LZ4_memcpy dst op m 8; Some (dst, m + 8) })"

definition LZ4_copy_match :: "nat \<Rightarrow> byte list \<Rightarrow> nat \<Rightarrow> nat \<Rightarrow> nat \<Rightarrow> byte list option option" where
  "LZ4_copy_match oend dst op off len =
     (if op < off then None
      else do {
        let cpy = op + len;
        (dst, m) \<leftarrow> LZ4_copy_start dst op (op - off) off;
        let op = op + 8;
        if oend < cpy + 12 then
          if oend < cpy + LASTLITERALS then Some None
          else do {
            let oCopyLimit = oend - (WILDCOPYLENGTH - 1);
            (dst, op, m) \<leftarrow> (if op < oCopyLimit
               then do { dst \<leftarrow> LZ4_wildCopy (\<lambda>dst s. obj_read dst s 8) dst op m oCopyLimit;
                         Some (dst, oCopyLimit, m + (oCopyLimit - op)) }
               else Some (dst, op, m));
            dst \<leftarrow> LZ4_copy_bytes dst op m (cpy - op);
            Some (Some dst) }
        else do {
          dst \<leftarrow> LZ4_memcpy dst op m 8;
          dst \<leftarrow> (if 16 < len then LZ4_wildCopy (\<lambda>dst s. obj_read dst s 8) dst (op + 8) (m + 8) cpy else Some dst);
          Some (Some dst) } })"

record lz4_dstate =
  d_ip :: nat
  d_op :: nat
  d_dst :: "byte list"

datatype lz4_decoded = Stop int lz4_dstate | Step lz4_dstate

text \<open>One sequence; the input has no end for this decoder (\<open>iend = src\<close>), so its fast path is never taken.\<close>

definition LZ4_decompress_sequence :: "byte list \<Rightarrow> nat \<Rightarrow> lz4_dstate \<Rightarrow> lz4_decoded option" where
  "LZ4_decompress_sequence src oend st = do {
     let op = d_op st;
     let dst = d_dst st;
     token \<leftarrow> LZ4_read8 src (d_ip st);
     let ip = d_ip st + 1;
     (ip, len) \<leftarrow> (if token div 2 ^ ML_BITS = RUN_MASK then LZ4_read_run src ip RUN_MASK
                   else Some (ip, token div 2 ^ ML_BITS));
     let cpy = op + len;
     if oend < cpy + WILDCOPYLENGTH then
       if cpy \<noteq> oend then Some (Stop (- int ip - 1) \<lparr>d_ip = ip, d_op = op, d_dst = dst\<rparr>)
       else do {
         lits \<leftarrow> obj_read src ip len;
         dst \<leftarrow> obj_write dst op lits;
         Some (Stop (int (ip + len)) \<lparr>d_ip = ip + len, d_op = cpy, d_dst = dst\<rparr>) }
     else do {
       dst \<leftarrow> LZ4_wildCopy (\<lambda>_ s. obj_read src s 8) dst op ip cpy;
       let ip = ip + len;
       let op = cpy;
       off \<leftarrow> LZ4_readLE16 src ip;
       let ip = ip + 2;
       dst \<leftarrow> obj_write dst op (le32 (of_nat off));
       (ip, len) \<leftarrow> (if token mod 2 ^ ML_BITS = ML_MASK then LZ4_read_run src ip ML_MASK
                     else Some (ip, token mod 2 ^ ML_BITS));
       let len = len + MINMATCH;
       copied \<leftarrow> LZ4_copy_match oend dst op off len;
       Some (case copied of
           None \<Rightarrow> Stop (- int ip - 1) \<lparr>d_ip = ip, d_op = op, d_dst = dst\<rparr>
         | Some dst \<Rightarrow> Step \<lparr>d_ip = ip, d_op = op + len, d_dst = dst\<rparr>) } }"

lemma LZ4_read_run_ip: "LZ4_read_run src ip len = Some (ip', len') \<Longrightarrow> ip < ip' \<and> ip < length src"
proof (induction src ip len rule: LZ4_read_run.induct)
  case (1 src ip len)
  show ?case
    using "1.prems" "1.IH" unfolding LZ4_read_run.simps [of src ip len]
    by (fastforce simp: LZ4_read8_def split: option.splits if_splits)
qed

lemma LZ4_decompress_progress:
  assumes "LZ4_decompress_sequence src oend st = Some (Step st')"
  shows "d_ip st < d_ip st' \<and> d_ip st < length src"
proof -
  have a: "ip \<le> ip'" if "(if c then LZ4_read_run src ip k else Some (ip, j)) = Some (ip', len)" for ip ip' len k j c
    using that LZ4_read_run_ip [of src ip k ip' len] by (auto split: if_splits)
  obtain token where t: "LZ4_read8 src (d_ip st) = Some token"
    using assms by (auto simp: LZ4_decompress_sequence_def Let_def split: Option.bind_splits)
  obtain ip1 len1 where r: "(if token div 2 ^ ML_BITS = RUN_MASK then LZ4_read_run src (d_ip st + 1) RUN_MASK
      else Some (d_ip st + 1, token div 2 ^ ML_BITS)) = Some (ip1, len1)"
    using assms t unfolding LZ4_decompress_sequence_def Let_def by (auto split: Option.bind_splits)
  obtain ip2 len2 where "(if token mod 2 ^ ML_BITS = ML_MASK then LZ4_read_run src (ip1 + len1 + 2) ML_MASK
      else Some (ip1 + len1 + 2, token mod 2 ^ ML_BITS)) = Some (ip2, len2)" "d_ip st' = ip2"
    using assms t r unfolding LZ4_decompress_sequence_def Let_def
    by (auto split: Option.bind_splits if_splits option.splits)
  from a [OF r] a [OF this(1)] this(2) t show ?thesis
    by (auto simp: LZ4_read8_def split: if_splits)
qed

function LZ4_decompress_loop :: "byte list \<Rightarrow> nat \<Rightarrow> lz4_dstate \<Rightarrow> (int \<times> byte list) option" where
  "LZ4_decompress_loop src oend st =
     (case LZ4_decompress_sequence src oend st of
        None \<Rightarrow> None
      | Some (Stop r st') \<Rightarrow> Some (r, d_dst st')
      | Some (Step st') \<Rightarrow> LZ4_decompress_loop src oend st')"
  by pat_completeness auto
termination
proof (relation "measure (\<lambda>(src, oend, st). length src - d_ip st)", simp)
  fix src oend st q st'
  assume "LZ4_decompress_sequence src oend st = Some q" "q = Step st'"
  then show "((src, oend, st'), src, oend, st) \<in> measure (\<lambda>(src, oend, st). length src - d_ip st)"
    using LZ4_decompress_progress [of src oend st st'] by (simp add: diff_less_mono2)
qed

declare LZ4_decompress_loop.simps [simp del]

text \<open>The number of bytes read, or a negative position of an error, and the destination.\<close>

definition LZ4_decompress_fast :: "byte list \<Rightarrow> byte list \<Rightarrow> nat \<Rightarrow> (int \<times> byte list) option" where
  "LZ4_decompress_fast src dst originalSize =
     (if originalSize = 0 then do { t \<leftarrow> LZ4_read8 src 0; Some (if t = 0 then 1 else -1, dst) }
      else LZ4_decompress_loop src originalSize \<lparr>d_ip = 0, d_op = 0, d_dst = dst\<rparr>)"

end
