(* ===== verification/Lz4Laws.thy ===== *)
theory Lz4Laws
  imports Lz4
begin

text \<open>
  The block format of LZ4 and the two halves of the codec against it: the decompressor turns the bytes of every
  well-formed list of sequences into what the list stands for, and the compressor writes the bytes of such a list
  for its input. The fast copies of the decompressor are related to a copy byte by byte.
\<close>

section \<open>The block format\<close>

type_synonym lz4_seq = "byte list \<times> nat \<times> nat"

definition lz4_run :: "nat \<Rightarrow> byte list" where
  "lz4_run x = replicate (x div 255) (CHR 0xFF) @ [char_of (x mod 255)]"

definition lz4_ext :: "nat \<Rightarrow> byte list" where
  "lz4_ext x = (if x < 15 then [] else lz4_run (x - 15))"

definition lz4_token :: "nat \<Rightarrow> nat \<Rightarrow> byte" where
  "lz4_token a b = char_of (min a 15 * 16 + min b 15)"

definition seq_bytes :: "lz4_seq \<Rightarrow> byte list" where
  "seq_bytes s = (case s of (lits, off, ml) \<Rightarrow>
     lz4_token (length lits) (ml - 4) # lz4_ext (length lits) @ lits @ lz4_le16 off @ lz4_ext (ml - 4))"

definition last_bytes :: "byte list \<Rightarrow> byte list" where
  "last_bytes lits = lz4_token (length lits) 0 # lz4_ext (length lits) @ lits"

text \<open>What a sequence stands for: its literals, then a copy that may read what it has just written.\<close>

fun lz4_extend :: "byte list \<Rightarrow> nat \<Rightarrow> nat \<Rightarrow> byte list" where
  "lz4_extend out off 0 = out"
| "lz4_extend out off (Suc k) = lz4_extend (out @ [out ! (length out - off)]) off k"

definition seq_apply :: "byte list \<Rightarrow> lz4_seq \<Rightarrow> byte list" where
  "seq_apply out s = (case s of (lits, off, ml) \<Rightarrow> lz4_extend (out @ lits) off ml)"

definition seq_ok :: "nat \<Rightarrow> byte list \<Rightarrow> lz4_seq \<Rightarrow> bool" where
  "seq_ok n out s \<longleftrightarrow> (case s of (lits, off, ml) \<Rightarrow>
     1 \<le> off \<and> off < 2 ^ 16 \<and> off \<le> length out + length lits \<and> 4 \<le> ml
     \<and> length out + length lits + ml + LASTLITERALS \<le> n \<and> length out + length lits + MFLIMIT \<le> n)"

fun seqs_ok :: "nat \<Rightarrow> byte list \<Rightarrow> lz4_seq list \<Rightarrow> bool" where
  "seqs_ok n out [] \<longleftrightarrow> True"
| "seqs_ok n out (s # ss) \<longleftrightarrow> seq_ok n out s \<and> seqs_ok n (seq_apply out s) ss"

definition block_bytes :: "lz4_seq list \<Rightarrow> byte list \<Rightarrow> byte list" where
  "block_bytes ss lits = concat (map seq_bytes ss) @ last_bytes lits"

definition block_data :: "lz4_seq list \<Rightarrow> byte list \<Rightarrow> byte list" where
  "block_data ss lits = foldl seq_apply [] ss @ lits"

lemma length_lz4_extend [simp]: "length (lz4_extend out off k) = length out + k"
  by (induction out off k rule: lz4_extend.induct) simp_all

lemma lz4_extend_eqI:
  assumes "length xs = length out + k" "take (length out) xs = out"
    and "\<forall>j. length out \<le> j \<and> j < length out + k \<longrightarrow> xs ! j = xs ! (j - off)" "0 < off" "off \<le> length out"
  shows "lz4_extend out off k = xs"
  using assms
proof (induction out off k rule: lz4_extend.induct)
  case (2 out off k)
  have "xs ! (length out - off) = out ! (length out - off)"
    using "2.prems"(2,4,5) by (metis diff_less less_le_trans nth_take)
  then have n: "take (length (out @ [out ! (length out - off)])) xs = out @ [out ! (length out - off)]"
    using "2.prems" by (simp add: take_Suc_conv_app_nth)
  show ?case
    unfolding lz4_extend.simps by (rule "2.IH") (use n "2.prems" in auto)
qed simp

lemma seq_apply_prefix: "\<exists>more. seq_apply out s = out @ more"
proof -
  have "\<exists>more. lz4_extend xs off k = xs @ more" for xs off k
    by (induction xs off k rule: lz4_extend.induct) (simp, metis append.assoc lz4_extend.simps(2))
  then show ?thesis
    by (metis append.assoc old.prod.exhaust prod.case seq_apply_def)
qed

section \<open>Memory\<close>

text \<open>The number of bytes a copy of eight at a time touches.\<close>

definition wild_span :: "nat \<Rightarrow> nat" where
  "wild_span k = (if k = 0 then 8 else 8 * ((k + 7) div 8))"

lemma wild_span_bounds: "k \<le> wild_span k" "wild_span k \<le> k + 8" "k \<noteq> 0 \<Longrightarrow> wild_span k \<le> k + 7"
  unfolding wild_span_def by auto

lemma wild_span_more: "8 < k \<Longrightarrow> wild_span k = 8 + wild_span (k - 8)"
proof -
  assume k: "8 < k"
  have "(k + 7) div 8 = Suc ((k - 8 + 7) div 8)"
    using k by simp
  then show ?thesis
    using k by (simp add: wild_span_def)
qed

lemma LZ4_wildCopy_eq:
  "LZ4_wildCopy (\<lambda>_ s. obj_read src s 8) dst d s e =
     (if s + wild_span (e - d) \<le> length src \<and> d + wild_span (e - d) \<le> length dst
      then Some (overlay_at d dst (take (wild_span (e - d)) (drop s src))) else None)"
proof (induction "e - d" arbitrary: dst d s rule: less_induct)
  case less
  have w8: "8 \<le> wild_span (e - d)"
    by (auto simp: wild_span_def)
  show ?case
  proof (cases "s + 8 \<le> length src \<and> d + 8 \<le> length dst")
    case ok: True
    let ?bs = "take 8 (drop s src)"
    let ?dst = "overlay_at d dst ?bs"
    have l8: "length ?bs = 8"
      using ok [THEN conjunct1] by simp
    have w: "obj_read src s 8 = Some ?bs" "obj_write dst d ?bs = Some ?dst" "length ?dst = length dst" "length ?bs = 8"
      using ok l8 by (simp_all add: obj_read_Some obj_write_Some)
    show ?thesis
    proof (cases "d + 8 < e")
      case True
      have sp: "wild_span (e - d) = 8 + wild_span (e - (d + 8))"
        using True wild_span_more [of "e - d"] by simp
      have "?bs @ take (wild_span (e - (d + 8))) (drop (s + 8) src) = take (wild_span (e - d)) (drop s src)"
        unfolding sp take_add by (simp add: add.commute)
      then have "overlay_at (d + 8) ?dst (take (wild_span (e - (d + 8))) (drop (s + 8) src))
          = overlay_at d dst (take (wild_span (e - d)) (drop s src))"
        using ok w(4) overlay_at_twice [of d dst ?bs "d + 8"] by simp
      moreover have "LZ4_wildCopy (\<lambda>_ s. obj_read src s 8) dst d s e = LZ4_wildCopy (\<lambda>_ s. obj_read src s 8) ?dst (d + 8) (s + 8) e"
        using True w(1,2) by (subst LZ4_wildCopy.simps) simp
      ultimately show ?thesis
        using less.hyps [of "d + 8" ?dst "s + 8"] True w(3) sp by (simp add: add.assoc)
    next
      case False
      then have "wild_span (e - d) = 8"
        by (auto simp: wild_span_def)
      then show ?thesis
        using False w ok by (subst LZ4_wildCopy.simps) simp
    qed
  next
    case False
    have "LZ4_wildCopy (\<lambda>_ s. obj_read src s 8) dst d s e = None"
      using False by (subst LZ4_wildCopy.simps) (auto simp: obj_read_def obj_write_def)
    then show ?thesis
      using False w8 by auto
  qed
qed

lemma wildCopy_other:
  assumes "d \<le> e" "s + (e - d) + 8 \<le> length src" "e + 8 \<le> length dst"
  shows "\<exists>dst'. LZ4_wildCopy (\<lambda>_ s. obj_read src s 8) dst d s e = Some dst' \<and> length dst' = length dst
     \<and> take e dst' = take d dst @ take (e - d) (drop s src)"
proof -
  let ?w = "wild_span (e - d)"
  have w: "e - d \<le> ?w" "?w \<le> (e - d) + 8"
    by (rule wild_span_bounds)+
  have l: "length (take ?w (drop s src)) = ?w"
    using w(2) assms(1,2) by simp
  have "take e (overlay_at d dst (take ?w (drop s src))) = take d dst @ take (e - d) (take ?w (drop s src))"
    using w l assms by (simp add: overlay_at_def)
  also have "take (e - d) (take ?w (drop s src)) = take (e - d) (drop s src)"
    using w(1) by (simp add: min_absorb1)
  finally have t: "take e (overlay_at d dst (take ?w (drop s src))) = take d dst @ take (e - d) (drop s src)" .
  have c: "s + ?w \<le> length src" "d + ?w \<le> length dst"
    using w assms by linarith+
  show ?thesis
    using c l t by (simp add: LZ4_wildCopy_eq)
qed

section \<open>Copies that overlap\<close>

definition repeats :: "byte list \<Rightarrow> nat \<Rightarrow> nat \<Rightarrow> nat \<Rightarrow> bool" where
  "repeats dst op off d \<longleftrightarrow> (\<forall>j. op \<le> j \<and> j < d \<longrightarrow> dst ! j = dst ! (j - off))"

lemma repeats_far:
  assumes "repeats dst op off d" "j < d" "op \<le> j + off" "k * off + op \<le> j + off"
  shows "dst ! j = dst ! (j - k * off)"
  using assms
proof (induction k)
  case (Suc k)
  then have "dst ! j = dst ! (j - k * off)"
    by simp
  also have "\<dots> = dst ! (j - k * off - off)"
    using Suc.prems le_diff_conv2 [of "k * off" j op] by (simp add: repeats_def less_imp_diff_less add.commute)
  finally show ?case
    by (simp add: add.commute)
qed simp

lemma memcpy_repeats:
  assumes "repeats dst op off d" "off dvd d - s" "0 < off" "off \<le> op" "op \<le> d" "op \<le> s + off" "s < d"
    and "k \<le> d - s" "d + k \<le> length dst"
  shows "\<exists>dst'. LZ4_memcpy dst d s k = Some dst' \<and> length dst' = length dst \<and> take op dst' = take op dst
     \<and> repeats dst' op off (d + k)"
proof -
  let ?bs = "take k (drop s dst)"
  let ?dst = "overlay_at d dst ?bs"
  have l: "length ?bs = k"
    using assms(7-9) by simp
  have c: "LZ4_memcpy dst d s k = Some ?dst"
    using assms(7-9) l by (simp add: LZ4_memcpy_def obj_read_Some obj_write_Some)
  have old: "?dst ! j = dst ! j" if "j < d" for j
    using that assms(9) l by (intro nth_overlay_at_other) auto
  have new: "?dst ! (d + i) = dst ! (s + i)" if "i < k" for i
    using that assms(7-9) l by (subst nth_overlay_at_new) auto
  obtain q where "d - s = off * q"
    using assms(2) by (auto simp: dvd_def)
  then obtain r where "d - s = off + r * off"
    using assms(7) by (cases q) (auto simp: mult.commute)
  then have r: "d = s + off + r * off"
    using assms(7) by simp
  have "?dst ! j = ?dst ! (j - off)" if j: "op \<le> j" "j < d + k" for j
  proof (cases "j < d")
    case True
    then show ?thesis
      using assms(1) j old [of j] old [of "j - off"] by (auto simp: repeats_def)
  next
    case False
    then obtain i where i: "j = d + i" "i < k"
      using j by (metis add_less_cancel_left le_add_diff_inverse not_less)
    have si: "s + i < d"
      using i(2) assms(8) by simp
    show ?thesis
    proof (cases "i < off")
      case True
      have lt: "d + i - off < d"
        using True assms(3,4,5) by simp
      have e: "d + i - off - r * off = s + i"
        using r by simp
      have "dst ! (d + i - off) = dst ! (d + i - off - r * off)"
        using assms(4,5,6) r lt by (intro repeats_far [OF assms(1)]) simp_all
      then show ?thesis
        using new [OF i(2)] old [OF lt] e i(1) by simp
    next
      case False
      then have "?dst ! (d + i - off) = dst ! (s + (i - off))"
        using new [of "i - off"] i(2) by simp
      moreover have "dst ! (s + i) = dst ! (s + i - off)"
        using assms(1,6) False si by (auto simp: repeats_def)
      ultimately show ?thesis
        using new [OF i(2)] False i(1) by simp
    qed
  qed
  then have "repeats ?dst op off (d + k)"
    by (simp add: repeats_def)
  then show ?thesis
    using c l assms(5,8,9) by (auto simp: take_overlay_at_le)
qed

lemma copy_bytes_repeats:
  assumes "repeats dst op off d" "off dvd d - s" "0 < off" "off \<le> op" "op \<le> d" "op \<le> s + off" "s < d" "d + k \<le> length dst"
  shows "\<exists>dst'. LZ4_copy_bytes dst d s k = Some dst' \<and> length dst' = length dst \<and> take op dst' = take op dst
     \<and> repeats dst' op off (d + k)"
  using assms
proof (induction k arbitrary: dst d s)
  case (Suc k)
  have k: "1 \<le> d - s" "d + 1 \<le> length dst"
    using Suc.prems(7,8) by simp_all
  obtain x where x: "LZ4_memcpy dst d s 1 = Some x" "length x = length dst" "take op x = take op dst" "repeats x op off (d + 1)"
    using memcpy_repeats [OF Suc.prems(1-7) k] by blast
  then show ?case
    using Suc.IH [of x "d + 1" "s + 1"] Suc.prems by simp
qed simp

lemma wildCopy_repeats:
  assumes "repeats dst op off d" "off dvd d - s" "0 < off" "off \<le> op" "op \<le> d" "op \<le> s + off" "s + 8 \<le> d"
    and "d \<le> e + 8" "d + 8 \<le> length dst" "e + 7 \<le> length dst"
  shows "\<exists>dst'. LZ4_wildCopy (\<lambda>dst s. obj_read dst s 8) dst d s e = Some dst' \<and> length dst' = length dst
     \<and> take op dst' = take op dst \<and> repeats dst' op off (max e (d + 8))"
  using assms
proof (induction "e - d" arbitrary: dst d s rule: less_induct)
  case less
  have k: "s < d" "8 \<le> d - s"
    using less.prems(7) by simp_all
  obtain x where x: "LZ4_memcpy dst d s 8 = Some x" "length x = length dst" "take op x = take op dst" "repeats x op off (d + 8)"
    using memcpy_repeats [OF less.prems(1-6) k less.prems(9)] by blast
  then obtain bs where w: "obj_read dst s 8 = Some bs" "obj_write dst d bs = Some x"
    by (auto simp: LZ4_memcpy_def split: Option.bind_splits)
  show ?case
  proof (cases "d + 8 < e")
    case True
    have "\<exists>dst'. LZ4_wildCopy (\<lambda>dst s. obj_read dst s 8) x (d + 8) (s + 8) e = Some dst' \<and> length dst' = length x
     \<and> take op dst' = take op x \<and> repeats dst' op off (max e (d + 8 + 8))"
      using True less.prems x by (intro less.hyps) simp_all
    moreover have "repeats y op off (max e (d + 8 + 8)) \<Longrightarrow> repeats y op off (max e (d + 8))" for y
      by (auto simp: repeats_def)
    ultimately show ?thesis
      using True w x by (subst LZ4_wildCopy.simps) auto
  next
    case False
    then show ?thesis
      using w x by (subst LZ4_wildCopy.simps) (simp add: max_def)
  qed
qed

text \<open>The tables move the source so that it stays a multiple of the offset behind, and eight bytes or more.\<close>

lemma inc32_dec64:
  assumes "0 < off" "off < 8" "off \<le> op"
  defines "m \<equiv> op - off + inc32table ! off"
  defines "m' \<equiv> nat (int m - dec64table ! off)"
  shows "off dvd op + 4 - m" "m + 4 \<le> op + 4" "off dvd op + 8 - m'" "m' \<le> op" "op \<le> m' + off"
proof -
  have "off = 1 \<or> off = 2 \<or> off = 3 \<or> off = 4 \<or> off = 5 \<or> off = 6 \<or> off = 7"
    using assms(1,2) by linarith
  moreover obtain b where "op = off + b"
    using assms(3) le_Suc_ex by blast
  ultimately have "off dvd op + 4 - m \<and> m + 4 \<le> op + 4 \<and> off dvd op + 8 - m' \<and> m' \<le> op \<and> op \<le> m' + off"
    unfolding m_def m'_def inc32table_def dec64table_def by (elim disjE) (simp_all add: nat_add_distrib)
  then show "off dvd op + 4 - m" "m + 4 \<le> op + 4" "off dvd op + 8 - m'" "m' \<le> op" "op \<le> m' + off"
    by blast+
qed

lemma repeats_less: "repeats dst op off d \<Longrightarrow> d' \<le> d \<Longrightarrow> repeats dst op off d'"
  by (simp add: repeats_def)

lemma repeats_refl [simp]: "repeats dst op off op"
  by (auto simp: repeats_def)

lemma copy_start_repeats:
  assumes "0 < off" "off \<le> op" "op + 8 \<le> length dst"
  shows "\<exists>dst' m. LZ4_copy_start dst op (op - off) off = Some (dst', m) \<and> length dst' = length dst
     \<and> take op dst' = take op dst \<and> repeats dst' op off (op + 8)
     \<and> off dvd op + 8 - m \<and> m \<le> op \<and> op \<le> m + off"
proof (cases "off < 8")
  case True
  let ?m = "op - off + inc32table ! off"
  note t = inc32_dec64 [OF assms(1) True assms(2)]
  obtain x where x: "LZ4_copy_bytes dst op (op - off) 4 = Some x" "length x = length dst" "take op x = take op dst"
      "repeats x op off (op + 4)"
    using copy_bytes_repeats [of dst op off op "op - off" 4] assms by auto
  have k: "op \<le> ?m + off" "?m < op + 4" "4 \<le> op + 4 - ?m"
    using t(2) assms(1,2) by (simp_all add: le_diff_conv)
  obtain y where y: "LZ4_memcpy x (op + 4) ?m 4 = Some y" "length y = length x" "take op y = take op x"
      "repeats y op off (op + 4 + 4)"
    using memcpy_repeats [OF x(4) t(1) assms(1,2) _ k] x(2) assms(3) by auto
  have "repeats y op off (op + 8)"
    using y(4) by (simp add: ac_simps)
  then show ?thesis
    using True x y t(3-5) by (simp add: LZ4_copy_start_def Let_def)
next
  case False
  have k: "off dvd op - (op - off)" "op \<le> op - off + off" "op - off < op" "8 \<le> op - (op - off)"
    using False assms by simp_all
  obtain y where "LZ4_memcpy dst op (op - off) 8 = Some y" "length y = length dst" "take op y = take op dst"
      "repeats y op off (op + 8)"
    using memcpy_repeats [OF repeats_refl k(1) assms(1,2) _ k(2-4) assms(3)] by auto
  then show ?thesis
    using False assms by (simp add: LZ4_copy_start_def)
qed

lemma copied_is_extend:
  assumes "length dst' = length dst" "take op dst' = take op dst" "repeats dst' op off d" "op + len \<le> d"
    and "0 < off" "off \<le> op" "op + len \<le> length dst"
  shows "take (op + len) dst' = lz4_extend (take op dst) off len"
proof (rule lz4_extend_eqI [symmetric])
  have "op \<le> length dst"
    using assms(7) by simp
  show "take (length (take op dst)) (take (op + len) dst') = take op dst"
    using assms(2,7) by simp
  show "\<forall>j. length (take op dst) \<le> j \<and> j < length (take op dst) + len
      \<longrightarrow> take (op + len) dst' ! j = take (op + len) dst' ! (j - off)"
  proof (intro allI impI)
    fix j
    assume j: "length (take op dst) \<le> j \<and> j < length (take op dst) + len"
    then have "op \<le> j \<and> j < d"
      using assms(4,7) by auto
    then have "dst' ! j = dst' ! (j - off)"
      using assms(3) by (metis repeats_def)
    then show "take (op + len) dst' ! j = take (op + len) dst' ! (j - off)"
      using j assms(7) by (simp add: less_imp_diff_less)
  qed
qed (use assms(1,5-7) in simp_all)

lemma copy_match_extend:
  assumes "0 < off" "off \<le> op" "4 \<le> len" "op + 12 \<le> oend" "op + len + LASTLITERALS \<le> oend" "oend \<le> length dst"
  shows "\<exists>dst'. LZ4_copy_match oend dst op off len = Some (Some dst') \<and> length dst' = length dst
     \<and> take (op + len) dst' = lz4_extend (take op dst) off len"
proof -
  have op8: "op + 8 \<le> length dst" and opl: "op + len \<le> length dst"
    using assms(4,5,6) by (simp_all add: LASTLITERALS_def)
  obtain x m where x: "LZ4_copy_start dst op (op - off) off = Some (x, m)" "length x = length dst" "take op x = take op dst"
      "repeats x op off (op + 8)" and m: "off dvd op + 8 - m" "m \<le> op" "op \<le> m + off"
    using copy_start_repeats [OF assms(1,2) op8] by blast
  have k: "op \<le> op + 8" "m < op + 8" "m + 8 \<le> op + 8" "8 \<le> op + 8 - m"
    using m by simp_all
  have "\<exists>y d. LZ4_copy_match oend dst op off len = Some (Some y) \<and> length y = length x \<and> take op y = take op x
      \<and> repeats y op off d \<and> op + len \<le> d"
  proof (cases "oend < op + len + 12")
    case near: True
    let ?lim = "oend - (WILDCOPYLENGTH - 1)"
    show ?thesis
    proof (cases "op + 8 < ?lim")
      case True
      have w: "op + 8 \<le> ?lim + 8" "op + 8 + 8 \<le> length x" "?lim + 7 \<le> length x"
        using True x(2) assms(6) by (simp_all add: WILDCOPYLENGTH_def)
      obtain y where y: "LZ4_wildCopy (\<lambda>dst s. obj_read dst s 8) x (op + 8) m ?lim = Some y" "length y = length x"
          "take op y = take op x" "repeats y op off (max ?lim (op + 8 + 8))"
        using wildCopy_repeats [OF x(4) m(1) assms(1,2) k(1) m(3) k(3) w] by blast
      let ?s = "m + (?lim - (op + 8))"
      have d: "?lim - ?s = op + 8 - m" "op \<le> ?lim" "op \<le> ?s + off" "?s < ?lim"
        using True m k by simp_all
      have dv: "off dvd ?lim - ?s"
        unfolding d(1) by (rule m(1))
      have l: "?lim + (op + len - ?lim) \<le> length y"
        using y(2) x(2) assms(5,6) by (simp add: LASTLITERALS_def)
      obtain z where z: "LZ4_copy_bytes y ?lim ?s (op + len - ?lim) = Some z" "length z = length y" "take op z = take op y"
          "repeats z op off (?lim + (op + len - ?lim))"
        using copy_bytes_repeats [OF repeats_less [OF y(4)] dv assms(1,2) d(2-4) l] by (metis max.cobounded1)
      have c: "\<not> oend < op + len + LASTLITERALS" "\<not> op < off"
        using assms(2,5) by simp_all
      show ?thesis
        using near True x(1) y z c by (auto simp: LZ4_copy_match_def Let_def)
    next
      case False
      have l: "op + 8 + (op + len - (op + 8)) \<le> length x"
        using x(2) op8 opl by simp
      obtain z where z: "LZ4_copy_bytes x (op + 8) m (op + len - (op + 8)) = Some z" "length z = length x" "take op z = take op x"
          "repeats z op off (op + 8 + (op + len - (op + 8)))"
        using copy_bytes_repeats [OF x(4) m(1) assms(1,2) k(1) m(3) k(2) l] by blast
      have c: "\<not> oend < op + len + LASTLITERALS" "\<not> op < off"
        using assms(2,5) by simp_all
      show ?thesis
        using near False x(1) z c by (auto simp: LZ4_copy_match_def Let_def)
    qed
  next
    case far: False
    have l: "op + 8 + 8 \<le> length x"
      using far assms(3,6) x(2) by simp
    obtain y where y: "LZ4_memcpy x (op + 8) m 8 = Some y" "length y = length x" "take op y = take op x"
        "repeats y op off (op + 8 + 8)"
      using memcpy_repeats [OF x(4) m(1) assms(1,2) k(1) m(3) k(2,4) l] by blast
    show ?thesis
    proof (cases "16 < len")
      case True
      have e: "off dvd op + 8 + 8 - (m + 8)" "op \<le> op + 8 + 8" "op \<le> m + 8 + off" "m + 8 + 8 \<le> op + 8 + 8"
        using m by (simp_all add: add.commute)
      obtain z where z: "LZ4_wildCopy (\<lambda>dst s. obj_read dst s 8) y (op + 8 + 8) (m + 8) (op + len) = Some z"
          "length z = length y" "take op z = take op y" "repeats z op off (max (op + len) (op + 8 + 8 + 8))"
        using wildCopy_repeats [OF y(4) e(1) assms(1,2) e(2-4), of "op + len"] True far y(2) x(2) assms(6) by auto
      show ?thesis
        using far True x(1) y z assms(2) by (auto simp: LZ4_copy_match_def Let_def)
    next
      case False
      then show ?thesis
        using far x(1) y assms(2) by (auto simp: LZ4_copy_match_def Let_def)
    qed
  qed
  then obtain y d where y: "LZ4_copy_match oend dst op off len = Some (Some y)" "length y = length x" "take op y = take op x"
      "repeats y op off d" "op + len \<le> d"
    by blast
  then show ?thesis
    using copied_is_extend [of y dst op off d len] x(2,3) assms(1,2) opl by simp
qed

section \<open>The decompressor reads the format\<close>

lemma length_lz4_run [simp]: "length (lz4_run x) = x div 255 + 1"
  by (simp add: lz4_run_def)

lemma LZ4_read8_append [simp]: "LZ4_read8 (pre @ c # rest) (length pre) = Some (of_char c)"
  by (simp add: LZ4_read8_def)

lemma LZ4_read_run_lz4_run:
  "LZ4_read_run (pre @ lz4_run x @ rest) (length pre) k = Some (length pre + length (lz4_run x), k + x)"
proof (induction x arbitrary: pre k rule: less_induct)
  case (less x)
  show ?case
  proof (cases "255 \<le> x")
    case True
    then have r: "lz4_run x = CHR 0xFF # lz4_run (x - 255)"
      by (simp add: lz4_run_def le_div_geq le_mod_geq flip: replicate_Suc)
    have "LZ4_read_run (pre @ lz4_run x @ rest) (length pre) k = LZ4_read_run ((pre @ [CHR 0xFF]) @ lz4_run (x - 255) @ rest) (length pre + 1) (k + 255)"
      unfolding r by (subst LZ4_read_run.simps) simp
    also have "\<dots> = Some (length (pre @ [CHR 0xFF]) + length (lz4_run (x - 255)), k + 255 + (x - 255))"
      using less [of "x - 255" "pre @ [CHR 0xFF]" "k + 255"] True by simp
    finally show ?thesis
      using True by (simp add: r)
  next
    case False
    then have r: "lz4_run x = [char_of x]" "x mod 256 = x"
      by (simp_all add: lz4_run_def)
    show ?thesis
      unfolding r(1) using False r(2) by (subst LZ4_read_run.simps) simp
  qed
qed

lemma LZ4_readLE16_bytes: "v < 2 ^ 16 \<Longrightarrow> LZ4_readLE16 (pre @ lz4_le16 v @ rest) (length pre) = Some v"
proof -
  assume "v < 2 ^ 16"
  then have "v div 256 mod 256 = v div 256"
    by (simp add: less_mult_imp_div_less)
  then show ?thesis
    by (simp add: LZ4_readLE16_def lz4_le16_def obj_read_Some)
qed

lemma lz4_token_value: "of_char (lz4_token a b) = min a 15 * 16 + (min b 15 :: nat)"
proof -
  have "min a 15 * 16 + min b 15 < 256"
    by (simp add: min_def)
  then show ?thesis
    by (simp add: lz4_token_def)
qed

lemma lz4_token_parts:
  "(of_char (lz4_token a b) :: nat) div 16 = min a 15" "(of_char (lz4_token a b) :: nat) mod 16 = min b 15"
  unfolding lz4_token_value by (simp_all add: min_def)

lemma read_length:
  assumes "t = min x 15" "ip = length pre"
  shows "(if t = 15 then LZ4_read_run (pre @ lz4_ext x @ rest) ip 15 else Some (ip, t)) = Some (length (pre @ lz4_ext x), x)"
proof (cases "x < 15")
  case False
  then show ?thesis
    using assms LZ4_read_run_lz4_run [of pre "x - 15" rest 15] by (simp add: lz4_ext_def)
qed (use assms in \<open>simp add: lz4_ext_def\<close>)

lemma LZ4_decompress_sequence_ok:
  assumes s: "s = (lits, off, ml)" and ok: "seq_ok n out s" and rest: "6 \<le> length rest"
    and dst: "take (length out) dst = out" "n \<le> length dst"
    and st: "d_ip st = length pre" "d_op st = length out" "d_dst st = dst"
  shows "\<exists>dst'. LZ4_decompress_sequence (pre @ seq_bytes s @ rest) n st
       = Some (Step \<lparr>d_ip = length (pre @ seq_bytes s), d_op = length (seq_apply out s), d_dst = dst'\<rparr>)
     \<and> length dst' = length dst \<and> take (length (seq_apply out s)) dst' = seq_apply out s"
proof -
  let ?src = "pre @ seq_bytes s @ rest"
  let ?l = "length lits" and ?p0 = "pre @ [lz4_token (length lits) (ml - 4)]"
  let ?p1 = "?p0 @ lz4_ext ?l" and ?r1 = "lz4_le16 off @ lz4_ext (ml - 4) @ rest"
  let ?p2 = "?p1 @ lits" and ?op = "length out + ?l"
  have k: "1 \<le> off" "off < 2 ^ 16" "off \<le> ?op" "4 \<le> ml" "?op + ml + LASTLITERALS \<le> n" "?op + 12 \<le> n"
    using ok by (simp_all add: s seq_ok_def MFLIMIT_def WILDCOPYLENGTH_def MINMATCH_def)
  have src: "?src = pre @ lz4_token ?l (ml - 4) # lz4_ext ?l @ lits @ ?r1"
    "?src = ?p0 @ lz4_ext ?l @ lits @ ?r1" "?src = ?p1 @ lits @ ?r1" "?src = ?p2 @ lz4_le16 off @ lz4_ext (ml - 4) @ rest"
    "?src = (?p2 @ lz4_le16 off) @ lz4_ext (ml - 4) @ rest"
    by (simp_all add: s seq_bytes_def)
  have lo: "length out \<le> length dst"
    using k(6) dst(2) by simp
  have t: "LZ4_read8 ?src (d_ip st) = Some (of_char (lz4_token ?l (ml - 4)))"
    unfolding st(1) src(1) by simp
  have r1: "(if min ?l 15 = 15 then LZ4_read_run ?src (d_ip st + 1) 15 else Some (d_ip st + 1, min ?l 15)) = Some (length ?p1, ?l)"
    unfolding src(2) by (rule read_length) (simp_all add: st(1))
  have len: "length ?p1 + ?l + 8 \<le> length ?src"
    unfolding src(3) using rest by (simp add: lz4_le16_def)
  obtain x where x: "LZ4_wildCopy (\<lambda>_ s. obj_read ?src s 8) dst (length out) (length ?p1) ?op = Some x" "length x = length dst"
      "take ?op x = take (length out) dst @ take (?op - length out) (drop (length ?p1) ?src)"
    using wildCopy_other [of "length out" ?op "length ?p1" ?src dst] len k(6) dst(2) by auto
  have x3: "take ?op x = out @ lits"
    unfolding x(3) src(3) using dst(1) by simp
  have o: "LZ4_readLE16 ?src (length ?p1 + ?l) = Some off"
    using LZ4_readLE16_bytes [OF k(2), of ?p2 "lz4_ext (ml - 4) @ rest"] unfolding src(4)
    by (simp add: add.assoc)
  have r2: "(if min (ml - 4) 15 = 15 then LZ4_read_run ?src (length ?p1 + ?l + 2) 15 else Some (length ?p1 + ?l + 2, min (ml - 4) 15))
      = Some (length (pre @ seq_bytes s), ml - 4)"
    using read_length [OF refl, of "length ?p1 + ?l + 2" "?p2 @ lz4_le16 off" "ml - 4" rest] unfolding src(5)
    by (simp add: lz4_le16_def s seq_bytes_def)
  let ?y = "overlay_at ?op x (le32 (of_nat off))"
  have y: "obj_write x ?op (le32 (of_nat off)) = Some ?y" "length ?y = length dst" "take ?op ?y = out @ lits"
    using x(2) x3 k(6) dst(2) by (simp_all add: obj_write_Some take_overlay_at_le)
  obtain z where z: "LZ4_copy_match n ?y ?op off ml = Some (Some z)" "length z = length dst"
      "take (?op + ml) z = seq_apply out s"
    using copy_match_extend [of off ?op ml n ?y] k y dst(2) by (auto simp: s seq_apply_def)
  have f: "\<not> n < length out + ?l + WILDCOPYLENGTH"
    using k(6) by (simp add: WILDCOPYLENGTH_def)
  have a: "length (seq_apply out s) = ?op + ml"
    by (simp add: s seq_apply_def)
  have m: "ML_MASK = 15" "RUN_MASK = 15" "2 ^ ML_BITS = (16 :: nat)" "MINMATCH = 4"
    by (simp_all add: ML_MASK_def RUN_MASK_def ML_BITS_def MINMATCH_def)
  have "LZ4_decompress_sequence ?src n st
       = Some (Step \<lparr>d_ip = length (pre @ seq_bytes s), d_op = length (seq_apply out s), d_dst = z\<rparr>)"
    unfolding LZ4_decompress_sequence_def Let_def t bind.bind_lunit m lz4_token_parts r1 prod.case st(2,3) o r2 x(1) y(1)
    using f k(4) z(1) by (simp add: x(1) y(1) o r2 a)
  then show ?thesis
    using z a by auto
qed

lemma LZ4_decompress_last:
  assumes dst: "take (length out) dst = out" "length out + length lits \<le> length dst"
    and st: "d_ip st = length pre" "d_op st = length out" "d_dst st = dst"
  shows "\<exists>st'. LZ4_decompress_sequence (pre @ last_bytes lits @ rest) (length out + length lits) st
       = Some (Stop (int (length (pre @ last_bytes lits))) st')
     \<and> take (length out + length lits) (d_dst st') = out @ lits \<and> length (d_dst st') = length dst"
proof -
  let ?src = "pre @ last_bytes lits @ rest" and ?l = "length lits" and ?p0 = "pre @ [lz4_token (length lits) 0]"
  let ?p1 = "?p0 @ lz4_ext ?l"
  have src: "?src = pre @ lz4_token ?l 0 # lz4_ext ?l @ lits @ rest" "?src = ?p0 @ lz4_ext ?l @ lits @ rest"
    "?src = ?p1 @ lits @ rest"
    by (simp_all add: last_bytes_def)
  have t: "LZ4_read8 ?src (d_ip st) = Some (of_char (lz4_token ?l 0))"
    unfolding st(1) src(1) by simp
  have r1: "(if min ?l 15 = 15 then LZ4_read_run ?src (d_ip st + 1) 15 else Some (d_ip st + 1, min ?l 15)) = Some (length ?p1, ?l)"
    unfolding src(2) by (rule read_length) (simp_all add: st(1))
  have m: "RUN_MASK = 15" "2 ^ ML_BITS = (16 :: nat)"
    by (simp_all add: RUN_MASK_def ML_BITS_def)
  have lits: "obj_read ?src (length ?p1) ?l = Some lits"
    unfolding src(3) by (subst obj_read_Some) simp_all
  let ?y = "overlay_at (length out) dst lits"
  have y: "obj_write dst (length out) lits = Some ?y" "length ?y = length dst" "take (length out + ?l) ?y = out @ lits"
    using dst by (simp_all add: obj_write_Some take_overlay_at_end)
  have "LZ4_decompress_sequence ?src (length out + ?l) st = Some (Stop (int (length (pre @ last_bytes lits)))
      \<lparr>d_ip = length (pre @ last_bytes lits), d_op = length out + ?l, d_dst = ?y\<rparr>)"
    unfolding LZ4_decompress_sequence_def Let_def t bind.bind_lunit m lz4_token_parts r1 prod.case st(2,3)
    using lits y(1) by (simp add: WILDCOPYLENGTH_def last_bytes_def)
  then show ?thesis
    using y by auto
qed

lemma seqs_ok_last:
  "seqs_ok n out ss \<Longrightarrow> ss \<noteq> [] \<Longrightarrow> length (foldl seq_apply out ss) + LASTLITERALS \<le> n"
proof (induction ss arbitrary: out)
  case (Cons s ss)
  then show ?case
    by (cases ss) (auto simp: seq_ok_def seq_apply_def)
qed simp

lemma LZ4_decompress_loop_ok:
  assumes "seqs_ok n out ss" "n = length (foldl seq_apply out ss @ lits)"
    and "take (length out) dst = out" "length dst = n" "d_ip st = length pre" "d_op st = length out" "d_dst st = dst"
  shows "LZ4_decompress_loop (pre @ block_bytes ss lits @ rest) n st
     = Some (int (length (pre @ block_bytes ss lits)), foldl seq_apply out ss @ lits)"
  using assms
proof (induction ss arbitrary: out dst st pre)
  case Nil
  have n: "n = length out + length lits" "length out + length lits \<le> length dst"
    using Nil.prems(2,4) by simp_all
  obtain st' where s: "LZ4_decompress_sequence (pre @ last_bytes lits @ rest) (length out + length lits) st
       = Some (Stop (int (length (pre @ last_bytes lits))) st')"
      "take (length out + length lits) (d_dst st') = out @ lits" "length (d_dst st') = length dst"
    using LZ4_decompress_last [OF Nil.prems(3) n(2) Nil.prems(5-7), of rest] by blast
  have "d_dst st' = out @ lits"
    using s(2,3) Nil.prems(4) n by simp
  then show ?case
    using s(1) n(1) by (subst LZ4_decompress_loop.simps) (simp add: block_bytes_def)
next
  case (Cons s ss)
  obtain l off ml where s: "s = (l, off, ml)"
    by (metis prod_cases3)
  have ok: "seq_ok n out s" "seqs_ok n (seq_apply out s) ss"
    using Cons.prems(1) by simp_all
  have "length (foldl seq_apply out (s # ss)) + LASTLITERALS \<le> n"
    using seqs_ok_last [OF Cons.prems(1)] by simp
  then have l5: "5 \<le> length lits"
    using Cons.prems(2) by (simp add: LASTLITERALS_def)
  let ?rest = "block_bytes ss lits @ rest"
  have r: "6 \<le> length ?rest"
    using l5 by (simp add: block_bytes_def last_bytes_def)
  have le: "n \<le> length dst"
    using Cons.prems(4) by simp
  obtain dst' where d: "LZ4_decompress_sequence (pre @ seq_bytes s @ ?rest) n st
       = Some (Step \<lparr>d_ip = length (pre @ seq_bytes s), d_op = length (seq_apply out s), d_dst = dst'\<rparr>)"
      "length dst' = length dst" "take (length (seq_apply out s)) dst' = seq_apply out s"
    using LZ4_decompress_sequence_ok [OF s ok(1) r Cons.prems(3) le Cons.prems(5-7)] by blast
  have e: "pre @ block_bytes (s # ss) lits @ rest = pre @ seq_bytes s @ ?rest"
    "pre @ seq_bytes s @ ?rest = (pre @ seq_bytes s) @ block_bytes ss lits @ rest"
    by (simp_all add: block_bytes_def)
  have "LZ4_decompress_loop ((pre @ seq_bytes s) @ block_bytes ss lits @ rest) n
      \<lparr>d_ip = length (pre @ seq_bytes s), d_op = length (seq_apply out s), d_dst = dst'\<rparr>
     = Some (int (length ((pre @ seq_bytes s) @ block_bytes ss lits)), foldl seq_apply (seq_apply out s) ss @ lits)"
    by (rule Cons.IH [OF ok(2)]) (use Cons.prems d in simp_all)
  then show ?case
    unfolding e using d(1) by (subst LZ4_decompress_loop.simps) (simp add: block_bytes_def)
qed

lemma LZ4_decompress_block:
  assumes "seqs_ok n [] ss" "n = length (block_data ss lits)" "length dst = n"
  shows "LZ4_decompress_fast (block_bytes ss lits @ rest) dst n
     = Some (int (length (block_bytes ss lits)), block_data ss lits)"
proof (cases "n = 0")
  case True
  have "ss = []"
    using seqs_ok_last [OF assms(1)] True by (cases ss) (auto simp: LASTLITERALS_def)
  moreover have "lits = []" "dst = []"
    using True assms by (simp_all add: block_data_def)
  ultimately show ?thesis
    using True by (simp add: LZ4_decompress_fast_def block_bytes_def block_data_def last_bytes_def lz4_ext_def
        LZ4_read8_def lz4_token_value)
next
  case False
  have l: "LZ4_decompress_loop ([] @ block_bytes ss lits @ rest) n \<lparr>d_ip = 0, d_op = 0, d_dst = dst\<rparr>
      = Some (int (length ([] @ block_bytes ss lits)), foldl seq_apply [] ss @ lits)"
    by (rule LZ4_decompress_loop_ok [OF assms(1)]) (use assms(2,3) in \<open>simp_all add: block_data_def\<close>)
  show ?thesis
    unfolding LZ4_decompress_fast_def using False l by (simp add: block_data_def)
qed

end
