(* ===== verification/Lz4Enc.thy ===== *)
theory Lz4Enc
  imports Lz4Laws
begin

section \<open>What the compressor writes\<close>

lemma LZ4_put_run_eq:
  "LZ4_put_run x op dst = (if op + length (lz4_run x) \<le> length dst
     then Some (op + length (lz4_run x), overlay_at op dst (lz4_run x)) else None)"
proof (induction x op dst rule: LZ4_put_run.induct)
  case (1 x op dst)
  show ?case
  proof (cases "255 \<le> x")
    case True
    then have r: "lz4_run x = CHR 0xFF # lz4_run (x - 255)"
      by (simp add: lz4_run_def le_div_geq le_mod_geq flip: replicate_Suc)
    show ?thesis
    proof (cases "op + 1 \<le> length dst")
      case w: True
      have "LZ4_put_run x op dst = LZ4_put_run (x - 255) (op + 1) (overlay_at op dst [CHR 0xFF])"
        using True w by (subst LZ4_put_run.simps) (simp add: obj_write_def)
      also have "\<dots> = (if op + 1 + length (lz4_run (x - 255)) \<le> length dst
          then Some (op + 1 + length (lz4_run (x - 255)), overlay_at op dst ([CHR 0xFF] @ lz4_run (x - 255))) else None)"
        using "1.IH" [OF True, of "overlay_at op dst [CHR 0xFF]"] w overlay_at_twice [of op dst "[CHR 0xFF]" "op + 1" "lz4_run (x - 255)"]
        by (simp add: obj_write_def)
      finally show ?thesis
        unfolding r by simp
    next
      case False
      then show ?thesis
        using True by (subst LZ4_put_run.simps) (simp add: obj_write_def r)
    qed
  next
    case False
    then show ?thesis
      by (subst LZ4_put_run.simps) (simp add: obj_write_def lz4_run_def)
  qed
qed

lemma LZ4_put_words_eq:
  "LZ4_put_words code op dst = (if code div 1020 = 0 \<or> op + 4 + 4 * (code div 1020) \<le> length dst
     then Some (code mod 1020, op + 4 * (code div 1020), overlay_at (op + 4) dst (replicate (4 * (code div 1020)) (CHR 0xFF)))
     else None)"
proof (induction code op dst rule: LZ4_put_words.induct)
  case (1 code op dst)
  let ?ff = "replicate 4 (CHR 0xFF)"
  show ?case
  proof (cases "1020 \<le> code")
    case True
    then have d: "code div 1020 = Suc ((code - 1020) div 1020)" "code mod 1020 = (code - 1020) mod 1020"
      by (simp_all add: le_div_geq le_mod_geq)
    define k where "k = (code - 1020) div 1020"
    have rep: "replicate (4 * Suc k) (CHR 0xFF) = ?ff @ replicate (4 * k) (CHR 0xFF)"
      by (simp add: replicate_add [symmetric])
    show ?thesis
    proof (cases "op + 4 + 4 \<le> length dst")
      case w: True
      have "LZ4_put_words code op dst = LZ4_put_words (code - 1020) (op + 4) (overlay_at (op + 4) dst ?ff)"
        using True w by (subst LZ4_put_words.simps) (simp add: obj_write_def)
      also have "\<dots> = (if k = 0 \<or> op + 4 + 4 + 4 * k \<le> length dst
          then Some ((code - 1020) mod 1020, op + 4 + 4 * k, overlay_at (op + 4 + 4) (overlay_at (op + 4) dst ?ff) (replicate (4 * k) (CHR 0xFF)))
          else None)"
        using "1.IH" [of "overlay_at (op + 4) dst ?ff"] True w by (simp add: obj_write_def k_def)
      also have "overlay_at (op + 4 + 4) (overlay_at (op + 4) dst ?ff) (replicate (4 * k) (CHR 0xFF))
          = overlay_at (op + 4) dst (replicate (4 * Suc k) (CHR 0xFF))"
        unfolding rep using w by (intro overlay_at_twice) simp_all
      finally show ?thesis
        unfolding d k_def [symmetric] using w by auto
    next
      case False
      then show ?thesis
        using True by (subst LZ4_put_words.simps) (simp add: obj_write_def d)
    qed
  next
    case False
    then show ?thesis
      by (subst LZ4_put_words.simps) simp
  qed
qed

lemma take_overlay_at_part:
  "p \<le> length obj \<Longrightarrow> k \<le> length bs \<Longrightarrow> take (p + k) (overlay_at p obj bs) = take p obj @ take k bs"
  by (simp add: overlay_at_def)

lemma length_lz4_ext: "length (lz4_ext x) = (if x < 15 then 0 else (x - 15) div 255 + 1)"
  by (simp add: lz4_ext_def)

lemma LZ4_put_length_eq:
  "LZ4_put_length l op dst = (if op + 1 + length (lz4_ext l) \<le> length dst
     then Some (op + 1 + length (lz4_ext l), overlay_at op dst (lz4_token l 0 # lz4_ext l)) else None)"
proof (cases "l < 15")
  case True
  then show ?thesis
    by (simp add: LZ4_put_length_def RUN_MASK_def ML_BITS_def obj_write_def lz4_ext_def lz4_token_def min_def)
next
  case False
  then have t: "lz4_token l 0 = char_of (240 :: nat)" "lz4_ext l = lz4_run (l - 15)"
    by (simp_all add: lz4_token_def lz4_ext_def)
  show ?thesis
  proof (cases "op + 1 \<le> length dst")
    case w: True
    have "overlay_at (op + 1) (overlay_at op dst [lz4_token l 0]) (lz4_run (l - 15)) = overlay_at op dst ([lz4_token l 0] @ lz4_run (l - 15))"
      using w by (intro overlay_at_twice) simp_all
    then show ?thesis
      using False w t by (simp add: LZ4_put_length_def RUN_MASK_def ML_BITS_def obj_write_def LZ4_put_run_eq)
  next
    case nw: False
    then show ?thesis
      using False by (simp add: LZ4_put_length_def RUN_MASK_def ML_BITS_def obj_write_def)
  qed
qed

lemma LZ4_put_literals_eq:
  assumes "anchor \<le> ip" "\<not> LZ4_exceeds olimit (op + 1 + (ip - anchor) + (2 + 1 + LASTLITERALS) + (ip - anchor) div 255)"
  defines "h \<equiv> lz4_token (ip - anchor) 0 # lz4_ext (ip - anchor)"
  shows "LZ4_put_literals olimit src anchor ip op dst =
     (if op + length h + wild_span (ip - anchor) \<le> length dst \<and> anchor + wild_span (ip - anchor) \<le> length src
      then Some (Inr (op, op + length h + (ip - anchor), overlay_at op dst (h @ take (wild_span (ip - anchor)) (drop anchor src))))
      else None)"
proof -
  let ?l = "ip - anchor" and ?w = "wild_span (ip - anchor)"
  have d: "op + length h + ?l - (op + length h) = ?l"
    by simp
  show ?thesis
  proof (cases "op + length h \<le> length dst")
    case True
    then have p: "LZ4_put_length ?l op dst = Some (op + length h, overlay_at op dst h)"
      by (simp add: LZ4_put_length_eq h_def)
    have o: "overlay_at (op + length h) (overlay_at op dst h) x = overlay_at op dst (h @ x)" for x
      using True by (intro overlay_at_twice) simp_all
    show ?thesis
      using assms(2) True unfolding LZ4_put_literals_def Let_def p bind.bind_lunit prod.case LZ4_wildCopy_eq d by (simp add: o)
  next
    case False
    then have p: "LZ4_put_length ?l op dst = None"
      by (simp add: LZ4_put_length_eq h_def)
    show ?thesis
      using assms(2) False unfolding LZ4_put_literals_def Let_def p by simp
  qed
qed

lemma LZ4_put_literals_written:
  assumes "LZ4_put_literals olimit src anchor ip op dst = Some (Inr (token, op', dst'))" "anchor \<le> ip" "ip \<le> length src"
  defines "h \<equiv> lz4_token (ip - anchor) 0 # lz4_ext (ip - anchor)"
  shows "token = op" "op' = op + length h + (ip - anchor)" "length dst' = length dst" "op' \<le> length dst"
    "take op' dst' = take op dst @ h @ take (ip - anchor) (drop anchor src)"
    "\<not> LZ4_exceeds olimit (op + 1 + (ip - anchor) + (2 + 1 + LASTLITERALS) + (ip - anchor) div 255)"
proof -
  let ?w = "wild_span (ip - anchor)" and ?l = "ip - anchor"
  show ne: "\<not> LZ4_exceeds olimit (op + 1 + (ip - anchor) + (2 + 1 + LASTLITERALS) + (ip - anchor) div 255)"
    using assms(1) by (auto simp: LZ4_put_literals_def Let_def)
  note eq = LZ4_put_literals_eq [OF assms(2) ne, of src dst, folded h_def]
  have c: "op + length h + ?w \<le> length dst" "anchor + ?w \<le> length src" "token = op" "op' = op + length h + ?l"
    "dst' = overlay_at op dst (h @ take ?w (drop anchor src))"
    using assms(1) unfolding eq by (auto split: if_splits)
  have w: "?l \<le> ?w"
    by (rule wild_span_bounds)
  have len: "length (h @ take ?w (drop anchor src)) = length h + ?w"
    using c(2) by simp
  have "take (op + (length h + ?l)) (overlay_at op dst (h @ take ?w (drop anchor src)))
      = take op dst @ take (length h + ?l) (h @ take ?w (drop anchor src))"
    unfolding overlay_at_def using c(1) w len by simp
  also have "take (length h + ?l) (h @ take ?w (drop anchor src)) = h @ take ?l (drop anchor src)"
    using w by (simp add: min_absorb1)
  finally show "take op' dst' = take op dst @ h @ take ?l (drop anchor src)"
    by (simp add: c(4,5) add.assoc)
  show "length dst' = length dst"
    unfolding c(5) using c(1) len by (intro length_overlay_at) simp
  show "token = op" "op' = op + length h + (ip - anchor)"
    by (rule c)+
  show "op' \<le> length dst"
    using c(1,4) w by simp
qed

definition code_span :: "nat \<Rightarrow> nat" where
  "code_span code = (if code < 15 then 0 else 4 * ((code - 15) div 1020) + 4)"

lemma div_255_1020: "(x :: nat) div 255 = 4 * (x div 1020) + x mod 1020 div 255"
proof -
  have "x = x mod 1020 + 255 * (4 * (x div 1020))"
    by simp
  then have "x div 255 = (x mod 1020 + 255 * (4 * (x div 1020))) div 255"
    by (rule arg_cong)
  also have "\<dots> = 4 * (x div 1020) + x mod 1020 div 255"
    by (subst div_mult_self2) simp_all
  finally show ?thesis .
qed

lemma mod_1020_div_255: "(x :: nat) mod 1020 div 255 \<le> 3"
proof -
  have "x mod 1020 < 255 * 4"
    by simp
  then have "x mod 1020 div 255 < 4"
    by (intro less_mult_imp_div_less) simp
  then show ?thesis
    by simp
qed

lemma code_span_bounds: "length (lz4_ext code) \<le> code_span code" "code_span code \<le> length (lz4_ext code) + 3"
  using div_255_1020 [of "code - 15"] mod_1020_div_255 [of "code - 15"] by (auto simp: length_lz4_ext code_span_def)

lemma LZ4_add_token_eq:
  "token < length dst \<Longrightarrow> LZ4_add_token dst token v = Some (overlay_at token dst [char_of (of_char (dst ! token) + v)])"
  by (simp add: LZ4_add_token_def LZ4_read8_def obj_write_def)

lemma LZ4_put_code_long:
  assumes "15 \<le> code" "op \<le> length dst" "token < op"
  defines "x \<equiv> code - 15" and "dst1 \<equiv> overlay_at token dst [char_of (of_char (dst ! token) + (15 :: nat))]"
  shows "LZ4_put_code code token op dst = (if op + code_span code \<le> length dst
     then Some (op + x div 255 + 1, overlay_at (op + x div 255)
       (overlay_at op dst1 (replicate (4 * (x div 1020) + 4) (CHR 0xFF))) [char_of (x mod 255)]) else None)"
proof -
  let ?k = "x div 1020"
  have m: "x mod 1020 mod 255 = x mod 255"
    by (simp add: mod_mod_cancel)
  have t: "LZ4_add_token dst token 15 = Some dst1" "length dst1 = length dst"
    using assms(2,3) by (simp_all add: LZ4_add_token_eq dst1_def)
  have sp: "code_span code = 4 * ?k + 4"
    using assms(1) by (simp add: code_span_def x_def)
  show ?thesis
  proof (cases "op + 4 \<le> length dst")
    case True
    let ?dst2 = "overlay_at op dst1 (replicate 4 (CHR 0xFF))"
    have w: "obj_write dst1 op (replicate 4 (CHR 0xFF)) = Some ?dst2" "length ?dst2 = length dst"
      using True t(2) by (simp_all add: obj_write_Some)
    have o: "overlay_at (op + 4) ?dst2 (replicate (4 * ?k) (CHR 0xFF)) = overlay_at op dst1 (replicate (4 * ?k + 4) (CHR 0xFF))"
      using True t(2) overlay_at_twice [of op dst1 "replicate 4 (CHR 0xFF)" "op + 4" "replicate (4 * ?k) (CHR 0xFF)"]
      by (simp add: replicate_add [symmetric] add.commute)
    have e: "op + 4 * ?k + x mod 1020 div 255 = op + x div 255"
      using div_255_1020 [of x] by simp
    have p: "LZ4_put_words x op ?dst2 = (if op + code_span code \<le> length dst
        then Some (x mod 1020, op + 4 * ?k, overlay_at op dst1 (replicate (4 * ?k + 4) (CHR 0xFF))) else None)"
      unfolding LZ4_put_words_eq w(2) o sp using True by auto
    have fit: "op + x div 255 + 1 \<le> length dst" if "op + code_span code \<le> length dst"
      using that mod_1020_div_255 [of x] div_255_1020 [of x] unfolding sp by linarith
    show ?thesis
    proof (cases "op + code_span code \<le> length dst")
      case True
      then show ?thesis
        using assms(1) t w(1) p fit unfolding sp
        by (simp add: LZ4_put_code_def ML_MASK_def ML_BITS_def x_def [symmetric] Let_def m e obj_write_Some)
    next
      case False
      then show ?thesis
        using assms(1) t w(1) p by (simp add: LZ4_put_code_def ML_MASK_def ML_BITS_def x_def [symmetric] Let_def)
    qed
  next
    case False
    then show ?thesis
      using assms(1) t sp by (simp add: LZ4_put_code_def ML_MASK_def ML_BITS_def obj_write_def Let_def)
  qed
qed

lemma LZ4_put_code_written:
  assumes "LZ4_put_code code token op dst = Some (op', dst')" "op \<le> length dst" "token < op"
  shows "op' = op + length (lz4_ext code)" "length dst' = length dst" "op' \<le> length dst"
    "take op' dst' = take op (overlay_at token dst [char_of (of_char (dst ! token) + min code 15)]) @ lz4_ext code"
proof -
  let ?dst1 = "overlay_at token dst [char_of (of_char (dst ! token) + min code 15)]"
  have l1: "length ?dst1 = length dst"
    using assms(2,3) by simp
  have "op' = op + length (lz4_ext code) \<and> length dst' = length dst \<and> op' \<le> length dst
      \<and> take op' dst' = take op ?dst1 @ lz4_ext code"
  proof (cases "15 \<le> code")
    case True
    let ?x = "code - 15"
    let ?ff = "replicate (4 * (?x div 1020) + 4) (CHR 0xFF)"
    let ?dst2 = "overlay_at op ?dst1 ?ff"
    have m: "min code 15 = 15"
      using True by simp
    have c: "op + code_span code \<le> length dst" "op' = op + ?x div 255 + 1"
      "dst' = overlay_at (op + ?x div 255) ?dst2 [char_of (?x mod 255)]"
      using assms(1) unfolding LZ4_put_code_long [OF True assms(2,3)] m by (auto split: if_splits)
    have q: "?x div 255 \<le> 4 * (?x div 1020) + 3"
      using div_255_1020 [of ?x] mod_1020_div_255 [of ?x] by linarith
    have sp: "code_span code = 4 * (?x div 1020) + 4"
      using True by (simp add: code_span_def)
    have l2: "length ?dst2 = length dst"
      using c(1) l1 sp by simp
    have fit: "op + ?x div 255 + 1 \<le> length dst"
      using c(1) q sp by linarith
    have "take (op + ?x div 255) ?dst2 = take op ?dst1 @ take (?x div 255) ?ff"
      using assms(2) l1 q by (intro take_overlay_at_part) simp_all
    also have "take (?x div 255) ?ff = replicate (?x div 255) (CHR 0xFF)"
      using q by (simp add: take_replicate min_absorb1)
    finally have "take op' dst' = take op ?dst1 @ replicate (?x div 255) (CHR 0xFF) @ [char_of (?x mod 255)]"
      using take_overlay_at_end [of "op + ?x div 255" ?dst2 "[char_of (?x mod 255)]"] fit l2 unfolding c(2,3) by simp
    moreover have "lz4_ext code = replicate (?x div 255) (CHR 0xFF) @ [char_of (?x mod 255)]"
      using True by (simp add: lz4_ext_def lz4_run_def)
    moreover have "length dst' = length dst"
      unfolding c(3) using fit l2 by simp
    ultimately show ?thesis
      using c(2) fit by simp
  next
    case False
    then have "op' = op" "dst' = ?dst1" "lz4_ext code = []"
      using assms by (auto simp: LZ4_put_code_def ML_MASK_def ML_BITS_def LZ4_add_token_eq lz4_ext_def)
    then show ?thesis
      using assms(2) l1 by simp
  qed
  then show "op' = op + length (lz4_ext code)" "length dst' = length dst" "op' \<le> length dst"
    "take op' dst' = take op ?dst1 @ lz4_ext code"
    by blast+
qed

lemma LZ4_put_code_defined:
  assumes "op + code_span code \<le> length dst" "token < op"
  shows "\<exists>r. LZ4_put_code code token op dst = Some r"
proof (cases "15 \<le> code")
  case True
  then show ?thesis
    using assms LZ4_put_code_long [OF True, of op dst token] by simp
next
  case False
  then show ?thesis
    using assms by (simp add: LZ4_put_code_def ML_MASK_def ML_BITS_def LZ4_add_token_eq)
qed

section \<open>Comparing\<close>

lemma rd32_eq_iff: "length a = 4 \<Longrightarrow> length b = 4 \<Longrightarrow> rd32 a = rd32 b \<longleftrightarrow> a = b"
  by (metis le32_rd32)

lemma LZ4_read32_Some: "LZ4_read32 src p = (if p + 4 \<le> length src then Some (rd32 (take 4 (drop p src))) else None)"
  by (simp add: LZ4_read32_def obj_read_def)

lemma take_drop_eq_iff:
  "p + k \<le> length src \<Longrightarrow> q + k \<le> length src \<Longrightarrow>
     take k (drop p src) = take k (drop q src) \<longleftrightarrow> (\<forall>i < k. src ! (p + i) = src ! (q + i))"
  by (auto simp: list_eq_iff_nth_eq)

definition same_at :: "byte list \<Rightarrow> nat \<Rightarrow> nat \<Rightarrow> nat \<Rightarrow> bool" where
  "same_at src p q k \<longleftrightarrow> (\<forall>i < k. src ! (p + i) = src ! (q + i))"

lemma read32_same:
  assumes "LZ4_read32 src p = Some a" "LZ4_read32 src q = Some b"
  shows "a = b \<longleftrightarrow> same_at src p q 4"
  using assms rd32_eq_iff [of "take 4 (drop p src)" "take 4 (drop q src)"] take_drop_eq_iff [of p 4 src q]
  by (auto simp: LZ4_read32_Some same_at_def split: if_splits)

text \<open>The builtin finds the first byte that differs.\<close>

definition common_prefix :: "byte list \<Rightarrow> nat \<Rightarrow> nat \<Rightarrow> nat \<Rightarrow> nat" where
  "common_prefix src p q lim = length (takeWhile (\<lambda>i. src ! (p + i) = src ! (q + i)) [0..<lim - p])"

lemma common_prefixI:
  assumes "same_at src p q k" "p + k \<le> lim" "p + k = lim \<or> src ! (p + k) \<noteq> src ! (q + k)"
  shows "common_prefix src p q lim = k"
proof (cases "p + k = lim")
  case True
  then have k: "lim - p = k"
    by simp
  have t: "takeWhile (\<lambda>i. src ! (p + i) = src ! (q + i)) [0..<k] = [0..<k]"
    unfolding takeWhile_eq_all_conv using assms(1) by (simp add: same_at_def)
  show ?thesis
    by (simp only: common_prefix_def k t length_upt)
next
  case False
  then have k: "k < lim - p"
    using assms(2) by linarith
  have "takeWhile (\<lambda>i. src ! (p + i) = src ! (q + i)) [0..<lim - p] = take k [0..<lim - p]"
    by (rule takeWhile_eq_take_P_nth) (use assms k False in \<open>auto simp: same_at_def\<close>)
  then show ?thesis
    using k by (simp add: common_prefix_def)
qed

lemma char_of_eq_bits: "(char_of n = char_of m) \<longleftrightarrow> (\<forall>i < 8. bit n i = bit m i)" for n m :: nat
proof -
  have "(char_of n = char_of m) \<longleftrightarrow> take_bit 8 n = take_bit 8 m"
    by (simp add: char_of_eq_iff take_bit_eq_mod)
  also have "\<dots> \<longleftrightarrow> (\<forall>i < 8. bit n i = bit m i)"
    by (auto simp: bit_eq_iff bit_take_bit_iff)
  finally show ?thesis .
qed

lemma le32_nth_eq:
  assumes "j < 4"
  shows "le32 a ! j = le32 b ! j \<longleftrightarrow> (\<forall>i < 8. bit a (8 * j + i) = bit b (8 * j + i))"
proof -
  have b: "bit (unat w div 2 ^ (8 * j)) i = bit w (8 * j + i)" for w :: u32 and i
    by (simp add: drop_bit_eq_div [symmetric] bit_drop_bit_eq bit_unsigned_iff)
  have "j = 0 \<or> j = 1 \<or> j = 2 \<or> j = 3"
    using assms by linarith
  then have "le32 w ! j = char_of (unat w div 2 ^ (8 * j))" for w
    by (elim disjE) (simp_all add: le32_def)
  then show ?thesis
    by (simp only: char_of_eq_bits b)
qed

lemma ctz32_bits:
  assumes "v \<noteq> 0"
  shows "ctz32 v < 32" "bit v (ctz32 v)" "\<forall>i < ctz32 v. \<not> bit v i"
proof -
  have len: "length (takeWhile (\<lambda>i. \<not> bit v i) [0..<32]) \<le> 32"
    using length_takeWhile_le [of "\<lambda>i. \<not> bit v i" "[0..<32]"] by simp
  obtain n where n: "bit v n"
    using assms bit_eqI [of v 0] by auto
  then have "n < 32"
    using bit_imp_le_length [OF n] by simp
  then have "takeWhile (\<lambda>i. \<not> bit v i) [0..<32] \<noteq> [0..<32]"
    using n by (auto simp: takeWhile_eq_all_conv)
  then have ne: "length (takeWhile (\<lambda>i. \<not> bit v i) [0..<32]) \<noteq> 32"
    by (metis length_upt minus_nat.diff_0 takeWhile_eq_take take_all_iff order_refl)
  then show lt: "ctz32 v < 32"
    using len by (simp add: ctz32_def)
  show "bit v (ctz32 v)"
    using nth_length_takeWhile [of "\<lambda>i. \<not> bit v i" "[0..<32]"] lt by (simp add: ctz32_def)
  show "\<forall>i < ctz32 v. \<not> bit v i"
  proof (intro allI impI)
    fix i
    assume i: "i < ctz32 v"
    then have "takeWhile (\<lambda>i. \<not> bit v i) [0..<32] ! i = i"
      using lt by (simp add: ctz32_def takeWhile_nth)
    then show "\<not> bit v i"
      using i nth_mem [of i "takeWhile (\<lambda>i. \<not> bit v i) [0..<32]"] set_takeWhileD by (metis ctz32_def)
  qed
qed

lemma NbCommonBytes_prefix:
  assumes "LZ4_read32 src q = Some a" "LZ4_read32 src p = Some b" "a XOR b \<noteq> 0"
  defines "k \<equiv> LZ4_NbCommonBytes (a XOR b)"
  shows "k < 4" "same_at src p q k" "src ! (p + k) \<noteq> src ! (q + k)"
proof -
  note c = ctz32_bits [OF assms(3)]
  have m: "8 * k \<le> ctz32 (a XOR b)" "ctz32 (a XOR b) = 8 * k + ctz32 (a XOR b) mod 8"
    by (simp_all add: k_def LZ4_NbCommonBytes_def)
  show k4: "k < 4"
    using c(1) m(1) by simp
  have bytes: "src ! (p + j) = le32 b ! j" "src ! (q + j) = le32 a ! j" if "j < 4" for j
  proof -
    have "le32 b = take 4 (drop p src)" "le32 a = take 4 (drop q src)" "p + 4 \<le> length src" "q + 4 \<le> length src"
      using assms(1,2) by (auto simp: LZ4_read32_Some le32_rd32 split: if_splits)
    then show "src ! (p + j) = le32 b ! j" "src ! (q + j) = le32 a ! j"
      using that by simp_all
  qed
  show "same_at src p q k"
    unfolding same_at_def
  proof (intro allI impI)
    fix j
    assume j: "j < k"
    have "8 * j + i < ctz32 (a XOR b)" if "i < 8" for i
      using that j m(1) by linarith
    then have "bit a (8 * j + i) = bit b (8 * j + i)" if "i < 8" for i
      using c(3) that by (simp add: bit_xor_iff)
    then show "src ! (p + j) = src ! (q + j)"
      using j k4 by (simp add: bytes le32_nth_eq)
  qed
  have "bit a (8 * k + ctz32 (a XOR b) mod 8) \<noteq> bit b (8 * k + ctz32 (a XOR b) mod 8)"
    using c(2) unfolding m(2) [symmetric] by (simp add: bit_xor_iff)
  moreover have "ctz32 (a XOR b) mod 8 < 8"
    by simp
  ultimately have "\<not> (\<forall>i < 8. bit b (8 * k + i) = bit a (8 * k + i))"
    by blast
  then show "src ! (p + k) \<noteq> src ! (q + k)"
    using k4 by (simp add: bytes le32_nth_eq)
qed

lemma same_at_0 [simp]: "same_at src p q 0"
  by (simp add: same_at_def)

lemma same_at_add: "same_at src p q (a + b) \<longleftrightarrow> same_at src p q a \<and> same_at src (p + a) (q + a) b"
proof (induction b)
  case (Suc b)
  then show ?case
    by (auto simp: same_at_def less_Suc_eq add.assoc)
qed simp

lemma LZ4_count_words_spec:
  assumes "lim \<le> length src" "q \<le> p"
  shows "\<exists>q' stop k. LZ4_count_words src p q lim = Some (p + k, q', stop) \<and> same_at src p q k
     \<and> (if stop then p + k < lim \<and> src ! (p + k) \<noteq> src ! (q + k)
        else q' = q + k \<and> lim \<le> p + k + 3 \<and> (k = 0 \<or> p + k \<le> lim))"
  using assms
proof (induction src p q lim rule: LZ4_count_words.induct)
  case (1 src p q lim)
  show ?case
  proof (cases "p + 3 < lim")
    case True
    then obtain a b where r: "LZ4_read32 src q = Some a" "LZ4_read32 src p = Some b"
      using "1.prems" by (simp add: LZ4_read32_Some)
    show ?thesis
    proof (cases "a XOR b = 0")
      case eq: True
      then have "a = b"
        by (metis xor.left_commute xor_self_eq xor.right_neutral)
      then have s: "same_at src p q 4"
        using read32_same [OF r(2,1)] by simp
      obtain q' stop k where i: "LZ4_count_words src (p + 4) (q + 4) lim = Some (p + 4 + k, q', stop)"
          "same_at src (p + 4) (q + 4) k"
          "if stop then p + 4 + k < lim \<and> src ! (p + 4 + k) \<noteq> src ! (q + 4 + k)
           else q' = q + 4 + k \<and> lim \<le> p + 4 + k + 3 \<and> (k = 0 \<or> p + 4 + k \<le> lim)"
        using "1.IH" [OF True r eq] "1.prems" by auto
      have "LZ4_count_words src p q lim = Some (p + (4 + k), q', stop)"
        using True r eq i(1) by (subst LZ4_count_words.simps) (simp add: add.assoc)
      moreover have "same_at src p q (4 + k)"
        unfolding same_at_add using s i(2) by simp
      ultimately show ?thesis
        using i(3) True by (intro exI [of _ q'] exI [of _ stop] exI [of _ "4 + k"]) (auto simp: add.assoc)
    next
      case False
      note n = NbCommonBytes_prefix [OF r False]
      have "LZ4_count_words src p q lim = Some (p + LZ4_NbCommonBytes (a XOR b), q, True)"
        using True r False by (subst LZ4_count_words.simps) simp
      then show ?thesis
        using n True by (intro exI [of _ q] exI [of _ True] exI [of _ "LZ4_NbCommonBytes (a XOR b)"]) simp
    qed
  next
    case False
    then have "LZ4_count_words src p q lim = Some (p + 0, q, False)"
      by (subst LZ4_count_words.simps) simp
    then show ?thesis
      using False by (intro exI [of _ q] exI [of _ False] exI [of _ 0]) simp
  qed
qed

lemma LZ4_count_eq:
  assumes "lim \<le> length src" "q \<le> p"
  shows "LZ4_count src p q lim = Some (common_prefix src p q lim)"
proof -
  obtain q' stop k where w: "LZ4_count_words src p q lim = Some (p + k, q', stop)" "same_at src p q k"
    and c: "if stop then p + k < lim \<and> src ! (p + k) \<noteq> src ! (q + k)
        else q' = q + k \<and> lim \<le> p + k + 3 \<and> (k = 0 \<or> p + k \<le> lim)"
    using LZ4_count_words_spec [OF assms] by blast
  show ?thesis
  proof (cases stop)
    case True
    then have "common_prefix src p q lim = k"
      using w(2) c by (intro common_prefixI) simp_all
    then show ?thesis
      using w True by (simp add: LZ4_count_def)
  next
    case False
    then have c': "q' = q + k" "lim \<le> p + k + 3" "k = 0 \<or> p + k \<le> lim"
      using c by simp_all
    define k2 where "k2 = (if p + k + 1 < lim \<and> same_at src (p + k) (q + k) 2 then k + 2 else k)"
    have s2: "same_at src p q k2" "k2 = 0 \<or> p + k2 \<le> lim"
      using w(2) c'(3) same_at_add [of src p q k 2] unfolding k2_def by auto
    have r2: "(if p + k + 1 < lim then do {
            a \<leftarrow> obj_read src (q + k) 2; b \<leftarrow> obj_read src (p + k) 2;
            Some (if a = b then (p + k + 2, q + k + 2) else (p + k, q + k)) } else Some (p + k, q + k)) = Some (p + k2, q + k2)"
      using assms take_drop_eq_iff [of "q + k" 2 src "p + k"]
      by (auto simp: k2_def obj_read_def same_at_def)
    define k3 where "k3 = (if p + k2 < lim \<and> src ! (p + k2) = src ! (q + k2) then k2 + 1 else k2)"
    have r3: "(if p + k2 < lim then do {
            a \<leftarrow> LZ4_read8 src (q + k2); b \<leftarrow> LZ4_read8 src (p + k2);
            Some (if a = b then p + k2 + 1 else p + k2) } else Some (p + k2)) = Some (p + k3)"
      using assms by (auto simp: k3_def LZ4_read8_def)
    have "common_prefix src p q lim = k3"
    proof (cases "p \<le> lim")
      case True
      have "same_at src p q k3"
        using s2(1) same_at_add [of src p q k2 1] by (auto simp: k3_def same_at_def)
      moreover have "p + k3 \<le> lim"
        using True s2(2) by (auto simp: k3_def)
      moreover have "p + k3 = lim \<or> src ! (p + k3) \<noteq> src ! (q + k3)"
      proof (cases "p + k + 1 < lim")
        case lt: True
        show ?thesis
        proof (cases "same_at src (p + k) (q + k) 2")
          case True
          then have "k2 = k + 2"
            using lt by (simp add: k2_def)
          then show ?thesis
            using c'(2) lt by (auto simp: k3_def)
        next
          case False
          then have "k2 = k" "src ! (p + k) = src ! (q + k) \<Longrightarrow> src ! (p + k + 1) \<noteq> src ! (q + k + 1)"
            by (auto simp: k2_def same_at_def numeral_2_eq_2 less_Suc_eq)
          then show ?thesis
            using lt by (auto simp: k3_def)
        qed
      next
        case False
        then show ?thesis
          using True s2(2) c'(3) by (auto simp: k3_def k2_def)
      qed
      ultimately show ?thesis
        by (rule common_prefixI)
    next
      case False
      then show ?thesis
        using c'(3) by (auto simp: k3_def k2_def common_prefix_def)
    qed
    then show ?thesis
      using w(1) False c'(1) r2 r3 by (simp add: LZ4_count_def)
  qed
qed

section \<open>Finding a match\<close>

definition tab_ok :: "lz4_table \<Rightarrow> nat \<Rightarrow> bool" where
  "tab_ok tab q \<longleftrightarrow> (\<forall>h p. tab h = Some p \<longrightarrow> p < q)"

lemma tab_ok_put: "tab_ok tab q \<Longrightarrow> p < q \<Longrightarrow> tab_ok (LZ4_putPositionOnHash tt p h tab) q"
  by (auto simp: tab_ok_def LZ4_putPositionOnHash_def le_less_trans [OF mod_less_eq_dividend] split: tableType_t.splits if_splits)

lemma tab_ok_mono: "tab_ok tab q \<Longrightarrow> q \<le> q' \<Longrightarrow> tab_ok tab q'"
  by (meson less_le_trans tab_ok_def)

lemma LZ4_hashPosition_defined: "p + 4 \<le> length src \<Longrightarrow> \<exists>h. LZ4_hashPosition tt src p = Some h"
  by (simp add: LZ4_hashPosition_def LZ4_read32_Some)

definition is_match_at :: "bool \<Rightarrow> byte list \<Rightarrow> nat \<Rightarrow> nat \<Rightarrow> bool" where
  "is_match_at near src ip m \<longleftrightarrow> m < ip \<and> same_at src ip m 4 \<and> (near \<or> ip \<le> m + MAX_DISTANCE)"

lemma LZ4_is_match_spec:
  assumes "tab_ok tab ip" "ip + 4 \<le> length src"
  shows "\<exists>ok. LZ4_is_match near src (tab h) ip = Some ok \<and> (ok \<longrightarrow> (\<exists>m. tab h = Some m \<and> is_match_at near src ip m))"
proof (cases "tab h")
  case None
  then show ?thesis
    by (intro exI [of _ False]) (simp add: LZ4_is_match_def)
next
  case (Some m)
  then have m: "m < ip"
    using assms(1) by (simp add: tab_ok_def)
  then obtain a b where r: "LZ4_read32 src m = Some a" "LZ4_read32 src ip = Some b"
    using assms(2) by (simp add: LZ4_read32_Some)
  then show ?thesis
    using Some m read32_same [OF r(2,1)] by (auto simp: LZ4_is_match_def is_match_at_def)
qed

definition counter_ok :: "u32 \<Rightarrow> nat \<Rightarrow> bool" where
  "counter_ok nb rest \<longleftrightarrow> 64 \<le> unat nb \<and> unat nb + rest < 2 ^ 32"

lemma counter_step:
  assumes "counter_ok nb rest"
  shows "0 < unat (drop_bit LZ4_skipTrigger nb)" "0 < rest \<Longrightarrow> rest' < rest \<Longrightarrow> counter_ok (nb + 1) rest'"
proof -
  show "0 < unat (drop_bit LZ4_skipTrigger nb)"
    using assms skip_counter(1) [of nb] by (auto simp: counter_ok_def intro!: Nat.gr0I)
  show "counter_ok (nb + 1) rest'" if "0 < rest" "rest' < rest"
    using assms that by (simp add: counter_ok_def unat_word_ariths)
qed

definition found_ok :: "byte list \<Rightarrow> tableType_t \<Rightarrow> nat \<Rightarrow> nat \<Rightarrow> (nat \<times> nat \<times> lz4_table) option \<Rightarrow> bool" where
  "found_ok src tt ip mfl r = (case r of None \<Rightarrow> True
     | Some (ip', m, tab) \<Rightarrow> ip \<le> ip' \<and> ip' < mfl \<and> is_match_at (tt = byU16) src ip' m \<and> tab_ok tab (ip' + 1))"

lemma found_ok_mono: "found_ok src tt ip' mfl r \<Longrightarrow> ip \<le> ip' \<Longrightarrow> found_ok src tt ip mfl r"
  by (auto simp: found_ok_def split: option.splits)

lemma LZ4_search_spec:
  assumes "tab_ok tab ip" "mfl + 4 \<le> length src" "0 < step" "counter_ok nb (mfl + 1 - ip)"
  shows "\<exists>r. LZ4_search src tt mfl ip step nb h tab = Some r \<and> found_ok src tt ip mfl r"
  using assms
proof (induction src tt mfl ip step nb h tab rule: LZ4_search.induct)
  case (1 src tt mfl ip step nb h tab)
  show ?case
  proof (cases "mfl < ip + step")
    case True
    then show ?thesis
      by (subst LZ4_search.simps) (simp add: Let_def found_ok_def)
  next
    case False
    obtain h' where h: "LZ4_hashPosition tt src (ip + step) = Some h'"
      using LZ4_hashPosition_defined [of "ip + step" src tt] False "1.prems"(2) by auto
    obtain ok where ok: "LZ4_is_match (tt = byU16) src (tab h) ip = Some ok"
        "ok \<longrightarrow> (\<exists>m. tab h = Some m \<and> is_match_at (tt = byU16) src ip m)"
      using LZ4_is_match_spec [OF "1.prems"(1), of src "tt = byU16" h] False "1.prems"(2) by auto
    have t: "tab_ok (LZ4_putPositionOnHash tt ip h tab) (ip + 1)"
      by (rule tab_ok_put) (use "1.prems"(1) in \<open>auto intro: tab_ok_mono\<close>)
    show ?thesis
    proof (cases ok)
      case True
      then show ?thesis
        using False h ok t "1.prems"(3) by (subst LZ4_search.simps) (auto simp: found_ok_def)
    next
      case no: False
      have t': "tab_ok (LZ4_putPositionOnHash tt ip h tab) (ip + step)"
        by (rule tab_ok_mono [OF t]) (use "1.prems"(3) in simp)
      have c: "0 < unat (drop_bit LZ4_skipTrigger nb)" "counter_ok (nb + 1) (mfl + 1 - (ip + step))"
        using counter_step [OF "1.prems"(4)] False "1.prems"(3) by simp_all
      have e: "LZ4_search src tt mfl ip step nb h tab
          = LZ4_search src tt mfl (ip + step) (unat (drop_bit LZ4_skipTrigger nb)) (nb + 1) h' (LZ4_putPositionOnHash tt ip h tab)"
        using False h ok(1) no by (subst LZ4_search.simps) simp
      show ?thesis
        unfolding e using "1.IH" [OF refl False refl h refl ok(1) no t' "1.prems"(2) c]
        by (meson found_ok_mono le_add1)
    qed
  qed
qed

lemma LZ4_catch_up_spec:
  assumes "m \<le> ip" "ip \<le> length src" "anchor \<le> ip"
  shows "\<exists>c. LZ4_catch_up src anchor ip m = Some (ip - c, m - c) \<and> c \<le> m \<and> anchor + c \<le> ip \<and> same_at src (ip - c) (m - c) c"
  using assms
proof (induction src anchor ip m rule: LZ4_catch_up.induct)
  case (1 src anchor ip m)
  show ?case
  proof (cases "anchor < ip \<and> 0 < m")
    case True
    then have r: "LZ4_read8 src (ip - 1) = Some (of_char (src ! (ip - 1)))" "LZ4_read8 src (m - 1) = Some (of_char (src ! (m - 1)))"
      using "1.prems" by (auto simp: LZ4_read8_def)
    show ?thesis
    proof (cases "src ! (ip - 1) = src ! (m - 1)")
      case eq: True
      have b: "m - 1 \<le> ip - 1" "ip - 1 \<le> length src" "anchor \<le> ip - 1"
        using "1.prems" True by linarith+
      obtain c where c: "LZ4_catch_up src anchor (ip - 1) (m - 1) = Some (ip - 1 - c, m - 1 - c)" "c \<le> m - 1"
          "anchor + c \<le> ip - 1" "same_at src (ip - 1 - c) (m - 1 - c) c"
        using "1.IH" [OF True r] eq b by auto
      have e: "LZ4_catch_up src anchor ip m = Some (ip - (c + 1), m - (c + 1))"
        using True r eq c(1) by (subst LZ4_catch_up.simps) simp
      have "ip - (c + 1) + c = ip - 1" "m - (c + 1) + c = m - 1"
        using c(2,3) True by linarith+
      then have "same_at src (ip - (c + 1)) (m - (c + 1)) (c + 1)"
        unfolding same_at_add using c(4) eq by (simp add: same_at_def)
      moreover have "c + 1 \<le> m" "anchor + (c + 1) \<le> ip"
        using c(2,3) True by linarith+
      ultimately show ?thesis
        using e by blast
    next
      case False
      then have "LZ4_catch_up src anchor ip m = Some (ip - 0, m - 0)"
        using True r by (subst LZ4_catch_up.simps) simp
      then show ?thesis
        using "1.prems" by (intro exI [of _ 0]) simp
    qed
  next
    case False
    then have "LZ4_catch_up src anchor ip m = Some (ip - 0, m - 0)"
      by (subst LZ4_catch_up.simps) auto
    then show ?thesis
      using "1.prems" by (intro exI [of _ 0]) simp
  qed
qed

end
