(* ===== verification/Lz4Block.thy ===== *)
theory Lz4Block
  imports Lz4Enc
begin

text \<open>
  The loop of the LZ4 compressor: after every turn the destination holds the bytes of a well-formed list of sequences
  for the input read so far. The last section has the properties of the codec: the round trip, the bound that makes
  compression succeed without a stray access, and the overrun of a destination that is smaller than that.
\<close>

section \<open>What has been written so far\<close>

definition written :: "byte list \<Rightarrow> nat \<Rightarrow> nat \<Rightarrow> byte list \<Rightarrow> lz4_seq list \<Rightarrow> bool" where
  "written src anchor op dst ss \<longleftrightarrow> seqs_ok (length src) [] ss \<and> foldl seq_apply [] ss = take anchor src
     \<and> op \<le> length dst \<and> take op dst = concat (map seq_bytes ss)"

lemma seqs_ok_snoc: "seqs_ok n out (ss @ [s]) \<longleftrightarrow> seqs_ok n out ss \<and> seq_ok n (foldl seq_apply out ss) s"
  by (induction ss arbitrary: out) auto

lemma length_seq_apply: "length (seq_apply out (l, off, ml)) = length out + length l + ml"
  by (simp add: seq_apply_def)

lemma div_add_le: "(a :: nat) div 255 + b div 255 \<le> (a + b) div 255"
proof -
  have "255 * (a div 255 + b div 255) \<le> a + b"
    by (simp add: distrib_left add_mono)
  then show ?thesis
    by (simp add: less_eq_div_iff_mult_less_eq mult.commute)
qed

lemma length_lz4_ext_le: "length (lz4_ext x) \<le> 1 + x div 255"
  using div_le_mono [of "x - 15" x 255] by (simp add: length_lz4_ext)

lemma match_cost: "4 \<le> ml \<Longrightarrow> 3 + length (lz4_ext (ml - 4)) \<le> ml - 1"
  using div_le_dividend [of "ml - 4 - 15" 255] by (auto simp: length_lz4_ext)

lemma length_seq_bytes_le:
  assumes "4 \<le> ml"
  shows "length (seq_bytes (l, off, ml)) \<le> length l + ml + length l div 255"
  using match_cost [OF assms] length_lz4_ext_le [of "length l"] assms by (simp add: seq_bytes_def lz4_le16_def)

text \<open>The bytes of the sequences never outgrow what they stand for by more than one byte in 255.\<close>

lemma length_seqs_le:
  "seqs_ok n out ss \<Longrightarrow> length out + length (concat (map seq_bytes ss)) + length out div 255
     \<le> length (foldl seq_apply out ss) + length (foldl seq_apply out ss) div 255"
proof (induction ss arbitrary: out)
  case (Cons s ss)
  obtain l off ml where s: "s = (l, off, ml)"
    by (metis prod_cases3)
  have ml: "4 \<le> ml"
    using Cons.prems by (simp add: s seq_ok_def)
  have "length (seq_bytes s) \<le> length l + ml + length l div 255"
    unfolding s by (rule length_seq_bytes_le [OF ml])
  moreover have "length out div 255 + length l div 255 \<le> length (seq_apply out s) div 255"
    using div_add_le [of "length out" "length l"] div_le_mono [of "length out + length l" "length (seq_apply out s)" 255]
    by (simp add: s length_seq_apply)
  moreover have "length (seq_apply out s) + length (concat (map seq_bytes ss)) + length (seq_apply out s) div 255
      \<le> length (foldl seq_apply (seq_apply out s) ss) + length (foldl seq_apply (seq_apply out s) ss) div 255"
    using Cons by simp
  ultimately show ?case
    by (simp add: s length_seq_apply)
qed simp

lemma written_op:
  assumes "written src anchor op dst ss" "anchor \<le> length src"
  shows "op = length (concat (map seq_bytes ss))" "op \<le> anchor + anchor div 255"
proof -
  show op: "op = length (concat (map seq_bytes ss))"
    using assms(1) by (metis length_take min_absorb2 written_def)
  show "op \<le> anchor + anchor div 255"
    using length_seqs_le [of "length src" "[]" ss] assms unfolding op by (simp add: written_def)
qed

lemma seq_apply_copy:
  assumes "same_at src ip m ml" "m < ip" "anchor \<le> ip" "ip + ml \<le> length src"
  shows "seq_apply (take anchor src) (take (ip - anchor) (drop anchor src), ip - m, ml) = take (ip + ml) src"
proof -
  have t: "take anchor src @ take (ip - anchor) (drop anchor src) = take ip src"
    using assms(3) take_add [of anchor "ip - anchor" src] by simp
  have "lz4_extend (take ip src) (ip - m) ml = take (ip + ml) src"
  proof (rule lz4_extend_eqI)
    show "\<forall>j. length (take ip src) \<le> j \<and> j < length (take ip src) + ml \<longrightarrow> take (ip + ml) src ! j = take (ip + ml) src ! (j - (ip - m))"
    proof (intro allI impI)
      fix j
      assume "length (take ip src) \<le> j \<and> j < length (take ip src) + ml"
      then obtain i where i: "j = ip + i" "i < ml"
        using assms(4) by (metis add_leD1 le_iff_add length_take min_absorb2 nat_add_left_cancel_less)
      then have "j - (ip - m) = m + i"
        using assms(2) by simp
      then show "take (ip + ml) src ! j = take (ip + ml) src ! (j - (ip - m))"
        using assms(1,2) i by (simp add: same_at_def add.commute)
    qed
  qed (use assms(2,4) in auto)
  then show ?thesis
    by (simp add: seq_apply_def t)
qed

text \<open>Writing one more sequence: literals from the anchor up to \<open>ip\<close>, then a match of four bytes and more.\<close>

lemma written_snoc:
  assumes w: "written src anchor op dst ss"
    and code: "take op2 dst2 = (take op dst @ lz4_token (ip - anchor) code # lz4_ext (ip - anchor) @ take (ip - anchor) (drop anchor src))
       @ lz4_le16 (ip - m) @ lz4_ext code" "op2 \<le> length dst2"
    and pos: "anchor \<le> ip" "ip + MFLIMIT \<le> length src" "m < ip" "ip \<le> m + MAX_DISTANCE"
      "same_at src ip m (4 + code)" "ip + 4 + code + LASTLITERALS \<le> length src"
  shows "written src (ip + 4 + code) op2 dst2 (ss @ [(take (ip - anchor) (drop anchor src), ip - m, 4 + code)])"
proof -
  let ?s = "(take (ip - anchor) (drop anchor src), ip - m, 4 + code)"
  have l: "length (take (ip - anchor) (drop anchor src)) = ip - anchor" "length (take anchor src) = anchor"
    using pos(1,2) by simp_all
  have "1 \<le> ip - m" "ip - m < 2 ^ 16"
    using pos(3,4) by (simp_all add: MAX_DISTANCE_def)
  then have "seq_ok (length src) (take anchor src) ?s"
    using pos l by (simp add: seq_ok_def)
  moreover have "seq_apply (take anchor src) ?s = take (ip + 4 + code) src"
    using seq_apply_copy [OF pos(5,3,1)] pos(6) by (simp add: add.assoc)
  moreover have "take op2 dst2 = concat (map seq_bytes (ss @ [?s]))"
    using code(1) w l by (simp add: written_def seq_bytes_def)
  ultimately show ?thesis
    using w code(2) by (simp add: written_def seqs_ok_snoc)
qed

lemma token_patch:
  assumes "take k d = A @ t # B" "length A = token" "k \<le> length d"
  shows "d ! token = t" "take k (overlay_at token d [c]) = A @ c # B"
proof -
  have k: "k = length (A @ t # B)"
    using assms(1,3) by (metis length_take min_absorb2)
  have d: "d = (A @ t # B) @ drop k d"
    using append_take_drop_id [of k d] assms(1) by simp
  show "d ! token = t"
    by (subst d) (use assms(2) in \<open>simp add: nth_append\<close>)
  have "overlay_at token ((A @ t # B) @ drop k d) [c] = (A @ c # B) @ drop k d"
    using assms(2) by (simp add: overlay_at_def)
  then have "overlay_at token d [c] = (A @ c # B) @ drop k d"
    using d by simp
  then show "take k (overlay_at token d [c]) = A @ c # B"
    by (simp add: k)
qed

lemma lz4_token_add: "char_of (of_char (lz4_token a 0) + min b 15) = lz4_token a b"
  by (simp add: lz4_token_value) (simp add: lz4_token_def)

section \<open>The loop\<close>

definition room :: "nat option \<Rightarrow> nat \<Rightarrow> nat \<Rightarrow> bool" where
  "room olimit n cap \<longleftrightarrow> (case olimit of None \<Rightarrow> n + n div 255 + 16 \<le> cap | Some l \<Rightarrow> l + n div 65280 \<le> cap)"

text \<open>
  How far the output may run over its limit: the check before a match length counts one byte in 256 where the code
  writes one in 255.
\<close>

definition near_limit :: "nat option \<Rightarrow> nat \<Rightarrow> nat \<Rightarrow> bool" where
  "near_limit olimit n p \<longleftrightarrow> (case olimit of None \<Rightarrow> True | Some l \<Rightarrow> p \<le> l + n div 65280)"

definition cst_ok :: "nat option \<Rightarrow> byte list \<Rightarrow> lz4_cstate \<Rightarrow> bool" where
  "cst_ok olimit src st \<longleftrightarrow>
     (\<exists>ss. written src (c_anchor st) (c_op st) (c_dst st) ss)
     \<and> c_anchor st + MFLIMIT \<le> length src \<and> tab_ok (c_tab st) (c_anchor st + 1)
     \<and> (\<forall>m. c_pending st = Some m \<longrightarrow> is_match_at False src (c_anchor st) m \<and> near_limit olimit (length src) (c_op st + 4))"

definition literals_ok :: "nat option \<Rightarrow> byte list \<Rightarrow> lz4_cstate \<Rightarrow> nat \<Rightarrow> nat \<Rightarrow> nat \<Rightarrow> lz4_cstate \<Rightarrow> bool" where
  "literals_ok olimit src st ip m token st1 \<longleftrightarrow>
     c_anchor st \<le> ip \<and> ip + MFLIMIT \<le> length src \<and> is_match_at False src ip m
     \<and> (\<exists>c. same_at src ip m (c + 4) \<and> ip + c + MFLIMIT \<le> length src \<and> tab_ok (c_tab st1) (ip + c + 1))
     \<and> token = c_op st \<and> length (c_dst st1) = length (c_dst st)
     \<and> c_op st1 = c_op st + 1 + length (lz4_ext (ip - c_anchor st)) + (ip - c_anchor st) \<and> c_op st1 \<le> length (c_dst st)
     \<and> take (c_op st1) (c_dst st1) = take (c_op st) (c_dst st) @ lz4_token (ip - c_anchor st) 0
         # lz4_ext (ip - c_anchor st) @ take (ip - c_anchor st) (drop (c_anchor st) src)
     \<and> near_limit olimit (length src) (c_op st1 + 3)"

lemma put_literals_room:
  assumes "op \<le> a + a div 255" "a \<le> ip" "ip + MFLIMIT \<le> length src" "room olimit (length src) (length dst)"
  shows "\<exists>r. LZ4_put_literals olimit src a ip op dst = Some r"
proof (cases "LZ4_exceeds olimit (op + 1 + (ip - a) + (2 + 1 + LASTLITERALS) + (ip - a) div 255)")
  case True
  then show ?thesis
    by (simp add: LZ4_put_literals_def)
next
  case ne: False
  let ?l = "ip - a" and ?h = "1 + length (lz4_ext (ip - a))"
  have h: "?h \<le> 2 + ?l div 255"
    using length_lz4_ext_le [of ?l] by simp
  have h0: "?l = 0 \<Longrightarrow> ?h = 1"
    by (simp add: lz4_ext_def)
  note w = wild_span_bounds [of ?l]
  have n: "ip + 12 \<le> length src"
    using assms(3) by (simp add: MFLIMIT_def WILDCOPYLENGTH_def MINMATCH_def)
  have "a + wild_span ?l \<le> length src"
    using w(2) n assms(2) by linarith
  moreover have "op + ?h + wild_span ?l \<le> length dst"
  proof (cases olimit)
    case None
    have "a div 255 + ?l div 255 \<le> length src div 255"
      using div_add_le [of a ?l] div_le_mono [of ip "length src" 255] assms(2) n by simp
    moreover have "length src + length src div 255 + 16 \<le> length dst"
      using assms(4) None by (simp add: room_def)
    ultimately show ?thesis
      using assms(1,2) h w(2) n by linarith
  next
    case (Some l)
    then have "op + 9 + ?l + ?l div 255 \<le> length dst"
      using ne assms(4) by (simp add: LZ4_exceeds_def room_def LASTLITERALS_def)
    then show ?thesis
      using h h0 w by (cases "?l = 0") linarith+
  qed
  ultimately show ?thesis
    using LZ4_put_literals_eq [OF assms(2) ne, of src dst] by simp
qed

lemma LZ4_put_literals_fail: "LZ4_put_literals olimit src a ip op dst = Some (Inl d) \<Longrightarrow> d = dst"
  by (auto simp: LZ4_put_literals_def Let_def split: if_splits Option.bind_splits)

text \<open>
  The directives of one call: the kind of table fits the size of the input, and the acceleration does not wrap the
  counter of attempts.
\<close>

definition directives_ok :: "byte list \<Rightarrow> tableType_t \<Rightarrow> u32 \<Rightarrow> bool" where
  "directives_ok src tt acc \<longleftrightarrow> (tt = byU16 \<longrightarrow> length src < LZ4_64Klimit) \<and> counter_ok (push_bit LZ4_skipTrigger acc) (length src)"

lemma LZ4_begin_spec:
  assumes ok: "cst_ok olimit src st" and dirs: "directives_ok src tt acc"
  shows "case LZ4_begin olimit acc src tt st of
     None \<Rightarrow> \<not> room olimit (length src) (length (c_dst st))
   | Some (Inl r) \<Rightarrow> r = Last st \<or> r = Fail (c_dst st)
   | Some (Inr (ip, m, token, st1)) \<Rightarrow> literals_ok olimit src st ip m token st1"
proof -
  let ?a = "c_anchor st" and ?op = "c_op st" and ?dst = "c_dst st" and ?n = "length src"
  obtain ss where w: "written src ?a ?op ?dst ss"
    using ok by (auto simp: cst_ok_def)
  have n: "?a + 12 \<le> ?n" and tab: "tab_ok (c_tab st) (?a + 1)"
    using ok by (simp_all add: cst_ok_def MFLIMIT_def WILDCOPYLENGTH_def MINMATCH_def)
  have op: "?op \<le> ?a + ?a div 255" "?op \<le> length ?dst"
    using written_op(2) [OF w] w n by (simp_all add: written_def)
  show ?thesis
  proof (cases "c_pending st")
    case (Some m)
    then have m: "is_match_at False src ?a m" "near_limit olimit ?n (?op + 4)"
      using ok by (simp_all add: cst_ok_def)
    show ?thesis
    proof (cases "?op + 1 \<le> length ?dst")
      case True
      then have e: "LZ4_begin olimit acc src tt st = Some (Inr (?a, m, ?op, st\<lparr>c_dst := overlay_at ?op ?dst [NUL], c_op := ?op + 1\<rparr>))"
        using Some by (simp add: LZ4_begin_def obj_write_def)
      have "take (?op + 1) (overlay_at ?op ?dst [NUL]) = take ?op ?dst @ [NUL]"
        using take_overlay_at_end [of ?op ?dst "[NUL]"] True by simp
      moreover have "lz4_token 0 0 = NUL"
        using char_of_eqI [of 0 NUL] by (simp add: lz4_token_def)
      ultimately show ?thesis
        using e m n tab True
        by (auto simp: literals_ok_def lz4_ext_def MFLIMIT_def WILDCOPYLENGTH_def MINMATCH_def is_match_at_def add.commute
            intro!: exI [of _ 0])
    next
      case False
      have "\<not> room olimit ?n (length ?dst)"
      proof (cases olimit)
        case None
        have "?a div 255 \<le> ?n div 255"
          using n by (intro div_le_mono) simp
        then show ?thesis
          using None False op(1) n by (simp add: room_def)
      next
        case (Some l)
        then show ?thesis
          using False m(2) by (simp add: room_def near_limit_def)
      qed
      then show ?thesis
        using False Some by (simp add: LZ4_begin_def obj_write_def)
    qed
  next
    case None
    let ?mfl = "?n - MFLIMIT + 1"
    have mfl: "?mfl + 4 \<le> ?n" "?mfl + 11 \<le> ?n"
      using n by (simp_all add: MFLIMIT_def WILDCOPYLENGTH_def MINMATCH_def)
    obtain h where h: "LZ4_hashPosition tt src (?a + 1) = Some h"
      using LZ4_hashPosition_defined [of "?a + 1" src tt] n by auto
    have cnt: "counter_ok (push_bit LZ4_skipTrigger acc) (?mfl + 1 - (?a + 1))"
      using dirs mfl by (auto simp: directives_ok_def counter_ok_def)
    obtain found where f: "LZ4_search src tt ?mfl (?a + 1) 1 (push_bit LZ4_skipTrigger acc) h (c_tab st) = Some found"
        "found_ok src tt (?a + 1) ?mfl found"
      using LZ4_search_spec [OF tab mfl(1) _ cnt, of 1 tt h] by auto
    show ?thesis
    proof (cases found)
      case none: None
      then show ?thesis
        using None h f(1) by (simp add: LZ4_begin_def)
    next
      case (Some q)
      obtain ip0 m0 tab0 where q: "q = (ip0, m0, tab0)"
        by (metis prod_cases3)
      have i: "?a + 1 \<le> ip0" "ip0 < ?mfl" "is_match_at (tt = byU16) src ip0 m0" "tab_ok tab0 (ip0 + 1)"
        using f(2) Some q by (simp_all add: found_ok_def)
      have i3: "m0 < ip0" "same_at src ip0 m0 4" "ip0 \<le> m0 + MAX_DISTANCE"
        using i(2,3) dirs mfl(2) by (auto simp: is_match_at_def directives_ok_def lz4_consts)
      obtain c where c: "LZ4_catch_up src ?a ip0 m0 = Some (ip0 - c, m0 - c)" "c \<le> m0" "?a + c \<le> ip0"
          "same_at src (ip0 - c) (m0 - c) c"
        using LZ4_catch_up_spec [of m0 ip0 src ?a] i i3 mfl by auto
      let ?ip = "ip0 - c" and ?m = "m0 - c"
      have "?ip + c = ip0" "?m + c = m0"
        using c(2,3) by simp_all
      then have sc: "same_at src ?ip ?m (c + 4)"
        unfolding same_at_add using c(4) i3(2) by simp
      from sc have s4: "same_at src ?ip ?m 4"
        by (simp add: same_at_def)
      have "?m < ?ip" "?ip \<le> ?m + MAX_DISTANCE"
        using i3(1,3) c(2,3) by linarith+
      then have match: "is_match_at False src ?ip ?m"
        using s4 by (simp add: is_match_at_def)
      have pos: "?a \<le> ?ip" "?ip + MFLIMIT \<le> ?n" "?ip \<le> ?n"
        using c(3) i(2) mfl by (simp_all add: MFLIMIT_def WILDCOPYLENGTH_def MINMATCH_def)
      have e: "LZ4_begin olimit acc src tt st = LZ4_put_literals olimit src ?a ?ip ?op ?dst \<bind>
          (\<lambda>put. Some (case put of Inl dst \<Rightarrow> Inl (Fail dst)
                | Inr (token, op, dst) \<Rightarrow> Inr (?ip, ?m, token, st\<lparr>c_op := op, c_dst := dst, c_tab := tab0\<rparr>)))"
        using None h f(1) Some q c(1) by (simp add: LZ4_begin_def)
      show ?thesis
      proof (cases "LZ4_put_literals olimit src ?a ?ip ?op ?dst")
        case no: None
        have "\<not> room olimit ?n (length ?dst)"
        proof
          assume "room olimit ?n (length ?dst)"
          then have "\<exists>r. LZ4_put_literals olimit src ?a ?ip ?op ?dst = Some r"
            by (rule put_literals_room [OF op(1) pos(1,2)])
          then show False
            using no by simp
        qed
        then show ?thesis
          using no by (simp add: e)
      next
        case put: (Some p)
        show ?thesis
        proof (cases p)
          case (Inl d)
          then show ?thesis
            using put LZ4_put_literals_fail [of olimit src ?a ?ip ?op ?dst d] by (simp add: e)
        next
          case (Inr t)
          obtain token op1 dst1 where t: "t = (token, op1, dst1)"
            by (metis prod_cases3)
          note wr = LZ4_put_literals_written [OF put [unfolded Inr t] pos(1,3)]
          have lim: "near_limit olimit ?n (op1 + 3)"
            using wr(2,6) length_lz4_ext_le [of "?ip - ?a"]
            by (cases olimit) (simp_all add: near_limit_def LZ4_exceeds_def LASTLITERALS_def)
          have "?ip + c + MFLIMIT \<le> ?n" "tab_ok tab0 (?ip + c + 1)"
            using i(2,4) c(3) mfl by (simp_all add: MFLIMIT_def WILDCOPYLENGTH_def MINMATCH_def)
          then have tab1: "\<exists>c'. same_at src ?ip ?m (c' + 4) \<and> ?ip + c' + MFLIMIT \<le> ?n \<and> tab_ok tab0 (?ip + c' + 1)"
            using sc by blast
          show ?thesis
            using put Inr t match pos tab1 lim wr(1-5) by (simp add: e literals_ok_def)
        qed
      qed
    qed
  qed
qed

lemma common_prefix_same: "same_at src p q (common_prefix src p q lim)"
proof -
  have "src ! (p + i) = src ! (q + i)" if i: "i < length (takeWhile (\<lambda>i. src ! (p + i) = src ! (q + i)) [0..<lim - p])" for i
  proof -
    have "i < lim - p"
      using i length_takeWhile_le [of "\<lambda>i. src ! (p + i) = src ! (q + i)" "[0..<lim - p]"] by simp
    then have "takeWhile (\<lambda>i. src ! (p + i) = src ! (q + i)) [0..<lim - p] ! i = i"
      using i by (simp add: takeWhile_nth)
    then show ?thesis
      using set_takeWhileD [OF nth_mem [OF i]] by simp
  qed
  then show ?thesis
    by (simp add: same_at_def common_prefix_def)
qed

lemma common_prefix_le: "p \<le> lim \<Longrightarrow> p + common_prefix src p q lim \<le> lim"
  using length_takeWhile_le [of "\<lambda>i. src ! (p + i) = src ! (q + i)" "[0..<lim - p]"] by (simp add: common_prefix_def)

lemma common_prefix_ge:
  assumes "same_at src p q k" "p + k \<le> lim"
  shows "k \<le> common_prefix src p q lim"
proof -
  have "take k [0..<lim - p] = [0..<k]"
    using assms(2) by (simp add: take_upt)
  then have "[0..<lim - p] = [0..<k] @ drop k [0..<lim - p]"
    by (metis append_take_drop_id)
  moreover have "takeWhile (\<lambda>i. src ! (p + i) = src ! (q + i)) ([0..<k] @ drop k [0..<lim - p])
      = [0..<k] @ takeWhile (\<lambda>i. src ! (p + i) = src ! (q + i)) (drop k [0..<lim - p])"
    by (rule takeWhile_append2) (use assms(1) in \<open>simp add: same_at_def\<close>)
  ultimately have "takeWhile (\<lambda>i. src ! (p + i) = src ! (q + i)) [0..<lim - p]
      = [0..<k] @ takeWhile (\<lambda>i. src ! (p + i) = src ! (q + i)) (drop k [0..<lim - p])"
    by simp
  then show ?thesis
    by (simp add: common_prefix_def)
qed

lemma code_fits: "length (lz4_ext code) \<le> code div 256 + code div 65280 + 2"
proof -
  have "65280 * ((code - 15) div 255) \<le> 256 * code"
    using div_times_less_eq_dividend [of "code - 15" 255] by linarith
  moreover have "code < 256 * (code div 256) + 256" "code < 65280 * (code div 65280) + 65280"
    using mult_div_mod_eq [of 256 code] mod_less_divisor [of 256 code]
      mult_div_mod_eq [of 65280 code] mod_less_divisor [of 65280 code] by linarith+
  ultimately have "(code - 15) div 255 \<le> code div 256 + code div 65280 + 1"
    by linarith
  then show ?thesis
    by (simp add: length_lz4_ext)
qed

lemma near_limit_code:
  assumes "\<not> LZ4_exceeds olimit (op + (1 + LASTLITERALS) + code div 2 ^ 8)" "code \<le> n"
  shows "near_limit olimit n (op + length (lz4_ext code) + 4)"
proof (cases olimit)
  case (Some l)
  have "code div 65280 \<le> n div 65280"
    by (rule div_le_mono [OF assms(2)])
  then show ?thesis
    using Some assms(1) code_fits [of code] by (simp add: near_limit_def LZ4_exceeds_def LASTLITERALS_def)
qed (simp add: near_limit_def)

definition match_ok :: "nat option \<Rightarrow> byte list \<Rightarrow> nat \<Rightarrow> nat \<Rightarrow> byte list \<Rightarrow> lz4_cstate \<Rightarrow> bool" where
  "match_ok olimit src ip op dst st1 \<longleftrightarrow>
     (\<exists>ss. written src ip op dst ss) \<and> length dst = length (c_dst st1) \<and> 4 \<le> ip
     \<and> ip + LASTLITERALS \<le> length src \<and> tab_ok (c_tab st1) (ip - 3) \<and> near_limit olimit (length src) (op + 4)"

lemma LZ4_put_match_spec:
  assumes w: "written src (c_anchor st) (c_op st) (c_dst st) ss" and lits: "literals_ok olimit src st ip m token st1"
  shows "case LZ4_put_match olimit src ip m token (c_op st1) (c_dst st1) of
     None \<Rightarrow> \<not> room olimit (length src) (length (c_dst st))
   | Some (Inl d) \<Rightarrow> length d = length (c_dst st)
   | Some (Inr (ip', op', dst')) \<Rightarrow> match_ok olimit src ip' op' dst' st1"
proof -
  let ?n = "length src" and ?N = "length (c_dst st)" and ?l = "ip - c_anchor st" and ?o = "c_op st1"
  let ?A = "take (c_op st) (c_dst st)" and ?lits = "take (ip - c_anchor st) (drop (c_anchor st) src)"
  note lo = lits [unfolded literals_ok_def]
  have n: "c_anchor st \<le> ip" "ip + 12 \<le> ?n" "m < ip" "ip \<le> m + MAX_DISTANCE"
    using lo by (simp_all add: MFLIMIT_def WILDCOPYLENGTH_def MINMATCH_def is_match_at_def)
  obtain c where c: "same_at src ip m (c + 4)" "ip + c + 12 \<le> ?n" "tab_ok (c_tab st1) (ip + c + 1)"
    using lo by (auto simp: MFLIMIT_def WILDCOPYLENGTH_def MINMATCH_def)
  have len1: "length (c_dst st1) = ?N" and o: "?o = c_op st + 1 + length (lz4_ext ?l) + ?l" "?o \<le> ?N" and tok: "token = c_op st"
    and near: "near_limit olimit ?n (?o + 3)" and t1: "take ?o (c_dst st1) = ?A @ lz4_token ?l 0 # lz4_ext ?l @ ?lits"
    using lo by blast+
  have op: "c_op st \<le> c_anchor st + c_anchor st div 255" "c_op st \<le> ?N"
    using written_op(2) [OF w] n w by (simp_all add: written_def)
  have "c_anchor st div 255 + ?l div 255 \<le> ip div 255"
    using div_add_le [of "c_anchor st" ?l] n(1) by simp
  then have o_le: "?o \<le> ip + ip div 255 + 2"
    using length_lz4_ext_le [of ?l] op(1) n(1) unfolding o(1) by linarith
  define code where "code = common_prefix src (ip + 4) (m + 4) (?n - 5)"
  have cnt: "LZ4_count src (ip + MINMATCH) (m + MINMATCH) (?n - LASTLITERALS) = Some code"
    using LZ4_count_eq [of "?n - 5" src "m + 4" "ip + 4"] n(3) by (simp add: code_def MINMATCH_def LASTLITERALS_def)
  have code_le: "ip + 4 + code + 5 \<le> ?n"
  proof -
    have "ip + 4 \<le> ?n - 5"
      using n(2) by simp
    from common_prefix_le [OF this, of src "m + 4"] show ?thesis
      using n(2) unfolding code_def by linarith
  qed
  have "same_at src (ip + 4) (m + 4) c" and s4: "same_at src ip m 4"
    using c(1) same_at_add [of src ip m 4 c] by (simp_all add: add.commute)
  then have c_le: "c \<le> code"
    unfolding code_def using c(2) by (intro common_prefix_ge) simp_all
  have same: "same_at src ip m (4 + code)"
    unfolding same_at_add using s4 common_prefix_same [of src "ip + 4" "m + 4" "?n - 5"] by (simp add: code_def)
  have sp: "code_span code \<le> length (lz4_ext code) + 3"
    by (rule code_span_bounds)
  show ?thesis
  proof (cases "?o + 2 \<le> ?N")
    case False
    have "\<not> room olimit ?n ?N"
    proof (cases olimit)
      case None
      have "ip div 255 \<le> ?n div 255"
        using n(2) by (intro div_le_mono) simp
      then show ?thesis
        using None False o_le n(2) by (simp add: room_def)
    next
      case (Some l)
      then show ?thesis
        using False near by (simp add: room_def near_limit_def)
    qed
    then show ?thesis
      using False len1 by (simp add: LZ4_put_match_def obj_write_def lz4_le16_def)
  next
    case True
    let ?d2 = "overlay_at ?o (c_dst st1) (lz4_le16 (ip - m))"
    have l16: "length (lz4_le16 (ip - m)) = 2"
      by (simp add: lz4_le16_def)
    have w2: "obj_write (c_dst st1) ?o (lz4_le16 (ip - m)) = Some ?d2" "length ?d2 = ?N"
      using True len1 l16 by (simp_all add: obj_write_Some)
    have t2: "take (?o + 2) ?d2 = ?A @ lz4_token ?l 0 # (lz4_ext ?l @ ?lits @ lz4_le16 (ip - m))"
      using take_overlay_at_end [of ?o "c_dst st1" "lz4_le16 (ip - m)"] l16 o(2) len1 t1 by simp
    have e: "LZ4_put_match olimit src ip m token ?o (c_dst st1) =
      (if LZ4_exceeds olimit (?o + 2 + (1 + LASTLITERALS) + code div 2 ^ 8) then Some (Inl ?d2)
       else LZ4_put_code code token (?o + 2) ?d2 \<bind> (\<lambda>(op, dst). Some (Inr (ip + 4 + code, op, dst))))"
      unfolding LZ4_put_match_def Let_def w2(1) bind.bind_lunit cnt by (simp add: MINMATCH_def)
    show ?thesis
    proof (cases "LZ4_exceeds olimit (?o + 2 + (1 + LASTLITERALS) + code div 2 ^ 8)")
      case ex: True
      then show ?thesis
        using w2(2) by (simp add: e)
    next
      case ne: False
      have nl: "near_limit olimit ?n (?o + 2 + length (lz4_ext code) + 4)"
        using near_limit_code [OF ne, of ?n] code_le by simp
      have tl: "token < ?o + 2" "?o + 2 \<le> length ?d2"
        using tok o(1) True w2(2) by simp_all
      show ?thesis
      proof (cases "LZ4_put_code code token (?o + 2) ?d2")
        case None
        have "\<not> ?o + 2 + code_span code \<le> ?N"
          using LZ4_put_code_defined [of "?o + 2" code ?d2 token] None tl w2(2) by auto
        moreover have "?o + 2 + code_span code \<le> ?N" if "room olimit ?n ?N"
        proof (cases olimit)
          case None
          have "ip div 255 + code div 255 \<le> ?n div 255"
            using div_add_le [of ip code] div_le_mono [of "ip + code" ?n 255] code_le by simp
          moreover have "?n + ?n div 255 + 16 \<le> ?N"
            using that None by (simp add: room_def)
          ultimately show ?thesis
            using o_le sp length_lz4_ext_le [of code] code_le by linarith
        next
          case (Some l)
          then show ?thesis
            using that nl sp by (simp add: room_def near_limit_def)
        qed
        ultimately show ?thesis
          using None ne by (auto simp: e)
      next
        case (Some q)
        obtain op' dst' where q: "q = (op', dst')"
          by (metis surj_pair)
        note pc = LZ4_put_code_written [OF Some [unfolded q] tl(2,1)]
        have len_A: "length ?A = token"
          using tok op(2) by simp
        note tp = token_patch [OF t2 len_A tl(2)]
        have t3: "take op' dst' = (?A @ lz4_token ?l code # lz4_ext ?l @ ?lits) @ lz4_le16 (ip - m) @ lz4_ext code"
          unfolding pc(4) tp(1) lz4_token_add tp(2) by simp
        have pos: "ip + MFLIMIT \<le> ?n" "ip + 4 + code + LASTLITERALS \<le> ?n"
          using n(2) code_le by (simp_all add: MFLIMIT_def WILDCOPYLENGTH_def MINMATCH_def LASTLITERALS_def)
        have op'_le: "op' \<le> length dst'"
          using pc(2,3) by simp
        have "written src (ip + 4 + code) op' dst' (ss @ [(?lits, ip - m, 4 + code)])"
          by (rule written_snoc [OF w t3 op'_le n(1) pos(1) n(3,4) same pos(2)])
        moreover have "tab_ok (c_tab st1) (ip + 4 + code - 3)"
          by (rule tab_ok_mono [OF c(3)]) (use c_le in simp)
        ultimately show ?thesis
          using Some q ne pc(1,2) w2(2) len1 pos(2) nl by (auto simp: e match_ok_def)
      qed
    qed
  qed
qed

definition last_ok :: "byte list \<Rightarrow> lz4_cstate \<Rightarrow> bool" where
  "last_ok src st \<longleftrightarrow> (\<exists>ss. written src (c_anchor st) (c_op st) (c_dst st) ss) \<and> c_anchor st \<le> length src"

definition next_ok :: "nat option \<Rightarrow> byte list \<Rightarrow> nat \<Rightarrow> lz4_next option \<Rightarrow> bool" where
  "next_ok olimit src cap r \<longleftrightarrow> (case r of
     None \<Rightarrow> \<not> room olimit (length src) cap
   | Some (Fail d) \<Rightarrow> olimit \<noteq> None \<and> length d = cap
   | Some (Last st) \<Rightarrow> last_ok src st \<and> length (c_dst st) = cap
   | Some (More st) \<Rightarrow> cst_ok olimit src st \<and> length (c_dst st) = cap)"

lemma LZ4_finish_match_spec:
  assumes "match_ok olimit src ip (c_op st) (c_dst st) st"
  shows "next_ok olimit src (length (c_dst st)) (LZ4_finish_match src tt st ip)"
proof (cases "length src - MFLIMIT + 1 \<le> ip")
  case True
  then show ?thesis
    using assms by (auto simp: LZ4_finish_match_def next_ok_def last_ok_def match_ok_def)
next
  case False
  have m: "4 \<le> ip" "tab_ok (c_tab st) (ip - 3)" "near_limit olimit (length src) (c_op st + 4)"
    using assms by (simp_all add: match_ok_def)
  have ip: "ip + 12 \<le> length src"
    using False m(1) by (simp add: MFLIMIT_def WILDCOPYLENGTH_def MINMATCH_def)
  have le2: "ip - 2 + 4 \<le> length src"
    using ip by simp
  obtain h2 where h2: "LZ4_hashPosition tt src (ip - 2) = Some h2"
    using LZ4_hashPosition_defined [of "ip - 2" src tt] le2 by auto
  obtain h where h: "LZ4_hashPosition tt src ip = Some h"
    using LZ4_hashPosition_defined [of ip src tt] ip by auto
  let ?tab = "LZ4_putPositionOnHash tt (ip - 2) h2 (c_tab st)"
  have t: "tab_ok ?tab ip"
    by (rule tab_ok_put [OF tab_ok_mono [OF m(2)]]) (use m(1) in simp_all)
  have t': "tab_ok (LZ4_putPositionOnHash tt ip h ?tab) (ip + 1)"
    by (rule tab_ok_put [OF tab_ok_mono [OF t]]) simp_all
  obtain ok where ok: "LZ4_is_match False src (?tab h) ip = Some ok" "ok \<longrightarrow> (\<exists>m. ?tab h = Some m \<and> is_match_at False src ip m)"
    using LZ4_is_match_spec [OF t, of src False h] ip by auto
  have "LZ4_finish_match src tt st ip = Some (More (st\<lparr>c_anchor := ip, c_tab := LZ4_putPositionOnHash tt ip h ?tab,
      c_pending := (if ok then ?tab h else None)\<rparr>))"
    using False h2 h ok(1) by (simp add: LZ4_finish_match_def LZ4_putPosition_def LZ4_getPosition_def)
  then show ?thesis
    using assms ip t' ok(2) m(3)
    by (auto simp: next_ok_def cst_ok_def match_ok_def MFLIMIT_def WILDCOPYLENGTH_def MINMATCH_def)
qed

lemma LZ4_put_literals_unlimited: "LZ4_put_literals None src a ip op dst \<noteq> Some (Inl d)"
  by (auto simp: LZ4_put_literals_def Let_def LZ4_exceeds_def split: Option.bind_splits)

lemma LZ4_put_match_unlimited: "LZ4_put_match None src ip m token op dst \<noteq> Some (Inl d)"
  by (auto simp: LZ4_put_match_def Let_def LZ4_exceeds_def split: Option.bind_splits)

lemma LZ4_begin_unlimited: "LZ4_begin None acc src tt st \<noteq> Some (Inl (Fail d))"
  using LZ4_put_literals_unlimited
  by (fastforce simp: LZ4_begin_def Let_def split: option.splits Option.bind_splits sum.splits prod.splits)

lemma LZ4_sequence_spec:
  assumes ok: "cst_ok olimit src st" and dirs: "directives_ok src tt acc"
  shows "next_ok olimit src (length (c_dst st)) (LZ4_sequence olimit acc src tt st)"
proof -
  obtain ss where w: "written src (c_anchor st) (c_op st) (c_dst st) ss"
    using ok by (auto simp: cst_ok_def)
  note b = LZ4_begin_spec [OF ok dirs]
  show ?thesis
  proof (cases "LZ4_begin olimit acc src tt st")
    case None
    then show ?thesis
      using b by (simp add: LZ4_sequence_def next_ok_def)
  next
    case (Some x)
    show ?thesis
    proof (cases x)
      case (Inl r)
      then have r: "r = Last st \<or> r = Fail (c_dst st)" "LZ4_sequence olimit acc src tt st = Some r"
        using b Some by (simp_all add: LZ4_sequence_def)
      have "last_ok src st"
        using ok w by (auto simp: last_ok_def cst_ok_def)
      moreover have "olimit \<noteq> None" if "r = Fail (c_dst st)"
        using that LZ4_begin_unlimited [of acc src tt st "c_dst st"] Some Inl by (cases olimit) auto
      ultimately show ?thesis
        using r by (auto simp: next_ok_def)
    next
      case (Inr q)
      obtain ip m token st1 where q: "q = (ip, m, token, st1)"
        by (metis prod_cases3 surj_pair)
      have lits: "literals_ok olimit src st ip m token st1"
        using b Some Inr q by simp
      have len: "length (c_dst st1) = length (c_dst st)"
        using lits by (simp add: literals_ok_def)
      note p = LZ4_put_match_spec [OF w lits]
      have e: "LZ4_sequence olimit acc src tt st = LZ4_put_match olimit src ip m token (c_op st1) (c_dst st1) \<bind>
          (\<lambda>put. case put of Inl dst \<Rightarrow> Some (Fail dst)
             | Inr (ip, op, dst) \<Rightarrow> LZ4_finish_match src tt (st1\<lparr>c_op := op, c_dst := dst\<rparr>) ip)"
        using Some Inr q by (simp add: LZ4_sequence_def)
      show ?thesis
      proof (cases "LZ4_put_match olimit src ip m token (c_op st1) (c_dst st1)")
        case None
        then show ?thesis
          using p by (simp add: e next_ok_def)
      next
        case (Some y)
        show ?thesis
        proof (cases y)
          case (Inl d)
          have "olimit \<noteq> None"
            using LZ4_put_match_unlimited [of src ip m token "c_op st1" "c_dst st1" d] Some Inl by (cases olimit) auto
          then show ?thesis
            using p Some Inl by (simp add: e next_ok_def)
        next
          case (Inr t)
          obtain ip' op' dst' where t: "t = (ip', op', dst')"
            by (metis prod_cases3)
          have "match_ok olimit src ip' op' dst' st1"
            using p Some Inr t by simp
          then have "match_ok olimit src ip' op' dst' (st1\<lparr>c_op := op', c_dst := dst'\<rparr>)" "length dst' = length (c_dst st)"
            using len by (simp_all add: match_ok_def)
          then show ?thesis
            using LZ4_finish_match_spec [of olimit src ip' "st1\<lparr>c_op := op', c_dst := dst'\<rparr>" tt] Some Inr t by (simp add: e)
        qed
      qed
    qed
  qed
qed

lemma LZ4_sequences_spec:
  assumes "cst_ok olimit src st" "directives_ok src tt acc"
  shows "case LZ4_sequences olimit acc src tt st of
     None \<Rightarrow> \<not> room olimit (length src) (length (c_dst st))
   | Some (Inl d) \<Rightarrow> olimit \<noteq> None \<and> length d = length (c_dst st)
   | Some (Inr st') \<Rightarrow> last_ok src st' \<and> length (c_dst st') = length (c_dst st)"
  using assms
proof (induction olimit acc src tt st rule: LZ4_sequences.induct)
  case (1 olimit acc src tt st)
  note s = LZ4_sequence_spec [OF "1.prems"]
  show ?case
  proof (cases "LZ4_sequence olimit acc src tt st")
    case None
    then show ?thesis
      using s by (subst LZ4_sequences.simps) (simp add: next_ok_def)
  next
    case (Some r)
    show ?thesis
    proof (cases r)
      case (More st')
      then have m: "cst_ok olimit src st'" "length (c_dst st') = length (c_dst st)"
        using s Some by (simp_all add: next_ok_def)
      show ?thesis
        using "1.IH" [OF Some More m(1) "1.prems"(2), unfolded m(2)] Some More by (subst LZ4_sequences.simps) simp
    qed (use s Some in \<open>subst LZ4_sequences.simps, simp add: next_ok_def\<close>)+
  qed
qed

section \<open>The last literals and the whole block\<close>

lemma LZ4_last_literals_spec:
  assumes w: "written src a op dst ss" and a: "a \<le> length src"
  shows "case LZ4_last_literals olimit src a op dst of
     None \<Rightarrow> \<not> room olimit (length src) (length dst) \<and> (\<forall>l. olimit = Some l \<longrightarrow> length dst < l)
   | Some (Inl d) \<Rightarrow> olimit \<noteq> None \<and> d = dst
   | Some (Inr (op', dst')) \<Rightarrow> op' = length (block_bytes ss (drop a src)) \<and> op' \<le> length dst' \<and> length dst' = length dst
       \<and> take op' dst' = block_bytes ss (drop a src) \<and> \<not> LZ4_exceeds olimit op'"
proof -
  let ?r = "length src - a"
  let ?h = "lz4_token ?r 0 # lz4_ext ?r"
  have op: "op = length (concat (map seq_bytes ss))" "op \<le> a + a div 255" "op \<le> length dst" "take op dst = concat (map seq_bytes ss)"
    using written_op [OF w a] w by (simp_all add: written_def)
  have blk: "block_bytes ss (drop a src) = take op dst @ ?h @ drop a src"
    by (simp add: block_bytes_def last_bytes_def op(4))
  have ext: "length (lz4_ext ?r) \<le> (?r + 255 - RUN_MASK) div 255"
    by (auto simp: length_lz4_ext RUN_MASK_def ML_BITS_def)
  show ?thesis
  proof (cases "LZ4_exceeds olimit (op + ?r + 1 + (?r + 255 - RUN_MASK) div 255)")
    case True
    then show ?thesis
      by (cases olimit) (simp_all add: LZ4_last_literals_def LZ4_exceeds_def)
  next
    case ne: False
    have rd: "obj_read src a ?r = Some (drop a src)"
      using a by (simp add: obj_read_def)
    show ?thesis
    proof (cases "op + length ?h + ?r \<le> length dst")
      case True
      have p: "LZ4_put_length ?r op dst = Some (op + length ?h, overlay_at op dst ?h)"
        using True by (simp add: LZ4_put_length_eq)
      have "overlay_at (op + length ?h) (overlay_at op dst ?h) (drop a src) = overlay_at op dst (?h @ drop a src)"
        using op(3) by (intro overlay_at_twice) simp_all
      moreover have "obj_write (overlay_at op dst ?h) (op + length ?h) (drop a src)
          = Some (overlay_at (op + length ?h) (overlay_at op dst ?h) (drop a src))"
        using True a by (intro obj_write_Some) simp
      ultimately have e: "LZ4_last_literals olimit src a op dst
          = Some (Inr (op + length ?h + ?r, overlay_at op dst (?h @ drop a src)))"
        unfolding LZ4_last_literals_def Let_def p bind.bind_lunit prod.case rd using ne by simp
      have l: "length (?h @ drop a src) = length ?h + ?r"
        by simp
      have lim: "\<not> LZ4_exceeds olimit (op + length ?h + ?r)"
        using ne ext by (auto simp: LZ4_exceeds_def split: option.splits)
      have "take (op + (length ?h + ?r)) (overlay_at op dst (?h @ drop a src)) = take op dst @ ?h @ drop a src"
        using take_overlay_at_end [OF op(3), of "?h @ drop a src"] unfolding l .
      moreover have "op + length ?h + ?r = length (block_bytes ss (drop a src))"
        using op(3) by (simp add: blk)
      ultimately show ?thesis
        using e l True lim blk by (simp add: add.assoc)
    next
      case False
      have none: "LZ4_last_literals olimit src a op dst = None"
      proof (cases "op + length ?h \<le> length dst")
        case True
        then have p: "LZ4_put_length ?r op dst = Some (op + length ?h, overlay_at op dst ?h)"
          by (simp add: LZ4_put_length_eq)
        have "obj_write (overlay_at op dst ?h) (op + length ?h) (drop a src) = None"
          using False True a by (simp add: obj_write_def)
        then show ?thesis
          unfolding LZ4_last_literals_def Let_def p bind.bind_lunit prod.case rd using ne by simp
      next
        case nh: False
        then have p: "LZ4_put_length ?r op dst = None"
          by (simp add: LZ4_put_length_eq)
        show ?thesis
          unfolding LZ4_last_literals_def Let_def p using ne by simp
      qed
      have "op + length ?h + ?r \<le> length dst"
        if "room olimit (length src) (length dst) \<or> (\<exists>l. olimit = Some l \<and> l \<le> length dst)"
      proof (cases olimit)
        case None
        have "a div 255 + ?r div 255 \<le> length src div 255"
          using div_add_le [of a ?r] a by simp
        moreover have "length src + length src div 255 + 16 \<le> length dst" "length ?h = 1 + length (lz4_ext ?r)"
          using that None by (simp_all add: room_def)
        ultimately show ?thesis
          using op(2) length_lz4_ext_le [of ?r] a by linarith
      next
        case (Some l)
        then show ?thesis
          using that ne ext by (auto simp: room_def LZ4_exceeds_def)
      qed
      then have "\<not> (room olimit (length src) (length dst) \<or> (\<exists>l. olimit = Some l \<and> l \<le> length dst))"
        using False by blast
      then show ?thesis
        using none by (auto simp: not_le)
    qed
  qed
qed

definition compressed_ok :: "nat option \<Rightarrow> byte list \<Rightarrow> nat \<Rightarrow> (nat \<times> byte list) option \<Rightarrow> bool" where
  "compressed_ok olimit src cap r \<longleftrightarrow> (case r of
     None \<Rightarrow> \<not> room olimit (length src) cap
   | Some (n, d) \<Rightarrow> length d = cap \<and>
       (n = 0 \<and> olimit \<noteq> None
        \<or> (\<exists>ss lits. seqs_ok (length src) [] ss \<and> block_data ss lits = src \<and> n = length (block_bytes ss lits)
             \<and> take n d = block_bytes ss lits \<and> \<not> LZ4_exceeds olimit n)))"

lemma LZ4_finish_spec:
  assumes "last_ok src st" "length (c_dst st) = cap"
  shows "compressed_ok olimit src cap (do {
            put \<leftarrow> LZ4_last_literals olimit src (c_anchor st) (c_op st) (c_dst st);
            Some (case put of Inl dst \<Rightarrow> (0, dst) | Inr (op, dst) \<Rightarrow> (op, dst)) })"
proof -
  obtain ss where w: "written src (c_anchor st) (c_op st) (c_dst st) ss" and a: "c_anchor st \<le> length src"
    using assms(1) by (auto simp: last_ok_def)
  have "seqs_ok (length src) [] ss" "block_data ss (drop (c_anchor st) src) = src"
    using w by (simp_all add: written_def block_data_def)
  then show ?thesis
    using LZ4_last_literals_spec [OF w a, of olimit] assms(2)
    by (auto simp: compressed_ok_def split: option.splits sum.splits Option.bind_splits)
qed

lemma LZ4_compress_generic_spec:
  assumes "directives_ok src tt acc" "length src \<le> LZ4_MAX_INPUT_SIZE"
  shows "compressed_ok olimit src (length dst) (LZ4_compress_generic src dst olimit tt acc)"
proof -
  let ?st = "\<lparr>c_anchor = 0, c_op = 0, c_dst = dst, c_tab = LZ4_empty_table tt, c_pending = None\<rparr>"
  have w: "written src 0 0 d []" for d
    by (simp add: written_def)
  have c: "\<not> LZ4_MAX_INPUT_SIZE < length src" "\<not> (tt = byU16 \<and> LZ4_64Klimit \<le> length src)"
    using assms by (auto simp: directives_ok_def)
  show ?thesis
  proof (cases "length src < LZ4_minLength")
    case True
    have "last_ok src ?st"
      using w by (auto simp: last_ok_def)
    from LZ4_finish_spec [OF this, of "length dst" olimit] show ?thesis
      using True unfolding LZ4_compress_generic_def Let_def if_not_P [OF c(1)] if_not_P [OF c(2)] by simp
  next
    case False
    then have n: "13 \<le> length src"
      by (simp add: lz4_consts)
    obtain h where h: "LZ4_hashPosition tt src 0 = Some h"
      using LZ4_hashPosition_defined [of 0 src tt] n by auto
    let ?st1 = "?st\<lparr>c_tab := LZ4_putPositionOnHash tt 0 h (LZ4_empty_table tt)\<rparr>"
    have "tab_ok (LZ4_empty_table tt) 1"
      by (simp add: tab_ok_def LZ4_empty_table_def)
    then have "cst_ok olimit src ?st1"
      using n w by (auto simp: cst_ok_def tab_ok_put MFLIMIT_def WILDCOPYLENGTH_def MINMATCH_def)
    note s = LZ4_sequences_spec [OF this assms(1)]
    have e: "LZ4_compress_generic src dst olimit tt acc = LZ4_sequences olimit acc src tt ?st1 \<bind>
        (\<lambda>last. case last of Inl dst \<Rightarrow> Some (0, dst)
        | Inr st \<Rightarrow> do {
            put \<leftarrow> LZ4_last_literals olimit src (c_anchor st) (c_op st) (c_dst st);
            Some (case put of Inl dst \<Rightarrow> (0, dst) | Inr (op, dst) \<Rightarrow> (op, dst)) })"
      using False h unfolding LZ4_compress_generic_def Let_def if_not_P [OF c(1)] if_not_P [OF c(2)]
      by (simp add: LZ4_putPosition_def)
    show ?thesis
    proof (cases "LZ4_sequences olimit acc src tt ?st1")
      case None
      then show ?thesis
        using s by (simp add: e compressed_ok_def)
    next
      case (Some x)
      show ?thesis
      proof (cases x)
        case (Inl d)
        then show ?thesis
          using s Some by (simp add: e compressed_ok_def)
      next
        case (Inr st')
        then have "last_ok src st'" "length (c_dst st') = length dst"
          using s Some by simp_all
        then show ?thesis
          using LZ4_finish_spec Some Inr by (simp add: e)
      qed
    qed
  qed
qed

section \<open>Properties\<close>

lemma directives_extState:
  assumes "length src \<le> LZ4_MAX_INPUT_SIZE" "acc < 2 ^ 25"
  shows "directives_ok src (if length src < LZ4_64Klimit then byU16 else if sizeof_ptr = 8 then byU32 else byPtr)
     (word_of_int (if acc < 1 then ACCELERATION_DEFAULT else acc))"
proof -
  define a where "a = nat (if acc < 1 then ACCELERATION_DEFAULT else acc)"
  have a: "1 \<le> a" "a < 2 ^ 25" "(if acc < 1 then ACCELERATION_DEFAULT else acc) = int a"
    using assms(2) by (auto simp: a_def ACCELERATION_DEFAULT_def)
  have "unat (push_bit LZ4_skipTrigger (word_of_nat a :: u32)) = 64 * a"
    using a(2) by (simp add: LZ4_skipTrigger_def push_bit_eq_mult unat_word_ariths unat_of_nat)
  then show ?thesis
    using a assms(1) unfolding directives_ok_def counter_ok_def a(3)
    by (simp add: sizeof_ptr_def LZ4_MAX_INPUT_SIZE_def)
qed

lemma LZ4_compress_fast_too_large: "LZ4_MAX_INPUT_SIZE < length src \<Longrightarrow> LZ4_compress_fast src dst cap acc = Some (0, dst)"
  by (simp add: LZ4_compress_fast_def LZ4_compress_fast_extState_def Let_def LZ4_compress_generic_def)

lemma LZ4_compress_fast_spec:
  assumes "length src \<le> LZ4_MAX_INPUT_SIZE" "acc < 2 ^ 25"
  shows "compressed_ok (if LZ4_compressBound (length src) \<le> cap then None else Some cap) src (length dst)
     (LZ4_compress_fast src dst cap acc)"
  using LZ4_compress_generic_spec [OF directives_extState [OF assms] assms(1)]
  by (simp add: LZ4_compress_fast_def LZ4_compress_fast_extState_def Let_def)

lemma block_bytes_bound:
  assumes "seqs_ok n [] ss" "n = length (block_data ss lits)"
  shows "0 < length (block_bytes ss lits)" "length (block_bytes ss lits) \<le> n + n div 255 + 2"
proof -
  let ?b = "length (foldl seq_apply [] ss)"
  show "0 < length (block_bytes ss lits)"
    by (simp add: block_bytes_def last_bytes_def)
  have n: "n = ?b + length lits"
    using assms(2) by (simp add: block_data_def)
  have "length (concat (map seq_bytes ss)) \<le> ?b + ?b div 255"
    using length_seqs_le [OF assms(1)] by simp
  moreover have "?b div 255 + length lits div 255 \<le> n div 255"
    unfolding n by (rule div_add_le)
  ultimately show "length (block_bytes ss lits) \<le> n + n div 255 + 2"
    using length_lz4_ext_le [of "length lits"] unfolding block_bytes_def last_bytes_def length_append list.size n by linarith
qed

lemma LZ4_compressed_block:
  assumes "LZ4_compress_fast src dst cap acc = Some (n, d)" "0 < n" "acc < 2 ^ 25"
  obtains ss lits where "seqs_ok (length src) [] ss" "block_data ss lits = src" "n = length (block_bytes ss lits)"
    "take n d = block_bytes ss lits" "length d = length dst" "n \<le> cap"
proof -
  have l: "length src \<le> LZ4_MAX_INPUT_SIZE"
    using assms(1,2) LZ4_compress_fast_too_large [of src dst cap acc] by (cases "LZ4_MAX_INPUT_SIZE < length src") auto
  obtain ss lits where b: "seqs_ok (length src) [] ss" "block_data ss lits = src" "n = length (block_bytes ss lits)"
      "take n d = block_bytes ss lits" "length d = length dst"
      "\<not> LZ4_exceeds (if LZ4_compressBound (length src) \<le> cap then None else Some cap) n"
    using LZ4_compress_fast_spec [OF l assms(3), of cap dst] assms(1,2) by (auto simp: compressed_ok_def)
  have "n \<le> length src + length src div 255 + 2"
    using block_bytes_bound(2) [OF b(1), of lits] unfolding b(2,3) by simp
  then have "n \<le> cap"
    using b(6) l by (auto simp: LZ4_exceeds_def LZ4_compressBound_def split: if_splits)
  with b(1-5) show thesis
    by (rule that)
qed

lemma lz4_block_comes_back:
  assumes "LZ4_compress_fast src dst cap acc = Some (n, d)" "0 < n" "acc < 2 ^ 25" "length out = length src"
  shows "n \<le> cap" "length (take n d) = n" "length d = length dst"
    "LZ4_decompress_fast (take n d @ rest) out (length src) = Some (int n, src)"
proof -
  obtain ss lits where b: "seqs_ok (length src) [] ss" "block_data ss lits = src" "n = length (block_bytes ss lits)"
      "take n d = block_bytes ss lits" "length d = length dst" "n \<le> cap"
    using LZ4_compressed_block [OF assms(1-3)] by blast
  show "n \<le> cap" "length d = length dst"
    by (fact b)+
  show "length (take n d) = n"
    by (simp only: b(4) b(3) [symmetric])
  show "LZ4_decompress_fast (take n d @ rest) out (length src) = Some (int n, src)"
    using LZ4_decompress_block [OF b(1), of lits out rest] b(2-4) assms(4) by simp
qed

lemma LZ4_compress_in_bound:
  assumes "length src \<le> LZ4_MAX_INPUT_SIZE" and "acc < 2 ^ 25"
    and "LZ4_compressBound (length src) \<le> cap" and "LZ4_compressBound (length src) \<le> length dst"
  shows "\<exists>n d. LZ4_compress_fast src dst cap acc = Some (n, d) \<and> 0 < n \<and> n \<le> LZ4_compressBound (length src)"
proof -
  have r: "room None (length src) (length dst)"
    using assms(1,4) by (simp add: room_def LZ4_compressBound_def)
  obtain n d where c: "LZ4_compress_fast src dst cap acc = Some (n, d)"
      "\<exists>ss lits. seqs_ok (length src) [] ss \<and> block_data ss lits = src \<and> n = length (block_bytes ss lits)"
    using LZ4_compress_fast_spec [OF assms(1,2), of cap dst] assms(3) r
    by (auto simp: compressed_ok_def split: option.splits)
  then show ?thesis
    using block_bytes_bound assms(1) by (fastforce simp: LZ4_compressBound_def)
qed

lemma LZ4_compress_limited:
  assumes "length src \<le> LZ4_MAX_INPUT_SIZE" "acc < 2 ^ 25" "cap + length src div 65280 \<le> length dst"
  shows "\<exists>r. LZ4_compress_fast src dst cap acc = Some r"
proof -
  have "room (if LZ4_compressBound (length src) \<le> cap then None else Some cap) (length src) (length dst)
      \<or> LZ4_compressBound (length src) \<le> cap"
    using assms(3) by (simp add: room_def)
  then show ?thesis
    using LZ4_compress_fast_spec [OF assms(1,2), of cap dst] LZ4_compress_in_bound [OF assms(1,2), of cap dst] assms(3)
    by (cases "LZ4_compress_fast src dst cap acc") (auto simp: compressed_ok_def)
qed

text \<open>A run of one byte: one literal, one match over all but the last five bytes, five literals.\<close>

lemma run_read: "p + k \<le> n \<Longrightarrow> take k (drop p (replicate n c)) = replicate k c"
  by (simp add: min_def)

lemma run_same: "p + k \<le> n \<Longrightarrow> q + k \<le> n \<Longrightarrow> same_at (replicate n c) p q k"
  by (simp add: same_at_def)

lemma LZ4_sequence_run:
  assumes n: "13 \<le> n" and tt: "tt \<noteq> clearedTable" and h: "LZ4_hashPosition tt (replicate n c) 0 = Some h"
    and lim: "\<not> LZ4_exceeds olimit 10" "\<not> LZ4_exceeds olimit (10 + (n - 10) div 2 ^ 8)" and dst: "9 \<le> length dst"
  shows "\<exists>d tab. length d = length dst \<and>
     LZ4_sequence olimit acc (replicate n c) tt
        \<lparr>c_anchor = 0, c_op = 0, c_dst = dst, c_tab = LZ4_putPositionOnHash tt 0 h (LZ4_empty_table tt), c_pending = None\<rparr>
      = LZ4_put_code (n - 10) 0 4 d \<bind> (\<lambda>(op, dst). Some (Last \<lparr>c_anchor = n - 5, c_op = op, c_dst = dst, c_tab = tab, c_pending = None\<rparr>))"
proof -
  let ?src = "replicate n c"
  let ?st = "\<lparr>c_anchor = 0, c_op = 0, c_dst = dst, c_tab = LZ4_putPositionOnHash tt 0 h (LZ4_empty_table tt), c_pending = None\<rparr>"
  have hash: "LZ4_hashPosition tt ?src p = Some h" if "p + 4 \<le> n" for p
    using that h n run_read [of p 4 n c] run_read [of 0 4 n c] by (simp add: LZ4_hashPosition_def LZ4_read32_Some)
  have tab0: "LZ4_putPositionOnHash tt 0 h (LZ4_empty_table tt) h = Some 0"
    using tt by (cases tt) (simp_all add: LZ4_putPositionOnHash_def)
  have eq4: "LZ4_is_match near ?src (Some 0) 1 = Some True" for near
    using n run_read [of 0 4 n c] run_read [of 1 4 n c] by (simp add: LZ4_is_match_def LZ4_read32_Some MAX_DISTANCE_def)
  define tab where "tab = LZ4_putPositionOnHash tt 1 h (LZ4_putPositionOnHash tt 0 h (LZ4_empty_table tt))"
  have s: "LZ4_search ?src tt (n - MFLIMIT + 1) 1 1 nb h (LZ4_putPositionOnHash tt 0 h (LZ4_empty_table tt)) = Some (Some (1, 0, tab))" for nb
    using n hash [of 2] tab0 eq4 [of "tt = byU16"] by (subst LZ4_search.simps)
      (simp add: tab_def MFLIMIT_def WILDCOPYLENGTH_def MINMATCH_def numeral_2_eq_2)
  have cu: "LZ4_catch_up ?src 0 1 0 = Some (1, 0)"
    by (subst LZ4_catch_up.simps) simp
  have w8: "wild_span 1 = 8"
    by (simp add: wild_span_def)
  obtain d1 where d1: "LZ4_put_literals olimit ?src 0 1 0 dst = Some (Inr (0, 2, d1))" "length d1 = length dst"
    using LZ4_put_literals_eq [of 0 1 olimit 0 ?src dst] lim(1) dst n w8 by (auto simp: LASTLITERALS_def lz4_ext_def)
  have b: "LZ4_begin olimit acc ?src tt ?st = Some (Inr (1, 0, 0, ?st\<lparr>c_op := 2, c_dst := d1, c_tab := tab\<rparr>))"
    using hash [of 1] n s cu d1 by (simp add: LZ4_begin_def)
  have cnt: "LZ4_count ?src (1 + MINMATCH) (0 + MINMATCH) (length ?src - LASTLITERALS) = Some (n - 10)"
  proof -
    have "common_prefix ?src 5 4 (n - 5) = n - 10"
      using n by (intro common_prefixI run_same) simp_all
    then show ?thesis
      using LZ4_count_eq [of "n - 5" ?src 4 5] by (simp add: MINMATCH_def LASTLITERALS_def)
  qed
  let ?d = "overlay_at 2 d1 (lz4_le16 1)"
  have w2: "obj_write d1 2 (lz4_le16 1) = Some ?d" "length ?d = length dst"
    using d1(2) dst by (simp_all add: obj_write_def lz4_le16_def)
  have p: "LZ4_put_match olimit ?src 1 0 0 2 d1 = LZ4_put_code (n - 10) 0 4 ?d \<bind> (\<lambda>(op, dst). Some (Inr (n - 5, op, dst)))"
    unfolding LZ4_put_match_def Let_def diff_zero w2(1) bind.bind_lunit cnt
    using lim(2) n by (simp add: LASTLITERALS_def MINMATCH_def)
  have f: "LZ4_finish_match ?src tt st (n - 5) = Some (Last (st\<lparr>c_anchor := n - 5, c_pending := None\<rparr>))" for st
  proof -
    have "length ?src - MFLIMIT + 1 \<le> n - 5"
      using n unfolding MFLIMIT_def WILDCOPYLENGTH_def MINMATCH_def length_replicate by linarith
    then show ?thesis
      by (simp add: LZ4_finish_match_def)
  qed
  have "LZ4_sequence olimit acc ?src tt ?st = LZ4_put_code (n - 10) 0 4 ?d
      \<bind> (\<lambda>(op, dst). Some (Last \<lparr>c_anchor = n - 5, c_op = op, c_dst = dst, c_tab = tab, c_pending = None\<rparr>))"
    unfolding LZ4_sequence_def b bind.bind_lunit by (simp add: p [unfolded One_nat_def] f split_def)
  then show ?thesis
    using w2(2) by blast
qed

lemma LZ4_compress_run:
  fixes cap :: nat
  assumes n: "13 \<le> n" "n \<le> LZ4_MAX_INPUT_SIZE" and cap: "cap < LZ4_compressBound n" "cap \<le> length dst" "10 + (n - 10) div 2 ^ 8 \<le> cap"
  shows "if 4 + code_span (n - 10) \<le> length dst \<and> 10 + length (lz4_ext (n - 10)) \<le> cap
     then \<exists>d. LZ4_compress_fast (replicate n c) dst cap acc = Some (10 + length (lz4_ext (n - 10)), d)
     else if 4 + code_span (n - 10) \<le> length dst then \<exists>d. LZ4_compress_fast (replicate n c) dst cap acc = Some (0, d)
     else LZ4_compress_fast (replicate n c) dst cap acc = None"
proof -
  let ?src = "replicate n c" and ?code = "n - 10"
  define tt where "tt = (if n < LZ4_64Klimit then byU16 else if sizeof_ptr = 8 then byU32 else byPtr)"
  define a where "a = (word_of_int (if acc < 1 then ACCELERATION_DEFAULT else acc) :: u32)"
  have tt: "tt \<noteq> clearedTable" "\<not> (tt = byU16 \<and> LZ4_64Klimit \<le> length ?src)"
    by (auto simp: tt_def)
  obtain h where h: "LZ4_hashPosition tt ?src 0 = Some h"
    using LZ4_hashPosition_defined [of 0 ?src tt] n(1) by auto
  let ?st = "\<lparr>c_anchor = 0, c_op = 0, c_dst = dst, c_tab = LZ4_putPositionOnHash tt 0 h (LZ4_empty_table tt), c_pending = None\<rparr>"
  have lim: "\<not> LZ4_exceeds (Some cap) 10" "\<not> LZ4_exceeds (Some cap) (10 + ?code div 2 ^ 8)"
    using cap(3) by (simp_all add: LZ4_exceeds_def)
  have d9: "9 \<le> length dst"
    using cap(2,3) by simp
  obtain d tab where s: "length d = length dst" "LZ4_sequence (Some cap) a ?src tt ?st = LZ4_put_code ?code 0 4 d
      \<bind> (\<lambda>(op, dst). Some (Last \<lparr>c_anchor = n - 5, c_op = op, c_dst = dst, c_tab = tab, c_pending = None\<rparr>))"
    using LZ4_sequence_run [OF n(1) tt(1) h lim d9] by blast
  have nb: "\<not> LZ4_compressBound n \<le> cap" "\<not> LZ4_MAX_INPUT_SIZE < n" "\<not> n < LZ4_minLength"
    using n cap(1) by (simp_all add: LZ4_minLength_def MFLIMIT_def WILDCOPYLENGTH_def MINMATCH_def)
  have tl: "length ?src = n"
    by simp
  have e: "LZ4_compress_fast ?src dst cap acc = LZ4_sequences (Some cap) a ?src tt ?st \<bind>
        (\<lambda>last. case last of Inl dst \<Rightarrow> Some (0, dst)
        | Inr st \<Rightarrow> do {
            put \<leftarrow> LZ4_last_literals (Some cap) ?src (c_anchor st) (c_op st) (c_dst st);
            Some (case put of Inl dst \<Rightarrow> (0, dst) | Inr (op, dst) \<Rightarrow> (op, dst)) })"
    unfolding LZ4_compress_fast_def LZ4_compress_fast_extState_def Let_def if_not_P [OF nb(1)] LZ4_compress_generic_def
      if_not_P [OF nb(2)] if_not_P [OF nb(3)] tl a_def [symmetric] tt_def [symmetric] if_not_P [OF tt(2) [unfolded tl]]
    using h by (simp add: LZ4_putPosition_def)
  have sq: "LZ4_sequences (Some cap) a ?src tt ?st = LZ4_put_code ?code 0 4 d
      \<bind> (\<lambda>(op, dst). Some (Inr \<lparr>c_anchor = n - 5, c_op = op, c_dst = dst, c_tab = tab, c_pending = None\<rparr>))"
    by (subst LZ4_sequences.simps) (simp add: s(2) case_prod_beta split: option.splits Option.bind_splits)
  show ?thesis
  proof (cases "4 + code_span ?code \<le> length dst")
    case True
    obtain op' dst' where p: "LZ4_put_code ?code 0 4 d = Some (op', dst')"
      using LZ4_put_code_defined [of 4 ?code d 0] True s(1) by auto
    have op': "op' = 4 + length (lz4_ext ?code)" "length dst' = length dst"
      using LZ4_put_code_written [OF p] s(1) d9 by simp_all
    have "LZ4_last_literals (Some cap) ?src (n - 5) op' dst' = (if cap < op' + 6 then Some (Inl dst')
        else Some (Inr (op' + 6, the (obj_write (overlay_at op' dst' [lz4_token 5 0]) (op' + 1) (replicate 5 c)))))"
      using n(1) cap(2) op'(2) LZ4_put_length_eq [of 5 op' dst']
      by (auto simp: LZ4_last_literals_def LZ4_exceeds_def RUN_MASK_def ML_BITS_def lz4_ext_def obj_read_def obj_write_def)
    then show ?thesis
      using True op' by (auto simp: e sq p)
  next
    case False
    have "15 \<le> ?code"
      using False d9 by (auto simp: code_span_def split: if_splits)
    then have "LZ4_put_code ?code 0 4 d = None"
      using LZ4_put_code_long [of ?code 4 d 0] False s(1) d9 by simp
    then show ?thesis
      using False by (simp add: e sq)
  qed
qed

text \<open>An input whose words of four bytes do not come again within the distance of a match: nothing is compressed.\<close>

definition no_match :: "byte list \<Rightarrow> bool" where
  "no_match src \<longleftrightarrow> (\<forall>p q. q < p \<and> p \<le> q + MAX_DISTANCE \<and> p + 4 \<le> length src \<longrightarrow> \<not> same_at src p q 4)"

lemma LZ4_search_no_match:
  assumes "no_match src" "tab_ok tab ip" "mfl + 11 \<le> length src" "0 < step" "counter_ok nb (mfl + 1 - ip)"
    and "tt = byU16 \<longrightarrow> length src < LZ4_64Klimit"
  shows "LZ4_search src tt mfl ip step nb h tab = Some None"
proof -
  obtain r where r: "LZ4_search src tt mfl ip step nb h tab = Some r" "found_ok src tt ip mfl r"
    using LZ4_search_spec [OF assms(2) _ assms(4,5), of src tt h] assms(3) by auto
  show ?thesis
  proof (cases r)
    case (Some q)
    obtain ip' m tab' where q: "q = (ip', m, tab')"
      by (metis prod_cases3)
    have f: "ip' < mfl" "m < ip'" "same_at src ip' m 4" "tt = byU16 \<or> ip' \<le> m + MAX_DISTANCE"
      using r(2) Some q by (auto simp: found_ok_def is_match_at_def)
    have "ip' \<le> m + MAX_DISTANCE"
      using f(1,4) assms(3,6) by (auto simp: lz4_consts)
    then show ?thesis
      using assms(1,3) f by (auto simp: no_match_def)
  qed (simp add: r)
qed

lemma LZ4_compress_no_match:
  assumes "no_match src" "length src \<le> LZ4_MAX_INPUT_SIZE" "acc < 2 ^ 25" "cap \<le> length src"
  shows "LZ4_compress_fast src dst cap acc = Some (0, dst)"
proof -
  define tt where "tt = (if length src < LZ4_64Klimit then byU16 else if sizeof_ptr = 8 then byU32 else byPtr)"
  define a where "a = (word_of_int (if acc < 1 then ACCELERATION_DEFAULT else acc) :: u32)"
  have dirs: "directives_ok src tt a"
    unfolding tt_def a_def by (rule directives_extState [OF assms(2,3)])
  have tt: "\<not> (tt = byU16 \<and> LZ4_64Klimit \<le> length src)"
    by (auto simp: tt_def)
  have nb: "\<not> LZ4_compressBound (length src) \<le> cap" "\<not> LZ4_MAX_INPUT_SIZE < length src"
    using assms(2,4) by (simp_all add: LZ4_compressBound_def)
  have last: "LZ4_last_literals (Some cap) src 0 0 dst = Some (Inl dst)"
    using assms(4) by (simp add: LZ4_last_literals_def LZ4_exceeds_def)
  have "LZ4_sequences (Some cap) a src tt \<lparr>c_anchor = 0, c_op = 0, c_dst = dst, c_tab = LZ4_putPositionOnHash tt 0 h (LZ4_empty_table tt),
      c_pending = None\<rparr> = Some (Inr \<lparr>c_anchor = 0, c_op = 0, c_dst = dst, c_tab = LZ4_putPositionOnHash tt 0 h (LZ4_empty_table tt),
      c_pending = None\<rparr>)" if n: "13 \<le> length src" for h
  proof -
    let ?tab = "LZ4_putPositionOnHash tt 0 h (LZ4_empty_table tt)" and ?mfl = "length src - MFLIMIT + 1"
    obtain h1 where h1: "LZ4_hashPosition tt src (0 + 1) = Some h1"
      using LZ4_hashPosition_defined [of "0 + 1" src tt] n by auto
    have "tab_ok ?tab 1"
      by (rule tab_ok_put) (simp_all add: tab_ok_def LZ4_empty_table_def)
    moreover have mfl: "?mfl + 11 \<le> length src"
      using n by (simp add: MFLIMIT_def WILDCOPYLENGTH_def MINMATCH_def)
    moreover have "counter_ok (push_bit LZ4_skipTrigger a) (?mfl + 1 - 1)"
      using dirs mfl by (auto simp: directives_ok_def counter_ok_def)
    ultimately have "LZ4_search src tt ?mfl 1 1 (push_bit LZ4_skipTrigger a) h1 ?tab = Some None"
      using dirs by (intro LZ4_search_no_match [OF assms(1)]) (simp_all add: directives_ok_def)
    then show ?thesis
      using h1 by (subst LZ4_sequences.simps) (simp add: LZ4_sequence_def LZ4_begin_def)
  qed
  moreover have "\<exists>h. LZ4_hashPosition tt src 0 = Some h" if "13 \<le> length src"
    using LZ4_hashPosition_defined [of 0 src tt] that by auto
  ultimately have "LZ4_compress_generic src dst (Some cap) tt a = Some (0, dst)"
    using last unfolding LZ4_compress_generic_def Let_def if_not_P [OF nb(2)] if_not_P [OF tt]
    by (cases "length src < LZ4_minLength")
      (auto simp: LZ4_putPosition_def LZ4_minLength_def MFLIMIT_def WILDCOPYLENGTH_def MINMATCH_def)
  then show ?thesis
    unfolding LZ4_compress_fast_def LZ4_compress_fast_extState_def Let_def if_not_P [OF nb(1)] tt_def a_def .
qed

text \<open>Such an input of any size: groups of two marks around a counter of 14 bits.\<close>

definition counted_byte :: "byte \<Rightarrow> nat \<Rightarrow> byte" where
  "counted_byte mark i = (if i mod 4 = 0 then mark else if i mod 4 = 1 then char_of (i div 4 mod 128)
     else if i mod 4 = 2 then char_of (i div 512 mod 128) else CHR 0xFE)"

lemma counted_byte_mark:
  assumes "mark = CHR 0xFF \<or> mark = CHR 0xFD"
  shows "counted_byte mark i = mark \<longleftrightarrow> i mod 4 = 0"
proof -
  have "char_of (k mod 128) \<noteq> mark" for k :: nat
  proof
    assume "char_of (k mod 128) = mark"
    then have "of_char (char_of (k mod 128) :: char) = (of_char mark :: nat)"
      by simp
    then show False
      using assms mod_less_divisor [of 128 k] by auto
  qed
  then show ?thesis
    using assms by (auto simp: counted_byte_def)
qed

lemma residue4:
  fixes p r :: nat
  assumes "r < 4"
  obtains i where "i < 4" "(p + i) mod 4 = r"
proof
  show "(4 - p mod 4 + r) mod 4 < 4"
    by simp
  have "(p + (4 - p mod 4 + r) mod 4) mod 4 = (p mod 4 + (4 - p mod 4 + r)) mod 4"
    by (simp only: mod_add_right_eq mod_add_left_eq)
  also have "p mod 4 + (4 - p mod 4 + r) = 4 + r"
    using mod_less_divisor [of 4 p] by linarith
  finally show "(p + (4 - p mod 4 + r) mod 4) mod 4 = r"
    using assms by simp
qed

lemma counter_eq:
  assumes "char_of ((k + t) mod 128) = (char_of (k mod 128) :: char)"
  shows "128 dvd (t :: nat)"
proof -
  have "of_char (char_of ((k + t) mod 128) :: char) = (of_char (char_of (k mod 128) :: char) :: nat)"
    by (simp add: assms)
  then have "(k + t) mod 128 = k mod 128"
    using mod_less_divisor [of 128 "k + t"] mod_less_divisor [of 128 k] by simp
  then show ?thesis
    using mod_eq_dvd_iff_nat [of k "k + t" 128] by simp
qed

lemma counted_bytes_no_match:
  assumes "mark = CHR 0xFF \<or> mark = CHR 0xFD"
  shows "no_match (map (counted_byte mark) [0..<n])"
  unfolding no_match_def
proof (intro allI impI notI)
  fix p q
  assume a: "q < p \<and> p \<le> q + MAX_DISTANCE \<and> p + 4 \<le> length (map (counted_byte mark) [0..<n])"
    and s: "same_at (map (counted_byte mark) [0..<n]) p q 4"
  have eq: "counted_byte mark (p + i) = counted_byte mark (q + i)" if "i < 4" for i
    using s a that by (simp add: same_at_def)
  obtain i0 where i0: "i0 < 4" "(p + i0) mod 4 = 0"
    by (rule residue4 [of 0]) simp_all
  then have "(q + i0) mod 4 = 0"
    using eq [OF i0(1)] counted_byte_mark [OF assms] by metis
  then have "4 dvd (p + i0) - (q + i0)"
    using i0(2) a by (intro dvd_diff_nat) (simp_all add: dvd_eq_mod_eq_0)
  then obtain t where "p - q = 4 * t"
    by (auto simp: dvd_def)
  moreover have "p \<le> q + 65535"
    using a by (simp add: MAX_DISTANCE_def)
  ultimately have t: "p = q + 4 * t" "0 < t" "t < 16384"
    using a by linarith+
  obtain i1 where i1: "i1 < 4" "(q + i1) mod 4 = 1"
    by (rule residue4 [of 1]) simp_all
  obtain i2 where i2: "i2 < 4" "(q + i2) mod 4 = 2"
    by (rule residue4 [of 2]) simp_all
  have at: "counted_byte mark (q + i1 + 4 * t) = counted_byte mark (q + i1)" "counted_byte mark (q + i2 + 4 * t) = counted_byte mark (q + i2)"
    using eq [OF i1(1)] eq [OF i2(1)] by (simp_all add: t(1) ac_simps)
  have d: "(x + 4 * t) mod 4 = x mod 4" "(x + 4 * t) div 4 = x div 4 + t" for x :: nat
    by simp_all
  have "char_of (((q + i1) div 4 + t) mod 128) = (char_of ((q + i1) div 4 mod 128) :: char)"
    using at(1) i1(2) unfolding counted_byte_def d by simp
  then obtain k where k: "t = 128 * k"
    using counter_eq dvdE by blast
  have e: "(q + i2 + 4 * t) div 512 = (q + i2) div 512 + k"
    by (simp add: k)
  have "char_of (((q + i2) div 512 + k) mod 128) = (char_of ((q + i2) div 512 mod 128) :: char)"
    using at(2) i2(2) unfolding counted_byte_def d e by simp
  then have "128 dvd k"
    by (rule counter_eq)
  then show False
    using t(2,3) k by (auto simp: dvd_def)
qed

text \<open>
  C17: what the compressor has written decompresses to what it was given. Whatever the destination held, when
  \<open>LZ4_compress_fast\<close> answers a size, that size is within the limit it was given and \<open>LZ4_decompress_fast\<close>, over any
  block of the size of the input and with anything after the compressed bytes, restores the input, consumes exactly
  the compressed bytes and accesses nothing outside them and the block.
\<close>

theorem lz4_roundtrip:
  assumes "LZ4_compress_fast src dst cap acc = Some (n, d)" and "0 < n" and "acc < 2 ^ 25" and "length out = length src"
  shows "n \<le> cap \<and> LZ4_decompress_fast (take n d @ rest) out (length src) = Some (int n, src)"
  using lz4_block_comes_back [OF assms] by blast

lemma run_sample:
  obtains d where "LZ4_compress_fast (replicate 100 CHR ''a'') (replicate 100 NUL) 100 8 = Some (11, d)"
proof -
  have c: "(100 :: nat) < LZ4_compressBound 100" "(13 :: nat) \<le> 100" "100 \<le> LZ4_MAX_INPUT_SIZE" "10 + (100 - 10) div 2 ^ 8 \<le> (100 :: nat)"
    by (simp_all add: LZ4_compressBound_def LZ4_MAX_INPUT_SIZE_def)
  have n: "code_span (100 - 10) = 4" "length (lz4_ext (100 - 10)) = 1"
    by (simp_all add: code_span_def length_lz4_ext)
  show thesis
    using LZ4_compress_run [OF c(2,3,1) _ c(4), of "replicate 100 NUL" "CHR ''a''" 8] n that by auto
qed

theorem lz4_roundtrip_witness:
  "\<exists>d. LZ4_compress_fast (replicate 100 CHR ''a'') (replicate 100 NUL) 100 8 = Some (11, d)
     \<and> LZ4_decompress_fast (take 11 d @ ''!!'') (replicate 100 NUL) 100 = Some (11, replicate 100 CHR ''a'')"
proof -
  obtain d where d: "LZ4_compress_fast (replicate 100 CHR ''a'') (replicate 100 NUL) 100 8 = Some (11, d)"
    by (rule run_sample)
  show ?thesis
    using lz4_roundtrip [OF d, of "replicate 100 NUL" "''!!''"] d by simp
qed

text \<open>
  C18: the compressor stays inside its buffers and cannot fail when the destination has the documented size: for an
  input of up to \<open>LZ4_MAX_INPUT_SIZE\<close> bytes and a destination of \<open>LZ4_compressBound\<close> bytes, it makes no access outside
  either object, word copies and length padding included, and answers a size between 1 and the bound.
\<close>

theorem lz4_bound:
  assumes "length src \<le> LZ4_MAX_INPUT_SIZE" and "acc < 2 ^ 25"
    and "LZ4_compressBound (length src) \<le> cap" and "LZ4_compressBound (length src) \<le> length dst"
  shows "\<exists>n d. LZ4_compress_fast src dst cap acc = Some (n, d) \<and> 0 < n \<and> n \<le> LZ4_compressBound (length src)"
  by (rule LZ4_compress_in_bound [OF assms])

theorem lz4_bound_witness:
  "\<exists>n d. LZ4_compress_fast ''hello'' (replicate 21 NUL) 21 1 = Some (n, d) \<and> 0 < n \<and> n \<le> 21"
proof -
  have "LZ4_compressBound (length ''hello'') = 21" "length ''hello'' \<le> LZ4_MAX_INPUT_SIZE"
    by (simp_all add: LZ4_compressBound_def LZ4_MAX_INPUT_SIZE_def)
  then show ?thesis
    using lz4_bound [of "''hello''" 1 21 "replicate 21 NUL"] by simp
qed

text \<open>
  C19: a limit below the bound is not a limit on the writes. The check before a match length allows one byte for 256 of
  the length, and the length takes one for 255: a destination that has one byte in 65280 of the input more than the
  limit is never overrun, and the answer respects the limit; but one that ends at the limit can be. For a run of 135685
  zero bytes and a limit of 539 bytes, a destination of exactly 539 bytes is written past its end, before the check
  of the last literals answers 0.
\<close>

theorem lz4_limit_overrun:
  assumes "length src \<le> LZ4_MAX_INPUT_SIZE" and "acc < 2 ^ 25" and "cap + length src div 65280 \<le> length dst"
  shows "(\<exists>n d. LZ4_compress_fast src dst cap acc = Some (n, d) \<and> n \<le> cap)
    \<and> LZ4_compress_fast (replicate 135685 NUL) (replicate 539 NUL) 539 8 = None
    \<and> (\<exists>d. LZ4_compress_fast (replicate 135685 NUL) (replicate 540 NUL) 539 8 = Some (0, d))"
proof -
  have c: "(539 :: nat) < LZ4_compressBound 135685" "(13 :: nat) \<le> 135685" "135685 \<le> LZ4_MAX_INPUT_SIZE"
    by (simp_all add: LZ4_compressBound_def LZ4_MAX_INPUT_SIZE_def)
  have n: "code_span (135685 - 10) = 536" "length (lz4_ext (135685 - 10)) = 533" "10 + (135685 - 10) div 2 ^ 8 \<le> (539 :: nat)"
    by (simp_all add: code_span_def length_lz4_ext)
  have over: "LZ4_compress_fast (replicate 135685 NUL) (replicate 539 NUL) 539 8 = None"
    "\<exists>d. LZ4_compress_fast (replicate 135685 NUL) (replicate 540 NUL) 539 8 = Some (0, d)"
    using LZ4_compress_run [OF c(2,3,1) _ n(3), of "replicate 539 NUL" NUL 8]
      LZ4_compress_run [OF c(2,3,1) _ n(3), of "replicate 540 NUL" NUL 8] n by simp_all
  obtain m d where r: "LZ4_compress_fast src dst cap acc = Some (m, d)"
    using LZ4_compress_limited [OF assms] by (metis surj_pair)
  then have "m \<le> cap"
    using LZ4_compressed_block [OF r _ assms(2)] by (cases "m = 0") auto
  then show ?thesis
    using r over by blast
qed

theorem lz4_limit_overrun_witness:
  "(\<exists>n d. LZ4_compress_fast ''hello'' (replicate 6 NUL) 6 1 = Some (n, d) \<and> n \<le> 6)
    \<and> LZ4_compress_fast (replicate 135685 NUL) (replicate 539 NUL) 539 8 = None"
proof -
  have "length ''hello'' \<le> LZ4_MAX_INPUT_SIZE" "6 + length ''hello'' div 65280 \<le> length (replicate 6 NUL)"
    by (simp_all add: LZ4_MAX_INPUT_SIZE_def)
  then show ?thesis
    using lz4_limit_overrun [of "''hello''" 1 6 "replicate 6 NUL"] by simp
qed

end
