(* ===== verification/StateFile.thy ===== *)
theory StateFile
  imports BootInfo MsfsLaws States Shared Lz4Block
begin

text \<open>
  The file of a save state, \<open>SaveState\<close> and \<open>LoadState\<close> of \<open>overlay/user/main.c\<close>: the menu has left a file with a
  blank header and the screenshot; saving appends the open files of the memory-stick server and the two compressed
  halves of the emulated memory, and writes the header last. The compressor is the model of LZ4; the layout of a
  descriptor is outside the repository, the fields of \<open>state_codec\<close>. The memory is a list of bytes; \<open>stack\<close> and
  \<open>buf\<close> are the header object and the temporary block with what they hold before.
\<close>

section \<open>The header\<close>

record AdrenalineStateHeader =
  h_magic :: u32
  h_version :: u32
  h_title :: "byte list"
  h_sp :: u32
  h_ra :: u32
  screenshot_offset :: u32
  screenshot_size :: u32
  descriptors_offset :: u32
  descriptors_size :: u32
  ram_part1_offset :: u32
  ram_part1_size :: u32
  ram_part2_offset :: u32
  ram_part2_size :: u32
  h_reserved :: "byte list"

definition header_bytes :: "AdrenalineStateHeader \<Rightarrow> byte list" where
  "header_bytes h =
     words_bytes [h_magic h, h_version h] @ h_title h
     @ words_bytes [h_sp h, h_ra h, screenshot_offset h, screenshot_size h, descriptors_offset h, descriptors_size h,
         ram_part1_offset h, ram_part1_size h, ram_part2_offset h, ram_part2_size h]
     @ h_reserved h"

definition header_of_bytes :: "byte list \<Rightarrow> AdrenalineStateHeader" where
  "header_of_bytes bs =
     (let a = words_of_bytes 2 bs; b = words_of_bytes 10 (drop 0x88 bs)
      in \<lparr>h_magic = a ! 0, h_version = a ! 1, h_title = take 0x80 (drop 8 bs), h_sp = b ! 0, h_ra = b ! 1,
          screenshot_offset = b ! 2, screenshot_size = b ! 3, descriptors_offset = b ! 4, descriptors_size = b ! 5,
          ram_part1_offset = b ! 6, ram_part1_size = b ! 7, ram_part2_offset = b ! 8, ram_part2_size = b ! 9,
          h_reserved = take 0x50 (drop 0xB0 bs)\<rparr>)"

definition valid_header :: "AdrenalineStateHeader \<Rightarrow> bool" where
  "valid_header h \<longleftrightarrow> length (h_title h) = 0x80 \<and> length (h_reserved h) = 0x50"

section \<open>Saving and loading\<close>

definition LZ4_ACCELERATION :: int where
  "LZ4_ACCELERATION = 8"

definition SAVESTATE_TEMP_SIZE :: nat where
  "SAVESTATE_TEMP_SIZE = 32 * 1024 * 1024"

definition ADRENALINE_SAVESTATE_VERSION :: u32 where
  "ADRENALINE_SAVESTATE_VERSION = 0x00070000"

record state_codec =
  descriptors_bytes :: "descriptor list \<Rightarrow> byte list"
  descriptors_of :: "byte list \<Rightarrow> descriptor list"
  sizeof_descriptor :: nat

text \<open>Compress one half of the memory into the block: what is written to the file, and the block after it.\<close>

definition compressed :: "byte list \<Rightarrow> byte list \<Rightarrow> (byte list \<times> byte list) option" where
  "compressed buf x = do {
     (n, buf) \<leftarrow> LZ4_compress_fast x buf SAVESTATE_TEMP_SIZE LZ4_ACCELERATION;
     part \<leftarrow> obj_read buf 0 n;
     Some (part, buf) }"

definition write_at :: "'w sceio \<Rightarrow> int \<Rightarrow> u32 \<Rightarrow> byte list \<Rightarrow> 'w \<Rightarrow> 'w" where
  "write_at io fd off data w =
     (let (_, w) = sceIoLseek io fd (uint off) SEEK_SET w; (_, w) = sceIoWrite io fd data w in w)"

definition read_at :: "'w sceio \<Rightarrow> int \<Rightarrow> u32 \<Rightarrow> u32 \<Rightarrow> byte list \<Rightarrow> 'w \<Rightarrow> (byte list \<times> 'w) option" where
  "read_at io fd off n buf w = do {
     let (_, w) = sceIoLseek io fd (uint off) SEEK_SET w;
     let (_, data, w) = sceIoRead io fd (unat n) w;
     buf \<leftarrow> fill buf data;
     Some (buf, w) }"

definition state_header :: "msfs_cfg \<Rightarrow> state_codec \<Rightarrow> SceAdrenaline \<Rightarrow> byte list \<Rightarrow> AdrenalineStateHeader" where
  "state_header cfg cd adr ttl =
     (let s_off = 0x100; s_size = of_nat SCREENSHOT_SIZE;
          d_off = s_off + s_size; d_size = of_nat (MAX_DESCRIPTORS cfg * sizeof_descriptor cd)
      in \<lparr>h_magic = ADRENALINE_SAVESTATE_MAGIC, h_version = ADRENALINE_SAVESTATE_VERSION, h_title = ttl,
          h_sp = a_sp adr, h_ra = a_ra adr, screenshot_offset = s_off, screenshot_size = s_size,
          descriptors_offset = d_off, descriptors_size = d_size, ram_part1_offset = d_off + d_size,
          ram_part1_size = 0, ram_part2_offset = 0, ram_part2_size = 0, h_reserved = replicate 0x50 NUL\<rparr>)"

definition SaveState ::
  "msfs_cfg \<Rightarrow> 'w msfs_sys \<Rightarrow> state_codec \<Rightarrow> int \<Rightarrow> byte list \<Rightarrow> SceAdrenaline \<Rightarrow> byte list \<Rightarrow> descriptor list \<Rightarrow> 'w
     \<Rightarrow> (int \<times> 'w) option"
where
  "SaveState cfg sys cd location buf adr ram ds w =
     (let io = host sys;
          p = makeSaveStatePath location (a_num adr);
          tmp = p @ ''.tmp'';
          (fd, w) = sceIoOpen io tmp {O_WRONLY} 511 w
      in if fd < 0 then Some (fd, w)
         else do {
           ttl \<leftarrow> strcpy (replicate 0x80 NUL) (a_title adr);
           let h = state_header cfg cd adr ttl;
           data \<leftarrow> bytes_arg (descriptors_bytes cd (ScePspemuMsfsGetFileDescriptors ds)) (unat (descriptors_size h));
           let w = write_at io fd (descriptors_offset h) data w;
           (part1, buf) \<leftarrow> compressed buf (take SAVESTATE_TEMP_SIZE ram);
           let w = write_at io fd (ram_part1_offset h) part1 w;
           (part2, buf) \<leftarrow> compressed buf (take SAVESTATE_TEMP_SIZE (drop SAVESTATE_TEMP_SIZE ram));
           let h = h\<lparr>ram_part2_offset := ram_part1_offset h + of_nat (length part1)\<rparr>;
           let w = write_at io fd (ram_part2_offset h) part2 w;
           let h = h\<lparr>ram_part1_size := of_nat (length part1), ram_part2_size := of_nat (length part2)\<rparr>;
           let w = write_at io fd 0 (header_bytes h) w;
           let (_, w) = sceIoClose io fd w;
           let (_, w) = sceIoRemove io p w;
           let (_, w) = sceIoRename sys tmp p w;
           Some (0, w) })"

definition load_descriptors ::
  "msfs_cfg \<Rightarrow> 'w msfs_sys \<Rightarrow> msfs_env \<Rightarrow> state_codec \<Rightarrow> AdrenalineStateHeader \<Rightarrow> int \<Rightarrow> descriptor list \<Rightarrow> 'w
     \<Rightarrow> (descriptor list \<times> 'w) option"
where
  "load_descriptors cfg sys env cd h fd ds w =
     (case heap sys (MAX_DESCRIPTORS cfg * sizeof_descriptor cd) w of
        None \<Rightarrow> Some (ds, w)
      | Some raw \<Rightarrow> do {
          (raw, w) \<leftarrow> read_at (host sys) fd (descriptors_offset h) (descriptors_size h) raw w;
          Some (ScePspemuMsfsSetFileDescriptors sys env (descriptors_of cd raw) ds w) })"

definition LoadState ::
  "msfs_cfg \<Rightarrow> 'w msfs_sys \<Rightarrow> msfs_env \<Rightarrow> state_codec \<Rightarrow> int \<Rightarrow> byte list \<Rightarrow> byte list
     \<Rightarrow> SceAdrenaline \<times> byte list \<times> descriptor list \<Rightarrow> 'w
     \<Rightarrow> (int \<times> (SceAdrenaline \<times> byte list \<times> descriptor list) \<times> 'w) option"
where
  "LoadState cfg sys env cd location stack buf s w =
     (let io = host sys;
          (adr, ram, ds) = s;
          p = makeSaveStatePath location (a_num adr);
          (fd, w) = sceIoOpen io p {O_RDONLY} 0 w
      in if fd < 0 then Some (fd, s, w)
         else do {
           (hb, w) \<leftarrow> read_at io fd 0 0x100 stack w;
           let h = header_of_bytes hb;
           (buf, w) \<leftarrow> read_at io fd (ram_part1_offset h) (ram_part1_size h) buf w;
           (_, low) \<leftarrow> LZ4_decompress_fast buf (take SAVESTATE_TEMP_SIZE ram) SAVESTATE_TEMP_SIZE;
           (buf, w) \<leftarrow> read_at io fd (ram_part2_offset h) (ram_part2_size h) buf w;
           (_, high) \<leftarrow> LZ4_decompress_fast buf (take SAVESTATE_TEMP_SIZE (drop SAVESTATE_TEMP_SIZE ram)) SAVESTATE_TEMP_SIZE;
           (ds, w) \<leftarrow> load_descriptors cfg sys env cd h fd ds w;
           let (_, w) = sceIoClose io fd w;
           Some (0, (adr\<lparr>a_sp := h_sp h, a_ra := h_ra h\<rparr>, low @ high, ds), w) })"

section \<open>The header as bytes\<close>

lemma words_of_bytes_list2: "map ((!) (words_of_bytes 2 bs)) [0, 1] = words_of_bytes 2 bs"
  by (rule nth_equalityI) (auto simp: nth_Cons eval_nat_numeral split: nat.splits)

lemma words_of_bytes_list10: "map ((!) (words_of_bytes 10 bs)) [0,1,2,3,4,5,6,7,8,9] = words_of_bytes 10 bs"
  by (rule nth_equalityI) (auto simp: nth_Cons eval_nat_numeral split: nat.splits)

lemma length_header_bytes: "valid_header h \<Longrightarrow> length (header_bytes h) = 0x100"
  by (simp add: header_bytes_def valid_header_def)

lemma header_roundtrip:
  assumes "valid_header h"
  shows "header_of_bytes (header_bytes h) = h"
proof -
  have l: "length (h_title h) = 0x80" "length (h_reserved h) = 0x50"
    using assms by (simp_all add: valid_header_def)
  have a: "words_of_bytes 2 (header_bytes h) = [h_magic h, h_version h]"
    unfolding header_bytes_def by (subst words_of_bytes_words_bytes) simp_all
  have d: "drop 8 (header_bytes h) = h_title h @ drop 0x88 (header_bytes h)"
    using l by (simp add: header_bytes_def)
  have b: "words_of_bytes 10 (drop 0x88 (header_bytes h))
      = [h_sp h, h_ra h, screenshot_offset h, screenshot_size h, descriptors_offset h, descriptors_size h,
         ram_part1_offset h, ram_part1_size h, ram_part2_offset h, ram_part2_size h]"
    using l by (simp add: header_bytes_def words_of_bytes_words_bytes)
  have c: "take 0x50 (drop 0xB0 (header_bytes h)) = h_reserved h"
    using l by (simp add: header_bytes_def)
  show ?thesis
    unfolding header_of_bytes_def Let_def a b c d using l by (cases h) simp
qed

lemma header_bytes_of_bytes:
  assumes "length bs = 0x100"
  shows "header_bytes (header_of_bytes bs) = bs"
proof -
  have "words_bytes (words_of_bytes 2 bs) = take 8 bs"
    "words_bytes (words_of_bytes 10 (drop 0x88 bs)) = take 40 (drop 0x88 bs)"
    using assms words_bytes_words_of_bytes [of 2 bs] words_bytes_words_of_bytes [of 10 "drop 0x88 bs"] by simp_all
  moreover have "take 8 bs @ take 0x80 (drop 8 bs) @ take 40 (drop 0x88 bs) @ take 0x50 (drop 0xB0 bs) = bs"
    using assms append_take_drop_id [of 8 bs] append_take_drop_id [of "0x80" "drop 8 bs"]
      append_take_drop_id [of 40 "drop 0x88 bs"] by simp
  ultimately show ?thesis
    unfolding header_bytes_def header_of_bytes_def Let_def
    using words_of_bytes_list2 [of bs] words_of_bytes_list10 [of "drop 0x88 bs"] by simp
qed

interpretation state_header_image: struct_image header_bytes header_of_bytes "0x100" valid_header
  by unfold_locales
    (simp_all add: length_header_bytes header_roundtrip header_bytes_of_bytes, simp add: valid_header_def header_of_bytes_def Let_def)

section \<open>Writing and reading at an offset\<close>

lemma write_at_holds:
  assumes "fs_contract io V" "holds V w fd p pos fs" "files fs p = Some d" "unat off \<le> length d"
  shows "\<exists>w'. write_at io fd off data w = w'
           \<and> holds V w' fd p (unat off + length data) (fs\<lparr>files := (files fs)(p := Some (overlay_at (unat off) d data))\<rparr>)"
proof -
  have t: "seek_target SEEK_SET (uint off) pos d = uint off"
    by (simp add: seek_target_def)
  obtain w1 where w1: "sceIoLseek io fd (uint off) SEEK_SET w = (uint off, w1)" "holds V w1 fd p (unat off) fs"
    using seek_holds [OF assms(1-3), of SEEK_SET "uint off"] unfolding t by auto
  show ?thesis
    using write_holds [OF assms(1) w1(2) assms(3,4), of data] w1(1) by (auto simp: write_at_def)
qed

lemma read_at_holds:
  assumes "fs_contract io V" "holds V w fd p pos fs" "files fs p = Some d"
    and "take (unat n) (drop (unat off) d) = data" "length data \<le> length buf"
  shows "\<exists>w' pos'. read_at io fd off n buf w = Some (overlay buf data, w') \<and> holds V w' fd p pos' fs"
proof -
  obtain w1 w2 where "sceIoLseek io fd (uint off) SEEK_SET w = (uint off, w1)"
    "sceIoRead io fd (unat n) w1 = (int (length data), data, w2)" "holds V w2 fd p (unat off + length data) fs"
    using seek_read_holds [OF assms(1-3), of "uint off" "unat n"] assms(4) by auto
  then show ?thesis
    using assms(5) by (auto simp: read_at_def fill_def)
qed

section \<open>The file that is left\<close>

text \<open>What the rename call documents.\<close>

definition rename_contract :: "'w msfs_sys \<Rightarrow> ('w \<Rightarrow> fsview) \<Rightarrow> bool" where
  "rename_contract sys V \<longleftrightarrow>
     (\<forall>p q w d. files (V w) p = Some d \<longrightarrow>
        V (snd (sceIoRename sys p q w)) = (V w)\<lparr>files := (files (V w))(p := None, q := Some d)\<rparr>)"

definition state_image :: "AdrenalineStateHeader \<Rightarrow> byte list \<Rightarrow> byte list \<Rightarrow> byte list \<Rightarrow> byte list \<Rightarrow> byte list" where
  "state_image h shot data part1 part2 = header_bytes h @ shot @ data @ part1 @ part2"

definition final_header ::
  "msfs_cfg \<Rightarrow> state_codec \<Rightarrow> SceAdrenaline \<Rightarrow> byte list \<Rightarrow> byte list \<Rightarrow> byte list \<Rightarrow> AdrenalineStateHeader"
where
  "final_header cfg cd adr ttl part1 part2 =
     (let h = state_header cfg cd adr ttl
      in h\<lparr>ram_part2_offset := ram_part1_offset h + of_nat (length part1),
           ram_part1_size := of_nat (length part1), ram_part2_size := of_nat (length part2)\<rparr>)"

definition state_fits :: "msfs_cfg \<Rightarrow> state_codec \<Rightarrow> byte list \<Rightarrow> byte list \<Rightarrow> bool" where
  "state_fits cfg cd part1 part2 \<longleftrightarrow>
     MAX_DESCRIPTORS cfg * sizeof_descriptor cd \<le> 2 ^ 20
     \<and> length part1 \<le> SAVESTATE_TEMP_SIZE \<and> length part2 \<le> SAVESTATE_TEMP_SIZE"

lemma overlay_at_end: "overlay_at (length d) d x = d @ x"
  by (simp add: overlay_at_def)

lemma header_offsets:
  fixes adr :: SceAdrenaline and ttl :: "byte list"
  assumes "state_fits cfg cd part1 part2"
  defines "n \<equiv> MAX_DESCRIPTORS cfg * sizeof_descriptor cd" and "h \<equiv> final_header cfg cd adr ttl part1 part2"
  shows "unat (descriptors_offset h) = 0x100 + SCREENSHOT_SIZE" "unat (descriptors_size h) = n"
    "unat (ram_part1_offset h) = 0x100 + SCREENSHOT_SIZE + n" "unat (ram_part1_size h) = length part1"
    "unat (ram_part2_offset h) = 0x100 + SCREENSHOT_SIZE + n + length part1" "unat (ram_part2_size h) = length part2"
    "unat (screenshot_offset h) = 0x100" "unat (screenshot_size h) = SCREENSHOT_SIZE"
    "h_sp h = a_sp adr" "h_ra h = a_ra adr" "h_title h = ttl" "h_magic h = ADRENALINE_SAVESTATE_MAGIC"
proof -
  have b: "n \<le> 1048576" "length part1 \<le> 33554432" "length part2 \<le> 33554432"
    using assms(1) by (simp_all add: state_fits_def n_def SAVESTATE_TEMP_SIZE_def)
  show "unat (descriptors_offset h) = 0x100 + SCREENSHOT_SIZE" "unat (descriptors_size h) = n"
    "unat (ram_part1_offset h) = 0x100 + SCREENSHOT_SIZE + n" "unat (ram_part1_size h) = length part1"
    "unat (ram_part2_offset h) = 0x100 + SCREENSHOT_SIZE + n + length part1" "unat (ram_part2_size h) = length part2"
    "unat (screenshot_offset h) = 0x100" "unat (screenshot_size h) = SCREENSHOT_SIZE"
    using b by (simp_all add: h_def final_header_def state_header_def Let_def SCREENSHOT_SIZE_def n_def [symmetric]
        unat_word_ariths unat_of_nat)
  show "h_sp h = a_sp adr" "h_ra h = a_ra adr" "h_title h = ttl" "h_magic h = ADRENALINE_SAVESTATE_MAGIC"
    by (simp_all add: h_def final_header_def state_header_def Let_def)
qed

lemma valid_final_header: "length ttl = 0x80 \<Longrightarrow> valid_header (final_header cfg cd adr ttl part1 part2)"
  by (simp add: valid_header_def final_header_def state_header_def Let_def)

lemma SaveState_writes:
  assumes io: "fs_contract (host sys) V" and rn: "rename_contract sys V"
    and f: "files (V w) (p @ ''.tmp'') = Some (blank @ shot)" "length blank = 0x100" "length shot = SCREENSHOT_SIZE"
    and p: "p = makeSaveStatePath location (a_num adr)"
    and ttl: "strcpy (replicate 0x80 NUL) (a_title adr) = Some ttl"
    and data: "data = descriptors_bytes cd ds" "length data = MAX_DESCRIPTORS cfg * sizeof_descriptor cd"
    and parts: "compressed buf (take SAVESTATE_TEMP_SIZE ram) = Some (part1, buf1)"
      "compressed buf1 (take SAVESTATE_TEMP_SIZE (drop SAVESTATE_TEMP_SIZE ram)) = Some (part2, buf2)"
    and fits: "state_fits cfg cd part1 part2"
  shows "\<exists>w'. SaveState cfg sys cd location buf adr ram ds w = Some (0, w')
      \<and> V w' = (V w)\<lparr>files := (files (V w))(p @ ''.tmp'' := None,
           p := Some (state_image (final_header cfg cd adr ttl part1 part2) shot data part1 part2))\<rparr>"
proof -
  let ?io = "host sys" and ?tmp = "p @ ''.tmp''"
  define h where "h = final_header cfg cd adr ttl part1 part2"
  define h0 where "h0 = state_header cfg cd adr ttl"
  note off = header_offsets [OF fits, of adr ttl, folded h_def]
  have h: "h = h0\<lparr>ram_part2_offset := ram_part1_offset h0 + of_nat (length part1),
      ram_part1_size := of_nat (length part1), ram_part2_size := of_nat (length part2)\<rparr>"
    by (simp add: h_def h0_def final_header_def Let_def)
  have h0: "descriptors_offset h0 = descriptors_offset h" "descriptors_size h0 = descriptors_size h"
    "ram_part1_offset h0 = ram_part1_offset h"
    by (simp_all add: h)
  have off2: "ram_part1_offset h + of_nat (length part1) = ram_part2_offset h"
    by (simp add: h)
  have hh: "h0\<lparr>ram_part2_offset := ram_part2_offset h, ram_part1_size := of_nat (length part1),
      ram_part2_size := of_nat (length part2)\<rparr> = h"
    by (simp add: h)
  obtain fd w0 where w0: "sceIoOpen ?io ?tmp {O_WRONLY} 511 w = (fd, w0)" "0 \<le> fd" "holds V w0 fd ?tmp 0 (V w)"
      "handles (V w) fd = None"
    using open_holds [OF io f(1), of "{O_WRONLY}" 511] by auto
  define fs where "fs c = (V w)\<lparr>files := (files (V w))(?tmp := Some c)\<rparr>" for c
  have fs: "files (fs c) ?tmp = Some c" "(fs c)\<lparr>files := (files (fs c))(?tmp := Some c')\<rparr> = fs c'" for c c'
    by (simp_all add: fs_def)
  have fs0: "fs (blank @ shot) = V w"
    using f(1) by (simp add: fs_def fun_upd_idem)
  have step: "holds V x fd ?tmp pos (fs c) \<Longrightarrow> unat o' = length c \<Longrightarrow>
      \<exists>pos'. holds V (write_at ?io fd o' new x) fd ?tmp pos' (fs (c @ new))" for x pos c o' new
    using write_at_holds [OF io _ fs(1), of x fd pos c o' new] by (auto simp: overlay_at_end fs(2))
  define w1 where "w1 = write_at ?io fd (descriptors_offset h) data w0"
  define w2 where "w2 = write_at ?io fd (ram_part1_offset h) part1 w1"
  define w3 where "w3 = write_at ?io fd (ram_part2_offset h) part2 w2"
  define w4 where "w4 = write_at ?io fd 0 (header_bytes h) w3"
  obtain q1 where q1: "holds V w1 fd ?tmp q1 (fs ((blank @ shot) @ data))"
    using step [of w0 0 "blank @ shot" "descriptors_offset h" data] w0(3) f(2,3) off(1) unfolding fs0 w1_def by auto
  obtain q2 where q2: "holds V w2 fd ?tmp q2 (fs (((blank @ shot) @ data) @ part1))"
    using step [OF q1, of "ram_part1_offset h" part1] f(2,3) off(3) data(2) unfolding w2_def by auto
  obtain q3 where q3: "holds V w3 fd ?tmp q3 (fs ((((blank @ shot) @ data) @ part1) @ part2))"
    using step [OF q2, of "ram_part2_offset h" part2] f(2,3) off(5) data(2) unfolding w3_def by auto
  let ?image = "state_image h shot data part1 part2"
  have len: "length (header_bytes h) = 0x100"
    using ttl by (intro length_header_bytes) (auto simp: h_def strcpy_eq intro!: valid_final_header split: if_splits)
  have img: "overlay_at 0 ((((blank @ shot) @ data) @ part1) @ part2) (header_bytes h) = ?image"
    using f(2) len by (simp add: overlay_at_def state_image_def)
  obtain q4 where q4: "holds V w4 fd ?tmp q4 (fs ?image)"
    using write_at_holds [OF io q3 fs(1), of 0 "header_bytes h"] unfolding unat_0 fs(2) img w4_def [symmetric] using f(2) by auto
  obtain r5 w5 where w5: "sceIoClose ?io fd w4 = (r5, w5)" "V w5 = fs ?image"
    using close_holds [OF io q4] w0(4) by (auto simp: fs_def)
  obtain r6 w6 where w6: "sceIoRemove ?io p w5 = (r6, w6)" "V w6 = (V w5)\<lparr>files := (files (V w5))(p := None)\<rparr>"
    using remove_path [OF io, of p w5] by auto
  obtain r7 w7 where w7: "sceIoRename sys ?tmp p w6 = (r7, w7)"
    by fastforce
  have "files (V w6) ?tmp = Some ?image"
    by (simp add: w6(2) w5(2) fs(1))
  then have v7: "V w7 = (V w6)\<lparr>files := (files (V w6))(?tmp := None, p := Some ?image)\<rparr>"
    using rn w7 unfolding rename_contract_def by (metis snd_conv)
  have v: "V w7 = (V w)\<lparr>files := (files (V w))(?tmp := None, p := Some ?image)\<rparr>"
    by (simp add: v7 w6(2) w5(2) fs_def fun_upd_twist)
  have arg: "bytes_arg (descriptors_bytes cd (ScePspemuMsfsGetFileDescriptors ds)) (unat (descriptors_size h)) = Some data"
    using data off(2) by (simp add: bytes_arg_def ScePspemuMsfsGetFileDescriptors_def)
  have "SaveState cfg sys cd location buf adr ram ds w = Some (0, w7)"
    using w0(1,2) ttl arg unfolding SaveState_def Let_def p [symmetric] prod.case
    by (simp add: h0_def [symmetric] parts h0 off2 hh w1_def [symmetric] w2_def [symmetric] w3_def [symmetric] w4_def [symmetric] w5 w6 w7)
  then show ?thesis
    using v unfolding h_def by blast
qed

lemma LoadState_reads:
  assumes io: "fs_contract (host sys) V" and p: "p = makeSaveStatePath location (a_num adr)"
    and img: "files (V w) p = Some img" "length h_bytes = 0x100" "take 0x100 img = h_bytes"
    and h: "h = header_of_bytes h_bytes"
    and parts: "take (unat (ram_part1_size h)) (drop (unat (ram_part1_offset h)) img) = part1"
      "take (unat (ram_part2_size h)) (drop (unat (ram_part2_offset h)) img) = part2"
      "take (unat (descriptors_size h)) (drop (unat (descriptors_offset h)) img) = data"
    and bufs: "length stack = 0x100" "length part1 \<le> length buf" "length part2 \<le> length buf"
    and hp: "\<forall>w. heap sys (MAX_DESCRIPTORS cfg * sizeof_descriptor cd) w = Some raw" "length raw = length data"
    and unz: "\<forall>rest. LZ4_decompress_fast (part1 @ rest) (take SAVESTATE_TEMP_SIZE ram) SAVESTATE_TEMP_SIZE = Some (n1, low)"
      "\<forall>rest. LZ4_decompress_fast (part2 @ rest) (take SAVESTATE_TEMP_SIZE (drop SAVESTATE_TEMP_SIZE ram)) SAVESTATE_TEMP_SIZE
         = Some (n2, high)"
  shows "\<exists>w1 w'. LoadState cfg sys env cd location stack buf (adr, ram, ds) w
      = Some (0, (adr\<lparr>a_sp := h_sp h, a_ra := h_ra h\<rparr>, low @ high,
          fst (ScePspemuMsfsSetFileDescriptors sys env (descriptors_of cd data) ds w1)), w')"
proof -
  let ?io = "host sys"
  obtain fd w0 where w0: "sceIoOpen ?io p {O_RDONLY} 0 w = (fd, w0)" "0 \<le> fd" "holds V w0 fd p 0 (V w)"
    using open_holds [OF io img(1), of "{O_RDONLY}" 0] by auto
  obtain w1 q1 where w1: "read_at ?io fd 0 0x100 stack w0 = Some (h_bytes, w1)" "holds V w1 fd p q1 (V w)"
    using read_at_holds [OF io w0(3) img(1), of "0x100" 0 h_bytes stack] img(2,3) bufs(1)
    by (auto simp: overlay_same_length)
  obtain w2 q2 where w2: "read_at ?io fd (ram_part1_offset h) (ram_part1_size h) buf w1 = Some (overlay buf part1, w2)"
      "holds V w2 fd p q2 (V w)"
    using read_at_holds [OF io w1(2) img(1) parts(1) bufs(2)] by blast
  have l: "length part2 \<le> length (overlay buf part1)"
    using bufs(2,3) by simp
  obtain w3 q3 where w3: "read_at ?io fd (ram_part2_offset h) (ram_part2_size h) (overlay buf part1) w2
      = Some (overlay (overlay buf part1) part2, w3)" "holds V w3 fd p q3 (V w)"
    using read_at_holds [OF io w2(2) img(1) parts(2) l] by blast
  obtain w4 q4 where w4: "read_at ?io fd (descriptors_offset h) (descriptors_size h) raw w3 = Some (data, w4)"
    using read_at_holds [OF io w3(2) img(1) parts(3), of raw] hp(2) by (auto simp: overlay_same_length)
  have z: "LZ4_decompress_fast (overlay buf part1) (take SAVESTATE_TEMP_SIZE ram) SAVESTATE_TEMP_SIZE = Some (n1, low)"
    "LZ4_decompress_fast (overlay (overlay buf part1) part2) (take SAVESTATE_TEMP_SIZE (drop SAVESTATE_TEMP_SIZE ram))
       SAVESTATE_TEMP_SIZE = Some (n2, high)"
    using unz by (simp_all add: overlay_def)
  obtain ds' w5 where d: "ScePspemuMsfsSetFileDescriptors sys env (descriptors_of cd data) ds w4 = (ds', w5)"
    by fastforce
  have e: "load_descriptors cfg sys env cd h fd ds w3 = Some (ds', w5)"
    using hp(1) by (simp add: load_descriptors_def w4 d)
  obtain r6 w6 where "sceIoClose ?io fd w5 = (r6, w6)"
    by fastforce
  then have "LoadState cfg sys env cd location stack buf (adr, ram, ds) w
      = Some (0, (adr\<lparr>a_sp := h_sp h, a_ra := h_ra h\<rparr>, low @ high, ds'), w6)"
    using w0(1,2) by (simp add: LoadState_def p [symmetric] w1(1) h [symmetric] w2(1) w3(1) z e)
  then show ?thesis
    using d by (metis fst_conv)
qed

lemma strcpy_title:
  assumes "terminated (a_title adr)" "length (a_title adr) = 0x80"
  shows "\<exists>ttl. strcpy (replicate 0x80 NUL) (a_title adr) = Some ttl \<and> length ttl = 0x80"
  using assms length_cstr_less [OF assms(1)] by (auto simp: strcpy_eq)

lemma image_parts:
  fixes adr :: SceAdrenaline
  assumes "state_fits cfg cd part1 part2" "length ttl = 0x80" "length shot = SCREENSHOT_SIZE"
    "length data = MAX_DESCRIPTORS cfg * sizeof_descriptor cd"
  defines "h \<equiv> final_header cfg cd adr ttl part1 part2"
  defines "img \<equiv> state_image h shot data part1 part2"
  shows "take 0x100 img = header_bytes h" "take SCREENSHOT_SIZE (drop 0x100 img) = shot"
    "take (unat (ram_part1_size h)) (drop (unat (ram_part1_offset h)) img) = part1"
    "take (unat (ram_part2_size h)) (drop (unat (ram_part2_offset h)) img) = part2"
    "take (unat (descriptors_size h)) (drop (unat (descriptors_offset h)) img) = data"
proof -
  note off = header_offsets [OF assms(1), of adr ttl, folded h_def]
  have l: "length (header_bytes h) = 0x100"
    using assms(2) by (intro length_header_bytes) (simp add: h_def valid_final_header)
  show "take 0x100 img = header_bytes h" "take SCREENSHOT_SIZE (drop 0x100 img) = shot"
    using l assms(3) by (simp_all add: img_def state_image_def)
  have pre: "take (length y) (drop (length x) (x @ y @ z)) = y" for x y z :: "byte list"
    by simp
  have img: "img = (header_bytes h @ shot @ data) @ part1 @ part2" "img = (header_bytes h @ shot @ data @ part1) @ part2 @ []"
    "img = (header_bytes h @ shot) @ data @ part1 @ part2"
    by (simp_all add: img_def state_image_def)
  have n: "unat (ram_part1_offset h) = length (header_bytes h @ shot @ data)"
    "unat (ram_part2_offset h) = length (header_bytes h @ shot @ data @ part1)"
    "unat (descriptors_offset h) = length (header_bytes h @ shot)"
    using off l assms(3,4) by simp_all
  have sz: "unat (descriptors_size h) = length data"
    using off(2) assms(4) by simp
  show "take (unat (ram_part1_size h)) (drop (unat (ram_part1_offset h)) img) = part1"
    unfolding off(4) n img(1) by (rule pre)
  show "take (unat (ram_part2_size h)) (drop (unat (ram_part2_offset h)) img) = part2"
    unfolding off(6) n img(2) by (rule pre)
  show "take (unat (descriptors_size h)) (drop (unat (descriptors_offset h)) img) = data"
    unfolding sz n img(3) by (rule pre)
qed

section \<open>Properties\<close>

lemma compressed_parts:
  assumes "LZ4_compress_fast x buf SAVESTATE_TEMP_SIZE LZ4_ACCELERATION = Some (n, b)" "0 < n"
    and "length x = SAVESTATE_TEMP_SIZE" "length buf = SAVESTATE_TEMP_SIZE"
  shows "compressed buf x = Some (take n b, b)" "length (take n b) \<le> SAVESTATE_TEMP_SIZE" "length b = SAVESTATE_TEMP_SIZE"
    "length out = SAVESTATE_TEMP_SIZE \<Longrightarrow> LZ4_decompress_fast (take n b @ rest) out SAVESTATE_TEMP_SIZE = Some (int n, x)"
proof -
  have acc: "LZ4_ACCELERATION < 2 ^ 25"
    by (simp add: LZ4_ACCELERATION_def)
  note c = lz4_block_comes_back [OF assms(1,2) acc]
  have n: "n \<le> SAVESTATE_TEMP_SIZE" "length (take n b) = n" "length b = SAVESTATE_TEMP_SIZE"
    using c(1-3) [of x] assms(4) by simp_all
  then show "compressed buf x = Some (take n b, b)" "length (take n b) \<le> SAVESTATE_TEMP_SIZE" "length b = SAVESTATE_TEMP_SIZE"
    using assms(1) by (simp_all add: compressed_def obj_read_def)
  show "LZ4_decompress_fast (take n b @ rest) out SAVESTATE_TEMP_SIZE = Some (int n, x)" if "length out = SAVESTATE_TEMP_SIZE"
    using c(4) [of out rest] that unfolding assms(3) by simp
qed

text \<open>
  C20: a saved state comes back. When both halves of the memory compress, saving replaces the slot's file, keeps the
  screenshot the menu has written and leaves no temporary file; loading that file, at any later time, restores the
  whole memory, the stack pointer, the return address and the descriptors the memory-stick server had, which it
  reopens. The compressor and the decompressor are those of the source.
\<close>

theorem savestate_roundtrip:
  assumes "fs_contract (host sys) V" and "rename_contract sys V"
    and "p = makeSaveStatePath location (a_num adr)"
    and "files (V w) (p @ ''.tmp'') = Some (blank @ shot)" and "length blank = 0x100" and "length shot = SCREENSHOT_SIZE"
    and "terminated (a_title adr)" and "length (a_title adr) = 0x80" and "length ram = 2 * SAVESTATE_TEMP_SIZE"
    and "length blk = SAVESTATE_TEMP_SIZE"
    and "LZ4_compress_fast (take SAVESTATE_TEMP_SIZE ram) blk SAVESTATE_TEMP_SIZE LZ4_ACCELERATION = Some (n1, b1)" and "0 < n1"
    and "LZ4_compress_fast (drop SAVESTATE_TEMP_SIZE ram) b1 SAVESTATE_TEMP_SIZE LZ4_ACCELERATION = Some (n2, b2)" and "0 < n2"
    and "descriptors_of cd (descriptors_bytes cd ds) = ds"
    and "length (descriptors_bytes cd ds) = MAX_DESCRIPTORS cfg * sizeof_descriptor cd"
    and "MAX_DESCRIPTORS cfg * sizeof_descriptor cd \<le> 2 ^ 20"
    and "\<forall>w. heap sys (MAX_DESCRIPTORS cfg * sizeof_descriptor cd) w = Some raw"
    and "length raw = MAX_DESCRIPTORS cfg * sizeof_descriptor cd"
  shows "\<exists>w' img. SaveState cfg sys cd location blk adr ram ds w = Some (0, w')
     \<and> V w' = (V w)\<lparr>files := (files (V w))(p @ ''.tmp'' := None, p := Some img)\<rparr>
     \<and> take SCREENSHOT_SIZE (drop 0x100 img) = shot
     \<and> (\<forall>later adr2 ram2 ds2 stack buf. files (V later) p = Some img \<and> a_num adr2 = a_num adr
           \<and> length stack = 0x100 \<and> length buf = SAVESTATE_TEMP_SIZE \<and> length ram2 = 2 * SAVESTATE_TEMP_SIZE \<longrightarrow>
         (\<exists>w1 w2. LoadState cfg sys env cd location stack buf (adr2, ram2, ds2) later
            = Some (0, (adr2\<lparr>a_sp := a_sp adr, a_ra := a_ra adr\<rparr>, ram,
                fst (ScePspemuMsfsSetFileDescriptors sys env ds ds2 w1)), w2)))"
proof -
  let ?T = SAVESTATE_TEMP_SIZE and ?data = "descriptors_bytes cd ds"
  have halves: "length (take ?T ram) = ?T" "length (drop ?T ram) = ?T" "take ?T (drop ?T ram) = drop ?T ram"
    using assms(9) by simp_all
  note c1 = compressed_parts [OF assms(11,12) halves(1) assms(10)]
  note c2 = compressed_parts [OF assms(13,14) halves(2) c1(3)]
  define part1 where "part1 = take n1 b1"
  define part2 where "part2 = take n2 b2"
  have parts: "compressed blk (take ?T ram) = Some (part1, b1)" "compressed b1 (take ?T (drop ?T ram)) = Some (part2, b2)"
    unfolding halves(3) using c1(1) c2(1) by (simp_all add: part1_def part2_def)
  have lz: "length part1 \<le> ?T" "length part2 \<le> ?T"
    using c1(2) c2(2) by (simp_all only: part1_def part2_def)
  have fits: "state_fits cfg cd part1 part2"
    using assms(17) lz by (simp add: state_fits_def)
  obtain ttl where ttl: "strcpy (replicate 0x80 NUL) (a_title adr) = Some ttl" "length ttl = 0x80"
    using strcpy_title [OF assms(7,8)] by blast
  define h where "h = final_header cfg cd adr ttl part1 part2"
  define img where "img = state_image h shot ?data part1 part2"
  have vh: "valid_header h"
    using ttl(2) by (simp add: h_def valid_final_header)
  have hb: "length (header_bytes h) = 0x100" "header_of_bytes (header_bytes h) = h"
    using vh by (simp_all add: length_header_bytes header_roundtrip)
  note off = header_offsets [OF fits, of adr ttl, folded h_def]
  note im = image_parts [OF fits ttl(2) assms(6,16), of adr, folded h_def, folded img_def]
  have load: "\<exists>w1 w2. LoadState cfg sys env cd location stack buf (adr2, ram2, ds2) later
      = Some (0, (adr2\<lparr>a_sp := a_sp adr, a_ra := a_ra adr\<rparr>, ram,
          fst (ScePspemuMsfsSetFileDescriptors sys env ds ds2 w1)), w2)"
    if t: "files (V later) p = Some img" "a_num adr2 = a_num adr" "length stack = 0x100" "length buf = ?T" "length ram2 = 2 * ?T"
    for later adr2 ram2 ds2 stack buf
  proof -
    have p2: "p = makeSaveStatePath location (a_num adr2)"
      by (simp add: assms(3) t(2))
    have b: "length part1 \<le> length buf" "length part2 \<le> length buf" "length raw = length ?data"
      using lz t(4) assms(16,19) by simp_all
    have z: "\<forall>rest. LZ4_decompress_fast (part1 @ rest) (take ?T ram2) ?T = Some (int n1, take ?T ram)"
      "\<forall>rest. LZ4_decompress_fast (part2 @ rest) (take ?T (drop ?T ram2)) ?T = Some (int n2, drop ?T ram)"
      using c1(4) c2(4) t(5) by (simp_all add: part1_def part2_def)
    show ?thesis
      using LoadState_reads [OF assms(1) p2 t(1) hb(1) im(1) hb(2) [symmetric] im(3-5) t(3) b(1,2) assms(18) b(3) z, of env ds2]
      unfolding off(9,10) assms(15) append_take_drop_id .
  qed
  show ?thesis
    using SaveState_writes [OF assms(1,2,4,5,6,3) ttl(1) refl assms(16) parts fits] load im(2)
    unfolding h_def [symmetric] img_def [symmetric] by blast
qed

definition state_sample_codec :: state_codec where
  "state_sample_codec = \<lparr>descriptors_bytes = (\<lambda>ds. ''DD''), descriptors_of = (\<lambda>bs. [blank_descriptor, blank_descriptor]),
     sizeof_descriptor = 1\<rparr>"

definition state_sample_msfs :: "mem msfs_sys" where
  "state_sample_msfs = mem_msfs\<lparr>sceIoRename := (\<lambda>p q m. case mfiles m p of None \<Rightarrow> (-1, m)
     | Some d \<Rightarrow> (0, m\<lparr>mfiles := (mfiles m)(p := None, q := Some d)\<rparr>))\<rparr>"

definition state_sample_adr :: SceAdrenaline where
  "state_sample_adr = \<lparr>a_savestate_mode = SAVESTATE_MODE_SAVE, a_num = 3, a_sp = 0x1234, a_ra = 0x5678,
     a_pops_mode = False, a_draw_psp_screen_in_pops = False, a_title = replicate 0x80 NUL, a_titleid = replicate 12 NUL,
     a_filename = replicate 0x100 NUL, a_psp_cmd = PSP_CMD_SAVESTATE, a_vita_cmd = VITA_CMD_NONE, a_psp_response = 0, a_vita_response = VITA_RESPONSE_NONE,
     a_adr_id = 0, a_game_mode = True\<rparr>"

definition state_sample_path :: path where
  "state_sample_path = makeSaveStatePath 0 3"

definition state_sample_mem :: mem where
  "state_sample_mem = \<lparr>mfiles = [state_sample_path @ ''.tmp'' \<mapsto> replicate 0x100 NUL @ replicate SCREENSHOT_SIZE NUL],
     mdirs = [], mhandles = []\<rparr>"

lemma state_sample_facts:
  "fs_contract (host state_sample_msfs) mem_view" "rename_contract state_sample_msfs mem_view"
  "state_sample_path = makeSaveStatePath 0 (a_num state_sample_adr)"
  "files (mem_view state_sample_mem) (state_sample_path @ ''.tmp'') = Some (replicate 0x100 NUL @ replicate SCREENSHOT_SIZE NUL)"
  "length (replicate 0x100 NUL) = 0x100" "length (replicate SCREENSHOT_SIZE NUL) = SCREENSHOT_SIZE"
  "terminated (a_title state_sample_adr)" "length (a_title state_sample_adr) = 0x80"
  "length (descriptors_bytes state_sample_codec [blank_descriptor, blank_descriptor])
     = MAX_DESCRIPTORS msfs_sample_cfg * sizeof_descriptor state_sample_codec"
  "MAX_DESCRIPTORS msfs_sample_cfg * sizeof_descriptor state_sample_codec \<le> 2 ^ 20"
  "\<forall>w. heap state_sample_msfs (MAX_DESCRIPTORS msfs_sample_cfg * sizeof_descriptor state_sample_codec) w = Some (replicate 2 NUL)"
  "length (replicate 2 NUL) = MAX_DESCRIPTORS msfs_sample_cfg * sizeof_descriptor state_sample_codec"
proof -
  show "fs_contract (host state_sample_msfs) mem_view"
    using mem_contract by (simp add: state_sample_msfs_def mem_msfs_def)
  show "rename_contract state_sample_msfs mem_view"
    by (simp add: rename_contract_def state_sample_msfs_def mem_view_def split: option.splits)
qed (simp_all add: state_sample_path_def state_sample_adr_def state_sample_mem_def mem_view_def state_sample_codec_def
    msfs_sample_cfg_def state_sample_msfs_def mem_msfs_def)

text \<open>A memory of zeros compresses.\<close>

lemma zeros_compress:
  assumes "length blk = SAVESTATE_TEMP_SIZE"
  obtains n b where "LZ4_compress_fast (replicate SAVESTATE_TEMP_SIZE NUL) blk SAVESTATE_TEMP_SIZE LZ4_ACCELERATION = Some (n, b)" "0 < n"
    "length b = SAVESTATE_TEMP_SIZE"
proof -
  have c: "(SAVESTATE_TEMP_SIZE :: nat) < LZ4_compressBound SAVESTATE_TEMP_SIZE" "(13 :: nat) \<le> SAVESTATE_TEMP_SIZE"
    "SAVESTATE_TEMP_SIZE \<le> LZ4_MAX_INPUT_SIZE" "10 + (SAVESTATE_TEMP_SIZE - 10) div 2 ^ 8 \<le> SAVESTATE_TEMP_SIZE"
    "4 + code_span (SAVESTATE_TEMP_SIZE - 10) \<le> SAVESTATE_TEMP_SIZE"
    "10 + length (lz4_ext (SAVESTATE_TEMP_SIZE - 10)) \<le> SAVESTATE_TEMP_SIZE"
    by (simp_all add: LZ4_compressBound_def LZ4_MAX_INPUT_SIZE_def SAVESTATE_TEMP_SIZE_def code_span_def length_lz4_ext)
  then obtain b where b: "LZ4_compress_fast (replicate SAVESTATE_TEMP_SIZE NUL) blk SAVESTATE_TEMP_SIZE LZ4_ACCELERATION
      = Some (10 + length (lz4_ext (SAVESTATE_TEMP_SIZE - 10)), b)"
    using LZ4_compress_run [OF c(2,3,1) _ c(4), of blk NUL LZ4_ACCELERATION] assms by auto
  then have "length b = SAVESTATE_TEMP_SIZE"
    using compressed_parts(3) [OF b _ _ assms] by simp
  with b show thesis
    using that by simp
qed

theorem savestate_roundtrip_witness:
  "\<exists>w' st w2. SaveState msfs_sample_cfg state_sample_msfs state_sample_codec 0 (replicate SAVESTATE_TEMP_SIZE CHR ''?'') state_sample_adr
        (replicate (2 * SAVESTATE_TEMP_SIZE) NUL) [blank_descriptor, blank_descriptor] state_sample_mem = Some (0, w')
     \<and> LoadState msfs_sample_cfg state_sample_msfs msfs_sample_env state_sample_codec 0 (replicate 0x100 NUL)
        (replicate SAVESTATE_TEMP_SIZE CHR ''?'')
        (state_sample_adr\<lparr>a_sp := 0\<rparr>, replicate (2 * SAVESTATE_TEMP_SIZE) CHR ''!'', []) w' = Some (0, st, w2)
     \<and> fst (snd st) = replicate (2 * SAVESTATE_TEMP_SIZE) NUL \<and> a_sp (fst st) = 0x1234"
proof -
  note f = state_sample_facts
  let ?ram = "replicate (2 * SAVESTATE_TEMP_SIZE) NUL" and ?blk = "replicate SAVESTATE_TEMP_SIZE CHR ''?''"
  have l: "length ?blk = SAVESTATE_TEMP_SIZE" "length ?ram = 2 * SAVESTATE_TEMP_SIZE"
    "take SAVESTATE_TEMP_SIZE ?ram = replicate SAVESTATE_TEMP_SIZE NUL" "drop SAVESTATE_TEMP_SIZE ?ram = replicate SAVESTATE_TEMP_SIZE NUL"
    by simp_all
  obtain n1 b1 where c1: "LZ4_compress_fast (take SAVESTATE_TEMP_SIZE ?ram) ?blk SAVESTATE_TEMP_SIZE LZ4_ACCELERATION = Some (n1, b1)"
      "0 < n1" "length b1 = SAVESTATE_TEMP_SIZE"
    unfolding l(3) by (rule zeros_compress [OF l(1)])
  obtain n2 b2 where c2: "LZ4_compress_fast (drop SAVESTATE_TEMP_SIZE ?ram) b1 SAVESTATE_TEMP_SIZE LZ4_ACCELERATION = Some (n2, b2)" "0 < n2"
    unfolding l(4) by (rule zeros_compress [OF c1(3)])
  have d: "descriptors_of state_sample_codec (descriptors_bytes state_sample_codec [blank_descriptor, blank_descriptor])
      = [blank_descriptor, blank_descriptor]"
    by (simp add: state_sample_codec_def)
  obtain w' img where s: "SaveState msfs_sample_cfg state_sample_msfs state_sample_codec 0 ?blk state_sample_adr ?ram
        [blank_descriptor, blank_descriptor] state_sample_mem = Some (0, w')"
      "mem_view w' = (mem_view state_sample_mem)\<lparr>files := (files (mem_view state_sample_mem))
         (state_sample_path @ ''.tmp'' := None, state_sample_path := Some img)\<rparr>"
    and l: "\<forall>later adr2 ram2 ds2 stack buf. files (mem_view later) state_sample_path = Some img
         \<and> a_num adr2 = a_num state_sample_adr \<and> length stack = 0x100 \<and> length buf = SAVESTATE_TEMP_SIZE
         \<and> length ram2 = 2 * SAVESTATE_TEMP_SIZE \<longrightarrow>
       (\<exists>w1 w2. LoadState msfs_sample_cfg state_sample_msfs msfs_sample_env state_sample_codec 0 stack buf (adr2, ram2, ds2) later
          = Some (0, (adr2\<lparr>a_sp := a_sp state_sample_adr, a_ra := a_ra state_sample_adr\<rparr>, ?ram,
              fst (ScePspemuMsfsSetFileDescriptors state_sample_msfs msfs_sample_env [blank_descriptor, blank_descriptor] ds2 w1)), w2))"
    using savestate_roundtrip [OF f(1-8) l(2,1) c1(1,2) c2 d f(9-12), of msfs_sample_env] by metis
  have "files (mem_view w') state_sample_path = Some img"
    by (simp add: s(2))
  then obtain w1 w2 where "LoadState msfs_sample_cfg state_sample_msfs msfs_sample_env state_sample_codec 0
        (replicate 0x100 NUL) ?blk (state_sample_adr\<lparr>a_sp := 0\<rparr>, replicate (2 * SAVESTATE_TEMP_SIZE) CHR ''!'', []) w'
      = Some (0, ((state_sample_adr\<lparr>a_sp := 0\<rparr>)\<lparr>a_sp := a_sp state_sample_adr, a_ra := a_ra state_sample_adr\<rparr>, ?ram,
          fst (ScePspemuMsfsSetFileDescriptors state_sample_msfs msfs_sample_env [blank_descriptor, blank_descriptor] [] w1)), w2)"
    using l [rule_format, of w' "state_sample_adr\<lparr>a_sp := 0\<rparr>" "replicate 0x100 NUL" ?blk
        "replicate (2 * SAVESTATE_TEMP_SIZE) CHR ''!''" "[]"] by auto
  then show ?thesis
    using s(1) by (auto simp: state_sample_adr_def)
qed

text \<open>
  C21: a memory that does not compress is lost. The compressor's failure is not noticed: the slot's file is replaced,
  saving reports success and the file looks valid, but two different memories that do not compress leave the same
  file.
\<close>

theorem savestate_incompressible:
  assumes "fs_contract (host sys) V" and "rename_contract sys V" and "p = makeSaveStatePath location (a_num adr)"
    and "files (V w) (p @ ''.tmp'') = Some (blank @ shot)" and "length blank = 0x100" and "length shot = SCREENSHOT_SIZE"
    and "terminated (a_title adr)" and "length (a_title adr) = 0x80"
    and "length (descriptors_bytes cd ds) = MAX_DESCRIPTORS cfg * sizeof_descriptor cd"
    and "MAX_DESCRIPTORS cfg * sizeof_descriptor cd \<le> 2 ^ 20"
    and "\<forall>x \<in> {ram, ram2}. LZ4_compress_fast (take SAVESTATE_TEMP_SIZE x) blk SAVESTATE_TEMP_SIZE LZ4_ACCELERATION = Some (0, b1)
       \<and> LZ4_compress_fast (take SAVESTATE_TEMP_SIZE (drop SAVESTATE_TEMP_SIZE x)) b1 SAVESTATE_TEMP_SIZE LZ4_ACCELERATION = Some (0, b2)"
  shows "\<exists>w1 w2 img. SaveState cfg sys cd location blk adr ram ds w = Some (0, w1)
     \<and> SaveState cfg sys cd location blk adr ram2 ds w = Some (0, w2)
     \<and> files (V w1) p = Some img \<and> files (V w2) p = Some img
     \<and> h_magic (header_of_bytes (take 0x100 img)) = ADRENALINE_SAVESTATE_MAGIC
     \<and> ram_part1_size (header_of_bytes (take 0x100 img)) = 0 \<and> ram_part2_size (header_of_bytes (take 0x100 img)) = 0"
proof -
  obtain ttl where ttl: "strcpy (replicate 0x80 NUL) (a_title adr) = Some ttl" "length ttl = 0x80"
    using strcpy_title [OF assms(7,8)] by blast
  have fits: "state_fits cfg cd [] []"
    using assms(10) by (simp add: state_fits_def)
  have parts: "compressed blk (take SAVESTATE_TEMP_SIZE x) = Some ([], b1)"
    "compressed b1 (take SAVESTATE_TEMP_SIZE (drop SAVESTATE_TEMP_SIZE x)) = Some ([], b2)" if "x \<in> {ram, ram2}" for x
    using assms(11) that by (auto simp: compressed_def obj_read_def)
  note save = SaveState_writes [OF assms(1,2,4-6,3) ttl(1) refl assms(9) _ _ fits]
  let ?h = "final_header cfg cd adr ttl [] []"
  have hd: "take 0x100 (state_image ?h shot (descriptors_bytes cd ds) [] []) = header_bytes ?h"
    by (rule image_parts(1) [OF fits ttl(2) assms(6,9)])
  have "header_of_bytes (header_bytes ?h) = ?h"
    by (rule header_roundtrip) (rule valid_final_header [OF ttl(2)])
  moreover have "h_magic ?h = ADRENALINE_SAVESTATE_MAGIC" "ram_part1_size ?h = 0" "ram_part2_size ?h = 0"
    by (simp_all add: final_header_def state_header_def Let_def)
  ultimately show ?thesis
    using save [OF parts [of ram]] save [OF parts [of ram2]] hd by auto
qed

text \<open>Two memories that LZ4 cannot compress: the counted bytes with one mark and the other.\<close>

definition counted_ram :: "byte \<Rightarrow> byte list" where
  "counted_ram mark = (let x = map (counted_byte mark) [0..<SAVESTATE_TEMP_SIZE] in x @ x)"

lemma counted_ram_fails:
  assumes "mark = CHR 0xFF \<or> mark = CHR 0xFD"
  shows "LZ4_compress_fast (take SAVESTATE_TEMP_SIZE (counted_ram mark)) blk SAVESTATE_TEMP_SIZE LZ4_ACCELERATION = Some (0, blk)"
    "LZ4_compress_fast (take SAVESTATE_TEMP_SIZE (drop SAVESTATE_TEMP_SIZE (counted_ram mark))) blk SAVESTATE_TEMP_SIZE LZ4_ACCELERATION
      = Some (0, blk)"
proof -
  let ?x = "map (counted_byte mark) [0..<SAVESTATE_TEMP_SIZE]"
  have lx: "length ?x = SAVESTATE_TEMP_SIZE"
    by simp
  have "take SAVESTATE_TEMP_SIZE (counted_ram mark) = ?x" "take SAVESTATE_TEMP_SIZE (drop SAVESTATE_TEMP_SIZE (counted_ram mark)) = ?x"
    unfolding counted_ram_def Let_def by (simp_all only: lx append_eq_conv_conj take_append drop_append, simp_all add: lx)
  moreover have "LZ4_compress_fast ?x blk SAVESTATE_TEMP_SIZE LZ4_ACCELERATION = Some (0, blk)"
    by (rule LZ4_compress_no_match [OF counted_bytes_no_match [OF assms]])
      (simp_all only: lx, simp_all add: SAVESTATE_TEMP_SIZE_def LZ4_MAX_INPUT_SIZE_def LZ4_ACCELERATION_def)
  ultimately show "LZ4_compress_fast (take SAVESTATE_TEMP_SIZE (counted_ram mark)) blk SAVESTATE_TEMP_SIZE LZ4_ACCELERATION = Some (0, blk)"
    "LZ4_compress_fast (take SAVESTATE_TEMP_SIZE (drop SAVESTATE_TEMP_SIZE (counted_ram mark))) blk SAVESTATE_TEMP_SIZE LZ4_ACCELERATION
      = Some (0, blk)"
    by simp_all
qed

theorem savestate_incompressible_witness:
  "\<exists>w1 w2 img. SaveState msfs_sample_cfg state_sample_msfs state_sample_codec 0 (replicate SAVESTATE_TEMP_SIZE CHR ''?'') state_sample_adr
        (counted_ram (CHR 0xFF)) [blank_descriptor, blank_descriptor] state_sample_mem = Some (0, w1)
     \<and> SaveState msfs_sample_cfg state_sample_msfs state_sample_codec 0 (replicate SAVESTATE_TEMP_SIZE CHR ''?'') state_sample_adr
        (counted_ram (CHR 0xFD)) [blank_descriptor, blank_descriptor] state_sample_mem = Some (0, w2)
     \<and> files (mem_view w1) state_sample_path = Some img \<and> files (mem_view w2) state_sample_path = Some img"
proof -
  note f = state_sample_facts
  let ?blk = "replicate SAVESTATE_TEMP_SIZE CHR ''?''"
  have c: "\<forall>x \<in> {counted_ram (CHR 0xFF), counted_ram (CHR 0xFD)}.
      LZ4_compress_fast (take SAVESTATE_TEMP_SIZE x) ?blk SAVESTATE_TEMP_SIZE LZ4_ACCELERATION = Some (0, ?blk)
    \<and> LZ4_compress_fast (take SAVESTATE_TEMP_SIZE (drop SAVESTATE_TEMP_SIZE x)) ?blk SAVESTATE_TEMP_SIZE LZ4_ACCELERATION = Some (0, ?blk)"
    using counted_ram_fails by auto
  show ?thesis
    using savestate_incompressible [OF f(1-8,9,10) c] by blast
qed

end
