(* ===== verification/Settings.thy ===== *)
theory Settings
  imports BootInfo UserUtils Shared
begin

text \<open>
  The settings of the user module and the files they live in: \<open>saveConfigs\<close>, \<open>ResetAdrenalineSettings\<close> and
  \<open>ResetBooterSettings\<close> of \<open>overlay/user/menu.c\<close>, and the part of \<open>module_start\<close> of \<open>overlay/user/main.c\<close> that reads
  them. Adrenaline itself keeps one file; a bubble has its own \<open>boot.bin\<close>, whose field \<open>customized\<close> says whether it
  has its own settings too. A single-precision number is its 32 bits; \<open>scale_too_small\<close> is the machine's comparison
  with \<open>0.2f\<close>.
\<close>

section \<open>The settings as bytes\<close>

definition ADRENALINE_TITLEID :: path where
  "ADRENALINE_TITLEID = ''PSPEMUCFW''"

definition sizeof_AdrenalineConfig :: nat where
  "sizeof_AdrenalineConfig = 68"

definition config_words :: "AdrenalineConfig \<Rightarrow> u32 list" where
  "config_words c =
     cfg_magic c @ [graphics_filtering c, no_smooth_graphics c, flux_mode c, screen_size c, ms_location c, use_ds3_ds4 c,
       screen_mode c, skip_logo c, psp_screen_scale_x c, psp_screen_scale_y c, ps1_screen_scale_x c, ps1_screen_scale_y c,
       usbdevice c, screen_scale_aspect_ratio c, suspend_threads c]"

definition config_bytes :: "AdrenalineConfig \<Rightarrow> byte list" where
  "config_bytes c = words_bytes (config_words c)"

definition config_of_bytes :: "byte list \<Rightarrow> AdrenalineConfig" where
  "config_of_bytes bs =
     (let ws = words_of_bytes 17 bs
      in \<lparr>cfg_magic = take 2 ws, graphics_filtering = ws ! 2, no_smooth_graphics = ws ! 3, flux_mode = ws ! 4,
          screen_size = ws ! 5, ms_location = ws ! 6, use_ds3_ds4 = ws ! 7, screen_mode = ws ! 8, skip_logo = ws ! 9,
          psp_screen_scale_x = ws ! 10, psp_screen_scale_y = ws ! 11, ps1_screen_scale_x = ws ! 12,
          ps1_screen_scale_y = ws ! 13, usbdevice = ws ! 14, screen_scale_aspect_ratio = ws ! 15, suspend_threads = ws ! 16\<rparr>)"

definition valid_config :: "AdrenalineConfig \<Rightarrow> bool" where
  "valid_config c \<longleftrightarrow> length (cfg_magic c) = 2"

definition zero_config :: AdrenalineConfig where
  "zero_config = config_of_bytes (replicate sizeof_AdrenalineConfig NUL)"

section \<open>Reading them at the start\<close>

definition config_file :: "path \<Rightarrow> i32 \<Rightarrow> path" where
  "config_file app_titleid custom =
     (if custom \<noteq> 0 then ''ux0:app/'' @ app_titleid @ ''/data/config.bin''
      else ''ux0:app/'' @ ADRENALINE_TITLEID @ ''/adrenaline.bin'')"

definition boot_info_file :: "path \<Rightarrow> path" where
  "boot_info_file app_titleid = ''ux0:app/'' @ app_titleid @ ''/data/boot.bin''"

definition boot_logo_file :: "path \<Rightarrow> path" where
  "boot_logo_file app_titleid = ''ux0:app/'' @ app_titleid @ ''/data/boot.png''"

definition FLOAT_2 :: u32 where "FLOAT_2 = 0x40000000"
definition FLOAT_1 :: u32 where "FLOAT_1 = 0x3F800000"

definition default_scales :: "(u32 \<Rightarrow> bool) \<Rightarrow> AdrenalineConfig \<Rightarrow> AdrenalineConfig" where
  "default_scales scale_too_small c =
     (let c = (if scale_too_small (psp_screen_scale_x c) then c\<lparr>psp_screen_scale_x := FLOAT_2\<rparr> else c);
          c = (if scale_too_small (psp_screen_scale_y c) then c\<lparr>psp_screen_scale_y := FLOAT_2\<rparr> else c);
          c = (if scale_too_small (ps1_screen_scale_x c) then c\<lparr>ps1_screen_scale_x := FLOAT_1\<rparr> else c)
      in if scale_too_small (ps1_screen_scale_y c) then c\<lparr>ps1_screen_scale_y := FLOAT_1\<rparr> else c)"

record settings =
  config :: AdrenalineConfig
  boot_info :: BootInfo
  old_config :: AdrenalineConfig
  changed :: bool

record startup =
  st_adr_id :: bool
  st_settings :: settings
  st_ms_location :: i32
  st_boot_logo :: bool

definition read_settings ::
  "'w sceio \<Rightarrow> (u32 \<Rightarrow> bool) \<Rightarrow> path \<Rightarrow> settings \<Rightarrow> 'w \<Rightarrow> (startup \<times> 'w) option"
where
  "read_settings io scale_too_small app_titleid s w = do {
     let adr = (app_titleid = ADRENALINE_TITLEID);
     let zero = replicate sizeof_AdrenalineConfig NUL;
     (s, logo, w) \<leftarrow>
       (if adr
        then do {
          (_, data, w) \<leftarrow> ReadFile io (config_file app_titleid 0) zero sizeof_AdrenalineConfig w;
          Some (s\<lparr>config := config_of_bytes data\<rparr>, False, w) }
        else do {
          (_, data, w) \<leftarrow> ReadFile io (boot_info_file app_titleid) (replicate sizeof_BootInfo NUL) sizeof_BootInfo w;
          let b = boot_info_of_bytes data;
          (_, data, w) \<leftarrow> ReadFile io (config_file app_titleid (customized b)) zero sizeof_AdrenalineConfig w;
          let (res, w) = CheckFile io (boot_logo_file app_titleid) w;
          Some (s\<lparr>config := config_of_bytes data, boot_info := b\<rparr>, 0 \<le> res, w) });
     let location = ms_location (config s);
     let s = s\<lparr>config := default_scales scale_too_small (config s)\<rparr>;
     Some (\<lparr>st_adr_id = adr, st_settings = s, st_ms_location = location, st_boot_logo = logo\<rparr>, w) }"

section \<open>Changing and saving them\<close>

definition with_magic :: "AdrenalineConfig \<Rightarrow> AdrenalineConfig" where
  "with_magic c = c\<lparr>cfg_magic := [ADRENALINE_CFG_MAGIC_1, ADRENALINE_CFG_MAGIC_2]\<rparr>"

text \<open>Writing a whole object with \<open>WriteFile\<close>: there is nothing behind it that could be read.\<close>

definition write_object :: "'w sceio \<Rightarrow> path \<Rightarrow> byte list \<Rightarrow> 'w \<Rightarrow> 'w" where
  "write_object io p obj w =
     (let (fd, w) = sceIoOpen io p {O_WRONLY, O_CREAT, O_TRUNC} 511 w
      in if fd < 0 then w
         else let (_, w) = sceIoWrite io fd obj w; (_, w) = sceIoClose io fd w in w)"

lemma WriteFile_object: "\<exists>r. WriteFile io p obj (length obj) w = Some (r, write_object io p obj w)"
  by (simp add: WriteFile_def write_object_def bytes_arg_def split: prod.splits)

definition saveConfigs :: "'w sceio \<Rightarrow> bool \<Rightarrow> path \<Rightarrow> settings \<Rightarrow> 'w \<Rightarrow> bool \<times> settings \<times> 'w" where
  "saveConfigs io adr_id app_titleid s w =
     (if \<not> changed s then (False, s, w)
      else let s = s\<lparr>config := with_magic (config s)\<rparr>
           in if adr_id then (True, s, write_object io (config_file app_titleid 0) (config_bytes (config s)) w)
              else let w = write_object io (config_file app_titleid (customized (boot_info s))) (config_bytes (config s)) w;
                       w = write_object io (boot_info_file app_titleid) (boot_info_bytes (boot_info s)) w
                   in (True, s, w))"

definition ResetAdrenalineSettings :: "'w sceio \<Rightarrow> bool \<Rightarrow> path \<Rightarrow> settings \<Rightarrow> 'w \<Rightarrow> settings \<times> 'w" where
  "ResetAdrenalineSettings io adr_id app_titleid s w =
     (let c = (with_magic zero_config)\<lparr>psp_screen_scale_x := FLOAT_2, psp_screen_scale_y := FLOAT_2,
                ps1_screen_scale_x := FLOAT_1, ps1_screen_scale_y := FLOAT_1, screen_scale_aspect_ratio := 0, suspend_threads := 0\<rparr>
      in snd (saveConfigs io adr_id app_titleid (s\<lparr>config := c\<rparr>) w))"

definition ResetBooterSettings :: "'w sceio \<Rightarrow> bool \<Rightarrow> path \<Rightarrow> settings \<Rightarrow> 'w \<Rightarrow> settings \<times> 'w" where
  "ResetBooterSettings io adr_id app_titleid s w =
     (let b = (boot_info s)\<lparr>driver := 1, execute := 0, customized := 0, loadstate := 0, psbutton := 0, suspend := 0,
                cpuspeed := 0, plugins := 0, nonpdrm := 0, highmemory := 0\<rparr>
      in snd (saveConfigs io adr_id app_titleid (s\<lparr>boot_info := b\<rparr>) w))"

section \<open>The codec\<close>

lemma length_config_words: "valid_config c \<Longrightarrow> length (config_words c) = 17"
  by (simp add: config_words_def valid_config_def)

lemma config_bytes_length: "valid_config c \<Longrightarrow> length (config_bytes c) = sizeof_AdrenalineConfig"
  by (simp add: config_bytes_def length_config_words sizeof_AdrenalineConfig_def)

lemma config_words_back:
  assumes "valid_config c"
  shows "config_of_bytes (config_bytes c) = c"
proof -
  have w: "words_of_bytes 17 (config_bytes c) = config_words c"
    using words_of_bytes_words_bytes [OF length_config_words [OF assms], of "[]"] by (simp add: config_bytes_def)
  obtain a b where "cfg_magic c = [a, b]"
    using assms by (auto simp: valid_config_def numeral_2_eq_2 length_Suc_conv)
  then show ?thesis
    unfolding config_of_bytes_def Let_def w by (cases c) (simp add: config_words_def)
qed

lemma words_of_bytes_list17:
  "take 2 ws @ map ((!) ws) [2,3,4,5,6,7,8,9,10,11,12,13,14,15,16] = ws" if "length ws = 17"
  using that by (intro nth_equalityI) (auto simp: nth_append nth_Cons eval_nat_numeral less_Suc_eq split: nat.splits)

lemma config_bytes_of_bytes:
  assumes "length bs = sizeof_AdrenalineConfig"
  shows "config_bytes (config_of_bytes bs) = bs"
proof -
  have "config_words (config_of_bytes bs) = words_of_bytes 17 bs"
    using words_of_bytes_list17 [of "words_of_bytes 17 bs"]
    by (simp add: config_words_def config_of_bytes_def Let_def)
  then show ?thesis
    using assms words_bytes_words_of_bytes [of 17 bs] by (simp add: config_bytes_def sizeof_AdrenalineConfig_def)
qed

interpretation config_image: struct_image config_bytes config_of_bytes sizeof_AdrenalineConfig valid_config
  by unfold_locales
    (simp_all add: config_bytes_length config_words_back config_bytes_of_bytes, simp add: valid_config_def config_of_bytes_def Let_def)

lemma valid_with_magic [simp]: "valid_config (with_magic c)"
  by (simp add: valid_config_def with_magic_def)

section \<open>Whole files\<close>

lemma ReadFile_present:
  assumes "fs_contract io V" "files (V w) p = Some d" "length d = n" "length buf = n"
  shows "\<exists>w'. ReadFile io p buf n w = Some (int n, d, w') \<and> V w' = V w"
proof -
  obtain fd w1 w2 w3 r where "sceIoOpen io p {O_RDONLY} 0 w = (fd, w1)" "0 \<le> fd"
    "sceIoRead io fd n w1 = (int (length (take n d)), take n d, w2)" "sceIoClose io fd w2 = (r, w3)" "V w3 = V w"
    using read_once [OF assms(1,2), of "{O_RDONLY}" 0 n] by auto
  then show ?thesis
    using assms(3,4) by (auto simp: ReadFile_def fill_exact)
qed

lemma write_object_existing:
  assumes "fs_contract io V" "files (V w) p = Some d"
  shows "\<exists>w'. write_object io p buf w = w' \<and> V w' = (V w)\<lparr>files := (files (V w))(p := Some buf)\<rparr>"
proof -
  obtain fd w1 where o: "sceIoOpen io p {O_WRONLY, O_CREAT, O_TRUNC} 511 w = (fd, w1)" "0 \<le> fd"
    using open_existing [OF assms(1,2)] by blast
  obtain w2 w3 r where "sceIoWrite io fd buf w1 = (int (length buf), w2)" "sceIoClose io fd w2 = (r, w3)"
    "V w3 = (V w)\<lparr>files := (files (V w))(p := Some buf)\<rparr>"
    using write_once [OF assms(1) o, of buf] by auto
  then show ?thesis
    using o by (auto simp: write_object_def)
qed

lemma CheckFile_keeps:
  assumes "fs_contract io V"
  shows "\<exists>r w'. CheckFile io p w = (r, w') \<and> V w' = V w \<and> (0 \<le> r \<longleftrightarrow> files (V w) p \<noteq> None)"
proof (rule open_cases [OF assms, of p "{O_RDONLY}" 0 w])
  fix fd w1
  assume "sceIoOpen io p {O_RDONLY} 0 w = (fd, w1)" "fd < 0" "V w1 = V w" "files (V w) p = None"
  then show ?thesis
    by (simp add: CheckFile_def)
next
  fix fd w1
  assume o: "sceIoOpen io p {O_RDONLY} 0 w = (fd, w1)" "0 \<le> fd" "handles (V w) fd = None" "V w1 = opened (V w) p {O_RDONLY} fd"
  have f: "files (V w) p \<noteq> None"
    using open_result [OF assms o(1)] o(2) by (simp split: if_splits)
  obtain r w2 where c: "sceIoClose io fd w1 = (r, w2)" "V w2 = (V w1)\<lparr>handles := (handles (V w1))(fd := None)\<rparr>"
    using close_handle [OF assms] by blast
  have "V w2 = V w"
    unfolding c(2) o(4) using f o(3) by (auto simp: opened_def fun_upd_None_id)
  then show ?thesis
    using o c f by (auto simp: CheckFile_def)
qed

lemma config_file_other: "config_file t c \<noteq> boot_info_file t"
  by (auto simp: config_file_def boot_info_file_def ADRENALINE_TITLEID_def dest: arg_cong [of _ _ rev])

lemma saved_config:
  "length (config_bytes (with_magic c)) = sizeof_AdrenalineConfig" "config_of_bytes (config_bytes (with_magic c)) = with_magic c"
  "ms_location (with_magic c) = ms_location c" "length (replicate n NUL) = n"
  by (simp_all add: config_image.enc_length config_image.dec_enc, simp add: with_magic_def)

lemma settings_saved_adrenaline:
  assumes "fs_contract io V" and "changed s" and "t = ADRENALINE_TITLEID" and "files (V w) (config_file t 0) = Some d1"
  shows "\<exists>s' w1 start w2. saveConfigs io True t s w = (True, s', w1)
     \<and> read_settings io scale_too_small t s0 w1 = Some (start, w2) \<and> V w2 = V w1
     \<and> st_adr_id start = True \<and> st_ms_location start = ms_location (config s)
     \<and> config (st_settings start) = default_scales scale_too_small (with_magic (config s))
     \<and> boot_info (st_settings start) = boot_info s0"
proof -
  define c where "c = config_bytes (with_magic (config s))"
  note c = saved_config(1,2) [of "config s", folded c_def]
  obtain w1 where w1: "write_object io (config_file t 0) c w = w1"
      "V w1 = (V w)\<lparr>files := (files (V w))(config_file t 0 := Some c)\<rparr>"
    using write_object_existing [OF assms(1,4)] by auto
  have "files (V w1) (config_file t 0) = Some c"
    by (simp add: w1(2))
  from ReadFile_present [OF assms(1) this c(1) saved_config(4)] obtain w2
    where w2: "ReadFile io (config_file t 0) (replicate sizeof_AdrenalineConfig NUL) sizeof_AdrenalineConfig w1
        = Some (int sizeof_AdrenalineConfig, c, w2)" "V w2 = V w1"
    by blast
  have "saveConfigs io True t s w = (True, s\<lparr>config := with_magic (config s)\<rparr>, w1)"
    using w1(1) assms(2) by (simp add: saveConfigs_def c_def)
  moreover have "read_settings io scale_too_small t s0 w1
      = Some (\<lparr>st_adr_id = True, st_settings = s0\<lparr>config := default_scales scale_too_small (with_magic (config s))\<rparr>,
           st_ms_location = ms_location (config s), st_boot_logo = False\<rparr>, w2)"
    using w2(1) assms(3) by (simp add: read_settings_def c(2) saved_config(3))
  ultimately show ?thesis
    using w2(2) by simp
qed

lemma settings_saved_bubble:
  assumes "fs_contract io V" and "changed s" and "valid_boot_info (boot_info s)" and "t \<noteq> ADRENALINE_TITLEID"
    and q: "q = config_file t (customized (boot_info s))"
    and "files (V w) q = Some d1" and "files (V w) (boot_info_file t) = Some d2"
  shows "\<exists>s' w1 start w2. saveConfigs io False t s w = (True, s', w1)
     \<and> read_settings io scale_too_small t s0 w1 = Some (start, w2) \<and> V w2 = V w1
     \<and> st_adr_id start = False \<and> st_ms_location start = ms_location (config s)
     \<and> config (st_settings start) = default_scales scale_too_small (with_magic (config s))
     \<and> boot_info (st_settings start) = boot_info s"
proof -
  define c where "c = config_bytes (with_magic (config s))"
  define s1 where "s1 = s\<lparr>config := with_magic (config s)\<rparr>"
  note lc = saved_config(1,2) [of "config s", folded c_def] and loc = saved_config(3) and zl = saved_config(4)
  let ?b = "boot_info s" and ?bf = "boot_info_file t"
  define b where "b = boot_info_bytes ?b"
  have lb: "length b = sizeof_BootInfo" "boot_info_of_bytes b = ?b"
    using assms(3) by (simp_all add: b_def boot_image.enc_length boot_image.dec_enc)
  obtain w1 where w1: "write_object io q c w = w1"
      "V w1 = (V w)\<lparr>files := (files (V w))(q := Some c)\<rparr>"
    using write_object_existing [OF assms(1,6)] by auto
  have "files (V w1) ?bf = Some d2"
    using assms(7) config_file_other [of t "customized ?b"] by (auto simp: w1(2) q)
  then obtain w2 where w2: "write_object io ?bf b w1 = w2"
      "V w2 = (V w1)\<lparr>files := (files (V w1))(?bf := Some b)\<rparr>"
    using write_object_existing [OF assms(1)] by blast
  have f: "files (V w2) ?bf = Some b" "files (V w2) q = Some c"
    using config_file_other [of t "customized ?b"] by (auto simp: w2(2) w1(2) q)
  obtain w3 where w3: "ReadFile io ?bf (replicate sizeof_BootInfo NUL) sizeof_BootInfo w2 = Some (int sizeof_BootInfo, b, w3)"
      "V w3 = V w2"
    using ReadFile_present [OF assms(1) f(1) lb(1) zl] by blast
  have f3: "files (V w3) q = Some c"
    by (simp add: w3(2) f(2))
  obtain w4 where w4: "ReadFile io q (replicate sizeof_AdrenalineConfig NUL) sizeof_AdrenalineConfig w3
        = Some (int sizeof_AdrenalineConfig, c, w4)" "V w4 = V w3"
    using ReadFile_present [OF assms(1) f3 lc(1) zl] by blast
  obtain r w5 where w5: "CheckFile io (boot_logo_file t) w4 = (r, w5)" "V w5 = V w4"
    using CheckFile_keeps [OF assms(1)] by blast
  have save: "saveConfigs io False t s w = (True, s1, w2)"
    using w1(1) w2(1) assms(2) by (simp add: saveConfigs_def s1_def c_def b_def q)
  have "read_settings io scale_too_small t s0 w2
      = Some (\<lparr>st_adr_id = False, st_settings = s0\<lparr>config := default_scales scale_too_small (with_magic (config s)), boot_info := ?b\<rparr>,
           st_ms_location = ms_location (config s), st_boot_logo = (0 \<le> r)\<rparr>, w5)"
    using w3(1) w4(1) w5(1) assms(4) by (simp add: read_settings_def lb(2) q [symmetric] lc(2) loc)
  then show ?thesis
    using save w5(2) w4(2) w3(2) by auto
qed

section \<open>Properties\<close>

text \<open>
  C35: settings saved are settings read. When something was changed, saving the settings and starting the module
  again gives the same settings, in Adrenaline and in a bubble with or without settings of its own: the memory-stick
  location, every option, and in a bubble the whole \<open>boot.bin\<close>; only a screen scale that is too small is replaced
  by its default.
\<close>

theorem settings_roundtrip:
  assumes "fs_contract io V" and "changed s" and "valid_boot_info (boot_info s)"
    and "adr \<longleftrightarrow> t = ADRENALINE_TITLEID" and "q = config_file t (if adr then 0 else customized (boot_info s))"
    and "files (V w) q = Some d1" and "files (V w) (boot_info_file t) = Some d2"
  shows "\<exists>s' w1 start w2. saveConfigs io adr t s w = (True, s', w1)
     \<and> read_settings io scale_too_small t s0 w1 = Some (start, w2) \<and> V w2 = V w1
     \<and> st_adr_id start = adr \<and> st_ms_location start = ms_location (config s)
     \<and> config (st_settings start) = default_scales scale_too_small (with_magic (config s))
     \<and> boot_info (st_settings start) = (if adr then boot_info s0 else boot_info s)"
proof (cases adr)
  case True
  then show ?thesis
    using settings_saved_adrenaline [OF assms(1,2), of t w d1 scale_too_small s0] assms(4-6) by simp
next
  case False
  then show ?thesis
    using settings_saved_bubble [OF assms(1-3), of t q w d1 d2 scale_too_small s0] assms(4-7) by simp
qed

definition settings_sample :: settings where
  "settings_sample = \<lparr>config = zero_config\<lparr>graphics_filtering := 3\<rparr>, boot_info = zero_boot_info\<lparr>customized := 1, cpuspeed := 4\<rparr>,
     old_config = zero_config, changed = True\<rparr>"

definition settings_sample_mem :: mem where
  "settings_sample_mem = \<lparr>mfiles = [config_file ''ABCD00001'' 1 \<mapsto> [], boot_info_file ''ABCD00001'' \<mapsto> []], mdirs = [], mhandles = []\<rparr>"

theorem settings_roundtrip_witness:
  "\<exists>s' w1 start w2. saveConfigs mem_io False ''ABCD00001'' settings_sample settings_sample_mem = (True, s', w1)
     \<and> read_settings mem_io (\<lambda>x. x = 0) ''ABCD00001'' settings_sample w1 = Some (start, w2)
     \<and> graphics_filtering (config (st_settings start)) = 3 \<and> psp_screen_scale_x (config (st_settings start)) = FLOAT_2
     \<and> cpuspeed (boot_info (st_settings start)) = 4"
proof -
  have z: "psp_screen_scale_x zero_config = 0"
    by (simp add: zero_config_def config_of_bytes_def Let_def words_of_zero_bytes sizeof_AdrenalineConfig_def)
  have h: "changed settings_sample" "valid_boot_info (boot_info settings_sample)" "False \<longleftrightarrow> ''ABCD00001'' = ADRENALINE_TITLEID"
    "config_file ''ABCD00001'' 1 = config_file ''ABCD00001'' (if False then 0 else customized (boot_info settings_sample))"
    "files (mem_view settings_sample_mem) (config_file ''ABCD00001'' 1) = Some []"
    "files (mem_view settings_sample_mem) (boot_info_file ''ABCD00001'') = Some []"
    using zero_boot_info_valid
    by (simp_all add: settings_sample_def ADRENALINE_TITLEID_def settings_sample_mem_def mem_view_def valid_boot_info_def)
  show ?thesis
    using settings_roundtrip [OF mem_contract h, of "\<lambda>x. x = 0" settings_sample]
    by (auto simp: settings_sample_def default_scales_def with_magic_def z Let_def)
qed

end
