(* ===== verification/Menu.thy ===== *)
theory Menu
  imports States Settings
begin

text \<open>
  The menu of the user module, \<open>overlay/user/menu.c\<close>: the tables of tabs and entries, entering and leaving the
  menu, the call-backs of its entries, and the control of tab, selection and values by the pad. Drawing is
  modelled by the memory a frame reads. The state is the module's statics (\<open>menu\<close>), the save-state list
  (\<open>states_ui\<close>) and the world; kernel calls are the fields of \<open>menu_sys\<close>. An access outside an array is undefined.
  A single-precision scale is its 32 bits, and the machine's arithmetic on it is a parameter.
\<close>

section \<open>The tables\<close>

datatype setting =
    Graphics_filtering | No_smooth_graphics | Flux_mode | Psp_screen_scale_x | Psp_screen_scale_y | Ps1_screen_scale_x
  | Ps1_screen_scale_y | Screen_scale_aspect_ratio | Suspend_threads | Ms_location | Usbdevice | Use_ds3_ds4 | Skip_logo
  | Driver | Execute | Plugins | Cpuspeed | Highmemory | Nonpdrm | Suspend | Psbutton | Customized | Loadstate

fun get_setting :: "setting \<Rightarrow> settings \<Rightarrow> i32" where
  "get_setting Graphics_filtering s = graphics_filtering (config s)"
| "get_setting No_smooth_graphics s = no_smooth_graphics (config s)"
| "get_setting Flux_mode s = flux_mode (config s)"
| "get_setting Psp_screen_scale_x s = psp_screen_scale_x (config s)"
| "get_setting Psp_screen_scale_y s = psp_screen_scale_y (config s)"
| "get_setting Ps1_screen_scale_x s = ps1_screen_scale_x (config s)"
| "get_setting Ps1_screen_scale_y s = ps1_screen_scale_y (config s)"
| "get_setting Screen_scale_aspect_ratio s = screen_scale_aspect_ratio (config s)"
| "get_setting Suspend_threads s = suspend_threads (config s)"
| "get_setting Ms_location s = ms_location (config s)"
| "get_setting Usbdevice s = usbdevice (config s)"
| "get_setting Use_ds3_ds4 s = use_ds3_ds4 (config s)"
| "get_setting Skip_logo s = skip_logo (config s)"
| "get_setting Driver s = driver (boot_info s)"
| "get_setting Execute s = execute (boot_info s)"
| "get_setting Plugins s = plugins (boot_info s)"
| "get_setting Cpuspeed s = cpuspeed (boot_info s)"
| "get_setting Highmemory s = highmemory (boot_info s)"
| "get_setting Nonpdrm s = nonpdrm (boot_info s)"
| "get_setting Suspend s = suspend (boot_info s)"
| "get_setting Psbutton s = psbutton (boot_info s)"
| "get_setting Customized s = customized (boot_info s)"
| "get_setting Loadstate s = loadstate (boot_info s)"

definition on_config :: "(AdrenalineConfig \<Rightarrow> AdrenalineConfig) \<Rightarrow> settings \<Rightarrow> settings" where
  "on_config f s = s\<lparr>config := f (config s)\<rparr>"

definition on_boot :: "(BootInfo \<Rightarrow> BootInfo) \<Rightarrow> settings \<Rightarrow> settings" where
  "on_boot f s = s\<lparr>boot_info := f (boot_info s)\<rparr>"

fun set_setting :: "setting \<Rightarrow> i32 \<Rightarrow> settings \<Rightarrow> settings" where
  "set_setting Graphics_filtering v = on_config (graphics_filtering_update (\<lambda>_. v))"
| "set_setting No_smooth_graphics v = on_config (no_smooth_graphics_update (\<lambda>_. v))"
| "set_setting Flux_mode v = on_config (flux_mode_update (\<lambda>_. v))"
| "set_setting Psp_screen_scale_x v = on_config (psp_screen_scale_x_update (\<lambda>_. v))"
| "set_setting Psp_screen_scale_y v = on_config (psp_screen_scale_y_update (\<lambda>_. v))"
| "set_setting Ps1_screen_scale_x v = on_config (ps1_screen_scale_x_update (\<lambda>_. v))"
| "set_setting Ps1_screen_scale_y v = on_config (ps1_screen_scale_y_update (\<lambda>_. v))"
| "set_setting Screen_scale_aspect_ratio v = on_config (screen_scale_aspect_ratio_update (\<lambda>_. v))"
| "set_setting Suspend_threads v = on_config (suspend_threads_update (\<lambda>_. v))"
| "set_setting Ms_location v = on_config (ms_location_update (\<lambda>_. v))"
| "set_setting Usbdevice v = on_config (usbdevice_update (\<lambda>_. v))"
| "set_setting Use_ds3_ds4 v = on_config (use_ds3_ds4_update (\<lambda>_. v))"
| "set_setting Skip_logo v = on_config (skip_logo_update (\<lambda>_. v))"
| "set_setting Driver v = on_boot (driver_update (\<lambda>_. v))"
| "set_setting Execute v = on_boot (execute_update (\<lambda>_. v))"
| "set_setting Plugins v = on_boot (plugins_update (\<lambda>_. v))"
| "set_setting Cpuspeed v = on_boot (cpuspeed_update (\<lambda>_. v))"
| "set_setting Highmemory v = on_boot (highmemory_update (\<lambda>_. v))"
| "set_setting Nonpdrm v = on_boot (nonpdrm_update (\<lambda>_. v))"
| "set_setting Suspend v = on_boot (suspend_update (\<lambda>_. v))"
| "set_setting Psbutton v = on_boot (psbutton_update (\<lambda>_. v))"
| "set_setting Customized v = on_boot (customized_update (\<lambda>_. v))"
| "set_setting Loadstate v = on_boot (loadstate_update (\<lambda>_. v))"

datatype callback =
    EnterStandbyMode | OpenOfficialSettings | GoToLiveAreaScreen | ExitPspEmuApplication | ExitAdrenaline
  | ResetAdrenaline | LoadSelectedState | ResetBooter | RestartBooter | ExitGame

text \<open>The type of an entry with what belongs to it: the option's variable and names, the scale's variable, the call-back.\<close>

datatype entry_type = TEXT | OPTION setting "path list" | SCALE setting | CALLBACK callback

record MenuEntry =
  e_name :: path
  e_type :: entry_type
  e_hidden :: bool
  e_unselectable :: bool

record TabEntry =
  t_name :: path
  t_entries :: "MenuEntry list option"
  t_moveable :: bool

definition graphics_options :: "path list" where
  "graphics_options = [''Original'', ''Bilinear'', ''Sharp Bilinear'', ''Advanced AA'', ''LCD3x'', ''Sharp Bilinear Simple ( No Scanlines )'']"
definition flux_mode_options :: "path list" where "flux_mode_options = [''None'', ''Yellow'', ''Blue'', ''Black'']"
definition no_yes_options :: "path list" where "no_yes_options = [''No'', ''Yes'']"
definition yes_no_options :: "path list" where "yes_no_options = [''Yes'', ''No'']"
definition ms_location_options :: "path list" where
  "ms_location_options = [''ux0:pspemu'', ''ur0:pspemu'', ''imc0:pspemu'', ''xmc0:pspemu'', ''uma0:pspemu'']"
definition usbdevice_options :: "path list" where
  "usbdevice_options = [''Memory Card'', ''Internal Storage'', ''SD2Vita'', ''PSVSD'']"
definition drivers_options :: "path list" where "drivers_options = [''INFERNO'', ''MARCH33'', ''NP9660'']"
definition execute_options :: "path list" where "execute_options = [''EBOOT.BIN'', ''EBOOT.OLD'', ''BOOT.BIN'']"
definition cpuspeed_options :: "path list" where
  "cpuspeed_options = [''Default'', ''20/10'', ''50/25'', ''75/37'', ''100/50'', ''111/55'', ''122/61'', ''133/66'', ''166/83'',
     ''200/100'', ''222/111'', ''266/133'', ''288/144'', ''300/150'', ''333/166'']"
definition settings_options :: "path list" where "settings_options = [''General'', ''Individual'']"
definition psbutton_options :: "path list" where "psbutton_options = [''Menu'', ''LiveArea'', ''Standard'']"
definition default_options :: "path list" where "default_options = [''Default'', ''Enable'', ''Disable'']"
definition autoloadstate_options :: "path list" where
  "autoloadstate_options =
    [''No'', ''State 0'', ''State 1'', ''State 2'', ''State 3'', ''State 4'', ''State 5'', ''State 6'', ''State 7'',
     ''State 8'', ''State 9'', ''State 10'', ''State 11'', ''State 12'', ''State 13'', ''State 14'', ''State 15'', ''State 16'',
     ''State 17'', ''State 18'', ''State 19'', ''State 20'', ''State 21'', ''State 22'', ''State 23'', ''State 24'', ''State 25'',
     ''State 26'', ''State 27'', ''State 28'', ''State 29'', ''State 30'', ''State 31'']"

definition entry :: "path \<Rightarrow> entry_type \<Rightarrow> MenuEntry" where
  "entry name t = \<lparr>e_name = name, e_type = t, e_hidden = False, e_unselectable = False\<rparr>"

definition main_entries :: "MenuEntry list" where
  "main_entries =
     [entry ''Enter Standby Mode'' (CALLBACK EnterStandbyMode),
      entry ''Open Official Settings'' (CALLBACK OpenOfficialSettings),
      entry ''Go To LiveArea Screen'' (CALLBACK GoToLiveAreaScreen),
      entry ''Exit PspEmu Application'' (CALLBACK ExitPspEmuApplication),
      entry ''Exit Adrenaline Menu'' (CALLBACK ExitAdrenaline)]"

definition settings_entries :: "MenuEntry list" where
  "settings_entries =
     [entry ''Graphics Filtering'' (OPTION Graphics_filtering graphics_options),
      entry ''Smooth Graphics'' (OPTION No_smooth_graphics yes_no_options),
      entry ''F.lux Filter Color'' (OPTION Flux_mode flux_mode_options),
      entry ''Screen Scale X (PSP)'' (SCALE Psp_screen_scale_x),
      entry ''Screen Scale Y (PSP)'' (SCALE Psp_screen_scale_y),
      entry ''Screen Scale X (PS1)'' (SCALE Ps1_screen_scale_x),
      entry ''Screen Scale Y (PS1)'' (SCALE Ps1_screen_scale_y),
      entry ''Keep Aspect Ratio'' (OPTION Screen_scale_aspect_ratio no_yes_options),
      entry ''Suspend Threads'' (OPTION Suspend_threads no_yes_options),
      entry ''Memory Stick Location'' (OPTION Ms_location ms_location_options),
      entry ''USB Device'' (OPTION Usbdevice usbdevice_options),
      entry ''Use DS3/DS4 Controller'' (OPTION Use_ds3_ds4 no_yes_options),
      entry ''Skip Adrenaline Boot Logo'' (OPTION Skip_logo no_yes_options),
      entry ''Reset Adrenaline Settings'' (CALLBACK ResetAdrenaline)]"

definition booter_settings_entries :: "MenuEntry list" where
  "booter_settings_entries =
     [entry ''Driver'' (OPTION Driver drivers_options),
      entry ''Execute'' (OPTION Execute execute_options),
      entry ''Plugins'' (OPTION Plugins default_options),
      entry ''CPU Speed'' (OPTION Cpuspeed cpuspeed_options),
      entry ''High Memory'' (OPTION Highmemory default_options),
      entry ''NoDRM Engine'' (OPTION Nonpdrm default_options),
      entry ''Suspend Threads'' (OPTION Suspend yes_no_options),
      entry ''PS Button Mode'' (OPTION Psbutton psbutton_options),
      entry ''Adrenaline Settings'' (OPTION Customized settings_options),
      entry ''Auto Load Saved State'' (OPTION Loadstate autoloadstate_options),
      entry ''Load Selected State'' (CALLBACK LoadSelectedState),
      entry ''Reset Booter Settings'' (CALLBACK ResetBooter),
      entry ''Restart Booter'' (CALLBACK RestartBooter),
      entry ''Exit Game'' (CALLBACK ExitGame)]"

definition about_entries :: "MenuEntry list" where
  "about_entries = map (\<lambda>t. entry t TEXT)
     [''6.61 Adrenaline v7'', ''by TheFloW'', '''', '''', ''Adrenaline Bubble Booter v1.3'', ''by LMAN <LeecherMan>'', '''', '''',
      ''Credits'', ''Team molecule for HENkaku'', ''frangarcj for graphics filtering'', ''Rinnegatamante for f.lux'',
      ''xerpi for vita2dlib'']"

definition tab :: "path \<Rightarrow> MenuEntry list option \<Rightarrow> bool \<Rightarrow> TabEntry" where
  "tab name es mv = \<lparr>t_name = name, t_entries = es, t_moveable = mv\<rparr>"

definition tab_entries :: "TabEntry list" where
  "tab_entries = [tab ''Main'' (Some main_entries) True, tab ''States'' None False,
     tab ''Settings'' (Some settings_entries) True, tab ''About'' (Some about_entries) False]"

definition tab_entries_booter :: "TabEntry list" where
  "tab_entries_booter = [tab ''Main'' (Some main_entries) True, tab ''States'' None False,
     tab ''Settings'' (Some settings_entries) True, tab ''Booter'' (Some booter_settings_entries) True,
     tab ''About'' (Some about_entries) False]"

text \<open>
  The tabs of a bubble are copied over the tabs of Adrenaline. \<open>room\<close> is the number of tabs the object of the
  latter and what the linker puts behind it can take; the object itself has four.
\<close>

definition setBooterTabEntries :: "nat \<Rightarrow> bool \<Rightarrow> TabEntry list option" where
  "setBooterTabEntries room adr_id =
     (if adr_id then Some tab_entries
      else if length tab_entries_booter \<le> room then Some tab_entries_booter else None)"

section \<open>The state\<close>

record menu =
  m_set :: settings
  tabs :: "TabEntry list"
  tab_sel :: int
  menu_sel :: int
  menu_open :: bool
  open_official_settings :: bool
  do_action :: int
  lock_power :: bool

record menu_env =
  me_adr_id :: bool
  me_titleid :: path
  me_location :: int

record 'w menu_sys =
  m_states :: "'w states_sys"
  scale_up :: "u32 \<Rightarrow> u32"
  scale_down :: "u32 \<Rightarrow> u32"
  scale_positive :: "u32 \<Rightarrow> bool"
  game_mode :: "'w \<Rightarrow> bool"
  psp_cmd_none :: "'w \<Rightarrow> bool"
  ScePspemuPausePops :: "bool \<Rightarrow> 'w \<Rightarrow> 'w"
  SetPspemuFrameBuffer :: "'w \<Rightarrow> 'w"
  signal_settings_sema :: "'w \<Rightarrow> 'w"
  scePowerRequestSuspend :: "'w \<Rightarrow> 'w"
  launch_by_name :: "path \<Rightarrow> 'w \<Rightarrow> int \<times> 'w"
  ScePspemuErrorExit :: "'w \<Rightarrow> 'w"
  ScePspemuSettingsHandler :: "int list \<Rightarrow> 'w \<Rightarrow> int \<times> 'w"
  delay_thread :: "nat \<Rightarrow> 'w \<Rightarrow> 'w"

type_synonym 'w menu_state = "states_ui \<times> menu \<times> 'w"

definition N_TABS :: "menu \<Rightarrow> int" where
  "N_TABS m = int (length (tabs m))"

section \<open>Entering and leaving\<close>

definition pops :: "'w menu_sys \<Rightarrow> 'w \<Rightarrow> bool" where
  "pops sys w = pops_mode (m_states sys) w"

definition request :: "'w menu_sys \<Rightarrow> psp_cmd \<Rightarrow> 'w \<Rightarrow> 'w" where
  "request sys c w = SendAdrenalineRequest (m_states sys) c w"

definition EnterAdrenalineMenu ::
  "menu_env \<Rightarrow> 'w menu_sys \<Rightarrow> byte list \<Rightarrow> AdrenalineStateEntry list option \<Rightarrow> 'w menu_state \<Rightarrow> 'w menu_state option"
where
  "EnterAdrenalineMenu env sys stack raw s =
     (let (ui, m, w) = s;
          (m, w) = (if \<not> me_adr_id env \<and> suspend (boot_info (m_set m)) = 0 \<and> \<not> pops sys w
                    then (m\<lparr>lock_power := True\<rparr>, request sys PSP_CMD_SUSPEND w) else (m, w));
          (m, w) = (if me_adr_id env \<and> suspend_threads (config (m_set m)) \<noteq> 0 \<and> \<not> pops sys w
                    then (m\<lparr>lock_power := True\<rparr>, request sys PSP_CMD_SUSPEND w) else (m, w))
      in do {
        (_, ui, w) \<leftarrow> initStates (m_states sys) stack (me_location env) raw ui w;
        let m = m\<lparr>m_set := (m_set m)\<lparr>old_config := config (m_set m), changed := False\<rparr>,
                  menu_open := True, open_official_settings := False\<rparr>;
        let w = (if pops sys w then ScePspemuPausePops sys True w else w);
        Some (ui, m, w) })"

definition save_settings :: "menu_env \<Rightarrow> 'w menu_sys \<Rightarrow> (menu, 'w) leaving" where
  "save_settings env sys mw =
     (let (m, w) = mw;
          (_, s, w) = saveConfigs (st_io (m_states sys)) (me_adr_id env) (me_titleid env) (m_set m) w
      in (m\<lparr>m_set := s\<rparr>, w))"

definition leave_menu :: "menu_env \<Rightarrow> 'w menu_sys \<Rightarrow> (menu, 'w) leaving" where
  "leave_menu env sys mw =
     (let (m, w) = save_settings env sys mw;
          w = (if pops sys w then ScePspemuPausePops sys False w else w);
          (m, w) = (if \<not> me_adr_id env \<and> \<not> pops sys w
                    then (m\<lparr>lock_power := False\<rparr>, request sys PSP_CMD_RESUME w) else (m, w));
          (m, w) = (if me_adr_id env \<and> suspend_threads (old_config (m_set m)) \<noteq> 0 \<and> \<not> pops sys w
                    then (m\<lparr>lock_power := False\<rparr>, request sys PSP_CMD_RESUME w) else (m, w));
          m = m\<lparr>menu_open := False, do_action := 0\<rparr>;
          w = (if ms_location (old_config (m_set m)) \<noteq> ms_location (config (m_set m))
               then request sys PSP_CMD_REINSERT_MS w else w)
      in (m, signal_settings_sema sys (SetPspemuFrameBuffer sys w)))"

definition ExitAdrenalineMenu :: "menu_env \<Rightarrow> 'w menu_sys \<Rightarrow> 'w menu_state \<Rightarrow> 'w menu_state" where
  "ExitAdrenalineMenu env sys s =
     (let (ui, mw) = s in exit_menu (leave_menu env sys) (m_states sys) ui mw)"

section \<open>Call-backs\<close>

definition stop_usb_world :: "'w menu_sys \<Rightarrow> 'w menu_state \<Rightarrow> 'w menu_state" where
  "stop_usb_world sys s = (let (ui, m, w) = s in (ui, m, stop_usb (m_states sys) w))"

definition on_world :: "('w \<Rightarrow> 'w) \<Rightarrow> 'w menu_state \<Rightarrow> 'w menu_state" where
  "on_world f s = (let (ui, m, w) = s in (ui, m, f w))"

definition launch_app :: "menu_env \<Rightarrow> 'w menu_sys \<Rightarrow> 'w menu_state \<Rightarrow> 'w menu_state" where
  "launch_app env sys s =
     (let (ui, m, w) = s; (res, w) = launch_by_name sys (me_titleid env) w
      in (ui, m, if res < 0 then ScePspemuErrorExit sys w else w))"

definition DoAction :: "menu_env \<Rightarrow> 'w menu_sys \<Rightarrow> psp_cmd \<Rightarrow> 'w menu_state \<Rightarrow> 'w menu_state" where
  "DoAction env sys action s =
     (let (ui, m, w) = s;
          ui = ui\<lparr>load_state := True\<rparr>;
          w = delay_thread sys (30 * 100 * 100) (request sys action w)
      in if psp_cmd_none sys w then ExitAdrenalineMenu env sys (ui, m, w)
         else (ui, m\<lparr>do_action := -1\<rparr>, w))"

definition load_selected_state :: "menu_env \<Rightarrow> 'w menu_sys \<Rightarrow> 'w menu_state \<Rightarrow> 'w menu_state" where
  "load_selected_state env sys s =
     (let (ui, m, w) = ExitAdrenalineMenu env sys s;
          n = sint (loadstate (boot_info (m_set m)))
      in if 1 \<le> n then (ui\<lparr>base_pos := n - 1, load_state := True\<rparr>, m, loadState (m_states sys) (n - 1) w)
         else (ui, m, w))"

fun run_callback :: "menu_env \<Rightarrow> 'w menu_sys \<Rightarrow> callback \<Rightarrow> 'w menu_state \<Rightarrow> 'w menu_state" where
  "run_callback env sys EnterStandbyMode s =
     on_world (scePowerRequestSuspend sys) (ExitAdrenalineMenu env sys (stop_usb_world sys s))"
| "run_callback env sys OpenOfficialSettings s =
     (if me_adr_id env
      then ExitAdrenalineMenu env sys (let (ui, m, w) = s in (ui, m\<lparr>open_official_settings := True\<rparr>, w))
      else on_world (snd \<circ> ScePspemuSettingsHandler sys [0, 1, 0, 0]) (ExitAdrenalineMenu env sys s))"
| "run_callback env sys GoToLiveAreaScreen s =
     launch_app env sys (ExitAdrenalineMenu env sys (stop_usb_world sys s))"
| "run_callback env sys ExitPspEmuApplication s = on_world (ScePspemuErrorExit sys) (stop_usb_world sys s)"
| "run_callback env sys ExitAdrenaline s = ExitAdrenalineMenu env sys s"
| "run_callback env sys ResetAdrenaline s =
     (let (ui, m, w) = s;
          (st, w) = ResetAdrenalineSettings (st_io (m_states sys)) (me_adr_id env) (me_titleid env) (m_set m) w
      in (ui, m\<lparr>m_set := st\<rparr>, w))"
| "run_callback env sys LoadSelectedState s = load_selected_state env sys s"
| "run_callback env sys ResetBooter s =
     (let (ui, m, w) = s;
          (st, w) = ResetBooterSettings (st_io (m_states sys)) (me_adr_id env) (me_titleid env) (m_set m) w
      in (ui, m\<lparr>m_set := st\<rparr>, w))"
| "run_callback env sys RestartBooter s = DoAction env sys PSP_CMD_RESTART_BOOTER s"
| "run_callback env sys ExitGame s =
     (let (ui, m, w) = DoAction env sys PSP_CMD_EXIT_VSH s
      in (ui, if 0 \<le> do_action m then m\<lparr>menu_sel := 0\<rparr> else m, w))"

section \<open>What a frame reads\<close>

definition edit_entry :: "nat \<Rightarrow> (MenuEntry \<Rightarrow> MenuEntry) \<Rightarrow> TabEntry \<Rightarrow> TabEntry" where
  "edit_entry i f t = t\<lparr>t_entries := map_option (\<lambda>es. es[i := f (es ! i)]) (t_entries t)\<rparr>"

definition hide :: "bool \<Rightarrow> MenuEntry \<Rightarrow> MenuEntry" where
  "hide b e = e\<lparr>e_hidden := b\<rparr>"

definition rename :: "path \<Rightarrow> MenuEntry \<Rightarrow> MenuEntry" where
  "rename n e = e\<lparr>e_name := n\<rparr>"

text \<open>Whether the selected state's entry is hidden; it looks into the list of slots.\<close>

definition no_selected_state :: "menu \<Rightarrow> states_ui \<Rightarrow> bool option" where
  "no_selected_state m ui =
     (let n = sint (loadstate (boot_info (m_set m)))
      in if n = 0 then Some True
         else case slots ui of
                None \<Rightarrow> Some True
              | Some sts \<Rightarrow> map_option (\<lambda>e. num e = -1) (slot sts (n - 1)))"

definition hideEntries :: "menu_env \<Rightarrow> 'w menu_sys \<Rightarrow> 'w menu_state \<Rightarrow> 'w menu_state option" where
  "hideEntries env sys s =
     (let (ui, m, w) = s;
          aspect = screen_scale_aspect_ratio (config (m_set m)) \<noteq> 0;
          settings_tab = edit_entry 5 (rename (if aspect then ''Screen Scale (PS1)'' else ''Screen Scale X (PS1)''))
            (edit_entry 3 (rename (if aspect then ''Screen Scale (PSP)'' else ''Screen Scale X (PSP)''))
              (edit_entry 6 (hide aspect) (edit_entry 4 (hide aspect) (tabs m ! 2))));
          m = m\<lparr>tabs := (tabs m)[2 := settings_tab]\<rparr>
      in if me_adr_id env then Some (ui, m, w)
         else do {
           no_state \<leftarrow> no_selected_state m ui;
           let booter_tab = edit_entry 13 (hide (\<not> game_mode sys w \<and> \<not> pops sys w))
                 (edit_entry 10 (hide no_state) (tabs m ! 3));
           Some (ui, m\<lparr>tabs := (tabs m)[3 := booter_tab]\<rparr>, w) })"

definition option_read :: "settings \<Rightarrow> MenuEntry \<Rightarrow> path option" where
  "option_read st e =
     (case e_type e of
        OPTION v names \<Rightarrow> let i = sint (get_setting v st)
                          in if 0 \<le> i \<and> i < int (length names) then Some (names ! nat i) else None
      | _ \<Rightarrow> Some (e_name e))"

definition drawMenu_reads :: "states_ui \<Rightarrow> menu \<Rightarrow> unit option" where
  "drawMenu_reads ui m =
     (case t_entries (tabs m ! nat (tab_sel m)) of
        None \<Rightarrow> map_option (\<lambda>_. ()) (drawn_slots ui)
      | Some es \<Rightarrow> map_option (\<lambda>_. ()) (those (map (option_read (m_set m)) (filter (\<lambda>e. \<not> e_hidden e) es))))"

section \<open>The control\<close>

definition entry_at :: "MenuEntry list \<Rightarrow> int \<Rightarrow> MenuEntry option" where
  "entry_at es i = (if 0 \<le> i \<and> i < int (length es) then Some (es ! nat i) else None)"

definition skipped :: "MenuEntry \<Rightarrow> bool" where
  "skipped e \<longleftrightarrow> e_hidden e \<or> e_unselectable e"

fun skip_up :: "MenuEntry list \<Rightarrow> nat \<Rightarrow> int \<Rightarrow> int option" where
  "skip_up es 0 sel = Some sel"
| "skip_up es (Suc n) sel = do {
     e \<leftarrow> entry_at es sel;
     skip_up es n (if skipped e then (if 0 < sel then sel - 1 else sel + 1) else sel) }"

fun skip_down :: "MenuEntry list \<Rightarrow> nat \<Rightarrow> int \<Rightarrow> int option" where
  "skip_down es 0 sel = Some sel"
| "skip_down es (Suc n) sel = do {
     e \<leftarrow> entry_at es sel;
     skip_down es n (if skipped e then (if sel < int (length es) - 1 then sel + 1 else sel - 1) else sel) }"

definition select_up :: "MenuEntry list \<Rightarrow> int \<Rightarrow> int option" where
  "select_up es sel =
     (let sel = (if 0 < sel then sel - 1 else sel) in skip_up es (nat (int (length es) - sel)) sel)"

definition select_down :: "MenuEntry list \<Rightarrow> int \<Rightarrow> int option" where
  "select_down es sel =
     (let sel = (if sel < int (length es) - 1 then sel + 1 else sel) in skip_down es (nat (int (length es) - sel)) sel)"

definition either :: "u8 list \<Rightarrow> nat \<Rightarrow> nat \<Rightarrow> bool" where
  "either p i j \<longleftrightarrow> pad_on p i \<or> pad_on p j"

definition option_right :: "nat \<Rightarrow> i32 \<Rightarrow> i32" where
  "option_right n v = (if sint v < int n - 1 then v + 1 else 0)"

definition option_left :: "nat \<Rightarrow> i32 \<Rightarrow> i32" where
  "option_left n v = (if 0 < sint v then v - 1 else of_nat n - 1)"

definition edit_setting :: "setting \<Rightarrow> (i32 \<Rightarrow> i32) \<Rightarrow> settings \<Rightarrow> settings" where
  "edit_setting v f st = set_setting v (f (get_setting v st)) st"

definition change_option :: "pads \<Rightarrow> setting \<Rightarrow> nat \<Rightarrow> settings \<Rightarrow> settings" where
  "change_option p v n st =
     (let st = (if either (hold_pad p) PAD_RIGHT PAD_LEFT_ANALOG_RIGHT \<or> pad_on (released_pad p) PAD_ENTER
                then edit_setting v (option_right n) st else st);
          st = (if either (hold_pad p) PAD_LEFT PAD_LEFT_ANALOG_LEFT then edit_setting v (option_left n) st else st)
      in st\<lparr>changed := True\<rparr>)"

definition change_scale :: "'w menu_sys \<Rightarrow> pads \<Rightarrow> setting \<Rightarrow> settings \<Rightarrow> settings" where
  "change_scale sys p v st =
     (let st = (if either (hold2_pad p) PAD_RIGHT PAD_LEFT_ANALOG_RIGHT \<or> pad_on (hold2_pad p) PAD_ENTER
                then edit_setting v (scale_up sys) st else st);
          st = (if either (hold2_pad p) PAD_LEFT PAD_LEFT_ANALOG_LEFT
                then edit_setting v (\<lambda>x. if scale_positive sys x then scale_down sys x else x) st else st)
      in st\<lparr>changed := True\<rparr>)"

definition use_entry :: "menu_env \<Rightarrow> 'w menu_sys \<Rightarrow> pads \<Rightarrow> MenuEntry \<Rightarrow> 'w menu_state \<Rightarrow> 'w menu_state" where
  "use_entry env sys p e s =
     (let (ui, m, w) = s
      in case e_type e of
           CALLBACK c \<Rightarrow> if pad_on (released_pad p) PAD_ENTER then run_callback env sys c s else s
         | OPTION v names \<Rightarrow> (ui, m\<lparr>m_set := change_option p v (length names) (m_set m)\<rparr>, w)
         | SCALE v \<Rightarrow> (ui, m\<lparr>m_set := change_scale sys p v (m_set m)\<rparr>, w)
         | TEXT \<Rightarrow> s)"

definition change_tab :: "pads \<Rightarrow> menu \<Rightarrow> menu" where
  "change_tab p m =
     (let m = (if pad_on (pressed_pad p) PAD_LTRIGGER \<and> 0 < tab_sel m
               then m\<lparr>menu_sel := 0, tab_sel := tab_sel m - 1\<rparr> else m)
      in if pad_on (pressed_pad p) PAD_RTRIGGER \<and> tab_sel m < N_TABS m - 1
         then m\<lparr>menu_sel := 0, tab_sel := tab_sel m + 1\<rparr> else m)"

definition ctrl_entries :: "menu_env \<Rightarrow> 'w menu_sys \<Rightarrow> pads \<Rightarrow> MenuEntry list \<Rightarrow> 'w menu_state \<Rightarrow> 'w menu_state option" where
  "ctrl_entries env sys p es s = do {
     e \<leftarrow> entry_at es (menu_sel (fst (snd s)));
     let (ui, m, w) = use_entry env sys p e s;
     sel \<leftarrow> (if going_up p then select_up es (menu_sel m) else Some (menu_sel m));
     sel \<leftarrow> (if going_down p then select_down es sel else Some sel);
     Some (ui, m\<lparr>menu_sel := sel\<rparr>, w) }"

definition exits :: "menu_env \<Rightarrow> 'w menu_sys \<Rightarrow> bool \<Rightarrow> pads \<Rightarrow> 'w menu_state \<Rightarrow> 'w menu_state" where
  "exits env sys pwr p s =
     (let s = (if pwr then ExitAdrenalineMenu env sys s else s);
          s = (if pad_on (released_pad p) PAD_PSBUTTON then ExitAdrenalineMenu env sys s else s)
      in if \<not> open_options (fst s) \<and> pad_on (released_pad p) PAD_CANCEL then ExitAdrenalineMenu env sys s else s)"

definition ctrlMenu :: "menu_env \<Rightarrow> 'w menu_sys \<Rightarrow> bool \<Rightarrow> pads \<Rightarrow> 'w menu_state \<Rightarrow> 'w menu_state option" where
  "ctrlMenu env sys pwr p s =
     (let (ui, m, w) = exits env sys pwr p s;
          m = (if \<not> open_options ui then change_tab p m else m)
      in if tab_sel m = 1 then ctrlStates (leave_menu env sys) (m_states sys) (me_location env) p ui (m, w)
         else let t = tabs m ! nat (tab_sel m)
              in if t_moveable t
                 then case t_entries t of
                        None \<Rightarrow> Some (ui, m, w)
                      | Some es \<Rightarrow> ctrl_entries env sys p es (ui, m, w)
                 else Some (ui, m, w))"

text \<open>A frame with the menu open, and the frames until the menu closes.\<close>

definition menu_frame :: "menu_env \<Rightarrow> 'w menu_sys \<Rightarrow> bool \<times> pads \<Rightarrow> 'w menu_state \<Rightarrow> 'w menu_state option" where
  "menu_frame env sys i s = do {
     (ui, m, w) \<leftarrow> hideEntries env sys s;
     _ \<leftarrow> drawMenu_reads ui m;
     ctrlMenu env sys (fst i) (snd i) (ui, m, w) }"

fun menu_session :: "menu_env \<Rightarrow> 'w menu_sys \<Rightarrow> (bool \<times> pads) list \<Rightarrow> 'w menu_state \<Rightarrow> 'w menu_state option" where
  "menu_session env sys [] s = Some s"
| "menu_session env sys (i # is) s =
     (if menu_open (fst (snd s)) then do { s \<leftarrow> menu_frame env sys i s; menu_session env sys is s } else Some s)"

section \<open>The invariant of a session\<close>

text \<open>The number of values of each setting; a scale has no bound.\<close>

fun limit :: "setting \<Rightarrow> nat" where
  "limit Graphics_filtering = 6" | "limit No_smooth_graphics = 2" | "limit Flux_mode = 4"
| "limit Screen_scale_aspect_ratio = 2" | "limit Suspend_threads = 2" | "limit Ms_location = 5" | "limit Usbdevice = 4"
| "limit Use_ds3_ds4 = 2" | "limit Skip_logo = 2" | "limit Driver = 3" | "limit Execute = 3" | "limit Plugins = 3"
| "limit Cpuspeed = 15" | "limit Highmemory = 3" | "limit Nonpdrm = 3" | "limit Suspend = 2" | "limit Psbutton = 3"
| "limit Customized = 2" | "limit Loadstate = 33"
| "limit Psp_screen_scale_x = 0" | "limit Psp_screen_scale_y = 0" | "limit Ps1_screen_scale_x = 0" | "limit Ps1_screen_scale_y = 0"

definition in_limit :: "nat \<Rightarrow> i32 \<Rightarrow> bool" where
  "in_limit n v \<longleftrightarrow> n = 0 \<or> (0 \<le> sint v \<and> sint v < int n)"

definition values_ok :: "settings \<Rightarrow> bool" where
  "values_ok st \<longleftrightarrow> (\<forall>v. in_limit (limit v) (get_setting v st))"

text \<open>What hiding and renaming an entry keeps.\<close>

definition shape :: "MenuEntry \<Rightarrow> MenuEntry" where
  "shape e = e\<lparr>e_name := [], e_hidden := False\<rparr>"

definition shape_tab :: "TabEntry \<Rightarrow> TabEntry" where
  "shape_tab t = t\<lparr>t_entries := map_option (map shape) (t_entries t)\<rparr>"

definition base_tabs :: "bool \<Rightarrow> TabEntry list" where
  "base_tabs adr_id = (if adr_id then tab_entries else tab_entries_booter)"

definition sel_fits :: "TabEntry \<Rightarrow> int \<Rightarrow> bool" where
  "sel_fits t k \<longleftrightarrow> (case t_entries t of None \<Rightarrow> True | Some es \<Rightarrow> k < int (length es))"

definition sel_ok :: "menu \<Rightarrow> bool" where
  "sel_ok m \<longleftrightarrow> 0 \<le> tab_sel m \<and> tab_sel m < N_TABS m \<and> 0 \<le> menu_sel m \<and> sel_fits (tabs m ! nat (tab_sel m)) (menu_sel m)"

definition menu_ok :: "menu_env \<Rightarrow> menu \<Rightarrow> bool" where
  "menu_ok env m \<longleftrightarrow> map shape_tab (tabs m) = map shape_tab (base_tabs (me_adr_id env)) \<and> sel_ok m \<and> values_ok (m_set m)"

lemma get_set_setting: "get_setting v (set_setting v' x s) = (if v = v' then x else get_setting v s)"
  by (cases v'; cases v) (simp_all add: on_config_def on_boot_def)

lemma limit_small: "limit v < 100"
  by (cases v) simp_all

lemma sint_small: "n < 100 \<Longrightarrow> sint (of_nat n :: i32) = int n"
  by (simp add: signed_of_nat signed_take_bit_int_eq_self)

lemma sint_one: "sint (1 :: i32) = 1"
  by simp

lemma sint_add_small:
  fixes v :: i32
  assumes "- 200 < sint v + sint d" "sint v + sint d < 200"
  shows "sint (v + d) = sint v + sint d"
  using assms by (subst sint_word_ariths) (simp add: signed_take_bit_int_eq_self)

lemma sint_sub_small:
  fixes v :: i32
  assumes "- 200 < sint v - sint d" "sint v - sint d < 200"
  shows "sint (v - d) = sint v - sint d"
  using assms by (subst sint_word_ariths) (simp add: signed_take_bit_int_eq_self)

lemma option_right_limit: "in_limit n v \<Longrightarrow> n < 100 \<Longrightarrow> in_limit n (option_right n v)"
  by (auto simp: in_limit_def option_right_def sint_add_small)

lemma option_left_limit: "in_limit n v \<Longrightarrow> n < 100 \<Longrightarrow> in_limit n (option_left n v)"
  by (auto simp: in_limit_def option_left_def sint_sub_small sint_small)

lemma values_ok_edit:
  assumes "values_ok st" "\<And>x. in_limit (limit v) x \<Longrightarrow> in_limit (limit v) (f x)"
  shows "values_ok (edit_setting v f st)"
  using assms by (auto simp: values_ok_def edit_setting_def get_set_setting)

lemma get_setting_marks [simp]:
  "get_setting v (st\<lparr>changed := b\<rparr>) = get_setting v st" "get_setting v (st\<lparr>old_config := c\<rparr>) = get_setting v st"
  "get_setting v (st\<lparr>config := with_magic (config st)\<rparr>) = get_setting v st"
  by (cases v; simp add: with_magic_def)+

lemma values_ok_marks [simp]:
  "values_ok (st\<lparr>changed := b\<rparr>) = values_ok st" "values_ok (st\<lparr>old_config := c\<rparr>) = values_ok st"
  "values_ok (st\<lparr>config := with_magic (config st)\<rparr>) = values_ok st"
  by (simp_all add: values_ok_def)

lemma values_ok_change_option: "values_ok st \<Longrightarrow> n = limit v \<Longrightarrow> values_ok (change_option p v n st)"
  by (simp add: change_option_def Let_def values_ok_edit option_right_limit option_left_limit limit_small)

lemma values_ok_change_scale: "values_ok st \<Longrightarrow> limit v = 0 \<Longrightarrow> values_ok (change_scale sys p v st)"
  by (simp add: change_scale_def Let_def values_ok_edit in_limit_def)

lemma saveConfigs_values: "saveConfigs io adr t st w = (r, st', w') \<Longrightarrow> values_ok st' = values_ok st"
  by (auto simp: saveConfigs_def Let_def split: if_splits)

lemma reset_values:
  "ResetAdrenalineSettings io adr t st w = (st', w') \<Longrightarrow> values_ok st \<Longrightarrow> values_ok st'"
  "ResetBooterSettings io adr t st w = (st', w') \<Longrightarrow> values_ok st \<Longrightarrow> values_ok st'"
proof -
  have z: "graphics_filtering zero_config = 0" "no_smooth_graphics zero_config = 0" "flux_mode zero_config = 0"
    "ms_location zero_config = 0" "usbdevice zero_config = 0" "use_ds3_ds4 zero_config = 0" "skip_logo zero_config = 0"
    by (simp_all add: zero_config_def config_of_bytes_def Let_def words_of_zero_bytes sizeof_AdrenalineConfig_def)
  {
    assume r: "ResetAdrenalineSettings io adr t st w = (st', w')" and ok: "values_ok st"
    define c where "c = (with_magic zero_config)\<lparr>psp_screen_scale_x := FLOAT_2, psp_screen_scale_y := FLOAT_2,
                ps1_screen_scale_x := FLOAT_1, ps1_screen_scale_y := FLOAT_1, screen_scale_aspect_ratio := 0, suspend_threads := 0\<rparr>"
    obtain x where "saveConfigs io adr t (st\<lparr>config := c\<rparr>) w = (x, st', w')"
      using r by (cases "saveConfigs io adr t (st\<lparr>config := c\<rparr>) w") (auto simp: ResetAdrenalineSettings_def c_def)
    moreover have "in_limit (limit v) (get_setting v (st\<lparr>config := c\<rparr>))" for v
      using ok [unfolded values_ok_def, rule_format, of v] by (cases v) (simp_all add: c_def with_magic_def z in_limit_def)
    ultimately show "values_ok st'"
      by (auto simp: values_ok_def dest!: saveConfigs_values)
  }
  {
    assume r: "ResetBooterSettings io adr t st w = (st', w')" and ok: "values_ok st"
    define b where "b = (boot_info st)\<lparr>driver := 1, execute := 0, customized := 0, loadstate := 0, psbutton := 0, suspend := 0,
                cpuspeed := 0, plugins := 0, nonpdrm := 0, highmemory := 0\<rparr>"
    obtain x where "saveConfigs io adr t (st\<lparr>boot_info := b\<rparr>) w = (x, st', w')"
      using r by (cases "saveConfigs io adr t (st\<lparr>boot_info := b\<rparr>) w") (auto simp: ResetBooterSettings_def b_def)
    moreover have "in_limit (limit v) (get_setting v (st\<lparr>boot_info := b\<rparr>))" for v
      using ok [unfolded values_ok_def, rule_format, of v] by (cases v) (simp_all add: b_def in_limit_def)
    ultimately show "values_ok st'"
      by (auto simp: values_ok_def dest!: saveConfigs_values)
  }
qed

section \<open>A frame keeps it\<close>

definition entry_fits :: "entry_type \<Rightarrow> bool" where
  "entry_fits t = (case t of OPTION v names \<Rightarrow> length names = limit v \<and> 0 < limit v | SCALE v \<Rightarrow> limit v = 0 | _ \<Rightarrow> True)"

lemma tables_fit:
  "list_all (\<lambda>t. case t_entries t of None \<Rightarrow> True | Some es \<Rightarrow> 2 \<le> length es \<and> list_all (\<lambda>e. entry_fits (e_type e)) es) (base_tabs b)"
  by (cases b) (simp_all add: base_tabs_def tab_entries_def tab_entries_booter_def tab_def main_entries_def settings_entries_def
      booter_settings_entries_def about_entries_def entry_def entry_fits_def graphics_options_def flux_mode_options_def
      no_yes_options_def yes_no_options_def ms_location_options_def usbdevice_options_def drivers_options_def execute_options_def
      cpuspeed_options_def settings_options_def psbutton_options_def default_options_def autoloadstate_options_def)

lemma map_update_same: "f x = f (xs ! i) \<Longrightarrow> map f (xs[i := x]) = map f xs"
  by (cases "i < length xs") (auto intro!: nth_equalityI simp: nth_list_update)

lemma shape_type: "shape e = shape e' \<Longrightarrow> e_type e = e_type e'"
  by (cases e; cases e') (simp add: shape_def)

lemma shape_tab_entries: "shape_tab t = shape_tab t' \<Longrightarrow> map_option (map shape) (t_entries t) = map_option (map shape) (t_entries t')"
  by (cases t; cases t') (simp add: shape_tab_def)

lemma map_eq_member:
  assumes "map f xs = map g ys" "x \<in> set xs"
  obtains y where "y \<in> set ys" "f x = g y"
proof -
  have "f x \<in> set (map f xs)"
    using assms(2) by simp
  then show thesis
    using that unfolding assms(1) by auto
qed

lemma tab_fits:
  assumes "map shape_tab ts = map shape_tab (base_tabs b)" "t \<in> set ts" "t_entries t = Some es"
  shows "2 \<le> length es \<and> (\<forall>e\<in>set es. entry_fits (e_type e))"
proof -
  obtain t0 where t0: "t0 \<in> set (base_tabs b)" "shape_tab t = shape_tab t0"
    using map_eq_member [OF assms(1,2)] by blast
  then obtain es0 where es0: "t_entries t0 = Some es0" "map shape es = map shape es0"
    using shape_tab_entries [OF t0(2)] assms(3) by (cases "t_entries t0") auto
  have fit: "2 \<le> length es0 \<and> (\<forall>e\<in>set es0. entry_fits (e_type e))"
    using tables_fit [of b] t0(1) es0(1) by (auto simp: list_all_iff)
  have "e_type e \<in> e_type ` set es0" if e: "e \<in> set es" for e
  proof -
    obtain e0 where "e0 \<in> set es0" "shape e = shape e0"
      using map_eq_member [OF es0(2) e] by blast
    then show ?thesis
      using shape_type [of e e0] by auto
  qed
  then show ?thesis
    using fit map_eq_imp_length_eq [OF es0(2)] by fastforce
qed

lemma edit_entry_shape:
  assumes "\<And>e. shape (f e) = shape e"
  shows "shape_tab (edit_entry i f t) = shape_tab t"
  using assms by (cases "t_entries t") (simp_all add: shape_tab_def edit_entry_def map_update_same del: map_update)

lemma edit_entry_length:
  "sel_fits (edit_entry i f t) k = sel_fits t k"
  by (cases "t_entries t") (simp_all add: edit_entry_def sel_fits_def)

lemma shape_edits: "shape (hide b e) = shape e" "shape (rename n e) = shape e"
  by (simp_all add: shape_def hide_def rename_def)

lemma sel_ok_shape:
  assumes "map shape_tab (tabs m') = map shape_tab (tabs m)" "tab_sel m' = tab_sel m" "menu_sel m' = menu_sel m"
  shows "sel_ok m' = sel_ok m"
proof (cases "0 \<le> tab_sel m \<and> tab_sel m < N_TABS m")
  case True
  let ?t = "tabs m ! nat (tab_sel m)" and ?t' = "tabs m' ! nat (tab_sel m)"
  have len: "length (tabs m') = length (tabs m)"
    using assms(1) by (rule map_eq_imp_length_eq)
  have "shape_tab ?t' = shape_tab ?t"
    using assms(1) len True by (metis N_TABS_def nat_less_iff nth_map)
  then have "map_option (map shape) (t_entries ?t') = map_option (map shape) (t_entries ?t)"
    by (rule shape_tab_entries)
  then have "map_option length (t_entries ?t') = map_option length (t_entries ?t)"
    by (cases "t_entries ?t"; cases "t_entries ?t'") (auto dest: map_eq_imp_length_eq)
  then show ?thesis
    using assms(2,3) len
    by (cases "t_entries ?t"; cases "t_entries ?t'") (auto simp: sel_ok_def sel_fits_def N_TABS_def)
next
  case False
  then show ?thesis
    using assms map_eq_imp_length_eq [OF assms(1)] by (auto simp: sel_ok_def N_TABS_def)
qed

lemma skip_in_range:
  "2 \<le> length es \<Longrightarrow> 0 \<le> sel \<Longrightarrow> sel < int (length es)
     \<Longrightarrow> \<exists>s. skip_up es n sel = Some s \<and> 0 \<le> s \<and> s < int (length es)"
  "2 \<le> length es \<Longrightarrow> 0 \<le> sel \<Longrightarrow> sel < int (length es)
     \<Longrightarrow> \<exists>s. skip_down es n sel = Some s \<and> 0 \<le> s \<and> s < int (length es)"
  by (induction n arbitrary: sel) (simp_all add: entry_at_def)

lemma select_in_range:
  assumes "2 \<le> length es" "0 \<le> sel" "sel < int (length es)"
  shows "\<exists>s. (if going_up p then select_up es sel else Some sel) = Some s \<and> 0 \<le> s \<and> s < int (length es)"
    and "\<exists>s. (if going_down p then select_down es sel else Some sel) = Some s \<and> 0 \<le> s \<and> s < int (length es)"
  using assms skip_in_range by (auto simp: select_up_def select_down_def Let_def)

lemma leave_menu_parts:
  assumes "saveConfigs (st_io (m_states sys)) (me_adr_id env) (me_titleid env) (m_set m) w = (r, st, w1)"
  shows "m_set (fst (leave_menu env sys (m, w))) = st \<and> tabs (fst (leave_menu env sys (m, w))) = tabs m
     \<and> tab_sel (fst (leave_menu env sys (m, w))) = tab_sel m \<and> menu_sel (fst (leave_menu env sys (m, w))) = menu_sel m
     \<and> \<not> menu_open (fst (leave_menu env sys (m, w)))"
  by (simp add: leave_menu_def save_settings_def assms Let_def case_prod_beta if_distrib [of fst] if_distrib [of m_set]
      if_distrib [of tabs] if_distrib [of tab_sel] if_distrib [of menu_sel] del: if_split)

lemma leave_menu_ok:
  assumes "menu_ok env (fst mw)"
  shows "menu_ok env (fst (leave_menu env sys mw)) \<and> \<not> menu_open (fst (leave_menu env sys mw))
     \<and> tab_sel (fst (leave_menu env sys mw)) = tab_sel (fst mw) \<and> tabs (fst (leave_menu env sys mw)) = tabs (fst mw)"
proof -
  obtain m w where mw: "mw = (m, w)"
    by (cases mw)
  obtain r st w1 where s: "saveConfigs (st_io (m_states sys)) (me_adr_id env) (me_titleid env) (m_set m) w = (r, st, w1)"
    by (metis prod_cases3)
  have "values_ok st"
    using assms saveConfigs_values [OF s] by (simp add: mw menu_ok_def)
  then show ?thesis
    using assms leave_menu_parts [OF s] by (simp add: mw menu_ok_def sel_ok_def N_TABS_def)
qed

text \<open>What a frame and its parts keep: the menu well formed, the list of states well formed unless a loaded state closed the menu.\<close>

definition session_ok :: "menu_env \<Rightarrow> 'w menu_state \<Rightarrow> bool" where
  "session_ok env s \<longleftrightarrow> menu_ok env (fst (snd s))
     \<and> (states_ok (fst s) \<or> \<not> menu_open (fst (snd s)) \<and> slots (fst s) = None
          \<and> base_pos (fst s) = sint (loadstate (boot_info (m_set (fst (snd s))))) - 1)"

definition same_tabs :: "'w menu_state \<Rightarrow> 'w menu_state \<Rightarrow> bool" where
  "same_tabs s s' \<longleftrightarrow> tabs (fst (snd s')) = tabs (fst (snd s)) \<and> tab_sel (fst (snd s')) = tab_sel (fst (snd s))"

lemma exit_ok:
  assumes "menu_ok env (fst (snd s))" "states_ok (fst s)"
  shows "menu_ok env (fst (snd (ExitAdrenalineMenu env sys s))) \<and> states_ok (fst (ExitAdrenalineMenu env sys s))
     \<and> \<not> menu_open (fst (snd (ExitAdrenalineMenu env sys s))) \<and> slots (fst (ExitAdrenalineMenu env sys s)) = None
     \<and> same_tabs s (ExitAdrenalineMenu env sys s)"
proof -
  obtain ui m w where s: "s = (ui, m, w)"
    by (cases s)
  have "slots (fst (finishStates (m_states sys) ui w')) = None" for w'
    by (simp add: finishStates_def split: option.splits)
  then show ?thesis
    using assms leave_menu_ok [of env "(m, w)" sys] exit_menu_ok [of ui "leave_menu env sys" "m_states sys" "(m, w)"]
    by (simp add: s ExitAdrenalineMenu_def same_tabs_def exit_menu_def case_prod_beta Let_def)
qed

lemma states_ok_load [simp]: "states_ok (ui\<lparr>load_state := b\<rparr>) = states_ok ui"
  by (simp add: states_defs)

lemma on_world_parts [simp]: "fst (on_world f s) = fst s" "fst (snd (on_world f s)) = fst (snd s)"
  by (cases s; simp add: on_world_def)+

lemma stop_usb_parts [simp]: "fst (stop_usb_world sys s) = fst s" "fst (snd (stop_usb_world sys s)) = fst (snd s)"
  by (cases s; simp add: stop_usb_world_def)+

lemma launch_parts [simp]: "fst (launch_app env sys s) = fst s" "fst (snd (launch_app env sys s)) = fst (snd s)"
  by (cases s; simp add: launch_app_def case_prod_beta Let_def)+

lemma menu_ok_marks [simp]:
  "menu_ok env (m\<lparr>do_action := k\<rparr>) = menu_ok env m" "menu_ok env (m\<lparr>open_official_settings := b\<rparr>) = menu_ok env m"
  by (simp_all add: menu_ok_def sel_ok_def N_TABS_def)

lemma menu_ok_set: "menu_ok env m \<Longrightarrow> values_ok st \<Longrightarrow> menu_ok env (m\<lparr>m_set := st\<rparr>)"
  by (simp add: menu_ok_def sel_ok_def N_TABS_def)

lemma DoAction_ok:
  assumes "menu_ok env (fst (snd s))" "states_ok (fst s)"
  shows "menu_ok env (fst (snd (DoAction env sys a s))) \<and> states_ok (fst (DoAction env sys a s)) \<and> same_tabs s (DoAction env sys a s)"
proof -
  obtain ui m w where s: "s = (ui, m, w)"
    by (cases s)
  show ?thesis
    using assms exit_ok [of env "(ui\<lparr>load_state := True\<rparr>, m, delay_thread sys (30 * 100 * 100) (request sys a w))" sys]
    by (simp add: s DoAction_def Let_def same_tabs_def)
qed

lemma load_selected_ok:
  assumes "menu_ok env (fst (snd s))" "states_ok (fst s)"
  shows "session_ok env (load_selected_state env sys s) \<and> same_tabs s (load_selected_state env sys s)"
proof -
  obtain ui m w where e: "ExitAdrenalineMenu env sys s = (ui, m, w)"
    by (metis prod_cases3)
  show ?thesis
    using exit_ok [OF assms, of sys] by (simp add: e load_selected_state_def session_ok_def same_tabs_def Let_def)
qed

lemma menu_ok_tab:
  assumes "menu_ok env m" "0 \<le> k" "k < N_TABS m"
  shows "menu_ok env (m\<lparr>menu_sel := 0, tab_sel := k\<rparr>)"
proof -
  have "tabs m ! nat k \<in> set (tabs m)"
    using assms(2,3) by (simp add: N_TABS_def)
  then have "2 \<le> length es" if "t_entries (tabs m ! nat k) = Some es" for es
    using tab_fits [of "tabs m" "me_adr_id env", OF _ _ that] assms(1) by (simp add: menu_ok_def)
  then have "sel_fits (tabs m ! nat k) 0"
    by (fastforce simp: sel_fits_def split: option.split)
  then show ?thesis
    using assms by (simp add: menu_ok_def sel_ok_def N_TABS_def)
qed

lemma menu_ok_first:
  assumes "menu_ok env m"
  shows "menu_ok env (m\<lparr>menu_sel := 0\<rparr>)"
proof -
  have "menu_ok env (m\<lparr>menu_sel := 0, tab_sel := tab_sel m\<rparr>)"
    using assms by (intro menu_ok_tab) (simp_all add: menu_ok_def sel_ok_def)
  then show ?thesis
    by (cases m) simp
qed

lemma callback_ok:
  assumes "menu_ok env (fst (snd s))" "states_ok (fst s)"
  shows "session_ok env (run_callback env sys c s) \<and> same_tabs s (run_callback env sys c s)"
proof -
  obtain ui m w where s: "s = (ui, m, w)"
    by (cases s)
  have ok: "menu_ok env m" "values_ok (m_set m)" "states_ok ui"
    using assms by (simp_all add: s menu_ok_def)
  show ?thesis
  proof (cases c)
    case LoadSelectedState
    then show ?thesis
      using load_selected_ok [OF assms] by simp
  next
    case OpenOfficialSettings
    then show ?thesis
      using assms exit_ok [of env "(ui, m\<lparr>open_official_settings := True\<rparr>, w)" sys] exit_ok [of env s sys]
      by (simp add: s session_ok_def same_tabs_def)
  next
    case ResetAdrenaline
    obtain st w1 where r: "ResetAdrenalineSettings (st_io (m_states sys)) (me_adr_id env) (me_titleid env) (m_set m) w = (st, w1)"
      by fastforce
    show ?thesis
      using ok reset_values(1) [OF r] by (simp add: ResetAdrenaline s r session_ok_def same_tabs_def menu_ok_set)
  next
    case ResetBooter
    obtain st w1 where r: "ResetBooterSettings (st_io (m_states sys)) (me_adr_id env) (me_titleid env) (m_set m) w = (st, w1)"
      by fastforce
    show ?thesis
      using ok reset_values(2) [OF r] by (simp add: ResetBooter s r session_ok_def same_tabs_def menu_ok_set)
  next
    case ExitGame
    then show ?thesis
      using DoAction_ok [OF assms, of sys PSP_CMD_EXIT_VSH]
      by (cases "DoAction env sys PSP_CMD_EXIT_VSH s") (auto simp: session_ok_def same_tabs_def menu_ok_first)
  qed (use assms exit_ok [OF assms, of sys] exit_ok [of env "stop_usb_world sys s" sys] DoAction_ok [OF assms, of sys PSP_CMD_RESTART_BOOTER]
       in \<open>simp_all add: session_ok_def same_tabs_def\<close>)
qed

lemma use_entry_ok:
  assumes "menu_ok env (fst (snd s))" "states_ok (fst s)" "entry_fits (e_type e)"
  shows "session_ok env (use_entry env sys p e s) \<and> same_tabs s (use_entry env sys p e s)"
proof -
  obtain ui m w where s: "s = (ui, m, w)"
    by (cases s)
  have ok: "menu_ok env m" "values_ok (m_set m)" "states_ok ui"
    using assms by (simp_all add: s menu_ok_def)
  show ?thesis
    using ok assms(3) callback_ok [of env s sys]
    by (cases "e_type e") (simp_all add: s use_entry_def entry_fits_def session_ok_def same_tabs_def menu_ok_set
        values_ok_change_option values_ok_change_scale)
qed

lemma ctrl_entries_ok:
  assumes "menu_ok env (fst (snd s))" "states_ok (fst s)" and t: "t_entries (tabs (fst (snd s)) ! nat (tab_sel (fst (snd s)))) = Some es"
  shows "\<exists>s'. ctrl_entries env sys p es s = Some s' \<and> session_ok env s'"
proof -
  have sel: "0 \<le> menu_sel (fst (snd s))" "menu_sel (fst (snd s)) < int (length es)"
    using assms(1) t by (auto simp: menu_ok_def sel_ok_def sel_fits_def)
  have "tabs (fst (snd s)) ! nat (tab_sel (fst (snd s))) \<in> set (tabs (fst (snd s)))"
    using assms(1) by (auto simp: menu_ok_def sel_ok_def N_TABS_def)
  note fits = tab_fits [OF _ this t, of "me_adr_id env"]
  define e where "e = es ! nat (menu_sel (fst (snd s)))"
  have e: "entry_at es (menu_sel (fst (snd s))) = Some e" "e \<in> set es" "2 \<le> length es" "entry_fits (e_type e)"
    using sel fits assms(1) by (auto simp: entry_at_def e_def menu_ok_def)
  obtain ui m w where u: "use_entry env sys p e s = (ui, m, w)"
    by (metis prod_cases3)
  have ok: "session_ok env (ui, m, w)" "tabs m = tabs (fst (snd s))" "tab_sel m = tab_sel (fst (snd s))"
    using use_entry_ok [OF assms(1,2) e(4), of sys p] by (simp_all add: u same_tabs_def)
  have sel1: "0 \<le> menu_sel m" "menu_sel m < int (length es)"
    using ok t by (auto simp: session_ok_def menu_ok_def sel_ok_def sel_fits_def)
  obtain k where k: "(if going_up p then select_up es (menu_sel m) else Some (menu_sel m)) = Some k" "0 \<le> k" "k < int (length es)"
    using select_in_range(1) [OF e(3) sel1, of p] by blast
  obtain l where l: "(if going_down p then select_down es k else Some k) = Some l" "0 \<le> l" "l < int (length es)"
    using select_in_range(2) [OF e(3) k(2,3), of p] by blast
  have "session_ok env (ui, m\<lparr>menu_sel := l\<rparr>, w)"
    using ok l t by (auto simp: session_ok_def menu_ok_def sel_ok_def sel_fits_def N_TABS_def)
  moreover have "ctrl_entries env sys p es s = Some (ui, m\<lparr>menu_sel := l\<rparr>, w)"
    unfolding ctrl_entries_def e(1) by (simp add: u k(1) l(1) del: if_split)
  ultimately show ?thesis
    by blast
qed

lemma exits_ok:
  assumes "menu_ok env (fst (snd s))" "states_ok (fst s)"
  shows "menu_ok env (fst (snd (exits env sys pwr p s))) \<and> states_ok (fst (exits env sys pwr p s))"
proof -
  have step: "menu_ok env (fst (snd (if b then ExitAdrenalineMenu env sys s else s))) \<and> states_ok (fst (if b then ExitAdrenalineMenu env sys s else s))"
    if "menu_ok env (fst (snd s)) \<and> states_ok (fst s)" for b s
    using that exit_ok [of env s sys] by (cases b) simp_all
  show ?thesis
    unfolding exits_def Let_def by (intro step conjI assms)
qed

lemma change_tab_ok:
  assumes "menu_ok env m"
  shows "menu_ok env (change_tab p m)"
proof -
  have range: "0 \<le> tab_sel m'" "tab_sel m' < N_TABS m'" if "menu_ok env m'" for m'
    using that by (auto simp: menu_ok_def sel_ok_def)
  define m1 where "m1 = (if pad_on (pressed_pad p) PAD_LTRIGGER \<and> 0 < tab_sel m then m\<lparr>menu_sel := 0, tab_sel := tab_sel m - 1\<rparr> else m)"
  have "menu_ok env m1"
    using assms range [OF assms] menu_ok_tab [OF assms, of "tab_sel m - 1"] by (simp add: m1_def)
  then show ?thesis
    using range [of m1] menu_ok_tab [of env m1 "tab_sel m1 + 1"] by (simp add: change_tab_def Let_def m1_def [symmetric])
qed

lemma ctrl_states_keeps:
  assumes "ctrlStates leave sys location p ui s = Some (ui', s')" "P (fst s)" "\<And>s. P (fst s) \<Longrightarrow> P (fst (leave s))"
  shows "P (fst s')"
proof -
  have exit: "P (fst (snd (exit_menu leave sys ui s)))" if "P (fst s)" for ui s
    using assms(3) [OF that] by (simp add: exit_menu_def case_prod_beta Let_def)
  have choose: "P (fst s')" if "choose_option leave sys location ui s = Some (ui', s')" "P (fst s)" for ui s ui' s'
    using that exit [OF that(2), of ui]
    by (auto simp: choose_option_def Let_def case_prod_beta split: option_mode.splits if_splits Option.bind_splits)
  show ?thesis
    using assms(1,2)
    by (auto simp: ctrlStates_def Let_def split: option.splits if_splits Option.bind_splits dest: choose)
qed

lemma ctrl_ok:
  assumes "menu_ok env (fst (snd s))" "states_ok (fst s)"
  shows "\<exists>s'. ctrlMenu env sys pwr p s = Some s' \<and> session_ok env s'"
proof -
  obtain ui m w where e: "exits env sys pwr p s = (ui, m, w)"
    by (metis prod_cases3)
  define m1 where "m1 = (if \<not> open_options ui then change_tab p m else m)"
  have ok: "menu_ok env m1" "states_ok ui"
    using exits_ok [OF assms, of sys pwr p] change_tab_ok by (auto simp: e m1_def)
  have here: "session_ok env (ui, m1, w)"
    using ok by (simp add: session_ok_def)
  obtain ui2 m2 w2 where c: "ctrlStates (leave_menu env sys) (m_states sys) (me_location env) p ui (m1, w) = Some (ui2, m2, w2)" "states_ok ui2"
    using ctrl_states_ok [OF ok(2), of "leave_menu env sys" "m_states sys" "me_location env" p "(m1, w)"] by auto
  have keep: "menu_ok env (fst (leave_menu env sys s))" if "menu_ok env (fst s)" for s
    using leave_menu_ok [OF that, of sys] by simp
  have "menu_ok env m2"
    using ctrl_states_keeps [where P = "menu_ok env", OF c(1) _ keep] ok(1) by simp
  then have states: "session_ok env (ui2, m2, w2)"
    using c(2) by (simp add: session_ok_def)
  have "ctrlMenu env sys pwr p s =
      (if tab_sel m1 = 1 then ctrlStates (leave_menu env sys) (m_states sys) (me_location env) p ui (m1, w)
       else if t_moveable (tabs m1 ! nat (tab_sel m1))
       then case t_entries (tabs m1 ! nat (tab_sel m1)) of None \<Rightarrow> Some (ui, m1, w)
            | Some es \<Rightarrow> ctrl_entries env sys p es (ui, m1, w)
       else Some (ui, m1, w))"
    unfolding ctrlMenu_def e Let_def prod.case m1_def [symmetric] by (rule refl)
  then show ?thesis
    using here states c(1) ctrl_entries_ok [of env "(ui, m1, w)" _ sys p] ok by (auto split: option.split)
qed

lemma menu_ok_edit_tab:
  assumes "menu_ok env m" "shape_tab t = shape_tab (tabs m ! i)"
  shows "menu_ok env (m\<lparr>tabs := (tabs m)[i := t]\<rparr>)"
proof -
  let ?m = "m\<lparr>tabs := (tabs m)[i := t]\<rparr>"
  have s: "map shape_tab (tabs ?m) = map shape_tab (tabs m)"
    using map_update_same [of shape_tab t "tabs m" i] assms(2) by simp
  have "sel_ok ?m = sel_ok m"
    using s by (intro sel_ok_shape) simp_all
  then show ?thesis
    using assms(1) s by (simp add: menu_ok_def del: map_update)
qed

lemma loadstate_range: "menu_ok env m \<Longrightarrow> 0 \<le> sint (loadstate (boot_info (m_set m))) \<and> sint (loadstate (boot_info (m_set m))) < 33"
  by (auto simp: menu_ok_def values_ok_def in_limit_def dest!: spec [of _ Loadstate])

lemma no_selected_state_defined:
  assumes "menu_ok env m" "states_ok ui"
  shows "no_selected_state m ui \<noteq> None"
  using loadstate_range [OF assms(1)] assms(2)
  by (auto simp: no_selected_state_def Let_def slot_def states_defs split: option.splits)

lemma hide_ok:
  assumes "menu_ok env (fst (snd s))" "states_ok (fst s)"
  shows "\<exists>m'. hideEntries env sys s = Some (fst s, m', snd (snd s)) \<and> menu_ok env m' \<and> menu_open m' = menu_open (fst (snd s))"
proof -
  obtain ui m w where s: "s = (ui, m, w)"
    by (cases s)
  define aspect where "aspect \<longleftrightarrow> screen_scale_aspect_ratio (config (m_set m)) \<noteq> 0"
  define t where "t = edit_entry 5 (rename (if aspect then ''Screen Scale (PS1)'' else ''Screen Scale X (PS1)''))
            (edit_entry 3 (rename (if aspect then ''Screen Scale (PSP)'' else ''Screen Scale X (PSP)''))
              (edit_entry 6 (hide aspect) (edit_entry 4 (hide aspect) (tabs m ! 2))))"
  define m1 where "m1 = m\<lparr>tabs := (tabs m)[2 := t]\<rparr>"
  have m1: "menu_ok env m1" "menu_open m1 = menu_open m"
    using menu_ok_edit_tab [of env m t 2] assms(1) by (simp_all add: s m1_def t_def edit_entry_shape shape_edits)
  obtain h where h: "no_selected_state m1 ui = Some h"
    using no_selected_state_defined [of env m1 ui] m1(1) assms(2) by (auto simp: s)
  have "menu_ok env (m1\<lparr>tabs := (tabs m1)[3 := edit_entry 13 (hide g) (edit_entry 10 (hide h) (tabs m1 ! 3))]\<rparr>)" for g
    using m1(1) by (intro menu_ok_edit_tab) (simp_all add: edit_entry_shape shape_edits)
  then show ?thesis
    using m1 h unfolding s hideEntries_def by (simp add: Let_def t_def [symmetric] m1_def [symmetric] aspect_def [symmetric])
qed

lemma those_defined: "(\<And>x. x \<in> set xs \<Longrightarrow> f x \<noteq> None) \<Longrightarrow> those (map f xs) \<noteq> None"
proof (induction xs)
  case (Cons a xs)
  then obtain y where "f a = Some y"
    by fastforce
  then show ?case
    using Cons by auto
qed simp

lemma draw_ok:
  assumes "menu_ok env m" "states_ok ui"
  shows "drawMenu_reads ui m \<noteq> None"
proof (cases "t_entries (tabs m ! nat (tab_sel m))")
  case None
  then show ?thesis
    using drawn_ok [OF assms(2)] by (auto simp: drawMenu_reads_def)
next
  case (Some es)
  have t: "tabs m ! nat (tab_sel m) \<in> set (tabs m)"
    using assms(1) by (auto simp: menu_ok_def sel_ok_def N_TABS_def)
  have "option_read (m_set m) e \<noteq> None" if e: "e \<in> set es" for e
  proof -
    have f: "entry_fits (e_type e)"
      using tab_fits [OF _ t Some, of "me_adr_id env"] assms(1) e by (auto simp: menu_ok_def)
    show ?thesis
    proof (cases "e_type e")
      case (OPTION v names)
      have "in_limit (limit v) (get_setting v (m_set m))"
        using assms(1) by (simp add: menu_ok_def values_ok_def)
      then show ?thesis
        using f by (simp add: option_read_def entry_fits_def in_limit_def Let_def OPTION)
    qed (simp_all add: option_read_def)
  qed
  then have "those (map (option_read (m_set m)) (filter (\<lambda>e. \<not> e_hidden e) es)) \<noteq> None"
    by (intro those_defined) auto
  then show ?thesis
    using Some by (auto simp: drawMenu_reads_def)
qed

lemma frame_ok:
  assumes "session_ok env s" "menu_open (fst (snd s))"
  shows "\<exists>s'. menu_frame env sys i s = Some s' \<and> session_ok env s'"
proof -
  have ok: "menu_ok env (fst (snd s))" "states_ok (fst s)"
    using assms by (auto simp: session_ok_def)
  obtain m' where h: "hideEntries env sys s = Some (fst s, m', snd (snd s))" "menu_ok env m'"
    using hide_ok [OF ok, of sys] by blast
  obtain u where d: "drawMenu_reads (fst s) m' = Some u"
    using draw_ok [OF h(2) ok(2)] by auto
  show ?thesis
    using ctrl_ok [of env "(fst s, m', snd (snd s))" sys "fst i" "snd i"] h ok(2) d by (simp add: menu_frame_def)
qed

section \<open>Properties\<close>


definition menu_sample_sys :: "path list menu_sys" where
  "menu_sample_sys = \<lparr>m_states = states_sample_sys, scale_up = (\<lambda>x. x + 1), scale_down = (\<lambda>x. x - 1), scale_positive = (\<lambda>x. 0 < x),
     game_mode = (\<lambda>w. True), psp_cmd_none = (\<lambda>w. True), ScePspemuPausePops = (\<lambda>b w. w), SetPspemuFrameBuffer = (\<lambda>w. w),
     signal_settings_sema = (\<lambda>w. w), scePowerRequestSuspend = (\<lambda>w. w), launch_by_name = (\<lambda>t w. (0, w)),
     ScePspemuErrorExit = (\<lambda>w. w), ScePspemuSettingsHandler = (\<lambda>a w. (0, w)), delay_thread = (\<lambda>n w. w)\<rparr>"

definition menu_sample_env :: menu_env where
  "menu_sample_env = \<lparr>me_adr_id = False, me_titleid = ''ABCD00001'', me_location = 0\<rparr>"

definition menu_sample :: menu where
  "menu_sample = \<lparr>m_set = \<lparr>config = zero_config, boot_info = zero_boot_info, old_config = zero_config, changed = False\<rparr>,
     tabs = tab_entries_booter, tab_sel = 3, menu_sel = 3, menu_open = True, open_official_settings = False, do_action = 0,
     lock_power = False\<rparr>"

lemma menu_sample_values: "values_ok (m_set menu_sample)"
proof -
  have "in_limit (limit v) (get_setting v (m_set menu_sample))" for v
    by (cases v) (simp_all add: in_limit_def menu_sample_def zero_config_def config_of_bytes_def Let_def words_of_zero_bytes
        sizeof_AdrenalineConfig_def zero_boot_info_def boot_info_of_bytes_def sizeof_BootInfo_def)
  then show ?thesis
    by (simp add: values_ok_def)
qed

lemma menu_sample_session: "session_ok menu_sample_env (states_sample_ui, menu_sample, [])"
proof -
  have "menu_ok menu_sample_env menu_sample"
    using menu_sample_values
    by (simp add: menu_ok_def sel_ok_def sel_fits_def N_TABS_def base_tabs_def menu_sample_env_def menu_sample_def
        tab_entries_booter_def tab_def booter_settings_entries_def)
  moreover have "states_ok states_sample_ui"
    by (simp add: states_sample_ui_def states_defs)
  ultimately show ?thesis
    by (simp add: session_ok_def)
qed


lemma setBooterTabEntries_room: "setBooterTabEntries (length tab_entries) adr_id \<noteq> None \<longleftrightarrow> adr_id"
  by (simp add: setBooterTabEntries_def tab_entries_def tab_entries_booter_def)

end
