(* ===== verification/Adrenaline.thy ===== *)
theory Adrenaline
  imports CString SysCtrl Shared
begin

text \<open>
  The service of SystemControl that answers the user module, \<open>overlay/cef/systemctrl/adrenaline.c\<close>: the description
  of the running program in the shared object, the thread that executes the commands written there, and the hooks
  that are quiet while a state is saved or loaded. The PSP kernel's calls are the fields of \<open>psp_calls\<close>. The
  relation \<open>link_step\<close> interleaves this thread with the side that writes commands: one step is one access to the
  shared cell, one semaphore operation or one command.
\<close>

section \<open>The title of the program\<close>

text \<open>The layouts of \<open>PBPHeader\<close>, \<open>SFOHeader\<close> and \<open>SFODir\<close> are the SDK's; the model reads their fields through \<open>sfo_layout\<close>.\<close>

record sfo_layout =
  sizeof_PBPHeader :: nat
  pbp_ok :: "byte list \<Rightarrow> bool"
  icon0_offset :: "byte list \<Rightarrow> u32"
  param_offset :: "byte list \<Rightarrow> u32"
  sizeof_SFOHeader :: nat
  nitems :: "byte list \<Rightarrow> nat"
  fields_table_offs :: "byte list \<Rightarrow> nat"
  values_table_offs :: "byte list \<Rightarrow> nat"
  sizeof_SFODir :: nat
  field_offs :: "byte list \<Rightarrow> nat"
  val_offs :: "byte list \<Rightarrow> nat"

datatype boot_from = PSP_BOOT_DISC | PSP_BOOT_MS | PSP_BOOT_OTHER

datatype keyconfig = KEYCONFIG_VSH | KEYCONFIG_GAME | KEYCONFIG_POPS | KEYCONFIG_OTHER

record 'w info_sys =
  info_io :: "'w sceio"
  bootfrom :: boot_from
  init_file :: "path option"
  init_keyconfig :: keyconfig
  game_info :: "byte list option"
  alloc_kernel :: "u32 \<Rightarrow> 'w \<Rightarrow> int \<times> byte list \<times> 'w"
  free_kernel :: "int \<Rightarrow> 'w \<Rightarrow> 'w"

text \<open>An object of the block: reading behind the block is undefined.\<close>

definition in_block :: "nat \<Rightarrow> nat \<Rightarrow> byte list \<Rightarrow> byte list option" where
  "in_block off n block = (if off + n \<le> length block then Some (take n (drop off block)) else None)"

definition text_at :: "nat \<Rightarrow> byte list \<Rightarrow> byte list option" where
  "text_at off block = (if off \<le> length block then Some (drop off block) else None)"

function sfo_search :: "sfo_layout \<Rightarrow> byte list \<Rightarrow> nat \<Rightarrow> nat \<Rightarrow> byte list \<Rightarrow> nat \<Rightarrow> byte list option" where
  "sfo_search lay sfo count i title n =
     (if i < count
      then do {
        e \<leftarrow> in_block (sizeof_SFOHeader lay + i * sizeof_SFODir lay) (sizeof_SFODir lay) sfo;
        name \<leftarrow> text_at (fields_table_offs lay sfo + field_offs lay e) sfo;
        c \<leftarrow> strcmp name (lit ''TITLE'');
        if c = 0
        then do {
          v \<leftarrow> text_at (values_table_offs lay sfo + val_offs lay e) sfo;
          strncpy title v n }
        else sfo_search lay sfo count (i + 1) title n }
      else Some title)"
  by auto
termination
  by (relation "measure (\<lambda>(lay, sfo, count, i, title, n). count - i)") auto

declare sfo_search.simps [simp del]

definition sfo_title :: "sfo_layout \<Rightarrow> byte list \<Rightarrow> byte list \<Rightarrow> nat \<Rightarrow> byte list option" where
  "sfo_title lay sfo title n = do {
     _ \<leftarrow> in_block 0 (sizeof_SFOHeader lay) sfo;
     sfo_search lay sfo (nitems lay sfo) 0 title n }"

text \<open>The handle, the size of the parameter file and the file pointer at its start; \<open>Inl\<close> is an early return.\<close>

definition open_sfo :: "sfo_layout \<Rightarrow> 'w info_sys \<Rightarrow> byte list \<Rightarrow> 'w \<Rightarrow> ((int \<times> 'w) + (int \<times> u32 \<times> 'w)) option" where
  "open_sfo lay sys stack w =
     (let io = info_io sys
      in case bootfrom sys of
           PSP_BOOT_DISC \<Rightarrow>
             let (fd, w) = sceIoOpen io ''disc0:/PSP_GAME/PARAM.SFO'' {O_RDONLY} 0 w
             in if fd < 0 then Some (Inl (fd, w))
                else let (sz, w) = sceIoLseek io fd 0 SEEK_END w;
                         (_, w) = sceIoLseek io fd 0 SEEK_SET w
                     in Some (Inr (fd, word_of_int sz, w))
         | PSP_BOOT_MS \<Rightarrow>
             (case init_file sys of
                None \<Rightarrow> Some (Inl (-1, w))
              | Some filename \<Rightarrow>
                  let (fd, w) = sceIoOpen io filename {O_RDONLY} 0 w
                  in if fd < 0 then Some (Inl (fd, w))
                     else do {
                       let (_, data, w) = sceIoRead io fd (sizeof_PBPHeader lay) w;
                       pbp_header \<leftarrow> fill stack data;
                       if pbp_ok lay pbp_header
                       then let (_, w) = sceIoLseek io fd (uint (param_offset lay pbp_header)) SEEK_SET w
                            in Some (Inr (fd, icon0_offset lay pbp_header - param_offset lay pbp_header, w))
                       else Some (Inl (-2, snd (sceIoClose io fd w))) })
         | PSP_BOOT_OTHER \<Rightarrow> Some (Inr (-1, 0, w)))"

definition getSfoTitle :: "sfo_layout \<Rightarrow> 'w info_sys \<Rightarrow> byte list \<Rightarrow> nat \<Rightarrow> 'w \<Rightarrow> (int \<times> byte list \<times> 'w) option" where
  "getSfoTitle lay sys stack n w = do {
     let title = replicate n NUL;
     r \<leftarrow> open_sfo lay sys stack w;
     case r of
       Inl (res, w) \<Rightarrow> Some (res, title, w)
     | Inr (fd, sz, w) \<Rightarrow>
         let (blockid, raw, w) = alloc_kernel sys sz w
         in if blockid < 0 then Some (blockid, title, w)
            else do {
              let (_, data, w) = sceIoRead (info_io sys) fd (unat sz) w;
              sfo \<leftarrow> fill raw data;
              let (_, w) = sceIoClose (info_io sys) fd w;
              title \<leftarrow> sfo_title lay sfo title n;
              Some (0, title, free_kernel sys blockid w) } }"

text \<open>The object is cleared first: the commands, the mode and the registers it held are gone.\<close>

definition empty_adrenaline :: SceAdrenaline where
  "empty_adrenaline = \<lparr>a_savestate_mode = SAVESTATE_MODE_NONE, a_num = 0, a_sp = 0, a_ra = 0, a_pops_mode = False,
     a_draw_psp_screen_in_pops = False, a_title = replicate 128 NUL, a_titleid = replicate 12 NUL,
     a_filename = replicate 256 NUL, a_psp_cmd = PSP_CMD_NONE, a_vita_cmd = VITA_CMD_NONE, a_psp_response = 0, a_vita_response = VITA_RESPONSE_NONE, a_adr_id = 0,
     a_game_mode = False\<rparr>"

definition XMB :: "byte list" where
  "XMB = ''XMB'' @ [CHR 0xE2, CHR 0x84, CHR 0xA2]"

definition info_title :: "sfo_layout \<Rightarrow> 'w info_sys \<Rightarrow> byte list \<Rightarrow> 'w \<Rightarrow> (byte list \<times> 'w) option" where
  "info_title lay sys stack w =
     (case init_keyconfig sys of
        KEYCONFIG_GAME \<Rightarrow> map_option snd (getSfoTitle lay sys stack 128 w)
      | KEYCONFIG_POPS \<Rightarrow> map_option snd (getSfoTitle lay sys stack 128 w)
      | KEYCONFIG_VSH \<Rightarrow> map_option (\<lambda>t. (t, w)) (strcpy (replicate 128 NUL) (lit XMB))
      | KEYCONFIG_OTHER \<Rightarrow> map_option (\<lambda>t. (t, w)) (strcpy (replicate 128 NUL) (lit ''Unknown'')))"

definition initAdrenalineInfo :: "sfo_layout \<Rightarrow> 'w info_sys \<Rightarrow> byte list \<Rightarrow> 'w \<Rightarrow> (SceAdrenaline \<times> 'w) option" where
  "initAdrenalineInfo lay sys stack w = do {
     let a = empty_adrenaline;
     (title, w) \<leftarrow> info_title lay sys stack w;
     titleid \<leftarrow> (case game_info sys of
                   None \<Rightarrow> Some (a_titleid a)
                 | Some info \<Rightarrow> do { src \<leftarrow> text_at 0x44 info; strcpy (a_titleid a) src });
     filename \<leftarrow> (case init_file sys of None \<Rightarrow> Some (a_filename a) | Some f \<Rightarrow> strcpy (a_filename a) (lit f));
     Some (a\<lparr>a_title := title, a_titleid := titleid, a_filename := filename,
             a_pops_mode := (init_keyconfig sys = KEYCONFIG_POPS), a_game_mode := (init_keyconfig sys = KEYCONFIG_GAME)\<rparr>, w) }"

section \<open>The commands\<close>

record SasInitArguments =
  sasCore :: int
  grainSamples :: int
  maxVoices :: int
  outMode :: int
  sampleRate :: int

record 'w psp_calls =
  thread_calls :: "'w thread_sys"
  insert_ms :: "'w \<Rightarrow> 'w"
  scePowerSuspendOperation :: "int \<Rightarrow> 'w \<Rightarrow> 'w"
  load_start_module :: "path \<Rightarrow> 'w \<Rightarrow> 'w"
  sceKernelExitVSHVSH661 :: "'w \<Rightarrow> 'w"
  sceSasCoreInit :: "'w \<Rightarrow> 'w"
  sceSasCoreExit :: "'w \<Rightarrow> 'w"
  sceSasInit :: "SasInitArguments \<Rightarrow> 'w \<Rightarrow> int \<times> 'w"
  sas_patched :: bool
  init_pops_peripheral :: "('w \<Rightarrow> 'w) option"

record psp =
  shared :: SceAdrenaline
  tctl :: threadctrl
  sas_args :: SasInitArguments
  sas_inited :: bool

definition with_mode :: "savestate_mode \<Rightarrow> psp \<Rightarrow> psp" where
  "with_mode m s = s\<lparr>shared := (shared s)\<lparr>a_savestate_mode := m\<rparr>\<rparr>"

definition with_cmd :: "psp_cmd \<Rightarrow> psp \<Rightarrow> psp" where
  "with_cmd c s = s\<lparr>shared := (shared s)\<lparr>a_psp_cmd := c\<rparr>\<rparr>"

definition with_threads :: "(threadctrl \<times> 'w \<Rightarrow> (threadctrl \<times> 'w) option) \<Rightarrow> psp \<times> 'w \<Rightarrow> (psp \<times> 'w) option" where
  "with_threads f s = (let (p, w) = s in do { (c, w) \<leftarrow> f (tctl p, w); Some (p\<lparr>tctl := c\<rparr>, w) })"

text \<open>The branch of a command behind the store that clears the cell, which the last four commands have.\<close>

definition clears_cmd :: "psp_cmd \<Rightarrow> bool" where
  "clears_cmd c \<longleftrightarrow> c \<in> {PSP_CMD_RESTART_BOOTER, PSP_CMD_EXIT_VSH, PSP_CMD_SUSPEND, PSP_CMD_RESUME}"

fun run_command :: "'w psp_calls \<Rightarrow> psp_cmd \<Rightarrow> psp \<times> 'w \<Rightarrow> (psp \<times> 'w) option" where
  "run_command sys PSP_CMD_NONE (p, w) = Some (p, w)"
| "run_command sys PSP_CMD_REINSERT_MS (p, w) = Some (p, insert_ms sys w)"
| "run_command sys PSP_CMD_SAVESTATE (p, w) = Some (with_mode SAVESTATE_MODE_SAVE p, scePowerSuspendOperation sys 0x202 w)"
| "run_command sys PSP_CMD_LOADSTATE (p, w) = Some (with_mode SAVESTATE_MODE_LOAD p, scePowerSuspendOperation sys 0x202 w)"
| "run_command sys PSP_CMD_RESTART_BOOTER (p, w) =
     do { (p, w) \<leftarrow> with_threads (ResumeThreads (thread_calls sys)) (p, w); Some (p, load_start_module sys ''flash0:/kd/booter.prx'' w) }"
| "run_command sys PSP_CMD_EXIT_VSH (p, w) =
     do { (p, w) \<leftarrow> with_threads (ResumeThreads (thread_calls sys)) (p, w); Some (p, sceKernelExitVSHVSH661 sys w) }"
| "run_command sys PSP_CMD_SUSPEND (p, w) = with_threads (SuspendThreads (thread_calls sys)) (p, w)"
| "run_command sys PSP_CMD_RESUME (p, w) = with_threads (ResumeThreads (thread_calls sys)) (p, w)"

text \<open>One turn of the thread's loop without the other side in between.\<close>

definition adrenaline_turn :: "'w psp_calls \<Rightarrow> psp \<times> 'w \<Rightarrow> (psp \<times> 'w) option" where
  "adrenaline_turn sys s =
     (let (p, w) = s; c = a_psp_cmd (shared p)
      in run_command sys c (if clears_cmd c then with_cmd PSP_CMD_NONE p else p, w))"

section \<open>The sound core and the hooks of a save state\<close>

definition sceSasInitPatched :: "'w psp_calls \<Rightarrow> SasInitArguments \<Rightarrow> psp \<times> 'w \<Rightarrow> int \<times> psp \<times> 'w" where
  "sceSasInitPatched sys a s =
     (let (p, w) = s; (res, w) = sceSasInit sys a w in (res, p\<lparr>sas_args := a, sas_inited := True\<rparr>, w))"

definition ReInitSasCore :: "'w psp_calls \<Rightarrow> psp \<times> 'w \<Rightarrow> psp \<times> 'w" where
  "ReInitSasCore sys s =
     (let (p, w) = s
      in if sas_patched sys \<and> sas_inited p
         then (p, snd (sceSasInit sys (sas_args p) (sceSasCoreInit sys (sceSasCoreExit sys w)))) else (p, w))"

definition SysEventHandler :: "'w psp_calls \<Rightarrow> int \<Rightarrow> psp \<times> 'w \<Rightarrow> psp \<times> 'w" where
  "SysEventHandler sys ev_id s =
     (let (p, w) = s
      in if ev_id = 0x400000 \<and> a_savestate_mode (shared p) \<noteq> SAVESTATE_MODE_NONE
         then let (p, w) = ReInitSasCore sys (with_mode SAVESTATE_MODE_NONE p, w)
              in (p, if a_pops_mode (shared p)
                     then case init_pops_peripheral sys of None \<Rightarrow> w | Some f \<Rightarrow> f w
                     else w)
         else (p, w))"

definition quiet_in_savestate :: "('w \<Rightarrow> int \<times> 'w) \<Rightarrow> psp \<times> 'w \<Rightarrow> int \<times> psp \<times> 'w" where
  "quiet_in_savestate f s =
     (let (p, w) = s
      in if a_savestate_mode (shared p) \<noteq> SAVESTATE_MODE_NONE then (0, p, w) else let (res, w) = f w in (res, p, w))"

definition SetFlag1Patched :: "('w \<Rightarrow> int \<times> 'w) \<Rightarrow> psp \<times> 'w \<Rightarrow> int \<times> psp \<times> 'w" where
  "SetFlag1Patched SetFlag1 s = quiet_in_savestate SetFlag1 s"

definition SetFlag2Patched :: "('w \<Rightarrow> int \<times> 'w) \<Rightarrow> psp \<times> 'w \<Rightarrow> int \<times> psp \<times> 'w" where
  "SetFlag2Patched SetFlag2 s = quiet_in_savestate SetFlag2 s"

definition sceKermitSyncDisplayPatched :: "('w \<Rightarrow> int \<times> 'w) \<Rightarrow> psp \<times> 'w \<Rightarrow> int \<times> psp \<times> 'w" where
  "sceKermitSyncDisplayPatched sceKermitSyncDisplay s = quiet_in_savestate sceKermitSyncDisplay s"

text \<open>
  The argument of \<open>uiResumePoint\<close> has 53 words. With a state to save or load the binary runs and the console resumes
  from there: the call does not come back to its caller (\<open>Inl\<close>).
\<close>

definition resume_point :: "u32 list" where
  "resume_point = (replicate 53 0)[0 := 53 * 4, 8 := 0xFFFF, 9 := 0x2, 12 := 0x4B0]"

definition VitaSyncPatched :: "('w \<Rightarrow> 'w) \<Rightarrow> (u32 list \<Rightarrow> 'w \<Rightarrow> 'w) \<Rightarrow> ('w \<Rightarrow> 'w) \<Rightarrow> psp \<times> 'w \<Rightarrow> (psp \<times> 'w) + (psp \<times> 'w)" where
  "VitaSyncPatched SaveStateBinary uiResumePoint VitaSync s =
     (let (p, w) = s
      in if a_savestate_mode (shared p) \<noteq> SAVESTATE_MODE_NONE
         then Inl (p, uiResumePoint resume_point (SaveStateBinary w))
         else Inr (p, VitaSync w))"

section \<open>Both sides interleaved\<close>

datatype pc = Waiting | Reading | Dispatched psp_cmd | Acting psp_cmd

record 'w link =
  psp_side :: psp
  world :: 'w
  raised :: bool
  semaphore :: nat
  pc :: pc

datatype event = Sent psp_cmd | Ran psp_cmd

text \<open>
  \<open>write_cmd\<close> and \<open>interrupt\<close> are \<open>SendAdrenalineRequest\<close> of the user module; the interrupt runs
  \<open>adrenaline_interrupt\<close>, whose semaphore holds at most one. The other rules are the thread. Each step has at most
  one event.
\<close>

inductive link_step :: "'w psp_calls \<Rightarrow> event list \<Rightarrow> 'w link \<Rightarrow> 'w link \<Rightarrow> bool" for sys :: "'w psp_calls" where
  write_cmd: "\<not> raised s \<Longrightarrow> link_step sys [Sent c] s (s\<lparr>psp_side := with_cmd c (psp_side s), raised := True\<rparr>)"
| interrupt: "raised s \<Longrightarrow> link_step sys [] s (s\<lparr>raised := False, semaphore := 1\<rparr>)"
| wait: "pc s = Waiting \<Longrightarrow> semaphore s = 1 \<Longrightarrow> link_step sys [] s (s\<lparr>pc := Reading, semaphore := 0\<rparr>)"
| read: "pc s = Reading \<Longrightarrow> link_step sys [] s (s\<lparr>pc := Dispatched (a_psp_cmd (shared (psp_side s)))\<rparr>)"
| clear: "pc s = Dispatched c \<Longrightarrow>
    link_step sys [] s (s\<lparr>psp_side := if clears_cmd c then with_cmd PSP_CMD_NONE (psp_side s) else psp_side s, pc := Acting c\<rparr>)"
| act: "pc s = Acting c \<Longrightarrow> run_command sys c (psp_side s, world s) = Some (p, w) \<Longrightarrow>
    link_step sys [Ran c] s (s\<lparr>psp_side := p, world := w, pc := Waiting\<rparr>)"

inductive link_runs :: "'w psp_calls \<Rightarrow> event list \<Rightarrow> 'w link \<Rightarrow> 'w link \<Rightarrow> bool" for sys :: "'w psp_calls" where
  refl: "link_runs sys [] s s"
| step: "link_runs sys es s s' \<Longrightarrow> link_step sys e s' s'' \<Longrightarrow> link_runs sys (es @ e) s s''"

section \<open>Commands that are waited for\<close>

text \<open>The idle link, and the runs in which a command is only sent when the one before has been executed.\<close>

definition idle :: "'w link \<Rightarrow> bool" where
  "idle s \<longleftrightarrow> pc s = Waiting \<and> semaphore s = 0 \<and> \<not> raised s"

inductive paced_runs :: "'w psp_calls \<Rightarrow> event list \<Rightarrow> 'w link \<Rightarrow> 'w link \<Rightarrow> bool" for sys :: "'w psp_calls" where
  refl: "paced_runs sys [] s s"
| step: "paced_runs sys es s s' \<Longrightarrow> link_step sys e s' s'' \<Longrightarrow> (\<And>c. e = [Sent c] \<Longrightarrow> idle s') \<Longrightarrow> paced_runs sys (es @ e) s s''"

fun sent :: "event list \<Rightarrow> psp_cmd list" where
  "sent [] = []" | "sent (Sent c # es) = c # sent es" | "sent (Ran c # es) = sent es"

fun ran :: "event list \<Rightarrow> psp_cmd list" where
  "ran [] = []" | "ran (Sent c # es) = ran es" | "ran (Ran c # es) = c # ran es"

text \<open>The abstract link executes a command as soon as it is sent.\<close>

definition deliver :: "'w psp_calls \<Rightarrow> psp_cmd \<Rightarrow> psp \<times> 'w \<Rightarrow> (psp \<times> 'w) option" where
  "deliver sys c s = (let (p, w) = s in adrenaline_turn sys (with_cmd c p, w))"

fun deliver_all :: "'w psp_calls \<Rightarrow> psp_cmd list \<Rightarrow> psp \<times> 'w \<Rightarrow> (psp \<times> 'w) option" where
  "deliver_all sys [] s = Some s"
| "deliver_all sys (c # cs) s = do { s \<leftarrow> deliver sys c s; deliver_all sys cs s }"

lemma sent_append [simp]: "sent (es @ es') = sent es @ sent es'"
  by (induction es rule: sent.induct) auto

lemma ran_append [simp]: "ran (es @ es') = ran es @ ran es'"
  by (induction es rule: ran.induct) auto

lemma deliver_all_append: "deliver_all sys (cs @ [c]) s = do { s \<leftarrow> deliver_all sys cs s; deliver sys c s }"
  by (induction cs arbitrary: s) (auto split: Option.bind_splits)

lemma cmd_of_with_cmd [simp]: "a_psp_cmd (shared (with_cmd c p)) = c"
  by (simp add: with_cmd_def)

text \<open>\<open>p\<close> is the state before the pending command was written, \<open>posted\<close> after it.\<close>

definition posted :: "psp_cmd \<Rightarrow> psp \<Rightarrow> 'w link \<Rightarrow> bool" where
  "posted c p s \<longleftrightarrow>
     (psp_side s = with_cmd c p \<and>
        (raised s \<and> semaphore s = 0 \<and> pc s = Waiting
         \<or> \<not> raised s \<and> semaphore s = 1 \<and> pc s = Waiting
         \<or> \<not> raised s \<and> semaphore s = 0 \<and> (pc s = Reading \<or> pc s = Dispatched c))
      \<or> psp_side s = (if clears_cmd c then with_cmd PSP_CMD_NONE (with_cmd c p) else with_cmd c p)
        \<and> \<not> raised s \<and> semaphore s = 0 \<and> pc s = Acting c)"

definition tracks :: "'w psp_calls \<Rightarrow> event list \<Rightarrow> 'w link \<Rightarrow> 'w link \<Rightarrow> bool" where
  "tracks sys es s0 s \<longleftrightarrow>
     (\<exists>p. deliver_all sys (ran es) (psp_side s0, world s0) = Some (p, world s)
        \<and> (idle s \<and> psp_side s = p \<and> sent es = ran es \<or> (\<exists>c. posted c p s \<and> sent es = ran es @ [c])))"

lemma tracks_idle:
  assumes "link_step sys e s s'" "idle s" "deliver_all sys (ran es) (psp_side s0, world s0) = Some (psp_side s, world s)" "sent es = ran es"
  shows "tracks sys (es @ e) s0 s'"
  using assms by (cases rule: link_step.cases) (auto simp: idle_def tracks_def posted_def)

lemma tracks_posted:
  assumes "link_step sys e s s'" "posted c p s" "\<And>c. e \<noteq> [Sent c]"
    and "deliver_all sys (ran es) (psp_side s0, world s0) = Some (p, world s)" "sent es = ran es @ [c]"
  shows "tracks sys (es @ e) s0 s'"
  using assms(1)
proof (cases rule: link_step.cases)
  case (act c' p' w')
  then have "c' = c" "psp_side s = (if clears_cmd c then with_cmd PSP_CMD_NONE (with_cmd c p) else with_cmd c p)"
    using assms(2) by (auto simp: posted_def)
  moreover have "\<not> raised s" "semaphore s = 0"
    using assms(2) act by (auto simp: posted_def)
  moreover have "deliver sys c (p, world s) = Some (p', w')"
    using act calculation by (simp add: deliver_def adrenaline_turn_def)
  ultimately show ?thesis
    using act assms(4,5) by (auto simp: tracks_def idle_def deliver_all_append)
qed (use assms in \<open>auto simp: posted_def tracks_def\<close>)

lemma paced_tracks:
  assumes "paced_runs sys es s0 s" "idle s0"
  shows "tracks sys es s0 s"
  using assms
proof (induction rule: paced_runs.induct)
  case (refl s)
  then show ?case
    by (simp add: tracks_def)
next
  case (step es s s' e s'')
  then obtain p where p: "deliver_all sys (ran es) (psp_side s, world s) = Some (p, world s')"
    "idle s' \<and> psp_side s' = p \<and> sent es = ran es \<or> (\<exists>c. posted c p s' \<and> sent es = ran es @ [c])"
    by (auto simp: tracks_def)
  show ?case
  proof (cases "idle s'")
    case True
    then have "psp_side s' = p" "sent es = ran es"
      using p(2) by (auto simp: posted_def idle_def)
    then show ?thesis
      using tracks_idle [OF step.hyps(2) True, of es s] p(1) by simp
  next
    case False
    then obtain c where "posted c p s'" "sent es = ran es @ [c]"
      using p(2) by auto
    then show ?thesis
      using tracks_posted [OF step.hyps(2), of c p es s] p(1) step.hyps(3) False by blast
  qed
qed

section \<open>Commands that are not\<close>

lemma runs_step: "link_runs sys es s s' \<Longrightarrow> link_step sys e s' s'' \<Longrightarrow> es' = es @ e \<Longrightarrow> link_runs sys es' s s''"
  by (auto intro: link_runs.step)

lemma runs_first: "link_step sys e s s' \<Longrightarrow> link_runs sys e s s'"
  using link_runs.step [OF link_runs.refl] by fastforce

lemma idle_waits: "link_step sys e s s' \<Longrightarrow> idle s \<Longrightarrow> \<exists>c. e = [Sent c]"
  by (cases rule: link_step.cases) (auto simp: idle_def)

lemma posted_twice:
  assumes "idle s"
  shows "link_runs sys [Sent a, Sent b] s (s\<lparr>psp_side := with_cmd b (with_cmd a (psp_side s)), semaphore := 1\<rparr>)"
proof -
  let ?p = "psp_side s"
  have 1: "link_runs sys [Sent a] s (s\<lparr>psp_side := with_cmd a ?p, raised := True\<rparr>)"
    using assms by (intro runs_first write_cmd) (simp add: idle_def)
  have 2: "link_runs sys [Sent a] s (s\<lparr>psp_side := with_cmd a ?p, raised := False, semaphore := 1\<rparr>)"
    using runs_step [OF 1 interrupt] by (cases s) simp
  have 3: "link_runs sys [Sent a, Sent b] s (s\<lparr>psp_side := with_cmd b (with_cmd a ?p), raised := True, semaphore := 1\<rparr>)"
    using runs_step [OF 2 write_cmd [of _ _ b]] by (cases s) simp
  show ?thesis
    using runs_step [OF 3 interrupt] assms by (cases s) (simp add: idle_def)
qed

lemma turn_runs:
  assumes "pc s = Waiting" "semaphore s = 1" "a_psp_cmd (shared (psp_side s)) = c" "adrenaline_turn sys (psp_side s, world s) = Some (p, w)"
  shows "link_runs sys [Ran c] s (s\<lparr>psp_side := p, world := w, semaphore := 0\<rparr>)"
proof -
  let ?q = "if clears_cmd c then with_cmd PSP_CMD_NONE (psp_side s) else psp_side s"
  have 1: "link_runs sys [] s (s\<lparr>pc := Reading, semaphore := 0\<rparr>)"
    using assms(1,2) by (intro runs_first wait) simp_all
  have 2: "link_runs sys [] s (s\<lparr>pc := Dispatched c, semaphore := 0\<rparr>)"
    using runs_step [OF 1 read] assms(3) by (cases s) simp
  have 3: "link_runs sys [] s (s\<lparr>psp_side := ?q, pc := Acting c, semaphore := 0\<rparr>)"
    using runs_step [OF 2 clear [of _ c]] by (cases s; cases "clears_cmd c") simp_all
  have "run_command sys c (?q, world s) = Some (p, w)"
    using assms(3,4) by (simp add: adrenaline_turn_def)
  then show ?thesis
    using runs_step [OF 3 act [of _ c sys p w]] assms(1) by (cases s) simp
qed

lemma runs_append: "link_runs sys es' s' s'' \<Longrightarrow> link_runs sys es s s' \<Longrightarrow> link_runs sys (es @ es') s s''"
  by (induction rule: link_runs.induct) (auto intro: runs_step)

lemma posted_in_the_race:
  assumes "idle s" "run_command sys PSP_CMD_SUSPEND (with_cmd PSP_CMD_NONE (with_cmd PSP_CMD_RESUME (with_cmd PSP_CMD_SUSPEND (psp_side s))), world s) = Some (p, w)"
  shows "link_runs sys [Sent PSP_CMD_SUSPEND, Sent PSP_CMD_RESUME, Ran PSP_CMD_SUSPEND] s (s\<lparr>psp_side := p, world := w, semaphore := 1\<rparr>)"
proof -
  let ?a = "with_cmd PSP_CMD_SUSPEND (psp_side s)" and ?b = "with_cmd PSP_CMD_RESUME (with_cmd PSP_CMD_SUSPEND (psp_side s))"
  have 1: "link_runs sys [Sent PSP_CMD_SUSPEND] s (s\<lparr>psp_side := ?a, raised := True\<rparr>)"
    using assms by (intro runs_first write_cmd) (simp add: idle_def)
  have 2: "link_runs sys [Sent PSP_CMD_SUSPEND] s (s\<lparr>psp_side := ?a, raised := False, semaphore := 1\<rparr>)"
    using runs_step [OF 1 interrupt] by (cases s) simp
  have 3: "link_runs sys [Sent PSP_CMD_SUSPEND] s (s\<lparr>psp_side := ?a, raised := False, semaphore := 0, pc := Reading\<rparr>)"
    using runs_step [OF 2 wait] assms(1) by (cases s) (simp add: idle_def)
  have 4: "link_runs sys [Sent PSP_CMD_SUSPEND] s (s\<lparr>psp_side := ?a, raised := False, semaphore := 0, pc := Dispatched PSP_CMD_SUSPEND\<rparr>)"
    using runs_step [OF 3 read] by (cases s) simp
  have 5: "link_runs sys [Sent PSP_CMD_SUSPEND, Sent PSP_CMD_RESUME] s
      (s\<lparr>psp_side := ?b, raised := True, semaphore := 0, pc := Dispatched PSP_CMD_SUSPEND\<rparr>)"
    using runs_step [OF 4 write_cmd [of _ _ PSP_CMD_RESUME]] by (cases s) simp
  have 6: "link_runs sys [Sent PSP_CMD_SUSPEND, Sent PSP_CMD_RESUME] s
      (s\<lparr>psp_side := ?b, raised := False, semaphore := 1, pc := Dispatched PSP_CMD_SUSPEND\<rparr>)"
    using runs_step [OF 5 interrupt] by (cases s) simp
  have 7: "link_runs sys [Sent PSP_CMD_SUSPEND, Sent PSP_CMD_RESUME] s
      (s\<lparr>psp_side := with_cmd PSP_CMD_NONE ?b, raised := False, semaphore := 1, pc := Acting PSP_CMD_SUSPEND\<rparr>)"
    using runs_step [OF 6 clear [of _ PSP_CMD_SUSPEND]] by (cases s) (simp add: clears_cmd_def)
  show ?thesis
    using runs_step [OF 7 act [of _ PSP_CMD_SUSPEND sys p w]] assms by (cases s) (simp add: idle_def)
qed

section \<open>Properties\<close>

text \<open>
  C28: commands that are waited for are executed. When a command is only sent after the one before has been executed,
  the thread executes exactly the commands sent, in their order, and the state and the world are those of executing
  each one at once.
\<close>

theorem commands_paced:
  assumes "paced_runs sys es s0 s" and "idle s0" and "idle s"
  shows "ran es = sent es \<and> deliver_all sys (sent es) (psp_side s0, world s0) = Some (psp_side s, world s)"
  using paced_tracks [OF assms(1,2)] assms(3) by (auto simp: tracks_def posted_def idle_def)

text \<open>
  Commands that are not waited for can be lost. Of two commands sent in a row only the second may be executed,
  and a command that is written while the thread takes up the one before is cleared unread: after a suspension and a
  resumption in a row the threads may stay suspended, with nothing left to do for the thread.
\<close>

theorem commands_lost:
  assumes "idle s" and "SuspendThreads (thread_calls sys) (tctl (psp_side s), world s) = Some (tc, w)"
  shows "(\<exists>s'. link_runs sys [Sent PSP_CMD_RESUME, Sent PSP_CMD_REINSERT_MS, Ran PSP_CMD_REINSERT_MS] s s'
      \<and> idle s' \<and> tctl (psp_side s') = tctl (psp_side s) \<and> world s' = insert_ms sys (world s))
    \<and> (\<exists>s'. link_runs sys [Sent PSP_CMD_SUSPEND, Sent PSP_CMD_RESUME, Ran PSP_CMD_SUSPEND, Ran PSP_CMD_NONE] s s'
      \<and> idle s' \<and> tctl (psp_side s') = tc \<and> world s' = w)"
proof (intro conjI)
  let ?s1 = "s\<lparr>psp_side := with_cmd PSP_CMD_REINSERT_MS (with_cmd PSP_CMD_RESUME (psp_side s)), semaphore := 1\<rparr>"
  have "link_runs sys [Ran PSP_CMD_REINSERT_MS] ?s1 (?s1\<lparr>psp_side := psp_side ?s1, world := insert_ms sys (world s), semaphore := 0\<rparr>)"
    using assms(1) by (intro turn_runs) (simp_all add: adrenaline_turn_def clears_cmd_def idle_def)
  from runs_append [OF this posted_twice [OF assms(1)]]
  show "\<exists>s'. link_runs sys [Sent PSP_CMD_RESUME, Sent PSP_CMD_REINSERT_MS, Ran PSP_CMD_REINSERT_MS] s s'
      \<and> idle s' \<and> tctl (psp_side s') = tctl (psp_side s) \<and> world s' = insert_ms sys (world s)"
    using assms(1) by (intro exI conjI) (assumption | simp add: idle_def with_cmd_def)+
  let ?p = "(with_cmd PSP_CMD_NONE (with_cmd PSP_CMD_RESUME (with_cmd PSP_CMD_SUSPEND (psp_side s))))\<lparr>tctl := tc\<rparr>"
  let ?s2 = "s\<lparr>psp_side := ?p, world := w, semaphore := 1\<rparr>"
  have r: "run_command sys PSP_CMD_SUSPEND (with_cmd PSP_CMD_NONE (with_cmd PSP_CMD_RESUME (with_cmd PSP_CMD_SUSPEND (psp_side s))), world s)
      = Some (?p, w)"
    using assms(2) by (simp add: with_threads_def with_cmd_def)
  have "link_runs sys [Ran PSP_CMD_NONE] ?s2 (?s2\<lparr>psp_side := psp_side ?s2, world := w, semaphore := 0\<rparr>)"
    using assms(1) by (intro turn_runs) (simp_all add: adrenaline_turn_def clears_cmd_def idle_def with_cmd_def)
  from runs_append [OF this posted_in_the_race [OF assms(1) r]]
  show "\<exists>s'. link_runs sys [Sent PSP_CMD_SUSPEND, Sent PSP_CMD_RESUME, Ran PSP_CMD_SUSPEND, Ran PSP_CMD_NONE] s s'
      \<and> idle s' \<and> tctl (psp_side s') = tc \<and> world s' = w"
    using assms(1) by (intro exI conjI) (assumption | simp add: idle_def with_cmd_def)+
qed

text \<open>A console with one thread next to the first one; its world lists the suspended threads and the cards inserted.\<close>

definition console_calls :: "(int list \<times> nat) psp_calls" where
  "console_calls = \<lparr>thread_calls = \<lparr>sceKernelGetThreadmanIdList = (\<lambda>n w. ([10, 11], 2)),
       sceKernelReferThreadStatus = (\<lambda>t w. (0, \<lparr>status = 4\<rparr>)),
       sceKernelSuspendThread = (\<lambda>t w. (t # fst w, snd w)), sceKernelResumeThread = (\<lambda>t w. (removeAll t (fst w), snd w)),
       THREAD_RUNNING = 1, THREAD_SUSPEND = 8\<rparr>,
     insert_ms = (\<lambda>w. (fst w, Suc (snd w))), scePowerSuspendOperation = (\<lambda>n w. w), load_start_module = (\<lambda>p w. w),
     sceKernelExitVSHVSH661 = (\<lambda>w. w), sceSasCoreInit = (\<lambda>w. w), sceSasCoreExit = (\<lambda>w. w), sceSasInit = (\<lambda>a w. (0, w)),
     sas_patched = True, init_pops_peripheral = None\<rparr>"

definition console_psp :: psp where
  "console_psp = \<lparr>shared = empty_adrenaline, tctl = \<lparr>threads = replicate 32 (-1), thread_count = 0, suspended_count = 0\<rparr>,
     sas_args = \<lparr>sasCore = 0, grainSamples = 0, maxVoices = 0, outMode = 0, sampleRate = 0\<rparr>, sas_inited = False\<rparr>"

definition console_link :: "(int list \<times> nat) link" where
  "console_link = \<lparr>psp_side = console_psp, world = ([], 0), raised = False, semaphore = 0, pc = Waiting\<rparr>"

definition console_suspended :: threadctrl where
  "console_suspended = \<lparr>threads = [10, 11] @ replicate 30 (-1), thread_count = 2, suspended_count = 2\<rparr>"

lemma console_idle: "idle console_link"
  by (simp add: idle_def console_link_def)

lemma console_suspends:
  "SuspendThreads (thread_calls console_calls) (tctl console_psp, ([], 0)) = Some (console_suspended, ([11], 0))"
  by (simp add: SuspendThreads_def console_calls_def console_psp_def console_suspended_def keeps_thread_def
      MAX_THREADS_def numeral_2_eq_2)

theorem commands_lost_witness:
  "\<exists>s'. link_runs console_calls [Sent PSP_CMD_SUSPEND, Sent PSP_CMD_RESUME, Ran PSP_CMD_SUSPEND, Ran PSP_CMD_NONE] console_link s'
      \<and> idle s' \<and> world s' = ([11], 0)"
proof -
  have h: "SuspendThreads (thread_calls console_calls) (tctl (psp_side console_link), world console_link)
      = Some (console_suspended, ([11], 0))"
    using console_suspends by (simp add: console_link_def)
  show ?thesis
    using commands_lost [OF console_idle h] by blast
qed

theorem commands_paced_witness:
  "\<exists>s. paced_runs console_calls [Sent PSP_CMD_REINSERT_MS, Ran PSP_CMD_REINSERT_MS] console_link s \<and> idle s
     \<and> deliver_all console_calls [PSP_CMD_REINSERT_MS] (console_psp, ([], 0)) = Some (psp_side s, world s) \<and> world s = ([], 1)"
proof -
  let ?s = "console_link"
  let ?p = "with_cmd PSP_CMD_REINSERT_MS console_psp"
  have 1: "paced_runs console_calls [Sent PSP_CMD_REINSERT_MS] ?s (?s\<lparr>psp_side := ?p, raised := True\<rparr>)"
    using paced_runs.step [OF paced_runs.refl write_cmd [where s = ?s]] console_idle by (fastforce simp: console_link_def)
  have 2: "paced_runs console_calls [Sent PSP_CMD_REINSERT_MS] ?s (?s\<lparr>psp_side := ?p, semaphore := 1\<rparr>)"
    using paced_runs.step [OF 1 interrupt] by (simp add: console_link_def)
  have 3: "paced_runs console_calls [Sent PSP_CMD_REINSERT_MS] ?s (?s\<lparr>psp_side := ?p, pc := Reading\<rparr>)"
    using paced_runs.step [OF 2 wait] by (simp add: console_link_def)
  have 4: "paced_runs console_calls [Sent PSP_CMD_REINSERT_MS] ?s (?s\<lparr>psp_side := ?p, pc := Dispatched PSP_CMD_REINSERT_MS\<rparr>)"
    using paced_runs.step [OF 3 read] by (simp add: console_link_def)
  have 5: "paced_runs console_calls [Sent PSP_CMD_REINSERT_MS] ?s (?s\<lparr>psp_side := ?p, pc := Acting PSP_CMD_REINSERT_MS\<rparr>)"
    using paced_runs.step [OF 4 clear [where c = PSP_CMD_REINSERT_MS]] by (simp add: console_link_def clears_cmd_def)
  have 6: "paced_runs console_calls [Sent PSP_CMD_REINSERT_MS, Ran PSP_CMD_REINSERT_MS] ?s (?s\<lparr>psp_side := ?p, world := ([], 1)\<rparr>)"
    using paced_runs.step [OF 5 act [where c = PSP_CMD_REINSERT_MS and p = ?p and w = "([], 1)"]]
    by (simp add: console_link_def console_calls_def)
  have i: "idle (?s\<lparr>psp_side := ?p, world := ([], 1)\<rparr>)"
    by (simp add: idle_def console_link_def)
  show ?thesis
    using commands_paced [OF 6 console_idle i] 6 i by (force simp: console_link_def)
qed

section \<open>The title\<close>

definition sfo_name :: "sfo_layout \<Rightarrow> byte list \<Rightarrow> nat \<Rightarrow> byte list option" where
  "sfo_name lay sfo i = do {
     e \<leftarrow> in_block (sizeof_SFOHeader lay + i * sizeof_SFODir lay) (sizeof_SFODir lay) sfo;
     text_at (fields_table_offs lay sfo + field_offs lay e) sfo }"

definition sfo_value :: "sfo_layout \<Rightarrow> byte list \<Rightarrow> nat \<Rightarrow> byte list option" where
  "sfo_value lay sfo i = do {
     e \<leftarrow> in_block (sizeof_SFOHeader lay + i * sizeof_SFODir lay) (sizeof_SFODir lay) sfo;
     text_at (values_table_offs lay sfo + val_offs lay e) sfo }"

text \<open>Entry \<open>k\<close> is the first one called TITLE, and the entries before it have names.\<close>

definition title_entry :: "sfo_layout \<Rightarrow> byte list \<Rightarrow> nat \<Rightarrow> byte list \<Rightarrow> bool" where
  "title_entry lay sfo k v \<longleftrightarrow>
     sizeof_SFOHeader lay \<le> length sfo \<and> k < nitems lay sfo
     \<and> list_all (\<lambda>i. \<exists>name. sfo_name lay sfo i = Some name \<and> terminated name \<and> cstr name \<noteq> ''TITLE'') [0..<k]
     \<and> (\<exists>name. sfo_name lay sfo k = Some name \<and> terminated name \<and> cstr name = ''TITLE'')
     \<and> sfo_value lay sfo k = Some v \<and> terminated v"

lemma sfo_search_found:
  assumes "title_entry lay sfo k v" "i \<le> k" "length title = n"
  shows "sfo_search lay sfo (nitems lay sfo) i title n = Some (pad_to n (take n (cstr v)))"
  using assms(2)
proof (induction "k - i" arbitrary: i)
  case 0
  then have i: "i = k" "i < nitems lay sfo"
    using assms(1) by (simp_all add: title_entry_def)
  obtain e name where e: "in_block (sizeof_SFOHeader lay + k * sizeof_SFODir lay) (sizeof_SFODir lay) sfo = Some e"
    "text_at (fields_table_offs lay sfo + field_offs lay e) sfo = Some name" "terminated name" "cstr name = ''TITLE''"
    "text_at (values_table_offs lay sfo + val_offs lay e) sfo = Some v" "terminated v"
    using assms(1) by (auto simp: title_entry_def sfo_name_def sfo_value_def split: Option.bind_splits)
  have "strcmp name (lit ''TITLE'') = Some 0"
    using e(3,4) by (simp add: strcmp_0_iff)
  then show ?case
    using e i(2) assms(3) by (subst sfo_search.simps) (simp add: i(1) strncpy_same_size)
next
  case (Suc d)
  then have i: "i < k" "i < nitems lay sfo"
    using assms(1) by (auto simp: title_entry_def)
  have "list_all (\<lambda>i. \<exists>name. sfo_name lay sfo i = Some name \<and> terminated name \<and> cstr name \<noteq> ''TITLE'') [0..<k]"
    using assms(1) unfolding title_entry_def by blast
  then obtain name where name: "sfo_name lay sfo i = Some name" "terminated name" "cstr name \<noteq> ''TITLE''"
    using i(1) unfolding list_all_iff by fastforce
  then obtain e where e: "in_block (sizeof_SFOHeader lay + i * sizeof_SFODir lay) (sizeof_SFODir lay) sfo = Some e"
    "text_at (fields_table_offs lay sfo + field_offs lay e) sfo = Some name" "terminated name" "cstr name \<noteq> ''TITLE''"
    by (auto simp: sfo_name_def split: Option.bind_splits)
  obtain c where "strcmp name (lit ''TITLE'') = Some c" "c \<noteq> 0"
    using strcmp_eq_0 [OF e(3), of "lit ''TITLE''"] e(4) by auto
  then show ?case
    using e i(2) Suc.hyps(1) [of "i + 1"] Suc.hyps(2) i(1) by (subst sfo_search.simps) simp
qed

lemma sfo_title_found:
  assumes "title_entry lay sfo k v" "length title = n"
  shows "sfo_title lay sfo title n = Some (pad_to n (take n (cstr v)))"
  using assms sfo_search_found [OF assms(1) _ assms(2), of 0] by (simp add: sfo_title_def in_block_def title_entry_def)

lemma title_fits: "terminated (pad_to 128 (take 128 (cstr v))) \<longleftrightarrow> length (cstr v) < 128"
  by (auto simp: pad_to_def terminated_def cstr_def dest: set_takeWhileD in_set_takeD)

abbreviation PARAM_SFO :: path where
  "PARAM_SFO \<equiv> ''disc0:/PSP_GAME/PARAM.SFO''"

text \<open>
  The title of a game. On a disc whose parameter file has a TITLE entry, the title the service shows is the value
  of the first such entry, cut to 128 bytes and padded with zeros, and the file and the memory it was read into are
  given back. It is a terminated string exactly when the value is shorter than 128 bytes.
\<close>

lemma title_read:
  assumes "fs_contract (info_io sys) V" and "bootfrom sys = PSP_BOOT_DISC" and "files (V w) ''disc0:/PSP_GAME/PARAM.SFO'' = Some d"
    and "length d < 2 ^ 31" and "\<forall>w. \<exists>b w'. alloc_kernel sys (of_nat (length d)) w = (b, raw, w') \<and> 0 \<le> b \<and> V w' = V w"
    and "length raw = length d" and "\<forall>b w. V (free_kernel sys b w) = V w" and "title_entry lay d k v"
  shows "\<exists>title w'. getSfoTitle lay sys stack 128 w = Some (0, title, w') \<and> V w' = V w
     \<and> title = pad_to 128 (take 128 (cstr v)) \<and> (terminated title \<longleftrightarrow> length (cstr v) < 128)"
proof -
  note io = assms(1) and d = assms(3)
  obtain fd w1 where o: "sceIoOpen (info_io sys) PARAM_SFO {O_RDONLY} 0 w = (fd, w1)" "0 \<le> fd"
    "holds V w1 fd PARAM_SFO 0 (V w)" "handles (V w) fd = None"
    using open_holds [OF io d, of "{O_RDONLY}" 0] by auto
  have t: "seek_target SEEK_END 0 0 d = int (length d)"
    by (simp add: seek_target_def)
  obtain w2 where s1: "sceIoLseek (info_io sys) fd 0 SEEK_END w1 = (int (length d), w2)" "holds V w2 fd PARAM_SFO (length d) (V w)"
    using seek_holds [OF io o(3) d, of SEEK_END 0] unfolding t by auto
  obtain w3 where s2: "sceIoLseek (info_io sys) fd 0 SEEK_SET w2 = (0, w3)" "holds V w3 fd PARAM_SFO 0 (V w)"
    using seek_holds [OF io s1(2) d, of SEEK_SET 0] by (auto simp: seek_target_def)
  obtain b w4 where a: "alloc_kernel sys (of_nat (length d)) w3 = (b, raw, w4)" "0 \<le> b" "V w4 = V w3"
    using assms(5) by blast
  have h4: "holds V w4 fd PARAM_SFO 0 (V w)"
    using s2(2) a(3) by (simp add: holds_def)
  obtain w5 where r: "sceIoRead (info_io sys) fd (length d) w4 = (int (length d), d, w5)" "holds V w5 fd PARAM_SFO (length d) (V w)"
    using read_holds [OF io h4 d, of "length d"] by auto
  obtain c w6 where c: "sceIoClose (info_io sys) fd w5 = (c, w6)" "V w6 = V w"
    using close_holds [OF io r(2) o(4)] by blast
  have u: "unat (of_nat (length d) :: u32) = length d"
    using assms(4) by (simp add: unat_of_nat take_bit_nat_eq_self)
  have n: "sfo_title lay d (replicate 128 NUL) 128 = Some (pad_to 128 (take 128 (cstr v)))"
    using sfo_title_found [OF assms(8), of "replicate 128 NUL" 128] by simp
  have "open_sfo lay sys stack w = Some (Inr (fd, of_nat (length d), w3))"
    using o s1 s2 by (simp add: open_sfo_def assms(2))
  then have "getSfoTitle lay sys stack 128 w = Some (0, pad_to 128 (take 128 (cstr v)), free_kernel sys b w6)"
    using a r(1) c(1) fill_exact [of d raw] assms(6) n by (simp add: getSfoTitle_def u)
  then show ?thesis
    using assms(7) c(2) title_fits by simp
qed

text \<open>A parameter file with the entries CATEGORY and TITLE, for the examples; its offsets are below 256.\<close>

definition sample_layout :: sfo_layout where
  "sample_layout = \<lparr>sizeof_PBPHeader = 40, pbp_ok = (\<lambda>h. True), icon0_offset = get32 12, param_offset = get32 8,
     sizeof_SFOHeader = 20, nitems = (\<lambda>b. of_char (b ! 16)), fields_table_offs = (\<lambda>b. of_char (b ! 8)),
     values_table_offs = (\<lambda>b. of_char (b ! 12)), sizeof_SFODir = 16, field_offs = (\<lambda>e. of_char (e ! 0)),
     val_offs = (\<lambda>e. of_char (e ! 12))\<rparr>"

definition sample_sfo :: "byte list" where
  "sample_sfo = [NUL, CHR ''P'', CHR ''S'', CHR ''F'', CHR 0x01, CHR 0x01, NUL, NUL, CHR 0x34, NUL, NUL, NUL, CHR 0x43, NUL, NUL, NUL,
     CHR 0x02, NUL, NUL, NUL]
     @ replicate 16 NUL @ (CHR 0x09 # replicate 11 NUL @ CHR 0x03 # replicate 3 NUL)
     @ ''CATEGORY'' @ NUL # ''TITLE'' @ NUL # ''UG'' @ NUL # ''A Game'' @ [NUL]"

definition sample_info :: "mem info_sys" where
  "sample_info = \<lparr>info_io = mem_io, bootfrom = PSP_BOOT_DISC, init_file = None, init_keyconfig = KEYCONFIG_GAME, game_info = None,
     alloc_kernel = (\<lambda>n w. (5, replicate (unat n) NUL, w)), free_kernel = (\<lambda>b w. w)\<rparr>"

end
