(* ===== verification/Patches.thy ===== *)
theory Patches
  imports UserUtils
begin

text \<open>
  What \<open>module_start\<close> and \<open>GetFunctions\<close> of \<open>overlay/user/main.c\<close> do to the emulator \<open>ScePspemu\<close>: the addresses of its
  functions, the hooks and the bytes injected into its code, for the two firmwares the module knows. Offsets are
  relative to the emulator's text segment; the hooked and patched code is outside the repository.
\<close>

unbundle bit_operations_syntax

section \<open>Functions of the emulator\<close>

definition NID_360 :: u32 where "NID_360 = 0x2714F07D"
definition NID_365 :: u32 where "NID_365 = 0x3F75D4D3"

record emulator_functions =
  f_ScePspemuDivide :: u32
  f_ScePspemuErrorExit :: u32
  f_ScePspemuConvertAddress :: u32
  f_ScePspemuWritebackCache :: u32
  f_ScePspemuKermitWaitAndGetRequest :: u32
  f_ScePspemuKermitSendResponse :: u32
  f_ScePspemuConvertStatTimeToUtc :: u32
  f_ScePspemuConvertStatTimeToLocaltime :: u32
  f_ScePspemuSetDisplayConfig :: u32
  f_ScePspemuPausePops :: u32
  f_ScePspemuInitPops :: u32
  f_ScePspemuInitPocs :: u32

definition GetFunctions :: "u32 \<Rightarrow> u32 \<Rightarrow> emulator_functions \<Rightarrow> emulator_functions" where
  "GetFunctions module_nid text_addr f =
     (let f = f\<lparr>f_ScePspemuDivide := text_addr + 0x39F0 + 1, f_ScePspemuErrorExit := text_addr + 0x4104 + 1,
                f_ScePspemuConvertAddress := text_addr + 0x6364 + 1, f_ScePspemuWritebackCache := text_addr + 0x6490 + 1,
                f_ScePspemuKermitWaitAndGetRequest := text_addr + 0x64D0 + 1,
                f_ScePspemuKermitSendResponse := text_addr + 0x6560 + 1,
                f_ScePspemuConvertStatTimeToUtc := text_addr + 0x8664 + 1,
                f_ScePspemuConvertStatTimeToLocaltime := text_addr + 0x8680 + 1\<rparr>
      in if module_nid = NID_360
         then f\<lparr>f_ScePspemuSetDisplayConfig := text_addr + 0x20E50 + 1, f_ScePspemuPausePops := text_addr + 0x300C0 + 1,
                f_ScePspemuInitPops := text_addr + 0x30678 + 1, f_ScePspemuInitPocs := text_addr + 0x227C4 + 1\<rparr>
         else if module_nid = NID_365
         then f\<lparr>f_ScePspemuSetDisplayConfig := text_addr + 0x20E54 + 1, f_ScePspemuPausePops := text_addr + 0x300D4 + 1,
                f_ScePspemuInitPops := text_addr + 0x3068C + 1, f_ScePspemuInitPocs := text_addr + 0x227D0 + 1\<rparr>
         else f)"

section \<open>Hooks\<close>

text \<open>A hook of an imported function has its library and its identifier, one in the emulator its offset.\<close>

datatype hook = Import u32 u32 | Offset u32

definition import_hooks :: "hook list" where
  "import_hooks =
     [Import 0x0F35909D 0x324112CA, Import 0x0F35909D 0x2306FFED, Import 0x0F35909D 0x714F7ED6, Import 0xD2B1C8AE 0xCE35B2B8,
      Import 0xCAE9ACE6 0xC5C11EE7, Import 0xCAE9ACE6 0x6C60AC61, Import 0xCAE9ACE6 0xBCA5B623, Import 0x438BB957 0x5BC341E4,
      Import 0x438BB957 0x02DB3F5F, Import 0x4FAACD11 0x8C36B628]"

definition offset_hooks :: "u32 \<Rightarrow> hook list" where
  "offset_hooks module_nid =
     (if module_nid = NID_360
      then map Offset [0x20374, 0x3C88, 0x205FC, 0xD190, 0x6364, 0x2D62C, 0xAAF4]
      else if module_nid = NID_365
      then map Offset [0x20378, 0x3C88, 0x20600, 0xD190, 0x6364, 0x2D638, 0xAAF4]
      else [])"

definition N_HOOKS :: nat where
  "N_HOOKS = 16"

definition N_UIDS :: nat where
  "N_UIDS = 64"

definition installed_hooks :: "u32 \<Rightarrow> hook list" where
  "installed_hooks module_nid = import_hooks @ offset_hooks module_nid"

section \<open>Injections\<close>

definition cmp_a4_3C00000 :: u32 where "cmp_a4_3C00000 = 0x7F70F1B3"
definition cmp_v2_3C00000 :: u32 where "cmp_v2_3C00000 = 0x7F70F1B5"
definition cmp_a3_3C00000 :: u32 where "cmp_a3_3C00000 = 0x7F70F1B2"
definition movs_a1_E :: u16 where "movs_a1_E = 0x200E"
definition movs_a4_1_nop_opcode :: u32 where "movs_a4_1_nop_opcode = 0xBF002301"
definition movs_a1_0_nop_opcode :: u32 where "movs_a1_0_nop_opcode = 0xBF002000"
definition movs_a1_1_nop_opcode :: u32 where "movs_a1_1_nop_opcode = 0xBF002001"

record injection =
  inj_offset :: u32
  inj_data :: "byte list"

definition inject :: "u32 \<Rightarrow> byte list \<Rightarrow> injection" where
  "inject off d = \<lparr>inj_offset = off, inj_data = d\<rparr>"

definition le16 :: "u16 \<Rightarrow> byte list" where
  "le16 v = [char_of (unat (v AND 0xFF)), char_of (unat (drop_bit 8 v))]"

definition inject_bl :: "u32 \<Rightarrow> u32 \<Rightarrow> u32 \<Rightarrow> injection" where
  "inject_bl text_addr target off = inject off (le32 (encode_bl (text_addr + off) (text_addr + target)))"

definition isPopsPatched :: "u32 \<Rightarrow> u32 list" where
  "isPopsPatched pops_mode_offset =
     [encode_movw 0 (ucast (pops_mode_offset AND 0xFFFF)), encode_movt 0 (ucast (drop_bit 0x10 pops_mode_offset)),
      0xBF006800, 0xBF004770]"

definition injections_360 :: "u32 \<Rightarrow> u32 \<Rightarrow> injection list" where
  "injections_360 text_addr pops_mode_offset =
     [inject 0x6394 (le32 cmp_a4_3C00000), inject 0x6434 (le32 cmp_v2_3C00000), inject 0x6534 (le32 cmp_a3_3C00000),
      inject 0x22734 (le16 movs_a1_E)]
     @ map (\<lambda>off. inject off (le32 movs_a4_1_nop_opcode)) [0x42F0, 0x572E, 0x57C0, 0x5BBA, 0x5C52, 0x5E4A]
     @ map (\<lambda>off. inject off (le32 movs_a1_1_nop_opcode)) [0x169F6, 0x16AEC, 0x16B6C, 0x16B86, 0x16C3E, 0x1825E, 0x2121E, 0x17B32]
     @ map (inject_bl text_addr 0x20384) [0x21022, 0x2104C, 0x17BEA, 0x183A4, 0x20710]
     @ [inject 0x20384 (concat (map le32 (isPopsPatched pops_mode_offset)))]
     @ map (\<lambda>off. inject off (le32 movs_a1_0_nop_opcode)) [0x2073C, 0x2084E, 0x301DC]"

definition injections_365 :: "u32 \<Rightarrow> u32 \<Rightarrow> injection list" where
  "injections_365 text_addr pops_mode_offset =
     [inject 0x6394 (le32 cmp_a4_3C00000), inject 0x6434 (le32 cmp_v2_3C00000), inject 0x6534 (le32 cmp_a3_3C00000),
      inject 0x22740 (le16 movs_a1_E)]
     @ map (\<lambda>off. inject off (le32 movs_a4_1_nop_opcode)) [0x42F0, 0x572E, 0x57C0, 0x5BBA, 0x5C52, 0x5E4A]
     @ map (\<lambda>off. inject off (le32 movs_a1_1_nop_opcode)) [0x169F6, 0x16AEC, 0x16B6C, 0x16B86, 0x16C3E, 0x1825E, 0x21222, 0x17B32]
     @ map (inject_bl text_addr 0x20388) [0x21026, 0x21050, 0x17BEC, 0x183A4, 0x20714]
     @ [inject 0x20388 (concat (map le32 (isPopsPatched pops_mode_offset)))]
     @ map (\<lambda>off. inject off (le32 movs_a1_0_nop_opcode)) [0x20740, 0x20852, 0x301F0]"

definition injections :: "u32 \<Rightarrow> u32 \<Rightarrow> u32 \<Rightarrow> injection list" where
  "injections module_nid text_addr pops_mode_offset =
     (if module_nid = NID_360 then injections_360 text_addr pops_mode_offset
      else if module_nid = NID_365 then injections_365 text_addr pops_mode_offset
      else [])"

section \<open>Lemmas\<close>

text \<open>No two injections touch the same byte.\<close>

definition apart :: "injection \<Rightarrow> injection \<Rightarrow> bool" where
  "apart a b \<longleftrightarrow> unat (inj_offset a) + length (inj_data a) \<le> unat (inj_offset b)
     \<or> unat (inj_offset b) + length (inj_data b) \<le> unat (inj_offset a)"

fun all_apart :: "injection list \<Rightarrow> bool" where
  "all_apart [] \<longleftrightarrow> True"
| "all_apart (a # as) \<longleftrightarrow> list_all (apart a) as \<and> all_apart as"

lemma length_inject [simp]: "length (inj_data (inject off d)) = length d" "inj_offset (inject off d) = off"
  by (simp_all add: inject_def)

lemma length_le16 [simp]: "length (le16 v) = 2"
  by (simp add: le16_def)

lemma inject_bl_parts [simp]: "length (inj_data (inject_bl t g off)) = 4" "inj_offset (inject_bl t g off) = off"
  by (simp_all add: inject_bl_def)

lemma length_isPops: "length (concat (map le32 (isPopsPatched p))) = 16"
  by (simp add: isPopsPatched_def)

lemma all_apart_360: "all_apart (injections_360 t p)"
  by (simp add: injections_360_def apart_def length_isPops)

lemma all_apart_365: "all_apart (injections_365 t p)"
  by (simp add: injections_365_def apart_def length_isPops)

lemma even_mask: "even a \<Longrightarrow> a AND NOT 1 = a" for a :: u32
  by (rule bit_word_eqI) (auto simp: bit_simps bit_0 even_iff_mod_2_eq_zero elim: oddE intro: gr0I)

text \<open>A call that is patched over an even offset, decoded as the processor decodes it.\<close>

definition calls :: "u32 \<Rightarrow> u32 \<Rightarrow> u32 \<Rightarrow> u32 \<Rightarrow> bool" where
  "calls text_addr off target w \<longleftrightarrow>
     THUMB_SHUFFLE w AND 0xF800D000 = 0xF000D000
     \<and> text_addr + off + 4 + bl_displacement (THUMB_SHUFFLE w) = text_addr + target"

lemma patched_call:
  assumes "even text_addr" "even off" "bl_reachable (target - off - 4)"
  shows "calls text_addr off target (encode_bl (text_addr + off) (text_addr + target))"
proof -
  have e: "(text_addr + off) AND NOT 1 = text_addr + off"
    using assms(1,2) by (intro even_mask) simp
  have d: "text_addr + target - (text_addr + off) - 4 = target - off - 4"
    by simp
  have "bl_reachable (text_addr + target - ((text_addr + off) AND NOT 1) - 4)"
    unfolding e d by (rule assms(3))
  from encode_bl_reaches [OF this] show ?thesis
    unfolding e by (simp add: calls_def)
qed

definition pops_calls :: "u32 \<Rightarrow> u32 list" where
  "pops_calls module_nid =
     (if module_nid = NID_360 then [0x21022, 0x2104C, 0x17BEA, 0x183A4, 0x20710] else [0x21026, 0x21050, 0x17BEC, 0x183A4, 0x20714])"

definition pops_function :: "u32 \<Rightarrow> u32" where
  "pops_function module_nid = (if module_nid = NID_360 then 0x20384 else 0x20388)"

lemma nids_differ: "NID_360 \<noteq> NID_365"
  by (simp add: NID_360_def NID_365_def)

lemma pops_calls_reach:
  assumes "even text_addr"
  shows "list_all (\<lambda>off. calls text_addr off (pops_function nid) (encode_bl (text_addr + off) (text_addr + pops_function nid))) (pops_calls nid)"
  using assms by (auto simp: pops_calls_def pops_function_def bl_reachable_def intro!: patched_call)

lemma low_half: "ucast (a AND 0xFFFF) = (ucast a :: u16)" for a :: u32
proof -
  have m: "(0xFFFF :: u32) = mask 16"
    by (simp add: mask_eq_exp_minus_1)
  show ?thesis
    unfolding m by (rule bit_word_eqI) (auto simp: bit_simps)
qed

lemma pops_function_loads:
  "\<exists>a b. isPopsPatched p = [a, b, 0xBF006800, 0xBF004770]
     \<and> movw_rd (THUMB_SHUFFLE a) = 0 \<and> movw_rd (THUMB_SHUFFLE b) = 0
     \<and> push_bit 16 (ucast (movw_imm (THUMB_SHUFFLE b))) OR ucast (movw_imm (THUMB_SHUFFLE a)) = p"
  using movw_movt_load [of 0 p] by (simp add: isPopsPatched_def low_half)

lemma injections_cases:
  assumes "nid \<in> {NID_360, NID_365}"
  shows "all_apart (injections nid t p) \<and> length (injections nid t p) = 27
     \<and> list_all (\<lambda>off. inject_bl t (pops_function nid) off \<in> set (injections nid t p)) (pops_calls nid)
     \<and> inject (pops_function nid) (concat (map le32 (isPopsPatched p))) \<in> set (injections nid t p)
     \<and> length (installed_hooks nid) = 17"
proof (cases "nid = NID_360")
  case True
  then show ?thesis
    using all_apart_360 by (simp add: injections_def pops_function_def pops_calls_def installed_hooks_def offset_hooks_def
        import_hooks_def) (simp add: injections_360_def)
next
  case False
  then have n: "nid = NID_365"
    using assms by simp
  show ?thesis
    unfolding n using all_apart_365 nids_differ
    by (simp add: injections_def pops_function_def pops_calls_def installed_hooks_def offset_hooks_def import_hooks_def)
      (simp add: injections_365_def)
qed

section \<open>Properties\<close>

text \<open>
  C33: the patches of the emulator fit together. On both firmwares the 27 injections fit their table and touch
  disjoint bytes; each of the five calls injected for the test of the emulation mode is a BL to the injected function,
  and that function loads the address of \<open>pops_mode\<close> into its result register, reads it and returns. The 17 hooks,
  though, do not fit the table of 16.
\<close>

theorem emulator_patches:
  assumes "nid \<in> {NID_360, NID_365}" and "even text_addr"
  shows "all_apart (injections nid text_addr p) \<and> length (injections nid text_addr p) \<le> N_UIDS
     \<and> list_all (\<lambda>off. \<exists>w. inject off (le32 w) \<in> set (injections nid text_addr p) \<and> calls text_addr off (pops_function nid) w) (pops_calls nid)
     \<and> (\<exists>a b. inject (pops_function nid) (concat (map le32 [a, b, 0xBF006800, 0xBF004770])) \<in> set (injections nid text_addr p)
           \<and> movw_rd (THUMB_SHUFFLE a) = 0 \<and> movw_rd (THUMB_SHUFFLE b) = 0
           \<and> push_bit 16 (ucast (movw_imm (THUMB_SHUFFLE b))) OR ucast (movw_imm (THUMB_SHUFFLE a)) = p)
     \<and> N_HOOKS < length (installed_hooks nid)"
proof -
  note c = injections_cases [OF assms(1), of text_addr p]
  have "list_all (\<lambda>off. \<exists>w. inject off (le32 w) \<in> set (injections nid text_addr p) \<and> calls text_addr off (pops_function nid) w) (pops_calls nid)"
    using c pops_calls_reach [OF assms(2), of nid] unfolding list_all_iff inject_bl_def by blast
  moreover obtain a b where "isPopsPatched p = [a, b, 0xBF006800, 0xBF004770]"
     "movw_rd (THUMB_SHUFFLE a) = 0 \<and> movw_rd (THUMB_SHUFFLE b) = 0
     \<and> push_bit 16 (ucast (movw_imm (THUMB_SHUFFLE b))) OR ucast (movw_imm (THUMB_SHUFFLE a)) = p"
    using pops_function_loads by blast
  ultimately show ?thesis
    using c by (auto simp: N_UIDS_def N_HOOKS_def)
qed

theorem emulator_patches_witness:
  "\<exists>w. inject 0x183A4 (le32 w) \<in> set (injections NID_360 0x81000000 0x73CE0010) \<and> calls 0x81000000 0x183A4 0x20384 w"
proof -
  have h: "NID_360 \<in> {NID_360, NID_365}" "even (0x81000000 :: u32)"
    by simp_all
  show ?thesis
    using emulator_patches [OF h, of "0x73CE0010"] by (simp add: pops_calls_def pops_function_def)
qed

end
