(* ===== verification/UserMain.thy ===== *)
theory UserMain
  imports Menu StateFile Usb Reboot Patches
begin

text \<open>
  The user module's side of the emulator, \<open>overlay/user/main.c\<close>: the server that answers the requests of SystemControl,
  the boot configuration it leaves for the PSP's loader, and the hooks of the pad, the start-up picture, the
  threads and the modules. Kernel calls are the fields of \<open>server_sys\<close> and \<open>start_sys\<close>. \<open>lock_power\<close> and
  \<open>usbdevice_modid\<close>, which the menu and the server share, are part of the state.
\<close>

section \<open>USB\<close>

datatype usb_device = USBDEVICE_MODE_MEMORY_CARD | USBDEVICE_MODE_INTERNAL_STORAGE | USBDEVICE_MODE_SD2VITA | USBDEVICE_MODE_PSVSD

definition usb_device_of :: "i32 \<Rightarrow> usb_device" where
  "usb_device_of v =
     (if v = 1 then USBDEVICE_MODE_INTERNAL_STORAGE else if v = 2 then USBDEVICE_MODE_SD2VITA
      else if v = 3 then USBDEVICE_MODE_PSVSD else USBDEVICE_MODE_MEMORY_CARD)"

text \<open>The block device; for the memory card it depends on which of the two cards the console has.\<close>

definition usb_path :: "'w sceio \<Rightarrow> usb_device \<Rightarrow> 'w \<Rightarrow> path \<times> 'w" where
  "usb_path io dev w =
     (case dev of
        USBDEVICE_MODE_INTERNAL_STORAGE \<Rightarrow> (''sdstor0:int-lp-ign-user'', w)
      | USBDEVICE_MODE_SD2VITA \<Rightarrow> (''sdstor0:gcd-lp-ign-entire'', w)
      | USBDEVICE_MODE_PSVSD \<Rightarrow> (''sdstor0:uma-pp-act-a'', w)
      | USBDEVICE_MODE_MEMORY_CARD \<Rightarrow>
          let p = ''sdstor0:xmc-lp-ign-userext''; (fd, w) = sceIoOpen io p {O_RDONLY} 0 w
          in if fd < 0 then (''sdstor0:int-lp-ign-userext'', w) else (p, snd (sceIoClose io fd w)))"

definition usb_module :: path where
  "usb_module = ''ux0:app/'' @ ADRENALINE_TITLEID @ ''/sce_module/usbdevice.skprx''"

record 'w usb_server =
  us_usb :: "'w usb_sys"
  us_io :: "'w sceio"
  is_vita_tv :: bool
  vstor_fat :: int

record usb_state =
  usbdevice_modid :: int
  power_locked :: bool

definition start_usb :: "'w usb_server \<Rightarrow> usb_device \<Rightarrow> usb_state \<times> 'w \<Rightarrow> int \<times> usb_state \<times> 'w" where
  "start_usb sys dev s =
     (let (u, w) = s
      in if usbdevice_modid u < 0 \<and> \<not> is_vita_tv sys
         then let (p, w) = usb_path (us_io sys) dev w;
                  (modid, l, w) = startUsb (us_usb sys) usb_module p (vstor_fat sys) (power_locked u, w)
              in (if modid < 0 then modid else 0, \<lparr>usbdevice_modid = modid, power_locked = l\<rparr>, w)
         else (-1, u, w))"

definition stop_usb_session :: "'w usb_server \<Rightarrow> usb_state \<times> 'w \<Rightarrow> int \<times> usb_state \<times> 'w" where
  "stop_usb_session sys s =
     (let (u, w) = s; (res, l, w) = stopUsb (us_usb sys) (usbdevice_modid u) (power_locked u, w)
      in (res, \<lparr>usbdevice_modid = (if 0 \<le> res then -1 else usbdevice_modid u), power_locked = l\<rparr>, w))"

text \<open>What the menu and the save states do: they stop the session and keep the module's identifier.\<close>

definition stop_usb_elsewhere :: "'w usb_server \<Rightarrow> usb_state \<times> 'w \<Rightarrow> usb_state \<times> 'w" where
  "stop_usb_elsewhere sys s =
     (let (u, w) = s; (_, l, w) = stopUsb (us_usb sys) (usbdevice_modid u) (power_locked u, w) in (u\<lparr>power_locked := l\<rparr>, w))"

section \<open>The server\<close>

record 'w server_sys =
  sv_usb :: "'w usb_server"
  udcd_state :: "'w \<Rightarrow> int list"
  sv_states :: "'w states_sys"
  sv_msfs :: "'w msfs_sys"
  sv_cfg :: msfs_cfg
  sv_env :: msfs_env
  sv_codec :: state_codec
  pause_pops :: "bool \<Rightarrow> 'w \<Rightarrow> 'w"
  wait_vblank :: "'w \<Rightarrow> 'w"
  set_frame_buffer :: "'w \<Rightarrow> 'w"
  request_standby :: "'w \<Rightarrow> 'w"
  request_cold_reset :: "'w \<Rightarrow> 'w"
  send_response :: "int \<Rightarrow> 'w \<Rightarrow> 'w"

record server =
  sv_adr :: SceAdrenaline
  sv_ram :: "byte list"
  sv_files :: "descriptor list"
  sv_usb_state :: usb_state
  sv_ui :: states_ui

record server_env =
  se_adr_id :: int
  se_location :: int
  se_usbdevice :: usb_device
  se_loadstate :: int
  se_menu_open :: bool
  se_stack :: "byte list"
  se_buffer :: "byte list"

definition show_psp_screen :: "'w server_sys \<Rightarrow> bool \<Rightarrow> server \<times> 'w \<Rightarrow> server \<times> 'w" where
  "show_psp_screen sys b s =
     (let (v, w) = s
      in (v\<lparr>sv_adr := (sv_adr v)\<lparr>a_draw_psp_screen_in_pops := b\<rparr>\<rparr>, set_frame_buffer sys (wait_vblank sys (wait_vblank sys w))))"

definition usb_request :: "(usb_state \<times> 'w \<Rightarrow> int \<times> usb_state \<times> 'w) \<Rightarrow> server \<times> 'w \<Rightarrow> int \<times> server \<times> 'w" where
  "usb_request f s = (let (v, w) = s; (res, u, w) = f (sv_usb_state v, w) in (res, v\<lparr>sv_usb_state := u\<rparr>, w))"

text \<open>The answer of a request that has one.\<close>

fun server_command :: "'w server_sys \<Rightarrow> server_env \<Rightarrow> vita_cmd \<Rightarrow> server \<times> 'w \<Rightarrow> int \<times> server \<times> 'w" where
  "server_command sys env VITA_CMD_GET_USB_STATE (v, w) = (fold (OR) (udcd_state sys w) 0, v, w)"
| "server_command sys env VITA_CMD_START_USB s = usb_request (start_usb (sv_usb sys) (se_usbdevice env)) s"
| "server_command sys env VITA_CMD_STOP_USB s = usb_request (stop_usb_session (sv_usb sys)) s"
| "server_command sys env VITA_CMD_PAUSE_POPS (v, w) = (0, show_psp_screen sys True (v, pause_pops sys True w))"
| "server_command sys env VITA_CMD_RESUME_POPS (v, w) =
     (0, show_psp_screen sys False (v, if \<not> se_menu_open env then pause_pops sys False w else w))"
| "server_command sys env VITA_CMD_POWER_SHUTDOWN (v, w) = (0, v, request_standby sys w)"
| "server_command sys env VITA_CMD_POWER_REBOOT (v, w) = (0, v, request_cold_reset sys w)"
| "server_command sys env c (v, w) = (-1, v, w)"

definition answer_request :: "'w server_sys \<Rightarrow> server_env \<Rightarrow> int \<times> server \<times> 'w \<Rightarrow> server \<times> 'w" where
  "answer_request sys env r =
     (let (res, v, w) = r;
          (ui, w) = (if 1 \<le> se_loadstate env \<and> \<not> load_state (sv_ui v)
                     then autoLoadState (sv_states sys) (se_location env) (se_loadstate env - 1) (sv_ui v) w
                     else (sv_ui v, w))
      in (v\<lparr>sv_ui := ui\<rparr>, send_response sys res w))"

text \<open>A request to the server: saving and loading a state are answered through the shared object only.\<close>

definition AdrenalineCompat :: "'w server_sys \<Rightarrow> server_env \<Rightarrow> vita_cmd \<Rightarrow> server \<times> 'w \<Rightarrow> (server \<times> 'w) option" where
  "AdrenalineCompat sys env cmd s =
     (let (v, w) = s; v = v\<lparr>sv_adr := (sv_adr v)\<lparr>a_adr_id := se_adr_id env\<rparr>\<rparr>
      in case cmd of
           VITA_CMD_SAVESTATE \<Rightarrow> do {
             (_, w) \<leftarrow> SaveState (sv_cfg sys) (sv_msfs sys) (sv_codec sys) (se_location env) (se_buffer env) (sv_adr v) (sv_ram v) (sv_files v) w;
             Some (v\<lparr>sv_adr := (sv_adr v)\<lparr>a_vita_response := VITA_RESPONSE_SAVED\<rparr>\<rparr>, w) }
         | VITA_CMD_LOADSTATE \<Rightarrow> do {
             (_, (adr, ram, ds), w) \<leftarrow> LoadState (sv_cfg sys) (sv_msfs sys) (sv_env sys) (sv_codec sys) (se_location env) (se_stack env)
               (se_buffer env) (sv_adr v, sv_ram v, sv_files v) w;
             Some (v\<lparr>sv_adr := adr\<lparr>a_vita_response := VITA_RESPONSE_LOADED\<rparr>, sv_ram := ram, sv_files := ds\<rparr>, w) }
         | _ \<Rightarrow> Some (answer_request sys env (server_command sys env cmd (v, w))))"

section \<open>Starting the emulated PSP\<close>

record start_env =
  sr_adr_id :: bool
  sr_location :: int
  sr_loadstate :: int
  sr_titleid :: path

definition flash0_folder :: path where
  "flash0_folder = ''ux0:app/'' @ ADRENALINE_TITLEID @ ''/flash0''"

text \<open>Whether a bubble starts its booter rather than a saved state.\<close>

definition boots_alone :: "'w states_sys \<Rightarrow> start_env \<Rightarrow> bool \<Rightarrow> 'w \<Rightarrow> bool \<times> 'w" where
  "boots_alone sys env ltrigger w =
     (if sr_adr_id env then (False, w)
      else if sr_loadstate env = 0 then (True, w)
      else if 0 < sr_loadstate env
      then let (r, w) = stateExists sys (sr_location env) (sr_loadstate env - 1) w in (r < 0 \<or> ltrigger, w)
      else (ltrigger, w))"

text \<open>The first word of the configuration at 0x88FB0000 and \<open>load_state\<close>; the two booleans are the triggers held.\<close>

definition boot_index :: "'w states_sys \<Rightarrow> start_env \<Rightarrow> bool \<Rightarrow> bool \<Rightarrow> bool \<Rightarrow> 'w \<Rightarrow> int \<times> bool \<times> 'w" where
  "boot_index sys env ltrigger rtrigger load w =
     (let (alone, w) = boots_alone sys env ltrigger w;
          n = (if alone then 5 else 0);
          n = (if rtrigger \<and> sr_adr_id env then 4 else n);
          (res, _, _, w) = st_getstat sys flash0_folder w
      in (if res < 0 then 4 else n, load \<or> alone, w))"

section \<open>Hooks\<close>

record SceCtrlDataPsp =
  psp_buttons :: u32
  psp_Lx :: u8
  psp_Ly :: u8
  psp_Rx :: u8
  psp_Ry :: u8

text \<open>\<open>pad\<close> and \<open>home\<close> are what the two ways of reading the pad return.\<close>

definition sceCompatWriteSharedCtrlPatched ::
  "(ctrl \<Rightarrow> u32) \<Rightarrow> bool \<Rightarrow> SceCtrlData \<Rightarrow> SceCtrlData \<Rightarrow> SceCtrlDataPsp \<Rightarrow> SceCtrlDataPsp"
where
  "sceCompatWriteSharedCtrlPatched btn is_open pad home d =
     (let d = d\<lparr>psp_Rx := rx pad, psp_Ry := ry pad\<rparr>;
          d = d\<lparr>psp_buttons := psp_buttons d AND NOT (btn CTRL_PSBUTTON)\<rparr>;
          d = d\<lparr>psp_buttons := psp_buttons d OR (buttons home AND btn CTRL_PSBUTTON)\<rparr>
      in if is_open then \<lparr>psp_buttons = btn CTRL_PSBUTTON, psp_Lx = 128, psp_Ly = 128, psp_Rx = 128, psp_Ry = 128\<rparr> else d)"

definition sceCompatSuspendResumePatched :: "('w \<Rightarrow> 'w) \<Rightarrow> 'w server_sys \<Rightarrow> ('w \<Rightarrow> int \<times> 'w) \<Rightarrow> bool \<Rightarrow> 'w \<Rightarrow> int \<times> 'w" where
  "sceCompatSuspendResumePatched lock_shell sys resume is_open w =
     (let w = lock_shell w; w = (if \<not> is_open then pause_pops sys False w else w) in resume w)"

definition ScePspemuGetStartupPngPatched ::
  "'w states_sys \<Rightarrow> (byte list \<Rightarrow> 'w \<Rightarrow> int \<times> byte list \<times> nat \<times> 'w) \<Rightarrow> bool \<Rightarrow> i32 \<Rightarrow> byte list \<Rightarrow> path option \<Rightarrow> byte list \<Rightarrow> 'w
     \<Rightarrow> (int \<times> byte list \<times> nat \<times> 'w) option"
where
  "ScePspemuGetStartupPngPatched sys original adr_id skip startdat boot_logo png_buf w =
     (let (n, buf, sz, w) = original png_buf w
      in if adr_id
         then if skip \<noteq> 0 then Some (0, buf, sz, w)
              else do { buf \<leftarrow> memcpy buf startdat (length startdat); Some (1, buf, length startdat, w) }
         else case boot_logo of
                None \<Rightarrow> Some (0, buf, sz, w)
              | Some p \<Rightarrow>
                  let (res, sz, _, w) = st_getstat sys p w
                  in if 0 \<le> res
                     then do { (_, buf, w) \<leftarrow> ReadFile (st_io sys) p buf sz w; Some (1, buf, sz, w) }
                     else Some (0, buf, sz, w))"

text \<open>The thread of the memory-stick server is replaced by the module's own; a null handler is left alone.\<close>

definition sceKernelCreateThreadPatched :: "'e \<Rightarrow> (path \<Rightarrow> 'e \<Rightarrow> 'w \<Rightarrow> int \<times> 'w) \<Rightarrow> path \<Rightarrow> 'e \<Rightarrow> 'w \<Rightarrow> int \<times> 'w" where
  "sceKernelCreateThreadPatched msfs original name start w =
     original name (if name = ''ScePspemuRemoteMsfs'' then msfs else start) w"

definition sceShellUtilRegisterSettingsHandlerPatched ::
  "'h \<Rightarrow> ('h option \<Rightarrow> 'w \<Rightarrow> int \<times> 'w) \<Rightarrow> 'h option \<Rightarrow> 'h option \<Rightarrow> 'w \<Rightarrow> int \<times> 'h option \<times> 'w"
where
  "sceShellUtilRegisterSettingsHandlerPatched custom original saved handler w =
     (case handler of
        None \<Rightarrow> let (res, w) = original None w in (res, saved, w)
      | Some h \<Rightarrow> let (res, w) = original (Some custom) w in (res, Some h, w))"

definition ScePspemuGetParamPatched :: "byte list \<Rightarrow> byte list \<Rightarrow> (byte list \<times> byte list) option" where
  "ScePspemuGetParamPatched originalpath selfpath = do {
     let p = ''ux0:app/'' @ ADRENALINE_TITLEID @ ''/EBOOT.PBP'';
     originalpath \<leftarrow> strcpy originalpath (lit p);
     selfpath \<leftarrow> strcpy selfpath (lit p);
     Some (originalpath, selfpath) }"

section \<open>Stopping the module\<close>

text \<open>The loop counts upwards and ends only when it leaves the array.\<close>

function release_injections :: "(int \<Rightarrow> 'w \<Rightarrow> 'w) \<Rightarrow> int list \<Rightarrow> int \<Rightarrow> 'w \<Rightarrow> 'w option" where
  "release_injections release uids i w =
     (if 0 \<le> i
      then if i < int (length uids) then release_injections release uids (i + 1) (release (uids ! nat i) w) else None
      else Some w)"
  by auto
termination
  by (relation "measure (\<lambda>(release, uids, i, w). nat (int (length uids) - i))") auto

declare release_injections.simps [simp del]

definition module_stop :: "(int \<Rightarrow> 'w \<Rightarrow> 'w) \<Rightarrow> (int \<Rightarrow> 'w \<Rightarrow> 'w) \<Rightarrow> int list \<Rightarrow> int \<Rightarrow> int list \<Rightarrow> 'w \<Rightarrow> 'w option" where
  "module_stop release_injection release_hook uids n_uids hooks w = do {
     w \<leftarrow> release_injections release_injection uids (n_uids - 1) w;
     Some (fold release_hook (rev hooks) w) }"

section \<open>Lemmas\<close>

lemma release_injections_undefined: "0 \<le> i \<Longrightarrow> release_injections release uids i w = None"
proof (induction "nat (int (length uids) - i)" arbitrary: i w)
  case 0
  then show ?case
    by (subst release_injections.simps) simp
next
  case (Suc n)
  then show ?case
    using Suc.hyps(1) [of "i + 1"] by (subst release_injections.simps) simp
qed

lemma module_stop_iff: "module_stop f g uids n hooks w \<noteq> None \<longleftrightarrow> n \<le> 0"
proof (cases "n \<le> 0")
  case True
  then show ?thesis
    by (simp add: module_stop_def release_injections.simps [of f uids "n - 1"])
next
  case False
  then show ?thesis
    by (simp add: module_stop_def release_injections_undefined)
qed

section \<open>USB requests\<close>

fun usb_requests :: "'w usb_server \<Rightarrow> usb_device \<Rightarrow> bool list \<Rightarrow> usb_state \<times> 'w \<Rightarrow> int list \<times> usb_state \<times> 'w" where
  "usb_requests sys dev [] s = ([], s)"
| "usb_requests sys dev (start # rs) s =
     (let (res, s) = (if start then start_usb sys dev s else stop_usb_session sys s); (as, s) = usb_requests sys dev rs s
      in (res # as, s))"

text \<open>What the file calls and the clean-up calls are relied on for.\<close>

definition usb_clean :: "'w usb_server \<Rightarrow> ('w \<Rightarrow> usb_view) \<Rightarrow> bool" where
  "usb_clean sys V \<longleftrightarrow>
     usb_contract (us_usb sys) V
     \<and> (\<forall>m w. 0 \<le> fst (taiStopUnloadKernelModule (us_usb sys) m w)) \<and> (\<forall>w. 0 \<le> fst (sceMtpIfStartDriver (us_usb sys) 1 w))
     \<and> (\<forall>p fl m w. V (snd (sceIoOpen (us_io sys) p fl m w)) = V w) \<and> (\<forall>fd w. V (snd (sceIoClose (us_io sys) fd w)) = V w)"

definition usb_inv :: "('w \<Rightarrow> usb_view) \<Rightarrow> usb_state \<times> 'w \<Rightarrow> bool" where
  "usb_inv V s \<longleftrightarrow>
     (let (u, w) = s
      in if usbdevice_modid u < 0 then \<not> storing (V w)
         else power_locked u \<and> usbdevice_modid u \<in> loaded (V w) \<and> storing (V w) \<and> \<not> mtp (V w))"

lemma usb_path_quiet:
  assumes "usb_clean sys V"
  shows "V (snd (usb_path (us_io sys) dev w)) = V w"
  using assms by (cases dev) (simp_all add: usb_clean_def usb_path_def Let_def case_prod_beta)

lemma start_keeps:
  assumes "usb_clean sys V" "usb_inv V s" "start_usb sys dev s = (res, s')"
  shows "usb_inv V s' \<and> (res < 0 \<longrightarrow> storing (V (snd s')) = storing (V (snd s))) \<and> (0 \<le> res \<longrightarrow> storing (V (snd s')))"
proof -
  obtain u w where s: "s = (u, w)"
    by (cases s)
  obtain p w1 where p: "usb_path (us_io sys) dev w = (p, w1)"
    by fastforce
  obtain m l w2 where m: "startUsb (us_usb sys) usb_module p (vstor_fat sys) (power_locked u, w1) = (m, l, w2)"
    by (metis prod_cases3)
  have v: "V w1 = V w"
    using usb_path_quiet [OF assms(1), of dev w] by (simp add: p)
  have eff: "if m < 0 then l = power_locked u \<and> (V w2 = V w \<or> V w2 = (V w)\<lparr>mtp := True\<rparr>)
     else l \<and> m \<notin> loaded (V w) \<and> V w2 = (V w)\<lparr>loaded := insert m (loaded (V w)), mtp := False, storing := True\<rparr>"
    using start_usb_effect [OF _ _ _ m, of V, unfolded v] assms(1) by (simp add: usb_clean_def)
  show ?thesis
  proof (cases "usbdevice_modid u < 0 \<and> \<not> is_vita_tv sys")
    case True
    have e: "res = (if m < 0 then m else 0)" "s' = (\<lparr>usbdevice_modid = m, power_locked = l\<rparr>, w2)"
      using assms(3) True by (auto simp: s start_usb_def p m)
    show ?thesis
      using True eff assms(2) unfolding e by (auto simp: s usb_inv_def split: if_splits)
  next
    case False
    then have "res = -1" "s' = s"
      using assms(3) by (auto simp: s start_usb_def)
    then show ?thesis
      using assms(2) by simp
  qed
qed

lemma stop_keeps:
  assumes "usb_clean sys V" "usb_inv V s" "stop_usb_session sys s = (res, s')"
  shows "usb_inv V s' \<and> (res < 0 \<longrightarrow> V (snd s') = V (snd s)) \<and> (0 \<le> res \<longrightarrow> \<not> storing (V (snd s')))"
proof -
  obtain u w where s: "s = (u, w)"
    by (cases s)
  obtain r l w1 where r: "stopUsb (us_usb sys) (usbdevice_modid u) (power_locked u, w) = (r, l, w1)"
    by (metis prod_cases3)
  have e: "res = r" "s' = (\<lparr>usbdevice_modid = if 0 \<le> r then -1 else usbdevice_modid u, power_locked = l\<rparr>, w1)"
    using assms(3) by (auto simp: s stop_usb_session_def r)
  show ?thesis
  proof (cases "usbdevice_modid u < 0")
    case True
    then have "r = 0" "w1 = w" "l = power_locked u"
      using r by (simp_all add: stopUsb_def)
    then show ?thesis
      using assms(2) True unfolding e by (simp add: s usb_inv_def)
  next
    case False
    then have "if r < 0 then l = power_locked u \<and> V w1 = V w
      else \<not> l \<and> V w1 = (V w)\<lparr>loaded := loaded (V w) - {usbdevice_modid u}, mtp := True, storing := False\<rparr>"
      using stop_usb_effect [OF _ _ _ _ r, of V] assms(1) by (simp add: usb_clean_def)
    then show ?thesis
      using assms(2) False unfolding e by (auto simp: s usb_inv_def split: if_splits)
  qed
qed

lemma requests_keep:
  "usb_clean sys V \<Longrightarrow> usb_inv V s \<Longrightarrow> usb_inv V (snd (usb_requests sys dev rs s))"
proof (induction rs arbitrary: s)
  case (Cons r rs)
  obtain res s' where r: "(if r then start_usb sys dev s else stop_usb_session sys s) = (res, s')"
    by (metis surj_pair)
  have "usb_inv V s'"
    using start_keeps [OF Cons.prems, of dev res s'] stop_keeps [OF Cons.prems, of res s'] r by (cases r) simp_all
  then show ?case
    using Cons.IH [OF Cons.prems(1), of s'] by (simp add: r Let_def case_prod_beta del: if_split)
qed simp

lemma stuck_step:
  assumes "usb_clean sys V" "\<forall>w. \<not> storing (V w) \<longrightarrow> fst (sceUsbstorVStorStop (us_usb sys) w) < 0"
    and "0 \<le> usbdevice_modid (fst s)" "\<not> storing (V (snd s))"
  shows "\<exists>res w'. (if r then start_usb sys dev s else stop_usb_session sys s) = (res, fst s, w') \<and> res < 0 \<and> V w' = V (snd s)"
proof (cases r)
  case True
  then show ?thesis
    using assms(3) by (cases s) (auto simp: start_usb_def)
next
  case False
  obtain u w where s: "s = (u, w)"
    by (cases s)
  obtain e w1 where e: "sceUsbstorVStorStop (us_usb sys) w = (e, w1)"
    by fastforce
  have "e < 0" "V w1 = V w"
    using assms(2,4) usb_contract_rules(11) [of "us_usb sys" V w] assms(1) by (auto simp: s e usb_clean_def split: if_splits)
  then show ?thesis
    using False assms(3) e by (auto simp: s stop_usb_session_def stopUsb_def)
qed

section \<open>Properties\<close>


text \<open>
  Stopping the session elsewhere breaks it for good. After the menu or a save state has stopped a running
  session, the server still holds the module's identifier: every later start and stop request is refused, and the
  storage never runs again, provided stopping a storage that does not run fails.
\<close>

theorem usb_session_stuck:
  assumes "usb_clean sys V" and "\<forall>w. \<not> storing (V w) \<longrightarrow> fst (sceUsbstorVStorStop (us_usb sys) w) < 0"
    and "0 \<le> usbdevice_modid (fst s)" and "stop_usb_elsewhere sys s = s'" and "\<not> storing (V (snd s'))"
  shows "list_all (\<lambda>a. a < 0) (fst (usb_requests sys dev rs s'))
     \<and> usbdevice_modid (fst (snd (usb_requests sys dev rs s'))) = usbdevice_modid (fst s)
     \<and> V (snd (snd (usb_requests sys dev rs s'))) = V (snd s')"
proof -
  have run: "list_all (\<lambda>a. a < 0) (fst (usb_requests sys dev rs t)) \<and> fst (snd (usb_requests sys dev rs t)) = fst t
     \<and> V (snd (snd (usb_requests sys dev rs t))) = V (snd t)"
    if "0 \<le> usbdevice_modid (fst t)" "\<not> storing (V (snd t))" for t
    using that
  proof (induction rs arbitrary: t)
    case (Cons r rs)
    obtain res w' where r: "(if r then start_usb sys dev t else stop_usb_session sys t) = (res, fst t, w')" "res < 0" "V w' = V (snd t)"
      using stuck_step [OF assms(1,2) Cons.prems, of r dev] by blast
    show ?case
      using Cons.IH [of "(fst t, w')"] Cons.prems r(2,3) by (simp add: r(1) Let_def case_prod_beta del: if_split)
  qed simp
  have "usbdevice_modid (fst s') = usbdevice_modid (fst s)"
    using assms(4) by (auto simp: stop_usb_elsewhere_def case_prod_beta Let_def split: prod.splits)
  then show ?thesis
    using run [of s'] assms(3,5) by simp
qed

text \<open>A console whose storage driver refuses to be stopped when it does not run.\<close>

definition usb_sample :: "usb_view usb_server" where
  "usb_sample = \<lparr>us_usb = usb_console\<lparr>sceUsbstorVStorStop := (\<lambda>v. if storing v then (0, v\<lparr>storing := False\<rparr>) else (-1, v))\<rparr>,
     us_io = \<lparr>sceIoOpen = (\<lambda>p f m w. (1, w)), sceIoRead = (\<lambda>fd n w. (0, [], w)), sceIoWrite = (\<lambda>fd d w. (0, w)),
       sceIoLseek = (\<lambda>fd n b w. (n, w)), sceIoClose = (\<lambda>fd w. (0, w)), sceIoGetstat = (\<lambda>p w. (0, w)), sceIoRemove = (\<lambda>p w. (0, w))\<rparr>,
     is_vita_tv = False, vstor_fat = 1\<rparr>"

lemma usb_sample_clean: "usb_clean usb_sample (\<lambda>v. v)"
  by (auto simp: usb_clean_def usb_contract_def usb_quiet_def usb_effect_def usb_sample_def usb_console_def MTP_NOT_RUNNING_def)

definition usb_sample_state :: "usb_state \<times> usb_view" where
  "usb_sample_state = (\<lparr>usbdevice_modid = -1, power_locked = False\<rparr>, \<lparr>loaded = {}, mtp = True, storing = False\<rparr>)"

definition usb_running :: "usb_state \<times> usb_view" where
  "usb_running = (\<lparr>usbdevice_modid = 7, power_locked = True\<rparr>, \<lparr>loaded = {7}, mtp = False, storing = True\<rparr>)"


theorem usb_session_stuck_witness:
  "\<exists>s'. stop_usb_elsewhere usb_sample usb_running = s' \<and> \<not> storing (snd s')
     \<and> list_all (\<lambda>a. a < 0) (fst (usb_requests usb_sample USBDEVICE_MODE_SD2VITA [True, False, True] s'))"
proof -
  let ?s = "stop_usb_elsewhere usb_sample usb_running"
  have h: "\<forall>w. \<not> storing w \<longrightarrow> fst (sceUsbstorVStorStop (us_usb usb_sample) w) < 0" "0 \<le> usbdevice_modid (fst usb_running)"
    by (simp_all add: usb_sample_def usb_running_def)
  have n: "\<not> storing (snd ?s)"
    by (simp add: stop_usb_elsewhere_def usb_sample_def usb_running_def stopUsb_def usb_console_def remount_if_def remount_def
        vshIoMount_def checkFolderExist_def Let_def case_prod_beta)
  show ?thesis
    using usb_session_stuck [OF usb_sample_clean h refl n] n by blast
qed

section \<open>The boot configuration\<close>

text \<open>Asking for a file tells whether it is there and changes nothing.\<close>

definition stat_quiet :: "'w states_sys \<Rightarrow> ('w \<Rightarrow> path set) \<Rightarrow> bool" where
  "stat_quiet sys V \<longleftrightarrow>
     (\<forall>p w. V (snd (snd (snd (st_getstat sys p w)))) = V w \<and> (fst (st_getstat sys p w) < 0 \<longleftrightarrow> p \<notin> V w))"

lemma stateExists_quiet:
  assumes "stat_quiet sys V"
  shows "V (snd (stateExists sys loc n w)) = V w" "fst (stateExists sys loc n w) < 0 \<longleftrightarrow> makeSaveStatePath loc n \<notin> V w"
  using assms by (simp_all add: stat_quiet_def stateExists_def Let_def case_prod_beta)

lemma boots_alone_quiet:
  assumes "stat_quiet sys V" "boots_alone sys env ltrigger w = (alone, w')"
  shows "V w' = V w \<and> (alone \<longleftrightarrow> \<not> sr_adr_id env
      \<and> (sr_loadstate env = 0 \<or> 0 < sr_loadstate env \<and> makeSaveStatePath (sr_location env) (sr_loadstate env - 1) \<notin> V w \<or> ltrigger))"
  using assms(2) stateExists_quiet [OF assms(1), of "sr_location env" "sr_loadstate env - 1" w]
  by (auto simp: boots_alone_def Let_def case_prod_beta split: if_splits)

text \<open>
  C30: which system the emulated PSP starts. The loader gets the recovery configuration when Adrenaline's files are
  missing, or when the right trigger is held in Adrenaline; otherwise a bubble gets the booter's unless it has a
  state to load that exists and the left trigger is not held, and everything else the normal one. Exactly when the
  booter is chosen for a bubble, the automatic loading of a state is switched off.
\<close>

theorem boot_configuration:
  assumes "stat_quiet sys V" and "boot_index sys env ltrigger rtrigger load w = (n, load', w')"
  defines "alone \<equiv> \<not> sr_adr_id env
      \<and> (sr_loadstate env = 0 \<or> 0 < sr_loadstate env \<and> makeSaveStatePath (sr_location env) (sr_loadstate env - 1) \<notin> V w \<or> ltrigger)"
  shows "boot_file_name n =
      Some (if flash0_folder \<notin> V w \<or> rtrigger \<and> sr_adr_id env then ''/kd/pspbtrnf.bin''
            else if alone then ''/kd/pspbtbnf.bin'' else ''/kd/pspbtjnf.bin'')
    \<and> load' = (load \<or> alone) \<and> V w' = V w"
proof -
  obtain b w1 where b: "boots_alone sys env ltrigger w = (b, w1)"
    by fastforce
  obtain res sz time w2 where g: "st_getstat sys flash0_folder w1 = (res, sz, time, w2)"
    by (metis prod_cases4)
  have v: "V w1 = V w" "b = alone"
    using boots_alone_quiet [OF assms(1) b] by (simp_all add: alone_def)
  have g': "res < 0 \<longleftrightarrow> flash0_folder \<notin> V w" "V w2 = V w"
    using assms(1) [unfolded stat_quiet_def, rule_format, of flash0_folder w1] by (simp_all add: g v(1))
  have "n = (if res < 0 then 4 else if rtrigger \<and> sr_adr_id env then 4 else if alone then 5 else 0) \<and> load' = (load \<or> alone) \<and> w' = w2"
    using assms(2) by (simp add: boot_index_def b g v(2))
  then show ?thesis
    using g' by (simp add: boot_file_name_def)
qed

text \<open>A console with Adrenaline's files and the first state.\<close>

definition boot_sample_sys :: "path set states_sys" where
  "boot_sample_sys = \<lparr>st_io = \<lparr>sceIoOpen = (\<lambda>p f m w. (-1, w)), sceIoRead = (\<lambda>fd n w. (0, [], w)),
       sceIoWrite = (\<lambda>fd d w. (0, w)), sceIoLseek = (\<lambda>fd n b w. (n, w)), sceIoClose = (\<lambda>fd w. (0, w)),
       sceIoGetstat = (\<lambda>p w. (0, w)), sceIoRemove = (\<lambda>p w. (0, w))\<rparr>,
     st_mkdir = (\<lambda>p w. w), st_dopen = (\<lambda>p w. (-1, w)), st_dread = (\<lambda>d w. (0, [], w)), st_dclose = (\<lambda>d w. w),
     st_getstat = (\<lambda>p w. (if p \<in> w then 0 else -1, 0, [], w)), create_texture = (\<lambda>w. (None, w)), fill_texture = (\<lambda>t d w. w),
     free_texture = (\<lambda>t w. w), malloc_ok = (\<lambda>n w. True), draw_native = (\<lambda>w. False), pops_mode = (\<lambda>w. False),
     native_pixels = (\<lambda>w n. 0), pops_pixels = (\<lambda>w n. 0), psp_pixels = (\<lambda>w n. 0), set_state_num = (\<lambda>n w. w),
     stop_usb = (\<lambda>w. w), SendAdrenalineRequest = (\<lambda>c w. w)\<rparr>"

definition boot_sample_env :: start_env where
  "boot_sample_env = \<lparr>sr_adr_id = False, sr_location = 0, sr_loadstate = 1, sr_titleid = ''ABCD00001''\<rparr>"

definition boot_sample_files :: "path set" where
  "boot_sample_files = {flash0_folder, makeSaveStatePath 0 0}"

theorem boot_configuration_witness:
  "(\<exists>n w. boot_index boot_sample_sys boot_sample_env True False False boot_sample_files = (n, True, w)
     \<and> boot_file_name n = Some ''/kd/pspbtbnf.bin'')
   \<and> (\<exists>n w. boot_index boot_sample_sys boot_sample_env False False False boot_sample_files = (n, False, w)
     \<and> boot_file_name n = Some ''/kd/pspbtjnf.bin'')"
proof -
  have q: "stat_quiet boot_sample_sys (\<lambda>w. w)"
    by (simp add: stat_quiet_def boot_sample_sys_def)
  obtain n l w where a: "boot_index boot_sample_sys boot_sample_env True False False boot_sample_files = (n, l, w)"
    by (metis prod_cases3)
  obtain n' l' w' where b: "boot_index boot_sample_sys boot_sample_env False False False boot_sample_files = (n', l', w')"
    by (metis prod_cases3)
  have "boot_file_name n = Some ''/kd/pspbtbnf.bin'' \<and> l" "boot_file_name n' = Some ''/kd/pspbtjnf.bin'' \<and> \<not> l'"
    using boot_configuration [OF q a] boot_configuration [OF q b] by (simp_all add: boot_sample_env_def boot_sample_files_def)
  then show ?thesis
    using a b by (cases l; cases l') auto
qed

end
