(* ===== verification/Draw.thy ===== *)
theory Draw
  imports UserMain
begin

text \<open>
  The drawing thread of the user module, \<open>AdrenalineDraw\<close> of \<open>overlay/user/menu.c\<close>, one frame at a time: switching to
  PlayStation mode, the PS button, fast forward, what a frame reads to draw and the control of the menu. The word that says whether the native picture is shown is
  read once, at the start of the frame. What is
  drawn is not modelled. A frame's input is what it reads from the pad and the clock.
\<close>

section \<open>State and input\<close>

record draw =
  last_pops :: bool
  pressed_micros :: "64 word"
  released_micros :: "64 word"
  clicking :: clicks
  combo_state :: nat
  flux_colors :: "u32 list"

record frame_input =
  in_pads :: pads
  in_buttons :: u32
  in_now :: "64 word"
  in_later :: "64 word"
  in_pressed_time :: "64 word"
  in_released_time :: "64 word"
  in_power :: bool
  in_hour :: nat
  in_battery :: int

record 'w draw_sys =
  d_menu :: "'w menu_sys"
  savestate_running :: "'w \<Rightarrow> bool"
  dialog_running :: "'w \<Rightarrow> bool"
  d_wait_vblank :: "'w \<Rightarrow> 'w"
  sceCompatLCDCSync :: "'w \<Rightarrow> 'w"
  toggle_fast_forward :: "'w \<Rightarrow> 'w"
  show_frame :: "'w \<Rightarrow> 'w"
  draws_psp_in_pops :: "'w \<Rightarrow> bool"

type_synonym 'w draw_state = "draw \<times> 'w menu_state"

section \<open>PlayStation mode\<close>

definition pops_switch :: "'w draw_sys \<Rightarrow> draw \<times> 'w \<Rightarrow> draw \<times> 'w" where
  "pops_switch sys s =
     (let (d, w) = s;
          d = (if \<not> pops (d_menu sys) w then d\<lparr>last_pops := False\<rparr> else d)
      in if pops (d_menu sys) w \<and> \<not> last_pops d
         then (d\<lparr>last_pops := True\<rparr>,
               d_wait_vblank sys (ScePspemuPausePops (d_menu sys) False (d_wait_vblank sys (ScePspemuPausePops (d_menu sys) True w))))
         else (d, w))"

definition combo_step :: "bool \<Rightarrow> nat \<Rightarrow> bool \<times> nat" where
  "combo_step held c =
     (let c = (if held then 1 else if c = 1 then 2 else 0) in if c = 2 then (True, 0) else (False, c))"

definition fast_forward :: "'w draw_sys \<Rightarrow> pads \<Rightarrow> draw \<times> 'w \<Rightarrow> draw \<times> 'w" where
  "fast_forward sys p s =
     (let (d, w) = s
      in if pops (d_menu sys) w
         then let (toggled, c) = combo_step (pad_on (current_pad p) PAD_LTRIGGER \<and> pad_on (current_pad p) PAD_SELECT) (combo_state d)
              in (d\<lparr>combo_state := c\<rparr>, if toggled then toggle_fast_forward sys w else w)
         else (d, w))"

section \<open>The PS button\<close>

definition live_area :: "menu_env \<Rightarrow> 'w menu_sys \<Rightarrow> 'w menu_state \<Rightarrow> 'w menu_state" where
  "live_area env sys s = launch_app env sys (stop_usb_world sys s)"

text \<open>A press and release of less than half a second.\<close>

definition ps_press :: "frame_input \<Rightarrow> draw \<Rightarrow> bool \<times> draw" where
  "ps_press i d =
     (let d = (if pad_on (pressed_pad (in_pads i)) PAD_PSBUTTON then d\<lparr>pressed_micros := in_pressed_time i\<rparr> else d)
      in if pad_on (released_pad (in_pads i)) PAD_PSBUTTON
         then let d = d\<lparr>released_micros := in_released_time i\<rparr>
              in (released_micros d < pressed_micros d + 500000, d)
         else (False, d))"

definition double_click :: "(ctrl \<Rightarrow> u32) \<Rightarrow> menu_env \<Rightarrow> 'w draw_sys \<Rightarrow> frame_input \<Rightarrow> 'w draw_state \<Rightarrow> 'w draw_state" where
  "double_click btn env sys i s =
     (let (d, ms) = s;
          (yes, c) = doubleClick (btn CTRL_PSBUTTON) (300 * 1000) (in_buttons i) (in_now i) (in_later i) (clicking d);
          d = d\<lparr>clicking := c\<rparr>
      in (d, if yes then live_area env (d_menu sys) ms else ms))"

text \<open>The first component says that the rest of the frame is skipped: the menu has just been opened.\<close>

definition ps_button ::
  "(ctrl \<Rightarrow> u32) \<Rightarrow> menu_env \<Rightarrow> 'w draw_sys \<Rightarrow> byte list \<Rightarrow> AdrenalineStateEntry list option \<Rightarrow> frame_input \<Rightarrow> 'w draw_state
     \<Rightarrow> (bool \<times> 'w draw_state) option"
where
  "ps_button btn env sys stack raw i s =
     (let (d, ui, m, w) = s; mode = psbutton (boot_info (m_set m))
      in if menu_open m then Some (False, s)
         else if me_adr_id env \<or> mode = 2 then Some (False, double_click btn env sys i s)
         else let (short, d) = ps_press i d
              in if \<not> short then Some (False, d, ui, m, w)
                 else if mode = 0
                 then do { ms \<leftarrow> EnterAdrenalineMenu env (d_menu sys) stack raw (ui, m, w); Some (True, d, ms) }
                 else Some (False, d, live_area env (d_menu sys) (ui, m, w)))"

section \<open>What a frame draws\<close>

definition getPspScreenScale :: "AdrenalineConfig \<Rightarrow> (u32 \<times> u32) \<times> AdrenalineConfig" where
  "getPspScreenScale c =
     (let scale_x = psp_screen_scale_x c; scale_y = psp_screen_scale_y c
      in ((scale_x, scale_y), if screen_scale_aspect_ratio c \<noteq> 0 then c\<lparr>psp_screen_scale_y := scale_x\<rparr> else c))"

definition getPopsScreenScale :: "AdrenalineConfig \<Rightarrow> (u32 \<times> u32) \<times> AdrenalineConfig" where
  "getPopsScreenScale c =
     (let scale_x = ps1_screen_scale_x c; scale_y = ps1_screen_scale_y c
      in ((scale_x, scale_y), if screen_scale_aspect_ratio c \<noteq> 0 then c\<lparr>ps1_screen_scale_y := scale_x\<rparr> else c))"

text \<open>Which picture is shown decides which scale is used; the native picture is not scaled.\<close>

definition screen_scale :: "'w draw_sys \<Rightarrow> bool \<Rightarrow> 'w \<Rightarrow> AdrenalineConfig \<Rightarrow> (u32 \<times> u32) option \<times> AdrenalineConfig" where
  "screen_scale sys native w c =
     (if \<not> pops (d_menu sys) w \<and> \<not> native \<or> draws_psp_in_pops sys w
      then let (sc, c) = getPspScreenScale c in (Some sc, c)
      else if native then (None, c)
      else let (sc, c) = getPopsScreenScale c in (Some sc, c))"

definition flux_alpha :: "nat \<Rightarrow> u32" where
  "flux_alpha h =
     (if h < 6 then 0x3E800000 else if h < 10 then 0x3DCCCCCD else if h < 15 then 0x3D4CCCCD
      else if h < 19 then 0x3E19999A else 0x3E4CCCCD)"

text \<open>The colour of the filter: its alpha is stored into the table, and four numbers are read from there.\<close>

definition flux_filter :: "i32 \<Rightarrow> nat \<Rightarrow> u32 list \<Rightarrow> (u32 list \<times> u32 list) option" where
  "flux_filter fm h colors =
     (let idx = unat (ucast (fm * 4 - 1) :: u8)
      in if length colors \<le> idx then None
         else let colors = colors[idx := flux_alpha h]; base = (sint fm - 1) * 4
              in if 0 \<le> base \<and> base + 4 \<le> int (length colors) then Some (take 4 (drop (nat base) colors), colors) else None)"

text \<open>The battery's percentage is printed into four bytes.\<close>

definition battery_text :: "int \<Rightarrow> path option" where
  "battery_text percent = copied 4 (signed_decimal percent 0 CHR ''0'' @ ''%'')"

definition flux_frame :: "frame_input \<Rightarrow> menu \<Rightarrow> draw \<Rightarrow> draw option" where
  "flux_frame i m d =
     (let fm = flux_mode (config (m_set m))
      in if fm = 0 then Some d
         else do { (_, colors) \<leftarrow> flux_filter fm (in_hour i) (flux_colors d); Some (d\<lparr>flux_colors := colors\<rparr>) })"

text \<open>The part of a frame that draws: the entries are hidden first, the menu is drawn when it is open.\<close>

definition draw_screen :: "menu_env \<Rightarrow> 'w draw_sys \<Rightarrow> bool \<Rightarrow> frame_input \<Rightarrow> 'w draw_state \<Rightarrow> 'w draw_state option" where
  "draw_screen env sys native i s =
     (let (d, ui, m, w) = s; (_, c) = screen_scale sys native w (config (m_set m));
          m = m\<lparr>m_set := (m_set m)\<lparr>config := c\<rparr>\<rparr>
      in do {
        (ui, m, w) \<leftarrow> hideEntries env (d_menu sys) (ui, m, w);
        _ \<leftarrow> (if menu_open m then do { _ \<leftarrow> battery_text (in_battery i); drawMenu_reads ui m } else Some ());
        d \<leftarrow> flux_frame i m d;
        Some (d, ui, m, show_frame sys w) })"

definition skips_drawing :: "'w draw_sys \<Rightarrow> bool \<Rightarrow> menu \<Rightarrow> 'w \<Rightarrow> bool" where
  "skips_drawing sys native m w \<longleftrightarrow>
     dialog_running sys w
     \<or> graphics_filtering (config (m_set m)) = 0 \<and> \<not> menu_open m \<and> \<not> native"

section \<open>A frame\<close>

definition AdrenalineDraw ::
  "(ctrl \<Rightarrow> u32) \<Rightarrow> menu_env \<Rightarrow> 'w draw_sys \<Rightarrow> byte list \<Rightarrow> AdrenalineStateEntry list option \<Rightarrow> frame_input \<Rightarrow> 'w draw_state
     \<Rightarrow> 'w draw_state option"
where
  "AdrenalineDraw btn env sys stack raw i s =
     (let (d, ui, m, w) = s; native = draw_native (m_states (d_menu sys)) w; (d, w) = pops_switch sys (d, w)
      in if savestate_running sys w
         then Some (d, ui, m, if \<not> pops (d_menu sys) w then sceCompatLCDCSync sys (show_frame sys w) else show_frame sys w)
         else do {
           (skip, d, ui, m, w) \<leftarrow> ps_button btn env sys stack raw i (d, ui, m, w);
           if skip then Some (d, ui, m, w)
           else let (d, w) = fast_forward sys (in_pads i) (d, w)
                in if skips_drawing sys native m w
                   then Some (d, ui, m, if graphics_filtering (config (m_set m)) = 0
                                        then sceCompatLCDCSync sys (delay_thread (d_menu sys) (4 * 1000) w) else d_wait_vblank sys w)
                   else do {
                     (d, ui, m, w) \<leftarrow> draw_screen env sys native i (d, ui, m, w);
                     let w = (if \<not> pops (d_menu sys) w \<and> \<not> native \<or> draws_psp_in_pops sys w
                              then sceCompatLCDCSync sys w else d_wait_vblank sys w);
                     ms \<leftarrow> (if menu_open m then ctrlMenu env (d_menu sys) (in_power i) (in_pads i) (ui, m, w) else Some (ui, m, w));
                     Some (d, ms) } })"

text \<open>The emulator's settings handler is replaced by the one that opens the menu.\<close>

definition ScePspemuCustomSettingsHandler ::
  "menu_env \<Rightarrow> 'w menu_sys \<Rightarrow> ('w \<Rightarrow> 'w) \<Rightarrow> ('w \<Rightarrow> 'w) \<Rightarrow> byte list \<Rightarrow> AdrenalineStateEntry list option \<Rightarrow> int list
     \<Rightarrow> 'w menu_state \<Rightarrow> (int \<times> 'w menu_state) option"
where
  "ScePspemuCustomSettingsHandler env sys wait_sema set_display stack raw args s =
     (let (ui, m, w) = s; a2 = args ! 1;
          original = (\<lambda>s. let (ui, m, w) = s; (res, w) = ScePspemuSettingsHandler sys args w in (res, ui, m, w))
      in if me_adr_id env \<or> psbutton (boot_info (m_set m)) \<noteq> 0
         then if a2 = 3 then map_option original (EnterAdrenalineMenu env sys stack raw s)
              else if a2 = 1
              then let w = wait_sema w
                   in if \<not> open_official_settings m then Some (0, ui, m, set_display w) else Some (original (ui, m, w))
              else Some (original s)
         else Some (original s))"

section \<open>Fast forward\<close>

text \<open>How often the combination is let go: held in one sample and not in the next one.\<close>

definition let_go :: "bool list \<Rightarrow> nat" where
  "let_go hs = length (filter (\<lambda>(before, now). before \<and> \<not> now) (zip (False # hs) hs))"

definition combo_held :: "pads \<Rightarrow> bool" where
  "combo_held p \<longleftrightarrow> pad_on (current_pad p) PAD_LTRIGGER \<and> pad_on (current_pad p) PAD_SELECT"

definition let_go_from :: "bool \<Rightarrow> bool list \<Rightarrow> nat" where
  "let_go_from h hs = length (filter (\<lambda>(before, now). before \<and> \<not> now) (zip (h # hs) hs))"

lemma let_go_from_simps [simp]:
  "let_go_from h [] = 0"
  "let_go_from h (k # hs) = (if h \<and> \<not> k then Suc (let_go_from k hs) else let_go_from k hs)"
  by (simp_all add: let_go_from_def)

lemma fast_forward_step:
  assumes "pops (d_menu sys) w" "combo_state d = of_bool h"
  shows "\<exists>d'. fast_forward sys p (d, w) = (d', if h \<and> \<not> combo_held p then toggle_fast_forward sys w else w)
     \<and> combo_state d' = of_bool (combo_held p)"
  using assms by (auto simp: fast_forward_def combo_step_def combo_held_def Let_def)

lemma fast_forward_from:
  assumes "pops (d_menu sys) w" "\<And>w. pops (d_menu sys) (toggle_fast_forward sys w) = pops (d_menu sys) w"
    "combo_state d = of_bool h"
  shows "snd (fold (fast_forward sys) ps (d, w)) = (toggle_fast_forward sys ^^ let_go_from h (map combo_held ps)) w"
  using assms(1,3)
proof (induction ps arbitrary: d w h)
  case (Cons p ps)
  obtain d' where f: "fast_forward sys p (d, w) = (d', if h \<and> \<not> combo_held p then toggle_fast_forward sys w else w)"
      "combo_state d' = of_bool (combo_held p)"
    using fast_forward_step [OF Cons.prems] by blast
  then show ?case
    using Cons.IH [OF _ f(2), of w] Cons.IH [OF _ f(2), of "toggle_fast_forward sys w"] Cons.prems(1) assms(2)
    by (simp add: funpow_swap1)
qed simp

text \<open>
  In PlayStation mode the emulation speed is toggled exactly as often as L and SELECT, held together in one frame,
  are not both held in the next: holding them on toggles nothing, and letting go toggles once, whatever is pressed in
  between.
\<close>

theorem fast_forward_on_release:
  assumes "pops (d_menu sys) w" "\<And>w. pops (d_menu sys) (toggle_fast_forward sys w) = pops (d_menu sys) w" "combo_state d = 0"
  shows "snd (fold (fast_forward sys) ps (d, w)) = (toggle_fast_forward sys ^^ let_go (map combo_held ps)) w"
  using fast_forward_from [of sys w d False ps] assms by (simp add: let_go_def let_go_from_def)

section \<open>Frames with the menu open\<close>

text \<open>The filter's colours are four numbers for each of its three modes.\<close>

definition flux_ok :: "draw \<Rightarrow> bool" where
  "flux_ok d \<longleftrightarrow> length (flux_colors d) = 12"

lemma flux_defined:
  assumes "values_ok (m_set m)" "flux_ok d"
  shows "\<exists>d'. flux_frame i m d = Some d' \<and> flux_ok d'"
proof (cases "flux_mode (config (m_set m)) = 0")
  case False
  have "in_limit 4 (flux_mode (config (m_set m)))"
    using assms(1) unfolding values_ok_def by (metis get_setting.simps limit.simps(3))
  then have r: "0 \<le> sint (flux_mode (config (m_set m)))" "sint (flux_mode (config (m_set m))) < 4"
    by (simp_all add: in_limit_def)
  have "flux_mode (config (m_set m)) \<in> {1, 2, 3}"
  proof -
    have "sint (flux_mode (config (m_set m))) \<in> {0, 1, 2, 3}"
      using r by auto
    then have "flux_mode (config (m_set m)) \<in> of_int ` {0, 1, 2, 3}"
      by (metis imageI scast_eq scast_id)
    then show ?thesis
      using False by auto
  qed
  then show ?thesis
    using assms(2) by (auto simp: flux_frame_def flux_filter_def flux_ok_def Let_def)
qed (use assms in \<open>simp add: flux_frame_def\<close>)

lemma scale_keeps:
  assumes "menu_ok env m" "screen_scale sys native w (config (m_set m)) = (sc, c)"
  shows "menu_ok env (m\<lparr>m_set := (m_set m)\<lparr>config := c\<rparr>\<rparr>)"
proof (rule menu_ok_set [OF assms(1)])
  have g: "in_limit (limit v) (get_setting v ((m_set m)\<lparr>config := c\<rparr>)) = in_limit (limit v) (get_setting v (m_set m))" for v
    using assms(2) by (cases v) (auto simp: screen_scale_def getPspScreenScale_def getPopsScreenScale_def in_limit_def Let_def
        split: if_splits)
  show "values_ok ((m_set m)\<lparr>config := c\<rparr>)"
    using assms(1) by (simp add: menu_ok_def values_ok_def g)
qed

lemma battery_fits: "0 \<le> b \<Longrightarrow> b < 100 \<Longrightarrow> battery_text b \<noteq> None" "battery_text 100 = None"
proof -
  assume b: "0 \<le> b" "b < 100"
  then have "b \<in> set [0..99]"
    by simp
  moreover have "list_all (\<lambda>b. battery_text b \<noteq> None) [0..99]"
    by code_simp
  ultimately show "battery_text b \<noteq> None"
    unfolding list_all_iff by (rule bspec [rotated])
next
  show "battery_text 100 = None"
    by code_simp
qed

lemma draw_screen_open:
  assumes "menu_ok env m" "states_ok ui" "menu_open m" "flux_ok d" "0 \<le> in_battery i" "in_battery i < 100"
  shows "\<exists>d' m'. draw_screen env sys native i (d, ui, m, w) = Some (d', ui, m', show_frame sys w)
     \<and> menu_ok env m' \<and> menu_open m' \<and> flux_ok d'"
proof -
  obtain sc c where c: "screen_scale sys native w (config (m_set m)) = (sc, c)"
    by fastforce
  define m1 where "m1 = m\<lparr>m_set := (m_set m)\<lparr>config := c\<rparr>\<rparr>"
  have m1: "menu_ok env m1" "menu_open m1"
    using scale_keeps [OF assms(1) c] assms(3) by (simp_all add: m1_def)
  obtain m2 where m2: "hideEntries env (d_menu sys) (ui, m1, w) = Some (ui, m2, w)" "menu_ok env m2" "menu_open m2"
    using hide_ok [of env "(ui, m1, w)" "d_menu sys"] m1 assms(2) by auto
  obtain d' where d': "flux_frame i m2 d = Some d'" "flux_ok d'"
    using flux_defined [of m2 d i] m2(2) assms(4) by (auto simp: menu_ok_def)
  obtain t u where "battery_text (in_battery i) = Some t" "drawMenu_reads ui m2 = Some u"
    using battery_fits(1) [OF assms(5,6)] draw_ok [OF m2(2) assms(2)] by auto
  then show ?thesis
    using m2 d' by (simp add: draw_screen_def c m1_def [symmetric])
qed

lemma draw_screen_full:
  assumes "menu_open m" "in_battery i = 100"
  shows "draw_screen env sys native i (d, ui, m, w) = None"
proof -
  have "menu_open (fst (snd s'))" if "hideEntries env (d_menu sys) (ui, m', w) = Some s'" "menu_open m'" for s' m'
    using that by (auto simp: hideEntries_def Let_def bind_eq_Some_conv split: if_splits)
  then show ?thesis
    using assms battery_fits(2)
    by (auto simp: draw_screen_def case_prod_beta Let_def bind_eq_None_conv intro: ccontr)
qed

section \<open>A whole frame\<close>

lemma pops_switch_flux: "pops_switch sys (d, w) = (d', w') \<Longrightarrow> flux_ok d' = flux_ok d"
  by (auto simp: pops_switch_def flux_ok_def Let_def split: if_splits)

lemma fast_forward_flux: "fast_forward sys p (d, w) = (d', w') \<Longrightarrow> flux_ok d' = flux_ok d"
  by (auto simp: fast_forward_def flux_ok_def case_prod_beta Let_def split: if_splits)

lemma ps_button_open: "menu_open m \<Longrightarrow> ps_button btn env sys stack raw i (d, ui, m, w) = Some (False, d, ui, m, w)"
  by (simp add: ps_button_def)


definition draw_sample_sys :: "path list draw_sys" where
  "draw_sample_sys = \<lparr>d_menu = menu_sample_sys, savestate_running = (\<lambda>w. False), dialog_running = (\<lambda>w. False),
     d_wait_vblank = (\<lambda>w. w), sceCompatLCDCSync = (\<lambda>w. w), toggle_fast_forward = (\<lambda>w. ''toggle'' # w), show_frame = (\<lambda>w. w),
     draws_psp_in_pops = (\<lambda>w. False)\<rparr>"

definition draw_sample :: draw where
  "draw_sample = \<lparr>last_pops = False, pressed_micros = 0, released_micros = 0,
     clicking = \<lparr>old_buttons = 0, current_buttons = 0, released_buttons = 0, last_time = 0, clicked = False\<rparr>, combo_state = 0,
     flux_colors = replicate 12 0\<rparr>"

definition frame_sample :: "pads \<Rightarrow> int \<Rightarrow> frame_input" where
  "frame_sample p b = \<lparr>in_pads = p, in_buttons = 0, in_now = 0, in_later = 0, in_pressed_time = 0, in_released_time = 0,
     in_power = False, in_hour = 12, in_battery = b\<rparr>"


definition pops_sample_sys :: "path list draw_sys" where
  "pops_sample_sys = draw_sample_sys\<lparr>d_menu := menu_sample_sys\<lparr>m_states := states_sample_sys\<lparr>pops_mode := \<lambda>w. True\<rparr>\<rparr>\<rparr>"

definition pads_sample :: "nat list \<Rightarrow> pads" where
  "pads_sample held = (pad_holding PAD_UP)\<lparr>current_pad := map (\<lambda>i. of_bool (i \<in> set held)) [0..<23]\<rparr>"

theorem fast_forward_on_release_witness:
  "snd (fold (fast_forward pops_sample_sys) (map pads_sample [[4], [4, 11], [4, 11, 7], [11], [11, 4], []]) (draw_sample, []))
     = [''toggle'', ''toggle'']"
proof -
  have "map combo_held (map pads_sample [[4], [4, 11], [4, 11, 7], [11], [11, 4], []]) = [False, True, True, False, True, False]"
    by (simp add: combo_held_def pads_sample_def pad_on_def PAD_LTRIGGER_def PAD_SELECT_def)
  moreover have "let_go [False, True, True, False, True, False] = 2"
    by (simp add: let_go_def)
  moreover have "(toggle_fast_forward pops_sample_sys ^^ 2) [] = [''toggle'', ''toggle'']"
    by (simp add: numeral_2_eq_2 pops_sample_sys_def draw_sample_sys_def)
  moreover have "snd (fold (fast_forward pops_sample_sys) ps (draw_sample, []))
      = (toggle_fast_forward pops_sample_sys ^^ let_go (map combo_held ps)) []" for ps
    by (rule fast_forward_on_release) (simp_all add: pops_def pops_sample_sys_def draw_sample_sys_def draw_sample_def)
  ultimately show ?thesis
    by (simp only:)
qed

end
