(* ===== verification/Loader.thy ===== *)
theory Loader
  imports Msfs Settings
begin

text \<open>
  Who loads the modules: the kernel module \<open>overlay/kernel/main.c\<close>, which decides for every process that starts whether
  the converter, the booter and the user module are loaded into it, and the shell module \<open>overlay/vsh/main.c\<close>, which
  tells the shell that a bubble is a PSP game. Both keep one \<open>boot_info\<close> object for all applications; here it is the
  bytes of that object. The calls of the kernels are the fields of \<open>loader_sys\<close> and \<open>shell_sys\<close>.
\<close>

section \<open>Names\<close>

definition sce_module :: "path \<Rightarrow> path" where
  "sce_module name = ''ux0:app/'' @ ADRENALINE_TITLEID @ ''/sce_module/'' @ name @ ''.suprx''"

definition boot_inf_file :: "path \<Rightarrow> path" where
  "boot_inf_file app_titleid = ''ux0:app/'' @ app_titleid @ ''/data/boot.inf''"

text \<open>The test both modules make after reading \<open>boot.bin\<close>; \<open>strncmp\<close> compares six characters.\<close>

definition is_bubble :: "path \<Rightarrow> int \<Rightarrow> byte list \<Rightarrow> bool" where
  "is_bubble t nread info \<longleftrightarrow>
     take 6 t = take 6 ADRENALINE_TITLEID \<or> 0 \<le> nread \<and> magic (boot_info_of_bytes info) = BOOT_INFO_MAGIC"

section \<open>A process starts\<close>

record 'w loader_sys =
  ld_io :: "'w sceio"
  process_title :: "int \<Rightarrow> 'w \<Rightarrow> path"
  start_preloaded :: "int \<Rightarrow> 'w \<Rightarrow> int \<times> 'w"
  load_start_for :: "int \<Rightarrow> path \<Rightarrow> 'w \<Rightarrow> 'w"

definition ksceKernelStartPreloadedModulesPatched ::
  "'w loader_sys \<Rightarrow> int \<Rightarrow> byte list \<times> 'w \<Rightarrow> (int \<times> byte list \<times> 'w) option"
where
  "ksceKernelStartPreloadedModulesPatched sys pid s =
     (let (info, w) = s; (res, w) = start_preloaded sys pid w; t = process_title sys pid w
      in if t = ''main'' then Some (res, info, load_start_for sys pid (sce_module ''adrenaline_vsh'') w)
         else do {
           let (found, w) = CheckFile (ld_io sys) (boot_inf_file t) w;
           let w = (if 0 \<le> found then load_start_for sys pid (sce_module ''bootconv'') w else w);
           (nread, info, w) \<leftarrow> ReadFile (ld_io sys) (boot_info_file t) info sizeof_BootInfo w;
           let w = (if is_bubble t nread info
                    then load_start_for sys pid (sce_module ''adrenaline_user'')
                           (load_start_for sys pid (sce_module ''adrbubblebooter'') w)
                    else w);
           Some (res, info, w) })"

section \<open>The shell asks for the type of an application\<close>

record 'w shell_sys =
  sh_io :: "'w sceio"
  sceLsdbGetType :: "'w \<Rightarrow> int \<times> 'w"
  sceLsdbGetName :: "'w \<Rightarrow> path option"

text \<open>
  The name is copied into \<open>app_titleid\<close>, 12 bytes, before it is tested for being null: no name, or one of 12
  characters or more, is undefined.
\<close>

definition sceLsdbGetTypePatched :: "'w shell_sys \<Rightarrow> byte list \<times> 'w \<Rightarrow> (int \<times> byte list \<times> 'w) option" where
  "sceLsdbGetTypePatched sys s =
     (let (info, w) = s; (val, w) = sceLsdbGetType sys w
      in if val = 1
         then do {
           name \<leftarrow> sceLsdbGetName sys w;
           app_titleid \<leftarrow> copied 12 name;
           (nread, info, w) \<leftarrow> ReadFile (sh_io sys) (boot_info_file app_titleid) info sizeof_BootInfo w;
           if is_bubble app_titleid nread info then Some (2, info, w)
           else let (found, w) = CheckFile (sh_io sys) (boot_inf_file app_titleid) w
                in Some (if 0 \<le> found then 2 else val, info, w) }
         else Some (val, info, w))"

section \<open>The hooks of the shell module\<close>

text \<open>The four identifiers are zero before a hook is set; each call that sets one is given what the kernel returns.\<close>

definition N_VSH_HOOKS :: nat where
  "N_VSH_HOOKS = 4"

definition vsh_start :: "bool \<Rightarrow> int \<Rightarrow> int \<Rightarrow> int list \<Rightarrow> int list" where
  "vsh_start lsdb_missing a b hooks = (if lsdb_missing then hooks[0 := a, 1 := b] else hooks[3 := a])"

definition sceSysmoduleLoadModuleInternalWithArgPatched :: "int \<Rightarrow> u32 \<Rightarrow> int \<Rightarrow> int list \<Rightarrow> int list" where
  "sceSysmoduleLoadModuleInternalWithArgPatched res sysmodule h hooks =
     (if 0 \<le> res \<and> sysmodule = 0x80000008 then hooks[2 := h] else hooks)"

definition scePafMiscLoadModulePatched :: "path \<Rightarrow> int \<Rightarrow> int list \<Rightarrow> int list" where
  "scePafMiscLoadModulePatched p h hooks =
     (if take 32 p = ''vs0:vsh/shell/livespace_db.suprx'' then hooks[3 := h] else hooks)"

text \<open>What the two calls that release hooks release.\<close>

definition sceSysmoduleUnloadModuleInternalWithArgPatched :: "int \<Rightarrow> u32 \<Rightarrow> int list \<Rightarrow> int list" where
  "sceSysmoduleUnloadModuleInternalWithArgPatched res sysmodule hooks =
     (if 0 \<le> res \<and> sysmodule = 0x80000008 \<and> 0 \<le> hooks ! 2 then [hooks ! 2] else [])"

definition vsh_stop :: "int list \<Rightarrow> int list" where
  "vsh_stop hooks = filter (\<lambda>h. 0 \<le> h) [hooks ! 3, hooks ! 1, hooks ! 0]"

section \<open>Memory blocks of the emulated PSP\<close>

text \<open>
  SceCompat's two extra blocks lie at 0x23000000 and 0x24000000. Freeing the first one is put off until the second
  one is freed. \<open>block_base\<close> is the address the kernel gives, or what the variable held when it gives none.
\<close>

record blocks =
  extra_1_blockid :: int
  extra_2_blockid :: int

record 'w block_sys =
  alloc_block :: "'w \<Rightarrow> int \<times> 'w"
  free_block :: "int \<Rightarrow> 'w \<Rightarrow> int \<times> 'w"
  block_base :: "int \<Rightarrow> 'w \<Rightarrow> u32"

definition ksceKernelAllocMemBlockPatched :: "'w block_sys \<Rightarrow> blocks \<times> 'w \<Rightarrow> int \<times> blocks \<times> 'w" where
  "ksceKernelAllocMemBlockPatched sys s =
     (let (b, w) = s; (blockid, w) = alloc_block sys w; addr = block_base sys blockid w
      in (blockid,
          if addr = 0x23000000 then b\<lparr>extra_1_blockid := blockid\<rparr>
          else if addr = 0x24000000 then b\<lparr>extra_2_blockid := blockid\<rparr> else b, w))"

definition ksceKernelFreeMemBlockPatched :: "'w block_sys \<Rightarrow> int \<Rightarrow> blocks \<times> 'w \<Rightarrow> int \<times> blocks \<times> 'w" where
  "ksceKernelFreeMemBlockPatched sys uid s =
     (let (b, w) = s
      in if uid = extra_1_blockid b then (0, b, w)
         else let (res, w) = free_block sys uid w
              in if uid = extra_2_blockid b
                 then (res, \<lparr>extra_1_blockid = -1, extra_2_blockid = -1\<rparr>, snd (free_block sys (extra_1_blockid b) w))
                 else (res, b, w))"

definition ksceKernelUnmapMemBlockPatched :: "int \<Rightarrow> int" where
  "ksceKernelUnmapMemBlockPatched uid = 0"

definition SceGrabForDriver_E9C25A28_patched :: "(int \<Rightarrow> u32 \<Rightarrow> 'r) \<Rightarrow> int \<Rightarrow> u32 \<Rightarrow> 'r" where
  "SceGrabForDriver_E9C25A28_patched original unk paddr =
     original unk (if unk = 2 \<and> paddr = 0x21000001 then 0x22000001 else paddr)"

definition ksceSblAimgrIsDEXPatched :: "'w \<times> int \<Rightarrow> int \<times> 'w" where
  "ksceSblAimgrIsDEXPatched r = (1, fst r)"

section \<open>The jump into the reboot payload\<close>

definition NID_COMPAT_360 :: u32 where
  "NID_COMPAT_360 = 0x8F2D0378"

definition NIDS_COMPAT_365 :: "u32 list" where
  "NIDS_COMPAT_365 = [0x07937779, 0x71BF9CC5, 0x7C185186, 0x52DFE3A7, 0xE0E3AA51]"

text \<open>The word that is written and its address, when the payload is there and the firmware is known.\<close>

definition sceCompatSecSetSSRAMAclPatched :: "u32 \<Rightarrow> u32 \<Rightarrow> (u32 \<times> u32) option" where
  "sceCompatSecSetSSRAMAclPatched module_nid first_word =
     (if first_word = 0 then None
      else if module_nid = NID_COMPAT_360 then Some (0x70602D58, 0x0E3F0000)
      else if module_nid \<in> set NIDS_COMPAT_365 then Some (0x70602D70, 0x0E3F0000)
      else None)"

section \<open>The hooks of the kernel module\<close>

definition N_KERNEL_HOOKS :: nat where
  "N_KERNEL_HOOKS = 8"

text \<open>The hooks \<open>module_start\<close> stores, by the function they replace, and those \<open>module_stop\<close> releases, from the last entry down.\<close>

definition kernel_hooks :: "u32 \<Rightarrow> path list" where
  "kernel_hooks module_nid =
     (if module_nid = NID_COMPAT_360 \<or> module_nid \<in> set NIDS_COMPAT_365 then [''sceCompatSecSetSSRAMAcl''] else [])
     @ [''ksceKernelAllocMemBlock'', ''ksceKernelFreeMemBlock'', ''ksceKernelUnmapMemBlock'', ''SceGrabForDriver_E9C25A28'',
        ''ksceSblAimgrIsDEX'', ''ksceKernelStartPreloadedModules'']"

definition kernel_releases :: "path list" where
  "kernel_releases =
     [''ksceKernelStartPreloadedModules'', ''ksceSblAimgrIsDEX'', ''SceGrabForDriver_E9C25A28'', ''ksceKernelUnmapMemBlock'',
      ''ksceKernelFreeMemBlock'', ''ksceKernelAllocMemBlock'', ''sceCompatSecSetSSRAMAcl'']"

text \<open>Each release is given the entry before the last one released; an entry before the first is undefined.\<close>

fun release_all :: "path list \<Rightarrow> path list \<Rightarrow> nat \<Rightarrow> (path \<times> path) list option" where
  "release_all hooks [] n = Some []"
| "release_all hooks (r # rs) 0 = None"
| "release_all hooks (r # rs) (Suc n) = map_option ((#) (hooks ! n, r)) (release_all hooks rs n)"

definition kernel_stop :: "u32 \<Rightarrow> (path \<times> path) list option" where
  "kernel_stop module_nid = release_all (kernel_hooks module_nid) kernel_releases (length (kernel_hooks module_nid))"

section \<open>Reading the files of an application\<close>

lemma check_file_result:
  assumes "fs_contract io V"
  shows "\<exists>r w'. CheckFile io p w = (r, w') \<and> (0 \<le> r \<longleftrightarrow> files (V w) p \<noteq> None) \<and> V w' = V w"
proof (cases "files (V w) p")
  case None
  then show ?thesis
    using open_missing [OF assms None, of "{O_RDONLY}" 0] by (auto simp: CheckFile_def)
next
  case (Some d)
  obtain fd w1 where o: "sceIoOpen io p {O_RDONLY} 0 w = (fd, w1)" "0 \<le> fd" "holds V w1 fd p 0 (V w)" "handles (V w) fd = None"
    using open_holds [OF assms Some, of "{O_RDONLY}" 0] by auto
  obtain r w2 where "sceIoClose io fd w1 = (r, w2)" "V w2 = V w"
    using close_holds [OF assms o(3,4)] by blast
  then show ?thesis
    using o Some by (simp add: CheckFile_def)
qed

text \<open>What a read object holds afterwards: the file over the older bytes.\<close>

definition after_read :: "byte list option \<Rightarrow> byte list \<Rightarrow> byte list" where
  "after_read f buf = (case f of None \<Rightarrow> buf | Some d \<Rightarrow> overlay buf (take (length buf) d))"

lemma read_file_result:
  assumes "fs_contract io V" "length buf = n"
  shows "\<exists>r w'. ReadFile io p buf n w = Some (r, after_read (files (V w) p) buf, w') \<and> (0 \<le> r \<longleftrightarrow> files (V w) p \<noteq> None) \<and> V w' = V w"
proof (cases "files (V w) p")
  case None
  then show ?thesis
    using open_missing [OF assms(1) None, of "{O_RDONLY}" 0] by (auto simp: ReadFile_def after_read_def)
next
  case (Some d)
  then show ?thesis
    using read_once [OF assms(1) Some, of "{O_RDONLY}" 0 n] assms(2) by (auto simp: ReadFile_def after_read_def fill_def)
qed

text \<open>An application is a bubble by its name or by what the object holds after its \<open>boot.bin\<close> was read into it.\<close>

definition seen_as_bubble :: "fsview \<Rightarrow> path \<Rightarrow> byte list \<Rightarrow> bool" where
  "seen_as_bubble fs t info \<longleftrightarrow> take 6 t = take 6 ADRENALINE_TITLEID
     \<or> files fs (boot_info_file t) \<noteq> None \<and> magic (boot_info_of_bytes (after_read (files fs (boot_info_file t)) info)) = BOOT_INFO_MAGIC"

lemma shell_type_result:
  assumes "fs_contract (sh_io sys) V" "length info = sizeof_BootInfo"
    and "sceLsdbGetType sys w = (1, w1)" "V w1 = V w" "sceLsdbGetName sys w1 = Some t" "length t < 12"
  shows "\<exists>w'. sceLsdbGetTypePatched sys (info, w)
      = Some (if seen_as_bubble (V w) t info \<or> files (V w) (boot_inf_file t) \<noteq> None then 2 else 1,
              after_read (files (V w) (boot_info_file t)) info, w') \<and> V w' = V w"
proof -
  obtain r w2 where r: "ReadFile (sh_io sys) (boot_info_file t) info sizeof_BootInfo w1
      = Some (r, after_read (files (V w) (boot_info_file t)) info, w2)" "0 \<le> r \<longleftrightarrow> files (V w) (boot_info_file t) \<noteq> None" "V w2 = V w"
    using read_file_result [OF assms(1,2), of "boot_info_file t" w1] assms(4) by auto
  obtain c w3 where "CheckFile (sh_io sys) (boot_inf_file t) w2 = (c, w3)" "0 \<le> c \<longleftrightarrow> files (V w) (boot_inf_file t) \<noteq> None" "V w3 = V w"
    using check_file_result [OF assms(1), of "boot_inf_file t" w2] r(3) by auto
  then show ?thesis
    using assms(3,5,6) r by (auto simp: sceLsdbGetTypePatched_def is_bubble_def seen_as_bubble_def)
qed

lemma process_start_result:
  assumes "fs_contract (ld_io sys) V" "length info = sizeof_BootInfo"
    and "start_preloaded sys pid w = (res, w1)" "V w1 = V w" "process_title sys pid w1 = t" "t \<noteq> ''main''"
    and "files (V w) (boot_inf_file t) = None"
  shows "\<exists>w'. ksceKernelStartPreloadedModulesPatched sys pid (info, w)
      = Some (res, after_read (files (V w) (boot_info_file t)) info,
          if seen_as_bubble (V w) t info
          then load_start_for sys pid (sce_module ''adrenaline_user'') (load_start_for sys pid (sce_module ''adrbubblebooter'') w')
          else w') \<and> V w' = V w"
proof -
  obtain c w2 where c: "CheckFile (ld_io sys) (boot_inf_file t) w1 = (c, w2)" "\<not> 0 \<le> c" "V w2 = V w"
    using check_file_result [OF assms(1), of "boot_inf_file t" w1] assms(4,7) by auto
  obtain r w3 where r: "ReadFile (ld_io sys) (boot_info_file t) info sizeof_BootInfo w2
      = Some (r, after_read (files (V w) (boot_info_file t)) info, w3)" "0 \<le> r \<longleftrightarrow> files (V w) (boot_info_file t) \<noteq> None" "V w3 = V w"
    using read_file_result [OF assms(1,2), of "boot_info_file t" w2] c(3) by auto
  show ?thesis
    using c r assms(3,5,6)
    by (intro exI [of _ w3]) (simp add: ksceKernelStartPreloadedModulesPatched_def is_bubble_def seen_as_bubble_def)
qed

lemma magic_of_bytes: "magic (boot_info_of_bytes bs) = rd32 (take 4 bs)"
  by (simp add: boot_info_of_bytes_def eval_nat_numeral Let_def)

lemma seen_fresh:
  assumes "length info = sizeof_BootInfo" "\<And>d. files fs (boot_info_file t) = Some d \<Longrightarrow> 4 \<le> length d"
  shows "seen_as_bubble fs t info \<longleftrightarrow> take 6 t = take 6 ADRENALINE_TITLEID
     \<or> (\<exists>d. files fs (boot_info_file t) = Some d \<and> rd32 (take 4 d) = BOOT_INFO_MAGIC)"
  using assms by (auto simp: seen_as_bubble_def after_read_def magic_of_bytes overlay_def sizeof_BootInfo_def split: option.split)

lemma seen_stale:
  assumes "files fs (boot_info_file t) = Some []" "magic (boot_info_of_bytes info) = BOOT_INFO_MAGIC"
  shows "seen_as_bubble fs t info"
  using assms by (simp add: seen_as_bubble_def after_read_def)

section \<open>Memory blocks\<close>

text \<open>
  The kernel's blocks: \<open>V w\<close> maps the identifiers of the live blocks to their addresses. An allocation that succeeds
  returns a new identifier and gives an address no live block has; freeing a live block succeeds, and anything else
  changes nothing.
\<close>

definition block_contract :: "'w block_sys \<Rightarrow> ('w \<Rightarrow> int \<Rightarrow> u32 option) \<Rightarrow> bool" where
  "block_contract sys V \<longleftrightarrow>
     (\<forall>w uid w'. alloc_block sys w = (uid, w') \<and> 0 \<le> uid \<longrightarrow>
        V w uid = None \<and> (\<exists>a. a \<notin> ran (V w) \<and> V w' = (V w)(uid \<mapsto> a) \<and> block_base sys uid w' = a))
     \<and> (\<forall>uid w res w'. free_block sys uid w = (res, w') \<longrightarrow> V w' = (V w)(uid := None))"

text \<open>
  What SceCompat does: \<open>C\<close> are the blocks it holds. It frees only blocks it holds, and the one at 0x24000000 after the
  one at 0x23000000; allocations succeed.
\<close>

inductive compat_step :: "'w block_sys \<Rightarrow> int set \<times> blocks \<times> 'w \<Rightarrow> int set \<times> blocks \<times> 'w \<Rightarrow> bool" for sys :: "'w block_sys" where
  alloc: "ksceKernelAllocMemBlockPatched sys (b, w) = (uid, b', w') \<Longrightarrow> 0 \<le> uid \<Longrightarrow>
    compat_step sys (C, b, w) (insert uid C, b', w')"
| free: "uid \<in> C \<Longrightarrow> (uid = extra_2_blockid b \<Longrightarrow> extra_1_blockid b \<notin> C) \<Longrightarrow>
    ksceKernelFreeMemBlockPatched sys uid (b, w) = (res, b', w') \<Longrightarrow> compat_step sys (C, b, w) (C - {uid}, b', w')"

inductive compat_runs :: "'w block_sys \<Rightarrow> int set \<times> blocks \<times> 'w \<Rightarrow> int set \<times> blocks \<times> 'w \<Rightarrow> bool" for sys :: "'w block_sys" where
  refl: "compat_runs sys s s"
| step: "compat_runs sys s s' \<Longrightarrow> compat_step sys s' s'' \<Longrightarrow> compat_runs sys s s''"

text \<open>The blocks that are alive are those held and, until the second one is freed, the first one.\<close>

definition blocks_ok :: "('w \<Rightarrow> int \<Rightarrow> u32 option) \<Rightarrow> int set \<times> blocks \<times> 'w \<Rightarrow> bool" where
  "blocks_ok V s \<longleftrightarrow>
     (let (C, b, w) = s
      in C \<subseteq> dom (V w) \<and> dom (V w) \<subseteq> insert (extra_1_blockid b) C \<and> (\<forall>uid \<in> dom (V w). 0 \<le> uid)
         \<and> (extra_1_blockid b = -1 \<or> V w (extra_1_blockid b) = Some 0x23000000)
         \<and> (extra_2_blockid b = -1 \<or> extra_2_blockid b \<in> C \<and> V w (extra_2_blockid b) = Some 0x24000000))"

lemma alloc_ok:
  assumes "block_contract sys V" "blocks_ok V (C, b, w)" "ksceKernelAllocMemBlockPatched sys (b, w) = (uid, b', w')" "0 \<le> uid"
  shows "blocks_ok V (insert uid C, b', w')"
proof -
  obtain w1 where a: "alloc_block sys w = (uid, w1)" "w' = w1"
    using assms(3) by (auto simp: ksceKernelAllocMemBlockPatched_def Let_def split: prod.splits)
  obtain d where d: "V w uid = None" "d \<notin> ran (V w)" "V w' = (V w)(uid \<mapsto> d)" "block_base sys uid w' = d"
    using assms(1,4) a unfolding block_contract_def by metis
  have b: "b' = (if d = 0x23000000 then b\<lparr>extra_1_blockid := uid\<rparr> else if d = 0x24000000 then b\<lparr>extra_2_blockid := uid\<rparr> else b)"
    using assms(3) a d(4) by (simp add: ksceKernelAllocMemBlockPatched_def)
  have e: "extra_1_blockid b = -1" if "d = 0x23000000"
    using assms(2) d(2) that by (auto simp: blocks_ok_def ran_def)
  have old: "C \<subseteq> dom (V w)" "dom (V w) \<subseteq> insert (extra_1_blockid b) C" "\<And>uid. uid \<in> dom (V w) \<Longrightarrow> 0 \<le> uid"
    "extra_1_blockid b = -1 \<or> V w (extra_1_blockid b) = Some 0x23000000"
    "extra_2_blockid b = -1 \<or> extra_2_blockid b \<in> C \<and> V w (extra_2_blockid b) = Some 0x24000000"
    using assms(2) by (auto simp: blocks_ok_def)
  have none: "V w (-1) = None"
    using old(3) [of "-1"] by auto
  have live: "dom (V w') = insert uid (dom (V w))"
    by (simp add: d(3))
  consider "d = 0x23000000" "b' = b\<lparr>extra_1_blockid := uid\<rparr>" | "d = 0x24000000" "b' = b\<lparr>extra_2_blockid := uid\<rparr>"
    | "b' = b"
    unfolding b by presburger
  then show ?thesis
  proof cases
    case 1
    then have "dom (V w) \<subseteq> C"
      using old(2) e none by auto
    then show ?thesis
      using 1 old assms(4) d(1) unfolding blocks_ok_def live by (auto simp: d(3))
  next
    case 2
    then show ?thesis
      using old assms(4) d(1) unfolding blocks_ok_def live by (auto simp: d(3))
  next
    case 3
    then show ?thesis
      using old assms(4) d(1) unfolding blocks_ok_def live by (auto simp: d(3))
  qed
qed

lemma free_ok:
  assumes "block_contract sys V" "blocks_ok V (C, b, w)" "uid \<in> C" "uid = extra_2_blockid b \<Longrightarrow> extra_1_blockid b \<notin> C"
    "ksceKernelFreeMemBlockPatched sys uid (b, w) = (res, b', w')"
  shows "blocks_ok V (C - {uid}, b', w')"
proof -
  have f: "V (snd (free_block sys i w)) = (V w)(i := None)" for i w
    using assms(1) unfolding block_contract_def by (metis prod.collapse)
  consider "uid = extra_1_blockid b" "b' = b" "w' = w"
    | "uid \<noteq> extra_1_blockid b" "uid = extra_2_blockid b" "b' = \<lparr>extra_1_blockid = -1, extra_2_blockid = -1\<rparr>"
      "V w' = (V w)(uid := None, extra_1_blockid b := None)"
    | "uid \<noteq> extra_1_blockid b" "uid \<noteq> extra_2_blockid b" "b' = b" "V w' = (V w)(uid := None)"
    using assms(5) f by (force simp: ksceKernelFreeMemBlockPatched_def case_prod_beta Let_def split: if_splits)
  then show ?thesis
  proof cases
    case 1
    then show ?thesis
      using assms(2,3) by (auto simp: blocks_ok_def)
  next
    case 2
    then show ?thesis
      using assms(2,4) by (auto simp: blocks_ok_def)
  next
    case 3
    then show ?thesis
      using assms(2,3) by (auto simp: blocks_ok_def)
  qed
qed

lemma runs_ok: "compat_runs sys s s' \<Longrightarrow> block_contract sys V \<Longrightarrow> blocks_ok V s \<Longrightarrow> blocks_ok V s'"
proof (induction rule: compat_runs.induct)
  case (step s s' s'')
  then show ?case
    using alloc_ok [OF step.prems(1)] free_ok [OF step.prems(1)]
    by (cases rule: compat_step.cases [OF step.hyps(2)]) auto
qed simp

section \<open>Properties\<close>


text \<open>
  An application with an empty \<open>boot.bin\<close> is what the one before it was. After either module has seen a bubble, an
  empty \<open>boot.bin\<close>, whose reading succeeds and changes nothing, leaves that bubble's magic number in the object: the
  shell shows any such application as a PSP game, and the kernel loads the modules into it.
\<close>

theorem stale_boot_info:
  assumes "fs_contract (sh_io sh) V" and "fs_contract (ld_io ld) V"
    and "length info = sizeof_BootInfo" and "magic (boot_info_of_bytes info) = BOOT_INFO_MAGIC"
    and "sceLsdbGetType sh w = (1, w1)" and "V w1 = V w" and "sceLsdbGetName sh w1 = Some t" and "length t < 12" and "t \<noteq> ''main''"
    and "start_preloaded ld pid w = (res, w2)" and "V w2 = V w" and "process_title ld pid w2 = t"
    and "files (V w) (boot_inf_file t) = None" and "files (V w) (boot_info_file t) = Some []"
  shows "\<exists>w3 w4. sceLsdbGetTypePatched sh (info, w) = Some (2, info, w3)
     \<and> ksceKernelStartPreloadedModulesPatched ld pid (info, w)
         = Some (res, info, load_start_for ld pid (sce_module ''adrenaline_user'')
                              (load_start_for ld pid (sce_module ''adrbubblebooter'') w4))"
  using shell_type_result [OF assms(1,3,5,6,7,8)] process_start_result [OF assms(2,3,10,11,12,9,13)]
    seen_stale [OF assms(14,4)] assms(14) by (fastforce simp: after_read_def)


section \<open>Examples\<close>

definition shell_sample :: "mem shell_sys" where
  "shell_sample = \<lparr>sh_io = mem_io, sceLsdbGetType = (\<lambda>w. (1, w)), sceLsdbGetName = (\<lambda>w. Some ''ABCD00001'')\<rparr>"

definition loader_sample :: "mem loader_sys" where
  "loader_sample = \<lparr>ld_io = mem_io, process_title = (\<lambda>pid w. ''ABCD00001''), start_preloaded = (\<lambda>pid w. (0, w)),
     load_start_for = (\<lambda>pid p w. w\<lparr>mdirs := mdirs w @ [p]\<rparr>)\<rparr>"

definition bubble_files :: "byte list \<Rightarrow> mem" where
  "bubble_files d = \<lparr>mfiles = [boot_info_file ''ABCD00001'' \<mapsto> d], mdirs = [], mhandles = []\<rparr>"

lemma bubble_sample:
  "fs_contract (sh_io shell_sample) mem_view" "fs_contract (ld_io loader_sample) mem_view"
  "sceLsdbGetType shell_sample w = (1, w)" "mem_view w = mem_view w" "sceLsdbGetName shell_sample w = Some ''ABCD00001''"
  "length ''ABCD00001'' < 12" "''ABCD00001'' \<noteq> ''main''"
  "start_preloaded loader_sample 7 w = (0, w)" "process_title loader_sample 7 w = ''ABCD00001''"
  "files (mem_view (bubble_files d)) (boot_inf_file ''ABCD00001'') = None"
  "files (mem_view (bubble_files d)) (boot_info_file ''ABCD00001'') = Some d"
  using mem_contract by (simp_all add: shell_sample_def loader_sample_def mem_view_def bubble_files_def boot_inf_file_def boot_info_file_def)

definition object_sample :: "byte list" where
  "object_sample = le32 BOOT_INFO_MAGIC @ replicate 316 NUL"

lemma object_sample_facts:
  "length object_sample = sizeof_BootInfo" "rd32 (take 4 object_sample) = BOOT_INFO_MAGIC"
  "magic (boot_info_of_bytes object_sample) = BOOT_INFO_MAGIC" "length (replicate 320 NUL) = sizeof_BootInfo"
  by (simp_all add: object_sample_def sizeof_BootInfo_def magic_of_bytes)


theorem stale_boot_info_witness:
  "\<exists>w. sceLsdbGetTypePatched shell_sample (object_sample, bubble_files []) = Some (2, object_sample, w)"
  using stale_boot_info [OF bubble_sample(1,2) object_sample_facts(1,3) bubble_sample(3,4,5,6,7,8,4,9,10,11)] by blast

text \<open>A kernel whose world is the list of the addresses of the live blocks; a block's identifier is its address.\<close>

definition kernel_sample :: "u32 list block_sys" where
  "kernel_sample = \<lparr>alloc_block = (\<lambda>w. case filter (\<lambda>a. a \<notin> set w) [0x23000000, 0x24000000] of [] \<Rightarrow> (-1, w) | a # _ \<Rightarrow> (uint a, a # w)),
     free_block = (\<lambda>uid w. (0, filter (\<lambda>a. uint a \<noteq> uid) w)), block_base = (\<lambda>uid w. word_of_int uid)\<rparr>"

definition kernel_view :: "u32 list \<Rightarrow> int \<Rightarrow> u32 option" where
  "kernel_view w uid = (if uid \<in> uint ` set w then Some (word_of_int uid) else None)"

lemma kernel_sample_contract: "block_contract kernel_sample kernel_view"
proof -
  have r: "ran (kernel_view w) = set w" for w
    by (force simp: ran_def kernel_view_def)
  have "kernel_view w uid = None \<and> (\<exists>a. a \<notin> ran (kernel_view w) \<and> kernel_view w' = (kernel_view w)(uid \<mapsto> a) \<and> block_base kernel_sample uid w' = a)"
    if "alloc_block kernel_sample w = (uid, w')" "0 \<le> uid" for w uid w'
  proof -
    have "(uid, w') = (uint (0x23000000 :: u32), 0x23000000 # w) \<and> 0x23000000 \<notin> set w
        \<or> (uid, w') = (uint (0x24000000 :: u32), 0x24000000 # w) \<and> 0x24000000 \<notin> set w"
      using that by (auto simp: kernel_sample_def split: if_splits)
    then obtain a where a: "uid = uint a" "w' = a # w" "a \<notin> set w"
      by blast
    then have "uint a \<notin> uint ` set w"
      by (auto dest: unsigned_word_eqI)
    then show ?thesis
      using a unfolding r by (auto simp: kernel_view_def kernel_sample_def fun_eq_iff image_iff dest: unsigned_word_eqI)
  qed
  moreover have "kernel_view w' = (kernel_view w)(uid := None)" if "free_block kernel_sample uid w = (res, w')" for uid w res w'
    using that by (auto simp: kernel_view_def kernel_sample_def fun_eq_iff)
  ultimately show ?thesis
    unfolding block_contract_def by blast
qed


text \<open>On a known firmware the hooks are released in the order they were set; on another one the release leaves the table.\<close>

lemma kernel_stop_known:
  "kernel_stop module_nid
     = (if module_nid = NID_COMPAT_360 \<or> module_nid \<in> set NIDS_COMPAT_365 then Some (map (\<lambda>h. (h, h)) kernel_releases) else None)"
  by (simp add: kernel_stop_def kernel_hooks_def kernel_releases_def)

lemma kernel_hooks_fit: "length (kernel_hooks module_nid) < N_KERNEL_HOOKS"
  by (simp add: kernel_hooks_def N_KERNEL_HOOKS_def)

text \<open>The word that is written is a jump-and-link to the payload: opcode 3 and the address divided by four.\<close>

lemma payload_jump: "(0x0E3F0000 :: u32) = 0x0C000000 OR (drop_bit 2 0x88FC0000 AND 0x03FFFFFF)"
  by simp

text \<open>Stopping the shell module gives back identifiers that were never obtained, and never the third one.\<close>

lemma vsh_stop_started: "0 \<le> a \<Longrightarrow> vsh_stop (vsh_start False a b (replicate N_VSH_HOOKS 0)) = [a, 0, 0]"
  by (simp add: vsh_stop_def vsh_start_def N_VSH_HOOKS_def numeral_eq_Suc)

end
