(* ===== verification/Console.thy ===== *)
theory Console
  imports Font
begin

unbundle bit_operations_syntax

text \<open>
  The ebooter, \<open>src/vita/ebooter/main.c\<close>, and its text screen, \<open>graphics.c\<close>: three checks, each of which stops with a
  message, and a screen of 120 by 68 characters drawn into a frame buffer. The frame buffer is the list of the pixels of
  its memory block; an access outside the block, or through a base the kernel never gave, is \<open>None\<close>. The second half
  states the screen as a grid of characters and shows that the pixels are its picture.
\<close>

section \<open>The screen\<close>

definition SCREEN_WIDTH :: int where "SCREEN_WIDTH = 960"
definition SCREEN_HEIGHT :: int where "SCREEN_HEIGHT = 544"
definition LINE_SIZE :: int where "LINE_SIZE = 960"
definition FRAMEBUFFER_SIZE :: nat where "FRAMEBUFFER_SIZE = 2 * 1024 * 1024"

lemmas screen_consts = SCREEN_WIDTH_def SCREEN_HEIGHT_def LINE_SIZE_def

text \<open>\<open>g_vram_base\<close> is what the block it points to holds.\<close>

record console =
  g_vram_base :: "u32 list option"
  gX :: int
  gY :: int
  g_fg_color :: u32
  g_bg_color :: u32

definition console_bss :: console where
  "console_bss = \<lparr>g_vram_base = None, gX = 0, gY = 0, g_fg_color = 0, g_bg_color = 0\<rparr>"

definition psvDebugScreenSetXY :: "int \<Rightarrow> int \<Rightarrow> console \<Rightarrow> console" where
  "psvDebugScreenSetXY x y st = st\<lparr>gX := x, gY := y\<rparr>"

definition psvDebugScreenSetFgColor :: "u32 \<Rightarrow> console \<Rightarrow> u32 \<times> console" where
  "psvDebugScreenSetFgColor c st = (g_fg_color st, st\<lparr>g_fg_color := c\<rparr>)"

definition psvDebugScreenSetBgColor :: "u32 \<Rightarrow> console \<Rightarrow> u32 \<times> console" where
  "psvDebugScreenSetBgColor c st = (g_bg_color st, st\<lparr>g_bg_color := c\<rparr>)"

text \<open>A sum of the type \<open>int\<close>, and the store of one pixel.\<close>

definition add_int :: "int \<Rightarrow> int \<Rightarrow> int option" where
  "add_int a b = (if - (2 ^ 31) \<le> a + b \<and> a + b < 2 ^ 31 then Some (a + b) else None)"

definition poke :: "u32 list \<Rightarrow> int \<Rightarrow> u32 \<Rightarrow> u32 list option" where
  "poke vram p c = (if 0 \<le> p \<and> nat p < length vram then Some (vram[nat p := c]) else None)"

fun fill_pixels :: "nat \<Rightarrow> int \<Rightarrow> u32 \<Rightarrow> u32 list \<Rightarrow> u32 list option" where
  "fill_pixels 0 p c vram = Some vram"
| "fill_pixels (Suc n) p c vram = do { vram \<leftarrow> poke vram p c; fill_pixels n (p + 1) c vram }"

definition psvDebugScreenClear :: "u32 \<Rightarrow> console \<Rightarrow> console option" where
  "psvDebugScreenClear bg st = do {
     vram \<leftarrow> g_vram_base st;
     vram \<leftarrow> fill_pixels (nat (SCREEN_WIDTH * SCREEN_HEIGHT)) 0 bg vram;
     Some (st\<lparr>gX := 0, gY := 0, g_vram_base := Some vram\<rparr>) }"

text \<open>One row of a glyph from column \<open>j\<close>, and the rows from \<open>i\<close>; \<open>char\<close> is unsigned on the console.\<close>

function draw_row :: "u32 \<Rightarrow> u32 \<Rightarrow> u8 \<Rightarrow> nat \<Rightarrow> int \<Rightarrow> u32 list \<Rightarrow> u32 list option" where
  "draw_row fg bg font j p vram =
     (if j < 8 then do {
        vram \<leftarrow> poke vram p (if font AND drop_bit j 128 \<noteq> 0 then fg else bg);
        draw_row fg bg font (j + 1) (p + 1) vram }
      else Some vram)"
  by pat_completeness auto
termination by (relation "measure (\<lambda>(fg, bg, font, j, p, vram). 8 - j)") auto

function draw_rows :: "u32 \<Rightarrow> u32 \<Rightarrow> nat \<Rightarrow> nat \<Rightarrow> int \<Rightarrow> u32 list \<Rightarrow> u32 list option" where
  "draw_rows fg bg glyph i p vram =
     (if i < 8 then
        if glyph + i < length msx then do {
          vram \<leftarrow> draw_row fg bg (msx ! (glyph + i)) 0 p vram;
          draw_rows fg bg glyph (i + 1) (p + LINE_SIZE) vram }
        else None
      else Some vram)"
  by pat_completeness auto
termination by (relation "measure (\<lambda>(fg, bg, glyph, i, p, vram). 8 - i)") auto

declare draw_row.simps [simp del] draw_rows.simps [simp del]

definition print_char :: "char \<Rightarrow> console \<Rightarrow> console option" where
  "print_char ch st = do {
     right \<leftarrow> add_int (gX st) 8;
     st \<leftarrow> (if right > SCREEN_WIDTH then do { y \<leftarrow> add_int (gY st) 8; Some (st\<lparr>gY := y, gX := 0\<rparr>) } else Some st);
     bottom \<leftarrow> add_int (gY st) 8;
     st \<leftarrow> (if bottom > SCREEN_HEIGHT then psvDebugScreenClear (g_bg_color st) (st\<lparr>gY := 0\<rparr>) else Some st);
     if ch = CHR 0x0A then do { y \<leftarrow> add_int (gY st) 8; Some (st\<lparr>gX := 0, gY := y\<rparr>) }
     else if ch = CHR 0x0D then Some (st\<lparr>gX := 0\<rparr>)
     else do {
       vram \<leftarrow> g_vram_base st;
       vram \<leftarrow> draw_rows (g_fg_color st) (g_bg_color st) (of_char ch * 8) 0 (gX st + gY st * LINE_SIZE) vram;
       x \<leftarrow> add_int (gX st) 8;
       Some (st\<lparr>g_vram_base := Some vram, gX := x\<rparr>) } }"

fun print_chars :: "char list \<Rightarrow> console \<Rightarrow> console option" where
  "print_chars [] st = Some st"
| "print_chars (ch # cs) st = do { st \<leftarrow> print_char ch st; print_chars cs st }"

definition printTextScreen :: "byte list \<Rightarrow> console \<Rightarrow> console option" where
  "printTextScreen text st = (if terminated text then print_chars (cstr text) st else None)"

text \<open>
  Printing with a format without conversions, the only one there is: \<open>vsnprintf\<close> stores the part of it that fits the
  buffer of 4 KiB. The mutex around it is the kernel's.
\<close>

definition psvDebugScreenPrintf :: "byte list \<Rightarrow> console \<Rightarrow> console option" where
  "psvDebugScreenPrintf fmt st =
     (if terminated fmt \<and> CHR ''%'' \<notin> set (cstr fmt) then printTextScreen (lit (take (0x1000 - 1) (cstr fmt))) st
      else None)"

section \<open>The program\<close>

text \<open>
  The kernel's calls: the block of display memory with what it holds and the address of a block, the frame buffer of
  the display, and the three questions of \<open>main\<close>.
\<close>

record 'w ebooter_sys =
  eb_alloc :: "'w \<Rightarrow> int \<times> 'w"
  eb_base :: "int \<Rightarrow> 'w \<Rightarrow> u32 list option \<times> 'w"
  eb_set_frame_buf :: "u32 list option \<Rightarrow> 'w \<Rightarrow> 'w"
  eb_devctl :: "byte list \<Rightarrow> nat \<Rightarrow> 'w \<Rightarrow> int \<times> 'w"
  eb_getstat :: "byte list \<Rightarrow> 'w \<Rightarrow> int \<times> 'w"
  eb_load_kernel :: "byte list \<Rightarrow> 'w \<Rightarrow> int \<times> 'w"

definition psvDebugScreenInit :: "'w ebooter_sys \<Rightarrow> console \<Rightarrow> 'w \<Rightarrow> console \<times> 'w" where
  "psvDebugScreenInit sys st w =
     (let (block, w) = eb_alloc sys w;
          (base, w) = eb_base sys block w
      in (st\<lparr>g_vram_base := base, g_fg_color := 0xFFFFFFFF, g_bg_color := 0\<rparr>, eb_set_frame_buf sys base w))"

text \<open>The program returns or stays in a loop for ever, with its message on the screen.\<close>

datatype 'w ebooter_end = Returned int console 'w | Hangs console 'w

definition unsafe_message :: "byte list" where
  "unsafe_message = ''Please enable unsafe homebrew first before using this software.''"

definition missing_message :: "byte list" where
  "missing_message = ''Adrenaline has not been installed yet.'' @ [CHR 0x0D, CHR 0x0A, CHR 0x0A]"

definition install_message :: "byte list" where
  "install_message = ''In order to use AdrBubbleBooter you need to install Adrenaline first.''"

definition kernel_message :: "byte list" where
  "kernel_message = ''Could not load adrenaline_kernel.skprx. Please reboot or use the AdrBubbleBooterInstaller.''"

definition ebooter_main :: "'w ebooter_sys \<Rightarrow> 'w \<Rightarrow> 'w ebooter_end option" where
  "ebooter_main sys w =
     (let (st, w) = psvDebugScreenInit sys console_bss w;
          (dev, w) = eb_devctl sys ''ux0:'' 0x3001 w
      in if (of_int dev :: u32) = 0x80010030
         then do { st \<leftarrow> psvDebugScreenPrintf (lit unsafe_message) st; Some (Hangs st w) }
         else
           let (bin, w) = eb_getstat sys ''ux0:app/PSPEMUCFW/eboot.bin'' w;
               (pbp, w) = (if bin < 0 then eb_getstat sys ''ux0:app/PSPEMUCFW/eboot.pbp'' w else (0, w))
           in if bin < 0 \<and> pbp < 0
              then do {
                st \<leftarrow> psvDebugScreenPrintf (lit missing_message) st;
                st \<leftarrow> psvDebugScreenPrintf (lit install_message) st;
                Some (Hangs st w) }
              else
                let (res, w) = eb_load_kernel sys ''ux0:app/PSPEMUCFW/sce_module/adrenaline_kernel.skprx'' w
                in if res < 0 then do { st \<leftarrow> psvDebugScreenPrintf (lit kernel_message) st; Some (Hangs st w) }
                   else Some (Returned 0 st w))"

section \<open>The pixels\<close>

definition glyph_bit :: "char \<Rightarrow> nat \<Rightarrow> nat \<Rightarrow> bool" where
  "glyph_bit ch i j = (msx ! (of_char ch * 8 + i) AND drop_bit j 128 \<noteq> 0)"

lemma poke_in: "p < length vram \<Longrightarrow> poke vram (int p) c = Some (vram[p := c])"
  by (simp add: poke_def)

lemma fill_pixels_in:
  assumes "p + n \<le> length vram"
  shows "\<exists>v. fill_pixels n (int p) c vram = Some v \<and> length v = length vram
    \<and> (\<forall>k < length vram. v ! k = (if p \<le> k \<and> k < p + n then c else vram ! k))"
  using assms
proof (induction n arbitrary: p vram)
  case (Suc n)
  have "fill_pixels (Suc n) (int p) c vram = fill_pixels n (int (p + 1)) c (vram[p := c])"
    using Suc.prems by (simp add: poke_in add.commute)
  moreover obtain v where v: "fill_pixels n (int (p + 1)) c (vram[p := c]) = Some v" "length v = length vram"
      "\<forall>k < length vram. v ! k = (if p + 1 \<le> k \<and> k < p + 1 + n then c else vram[p := c] ! k)"
    using Suc.IH [of "p + 1" "vram[p := c]"] Suc.prems by auto
  moreover have "v ! k = (if p \<le> k \<and> k < p + Suc n then c else vram ! k)" if "k < length vram" for k
    using v(3) that by (cases "k = p") (auto simp: nth_list_update)
  ultimately show ?case
    by auto
qed auto

lemma draw_row_in:
  assumes "j \<le> 8" "p + (8 - j) \<le> length vram"
  shows "\<exists>v. draw_row fg bg font j (int p) vram = Some v \<and> length v = length vram
    \<and> (\<forall>k < length vram. v ! k = (if p \<le> k \<and> k < p + (8 - j)
         then if font AND drop_bit (j + (k - p)) 128 \<noteq> 0 then fg else bg else vram ! k))"
  using assms
proof (induction "8 - j" arbitrary: j p vram)
  case 0
  then show ?case
    by (auto simp: draw_row.simps [of _ _ _ 8])
next
  case (Suc n)
  let ?c = "if font AND drop_bit j 128 \<noteq> 0 then fg else bg"
  have j: "j < 8" and n: "n = 8 - (j + 1)"
    using Suc by simp_all
  have "draw_row fg bg font j (int p) vram = draw_row fg bg font (j + 1) (int (p + 1)) (vram[p := ?c])"
    using Suc.prems j by (simp add: draw_row.simps [of _ _ _ j] poke_in add.commute)
  moreover have h: "j + 1 \<le> 8" "p + 1 + (8 - (j + 1)) \<le> length (vram[p := ?c])"
    using Suc.prems j by simp_all
  obtain v where v: "draw_row fg bg font (j + 1) (int (p + 1)) (vram[p := ?c]) = Some v" "length v = length (vram[p := ?c])"
      "\<forall>k < length (vram[p := ?c]). v ! k = (if p + 1 \<le> k \<and> k < p + 1 + (8 - (j + 1))
         then if font AND drop_bit (j + 1 + (k - (p + 1))) 128 \<noteq> 0 then fg else bg else vram[p := ?c] ! k)"
    using Suc.hyps(1) [OF n h] by blast
  moreover have "v ! k = (if p \<le> k \<and> k < p + (8 - j)
         then if font AND drop_bit (j + (k - p)) 128 \<noteq> 0 then fg else bg else vram ! k)" if k: "k < length vram" for k
  proof (cases "p + 1 \<le> k \<and> k < p + (8 - j)")
    case True
    then have "j + 1 + (k - (p + 1)) = j + (k - p)"
      by arith
    then show ?thesis
      using v(3) k True j by auto
  next
    case False
    then show ?thesis
      using v(3) k j by (cases "k = p") (auto simp: nth_list_update)
  qed
  ultimately show ?case
    by auto
qed

lemma in_row:
  fixes k x y :: nat
  assumes "x + 8 \<le> 960"
  shows "x + y * 960 \<le> k \<and> k < x + y * 960 + 8 \<longleftrightarrow> k div 960 = y \<and> x \<le> k mod 960 \<and> k mod 960 < x + 8"
proof
  assume a: "x + y * 960 \<le> k \<and> k < x + y * 960 + 8"
  then have "k div 960 = y"
    using assms by (intro div_nat_eqI) auto
  then show "k div 960 = y \<and> x \<le> k mod 960 \<and> k mod 960 < x + 8"
    using a mult_div_mod_eq [of 960 k] by simp
next
  assume a: "k div 960 = y \<and> x \<le> k mod 960 \<and> k mod 960 < x + 8"
  then show "x + y * 960 \<le> k \<and> k < x + y * 960 + 8"
    using mult_div_mod_eq [of 960 k] by simp
qed

lemma draw_rows_in:
  assumes "i \<le> 8" "x + 8 \<le> 960" "(y + 8) * 960 \<le> length vram"
  shows "\<exists>v. draw_rows fg bg (of_char ch * 8) i (int (x + (y + i) * 960)) vram = Some v \<and> length v = length vram
    \<and> (\<forall>k < length vram. v ! k = (if y + i \<le> k div 960 \<and> k div 960 < y + 8 \<and> x \<le> k mod 960 \<and> k mod 960 < x + 8
         then if glyph_bit ch (k div 960 - y) (k mod 960 - x) then fg else bg else vram ! k))"
  using assms
proof (induction "8 - i" arbitrary: i vram)
  case 0
  then show ?case
    by (auto simp: draw_rows.simps [of _ _ _ 8])
next
  case (Suc n)
  let ?p = "x + (y + i) * 960"
  let ?font = "msx ! (of_char ch * 8 + i)"
  have i: "i < 8" and n: "n = 8 - (i + 1)"
    using Suc by simp_all
  have m: "of_char ch * 8 + i < length msx"
    using i nat_of_char_less_256 [of ch] unfolding length_msx by linarith
  have "(y + i + 1) * 960 \<le> (y + 8) * 960"
    using i by (intro mult_le_mono1) simp
  then have "?p + 8 \<le> length vram"
    using Suc.prems by simp
  then obtain v1 where v1: "draw_row fg bg ?font 0 (int ?p) vram = Some v1" "length v1 = length vram"
      "\<forall>k < length vram. v1 ! k = (if ?p \<le> k \<and> k < ?p + 8 then if ?font AND drop_bit (k - ?p) 128 \<noteq> 0 then fg else bg
         else vram ! k)"
    using draw_row_in [of 0 ?p vram fg bg ?font] by auto
  have "draw_rows fg bg (of_char ch * 8) i (int ?p) vram
      = draw_rows fg bg (of_char ch * 8) (i + 1) (int (x + (y + (i + 1)) * 960)) v1"
    using i m v1(1) by (simp add: draw_rows.simps [of _ _ _ i] LINE_SIZE_def algebra_simps)
  moreover obtain v where v: "draw_rows fg bg (of_char ch * 8) (i + 1) (int (x + (y + (i + 1)) * 960)) v1 = Some v"
      "length v = length v1"
      "\<forall>k < length v1. v ! k = (if y + (i + 1) \<le> k div 960 \<and> k div 960 < y + 8 \<and> x \<le> k mod 960 \<and> k mod 960 < x + 8
         then if glyph_bit ch (k div 960 - y) (k mod 960 - x) then fg else bg else v1 ! k)"
    using Suc.hyps(1) [OF n, of v1] Suc.prems i v1(2) by auto
  moreover have "v ! k = (if y + i \<le> k div 960 \<and> k div 960 < y + 8 \<and> x \<le> k mod 960 \<and> k mod 960 < x + 8
         then if glyph_bit ch (k div 960 - y) (k mod 960 - x) then fg else bg else vram ! k)" if k: "k < length vram" for k
  proof (cases "k div 960 = y + i \<and> x \<le> k mod 960 \<and> k mod 960 < x + 8")
    case True
    then have "k - ?p = k mod 960 - x"
      using mult_div_mod_eq [of 960 k] by simp
    then show ?thesis
      using True i k v(3) v1(2,3) in_row [OF Suc.prems(2), of "y + i" k] by (simp add: glyph_bit_def)
  next
    case False
    then show ?thesis
      using k v(3) v1(2,3) in_row [OF Suc.prems(2), of "y + i" k] by auto
  qed
  ultimately show ?case
    using v1(2) by auto
qed

section \<open>The grid of characters\<close>

text \<open>
  What a cell shows: what the memory held when the screen was set up, the background of a cleared screen, or a
  character.
\<close>

datatype cell = Untouched | Blank | Glyph char

record screen =
  cells :: "nat \<Rightarrow> nat \<Rightarrow> cell"
  s_row :: nat
  s_col :: nat

definition set_cell :: "nat \<Rightarrow> nat \<Rightarrow> cell \<Rightarrow> (nat \<Rightarrow> nat \<Rightarrow> cell) \<Rightarrow> nat \<Rightarrow> nat \<Rightarrow> cell" where
  "set_cell r c x g = (\<lambda>r' c'. if r' = r \<and> c' = c then x else g r' c')"

definition wrap_line :: "screen \<Rightarrow> screen" where
  "wrap_line s = (if 120 \<le> s_col s then s\<lparr>s_row := s_row s + 1, s_col := 0\<rparr> else s)"

definition wrap_screen :: "screen \<Rightarrow> screen" where
  "wrap_screen s = (if 68 \<le> s_row s then \<lparr>cells = \<lambda>_ _. Blank, s_row = 0, s_col = 0\<rparr> else s)"

definition put_char :: "char \<Rightarrow> screen \<Rightarrow> screen" where
  "put_char ch s =
     (let s = wrap_screen (wrap_line s) in
      if ch = CHR 0x0A then s\<lparr>s_row := s_row s + 1, s_col := 0\<rparr>
      else if ch = CHR 0x0D then s\<lparr>s_col := 0\<rparr>
      else s\<lparr>cells := set_cell (s_row s) (s_col s) (Glyph ch) (cells s), s_col := s_col s + 1\<rparr>)"

definition put_text :: "char list \<Rightarrow> screen \<Rightarrow> screen" where
  "put_text cs s = fold put_char cs s"

text \<open>The colour of pixel \<open>k\<close> of the block, \<open>old\<close> being what the block held at first.\<close>

definition cell_pixel :: "u32 \<Rightarrow> u32 \<Rightarrow> u32 \<Rightarrow> cell \<Rightarrow> nat \<Rightarrow> nat \<Rightarrow> u32" where
  "cell_pixel old fg bg x i j =
     (case x of Untouched \<Rightarrow> old | Blank \<Rightarrow> bg | Glyph ch \<Rightarrow> if glyph_bit ch i j then fg else bg)"

definition picture :: "u32 list \<Rightarrow> u32 \<Rightarrow> u32 \<Rightarrow> (nat \<Rightarrow> nat \<Rightarrow> cell) \<Rightarrow> nat \<Rightarrow> u32" where
  "picture old fg bg g k =
     (let x = k mod 960; y = k div 960 in
      if y < 544 then cell_pixel (old ! k) fg bg (g (y div 8) (x div 8)) (y mod 8) (x mod 8) else old ! k)"

definition shows_cells :: "u32 list \<Rightarrow> (nat \<Rightarrow> nat \<Rightarrow> cell) \<Rightarrow> console \<Rightarrow> bool" where
  "shows_cells old g st \<longleftrightarrow>
     (\<exists>v. g_vram_base st = Some v \<and> length v = length old
        \<and> (\<forall>k < length old. v ! k = picture old (g_fg_color st) (g_bg_color st) g k))"

definition shows_screen :: "u32 list \<Rightarrow> screen \<Rightarrow> console \<Rightarrow> bool" where
  "shows_screen old s st \<longleftrightarrow> shows_cells old (cells s) st
     \<and> gX st = 8 * int (s_col s) \<and> gY st = 8 * int (s_row s) \<and> s_col s \<le> 120 \<and> s_row s \<le> 68"

lemma cell_of_pixel:
  fixes k r c :: nat
  shows "8 * r \<le> k div 960 \<and> k div 960 < 8 * r + 8 \<and> 8 * c \<le> k mod 960 \<and> k mod 960 < 8 * c + 8
    \<longleftrightarrow> k div 960 div 8 = r \<and> k mod 960 div 8 = c"
proof -
  have "8 * q \<le> n \<and> n < 8 * q + 8 \<longleftrightarrow> n div 8 = q" for q n :: nat
    by (auto intro: div_nat_eqI)
  then show ?thesis
    by metis
qed

lemma clear_shows:
  assumes "shows_cells old g st" "544 * 960 \<le> length old"
  obtains v where "psvDebugScreenClear (g_bg_color st) st = Some (st\<lparr>gX := 0, gY := 0, g_vram_base := Some v\<rparr>)"
    "shows_cells old (\<lambda>_ _. Blank) (st\<lparr>gX := 0, gY := 0, g_vram_base := Some v\<rparr>)"
proof -
  obtain u where u: "g_vram_base st = Some u" "length u = length old"
      "\<forall>k < length old. u ! k = picture old (g_fg_color st) (g_bg_color st) g k"
    using assms(1) by (auto simp: shows_cells_def)
  have n: "nat (SCREEN_WIDTH * SCREEN_HEIGHT) = 544 * 960"
    by (simp add: screen_consts)
  obtain v where v: "fill_pixels (544 * 960) 0 (g_bg_color st) u = Some v" "length v = length u"
      "\<forall>k < length u. v ! k = (if k < 544 * 960 then g_bg_color st else u ! k)"
    using fill_pixels_in [of 0 "544 * 960" u "g_bg_color st"] assms(2) u(2) by auto
  have "v ! k = picture old (g_fg_color st) (g_bg_color st) (\<lambda>_ _. Blank) k" if "k < length old" for k
  proof -
    have "k < 544 * 960 \<longleftrightarrow> k div 960 < 544"
      by (rule div_less_iff_less_mult [symmetric]) simp
    then show ?thesis
      using v(3) u(2,3) that by (auto simp: picture_def cell_pixel_def Let_def)
  qed
  then have "shows_cells old (\<lambda>_ _. Blank) (st\<lparr>gX := 0, gY := 0, g_vram_base := Some v\<rparr>)"
    using u(2) v(2) by (simp add: shows_cells_def)
  moreover have "psvDebugScreenClear (g_bg_color st) st = Some (st\<lparr>gX := 0, gY := 0, g_vram_base := Some v\<rparr>)"
    unfolding psvDebugScreenClear_def n using u(1) v(1) by simp
  ultimately show thesis
    using that by blast
qed

lemma glyph_shows:
  assumes "shows_cells old g st" "544 * 960 \<le> length old" "r < 68" "c < 120"
  obtains u v where "g_vram_base st = Some u"
    "draw_rows (g_fg_color st) (g_bg_color st) (of_char ch * 8) 0 (8 * int c + 8 * int r * LINE_SIZE) u = Some v"
    "shows_cells old (set_cell r c (Glyph ch) g) (st\<lparr>g_vram_base := Some v\<rparr>)"
proof -
  obtain u where u: "g_vram_base st = Some u" "length u = length old"
      "\<forall>k < length old. u ! k = picture old (g_fg_color st) (g_bg_color st) g k"
    using assms(1) by (auto simp: shows_cells_def)
  have b: "8 * c + 8 \<le> 960" "(8 * r + 8) * 960 \<le> length u"
    using assms(2-4) u(2) by simp_all
  have p: "int (8 * c + (8 * r + 0) * 960) = 8 * int c + 8 * int r * LINE_SIZE"
    by (simp add: LINE_SIZE_def)
  obtain v where v: "draw_rows (g_fg_color st) (g_bg_color st) (of_char ch * 8) 0 (8 * int c + 8 * int r * LINE_SIZE) u = Some v"
      "length v = length u"
      "\<forall>k < length u. v ! k = (if 8 * r + 0 \<le> k div 960 \<and> k div 960 < 8 * r + 8 \<and> 8 * c \<le> k mod 960 \<and> k mod 960 < 8 * c + 8
         then if glyph_bit ch (k div 960 - 8 * r) (k mod 960 - 8 * c) then g_fg_color st else g_bg_color st else u ! k)"
    using draw_rows_in [OF _ b, of 0 "g_fg_color st" "g_bg_color st" ch] unfolding p by auto
  have "v ! k = picture old (g_fg_color st) (g_bg_color st) (set_cell r c (Glyph ch) g) k" if k: "k < length old" for k
  proof (cases "k div 960 div 8 = r \<and> k mod 960 div 8 = c")
    case True
    then have "k div 960 - 8 * r = k div 960 mod 8" "k mod 960 - 8 * c = k mod 960 mod 8" "k div 960 < 544"
      using assms(3) by (auto simp: minus_mult_div_eq_mod)
    then show ?thesis
      using v(3) u(2) k True cell_of_pixel [of r k c] by (simp add: picture_def cell_pixel_def set_cell_def Let_def)
  next
    case False
    have "v ! k = u ! k"
      using v(3) u(2) k False by (auto simp: cell_of_pixel)
    moreover have "set_cell r c (Glyph ch) g (k div 960 div 8) (k mod 960 div 8) = g (k div 960 div 8) (k mod 960 div 8)"
      using False by (auto simp: set_cell_def)
    ultimately show ?thesis
      using u(3) k by (simp add: picture_def Let_def)
  qed
  then show thesis
    using that [OF u(1) v(1)] u(2) v(2) by (simp add: shows_cells_def)
qed

text \<open>Printing one character does to the picture what it does to the grid.\<close>

lemma print_char_shows:
  assumes "shows_screen old s st" "544 * 960 \<le> length old"
  shows "\<exists>st'. print_char ch st = Some st' \<and> shows_screen old (put_char ch s) st'
    \<and> g_fg_color st' = g_fg_color st \<and> g_bg_color st' = g_bg_color st"
proof -
  note at = assms(1) [unfolded shows_screen_def]
  define s1 where "s1 = wrap_line s"
  define st1 where "st1 = (if 120 \<le> s_col s then st\<lparr>gY := gY st + 8, gX := 0\<rparr> else st)"
  have one: "(do { right \<leftarrow> add_int (gX st) 8;
      if right > SCREEN_WIDTH then do { y \<leftarrow> add_int (gY st) 8; Some (st\<lparr>gY := y, gX := 0\<rparr>) } else Some st }) = Some st1"
    using at by (simp add: add_int_def screen_consts st1_def)
  have r1: "shows_cells old (cells s1) st1" "gX st1 = 8 * int (s_col s1)" "gY st1 = 8 * int (s_row s1)" "s_col s1 < 120"
      "s_row s1 \<le> 69" "g_fg_color st1 = g_fg_color st" "g_bg_color st1 = g_bg_color st"
    using at by (auto simp: s1_def st1_def wrap_line_def shows_cells_def)
  define s2 where "s2 = wrap_screen s1"
  obtain st2 where two: "(do { bottom \<leftarrow> add_int (gY st1) 8;
      if bottom > SCREEN_HEIGHT then psvDebugScreenClear (g_bg_color st1) (st1\<lparr>gY := 0\<rparr>) else Some st1 }) = Some st2"
    and r2: "shows_cells old (cells s2) st2" "gX st2 = 8 * int (s_col s2)" "gY st2 = 8 * int (s_row s2)" "s_col s2 < 120"
      "s_row s2 < 68" "g_fg_color st2 = g_fg_color st" "g_bg_color st2 = g_bg_color st"
  proof (cases "68 \<le> s_row s1")
    case True
    have "shows_cells old (cells s1) (st1\<lparr>gY := 0\<rparr>)"
      using r1(1) by (simp add: shows_cells_def)
    from clear_shows [OF this assms(2)] obtain v where
      c: "psvDebugScreenClear (g_bg_color st1) (st1\<lparr>gY := 0\<rparr>) = Some (st1\<lparr>gX := 0, gY := 0, g_vram_base := Some v\<rparr>)"
         "shows_cells old (\<lambda>_ _. Blank) (st1\<lparr>gX := 0, gY := 0, g_vram_base := Some v\<rparr>)"
      by auto
    show thesis
      using that [of "st1\<lparr>gX := 0, gY := 0, g_vram_base := Some v\<rparr>"] c r1 True
      by (simp add: add_int_def screen_consts s2_def wrap_screen_def)
  next
    case False
    then show thesis
      using that [of st1] r1 by (simp add: add_int_def screen_consts s2_def wrap_screen_def)
  qed
  have put: "put_char ch s = (if ch = CHR 0x0A then s2\<lparr>s_row := s_row s2 + 1, s_col := 0\<rparr>
      else if ch = CHR 0x0D then s2\<lparr>s_col := 0\<rparr>
      else s2\<lparr>cells := set_cell (s_row s2) (s_col s2) (Glyph ch) (cells s2), s_col := s_col s2 + 1\<rparr>)"
    by (simp add: put_char_def s1_def s2_def Let_def)
  define rest :: "console \<Rightarrow> console option" where "rest = (\<lambda>st. if ch = CHR 0x0A then do { y \<leftarrow> add_int (gY st) 8; Some (st\<lparr>gX := 0, gY := y\<rparr>) }
     else if ch = CHR 0x0D then Some (st\<lparr>gX := 0\<rparr>)
     else do {
       vram \<leftarrow> g_vram_base st;
       vram \<leftarrow> draw_rows (g_fg_color st) (g_bg_color st) (of_char ch * 8) 0 (gX st + gY st * LINE_SIZE) vram;
       x \<leftarrow> add_int (gX st) 8;
       Some (st\<lparr>g_vram_base := Some vram, gX := x\<rparr>) })"
  have "print_char ch st = do {
     st \<leftarrow> (do { right \<leftarrow> add_int (gX st) 8;
        if right > SCREEN_WIDTH then do { y \<leftarrow> add_int (gY st) 8; Some (st\<lparr>gY := y, gX := 0\<rparr>) } else Some st });
     st \<leftarrow> (do { bottom \<leftarrow> add_int (gY st) 8;
        if bottom > SCREEN_HEIGHT then psvDebugScreenClear (g_bg_color st) (st\<lparr>gY := 0\<rparr>) else Some st });
     rest st }"
    by (simp add: print_char_def rest_def)
  then have p: "print_char ch st = rest st2"
    by (simp only: one two Option.bind.simps)
  show ?thesis
  proof (cases "ch = CHR 0x0A \<or> ch = CHR 0x0D")
    case True
    then show ?thesis
      using r2 unfolding p put rest_def by (auto simp: shows_screen_def shows_cells_def add_int_def)
  next
    case False
    from glyph_shows [OF r2(1) assms(2) r2(5,4), of ch] obtain u v where
      d: "g_vram_base st2 = Some u"
         "draw_rows (g_fg_color st2) (g_bg_color st2) (of_char ch * 8) 0 (8 * int (s_col s2) + 8 * int (s_row s2) * LINE_SIZE) u = Some v"
         "shows_cells old (set_cell (s_row s2) (s_col s2) (Glyph ch) (cells s2)) (st2\<lparr>g_vram_base := Some v\<rparr>)"
      by blast
    have "shows_cells old (set_cell (s_row s2) (s_col s2) (Glyph ch) (cells s2)) (st2\<lparr>g_vram_base := Some v, gX := 8 * int (s_col s2) + 8\<rparr>)"
      using d(3) by (simp add: shows_cells_def)
    moreover have "rest st2 = Some (st2\<lparr>g_vram_base := Some v, gX := 8 * int (s_col s2) + 8\<rparr>)"
      using False d(1,2) r2(2-4) by (simp add: rest_def add_int_def)
    ultimately show ?thesis
      using False r2 unfolding p put by (simp add: shows_screen_def)
  qed
qed


lemma print_chars_shows:
  assumes "shows_screen old s st" "544 * 960 \<le> length old"
  shows "\<exists>st'. print_chars cs st = Some st' \<and> shows_screen old (put_text cs s) st'
    \<and> g_fg_color st' = g_fg_color st \<and> g_bg_color st' = g_bg_color st"
  using assms(1)
proof (induction cs arbitrary: s st)
  case (Cons ch cs)
  obtain st1 where "print_char ch st = Some st1" "shows_screen old (put_char ch s) st1"
      "g_fg_color st1 = g_fg_color st" "g_bg_color st1 = g_bg_color st"
    using print_char_shows [OF Cons.prems assms(2)] by blast
  then show ?case
    using Cons.IH [of "put_char ch s" st1] by (simp add: put_text_def)
qed (simp add: put_text_def)

lemma printf_shows:
  assumes "shows_screen old s st" "544 * 960 \<le> length old" "plain msg" "CHR ''%'' \<notin> set msg" "length msg < 0x1000"
  shows "\<exists>st'. psvDebugScreenPrintf (lit msg) st = Some st' \<and> shows_screen old (put_text msg s) st'
    \<and> g_fg_color st' = g_fg_color st \<and> g_bg_color st' = g_bg_color st"
  using print_chars_shows [OF assms(1,2), of msg] assms(3-5)
  by (simp add: psvDebugScreenPrintf_def printTextScreen_def cstr_append_NUL)

text \<open>A text without control characters that fits the line.\<close>

definition line_cells :: "nat \<Rightarrow> nat \<Rightarrow> char list \<Rightarrow> (nat \<Rightarrow> nat \<Rightarrow> cell) \<Rightarrow> nat \<Rightarrow> nat \<Rightarrow> cell" where
  "line_cells r c cs g = (\<lambda>r' c'. if r' = r \<and> c \<le> c' \<and> c' < c + length cs then Glyph (cs ! (c' - c)) else g r' c')"

lemma line_cells_Cons: "line_cells r (c + 1) cs (set_cell r c (Glyph ch) g) = line_cells r c (ch # cs) g"
proof (intro ext)
  fix r' c'
  show "line_cells r (c + 1) cs (set_cell r c (Glyph ch) g) r' c' = line_cells r c (ch # cs) g r' c'"
    by (cases "c' = c") (auto simp: line_cells_def set_cell_def nth_Cons' Suc_diff_le)
qed

lemma line_cells_Nil: "line_cells r c [] g = g"
  by (intro ext) (auto simp: line_cells_def)

lemma put_text_line:
  assumes "set cs \<inter> {CHR 0x0A, CHR 0x0D} = {}" "s_col s + length cs \<le> 120" "s_row s < 68"
  shows "put_text cs s = s\<lparr>cells := line_cells (s_row s) (s_col s) cs (cells s), s_col := s_col s + length cs\<rparr>"
  using assms
proof (induction cs arbitrary: s)
  case (Cons ch cs)
  let ?s = "s\<lparr>cells := set_cell (s_row s) (s_col s) (Glyph ch) (cells s), s_col := s_col s + 1\<rparr>"
  have "put_char ch s = ?s"
    using Cons.prems by (auto simp: put_char_def wrap_line_def wrap_screen_def Let_def)
  then have "put_text (ch # cs) s = put_text cs ?s"
    by (simp add: put_text_def)
  also have "\<dots> = ?s\<lparr>cells := line_cells (s_row s) (s_col s + 1) cs (set_cell (s_row s) (s_col s) (Glyph ch) (cells s)),
      s_col := s_col s + 1 + length cs\<rparr>"
    using Cons.IH [of ?s] Cons.prems by simp
  finally show ?case
    unfolding line_cells_Cons by simp
qed (simp add: put_text_def line_cells_Nil)

lemma put_text_append: "put_text (a @ b) s = put_text b (put_text a s)"
  by (simp add: put_text_def)

section \<open>What the user sees\<close>

definition fresh_screen :: screen where
  "fresh_screen = \<lparr>cells = \<lambda>_ _. Untouched, s_row = 0, s_col = 0\<rparr>"

definition one_line :: "nat \<Rightarrow> char list \<Rightarrow> (nat \<Rightarrow> nat \<Rightarrow> cell) \<Rightarrow> screen" where
  "one_line r cs g = \<lparr>cells = line_cells r 0 cs g, s_row = r, s_col = length cs\<rparr>"

lemma short_messages:
  "plain unsafe_message \<and> CHR ''%'' \<notin> set unsafe_message \<and> length unsafe_message = 63"
  "plain missing_message \<and> CHR ''%'' \<notin> set missing_message \<and> length missing_message = 41"
  "plain install_message \<and> CHR ''%'' \<notin> set install_message \<and> length install_message = 69"
  "plain kernel_message \<and> CHR ''%'' \<notin> set kernel_message \<and> length kernel_message = 90"
  by (simp_all add: unsafe_message_def missing_message_def install_message_def kernel_message_def)

lemma first_line:
  assumes "set cs \<inter> {CHR 0x0A, CHR 0x0D} = {}" "length cs \<le> 120"
  shows "put_text cs fresh_screen = one_line 0 cs (\<lambda>_ _. Untouched)"
  using put_text_line [OF assms(1), of fresh_screen] assms(2) by (simp add: fresh_screen_def one_line_def)

lemma missing_lines:
  "put_text (missing_message @ install_message) fresh_screen
     = one_line 2 install_message (line_cells 0 0 ''Adrenaline has not been installed yet.'' (\<lambda>_ _. Untouched))"
proof -
  have "put_text ''Adrenaline has not been installed yet.'' fresh_screen
      = one_line 0 ''Adrenaline has not been installed yet.'' (\<lambda>_ _. Untouched)"
    by (rule first_line) simp_all
  then have "put_text missing_message fresh_screen = put_text [CHR 0x0D, CHR 0x0A, CHR 0x0A]
      (one_line 0 ''Adrenaline has not been installed yet.'' (\<lambda>_ _. Untouched))"
    by (simp only: missing_message_def put_text_append)
  also have "\<dots> = \<lparr>cells = line_cells 0 0 ''Adrenaline has not been installed yet.'' (\<lambda>_ _. Untouched), s_row = 2, s_col = 0\<rparr>"
    by (simp add: one_line_def put_text_def put_char_def wrap_line_def wrap_screen_def Let_def)
  finally have "put_text missing_message fresh_screen
      = \<lparr>cells = line_cells 0 0 ''Adrenaline has not been installed yet.'' (\<lambda>_ _. Untouched), s_row = 2, s_col = 0\<rparr>" .
  moreover have "set install_message \<inter> {CHR 0x0A, CHR 0x0D} = {}"
    by (simp add: install_message_def)
  ultimately show ?thesis
    unfolding put_text_append using short_messages(3) by (simp add: put_text_line one_line_def)
qed

lemma init_shows:
  assumes "\<forall>b w. fst (eb_base sys b w) = Some old"
  obtains st w' where "psvDebugScreenInit sys console_bss w = (st, w')" "shows_screen old fresh_screen st"
proof -
  have "shows_screen old fresh_screen (fst (psvDebugScreenInit sys console_bss w))"
  proof -
    have "picture old fg bg (cells fresh_screen) k = old ! k" for fg bg k
      by (simp add: picture_def fresh_screen_def cell_pixel_def Let_def)
    then show ?thesis
      using assms by (simp add: psvDebugScreenInit_def console_bss_def shows_screen_def shows_cells_def fresh_screen_def case_prod_beta Let_def)
  qed
  then show thesis
    using that by (metis prod.collapse)
qed

text \<open>
  C25: the text screen of the ebooter shows what is printed. The pixels of the frame buffer are the picture of a grid of
  68 lines of 120 characters on which the text is written from the cursor: a line that is full and a line feed go to the
  next one, a carriage return to its start, and after the last line the screen is cleared and starts again. No text
  makes the drawing leave the frame buffer, and the memory behind the visible part stays as it was.
\<close>

theorem text_screen_refines:
  assumes "shows_screen old s st" and "544 * 960 \<le> length old" and "terminated msg"
  shows "\<exists>st'. printTextScreen msg st = Some st' \<and> shows_screen old (put_text (cstr msg) s) st'"
  using print_chars_shows [OF assms(1,2)] assms(3) by (auto simp: printTextScreen_def)

theorem text_screen_refines_witness:
  "\<exists>st'. printTextScreen (lit ''Hi'') \<lparr>g_vram_base = Some (replicate 524288 0), gX = 0, gY = 0, g_fg_color = 1, g_bg_color = 0\<rparr> = Some st'
     \<and> shows_screen (replicate 524288 0) (one_line 0 ''Hi'' (\<lambda>_ _. Untouched)) st'"
proof -
  have "shows_screen (replicate 524288 0) fresh_screen
      \<lparr>g_vram_base = Some (replicate 524288 0), gX = 0, gY = 0, g_fg_color = 1, g_bg_color = 0\<rparr>"
    by (simp add: shows_screen_def shows_cells_def fresh_screen_def picture_def cell_pixel_def Let_def)
  from text_screen_refines [OF this, of "lit ''Hi''"] first_line [of "''Hi''"] show ?thesis
    by simp
qed

text \<open>What the three checks come to, from the four answers of the kernel, and the screen that goes with it.\<close>

definition may_start :: "int \<Rightarrow> int \<Rightarrow> int \<Rightarrow> int \<Rightarrow> bool" where
  "may_start dev bin pbp res \<longleftrightarrow> (of_int dev :: u32) \<noteq> 0x80010030 \<and> (0 \<le> bin \<or> 0 \<le> pbp) \<and> 0 \<le> res"

definition stop_screen :: "int \<Rightarrow> int \<Rightarrow> int \<Rightarrow> screen" where
  "stop_screen dev bin pbp =
     (if (of_int dev :: u32) = 0x80010030 then one_line 0 unsafe_message (\<lambda>_ _. Untouched)
      else if bin < 0 \<and> pbp < 0
        then one_line 2 install_message (line_cells 0 0 ''Adrenaline has not been installed yet.'' (\<lambda>_ _. Untouched))
        else one_line 0 kernel_message (\<lambda>_ _. Untouched))"

lemma message_shows:
  assumes "shows_screen old fresh_screen st" "544 * 960 \<le> length old"
    and "plain msg \<and> CHR ''%'' \<notin> set msg \<and> length msg = n" "n \<le> 120" "set msg \<inter> {CHR 0x0A, CHR 0x0D} = {}"
  shows "\<exists>st'. psvDebugScreenPrintf (lit msg) st = Some st' \<and> shows_screen old (one_line 0 msg (\<lambda>_ _. Untouched)) st'"
  using printf_shows [OF assms(1,2), of msg] first_line [of msg] assms(3-5) by auto

lemma missing_shows:
  assumes "shows_screen old fresh_screen st" "544 * 960 \<le> length old"
  shows "\<exists>st1 st2. psvDebugScreenPrintf (lit missing_message) st = Some st1 \<and> psvDebugScreenPrintf (lit install_message) st1 = Some st2
    \<and> shows_screen old (one_line 2 install_message (line_cells 0 0 ''Adrenaline has not been installed yet.'' (\<lambda>_ _. Untouched))) st2"
proof -
  obtain st1 where 1: "psvDebugScreenPrintf (lit missing_message) st = Some st1" "shows_screen old (put_text missing_message fresh_screen) st1"
    using printf_shows [OF assms, of missing_message] short_messages(2) by auto
  obtain st2 where "psvDebugScreenPrintf (lit install_message) st1 = Some st2"
      "shows_screen old (put_text install_message (put_text missing_message fresh_screen)) st2"
    using printf_shows [OF 1(2) assms(2), of install_message] short_messages(3) by auto
  then show ?thesis
    using 1(1) missing_lines by (auto simp: put_text_append)
qed

text \<open>
  C26: the ebooter lets the bubble go on exactly when unsafe homebrew is enabled, Adrenaline is installed and its kernel
  module could be loaded. Otherwise it stays in a loop, and the reason is on the screen, in the top line or, when
  Adrenaline is missing, in the first and the third; the rest of the screen is what the memory held.
\<close>

theorem ebooter_checks:
  assumes "\<forall>b w. fst (eb_base sys b w) = Some old" and "544 * 960 \<le> length old"
    and "\<forall>w. fst (eb_devctl sys ''ux0:'' 0x3001 w) = dev"
    and "\<forall>w. fst (eb_getstat sys ''ux0:app/PSPEMUCFW/eboot.bin'' w) = bin"
    and "\<forall>w. fst (eb_getstat sys ''ux0:app/PSPEMUCFW/eboot.pbp'' w) = pbp"
    and "\<forall>w. fst (eb_load_kernel sys ''ux0:app/PSPEMUCFW/sce_module/adrenaline_kernel.skprx'' w) = res"
  shows "if may_start dev bin pbp res then \<exists>st w'. ebooter_main sys w = Some (Returned 0 st w') \<and> shows_screen old fresh_screen st
     else \<exists>st w'. ebooter_main sys w = Some (Hangs st w') \<and> shows_screen old (stop_screen dev bin pbp) st"
proof -
  obtain st w1 where i: "psvDebugScreenInit sys console_bss w = (st, w1)" "shows_screen old fresh_screen st"
    using init_shows [OF assms(1)] by blast
  have msgs: "set unsafe_message \<inter> {CHR 0x0A, CHR 0x0D} = {}" "set kernel_message \<inter> {CHR 0x0A, CHR 0x0D} = {}"
    by (simp_all add: unsafe_message_def kernel_message_def)
  note m = message_shows [OF i(2) assms(2) short_messages(1) _ msgs(1)] missing_shows [OF i(2) assms(2)]
    message_shows [OF i(2) assms(2) short_messages(4) _ msgs(2)]
  consider (unsafe) "(of_int dev :: u32) = 0x80010030" | (missing) "(of_int dev :: u32) \<noteq> 0x80010030" "bin < 0" "pbp < 0"
    | (present) "(of_int dev :: u32) \<noteq> 0x80010030" "0 \<le> bin \<or> 0 \<le> pbp"
    by linarith
  then show ?thesis
  proof cases
    case unsafe
    then show ?thesis
      using m(1) i(1) assms(3) by (auto simp: ebooter_main_def may_start_def stop_screen_def split_def Let_def)
  next
    case missing
    then show ?thesis
      using m(2) i(1) assms(3-5) by (auto simp: ebooter_main_def may_start_def stop_screen_def split_def Let_def)
  next
    case present
    then show ?thesis
      using m(3) i assms(3-6) by (auto simp: ebooter_main_def may_start_def stop_screen_def split_def Let_def)
  qed
qed

text \<open>A console where nothing is installed.\<close>

definition bare_console :: "unit ebooter_sys" where
  "bare_console = \<lparr>eb_alloc = \<lambda>w. (1, w), eb_base = \<lambda>b w. (Some (replicate 524288 0), w), eb_set_frame_buf = \<lambda>b w. w,
     eb_devctl = \<lambda>d c w. (0, w), eb_getstat = \<lambda>p w. (-1, w), eb_load_kernel = \<lambda>p w. (-1, w)\<rparr>"

theorem ebooter_checks_witness:
  "\<exists>st w'. ebooter_main bare_console () = Some (Hangs st w') \<and> shows_screen (replicate 524288 0) (stop_screen 0 (-1) (-1)) st"
  using ebooter_checks [of bare_console "replicate 524288 0" 0 "-1" "-1" "-1" "()"]
  by (simp add: bare_console_def may_start_def)

end
