(* ===== verification/Btcnf.thy ===== *)
theory Btcnf
  imports Reboot BootInfo
begin

text \<open>
  \<open>InsertModule\<close> of \<open>overlay/cef/payloadex/main.c\<close> and \<open>rebootex/main.c\<close>: the name of a module is added to a boot
  configuration that is being loaded, in front of the entry of another one. The file starts with a header and holds a
  table of modes, a table of modules and the names of the modules, one after the other. The layout of the header and of
  the entries is in a header outside the repository: \<open>btcnf_layout\<close> reads and writes the fields the code uses.
\<close>

section \<open>The program\<close>

record btcnf_header =
  b_signature :: u32
  b_modestart :: u32
  b_nmodes :: u32
  b_modulestart :: u32
  b_nmodules :: u32
  b_modnamestart :: u32
  b_modnameend :: u32

record btcnf_layout =
  header_size :: nat
  get_header :: "byte list \<Rightarrow> btcnf_header"
  put_header :: "btcnf_header \<Rightarrow> byte list \<Rightarrow> byte list"
  entry_size :: nat
  stroffset :: "byte list \<Rightarrow> u32"
  put_entry :: "u32 \<Rightarrow> u32 \<Rightarrow> byte list \<Rightarrow> byte list"
  mode_size :: nat
  more_search :: "byte list \<Rightarrow> byte list"
  btcnf_magic :: u32

definition load_header :: "btcnf_layout \<Rightarrow> byte list \<Rightarrow> btcnf_header option" where
  "load_header L buf = do { bs \<leftarrow> obj_read buf 0 (header_size L); Some (get_header L bs) }"

definition name_at :: "byte list \<Rightarrow> nat \<Rightarrow> byte list option" where
  "name_at buf p = (if p \<le> length buf \<and> terminated (drop p buf) then Some (cstr (drop p buf)) else None)"

text \<open>The number of the first module with the name, or the number of modules.\<close>

function module_index :: "btcnf_layout \<Rightarrow> byte list \<Rightarrow> nat \<Rightarrow> nat \<Rightarrow> nat \<Rightarrow> byte list \<Rightarrow> nat \<Rightarrow> nat option" where
  "module_index L buf modules names n after i =
     (if i < n then do {
        e \<leftarrow> obj_read buf (modules + i * entry_size L) (entry_size L);
        name \<leftarrow> name_at buf (names + unat (stroffset L e));
        if name = after then Some i else module_index L buf modules names n after (i + 1) }
      else Some i)"
  by pat_completeness auto
termination by (relation "measure (\<lambda>(L, buf, modules, names, n, after, i). n - i)") auto

function update_modes :: "btcnf_layout \<Rightarrow> nat \<Rightarrow> nat \<Rightarrow> nat \<Rightarrow> byte list \<Rightarrow> byte list option" where
  "update_modes L modes n j buf =
     (if j < n then do {
        m \<leftarrow> obj_read buf (modes + j * mode_size L) (mode_size L);
        buf \<leftarrow> obj_write buf (modes + j * mode_size L) (more_search L m);
        update_modes L modes n (j + 1) buf }
      else Some buf)"
  by pat_completeness auto
termination by (relation "measure (\<lambda>(L, modes, n, j, buf). n - j)") auto

declare module_index.simps [simp del] update_modes.simps [simp del]

text \<open>The pointers are taken from the header before anything moves; the counts of the loops are read again.\<close>

definition InsertModule :: "btcnf_layout \<Rightarrow> byte list \<Rightarrow> byte list \<Rightarrow> u32 \<Rightarrow> byte list \<Rightarrow> (int \<times> byte list) option" where
  "InsertModule L new_module module_after flags buf = do {
     h \<leftarrow> load_header L buf;
     let modules = unat (b_modulestart h);
     let modes = unat (b_modestart h);
     let namestart = unat (b_modnamestart h);
     let nameend = unat (b_modnameend h);
     if b_signature h \<noteq> btcnf_magic L then Some (-1, buf)
     else do {
       let n = unat (b_nmodules h);
       i \<leftarrow> module_index L buf modules namestart n module_after 0;
       if i = n then Some (-2, buf)
       else do {
         let len = length new_module + 1;
         buf \<leftarrow> obj_write buf nameend (lit new_module);
         let tail = (n - i) * entry_size L + len + nameend;
         moved \<leftarrow> (if tail < namestart then None else obj_read buf (modules + i * entry_size L) (tail - namestart));
         buf \<leftarrow> obj_write buf (modules + (i + 1) * entry_size L) moved;
         e \<leftarrow> obj_read buf (modules + i * entry_size L) (entry_size L);
         buf \<leftarrow> obj_write buf (modules + i * entry_size L) (put_entry L (b_modnameend h - b_modnamestart h) flags e);
         h \<leftarrow> load_header L buf;
         hb \<leftarrow> obj_read buf 0 (header_size L);
         let h = h\<lparr>b_nmodules := b_nmodules h + 1, b_modnamestart := b_modnamestart h + of_nat (entry_size L),
                   b_modnameend := b_modnameend h + of_nat (len + entry_size L)\<rparr>;
         buf \<leftarrow> obj_write buf 0 (put_header L h hb);
         buf \<leftarrow> update_modes L modes (unat (b_nmodes h)) 0 buf;
         Some (0, buf) } } }"

text \<open>The check of the configuration is replaced: nothing is checked, and the module is inserted when there is one.\<close>

definition sceKernelCheckPspConfigPatched ::
  "btcnf_layout \<Rightarrow> (byte list \<times> u32) option \<Rightarrow> byte list \<Rightarrow> (int \<times> byte list) option"
where
  "sceKernelCheckPspConfigPatched L module_after buf =
     (case module_after of None \<Rightarrow> Some (0, buf)
      | Some (name, flags) \<Rightarrow> do { (_, buf) \<leftarrow> InsertModule L REBOOT_MODULE name flags buf; Some (0, buf) })"

section \<open>Well-formed files\<close>

text \<open>What the accesses to the fields promise, and a file in its parts.\<close>

definition layout_ok :: "btcnf_layout \<Rightarrow> bool" where
  "layout_ok L \<longleftrightarrow>
     (\<forall>h bs. length bs = header_size L \<longrightarrow> length (put_header L h bs) = header_size L \<and> get_header L (put_header L h bs) = h)
     \<and> (\<forall>off flags e. length e = entry_size L \<longrightarrow>
          length (put_entry L off flags e) = entry_size L \<and> stroffset L (put_entry L off flags e) = off)
     \<and> (\<forall>m. length m = mode_size L \<longrightarrow> length (more_search L m) = mode_size L)"

record btcnf =
  f_header :: "byte list"
  f_gap1 :: "byte list"
  f_modes :: "byte list list"
  f_gap2 :: "byte list"
  f_modules :: "byte list list"
  f_names :: "byte list"

definition btcnf_front :: "btcnf \<Rightarrow> byte list" where
  "btcnf_front f = f_header f @ f_gap1 f @ concat (f_modes f) @ f_gap2 f"

definition btcnf_bytes :: "btcnf \<Rightarrow> byte list" where
  "btcnf_bytes f = btcnf_front f @ concat (f_modules f) @ f_names f"

definition name_of :: "btcnf_layout \<Rightarrow> byte list \<Rightarrow> byte list \<Rightarrow> byte list" where
  "name_of L names e = cstr (drop (unat (stroffset L e)) names)"

definition module_names :: "btcnf_layout \<Rightarrow> btcnf \<Rightarrow> byte list list" where
  "module_names L f = map (name_of L (f_names f)) (f_modules f)"

definition entry_ok :: "btcnf_layout \<Rightarrow> byte list \<Rightarrow> byte list \<Rightarrow> bool" where
  "entry_ok L names e \<longleftrightarrow> length e = entry_size L \<and> unat (stroffset L e) \<le> length names
     \<and> terminated (drop (unat (stroffset L e)) names)"

definition btcnf_ok :: "btcnf_layout \<Rightarrow> btcnf \<Rightarrow> bool" where
  "btcnf_ok L f \<longleftrightarrow>
     length (f_header f) = header_size L
     \<and> (\<forall>m \<in> set (f_modes f). length m = mode_size L) \<and> (\<forall>e \<in> set (f_modules f). entry_ok L (f_names f) e)
     \<and> (let h = get_header L (f_header f) in
          b_signature h = btcnf_magic L
          \<and> unat (b_modestart h) = header_size L + length (f_gap1 f) \<and> unat (b_nmodes h) = length (f_modes f)
          \<and> unat (b_modulestart h) = length (btcnf_front f) \<and> unat (b_nmodules h) = length (f_modules f)
          \<and> unat (b_modnamestart h) = length (btcnf_front f) + length (concat (f_modules f))
          \<and> unat (b_modnameend h) = length (btcnf_bytes f))"

lemma obj_read_mid: "length a = p \<Longrightarrow> length b = k \<Longrightarrow> obj_read (a @ b @ c) p k = Some b"
  by (simp add: obj_read_def)

lemma obj_write_mid: "length a = p \<Longrightarrow> length bs = length b \<Longrightarrow> obj_write (a @ b @ c) p bs = Some (a @ bs @ c)"
  by (auto simp: obj_write_def overlay_at_def)

lemma length_concat_same: "\<forall>x \<in> set xs. length x = k \<Longrightarrow> length (concat xs) = length xs * k"
  by (induction xs) auto

lemma concat_at:
  assumes "i < length xs"
  shows "concat xs = concat (take i xs) @ xs ! i @ concat (drop (Suc i) xs)"
proof -
  have "concat xs = concat (take i xs @ xs ! i # drop (Suc i) xs)"
    by (rule arg_cong [OF id_take_nth_drop [OF assms]])
  then show ?thesis
    by (simp only: concat_append concat.simps append_assoc)
qed

lemma length_concat_take:
  assumes "\<forall>x \<in> set xs. length x = k" "i \<le> length xs"
  shows "length (concat (take i xs)) = i * k"
  using length_concat_same [of "take i xs" k] assms by (auto dest: in_set_takeD)

lemma entry_read:
  assumes "\<forall>x \<in> set xs. length x = k" "i < length xs"
  shows "obj_read (a @ concat xs @ c) (length a + i * k) k = Some (xs ! i)"
proof -
  have "obj_read ((a @ concat (take i xs)) @ xs ! i @ (concat (drop (Suc i) xs) @ c)) (length a + i * k) k = Some (xs ! i)"
    using assms by (intro obj_read_mid) (simp_all add: length_concat_take)
  then show ?thesis
    using concat_at [OF assms(2)] by simp
qed

lemma cstr_first: "terminated a \<Longrightarrow> cstr (a @ b) = cstr a"
  by (induction a) auto

lemma name_found:
  assumes "entry_ok L names e"
  shows "name_at (a @ names @ c) (length a + unat (stroffset L e)) = Some (name_of L names e)"
  using assms by (simp add: name_at_def name_of_def entry_ok_def cstr_first)

lemma module_index_eq:
  assumes "\<forall>e \<in> set ms. entry_ok L names e" "i \<le> length ms"
  shows "module_index L (a @ concat ms @ names @ c) (length a) (length a + length (concat ms)) (length ms) after i
    = Some (i + length (takeWhile (\<lambda>e. name_of L names e \<noteq> after) (drop i ms)))"
  using assms(2)
proof (induction "length ms - i" arbitrary: i)
  case 0
  then show ?case
    by (simp add: module_index.simps [of _ _ _ _ _ _ i])
next
  case (Suc k)
  have i: "i < length ms" and k: "k = length ms - (i + 1)"
    using Suc by simp_all
  have e: "\<forall>x \<in> set ms. length x = entry_size L"
    using assms(1) by (simp add: entry_ok_def)
  have r: "obj_read (a @ concat ms @ names @ c) (length a + i * entry_size L) (entry_size L) = Some (ms ! i)"
    using entry_read [OF e i] by simp
  have n: "name_at (a @ concat ms @ names @ c) (length a + length (concat ms) + unat (stroffset L (ms ! i)))
      = Some (name_of L names (ms ! i))"
    using name_found [of L names "ms ! i" "a @ concat ms" c] assms(1) i by simp
  show ?case
    using Suc.hyps(1) [OF k] i r n by (simp add: module_index.simps [of _ _ _ _ _ _ i] drop_Cons_nth)
qed

lemma update_modes_eq:
  assumes "\<forall>m. length m = k \<longrightarrow> length (more_search L m) = k" "mode_size L = k" "\<forall>m \<in> set ms. length m = k" "j \<le> length ms"
  shows "update_modes L (length a) (length ms) j (a @ concat ms @ c) = Some (a @ concat (take j ms @ map (more_search L) (drop j ms)) @ c)"
  using assms(3,4)
proof (induction "length ms - j" arbitrary: j ms)
  case 0
  then show ?case
    by (simp add: update_modes.simps [of _ _ _ j])
next
  case (Suc n)
  have j: "j < length ms"
    using Suc.hyps(2) by simp
  let ?m = "more_search L (ms ! j)"
  let ?ms = "ms[j := ?m]"
  have l: "length ?m = k" "length (ms ! j) = k"
    using Suc.prems(1) j assms(1) by simp_all
  have p: "length (a @ concat (take j ms)) = length a + j * k"
    using length_concat_take [OF Suc.prems(1)] j by simp
  have c: "a @ concat xs @ c = (a @ concat (take j ms)) @ xs ! j @ concat (drop (Suc j) ms) @ c"
    if "xs = ms \<or> xs = ?ms" for xs
    using concat_at [of j xs] that j by auto
  have w: "obj_write (a @ concat ms @ c) (length a + j * k) ?m = Some (a @ concat ?ms @ c)"
    using obj_write_mid [OF p, of ?m "ms ! j" "concat (drop (Suc j) ms) @ c"] l c [of ms] c [of ?ms] j by simp
  have ok: "\<forall>m \<in> set ?ms. length m = k"
    using Suc.prems(1) l(1) set_update_subset_insert [of ms j ?m] by auto
  have "update_modes L (length a) (length ms) j (a @ concat ms @ c) = update_modes L (length a) (length ?ms) (j + 1) (a @ concat ?ms @ c)"
    using j w entry_read [OF Suc.prems(1) j, of a c] by (simp add: update_modes.simps [of _ _ _ j] assms(2))
  also have "\<dots> = Some (a @ concat (take (j + 1) ?ms @ map (more_search L) (drop (j + 1) ?ms)) @ c)"
    using Suc.hyps j by (intro Suc.hyps(1) ok) simp_all
  also have "take (j + 1) ?ms @ map (more_search L) (drop (j + 1) ?ms) = take j ms @ map (more_search L) (drop j ms)"
    using j by (simp add: take_Suc_conv_app_nth drop_Cons_nth)
  finally show ?case .
qed

section \<open>What an insertion does\<close>

text \<open>The file with the new module in front of number \<open>i\<close>.\<close>

definition insert_module :: "btcnf_layout \<Rightarrow> nat \<Rightarrow> byte list \<Rightarrow> u32 \<Rightarrow> btcnf \<Rightarrow> btcnf" where
  "insert_module L i new_module flags f =
     (let h = get_header L (f_header f) in
      f\<lparr>f_header := put_header L (h\<lparr>b_nmodules := b_nmodules h + 1,
            b_modnamestart := b_modnamestart h + of_nat (entry_size L),
            b_modnameend := b_modnameend h + of_nat (length new_module + 1 + entry_size L)\<rparr>) (f_header f),
        f_modes := map (more_search L) (f_modes f),
        f_modules := take i (f_modules f)
          @ put_entry L (b_modnameend h - b_modnamestart h) flags (f_modules f ! i) # drop i (f_modules f),
        f_names := f_names f @ lit new_module\<rparr>)"

lemma load_header_ok: "length hd' = header_size L \<Longrightarrow> load_header L (hd' @ c) = Some (get_header L hd')"
  by (simp add: load_header_def obj_read_def)

lemma module_index_file:
  assumes "btcnf_ok L f"
  shows "module_index L (btcnf_bytes f @ c) (length (btcnf_front f)) (length (btcnf_front f) + length (concat (f_modules f)))
      (length (f_modules f)) after 0 = Some (length (takeWhile (\<lambda>n. n \<noteq> after) (module_names L f)))"
  using module_index_eq [of "f_modules f" L "f_names f" 0 "btcnf_front f" c after] assms
  by (simp add: btcnf_ok_def btcnf_bytes_def module_names_def takeWhile_map comp_def)

lemma moves_tail:
  assumes "length r = k" "length e = k"
  shows "obj_write (a @ e @ b @ r @ c) (length a + k) (e @ b) = Some (a @ e @ e @ b @ c)"
proof -
  have "obj_write ((a @ e) @ (b @ r) @ c) (length a + k) (e @ b) = Some ((a @ e) @ (e @ b) @ c)"
    using assms by (intro obj_write_mid) simp_all
  then show ?thesis
    by simp
qed

text \<open>The steps of a run that inserts, one after the other.\<close>

lemma InsertModule_steps:
  assumes "load_header L buf = Some h" "b_signature h = btcnf_magic L"
    and "module_index L buf (unat (b_modulestart h)) (unat (b_modnamestart h)) (unat (b_nmodules h)) after 0 = Some i"
    and "i \<noteq> unat (b_nmodules h)" "obj_write buf (unat (b_modnameend h)) (lit new_module) = Some buf1"
    and "(unat (b_nmodules h) - i) * entry_size L + (length new_module + 1) + unat (b_modnameend h) = unat (b_modnamestart h) + k"
    and "obj_read buf1 (unat (b_modulestart h) + i * entry_size L) k = Some moved"
    and "obj_write buf1 (unat (b_modulestart h) + (i + 1) * entry_size L) moved = Some buf2"
    and "obj_read buf2 (unat (b_modulestart h) + i * entry_size L) (entry_size L) = Some e"
    and "obj_write buf2 (unat (b_modulestart h) + i * entry_size L) (put_entry L (b_modnameend h - b_modnamestart h) flags e) = Some buf3"
    and "load_header L buf3 = Some h3" "obj_read buf3 0 (header_size L) = Some hb"
    and "h' = h3\<lparr>b_nmodules := b_nmodules h3 + 1, b_modnamestart := b_modnamestart h3 + of_nat (entry_size L),
                   b_modnameend := b_modnameend h3 + of_nat (length new_module + 1 + entry_size L)\<rparr>"
    and "obj_write buf3 0 (put_header L h' hb) = Some buf4"
    and "update_modes L (unat (b_modestart h)) (unat (b_nmodes h')) 0 buf4 = Some buf5"
  shows "InsertModule L new_module after flags buf = Some (0, buf5)"
proof -
  have k: "\<not> unat (b_modnamestart h) + k < unat (b_modnamestart h)" "unat (b_modnamestart h) + k - unat (b_modnamestart h) = k"
    by simp_all
  show ?thesis
    unfolding InsertModule_def Let_def assms(1) Option.bind.simps assms(3,5) assms(6) k(2)
    using assms(2,4,7-12,14,15) k(1) unfolding assms(13) by simp
qed

lemma InsertModule_file:
  assumes "layout_ok L" "btcnf_ok L f" "length room = length new_module + 1 + entry_size L"
    and "i = length (takeWhile (\<lambda>n. n \<noteq> after) (module_names L f))" "i < length (f_modules f)"
  shows "InsertModule L new_module after flags (btcnf_bytes f @ room @ c)
    = Some (0, btcnf_bytes (insert_module L i new_module flags f) @ c)"
proof -
  note ok = assms(2) [unfolded btcnf_ok_def Let_def]
  let ?h = "get_header L (f_header f)"
  let ?ms = "f_modules f"
  let ?F = "btcnf_front f"
  let ?E1 = "concat (take i ?ms)"
  let ?e = "?ms ! i"
  let ?E2 = "concat (drop (Suc i) ?ms)"
  let ?N = "f_names f @ lit new_module"
  let ?len = "length new_module + 1"
  define r1 where "r1 = take ?len room"
  define r2 where "r2 = drop ?len room"
  have r: "room = r1 @ r2" "length r1 = ?len" "length r2 = entry_size L"
    using assms(3) by (simp_all add: r1_def r2_def)
  have es: "\<forall>x \<in> set ?ms. length x = entry_size L"
    using ok by (simp add: entry_ok_def)
  have e: "length ?e = entry_size L" "length ?E1 = i * entry_size L"
    using es assms(5) length_concat_take [OF es, of i] by simp_all
  have E: "concat ?ms = ?E1 @ ?e @ ?E2"
    by (rule concat_at [OF assms(5)])
  have n: "unat (b_nmodules ?h) = length ?ms" "unat (b_modulestart ?h) = length ?F" "unat (b_modnamestart ?h) = length ?F + length (concat ?ms)"
      "unat (b_modnameend ?h) = length (btcnf_bytes f)"
    using ok by simp_all
  have load: "load_header L (btcnf_bytes f @ x) = Some ?h" for x
    using load_header_ok [of "f_header f" L] ok by (simp add: btcnf_bytes_def btcnf_front_def)
  have index: "module_index L (btcnf_bytes f @ x) (length ?F) (length ?F + length (concat ?ms)) (length ?ms) after 0 = Some i" for x
    using module_index_file [OF assms(2)] assms(4) by simp
  have w1: "obj_write (btcnf_bytes f @ room @ c) (length (btcnf_bytes f)) (lit new_module) = Some (btcnf_bytes f @ lit new_module @ r2 @ c)"
    using obj_write_mid [of "btcnf_bytes f" "length (btcnf_bytes f)" "lit new_module" r1 "r2 @ c"] r by simp
  have b1: "btcnf_bytes f @ lit new_module @ r2 @ c = (?F @ ?E1) @ ?e @ (?E2 @ ?N) @ r2 @ c"
    by (simp add: btcnf_bytes_def E)
  have D: "length (?e @ ?E2) = (length ?ms - i) * entry_size L"
  proof -
    have "length ?ms * entry_size L = i * entry_size L + length (?e @ ?E2)"
      using length_concat_same [OF es] E e by simp
    then show ?thesis
      by (simp add: diff_mult_distrib)
  qed
  have tail: "(length ?ms - i) * entry_size L + ?len + length (btcnf_bytes f) - (length ?F + length (concat ?ms)) = length (?e @ ?E2 @ ?N)"
      "\<not> (length ?ms - i) * entry_size L + ?len + length (btcnf_bytes f) < length ?F + length (concat ?ms)"
    using D by (simp_all add: btcnf_bytes_def)
  have moved: "obj_read ((?F @ ?E1) @ ?e @ (?E2 @ ?N) @ r2 @ c) (length ?F + i * entry_size L) (length (?e @ ?E2 @ ?N)) = Some (?e @ ?E2 @ ?N)"
    using obj_read_mid [of "?F @ ?E1" "length ?F + i * entry_size L" "?e @ ?E2 @ ?N" "length (?e @ ?E2 @ ?N)" "r2 @ c"] e(2) by simp
  have w2: "obj_write ((?F @ ?E1) @ ?e @ (?E2 @ ?N) @ r2 @ c) (length ?F + (i + 1) * entry_size L) (?e @ ?E2 @ ?N)
      = Some ((?F @ ?E1) @ ?e @ ?e @ (?E2 @ ?N) @ c)"
    using moves_tail [OF r(3) e(1), of "?F @ ?E1" "?E2 @ ?N" c] e(2) by (simp add: add.commute add.left_commute)
  have read: "obj_read ((?F @ ?E1) @ ?e @ ?e @ (?E2 @ ?N) @ c) (length ?F + i * entry_size L) (entry_size L) = Some ?e"
    using e by (intro obj_read_mid) simp_all
  let ?e' = "put_entry L (b_modnameend ?h - b_modnamestart ?h) flags ?e"
  have w3: "obj_write ((?F @ ?E1) @ ?e @ ?e @ (?E2 @ ?N) @ c) (length ?F + i * entry_size L) ?e' = Some ((?F @ ?E1) @ ?e' @ ?e @ (?E2 @ ?N) @ c)"
    using e assms(1) by (intro obj_write_mid) (simp_all add: layout_ok_def)
  let ?rest = "f_gap2 f @ ?E1 @ ?e' @ ?e @ ?E2 @ ?N @ c"
  have b3: "(?F @ ?E1) @ ?e' @ ?e @ (?E2 @ ?N) @ c = f_header f @ f_gap1 f @ concat (f_modes f) @ ?rest"
    by (simp add: btcnf_front_def)
  have head: "load_header L (f_header f @ f_gap1 f @ concat (f_modes f) @ ?rest) = Some ?h"
      "obj_read (f_header f @ f_gap1 f @ concat (f_modes f) @ ?rest) 0 (header_size L) = Some (f_header f)"
    using load_header_ok [of "f_header f" L] obj_read_mid [of "[]" 0 "f_header f"] ok by simp_all
  let ?h' = "?h\<lparr>b_nmodules := b_nmodules ?h + 1, b_modnamestart := b_modnamestart ?h + of_nat (entry_size L),
      b_modnameend := b_modnameend ?h + of_nat (?len + entry_size L)\<rparr>"
  let ?H = "put_header L ?h' (f_header f)"
  have H: "length ?H = header_size L"
    using assms(1) ok by (simp add: layout_ok_def)
  have w4: "obj_write (f_header f @ f_gap1 f @ concat (f_modes f) @ ?rest) 0 ?H = Some (?H @ f_gap1 f @ concat (f_modes f) @ ?rest)"
    using obj_write_mid [of "[]" 0 ?H "f_header f" "f_gap1 f @ concat (f_modes f) @ ?rest"] H ok by simp
  have m: "unat (b_modestart ?h) = length (?H @ f_gap1 f)" "unat (b_nmodes ?h') = length (f_modes f)"
    using ok H by simp_all
  have modes: "update_modes L (unat (b_modestart ?h)) (unat (b_nmodes ?h')) 0 (?H @ f_gap1 f @ concat (f_modes f) @ ?rest)
      = Some (?H @ f_gap1 f @ concat (map (more_search L) (f_modes f)) @ ?rest)"
    using update_modes_eq [of "mode_size L" L "f_modes f" 0 "?H @ f_gap1 f" ?rest] assms(1) ok unfolding m layout_ok_def by simp
  have result: "?H @ f_gap1 f @ concat (map (more_search L) (f_modes f)) @ ?rest = btcnf_bytes (insert_module L i new_module flags f) @ c"
    using assms(5) by (simp add: insert_module_def btcnf_bytes_def btcnf_front_def Let_def drop_Cons_nth)
  have sig: "b_signature ?h = btcnf_magic L" "i \<noteq> length ?ms"
    using ok assms(5) by simp_all
  have k: "(length ?ms - i) * entry_size L + ?len + length (btcnf_bytes f)
      = length ?F + length (concat ?ms) + length (?e @ ?E2 @ ?N)"
    using tail by linarith
  show ?thesis
    unfolding result [symmetric]
    by (rule InsertModule_steps [where h = ?h and h' = ?h', unfolded n, OF load sig(1) index sig(2) w1 k moved [folded b1]
          w2 [folded b1] read w3 head [folded b3] refl w4 [folded b3] modes])
qed

lemma unat_plus_of_nat: "unat (a :: u32) + k < 2 ^ 32 \<Longrightarrow> unat (a + of_nat k) = unat a + k"
  by (simp add: unat_word_ariths unat_of_nat)

lemma entry_kept:
  assumes "entry_ok L names e"
  shows "entry_ok L (names @ xs) e \<and> name_of L (names @ xs) e = name_of L names e"
  using assms by (auto simp: entry_ok_def name_of_def cstr_first)

lemma entry_size_pos:
  assumes "layout_ok L"
  shows "0 < entry_size L"
proof (rule ccontr)
  assume "\<not> 0 < entry_size L"
  then have "length (put_entry L off 0 []) = 0 \<and> stroffset L (put_entry L off 0 []) = off" for off
    using assms unfolding layout_ok_def by (metis list.size(3) neq0_conv)
  from this [of 0] this [of 1] show False
    by auto
qed

lemma insert_module_ok:
  assumes "layout_ok L" "btcnf_ok L f" "i < length (f_modules f)" "plain new_module"
    and "length (btcnf_bytes f) + entry_size L + length new_module + 1 < 2 ^ 32"
  shows "btcnf_ok L (insert_module L i new_module flags f)"
    and "module_names L (insert_module L i new_module flags f) = take i (module_names L f) @ new_module # drop i (module_names L f)"
proof -
  note ok = assms(2) [unfolded btcnf_ok_def Let_def]
  let ?h = "get_header L (f_header f)"
  let ?f = "insert_module L i new_module flags f"
  let ?N = "f_names f @ lit new_module"
  let ?e = "put_entry L (b_modnameend ?h - b_modnamestart ?h) flags (f_modules f ! i)"
  have es: "\<forall>x \<in> set (f_modules f). length x = entry_size L"
    using ok by (simp add: entry_ok_def)
  have "b_modnamestart ?h \<le> b_modnameend ?h"
    using ok by (simp add: word_le_nat_alt btcnf_bytes_def)
  then have off: "unat (b_modnameend ?h - b_modnamestart ?h) = length (f_names f)"
    using ok by (simp add: unat_sub btcnf_bytes_def)
  have e: "length ?e = entry_size L" "stroffset L ?e = b_modnameend ?h - b_modnamestart ?h"
    using assms(1,3) es by (simp_all add: layout_ok_def)
  have new: "entry_ok L ?N ?e" "name_of L ?N ?e = new_module"
    using e off assms(4) by (simp_all add: entry_ok_def name_of_def cstr_append_NUL)
  have old: "entry_ok L ?N x \<and> name_of L ?N x = name_of L (f_names f) x" if "x \<in> set (f_modules f)" for x
    using entry_kept [of L "f_names f" x "lit new_module"] ok that by simp
  have parts: "f_modules ?f = take i (f_modules f) @ ?e # drop i (f_modules f)" "f_names ?f = ?N"
      "f_modes ?f = map (more_search L) (f_modes f)"
    by (simp_all add: insert_module_def Let_def)
  have "name_of L ?N x = name_of L (f_names f) x" if "x \<in> set (take i (f_modules f)) \<union> set (drop i (f_modules f))" for x
    using old that by (auto dest: in_set_takeD in_set_dropD)
  then show "module_names L ?f = take i (module_names L f) @ new_module # drop i (module_names L f)"
    using new(2) by (simp add: module_names_def parts take_map drop_map)
  have hd: "length (f_header ?f) = header_size L" "get_header L (f_header ?f) = ?h\<lparr>b_nmodules := b_nmodules ?h + 1,
            b_modnamestart := b_modnamestart ?h + of_nat (entry_size L),
            b_modnameend := b_modnameend ?h + of_nat (length new_module + 1 + entry_size L)\<rparr>"
    using assms(1) ok by (simp_all add: insert_module_def layout_ok_def Let_def)
  have front: "length (btcnf_front ?f) = length (btcnf_front f)"
    using hd(1) ok assms(1) length_concat_same [of "f_modes f" "mode_size L"] length_concat_same [of "map (more_search L) (f_modes f)" "mode_size L"]
    by (simp add: btcnf_front_def parts(3) layout_ok_def) (simp add: insert_module_def Let_def)
  have mods: "length (concat (f_modules ?f)) = length (concat (f_modules f)) + entry_size L"
    using concat_at [OF assms(3)] e(1) es assms(3) by (simp add: parts(1) drop_Cons_nth)
  have n: "length (f_modules f) + 1 < 2 ^ 32"
  proof -
    have "length (f_modules f) * 1 \<le> length (f_modules f) * entry_size L"
      using entry_size_pos [OF assms(1)] by (intro mult_le_mono2) simp
    moreover have "length (f_modules f) * entry_size L + 1 < 2 ^ 32"
      using length_concat_same [OF es] assms(5) unfolding btcnf_bytes_def length_append by linarith
    ultimately show ?thesis
      by linarith
  qed
  have bytes: "length (btcnf_bytes ?f) = length (btcnf_bytes f) + (length new_module + 1 + entry_size L)"
    using mods front by (simp add: btcnf_bytes_def parts(2))
  have u: "unat (b_nmodules ?h + of_nat 1) = length (f_modules f) + 1"
      "unat (b_modnamestart ?h + of_nat (entry_size L)) = length (btcnf_front f) + length (concat (f_modules f)) + entry_size L"
      "unat (b_modnameend ?h + of_nat (length new_module + 1 + entry_size L)) = length (btcnf_bytes f) + (length new_module + 1 + entry_size L)"
    using unat_plus_of_nat [of "b_nmodules ?h" 1] unat_plus_of_nat [of "b_modnamestart ?h" "entry_size L"]
      unat_plus_of_nat [of "b_modnameend ?h" "length new_module + 1 + entry_size L"] ok n assms(5)
    by (simp_all add: btcnf_bytes_def)
  have count: "length (f_modules ?f) = length (f_modules f) + 1"
    using assms(3) by (simp add: parts(1))
  have entries: "\<forall>x \<in> set (f_modules ?f). entry_ok L (f_names ?f) x"
    using old new(1) by (auto simp: parts(1,2) dest: in_set_takeD in_set_dropD)
  have modes: "\<forall>m \<in> set (f_modes ?f). length m = mode_size L" "length (f_modes ?f) = length (f_modes f)" "f_gap1 ?f = f_gap1 f"
    using assms(1) ok by (simp_all add: parts(3) layout_ok_def) (simp add: insert_module_def Let_def)
  show "btcnf_ok L ?f"
    unfolding btcnf_ok_def Let_def hd(2) front mods bytes count modes(2,3)
    using hd(1) entries modes(1) u ok by (simp add: of_nat_1)
qed

lemma length_takeWhile_found: "x \<in> set xs \<Longrightarrow> length (takeWhile (\<lambda>n. n \<noteq> x) xs) < length xs"
  by (induction xs) auto

text \<open>
  C22: the loader's module list. In a well-formed boot configuration with room behind it, the new module is put into the
  list right before the first entry of the given name, every mode searches one entry more, and the file stays
  well-formed: header, offsets and names agree, and nothing behind the new file is touched. When no entry has that name,
  nothing is changed and an error is answered.
\<close>

theorem module_inserted:
  assumes "layout_ok L" and "btcnf_ok L f" and "plain new_module" and "length room = length new_module + 1 + entry_size L"
    and "length (btcnf_bytes f @ room) < 2 ^ 32"
  shows "if after \<in> set (module_names L f)
     then \<exists>f'. InsertModule L new_module after flags (btcnf_bytes f @ room @ c) = Some (0, btcnf_bytes f' @ c) \<and> btcnf_ok L f'
            \<and> module_names L f' = takeWhile (\<lambda>n. n \<noteq> after) (module_names L f) @ new_module # dropWhile (\<lambda>n. n \<noteq> after) (module_names L f)
            \<and> f_modes f' = map (more_search L) (f_modes f)
     else InsertModule L new_module after flags (btcnf_bytes f @ room @ c) = Some (-2, btcnf_bytes f @ room @ c)"
proof -
  let ?names = "module_names L f"
  let ?i = "length (takeWhile (\<lambda>n. n \<noteq> after) ?names)"
  have l: "length ?names = length (f_modules f)"
    by (simp add: module_names_def)
  show ?thesis
  proof (cases "after \<in> set ?names")
    case True
    then have "?i < length ?names"
      by (rule length_takeWhile_found)
    then have i: "?i < length (f_modules f)"
      using l by simp
    have t: "take ?i ?names = takeWhile (\<lambda>n. n \<noteq> after) ?names" "drop ?i ?names = dropWhile (\<lambda>n. n \<noteq> after) ?names"
      by (simp_all add: takeWhile_eq_take [symmetric] dropWhile_eq_drop [symmetric])
    have n: "length (btcnf_bytes f) + entry_size L + length new_module + 1 < 2 ^ 32"
      using assms(4,5) by simp
    have "f_modes (insert_module L ?i new_module flags f) = map (more_search L) (f_modes f)"
      by (simp add: insert_module_def Let_def)
    then show ?thesis
      using InsertModule_file [OF assms(1,2,4) refl i, of flags c] insert_module_ok [OF assms(1,2) i assms(3) n, of flags] True t by auto
  next
    case False
    then have all: "takeWhile (\<lambda>n. n \<noteq> after) ?names = ?names"
      by (auto simp: takeWhile_eq_all_conv)
    have "module_index L (btcnf_bytes f @ room @ c) (length (btcnf_front f)) (length (btcnf_front f) + length (concat (f_modules f)))
        (length (f_modules f)) after 0 = Some (length (f_modules f))"
      using module_index_file [OF assms(2), of "room @ c" after] unfolding all l .
    moreover have "load_header L (btcnf_bytes f @ room @ c) = Some (get_header L (f_header f))"
      using load_header_ok [of "f_header f" L] assms(2) by (simp add: btcnf_ok_def btcnf_bytes_def btcnf_front_def Let_def)
    ultimately show ?thesis
      using assms(2) False by (simp add: InsertModule_def btcnf_ok_def Let_def)
  qed
qed

text \<open>A layout of words, and a file of two modules.\<close>

definition sample_btcnf_layout :: btcnf_layout where
  "sample_btcnf_layout = \<lparr>header_size = 28,
     get_header = \<lambda>bs. (let w = words_of_bytes 7 bs in
       \<lparr>b_signature = w ! 0, b_modestart = w ! 1, b_nmodes = w ! 2, b_modulestart = w ! 3, b_nmodules = w ! 4,
        b_modnamestart = w ! 5, b_modnameend = w ! 6\<rparr>),
     put_header = \<lambda>h bs. words_bytes [b_signature h, b_modestart h, b_nmodes h, b_modulestart h, b_nmodules h,
        b_modnamestart h, b_modnameend h],
     entry_size = 8, stroffset = rd32, put_entry = \<lambda>off flags e. le32 off @ le32 flags,
     mode_size = 4, more_search = \<lambda>m. le32 (rd32 m + 1), btcnf_magic = 0x0F803001\<rparr>"

lemma sample_layout_ok: "layout_ok sample_btcnf_layout"
proof -
  have "words_of_bytes 7 (words_bytes ws) = ws" if "length ws = 7" for ws
    using words_of_bytes_words_bytes [OF that, of "[]"] by simp
  then show ?thesis
    by (simp add: layout_ok_def sample_btcnf_layout_def Let_def)
qed

definition sample_file :: btcnf where
  "sample_file = \<lparr>f_header = words_bytes [0x0F803001, 28, 1, 32, 2, 48, 54], f_gap1 = [], f_modes = [le32 2], f_gap2 = [],
     f_modules = [le32 0 @ le32 1, le32 3 @ le32 1], f_names = ''/a'' @ NUL # ''/b'' @ [NUL]\<rparr>"

lemma sample_file_ok: "btcnf_ok sample_btcnf_layout sample_file \<and> module_names sample_btcnf_layout sample_file = [''/a'', ''/b'']"
proof -
  have "words_of_bytes 7 (words_bytes [0x0F803001, 28, 1, 32, 2, 48, 54]) = [0x0F803001, 28, 1, 32, 2, 48, 54]"
    using words_of_bytes_words_bytes [of "[0x0F803001, 28, 1, 32, 2, 48, 54]" 7 "[]"] by simp
  then show ?thesis
    by (simp add: btcnf_ok_def sample_file_def sample_btcnf_layout_def btcnf_front_def btcnf_bytes_def entry_ok_def
        module_names_def name_of_def Let_def)
qed

theorem module_inserted_witness:
  "\<exists>f'. InsertModule sample_btcnf_layout ''/rtm.prx'' ''/b'' 1 (btcnf_bytes sample_file @ replicate 17 NUL) = Some (0, btcnf_bytes f')
     \<and> module_names sample_btcnf_layout f' = [''/a'', ''/rtm.prx'', ''/b''] \<and> f_modes f' = [le32 3]"
proof -
  have "length (btcnf_bytes sample_file) = 54"
    by (simp add: btcnf_bytes_def btcnf_front_def sample_file_def)
  then have "length (btcnf_bytes sample_file @ replicate 17 NUL) < 2 ^ 32" "length (replicate 17 NUL) = length ''/rtm.prx'' + 1 + entry_size sample_btcnf_layout"
    by (simp_all add: sample_btcnf_layout_def)
  moreover have "map (more_search sample_btcnf_layout) (f_modes sample_file) = [le32 3]"
    by (simp add: sample_file_def sample_btcnf_layout_def)
  ultimately show ?thesis
    using module_inserted [of sample_btcnf_layout sample_file "''/rtm.prx''" "replicate 17 NUL" "''/b''" 1 "[]"] sample_layout_ok sample_file_ok
    by auto
qed

end
