(* ===== verification/KernelPatch.thy ===== *)
theory KernelPatch
  imports Reboot
begin

text \<open>
  How the modules of \<open>overlay/cef/\<close> change the emulated kernel: the scanners that look for instruction words and the
  patches at fixed addresses, of \<open>systemctrl/main.c\<close>, \<open>sysmodpatches.c\<close>, \<open>nodrm.c\<close>, \<open>init_patch.c\<close>, \<open>adrenaline.c\<close>,
  \<open>payloadex/main.c\<close> and \<open>rebootex/main.c\<close>. The kernel's memory is a world that only the fields of \<open>patcher\<close> touch:
  loads and stores, the macros that write a call, a jump or a hook, and the searches for exported functions, which are
  all in headers and libraries outside the repository. Functions that are written into the kernel, and the variables
  that keep what they replace, are named by their names in the code.
\<close>

unbundle bit_operations_syntax

section \<open>The kernel's memory\<close>

type_synonym symbol = string

record kmodule =
  km_name :: "byte list"
  km_text :: u32
  km_text_size :: u32
  km_entry :: u32

record 'w patcher =
  lw :: "u32 \<Rightarrow> 'w \<Rightarrow> u32"
  lh :: "u32 \<Rightarrow> 'w \<Rightarrow> u16"
  sw :: "u32 \<Rightarrow> u32 \<Rightarrow> 'w \<Rightarrow> 'w"
  sh :: "u16 \<Rightarrow> u32 \<Rightarrow> 'w \<Rightarrow> 'w"
  sb :: "u8 \<Rightarrow> u32 \<Rightarrow> 'w \<Rightarrow> 'w"
  clear_bytes :: "u32 \<Rightarrow> nat \<Rightarrow> 'w \<Rightarrow> 'w"
  address_of :: "symbol \<Rightarrow> u32"
  make_call :: "u32 \<Rightarrow> u32 \<Rightarrow> 'w \<Rightarrow> 'w"
  make_jump :: "u32 \<Rightarrow> u32 \<Rightarrow> 'w \<Rightarrow> 'w"
  extract_call :: "u32 \<Rightarrow> 'w \<Rightarrow> u32"
  extract_import :: "symbol \<Rightarrow> 'w \<Rightarrow> u32"
  hijack_function :: "u32 \<Rightarrow> symbol \<Rightarrow> 'w \<Rightarrow> u32 \<times> 'w"
  hijack_call :: "u32 \<Rightarrow> symbol \<Rightarrow> 'w \<Rightarrow> u32 \<times> 'w"
  redirect_function :: "u32 \<Rightarrow> symbol \<Rightarrow> 'w \<Rightarrow> 'w"
  make_dummy :: "u32 \<Rightarrow> u32 \<Rightarrow> 'w \<Rightarrow> 'w"
  patch_syscall :: "u32 \<Rightarrow> symbol \<Rightarrow> 'w \<Rightarrow> 'w"
  find_proc :: "byte list \<Rightarrow> byte list \<Rightarrow> u32 \<Rightarrow> 'w \<Rightarrow> u32"
  find_import :: "byte list \<Rightarrow> byte list \<Rightarrow> u32 \<Rightarrow> 'w \<Rightarrow> u32"
  find_module :: "byte list \<Rightarrow> 'w \<Rightarrow> kmodule option"
  clear_caches :: "'w \<Rightarrow> 'w"

text \<open>The world and the variables that have been set.\<close>

record 'w kernel_side =
  kworld :: 'w
  pointers :: "symbol \<Rightarrow> u32 option"

definition on_world :: "('w \<Rightarrow> 'w) \<Rightarrow> 'w kernel_side \<Rightarrow> 'w kernel_side" where
  "on_world f s = s\<lparr>kworld := f (kworld s)\<rparr>"

definition set_pointer :: "symbol \<Rightarrow> u32 \<Rightarrow> 'w kernel_side \<Rightarrow> 'w kernel_side" where
  "set_pointer v a s = s\<lparr>pointers := (pointers s)(v \<mapsto> a)\<rparr>"

definition hijack :: "'w patcher \<Rightarrow> u32 \<Rightarrow> symbol \<Rightarrow> symbol \<Rightarrow> 'w kernel_side \<Rightarrow> 'w kernel_side" where
  "hijack P a f v s = (let (old, w) = hijack_function P a f (kworld s) in set_pointer v old (s\<lparr>kworld := w\<rparr>))"

definition hijack_at :: "'w patcher \<Rightarrow> u32 \<Rightarrow> symbol \<Rightarrow> symbol \<Rightarrow> 'w kernel_side \<Rightarrow> 'w kernel_side" where
  "hijack_at P a f v s = (let (old, w) = hijack_call P a f (kworld s) in set_pointer v old (s\<lparr>kworld := w\<rparr>))"

text \<open>The loops \<open>for (i = 0; i < n; i += 4)\<close> over the words of a code segment.\<close>

fun scan :: "(u32 \<Rightarrow> 's \<Rightarrow> 's) \<Rightarrow> u32 \<Rightarrow> nat \<Rightarrow> 's \<Rightarrow> 's" where
  "scan body addr 0 s = s"
| "scan body addr (Suc n) s = scan body (addr + 4) n (body addr s)"

definition word_count :: "u32 \<Rightarrow> nat" where
  "word_count n = (unat n + 3) div 4"

section \<open>System memory and module checks: \<open>systemctrl/main.c\<close>\<close>

text \<open>The search for the first branch-if-equal has no end of its own: \<open>None\<close> when there is none.\<close>

definition is_beq :: "u32 \<Rightarrow> bool" where
  "is_beq v \<longleftrightarrow> v AND 0xFC000000 = 0x10000000"

partial_function (option) FindFirstBEQ :: "'w patcher \<Rightarrow> 'w \<Rightarrow> u32 \<Rightarrow> u32 option" where
  "FindFirstBEQ P w addr = (if is_beq (lw P addr w) then Some addr else FindFirstBEQ P w (addr + 4))"

definition sysmem_nids :: "u32 list" where
  "sysmem_nids = [0x7591C7DB, 0x342061E5, 0x315AD3A0, 0xEBD5C3E6, 0x057E7380, 0x91DE343C, 0x7893F79A, 0x35669D4C,
     0x1B4217BC, 0x358CA1BB]"

fun patch_checks :: "'w patcher \<Rightarrow> u32 list \<Rightarrow> 'w \<Rightarrow> 'w option" where
  "patch_checks P [] w = Some w"
| "patch_checks P (nid # nids) w = do {
     addr \<leftarrow> FindFirstBEQ P w (find_proc P ''sceSystemMemoryManager'' ''SysMemUserForUser'' nid w);
     patch_checks P nids (if addr \<noteq> 0 then sh P 0x1000 (addr + 2) w else w) }"

definition PatchSysmem :: "'w patcher \<Rightarrow> 'w \<Rightarrow> 'w option" where
  "PatchSysmem P w = patch_checks P sysmem_nids w"

definition PatchMemlmd :: "'w patcher \<Rightarrow> 'w \<Rightarrow> 'w option" where
  "PatchMemlmd P w = do {
     m \<leftarrow> find_module P ''sceMemlmd'' w;
     Some (make_call P (km_text m + 0x2C8) (address_of P ''memcmp_patched'') w) }"

definition PatchInterruptMgr :: "'w patcher \<Rightarrow> 'w \<Rightarrow> 'w option" where
  "PatchInterruptMgr P w = do {
     m \<leftarrow> find_module P ''sceInterruptManager'' w;
     let w = sw P 0x408F7000 (km_text m + 0xE98) w;
     Some (sw P 0 (km_text m + 0xE9C) w) }"

definition module_mgr_word :: "'w patcher \<Rightarrow> u32 \<Rightarrow> 'w kernel_side \<Rightarrow> 'w kernel_side" where
  "module_mgr_word P addr s =
     (let w = kworld s in
      if lw P addr w = 0xA4A60024
      then on_world (make_call P (addr - 4) (address_of P ''PrologueModulePatched''))
             (set_pointer ''PrologueModule'' (extract_call P (addr - 4) w) s)
      else if lw P addr w = 0x27BDFFE0 \<and> lw P (addr + 4) w = 0xAFB10014
      then hijack P addr ''PartitionCheckPatched'' ''PartitionCheck'' s
      else s)"

definition PatchModuleMgr :: "'w patcher \<Rightarrow> 'w kernel_side \<Rightarrow> 'w kernel_side option" where
  "PatchModuleMgr P s = do {
     m \<leftarrow> find_module P ''sceModuleManager'' (kworld s);
     let s = scan (module_mgr_word P) (km_text m) (word_count (km_text_size m)) s;
     Some (on_world (\<lambda>w. make_jump P (find_import P (km_name m) ''ThreadManForKernel'' 0x446D8DE6 w)
                              (address_of P ''sceKernelCreateThread'') w) s) }"

text \<open>The address that a \<open>lui\<close> and the \<open>addiu\<close> after it build, from the two immediate operands.\<close>

definition table_address :: "u16 \<Rightarrow> u16 \<Rightarrow> u32" where
  "table_address hi lo =
     (let high = push_bit 16 (ucast hi :: u32); low = (ucast lo :: u32);
          high = (if low AND 0x8000 \<noteq> 0 then high - 0x10000 else high)
      in high OR low)"

definition load_core_word :: "'w patcher \<Rightarrow> u32 \<Rightarrow> 'w kernel_side \<Rightarrow> 'w kernel_side" where
  "load_core_word P addr s =
     (let w = kworld s; v = lw P addr w in
      if v = 0x1440FF55
      then on_world (make_call P (addr - 8) (address_of P ''PspUncompressPatched''))
             (set_pointer ''PspUncompress'' (extract_call P (addr - 8) w) s)
      else if v = 0x00A22021
      then let table = table_address (lh P (addr - 0xC) w) (lh P (addr - 4) w)
           in on_world (sw P (lw P table w) (table + 28)) s
      else if v = 0x30894000 then on_world (sw P 0x3C090000 addr) s
      else if v = 0x14A0FFCB then on_world (sh P 0x1000 (addr + 2)) s
      else if v = 0x14C0FFDF then on_world (sw P 0 addr) s
      else if v = 0x8D450000
      then let s = on_world (sw P 0x02203021 (addr + 4)) s;
               s = set_pointer ''search_nid_in_entrytable'' (extract_call P (addr + 8) (kworld s)) s;
               s = on_world (make_call P (addr + 8) (address_of P ''search_nid_in_entrytable_patched'')) s
           in on_world (sw P 0x02403821 (addr + 0xC)) s
      else if v = 0xADA00004
      then hijack P (addr + 0xC) ''aLinkLibEntriesPatched'' ''aLinkLibEntries''
             (on_world (sw P 0 (addr + 8)) (on_world (sw P 0 addr) s))
      else if v = 0x02E0F809
      then on_world (sw P 0x02E02021 (addr + 4)) (on_world (make_call P addr (address_of P ''PatchInit'')) s)
      else if v = 0xAE2D0048
      then on_world (\<lambda>w. make_call P (addr + 8) (find_proc P ''sceMemlmd'' ''memlmd'' 0xEF73E85B w) w) s
      else if v = 0x40068000 \<and> lw P (addr + 4) w = 0x7CC51180 then set_pointer ''LoadCoreForKernel_nids[0]'' addr s
      else if v = 0x40068000 \<and> lw P (addr + 4) w = 0x7CC51240 then set_pointer ''LoadCoreForKernel_nids[1]'' addr s
      else s)"

definition PatchLoadCore :: "'w patcher \<Rightarrow> 'w kernel_side \<Rightarrow> 'w kernel_side option" where
  "PatchLoadCore P s = do {
     m \<leftarrow> find_module P ''sceLoaderCore'' (kworld s);
     let s = hijack P (extract_import P ''sceKernelCheckExecFile661'' (kworld s)) ''sceKernelCheckExecFilePatched''
               ''_sceKernelCheckExecFile'' s;
     let s = hijack P (extract_import P ''sceKernelProbeExecutableObject661'' (kworld s))
               ''sceKernelProbeExecutableObjectPatched'' ''_sceKernelProbeExecutableObject'' s;
     Some (scan (load_core_word P) (km_text m) (word_count (km_text_size m)) s) }"

definition PatchVolatileMemBug :: "'w patcher \<Rightarrow> bool \<Rightarrow> 'w kernel_side \<Rightarrow> 'w kernel_side" where
  "PatchVolatileMemBug P from_disc s =
     (if from_disc
      then let f = find_proc P ''sceSystemMemoryManager'' ''sceSuspendForUser'' 0xA14F40B2 (kworld s);
               s = set_pointer ''sceKernelVolatileMemTryLock'' f s
           in on_world (clear_caches P) (on_world (patch_syscall P f ''sceKernelVolatileMemTryLockPatched'') s)
      else s)"

section \<open>Loading, booting and settings: \<open>sysmodpatches.c\<close>\<close>

text \<open>One word of the program loader; the second component is the address \<open>jump\<close> that a later patch jumps to.\<close>

definition load_exec_word :: "'w patcher \<Rightarrow> u32 \<Rightarrow> 'w kernel_side \<times> u32 \<Rightarrow> 'w kernel_side \<times> u32" where
  "load_exec_word P addr st =
     (let (s, jump) = st; w = kworld s; v = lw P addr w in
      if v = 0x1445FFF4 then (on_world (make_dummy P (extract_call P (addr - 0x10) w) 4) s, jump)
      else if v = 0x24070200 then (on_world (clear_bytes P addr 0x20) s, jump)
      else if v = 0x02202021 \<and> lw P (addr + 4) w = 0x00401821
      then (hijack_at P (addr - 4) ''RunRebootPatched'' ''RunReboot'' s, jump)
      else if v = 0x17C001D3 then (on_world (sw P 0 addr) s, addr + 8)
      else if v = 0x04400020
      then (on_world (sb P 0xFC (addr + 0x44)) (hijack_at P (addr - 8) ''DecodeKL4EPatched'' ''DecodeKL4E'' s), jump)
      else if v = 0x34650002
      then (on_world (sw P 0xAC570018 (addr + 8)) (on_world (sw P 0x12E500B7 (addr + 4)) (on_world (sw P 0x24050002 addr) s)), jump)
      else if v = 0x24100200
      then let s = on_world (sw P 0x24050200 addr) s;
               s = on_world (sw P 0x12650003 (addr + 4)) s;
               s = on_world (sw P 0x241E0210 (addr + 8)) s;
               s = on_world (sw P 0x567EFFDE (addr + 0xC)) s;
               s = on_world (make_jump P (addr + 0x14) jump) s
           in (on_world (sw P 0x24170001 (addr + 0x18)) s, jump)
      else (s, jump))"

definition PatchLoadExec :: "'w patcher \<Rightarrow> u32 \<Rightarrow> u32 \<Rightarrow> 'w kernel_side \<Rightarrow> 'w kernel_side" where
  "PatchLoadExec P text_addr text_size s =
     (let s = on_world (sh P 0x1000 (text_addr + 0x16A6)) s;
          s = on_world (sh P 0x1000 (text_addr + 0x241E)) s;
          s = on_world (sh P 0x1000 (text_addr + 0x2622)) s;
          (s, jump) = scan (load_exec_word P) text_addr (word_count text_size) (s, 0)
      in on_world (clear_caches P) s)"

definition PatchChkreg :: "'w patcher \<Rightarrow> 'w kernel_side \<Rightarrow> 'w kernel_side" where
  "PatchChkreg P s =
     (let s = on_world (make_dummy P (extract_import P ''sceChkregCheckRegion661'' (kworld s)) 1) s;
          s = hijack P (extract_import P ''sceChkregGetPsCode661'' (kworld s)) ''sceChkregGetPsCodePatched'' ''_sceChkregGetPsCode'' s
      in on_world (clear_caches P) s)"

text \<open>
  \<open>bubble_button\<close> is the bubble's setting of the PS button; \<open>setup\<close> creates the thread of the exit callback, and
  \<open>keyconfig_game\<close> is the SDK's number of the game mode.
\<close>

definition PatchImposeDriver ::
  "'w patcher \<Rightarrow> u32 \<Rightarrow> u32 \<Rightarrow> bool \<Rightarrow> int \<Rightarrow> bool \<Rightarrow> ('w \<Rightarrow> 'w) \<Rightarrow> 'w kernel_side \<Rightarrow> 'w kernel_side"
where
  "PatchImposeDriver P keyconfig_game text_addr adr_id bubble_button in_pops setup s =
     (let s = on_world (sw P 0 (text_addr + 0x4AEC)) s;
          s = (if \<not> adr_id \<and> bubble_button \<noteq> 2 then on_world (sw P 0 (text_addr + 0x968)) s else s);
          s = hijack P (text_addr + 0x381C) ''SetIdleCallbackPatched'' ''SetIdleCallback'' s;
          s = (if in_pops then on_world (make_dummy P (text_addr + 0x91C8) keyconfig_game) (on_world setup s) else s);
          s = on_world (redirect_function P (text_addr + 0x92B0) ''sceKernelWaitEventFlagPatched'') s
      in on_world (clear_caches P) s)"

definition PatchMediaSync :: "'w patcher \<Rightarrow> u32 \<Rightarrow> 'w kernel_side \<Rightarrow> 'w kernel_side" where
  "PatchMediaSync P text_addr s =
     (let s = on_world (sw P 0x00001021 (text_addr + 0xC8)) s;
          s = on_world (sw P 0x00008821 (text_addr + 0x864)) s;
          s = on_world (sw P 0x00008821 (text_addr + 0x988)) s;
          s = on_world (sh P 0x5000 (text_addr + 0x3C6)) s;
          s = on_world (sh P 0x1000 (text_addr + 0xDCA)) s;
          s = hijack_at P (text_addr + 0x97C) ''sceSystemFileGetIndexPatched'' ''sceSystemFileGetIndex'' s
      in on_world (clear_caches P) s)"

text \<open>The exit callback: the threads stop, the display returns to the emulator and the shell is started.\<close>

definition exit_callback :: "('w \<Rightarrow> 'w) \<Rightarrow> (vita_cmd \<Rightarrow> 'w \<Rightarrow> 'w) \<Rightarrow> (u32 list \<Rightarrow> 'w \<Rightarrow> 'w) \<Rightarrow> SceAdrenaline \<times> 'w \<Rightarrow> SceAdrenaline \<times> 'w" where
  "exit_callback suspend_all send exit_vsh st =
     (let (adr, w) = st;
          w = suspend_all w;
          adr = adr\<lparr>a_pops_mode := False\<rparr>;
          w = send VITA_CMD_RESUME_POPS w;
          args = (replicate 0x100 0)[0 := 0x400, 1 := 0x20, 16 := 1]
      in (adr, exit_vsh args w))"

definition CallbackThread :: "('w \<Rightarrow> int \<times> 'w) \<Rightarrow> (int \<Rightarrow> 'w \<Rightarrow> 'w) \<Rightarrow> ('w \<Rightarrow> 'w) \<Rightarrow> 'w \<Rightarrow> int \<times> 'w" where
  "CallbackThread create register sleep w =
     (let (cbid, w) = create w in if cbid < 0 then (cbid, w) else (0, sleep (register cbid w)))"

definition SetupCallbacks :: "('w \<Rightarrow> int \<times> 'w) \<Rightarrow> (int \<Rightarrow> 'w \<Rightarrow> 'w) \<Rightarrow> 'w \<Rightarrow> int \<times> 'w" where
  "SetupCallbacks create start w =
     (let (thid, w) = create w in (thid, if 0 \<le> thid then start thid w else w))"

text \<open>The protection words of the extra memory.\<close>

fun unprotect :: "'w patcher \<Rightarrow> nat \<Rightarrow> u32 \<Rightarrow> 'w \<Rightarrow> 'w" where
  "unprotect P 0 prot w = w"
| "unprotect P (Suc n) prot w = unprotect P n (prot + 4) (sw P 0xFFFFFFFF prot w)"

definition UnprotectExtraMemory :: "'w patcher \<Rightarrow> 'w \<Rightarrow> 'w" where
  "UnprotectExtraMemory P w = unprotect P 0x10 0xBC000040 w"

section \<open>DRM, plugins and the service\<close>

definition io_file_word :: "'w patcher \<Rightarrow> u32 \<Rightarrow> 'w kernel_side \<Rightarrow> 'w kernel_side" where
  "io_file_word P addr s =
     (let v = lw P addr (kworld s) in
      if v = 0x03641824 then hijack P (addr - 4) ''do_open_patched'' ''do_open'' s
      else if v = 0x00C75821 then hijack P (addr - 4) ''do_ioctl_patched'' ''do_ioctl'' s
      else s)"

definition PatchNpDrmDriver :: "'w patcher \<Rightarrow> int \<Rightarrow> bool \<Rightarrow> bool \<Rightarrow> u32 \<Rightarrow> 'w kernel_side \<Rightarrow> 'w kernel_side option" where
  "PatchNpDrmDriver P nonpdrm notusenodrmengine from_disc text_addr s =
     (if nonpdrm = 2 then Some s
      else if (nonpdrm = 1 \<or> \<not> notusenodrmengine) \<and> from_disc then do {
        m \<leftarrow> find_module P ''sceIOFileManager'' (kworld s);
        let s = scan (io_file_word P) (km_text m) (word_count (km_text_size m)) s;
        let s = hijack P (text_addr + 0x1590) ''sceNpDrmRenameCheckPatched'' ''_sceNpDrmRenameCheck'' s;
        let s = hijack P (text_addr + 0x1714) ''sceNpDrmEdataSetupKeyPatched'' ''_sceNpDrmEdataSetupKey'' s;
        let s = hijack P (text_addr + 0x1514) ''sceNpDrmEdataGetDataSizePatched'' ''_sceNpDrmEdataGetDataSize'' s;
        let s = hijack P (find_proc P ''sceModuleManager'' ''ModuleMgrForUser'' 0xF2D8D1B4 (kworld s))
                  ''sceKernelLoadModuleNpDrmPatched'' ''_sceKernelLoadModuleNpDrm'' s;
        Some (on_world (clear_caches P) s) }
      else Some s)"

text \<open>\<open>boot\<close> is the original \<open>module_bootstart\<close> of the kernel's init module, at the address given.\<close>

definition PatchInit :: "'w patcher \<Rightarrow> (u32 \<Rightarrow> 'w \<Rightarrow> int \<times> 'w) \<Rightarrow> u32 \<Rightarrow> 'w kernel_side \<Rightarrow> int \<times> 'w kernel_side" where
  "PatchInit P boot module_bootstart s =
     (let init_addr = module_bootstart - 0x1A54;
          s = set_pointer ''init_addr'' init_addr s;
          s = on_world (sw P 0 (init_addr + 0x18EC)) s;
          s = set_pointer ''LoadModuleBufferAnchorInBtcnf'' (init_addr + 0x1038) s;
          s = on_world (make_call P (init_addr + 0x17E4) (address_of P ''LoadModuleBufferAnchorInBtcnfPatched'')) s;
          s = on_world (sw P 0x02402821 (init_addr + 0x17E8)) s;
          s = on_world (sw P 0x02402021 (init_addr + 0x1868)) s;
          s = on_world (make_call P (init_addr + 0x1878) (address_of P ''sceKernelLoadModuleBufferBootInitBtcnfPatched'')) s;
          s = on_world (make_jump P (init_addr + 0x1C5C) (address_of P ''sceKernelStartModulePatched'')) s;
          s = on_world (clear_caches P) s;
          (res, w) = boot module_bootstart (kworld s)
      in (res, s\<lparr>kworld := w\<rparr>))"

definition PatchSasCore :: "'w patcher \<Rightarrow> 'w kernel_side \<Rightarrow> 'w kernel_side" where
  "PatchSasCore P s =
     (let s = set_pointer ''sceSasCoreInit'' (find_proc P ''sceSAScore'' ''sceSasCore_driver'' 0xB0F9F98F (kworld s)) s;
          s = set_pointer ''sceSasCoreExit'' (find_proc P ''sceSAScore'' ''sceSasCore_driver'' 0xE143A1EA (kworld s)) s;
          s = hijack P (find_proc P ''sceSAScore'' ''sceSasCore'' 0x42778A9F (kworld s)) ''__sceSasInitPatched'' ''__sceSasInit'' s
      in on_world (clear_caches P) s)"

definition PatchLowIODriver2 :: "'w patcher \<Rightarrow> u32 \<Rightarrow> 'w kernel_side \<Rightarrow> 'w kernel_side" where
  "PatchLowIODriver2 P text_addr s =
     (let s = hijack P (text_addr + 0x880) ''SetFlag1Patched'' ''SetFlag1'' s;
          s = hijack P (text_addr + 0xCD8) ''SetFlag2Patched'' ''SetFlag2'' s;
          s = hijack P (find_proc P ''sceKermit_Driver'' ''sceKermit_driver'' 0xD69C50BB (kworld s))
                ''sceKermitSyncDisplayPatched'' ''sceKermitSyncDisplay'' s
      in on_world (clear_caches P) s)"

definition PatchPowerService2 :: "'w patcher \<Rightarrow> u32 \<Rightarrow> 'w kernel_side \<Rightarrow> 'w kernel_side" where
  "PatchPowerService2 P text_addr s =
     (let s = set_pointer ''uiResumePoint'' (text_addr + 0x24C0) s;
          s = hijack_at P (text_addr + 0x22FC) ''VitaSyncPatched'' ''VitaSync'' s;
          s = set_pointer ''_scePowerSuspendOperation'' (text_addr + 0x1710) s
      in on_world (clear_caches P) s)"

section \<open>The loaders: \<open>payloadex/main.c\<close> and \<open>rebootex/main.c\<close>\<close>

text \<open>The boot functions of the kernel's modules, called at an address with the value they are given.\<close>

type_synonym 'w boot_call = "u32 \<Rightarrow> u32 \<Rightarrow> 'w \<Rightarrow> int \<times> 'w"

definition sysmem_word :: "'w patcher \<Rightarrow> u32 \<Rightarrow> 'w kernel_side \<Rightarrow> 'w kernel_side" where
  "sysmem_word P addr s =
     (if lw P addr (kworld s) = 0x14600003
      then hijack_at P (addr - 0x1C) ''SetMemoryPartitionTablePatched'' ''SetMemoryPartitionTable'' s else s)"

definition PatchSysMem :: "'w patcher \<Rightarrow> 'w boot_call \<Rightarrow> u32 \<Rightarrow> u32 \<Rightarrow> 'w kernel_side \<Rightarrow> int \<times> 'w kernel_side" where
  "PatchSysMem P boot a0 sysmem_config s =
     (let module_bootstart = lw P (a0 + 0x28) (kworld s);
          s = scan (sysmem_word P) 0x88000000 (0x14000 div 4) s;
          s = on_world (clear_caches P) s;
          (res, w) = boot module_bootstart sysmem_config (kworld s)
      in (res, s\<lparr>kworld := w\<rparr>))"

text \<open>The loader core: the loop ends with the first match.\<close>

fun loader_core_words :: "'w patcher \<Rightarrow> u32 \<Rightarrow> nat \<Rightarrow> 'w kernel_side \<Rightarrow> 'w kernel_side" where
  "loader_core_words P addr 0 s = s"
| "loader_core_words P addr (Suc n) s =
     (if lw P addr (kworld s) = 0xAE2D0048
      then on_world (make_call P (addr + 8) (address_of P ''DecryptExecutablePatched''))
             (set_pointer ''DecryptExecutable'' (extract_call P (addr + 8) (kworld s)) s)
      else loader_core_words P (addr + 4) n s)"

definition PatchLoaderCore :: "'w patcher \<Rightarrow> 'w boot_call \<Rightarrow> u32 \<Rightarrow> u32 \<Rightarrow> 'w kernel_side \<Rightarrow> int \<times> 'w kernel_side" where
  "PatchLoaderCore P boot module_bootstart argp s =
     (let s = loader_core_words P (module_bootstart - 0xAF8) (0x8000 div 4) s;
          s = on_world (clear_caches P) s;
          (res, w) = boot module_bootstart argp (kworld s)
      in (res, s\<lparr>kworld := w\<rparr>))"

definition loadParamsPatched :: "'w patcher \<Rightarrow> u32 \<Rightarrow> 'w \<Rightarrow> int \<times> 'w" where
  "loadParamsPatched P a0 w =
     (let v0 = lw P (a0 + 12) w; v1 = lw P (a0 + 16) w
      in (0, sw P (lw P 0x89FF0000 w) (v1 + push_bit 5 v0 - 12) w))"

text \<open>One word of the first loader, \<open>payloadex\<close>: the last test but one reads the word eight bytes on as well.\<close>

definition payload_word :: "'w patcher \<Rightarrow> u32 \<Rightarrow> 'w kernel_side \<Rightarrow> 'w kernel_side" where
  "payload_word P addr s =
     (let w = kworld s; v = lw P addr w in
      if v = 0x27BD01C0 then set_pointer ''sceBoot'' (addr + 4) s
      else if v = 0x240500CF then on_world (make_call P (addr + 4) (address_of P ''loadParamsPatched'')) s
      else if v = 0x24040004
      then on_world (make_call P (addr - 4) (address_of P ''PatchSysMem'')) (on_world (sw P 0x02202021 addr) s)
      else if v = 0x00600008
      then on_world (make_jump P addr (address_of P ''PatchLoadCore'')) (on_world (sw P 0x00602021 (addr - 8)) s)
      else if v = 0x04400029 then on_world (make_call P (addr - 8) (address_of P ''sceKernelCheckPspConfigPatched'')) s
      else if v = 0xAFBF0000 \<and> lw P (addr + 8) w = 0
      then on_world (make_call P (addr + 4) (address_of P ''sceKernelBootLoadFilePatched''))
             (set_pointer ''sceKernelBootLoadFile'' (extract_call P (addr + 4) w) s)
      else s)"

text \<open>The variable \<open>sceBoot\<close> has no value before the scan finds one: calling it then is undefined.\<close>

definition payload_start :: "'w patcher \<Rightarrow> (u32 \<Rightarrow> 'w \<Rightarrow> int \<times> 'w) \<Rightarrow> 'w kernel_side \<Rightarrow> (int \<times> 'w kernel_side) option" where
  "payload_start P boot s = do {
     let s = on_world (sw P 0x2 0x89FF0004) (on_world (sw P 0x200 0x89FF0000) s);
     let s = s\<lparr>pointers := (pointers s)(''sceBoot'' := None)\<rparr>;
    let s = scan (payload_word P) 0x88600000 (0x4000 div 4) s;
     let s = on_world (clear_caches P) s;
     sceBoot \<leftarrow> pointers s ''sceBoot'';
     let (res, w) = boot sceBoot (kworld s);
     Some (res, s\<lparr>kworld := w\<rparr>) }"

text \<open>The loader of a reboot, \<open>rebootex\<close>; the kernel's \<open>sceReboot\<close> is at a fixed address.\<close>

definition reboot_word :: "'w patcher \<Rightarrow> u32 \<Rightarrow> 'w kernel_side \<Rightarrow> 'w kernel_side" where
  "reboot_word P addr s =
     (let w = kworld s; v = lw P addr w in
      if v = 0x24040004
      then on_world (make_call P (addr + 0x64) (address_of P ''PatchSysMem'')) (on_world (sw P 0x02402021 addr) s)
      else if v = 0x00600008
      then on_world (make_jump P addr (address_of P ''PatchLoadCore'')) (on_world (sw P 0x00602021 (addr - 8)) s)
      else if v = 0x04400022 then on_world (make_call P (addr - 8) (address_of P ''sceKernelCheckPspConfigPatched'')) s
      else if v = 0xAFBF0000 \<and> lw P (addr + 8) w = 0
      then on_world (make_call P (addr + 4) (address_of P ''sceKernelBootLoadFilePatched''))
             (set_pointer ''sceKernelBootLoadFile'' (extract_call P (addr + 4) w) s)
      else s)"

definition reboot_start :: "'w patcher \<Rightarrow> (u32 \<Rightarrow> 'w \<Rightarrow> int \<times> 'w) \<Rightarrow> 'w kernel_side \<Rightarrow> int \<times> 'w kernel_side" where
  "reboot_start P boot s =
     (let s = scan (reboot_word P) 0x88600000 (0x4000 div 4) s;
          s = on_world (clear_caches P) s;
          (res, w) = boot 0x88600000 (kworld s)
      in (res, s\<lparr>kworld := w\<rparr>))"

section \<open>The address of a table\<close>

text \<open>
  What the processor computes from the pair of instructions: the first operand is the upper half, the second is added
  with its sign.
\<close>

lemma scast_split: "(scast (lo :: u16) :: u32) = ucast lo - (if bit lo 15 then 0x10000 else 0)"
proof -
  have "take_bit 16 (uint lo) = uint lo"
    using uint_lt2p [of lo] by (intro take_bit_int_eq_self) simp_all
  then have "sint lo = uint lo - 2 ^ 16 * of_bool (bit lo 15)"
    by (simp add: sint_uint signed_take_bit_eq_take_bit_minus bit_uint_iff)
  then have "(of_int (sint lo) :: u32) = of_int (uint lo) - of_int (2 ^ 16 * of_bool (bit lo 15))"
    by (simp only: of_int_diff)
  then show ?thesis
    by (cases "bit lo 15") simp_all
qed

lemma sign_bit: "(ucast (lo :: u16) :: u32) AND 0x8000 = 0 \<longleftrightarrow> \<not> bit lo 15"
  using and_exp_eq_0_iff_not_bit [of "ucast lo :: u32" 15] by (simp add: bit_simps)

lemma table_address_correct: "table_address hi lo = push_bit 16 (ucast hi) + scast lo"
proof -
  have d: "push_bit 16 x AND (ucast lo :: u32) = 0" for x :: u32
    by (rule bit_word_eqI) (auto simp: bit_simps dest: bit_imp_le_length)
  have p: "push_bit 16 (ucast hi :: u32) - 0x10000 = push_bit 16 (ucast hi - 1)"
    by (simp add: push_bit_eq_mult algebra_simps)
  have o: "push_bit 16 x OR (ucast lo :: u32) = push_bit 16 x + ucast lo" for x :: u32
    using d [of x] by (simp add: disjunctive_add_eq_or)
  show ?thesis
  proof (cases "bit lo 15")
    case True
    then show ?thesis
      by (simp add: table_address_def Let_def sign_bit p scast_split o) 
  next
    case False
    then show ?thesis
      by (simp add: table_address_def Let_def sign_bit scast_split o)
  qed
qed
section \<open>The checks of the system memory\<close>

text \<open>
  The contract of loads and stores: the memory as words, at addresses that are multiples of four, of which a store of a
  half word at offset two changes the upper half.
\<close>

definition word_memory :: "'w patcher \<Rightarrow> ('w \<Rightarrow> u32 \<Rightarrow> u32) \<Rightarrow> bool" where
  "word_memory P V \<longleftrightarrow> (\<forall>a w. lw P a w = V w a)
     \<and> (\<forall>h a w. 4 dvd unat a \<longrightarrow> V (sh P h (a + 2) w) a = push_bit 16 (ucast h) OR (V w a AND 0xFFFF)
            \<and> (\<forall>b. 4 dvd unat b \<and> b \<noteq> a \<longrightarrow> V (sh P h (a + 2) w) b = V w b))"

text \<open>The first branch-if-equal at or behind an address.\<close>

definition beq_from :: "(u32 \<Rightarrow> u32) \<Rightarrow> u32 \<Rightarrow> u32 \<Rightarrow> bool" where
  "beq_from m start b \<longleftrightarrow> (\<exists>k. b = start + 4 * of_nat k \<and> is_beq (m b) \<and> (\<forall>j < k. \<not> is_beq (m (start + 4 * of_nat j))))"

text \<open>The instruction that always branches, to the same place.\<close>

definition always :: "u32 \<Rightarrow> u32" where
  "always v = 0x10000000 OR (v AND 0xFFFF)"

lemma beq_always: "is_beq (always v)"
  by (simp add: is_beq_def always_def bit.conj_disj_distrib2 and.assoc)

lemma always_always: "always (always v) = always v"
  by (simp add: always_def bit.conj_disj_distrib2 and.assoc)

lemma aligned_step: "4 dvd unat (a :: u32) \<Longrightarrow> 4 dvd unat (a + 4 * of_nat k)"
  by (simp add: unat_word_ariths unat_of_nat dvd_mod)

lemma FindFirstBEQ_found:
  assumes "\<forall>a. lw P a w = m a" "b = start + 4 * of_nat k" "is_beq (m b)" "\<forall>j < k. \<not> is_beq (m (start + 4 * of_nat j))"
  shows "FindFirstBEQ P w start = Some b"
  using assms(2-4)
proof (induction k arbitrary: start)
  case 0
  then show ?case
    using assms(1) by (simp add: FindFirstBEQ.simps [of P w start])
next
  case (Suc k)
  have "\<not> is_beq (m start)"
    using Suc.prems(3) [rule_format, of 0] by simp
  moreover have "FindFirstBEQ P w (start + 4) = Some b"
  proof (rule Suc.IH)
    show "b = start + 4 + 4 * of_nat k" "is_beq (m b)"
      using Suc.prems(1,2) by (simp_all add: algebra_simps)
    show "\<forall>j < k. \<not> is_beq (m (start + 4 + 4 * of_nat j))"
      using Suc.prems(3) [rule_format, of "Suc j" for j] by (simp add: algebra_simps)
  qed
  ultimately show ?case
    using assms(1) by (simp add: FindFirstBEQ.simps [of P w start])
qed

lemma FindFirstBEQ_ends:
  assumes "\<forall>a. lw P a w = m a" "FindFirstBEQ P w start = Some b"
  shows "beq_from m start b"
proof -
  have "(\<lambda>((P, w), s) b. (\<forall>a. lw P a w = m a) \<longrightarrow> beq_from m s b) ((P, w), start) b"
  proof (rule FindFirstBEQ.raw_induct [OF _ assms(2)])
    fix f and P :: "'a patcher" and w addr r
    assume IH: "\<And>P w s r. f P w s = Some r \<Longrightarrow> (\<lambda>((P, w), s) b. (\<forall>a. lw P a w = m a) \<longrightarrow> beq_from m s b) ((P, w), s) r"
      and eq: "(if is_beq (lw P addr w) then Some addr else f P w (addr + 4)) = Some r"
    show "(\<lambda>((P, w), s) b. (\<forall>a. lw P a w = m a) \<longrightarrow> beq_from m s b) ((P, w), addr) r"
    proof (clarsimp)
      assume m: "\<forall>a. lw P a w = m a"
      show "beq_from m addr r"
      proof (cases "is_beq (m addr)")
        case True
        then show ?thesis
          using eq m by (auto simp: beq_from_def intro!: exI [of _ 0])
      next
        case False
        then have "f P w (addr + 4) = Some r"
          using eq m by simp
        from IH [OF this] m obtain k where k: "r = addr + 4 + 4 * of_nat k" "is_beq (m r)" "\<forall>j < k. \<not> is_beq (m (addr + 4 + 4 * of_nat j))"
          by (auto simp: beq_from_def)
        have "\<not> is_beq (m (addr + 4 * of_nat j))" if "j < Suc k" for j
          using that False k(3) by (cases j) (auto simp: algebra_simps)
        then show ?thesis
          using k(1,2) unfolding beq_from_def by (intro exI [of _ "Suc k"]) (auto simp: algebra_simps)
      qed
    qed
  qed
  then show ?thesis
    using assms(1) by simp
qed

lemma FindFirstBEQ_eq:
  assumes "\<forall>a. lw P a w = m a"
  shows "FindFirstBEQ P w start = Some b \<longleftrightarrow> beq_from m start b"
  using FindFirstBEQ_ends [OF assms] FindFirstBEQ_found [OF assms] by (auto simp: beq_from_def)

lemma beq_from_aligned: "beq_from m start b \<Longrightarrow> 4 dvd unat start \<Longrightarrow> 4 dvd unat b"
  by (auto simp: beq_from_def aligned_step)

lemma beq_from_cong:
  assumes "4 dvd unat start" "\<And>a. 4 dvd unat a \<Longrightarrow> is_beq (m a) = is_beq (m' a)"
  shows "beq_from m start b = beq_from m' start b"
  using assms aligned_step [OF assms(1)] by (auto simp: beq_from_def)

lemma branch_patched:
  assumes "word_memory P V" "4 dvd unat b" "4 dvd unat a"
  shows "V (if b \<noteq> 0 then sh P 0x1000 (b + 2) w else w) a = (if a = b \<and> a \<noteq> 0 then always (V w a) else V w a)"
proof -
  have "push_bit 16 (ucast (0x1000 :: u16) :: u32) = 0x10000000"
    by (simp add: push_bit_eq_mult)
  then show ?thesis
    using assms by (auto simp: word_memory_def always_def)
qed

lemma patch_checks_eq:
  assumes "word_memory P V" "\<forall>nid w. find_proc P ''sceSystemMemoryManager'' ''SysMemUserForUser'' nid w = f nid"
    and "\<forall>nid \<in> set nids. 4 dvd unat (f nid)"
  shows "case patch_checks P nids w of None \<Rightarrow> \<exists>nid \<in> set nids. \<forall>b. \<not> beq_from (V w) (f nid) b
    | Some w' \<Rightarrow> (\<forall>nid \<in> set nids. \<exists>b. beq_from (V w) (f nid) b) \<and> (\<forall>a. 4 dvd unat a \<longrightarrow>
        V w' a = (if a \<noteq> 0 \<and> (\<exists>nid \<in> set nids. beq_from (V w) (f nid) a) then always (V w a) else V w a))"
  using assms(3)
proof (induction nids arbitrary: w)
  case (Cons nid nids)
  have m: "\<forall>a. lw P a w = V w a"
    using assms(1) by (simp add: word_memory_def)
  show ?case
  proof (cases "FindFirstBEQ P w (f nid)")
    case None
    then have "\<forall>b. \<not> beq_from (V w) (f nid) b"
      using FindFirstBEQ_eq [OF m, of "f nid"] by auto
    then show ?thesis
      using None assms(2) by simp
  next
    case (Some b)
    then have b: "beq_from (V w) (f nid) c \<longleftrightarrow> c = b" for c
      using Some FindFirstBEQ_eq [OF m, of "f nid" c] by auto
    define w1 where "w1 = (if b \<noteq> 0 then sh P 0x1000 (b + 2) w else w)"
    have al: "4 dvd unat b"
      using beq_from_aligned [of "V w" "f nid" b] b Cons.prems by simp
    have p: "V w1 a = (if a = b \<and> a \<noteq> 0 then always (V w a) else V w a)" if "4 dvd unat a" for a
      unfolding w1_def by (rule branch_patched [OF assms(1) al that])
    have "is_beq (V w b)"
      using b [of b] by (auto simp: beq_from_def)
    then have q: "is_beq (V w1 a) = is_beq (V w a)" if "4 dvd unat a" for a
      using p [OF that] by (auto simp: beq_always)
    have r: "beq_from (V w1) (f n) = beq_from (V w) (f n)" if "n \<in> set nids" for n
      by (rule ext, rule beq_from_cong) (use Cons.prems that q in auto)
    have step: "patch_checks P (nid # nids) w = patch_checks P nids w1"
      using Some assms(2) by (simp add: w1_def)
    show ?thesis
    proof (cases "patch_checks P nids w1")
      case None
      then show ?thesis
        using Cons.IH [of w1] Cons.prems r unfolding step by auto
    next
      case (Some w')
      then have IH: "\<forall>n \<in> set nids. \<exists>c. beq_from (V w) (f n) c" "\<And>a. 4 dvd unat a \<Longrightarrow>
          V w' a = (if a \<noteq> 0 \<and> (\<exists>n \<in> set nids. beq_from (V w) (f n) a) then always (V w1 a) else V w1 a)"
        using Cons.IH [of w1] Cons.prems r by auto
      then show ?thesis
        using Some b p unfolding step by (auto simp: always_always)
    qed
  qed
qed simp

text \<open>
  C23: the checks of the kernel's memory functions are removed. In each of the ten functions the first branch-if-equal
  becomes a branch that is always taken, to the same place; no other word changes, also when two functions share the
  branch, and the order does not matter. When one of them has no such branch, the search never ends.
\<close>

theorem sysmem_checks_removed:
  assumes "word_memory P V" and "\<forall>nid w. find_proc P ''sceSystemMemoryManager'' ''SysMemUserForUser'' nid w = f nid"
    and "\<forall>nid \<in> set sysmem_nids. 4 dvd unat (f nid)"
  shows "if \<forall>nid \<in> set sysmem_nids. \<exists>b. beq_from (V w) (f nid) b
     then \<exists>w'. PatchSysmem P w = Some w' \<and> (\<forall>a. 4 dvd unat a \<longrightarrow>
            V w' a = (if a \<noteq> 0 \<and> (\<exists>nid \<in> set sysmem_nids. beq_from (V w) (f nid) a) then always (V w a) else V w a))
     else PatchSysmem P w = None"
  using patch_checks_eq [OF assms, of w] by (auto simp: PatchSysmem_def split: option.splits)

text \<open>A kernel of words where every function starts at the same place, with a branch three words on.\<close>

definition word_patcher :: "(u32 \<Rightarrow> u32) patcher" where
  "word_patcher = \<lparr>lw = \<lambda>a m. m a, lh = \<lambda>a m. 0, sw = \<lambda>v a m. m(a := v),
     sh = \<lambda>h a m. m(a - 2 := push_bit 16 (ucast h) OR (m (a - 2) AND 0xFFFF)), sb = \<lambda>b a m. m, clear_bytes = \<lambda>a n m. m,
     address_of = \<lambda>f. 0, make_call = \<lambda>a f m. m, make_jump = \<lambda>a f m. m, extract_call = \<lambda>a m. 0, extract_import = \<lambda>f m. 0,
     hijack_function = \<lambda>a f m. (0, m), hijack_call = \<lambda>a f m. (0, m), redirect_function = \<lambda>a f m. m, make_dummy = \<lambda>a v m. m,
     patch_syscall = \<lambda>a f m. m, find_proc = \<lambda>m l nid w. 0x88000000, find_import = \<lambda>m l nid w. 0, find_module = \<lambda>n m. None,
     clear_caches = \<lambda>m. m\<rparr>"

lemma word_patcher_memory: "word_memory word_patcher (\<lambda>m. m)"
  by (simp add: word_memory_def word_patcher_def)

theorem sysmem_checks_removed_witness:
  "\<exists>m. PatchSysmem word_patcher ((\<lambda>a. 0)(0x8800000C := 0x10400003)) = Some m \<and> m 0x8800000C = 0x10000003 \<and> m 0x88000010 = 0"
proof -
  let ?m = "(\<lambda>a. 0)(0x8800000C := 0x10400003) :: u32 \<Rightarrow> u32"
  have b: "beq_from ?m 0x88000000 0x8800000C"
    unfolding beq_from_def by (rule exI [of _ 3]) (auto simp: is_beq_def less_Suc_eq numeral_3_eq_3)
  have n: "\<not> beq_from ?m 0x88000000 0x88000010"
    by (auto simp: beq_from_def is_beq_def)
  have f: "\<forall>nid w. find_proc word_patcher ''sceSystemMemoryManager'' ''SysMemUserForUser'' nid w = 0x88000000"
    by (simp add: word_patcher_def)
  have "\<forall>nid \<in> set sysmem_nids. \<exists>b. beq_from ?m 0x88000000 b"
    using b by blast
  moreover have "(0x7591C7DB :: u32) \<in> set sysmem_nids"
    by (simp add: sysmem_nids_def)
  ultimately show ?thesis
    using sysmem_checks_removed [OF word_patcher_memory, of "\<lambda>_. 0x88000000" ?m] f b n
    by (force simp: always_def)
qed

end
