(* ===== verification/SysMain.thy ===== *)
theory SysMain
  imports KernelPatch Adrenaline BootInfo
begin

text \<open>
  The module handler of SystemControl, \<open>overlay/cef/systemctrl/main.c\<close>: what is patched when a module of the emulated
  console starts, and what is done once, when the system has come up. The kernel, the patches of files outside the
  repository and the layout of the general settings are parameters; the patches themselves are those of
  \<open>KernelPatch\<close>. A call that never returns and undefined behaviour are \<open>None\<close>.
\<close>

unbundle bit_operations_syntax

section \<open>The state\<close>

text \<open>The general settings as far as they are used here.\<close>

record se_config =
  se_umdisocpuspeed :: i32
  se_forcehighmemory :: bool
  se_notusenodrmengine :: bool

record 'w main_sys =
  ms_patch :: "'w patcher"
  ms_layout :: sfo_layout
  ms_info :: "'w info_sys"
  keyconfig_game :: u32
  malloc_init :: "'w \<Rightarrow> int \<times> 'w"
  alloc_pops_memory :: "'w \<Rightarrow> 'w"
  get_config :: "'w \<Rightarrow> se_config \<times> 'w"
  get_booter_config :: "'w \<Rightarrow> BootInfo \<times> 'w"
  partition_found :: "'w \<Rightarrow> bool"
  patch_power_service :: "u32 \<Rightarrow> 'w \<Rightarrow> 'w"
  patch_utility :: "'w \<Rightarrow> 'w"
  setup_callbacks :: "'w \<Rightarrow> 'w"
  system_status :: "'w \<Rightarrow> u32"
  set_clock :: "int \<times> int \<times> bool \<Rightarrow> 'w \<Rightarrow> 'w"
  show_native :: "'w \<Rightarrow> 'w"
  send_vita :: "vita_cmd \<Rightarrow> 'w \<Rightarrow> 'w"

record 'w sysmain =
  kside :: "'w kernel_side"
  came_up :: bool
  se :: se_config
  bubble :: BootInfo
  reboot_cfg :: RebootexConfig
  parts :: partitions
  shared_obj :: SceAdrenaline

definition on_side :: "('w kernel_side \<Rightarrow> 'w kernel_side) \<Rightarrow> 'w sysmain \<Rightarrow> 'w sysmain" where
  "on_side f st = st\<lparr>kside := f (kside st)\<rparr>"

definition on_kernel :: "('w \<Rightarrow> 'w) \<Rightarrow> 'w sysmain \<Rightarrow> 'w sysmain" where
  "on_kernel f st = on_side (on_world f) st"

abbreviation kernel_of :: "'w sysmain \<Rightarrow> 'w" where
  "kernel_of st \<equiv> kworld (kside st)"

section \<open>Hooks\<close>

definition PrologueModulePatched :: "('m \<Rightarrow> 's \<Rightarrow> int \<times> 's) \<Rightarrow> ('m \<Rightarrow> 's \<Rightarrow> 's) option \<Rightarrow> 'm \<Rightarrow> 's \<Rightarrow> int \<times> 's" where
  "PrologueModulePatched original handler m s =
     (let (res, s) = original m s
      in (res, case handler of None \<Rightarrow> s | Some h \<Rightarrow> if 0 \<le> res then h m s else s))"

definition sctrlHENSetStartModuleHandler :: "u32 \<Rightarrow> u32 \<Rightarrow> u32 \<times> u32" where
  "sctrlHENSetStartModuleHandler module_handler handler = (module_handler, handler OR 0x80000000)"

definition sceResmgrDecryptIndexPatched :: "(path \<Rightarrow> nat \<Rightarrow> 'w \<Rightarrow> int \<times> byte list \<times> 'w) \<Rightarrow> nat \<Rightarrow> 'w \<Rightarrow> int \<times> int \<times> byte list \<times> 'w" where
  "sceResmgrDecryptIndexPatched read_file n w =
     (let (res, data, w) = read_file ''flash0:/vsh/etc/version.txt'' n w in (0, res, data, w))"

text \<open>
  The comparison of a tag of the kernel's decryption: with the tag of the 6.61 modules the keys are stored and the tags
  are equal. \<open>b1\<close> and \<open>b2\<close> have at least \<open>len\<close> bytes, and the tag has four.
\<close>

definition kernel661_tag :: "byte list" where
  "kernel661_tag = le32 0x4C9494F0"

definition kernel661_keys :: "u8 list" where
  "kernel661_keys = [0x76, 0xF2, 0x6C, 0x0A, 0xCA, 0x3A, 0xBA, 0x4E, 0xAC, 0x76, 0xD2, 0x40, 0xF5, 0xC3, 0xBF, 0xF9]"

definition memcmp_patched ::
  "(byte list \<Rightarrow> byte list \<Rightarrow> int) \<Rightarrow> (u32 \<Rightarrow> u8 list \<Rightarrow> 'w \<Rightarrow> 'w) \<Rightarrow> byte list \<Rightarrow> byte list \<Rightarrow> nat \<Rightarrow> 'w \<Rightarrow> (int \<times> 'w) option"
where
  "memcmp_patched memcmp store b1 b2 len w =
     (if length b2 < len \<or> 4 < len then None
      else if take len kernel661_tag = take len b2 then Some (0, store 0xBFC00220 kernel661_keys w)
      else if length b1 < len then None
      else Some (memcmp (take len b1) (take len b2), w))"

definition sceUmdRegisterUMDCallBackPatched :: "(int \<Rightarrow> 'w \<Rightarrow> int \<times> 'w) \<Rightarrow> int \<Rightarrow> 'w \<Rightarrow> int \<times> 'w" where
  "sceUmdRegisterUMDCallBackPatched notify_not_present cbid w = notify_not_present cbid w"

text \<open>The thread of the PlayStation emulator: \<open>name\<close> answers the name of a thread when its status can be read.\<close>

definition thread_hook ::
  "vita_cmd \<Rightarrow> (int \<Rightarrow> 'w \<Rightarrow> byte list option) \<Rightarrow> (vita_cmd \<Rightarrow> 'w \<Rightarrow> 'w) \<Rightarrow> (int \<Rightarrow> 'w \<Rightarrow> int \<times> 'w) \<Rightarrow> int \<Rightarrow> 'w \<Rightarrow> int \<times> 'w"
where
  "thread_hook cmd name send original thid w =
     original thid (if name thid w = Some ''popsmain'' then send cmd w else w)"

definition sceKernelSuspendThreadPatched ::
  "(int \<Rightarrow> 'w \<Rightarrow> byte list option) \<Rightarrow> (vita_cmd \<Rightarrow> 'w \<Rightarrow> 'w) \<Rightarrow> (int \<Rightarrow> 'w \<Rightarrow> int \<times> 'w) \<Rightarrow> int \<Rightarrow> 'w \<Rightarrow> int \<times> 'w"
where
  "sceKernelSuspendThreadPatched = thread_hook VITA_CMD_PAUSE_POPS"

definition sceKernelResumeThreadPatched ::
  "(int \<Rightarrow> 'w \<Rightarrow> byte list option) \<Rightarrow> (vita_cmd \<Rightarrow> 'w \<Rightarrow> 'w) \<Rightarrow> (int \<Rightarrow> 'w \<Rightarrow> int \<times> 'w) \<Rightarrow> int \<Rightarrow> 'w \<Rightarrow> int \<times> 'w"
where
  "sceKernelResumeThreadPatched = thread_hook VITA_CMD_RESUME_POPS"

section \<open>When the system has come up\<close>

text \<open>\<open>stack\<close> is what the header on the stack of \<open>getSfoTitle\<close> holds before.\<close>

definition OnSystemStatusIdle :: "'w main_sys \<Rightarrow> byte list \<Rightarrow> 'w sysmain \<Rightarrow> 'w sysmain option" where
  "OnSystemStatusIdle sys stack st = do {
     (adr, w) \<leftarrow> initAdrenalineInfo (ms_layout sys) (ms_info sys) stack (kernel_of st);
     let st = st\<lparr>shared_obj := adr, kside := (kside st)\<lparr>kworld := w\<rparr>\<rparr>;
     let disc = (bootfrom (ms_info sys) = PSP_BOOT_DISC);
     let st = on_side (PatchVolatileMemBug (ms_patch sys) disc) st;
     let speed = idle_speed disc (a_adr_id (shared_obj st)) (cpuspeed (bubble st)) (se_umdisocpuspeed (se st))
                   (init_keyconfig (ms_info sys) = KEYCONFIG_VSH);
     let st = (case speed of None \<Rightarrow> st | Some c \<Rightarrow> on_kernel (set_clock sys c) st);
     Some (if a_pops_mode (shared_obj st) then on_kernel (show_native sys) st
           else on_kernel (send_vita sys VITA_CMD_RESUME_POPS) st) }"

section \<open>When a module starts\<close>

definition dummy_import :: "'w patcher \<Rightarrow> byte list \<Rightarrow> byte list \<Rightarrow> u32 \<Rightarrow> u32 \<Rightarrow> 'w \<Rightarrow> 'w" where
  "dummy_import P name lib nid v w =
     (let func = find_import P name lib nid w in if func \<noteq> 0 then clear_caches P (make_dummy P func v w) else w)"

definition vlf_nids :: "u32 list" where
  "vlf_nids = [0x2A245FE6, 0x7B08EAAB, 0x22050FC0, 0x158BE61A, 0xD495179F]"

definition patch_vlf :: "'w patcher \<Rightarrow> byte list \<Rightarrow> 'w \<Rightarrow> 'w" where
  "patch_vlf P name w =
     clear_caches P (fold (\<lambda>nid w. let f = find_proc P name ''VlfGui'' nid w in if f \<noteq> 0 then make_dummy P f 0 w else w) vlf_nids w)"

definition patch_cwcheat :: "'w patcher \<Rightarrow> byte list \<Rightarrow> 'w \<Rightarrow> 'w" where
  "patch_cwcheat P name w =
     (let w = make_jump P (find_import P name ''ThreadManForKernel'' 0x9944F31F w) (address_of P ''sceKernelSuspendThreadPatched'') w;
          w = make_jump P (find_import P name ''ThreadManForKernel'' 0x75156E8F w) (address_of P ''sceKernelResumeThreadPatched'') w
      in clear_caches P w)"

text \<open>The input and output driver: without its heap the system stops in a loop.\<close>

definition start_low_io :: "'w main_sys \<Rightarrow> u32 \<Rightarrow> 'w sysmain \<Rightarrow> 'w sysmain option" where
  "start_low_io sys text_addr st =
     (let (res, w) = malloc_init sys (kernel_of st);
          st = on_kernel (\<lambda>_. w) st;
          P = ms_patch sys
      in if res < 0 then None
         else
           let st = (if init_keyconfig (ms_info sys) = KEYCONFIG_POPS then on_kernel (alloc_pops_memory sys) st else st);
               st = on_kernel (clear_bytes P 0x49F40000 0x80000) st;
               st = on_kernel (clear_bytes P 0xABCD0000 0x1B0) st
           in Some (on_side (PatchLowIODriver2 P text_addr) st))"

text \<open>The power service: the settings are read, and the game's memory is set before the service is patched.\<close>

definition start_power :: "'w main_sys \<Rightarrow> u32 \<Rightarrow> 'w sysmain \<Rightarrow> 'w sysmain" where
  "start_power sys text_addr st =
     (let (c, w) = get_config sys (kernel_of st);
          (b, w) = get_booter_config sys w;
          st = (on_kernel (\<lambda>_. w) st)\<lparr>se := c, bubble := b\<rparr>;
          st = (if force_high_memory (init_keyconfig (ms_info sys) = KEYCONFIG_GAME) (sint (highmemory b)) (se_forcehighmemory c)
                then let cfg = snd (sctrlHENSetMemory 52 0 (reboot_cfg st))
                     in st\<lparr>reboot_cfg := cfg, parts := ApplyMemory (partition_found sys (kernel_of st)) cfg (parts st)\<rparr>
                else st);
          st = on_kernel (patch_power_service sys text_addr) st
      in on_side (PatchPowerService2 (ms_patch sys) text_addr) st)"

definition module_patches :: "'w main_sys \<Rightarrow> kmodule \<Rightarrow> 'w sysmain \<Rightarrow> 'w sysmain option" where
  "module_patches sys m st =
     (let P = ms_patch sys; name = km_name m; text_addr = km_text m; pops = (init_keyconfig (ms_info sys) = KEYCONFIG_POPS);
          disc = (bootfrom (ms_info sys) = PSP_BOOT_DISC)
      in if name = ''sceLowIO_Driver'' then start_low_io sys text_addr st
         else if name = ''sceLoadExec'' then Some (on_side (PatchLoadExec P text_addr (km_text_size m)) st)
         else if name = ''scePower_Service'' then Some (start_power sys text_addr st)
         else if name = ''sceChkreg'' then Some (on_side (PatchChkreg P) st)
         else if name = ''sceMesgLed''
         then Some (on_kernel (\<lambda>w. clear_caches P (redirect_function P (find_proc P ''sceMesgLed'' ''sceResmgr_driver'' 0x9DC14891 w)
                                 ''sceResmgrDecryptIndexPatched'' w)) st)
         else if name = ''scePspNpDrm_Driver''
         then do {
           k \<leftarrow> PatchNpDrmDriver P (sint (nonpdrm (bubble st))) (se_notusenodrmengine (se st)) disc text_addr (kside st);
           Some (st\<lparr>kside := k\<rparr>) }
         else if name = ''sceUmd_driver''
         then Some (on_kernel (\<lambda>w. clear_caches P (redirect_function P (text_addr + 0xC80) ''sceUmdRegisterUMDCallBackPatched'' w)) st)
         else if name = ''sceMeCodecWrapper''
         then Some (on_side (\<lambda>s. on_world (clear_caches P) (hijack P (find_proc P name ''sceMeAudio_driver'' 0xC300D466 (kworld s))
                                 ''sceMeAudio_driver_C300D466_Patched'' ''sceMeAudio_driver_C300D466'' s)) st)
         else if name = ''sceUtility_Driver'' then Some (on_kernel (patch_utility sys) st)
         else if name = ''sceImpose_Driver''
         then Some (on_side (PatchImposeDriver P (keyconfig_game sys) text_addr (a_adr_id (shared_obj st) \<noteq> 0)
                               (sint (psbutton (bubble st))) pops (setup_callbacks sys)) st)
         else if name = ''sceMediaSync'' then Some (on_side (PatchMediaSync P text_addr) st)
         else if name = ''sceNpSignupPlugin_Module''
         then Some (on_kernel (\<lambda>w. clear_caches P (sw P 0x3C041000 (text_addr + 0x38CBC) w)) st)
         else if name = ''sceVshNpSignin_Module''
         then Some (on_kernel (\<lambda>w. clear_caches P (sw P 0x3C041000 (text_addr + 0x96C4) (sw P 0x10000008 (text_addr + 0x6CF4) w))) st)
         else if name = ''sceSAScore'' then Some (on_side (PatchSasCore P) st)
         else if name = ''DJMAX'' \<or> name = ''djmax'' then Some (on_kernel (dummy_import P name ''IoFileMgrForUser'' 0xE3EB004C 0) st)
         else if name = ''tekken'' then Some (on_kernel (dummy_import P name ''scePower'' 0x34F9C463 222) st)
         else if name = ''KHBBS_patch'' then Some (on_kernel (\<lambda>w. clear_caches P (make_dummy P (km_entry m) 1 w)) st)
         else if name = ''VLF_Module'' then Some (on_kernel (patch_vlf P name) st)
         else if name = ''CWCHEATPRX'' \<and> pops then Some (on_kernel (patch_cwcheat P name) st)
         else Some st)"

definition OnModuleStart :: "'w main_sys \<Rightarrow> byte list \<Rightarrow> kmodule \<Rightarrow> 'w sysmain \<Rightarrow> 'w sysmain option" where
  "OnModuleStart sys stack m st = do {
     st \<leftarrow> module_patches sys m st;
     if \<not> came_up st \<and> system_status sys (kernel_of st) = 0x20000
     then OnSystemStatusIdle sys stack (st\<lparr>came_up := True\<rparr>)
     else Some st }"

text \<open>The modules of a boot, one after the other.\<close>

fun start_modules :: "'w main_sys \<Rightarrow> byte list \<Rightarrow> kmodule list \<Rightarrow> 'w sysmain \<Rightarrow> 'w sysmain option" where
  "start_modules sys stack [] st = Some st"
| "start_modules sys stack (m # ms) st = do { st \<leftarrow> OnModuleStart sys stack m st; start_modules sys stack ms st }"

text \<open>
  The service's own entry: the kernel is patched, the handler registered and the settings of the reboot taken over from
  the loader. \<open>io\<close> stands for \<open>PatchIoFileMgr\<close> and \<open>service\<close> for \<open>initAdrenaline\<close>, which creates the service's thread;
  \<open>saved\<close> is the record the loader left.
\<close>

definition sysmain_start ::
  "'w patcher \<Rightarrow> ('w \<Rightarrow> 'w) \<Rightarrow> (u32 \<Rightarrow> 'w \<Rightarrow> 'w) \<Rightarrow> ('w \<Rightarrow> 'w) \<Rightarrow> RebootexConfig \<Rightarrow> 'w sysmain \<Rightarrow> 'w sysmain option"
where
  "sysmain_start P io set_handler service saved st = do {
     w \<leftarrow> PatchSysmem P (kernel_of st);
     k \<leftarrow> PatchLoadCore P ((kside st)\<lparr>kworld := w\<rparr>);
     w \<leftarrow> PatchInterruptMgr P (kworld k);
     w \<leftarrow> PatchMemlmd P (io w);
     k \<leftarrow> PatchModuleMgr P (k\<lparr>kworld := w\<rparr>);
     let k = on_world (clear_caches P) k;
     let k = on_world (set_handler (snd (sctrlHENSetStartModuleHandler 0 (address_of P ''OnModuleStart'')))) k;
     let k = on_world (UnprotectExtraMemory P) k;
     let k = on_world service k;
     Some (st\<lparr>kside := k, reboot_cfg := saved\<rparr>) }"

section \<open>Coming up once\<close>

lemma side_keeps [simp]:
  "came_up (on_side f st) = came_up st" "shared_obj (on_side f st) = shared_obj st" "came_up (on_kernel g st) = came_up st"
  "shared_obj (on_kernel g st) = shared_obj st" "bubble (on_side f st) = bubble st" "bubble (on_kernel g st) = bubble st"
  "se (on_side f st) = se st" "se (on_kernel g st) = se st"
  by (simp_all add: on_side_def on_kernel_def)

lemma start_power_keeps: "came_up (start_power sys a st) = came_up st \<and> shared_obj (start_power sys a st) = shared_obj st"
  by (simp add: start_power_def split_def Let_def)

lemma start_low_io_keeps: "start_low_io sys a st = Some st' \<Longrightarrow> came_up st' = came_up st \<and> shared_obj st' = shared_obj st"
  by (auto simp: start_low_io_def split_def Let_def split: if_splits)

lemma module_patches_keep:
  assumes "module_patches sys m st = Some st'"
  shows "came_up st' = came_up st \<and> shared_obj st' = shared_obj st"
proof (cases "km_name m = ''sceLowIO_Driver'' \<or> km_name m = ''scePspNpDrm_Driver''")
  case True
  then show ?thesis
    using assms start_low_io_keeps [of sys "km_text m" st st']
    by (auto simp: module_patches_def Let_def split: Option.bind_splits)
next
  case False
  then show ?thesis
    using assms start_power_keeps [of sys "km_text m" st] unfolding module_patches_def Let_def
    by (auto split: if_splits)
qed

lemma info_adr_id: "initAdrenalineInfo lay info stack w = Some (a, w') \<Longrightarrow> a_adr_id a = 0"
  unfolding initAdrenalineInfo_def Let_def by (auto simp: empty_adrenaline_def split: Option.bind_splits)

lemma idle_result:
  assumes "OnSystemStatusIdle sys stack st = Some st'"
  shows "came_up st' = came_up st \<and> a_adr_id (shared_obj st') = 0
    \<and> OnSystemStatusIdle sys stack (st\<lparr>shared_obj := a\<rparr>) = Some st'"
proof -
  obtain adr w where i: "initAdrenalineInfo (ms_layout sys) (ms_info sys) stack (kernel_of st) = Some (adr, w)"
    using assms by (auto simp: OnSystemStatusIdle_def split: Option.bind_splits)
  then show ?thesis
    using assms info_adr_id [OF i] by (auto simp: OnSystemStatusIdle_def Let_def on_side_def on_kernel_def split: option.splits if_splits)
qed

lemma up_stays:
  assumes "start_modules sys stack ms st = Some st'" "came_up st"
  shows "came_up st' \<and> shared_obj st' = shared_obj st"
  using assms
proof (induction ms arbitrary: st)
  case (Cons m ms)
  obtain s1 where s: "module_patches sys m st = Some s1" "OnModuleStart sys stack m st = Some s1" "start_modules sys stack ms s1 = Some st'"
    using Cons.prems module_patches_keep by (fastforce simp: OnModuleStart_def split: Option.bind_splits if_splits)
  then show ?case
    using Cons.IH [of s1] module_patches_keep [OF s(1)] Cons.prems(2) by simp
qed simp

text \<open>The start of the module with which the system comes up.\<close>

definition comes_up :: "'w main_sys \<Rightarrow> byte list \<Rightarrow> kmodule \<Rightarrow> 'w sysmain \<Rightarrow> 'w sysmain \<Rightarrow> bool" where
  "comes_up sys stack m s s' \<longleftrightarrow> (\<exists>s1. module_patches sys m s = Some s1 \<and> system_status sys (kernel_of s1) = 0x20000
     \<and> (\<forall>a. OnSystemStatusIdle sys stack (s1\<lparr>came_up := True, shared_obj := a\<rparr>) = Some s'))"

lemma OnModuleStart_cases:
  assumes "OnModuleStart sys stack m st = Some s" "\<not> came_up st"
  obtains (down) "\<not> came_up s" "shared_obj s = shared_obj st" | (up) "came_up s" "comes_up sys stack m st s" "a_adr_id (shared_obj s) = 0"
proof -
  obtain s1 where s1: "module_patches sys m st = Some s1"
    using assms(1) by (auto simp: OnModuleStart_def split: Option.bind_splits)
  note k = module_patches_keep [OF s1]
  show thesis
  proof (cases "system_status sys (kernel_of s1) = 0x20000")
    case True
    then have i: "OnSystemStatusIdle sys stack (s1\<lparr>came_up := True\<rparr>) = Some s"
      using assms s1 k by (simp add: OnModuleStart_def)
    then show thesis
      using idle_result [OF i] True s1 up by (simp add: comes_up_def)
  next
    case False
    then show thesis
      using assms s1 k down by (simp add: OnModuleStart_def)
  qed
qed


text \<open>A console in the shell whose system has come up once a module of utilities has started; the world counts these modules.\<close>

definition quiet_patcher :: "nat patcher" where
  "quiet_patcher = \<lparr>lw = \<lambda>a n. 0, lh = \<lambda>a n. 0, sw = \<lambda>v a n. n, sh = \<lambda>h a n. n, sb = \<lambda>b a n. n, clear_bytes = \<lambda>a k n. n,
     address_of = \<lambda>f. 0, make_call = \<lambda>a f n. n, make_jump = \<lambda>a f n. n, extract_call = \<lambda>a n. 0, extract_import = \<lambda>f n. 0,
     hijack_function = \<lambda>a f n. (0, n), hijack_call = \<lambda>a f n. (0, n), redirect_function = \<lambda>a f n. n, make_dummy = \<lambda>a v n. n,
     patch_syscall = \<lambda>a f n. n, find_proc = \<lambda>m l nid n. 0, find_import = \<lambda>m l nid n. 0, find_module = \<lambda>m n. None,
     clear_caches = \<lambda>n. n\<rparr>"

definition shell_io :: "nat sceio" where
  "shell_io = \<lparr>sceIoOpen = (\<lambda>p f m n. (-1, n)), sceIoRead = (\<lambda>fd k n. (-1, [], n)), sceIoWrite = (\<lambda>fd b n. (-1, n)),
     sceIoLseek = (\<lambda>fd d wh n. (-1, n)), sceIoClose = (\<lambda>fd n. (-1, n)), sceIoGetstat = (\<lambda>p n. (-1, n)),
     sceIoRemove = (\<lambda>p n. (-1, n))\<rparr>"

definition no_bubble :: BootInfo where
  "no_bubble = \<lparr>magic = 0, driver = 0, execute = 0, customized = 0, loadstate = 0, psbutton = 0, suspend = 0, cpuspeed = 0,
     plugins = 0, nonpdrm = 0, highmemory = 0, reserved = [], file_path = []\<rparr>"

definition default_config :: se_config where
  "default_config = \<lparr>se_umdisocpuspeed = 0, se_forcehighmemory = False, se_notusenodrmengine = False\<rparr>"

definition shell_sys :: "nat main_sys" where
  "shell_sys = \<lparr>ms_patch = quiet_patcher, ms_layout = sample_layout,
     ms_info = \<lparr>info_io = shell_io, bootfrom = PSP_BOOT_MS, init_file = None, init_keyconfig = KEYCONFIG_VSH, game_info = None,
       alloc_kernel = (\<lambda>k n. (-1, [], n)), free_kernel = (\<lambda>b n. n)\<rparr>,
     keyconfig_game = 0x200, malloc_init = Pair 0, alloc_pops_memory = id, get_config = Pair default_config,
     get_booter_config = Pair no_bubble, partition_found = (\<lambda>n. True), patch_power_service = (\<lambda>a n. n), patch_utility = Suc,
     setup_callbacks = id, system_status = (\<lambda>n. if n = 0 then 0x10000 else 0x20000), set_clock = (\<lambda>c n. n), show_native = id,
     send_vita = (\<lambda>c n. n)\<rparr>"

definition module_named :: "byte list \<Rightarrow> kmodule" where
  "module_named name = \<lparr>km_name = name, km_text = 0x88000000, km_text_size = 0x1000, km_entry = 0x88000000\<rparr>"

definition shell_boot :: "kmodule list" where
  "shell_boot = [module_named ''sceMSstor_Driver'', module_named ''sceUtility_Driver'', module_named ''sceUtility_Driver'']"

definition shell_start :: "nat sysmain" where
  "shell_start = \<lparr>kside = \<lparr>kworld = 0, pointers = Map.empty\<rparr>, came_up = False, se = default_config, bubble = no_bubble,
     reboot_cfg = \<lparr>bootfileindex = 0, umdfilename = [], ram2 = 0, ram11 = 0, module_buf = []\<rparr>,
     parts = \<lparr>user_partition = \<lparr>p_address = 0, p_size = 0, p_data_size = 0\<rparr>, partition11 = \<lparr>p_address = 0, p_size = 0, p_data_size = 0\<rparr>\<rparr>,
     shared_obj = empty_adrenaline\<lparr>a_adr_id := 1\<rparr>\<rparr>"

lemma shell_modules:
  "module_patches shell_sys (module_named ''sceMSstor_Driver'') st = Some st"
  "module_patches shell_sys (module_named ''sceUtility_Driver'') st = Some (on_kernel Suc st)"
  by (simp_all add: module_patches_def module_named_def shell_sys_def)

lemma shell_info: "\<exists>a. initAdrenalineInfo sample_layout (ms_info shell_sys) stack n = Some (a, n) \<and> \<not> a_pops_mode a"
proof -
  obtain t where "strcpy (replicate 128 NUL) (lit XMB) = Some t"
    by (simp add: XMB_def eval_nat_numeral)
  then show ?thesis
    by (simp add: initAdrenalineInfo_def info_title_def shell_sys_def empty_adrenaline_def)
qed

lemma shell_idle:
  assumes "kworld (kside st) = n"
  shows "\<exists>s. OnSystemStatusIdle shell_sys stack st = Some s \<and> came_up s = came_up st"
  using shell_info [of stack n] assms
  by (auto simp: OnSystemStatusIdle_def PatchVolatileMemBug_def idle_speed_def shell_sys_def on_side_def on_kernel_def)


end
