(* ===== verification/Spec2Isabelle.thy ===== *)
theory Spec2Isabelle
  imports AdrBooter BootConv PspBooter UserUtils MsfsLaws IsoFs Usb Flash0 InitPatch SysCtrl States Reboot StateFile Menu Adrenaline UserMain Draw Loader Console Btcnf SysMain
begin

text \<open>
  Verification of AdrBubbleBooter, the software that starts a PSP or PlayStation image from a bubble of the PS Vita
  home screen. A bubble's plugins prepare \<open>boot.bin\<close>; the Adrenaline emulator, whose user module and SystemControl
  are changed for it, boots the emulated PSP; on the PSP side a booter reads \<open>boot.bin\<close> and starts the content.

  \<^bold>\<open>Parts and theories.\<close> Paths are below \<open>src/\<close> of the repository; \<open>overlay/\<close> is
  \<open>integration/adrenaline-v7/overlay/\<close>.
  \<^item> \<open>Prelude\<close>, \<open>CString\<close>, \<open>CFormat\<close>: memory as byte lists, the string routines and the formatter of
    \<open>src/vita/common/minilibc.c\<close>. An access outside an object is \<open>None\<close>; the lemmas give each routine's value on
    terminated strings, \<open>strtok_r\<close>'s tokens, and that \<open>snprintf\<close> stays within its buffer.
  \<^item> \<open>SceIo\<close>: the file calls of the Vita and PSP kernels as the fields of \<open>sceio\<close>, a parameter of every model that
    uses files; the locale \<open>whole_file\<close> and the predicate \<open>fs_contract\<close> state their documented behaviour, and the
    in-memory file system \<open>mem_io\<close> satisfies it, which the witnesses use.
  \<^item> \<open>BootInfo\<close>, \<open>Devices\<close>: the layouts of \<open>boot.bin\<close> with their byte codecs, and the device names.
  \<^item> \<open>AdrBooter\<close> (\<open>src/vita/adrbubblebooter/main.c\<close>), \<open>BootConv\<close> (\<open>src/vita/bootconv/main.c\<close>),
    \<open>PspBooter\<close> (\<open>src/psp/booter/main.c\<close>): the three modules of the launch, each with an abstract specification of
    a launch that its entry point refines.
  \<^item> \<open>UserUtils\<close> (\<open>overlay/user/utils.c\<close>): pads, texts and instruction encoders.
  \<^item> \<open>Slots\<close>, \<open>Msfs\<close>, \<open>MsfsLaws\<close> (\<open>overlay/user/msfs.c\<close>): the memory-stick server. \<open>Slots\<close> is the locale of
    descriptor tables with \<open>Msfs\<close> and \<open>IsoFs\<close> as interpretations.
  \<^item> \<open>IsoFs\<close> (\<open>overlay/cef/vshctrl/isofs_driver/isofs_driver.c\<close>): the ISO 9660 driver over a block device.
  \<^item> \<open>Usb\<close> (\<open>overlay/user/usb.c\<close>), \<open>Flash0\<close> (\<open>overlay/user/flashfs.c\<close>), \<open>States\<close> (\<open>overlay/user/states.c\<close>): the
    USB session, the builder of the emulated flash0, and the save-state menu.
  \<^item> \<open>InitPatch\<close>, \<open>SysCtrl\<close>, \<open>Reboot\<close> (\<open>overlay/cef/systemctrl/\<close>, \<open>overlay/cef/rebootex/main.c\<close>): plugin start,
    settings, DRM recognition, thread control, and what a reboot keeps.
  \<^item> \<open>Shared\<close> (\<open>overlay/adrenaline_compat.h\<close>): the object in emulated memory through which the user module and
    SystemControl exchange commands. \<open>Adrenaline\<close> (\<open>overlay/cef/systemctrl/adrenaline.c\<close>): the service that executes the
    user module's commands, as a turn of its thread and as a step relation of both sides interleaved, the hooks of a
    save state, and the title read from the game's parameter file.
  \<^item> \<open>StateFile\<close>, \<open>Settings\<close> (\<open>SaveState\<close>, \<open>LoadState\<close> and the settings of \<open>overlay/user/main.c\<close> and \<open>menu.c\<close>): the
    files of states and settings with their round trips.
  \<^item> \<open>Lz4\<close>, \<open>Lz4Laws\<close>, \<open>Lz4Enc\<close>, \<open>Lz4Block\<close> (\<open>overlay/user/lz4/lz4.c\<close>): the compressor of the save states, in its own
    buffers with every word copy that runs over an end. \<open>Lz4\<close> holds the translation; \<open>Lz4Laws\<close> the block format and the
    decoder, where an overlapping word copy is shown to be the copy byte by byte; \<open>Lz4Enc\<close> the pieces of the encoder;
    \<open>Lz4Block\<close> its loop invariant, from which come the round trip of a block, the bound of a destination that is
    large enough, and what a smaller limit is worth.
  \<^item> \<open>Menu\<close>, \<open>Draw\<close> (\<open>overlay/user/menu.c\<close>): the menu's tables, state and control with the invariant of a session, and
    the drawing thread one frame at a time.
  \<^item> \<open>Patches\<close>, \<open>UserMain\<close> (\<open>overlay/user/main.c\<close>): the hooks and injections into the emulator, decoded again; the
    server of SystemControl's requests with the invariant of its USB session; the boot configuration; the hooks.
  \<^item> \<open>Loader\<close> (\<open>overlay/kernel/main.c\<close>, \<open>overlay/vsh/main.c\<close>): which applications the shell shows as PSP games and into
    which processes the kernel loads the modules, SceCompat's memory blocks, and the two modules' hooks.
  \<^item> \<open>KernelPatch\<close>, \<open>Btcnf\<close> (\<open>overlay/cef/\<close>: \<open>payloadex/main.c\<close>, \<open>rebootex/main.c\<close> and the files of \<open>systemctrl/\<close>): how
    the PSP modules patch the emulated kernel, over loads, stores and macros that are parameters, and the module that is
    inserted into the loader's list.
  \<^item> \<open>SysMain\<close> (\<open>overlay/cef/systemctrl/main.c\<close>): the handler that runs at the start of every module of the emulated
    console and chooses its patches, and the set-up of the running system, which happens once.
  \<^item> \<open>Font\<close>, \<open>Console\<close> (\<open>src/vita/ebooter/\<close>): the ebooter's checks and its text screen, pixel by pixel, with the grid of
    characters it is the picture of.
  The last sections of this theory hold what spans components: the menu's requests and the service that may lose
  them, the title the service shares and the header of a save state, and the converter the kernel runs before it
  decides whether a process is a bubble.

  \<^bold>\<open>Conventions.\<close> Errors are negative integers as in the code; undefined behaviour is \<open>None\<close>. 32-bit values
  whose wrap-around matters are words. Kernel calls are record fields over an abstract world \<open>'w\<close>; what a property
  relies on is a named hypothesis, and its witness instantiates it. Loops over data are recursive functions with
  their measures; loops that may run for ever are \<open>partial_function (option)\<close>, and a property states when they
  return.

  \<^bold>\<open>Not modelled.\<close> Drawing and shaders (\<open>src/vita/shaders/\<close>, and \<open>drawMenu\<close> and \<open>drawStates\<close> but for the memory
  they read): pixels on a device. The streaming, dictionary and safe variants of LZ4: nothing calls them; nor the lengths
  of 4 GiB and more that a hostile block can name. What the patches of \<open>overlay/cef/\<close> do to the kernel's behaviour: the
  code they change and the macros that write it are outside the repository.
  \<open>SendAdrenalineCmd\<close>: the layout of a request is in a header outside the repository. The audio and display hooks of
  \<open>overlay/user/main.c\<close> and the thread and memory set-up of its entry.
\<close>

section \<open>Leaving the menu and the service\<close>

text \<open>
  What the calls of \<open>ExitAdrenalineMenu\<close> do to the list \<open>V w\<close> of requests sent: a request is appended, and nothing else
  sends any.
\<close>

definition requests_logged :: "'w menu_sys \<Rightarrow> ('w \<Rightarrow> psp_cmd list) \<Rightarrow> bool" where
  "requests_logged sys V \<longleftrightarrow>
     (\<forall>c w. V (SendAdrenalineRequest (m_states sys) c w) = V w @ [c])
     \<and> (\<forall>w. V (SetPspemuFrameBuffer sys w) = V w) \<and> (\<forall>w. V (signal_settings_sema sys w) = V w)
     \<and> (\<forall>t w. V (free_texture (m_states sys) t w) = V w)
     \<and> (\<forall>p f n w. V (snd (sceIoOpen (st_io (m_states sys)) p f n w)) = V w)
     \<and> (\<forall>fd d w. V (snd (sceIoWrite (st_io (m_states sys)) fd d w)) = V w)
     \<and> (\<forall>fd w. V (snd (sceIoClose (st_io (m_states sys)) fd w)) = V w)"

lemma save_sends_nothing:
  assumes "requests_logged sys V" "save_settings env sys (m, w) = (m', w')"
  shows "V w' = V w \<and> old_config (m_set m') = old_config (m_set m) \<and> ms_location (config (m_set m')) = ms_location (config (m_set m))"
proof -
  have o: "V (write_object (st_io (m_states sys)) p d w) = V w" for p d w
    using assms(1) by (simp add: write_object_def requests_logged_def case_prod_beta Let_def)
  show ?thesis
    using assms(2) o by (auto simp: save_settings_def saveConfigs_def with_magic_def Let_def split: if_splits)
qed

lemma finish_sends_nothing:
  assumes "requests_logged sys V"
  shows "V (snd (finishStates (m_states sys) ui w)) = V w"
proof -
  have t: "V (free_tex (m_states sys) e w) = V w" for e w
    using assms by (simp add: free_tex_def requests_logged_def split: option.split)
  have "V (fold (\<lambda>e w. if num e \<noteq> -1 then free_tex (m_states sys) e w else w) es w) = V w" for es
    using t by (induction es arbitrary: w) auto
  then show ?thesis
    by (simp add: finishStates_def split: option.split)
qed

lemma bubble_exit_requests:
  assumes "requests_logged sys V" "\<not> me_adr_id env" "\<forall>w. \<not> pops sys w" "ExitAdrenalineMenu env sys (ui, m, w) = (ui', m', w')"
  shows "V w' = V w @ PSP_CMD_RESUME
     # (if ms_location (old_config (m_set m)) \<noteq> ms_location (config (m_set m)) then [PSP_CMD_REINSERT_MS] else [])"
proof -
  obtain m1 w1 where s: "save_settings env sys (m, w) = (m1, w1)"
    by fastforce
  note r = assms(1) [unfolded requests_logged_def]
  have "V (snd (leave_menu env sys (m, w))) = V w @ PSP_CMD_RESUME
     # (if ms_location (old_config (m_set m)) \<noteq> ms_location (config (m_set m)) then [PSP_CMD_REINSERT_MS] else [])"
    using save_sends_nothing [OF assms(1) s] assms(2,3) r by (simp add: leave_menu_def s request_def)
  then show ?thesis
    using assms(4) finish_sends_nothing [OF assms(1)]
    by (auto simp: ExitAdrenalineMenu_def exit_menu_def case_prod_beta Let_def)
qed

text \<open>
  C29: leaving the menu of a bubble can leave the game suspended. With a new memory-stick location the menu sends RESUME
  and REINSERT_MS one after the other; nothing keeps the service from reading the one cell only then, so it may insert
  the memory stick and stop there, and the suspended threads are never resumed, although the menu is closed.
\<close>

theorem exit_may_keep_suspended:
  assumes "requests_logged sys V" and "\<not> me_adr_id env" and "\<forall>w. \<not> pops sys w"
    and "ms_location (old_config (m_set m)) \<noteq> ms_location (config (m_set m))"
    and "ExitAdrenalineMenu env sys (ui, m, w) = (ui', m', w')" and "idle s"
  shows "\<exists>es s'. link_runs service es s s' \<and> V w' = V w @ sent es \<and> idle s' \<and> ran es = [PSP_CMD_REINSERT_MS]
     \<and> tctl (psp_side s') = tctl (psp_side s) \<and> world s' = insert_ms service (world s) \<and> \<not> menu_open m'"
proof -
  have v: "V w' = V w @ [PSP_CMD_RESUME, PSP_CMD_REINSERT_MS]"
    using bubble_exit_requests [OF assms(1-3,5)] assms(4) by simp
  define s1 where "s1 = s\<lparr>psp_side := with_cmd PSP_CMD_REINSERT_MS (with_cmd PSP_CMD_RESUME (psp_side s)), semaphore := 1\<rparr>"
  have "\<not> menu_open m'"
    using assms(5) by (auto simp: ExitAdrenalineMenu_def exit_menu_def leave_menu_def case_prod_beta Let_def)
  moreover have 1: "link_runs service [Sent PSP_CMD_RESUME, Sent PSP_CMD_REINSERT_MS] s s1"
    unfolding s1_def by (rule posted_twice [OF assms(6)])
  moreover have 2: "link_runs service [Ran PSP_CMD_REINSERT_MS] s1 (s1\<lparr>psp_side := psp_side s1, world := insert_ms service (world s), semaphore := 0\<rparr>)"
    using assms(6) by (intro turn_runs) (simp_all add: s1_def adrenaline_turn_def clears_cmd_def idle_def)
  ultimately show ?thesis
    using runs_append [OF 2 1] v assms(6) by (fastforce simp: s1_def idle_def with_cmd_def)
qed

text \<open>An emulator whose world is the list of the requests it was sent.\<close>

definition log_states :: "psp_cmd list states_sys" where
  "log_states = \<lparr>st_io = \<lparr>sceIoOpen = (\<lambda>p f m w. (1, w)), sceIoRead = (\<lambda>fd n w. (0, [], w)),
       sceIoWrite = (\<lambda>fd d w. (int (length d), w)), sceIoLseek = (\<lambda>fd n b w. (n, w)), sceIoClose = (\<lambda>fd w. (0, w)),
       sceIoGetstat = (\<lambda>p w. (0, w)), sceIoRemove = (\<lambda>p w. (0, w))\<rparr>,
     st_mkdir = (\<lambda>p w. w), st_dopen = (\<lambda>p w. (-1, w)), st_dread = (\<lambda>d w. (0, [], w)), st_dclose = (\<lambda>d w. w),
     st_getstat = (\<lambda>p w. (0, 0, [], w)), create_texture = (\<lambda>w. (None, w)), fill_texture = (\<lambda>t d w. w),
     free_texture = (\<lambda>t w. w), malloc_ok = (\<lambda>n w. True), draw_native = (\<lambda>w. False), pops_mode = (\<lambda>w. False),
     native_pixels = (\<lambda>w n. 0), pops_pixels = (\<lambda>w n. 0), psp_pixels = (\<lambda>w n. 0), set_state_num = (\<lambda>n w. w),
     stop_usb = (\<lambda>w. w), SendAdrenalineRequest = (\<lambda>c w. w @ [c])\<rparr>"

definition log_menu :: "psp_cmd list menu_sys" where
  "log_menu = \<lparr>m_states = log_states, scale_up = (\<lambda>x. x + 1), scale_down = (\<lambda>x. x - 1), scale_positive = (\<lambda>x. 0 < x),
     game_mode = (\<lambda>w. True), psp_cmd_none = (\<lambda>w. True), ScePspemuPausePops = (\<lambda>b w. w), SetPspemuFrameBuffer = (\<lambda>w. w),
     signal_settings_sema = (\<lambda>w. w), scePowerRequestSuspend = (\<lambda>w. w), launch_by_name = (\<lambda>t w. (0, w)),
     ScePspemuErrorExit = (\<lambda>w. w), ScePspemuSettingsHandler = (\<lambda>a w. (0, w)), delay_thread = (\<lambda>n w. w)\<rparr>"

lemma log_menu_logged: "requests_logged log_menu (\<lambda>w. w)"
  by (simp add: requests_logged_def log_menu_def log_states_def)

definition moved_menu :: menu where
  "moved_menu = menu_sample\<lparr>m_set := (m_set menu_sample)\<lparr>config := zero_config\<lparr>ms_location := 1\<rparr>, changed := True\<rparr>\<rparr>"

definition suspended_link :: "(int list \<times> nat) link" where
  "suspended_link = console_link\<lparr>psp_side := console_psp\<lparr>tctl := console_suspended\<rparr>, world := ([11], 0)\<rparr>"

theorem exit_may_keep_suspended_witness:
  "\<exists>ui' m' w' es s'. ExitAdrenalineMenu menu_sample_env log_menu (states_sample_ui, moved_menu, []) = (ui', m', w')
     \<and> link_runs console_calls es suspended_link s' \<and> w' = sent es \<and> suspended_count (tctl (psp_side s')) = 2 \<and> world s' = ([11], 1)"
proof -
  obtain ui' m' w' where e: "ExitAdrenalineMenu menu_sample_env log_menu (states_sample_ui, moved_menu, []) = (ui', m', w')"
    by (metis prod_cases3)
  have h: "\<not> me_adr_id menu_sample_env" "\<forall>w. \<not> pops log_menu w"
    "ms_location (old_config (m_set moved_menu)) \<noteq> ms_location (config (m_set moved_menu))" "idle suspended_link"
    by (simp_all add: menu_sample_env_def pops_def log_menu_def log_states_def moved_menu_def menu_sample_def zero_config_def
        config_of_bytes_def Let_def words_of_zero_bytes sizeof_AdrenalineConfig_def suspended_link_def idle_def console_link_def)
  have c: "suspended_count (tctl (psp_side suspended_link)) = 2" "insert_ms console_calls (world suspended_link) = ([11], 1)"
    by (simp_all add: suspended_link_def console_suspended_def console_calls_def)
  show ?thesis
    using exit_may_keep_suspended [OF log_menu_logged h(1-3) e h(4), of console_calls] e c by force
qed

section \<open>Titles and save states\<close>

lemma save_needs_title:
  assumes "0 \<le> fst (sceIoOpen (host sys) (makeSaveStatePath location (a_num adr) @ ''.tmp'') {O_WRONLY} 511 w)" "\<not> terminated (a_title adr)"
  shows "SaveState cfg sys cd location blk adr ram ds w = None"
  using assms by (auto simp: SaveState_def Let_def case_prod_beta strcpy_eq)

text \<open>
  C34: a game with a long title cannot be saved. When the service has read a TITLE of 128 or more bytes, the title it
  shares has no terminator, and saving the state of that game, once its temporary file is open, copies past the title
  and the header's title. With a shorter one the copy is the title.
\<close>

theorem long_title_breaks_save:
  assumes "fs_contract (info_io isys) V" and "bootfrom isys = PSP_BOOT_DISC" and "files (V w) ''disc0:/PSP_GAME/PARAM.SFO'' = Some d"
    and "length d < 2 ^ 31" and "\<forall>w. \<exists>b w'. alloc_kernel isys (of_nat (length d)) w = (b, raw, w') \<and> 0 \<le> b \<and> V w' = V w"
    and "length raw = length d" and "\<forall>b w. V (free_kernel isys b w) = V w" and "title_entry lay d k v"
    and "init_keyconfig isys = KEYCONFIG_GAME" and "initAdrenalineInfo lay isys stack w = Some (adr, w')"
    and "0 \<le> fst (sceIoOpen (host sys) (makeSaveStatePath location (a_num adr) @ ''.tmp'') {O_WRONLY} 511 w2)"
  shows "if length (cstr v) < 128
     then strcpy (replicate 0x80 NUL) (a_title adr) = Some (cstr v @ replicate (128 - length (cstr v)) NUL)
     else SaveState cfg sys cd location blk adr ram ds w2 = None"
proof -
  obtain t w1 where t: "getSfoTitle lay isys stack 128 w = Some (0, t, w1)" "t = pad_to 128 (take 128 (cstr v))"
      "terminated t \<longleftrightarrow> length (cstr v) < 128"
    using title_read [OF assms(1-8), of stack] by blast
  have a: "a_title adr = t"
    using assms(9,10) t(1) by (auto simp: initAdrenalineInfo_def info_title_def split: Option.bind_splits)
  show ?thesis
  proof (cases "length (cstr v) < 128")
    case True
    have c: "NUL \<notin> set (cstr v)"
      by (auto simp: cstr_def dest: set_takeWhileD)
    have n: "128 - length (cstr v) = Suc (127 - length (cstr v))"
      using True by simp
    have "cstr t = cstr v"
      using True c by (auto simp: t(2) pad_to_def cstr_def takeWhile_append takeWhile_eq_all_conv)
    then show ?thesis
      using True t(3) by (simp add: a strcpy_eq n)
  next
    case False
    then show ?thesis
      using save_needs_title [OF assms(11)] t(3) a by simp
  qed
qed

text \<open>The parameter file of the sample with a title of 130 bytes, and a memory stick with the file of the first state.\<close>

definition long_sfo :: "byte list" where
  "long_sfo = take 70 sample_sfo @ replicate 130 CHR ''A'' @ [NUL]"

definition long_sample_files :: mem where
  "long_sample_files = \<lparr>mfiles = [''disc0:/PSP_GAME/PARAM.SFO'' \<mapsto> long_sfo, makeSaveStatePath 0 0 @ ''.tmp'' \<mapsto> []], mdirs = [], mhandles = []\<rparr>"

lemma long_sfo_parts: "length long_sfo = 201" "drop 70 long_sfo = replicate 130 CHR ''A'' @ [NUL]"
  by (simp_all add: long_sfo_def sample_sfo_def numeral_eq_Suc)

lemma long_title: "title_entry sample_layout long_sfo 1 (drop 70 long_sfo)"
  unfolding long_sfo_parts(2)
  by (simp add: title_entry_def sfo_name_def sfo_value_def in_block_def text_at_def sample_layout_def long_sfo_def sample_sfo_def
      numeral_eq_Suc)

theorem long_title_breaks_save_witness:
  "\<exists>adr w'. initAdrenalineInfo sample_layout sample_info [] long_sample_files = Some (adr, w')
     \<and> SaveState msfs_sample_cfg state_sample_msfs state_sample_codec 0 [] adr [] [] long_sample_files = None"
proof -
  have len: "length (cstr (drop 70 long_sfo)) = 130"
    unfolding long_sfo_parts(2) cstr_def by (subst takeWhile_append2) simp_all
  have m: "host state_sample_msfs = mem_io" "info_io sample_info = mem_io"
    by (simp_all add: state_sample_msfs_def mem_msfs_def sample_info_def)
  have h: "fs_contract (info_io sample_info) mem_view" "bootfrom sample_info = PSP_BOOT_DISC"
    "files (mem_view long_sample_files) ''disc0:/PSP_GAME/PARAM.SFO'' = Some long_sfo" "length long_sfo < 2 ^ 31"
    "\<forall>w. \<exists>b w'. alloc_kernel sample_info (of_nat (length long_sfo)) w = (b, replicate 201 NUL, w') \<and> 0 \<le> b \<and> mem_view w' = mem_view w"
    "length (replicate 201 NUL) = length long_sfo" "\<forall>b w. mem_view (free_kernel sample_info b w) = mem_view w"
    using mem_contract
    by (simp_all add: sample_info_def mem_view_def long_sfo_parts(1) long_sample_files_def makeSaveStatePath_def)
  obtain title w1 where t: "getSfoTitle sample_layout sample_info [] 128 long_sample_files = Some (0, title, w1)"
    using title_read [OF h long_title, of "[]"] by blast
  have k: "init_keyconfig sample_info = KEYCONFIG_GAME"
    by (simp add: sample_info_def)
  obtain adr where a: "initAdrenalineInfo sample_layout sample_info [] long_sample_files = Some (adr, w1)" "a_num adr = 0"
    using t by (simp add: initAdrenalineInfo_def info_title_def sample_info_def empty_adrenaline_def)
  have o: "0 \<le> fst (sceIoOpen (host state_sample_msfs) (makeSaveStatePath 0 (a_num adr) @ ''.tmp'') {O_WRONLY} 511 long_sample_files)"
    using open_holds [OF mem_contract, of long_sample_files "makeSaveStatePath 0 0 @ ''.tmp''" "[]" "{O_WRONLY}" 511]
    by (auto simp: m a(2) long_sample_files_def mem_view_def)
  show ?thesis
    using long_title_breaks_save [OF h long_title k a(1) o, of msfs_sample_cfg state_sample_codec "[]" "[]"] len a(1) by auto
qed

section \<open>From boot.inf to a running bubble\<close>

lemma converted_boot_image:
  assumes "length p \<le> 256"
  shows "rd32 (take 4 (boot_info_bytes (converted_boot p))) = BOOT_INFO_MAGIC"
    "length (boot_info_bytes (converted_boot p)) = sizeof_BootInfo"
proof -
  have v: "valid_boot_info (converted_boot p)"
    using assms zero_boot_info_valid by (simp add: converted_boot_def valid_boot_info_def)
  show "length (boot_info_bytes (converted_boot p)) = sizeof_BootInfo"
    by (rule boot_info_bytes_length [OF v])
  have "magic (boot_info_of_bytes (boot_info_bytes (converted_boot p))) = BOOT_INFO_MAGIC"
    unfolding boot_info_roundtrip [OF v] by (simp add: converted_boot_def)
  then show "rd32 (take 4 (boot_info_bytes (converted_boot p))) = BOOT_INFO_MAGIC"
    by (simp add: magic_of_bytes)
qed

text \<open>
  C4: a bubble with a textual \<open>boot.inf\<close> and no \<open>boot.bin\<close>. When its process starts, the kernel runs the converter in it
  and looks at the result: the booter and the user module are loaded exactly when the converter has left a \<open>boot.bin\<close>,
  which then names the content of the last \<open>PATH\<close> line, and that content exists. When the content exists \<open>boot.inf\<close> is
  gone either way: a bubble whose \<open>boot.bin\<close> could not be written is not started now nor later.
\<close>

theorem converted_bubble_starts:
  assumes "fs_contract (ld_io ld) V" and "fs_contract (vita_io sys) V" and "length info = sizeof_BootInfo"
    and "start_preloaded ld pid w = (res, w1)" and "V w1 = V w" and "process_title ld pid w1 = t"
    and "t \<noteq> ''main''" and "take 6 t \<noteq> take 6 ADRENALINE_TITLEID"
    and "\<forall>u. launched_as sys t u"
    and "\<forall>u. load_start_for ld pid (sce_module ''bootconv'') u
           = (case bc_module_start isage sys bc_bss_init u of Some (_, _, u') \<Rightarrow> u' | None \<Rightarrow> u)"
    and "files (V w) (boot_inf_of t) = Some ini" and "ini_readable ''PATH'' ini" and "\<not> path_exists (V w) (boot_bin_of t)"
    and "ini_value_of ''PATH'' (lines_of (ini_text ini)) = Some v" and "CHR '':'' \<in> set (take 255 v)"
  defines "p \<equiv> converted_path isage (config_image (V w)) v"
  shows "\<exists>started i w'. ksceKernelStartPreloadedModulesPatched ld pid (info, w)
       = Some (res, i, if started
                       then load_start_for ld pid (sce_module ''adrenaline_user'')
                              (load_start_for ld pid (sce_module ''adrbubblebooter'') w')
                       else w')
     \<and> (if started then path_exists (V w) p \<and> files (V w') (boot_bin_of t) = Some (boot_info_bytes (converted_boot p))
        else files (V w') (boot_bin_of t) = None)
     \<and> (path_exists (V w) p = (files (V w') (boot_inf_of t) = None))"
proof -
  have names: "boot_inf_of t = boot_inf_file t" "boot_bin_of t = boot_info_file t" "boot_inf_file t \<noteq> boot_info_file t"
    by (simp_all add: boot_inf_of_def boot_bin_of_def boot_inf_file_def boot_info_file_def)
  have other: "t \<noteq> BC_TITLE_ID"
    using assms(8) by (auto simp: BC_TITLE_ID_def ADRENALINE_TITLEID_def)
  obtain c w2 where c: "CheckFile (ld_io ld) (boot_inf_file t) w1 = (c, w2)" "0 \<le> c" "V w2 = V w"
    using check_file_result [OF assms(1), of "boot_inf_file t" w1] assms(5,11) names(1) by auto
  obtain o' s' w3 where run: "bc_module_start isage sys bc_bss_init w2 = Some (o', s', w3)"
    and v: "if path_exists (V w) p
        then V w3 = (V w)\<lparr>files := (files (V w)) (boot_bin_of t := Some (boot_info_bytes (converted_boot p)), boot_inf_of t := None)\<rparr>
             \<or> V w3 = (V w)\<lparr>files := (files (V w))(boot_inf_of t := None)\<rparr>
        else V w3 = V w"
    using bc_module_start_eq [of sys V t w2 ini v isage, unfolded c(3), folded p_def] assms(2,9,11-15) other
    by (auto split: if_splits)
  have conv: "load_start_for ld pid (sce_module ''bootconv'') w2 = w3"
    using assms(10) run by simp
  obtain r w4 where r: "ReadFile (ld_io ld) (boot_info_file t) info sizeof_BootInfo w3
      = Some (r, after_read (files (V w3) (boot_info_file t)) info, w4)" "0 \<le> r \<longleftrightarrow> files (V w3) (boot_info_file t) \<noteq> None" "V w4 = V w3"
    using read_file_result [OF assms(1,3), of "boot_info_file t" w3] by blast
  have none: "files (V w) (boot_bin_of t) = None"
    using assms(13) by (simp add: path_exists_def)
  have small: "4 \<le> sizeof_BootInfo"
    by (simp add: sizeof_BootInfo_def)
  have m: "rd32 (take 4 (boot_info_bytes (converted_boot p))) = BOOT_INFO_MAGIC" "length (boot_info_bytes (converted_boot p)) = sizeof_BootInfo"
    by (rule converted_boot_image, simp add: p_def converted_path_def)+
  define started where "started \<longleftrightarrow> files (V w3) (boot_info_file t) \<noteq> None"
  have "is_bubble t r (after_read (files (V w3) (boot_info_file t)) info) = started"
    using r(2) v none assms(3,8) m small
    by (auto simp: started_def min_def is_bubble_def after_read_def names magic_of_bytes overlay_def split: if_splits)
  then have k: "ksceKernelStartPreloadedModulesPatched ld pid (info, w)
       = Some (res, after_read (files (V w3) (boot_info_file t)) info, if started
                       then load_start_for ld pid (sce_module ''adrenaline_user'')
                              (load_start_for ld pid (sce_module ''adrbubblebooter'') w4)
                       else w4)"
    using c conv r(1) assms(4,6,7) by (simp add: ksceKernelStartPreloadedModulesPatched_def)
  show ?thesis
    using k v none assms(11) names(3) r(3)
    by (intro exI [of _ started] exI conjI) (assumption | auto simp: started_def names split: if_splits)+
qed

definition converting_loader :: "mem loader_sys" where
  "converting_loader = loader_sample\<lparr>load_start_for := (\<lambda>pid p w. if p = sce_module ''bootconv''
     then (case bc_module_start False (bc_sample_sys mem_io) bc_bss_init w of Some (_, _, w') \<Rightarrow> w' | None \<Rightarrow> w) else w)\<rparr>"

theorem converted_bubble_starts_witness:
  "\<exists>i w'. ksceKernelStartPreloadedModulesPatched converting_loader 7 (replicate 320 NUL, bc_sample_mem) = Some (0, i, w')
     \<and> files (mem_view w') (boot_inf_of bc_sample_title) = None"
proof -
  have io: "fs_contract (ld_io converting_loader) mem_view" "fs_contract (vita_io (bc_sample_sys mem_io)) mem_view"
    "length (replicate 320 NUL) = sizeof_BootInfo"
    using mem_contract by (simp_all add: converting_loader_def loader_sample_def bc_sample_sys_def sizeof_BootInfo_def)
  have start: "start_preloaded converting_loader 7 bc_sample_mem = (0, bc_sample_mem)" "mem_view bc_sample_mem = mem_view bc_sample_mem"
    "process_title converting_loader 7 bc_sample_mem = bc_sample_title" "bc_sample_title \<noteq> ''main''"
    "take 6 bc_sample_title \<noteq> take 6 ADRENALINE_TITLEID" "\<forall>u. launched_as (bc_sample_sys mem_io) bc_sample_title u"
    by (simp_all add: converting_loader_def loader_sample_def bc_sample_title_def ADRENALINE_TITLEID_def launched_as_def bc_sample_sys_def)
  have conv: "\<forall>u. load_start_for converting_loader 7 (sce_module ''bootconv'') u
      = (case bc_module_start False (bc_sample_sys mem_io) bc_bss_init u of Some (_, _, u') \<Rightarrow> u' | None \<Rightarrow> u)"
    by (simp add: converting_loader_def)
  have c: "CHR '':'' \<in> set (take 255 ''ms0:/ISO/NEW.ISO'')"
    by simp
  have l: "load_start_for converting_loader 7 (sce_module m) w = w" if "m \<noteq> ''bootconv''" for m w
    using that by (simp add: converting_loader_def sce_module_def)
  show ?thesis
    using converted_bubble_starts [OF io start conv bc_sample_state(3) bc_sample_readable bc_sample_state(4) bc_sample_value c]
      bc_sample_state(5) unfolding bc_sample_path by (auto simp: l)
qed

end
